(* ===== verification/Prelude.thy ===== *)
theory Prelude
  imports Main "HOL-Library.Char_ord" "HOL-Library.List_Lexorder"
begin

text \<open>
  Shared vocabulary of the development: the exceptions of the program and the result type of
  fallible code, the reading of SQL queries over tables kept as lists of rows, Python's
  formatting of integers, and the generic lemmas the component theories rest on.

  Strings are lists of \<^typ>\<open>char\<close>; a character stands for the code point \<open>0 .. 255\<close> with its
  number.  Code points above 255 are outside the model.
\<close>

named_theorems db_frame \<open>which tables an operation leaves alone\<close>
named_theorems inv_pres \<open>operations that keep an invariant\<close>

section \<open>Exceptions and fallible code\<close>

text \<open>
  The exception classes of \<^verbatim>\<open>errors.py\<close> come first, then the module-level error classes
  (\<^verbatim>\<open>TransitionError\<close>, \<^verbatim>\<open>MoneyError\<close>, \<dots>), then those the language, SQLAlchemy and
  PostgreSQL raise.  Only the message of a \<^verbatim>\<open>TransitionError\<close> is kept, because the program
  stores it (\<^verbatim>\<open>services/stamps.py\<close>).
\<close>

datatype exn =
    ValidationFailed
  | NotFound
  | Conflict
  | IdempotencyKeyReused
  | Unauthenticated
  | Forbidden
  | RateLimited
  | IllegalState
  | CapabilityNotConfigured
  | CapabilityNotSupported
  | DependencyUnavailable
  | TransitionError string
  | MoneyError
  | SerialError
  | SamplingError
  | CanonicalisationError
  | SignatureError
  | ValueError
  | TypeError
  | KeyError
  | LookupError
  | OverflowError
  | OSError
  | AttributeError
  | DecimalError
  | IntegrityError
  | DataError
  | NoResultFound
  | MultipleResultsFound
  | PydanticValidationError
  | RequestValidationError

type_synonym 'a res = "exn + 'a"

text \<open>Sequencing of fallible code: an exception skips the rest.\<close>

definition bind_res :: "'a res \<Rightarrow> ('a \<Rightarrow> 'b res) \<Rightarrow> 'b res" where
  "bind_res m f = (case m of Inl e \<Rightarrow> Inl e | Inr x \<Rightarrow> f x)"

lemma bind_res_simps [simp]:
  "bind_res (Inl e) f = Inl e"
  "bind_res (Inr x) f = f x"
  by (simp_all add: bind_res_def)

lemma bind_res_eq_Inr [simp]: "bind_res m f = Inr y \<longleftrightarrow> (\<exists>x. m = Inr x \<and> f x = Inr y)"
  by (cases m) auto

lemma bind_res_eq_Inl: "bind_res m f = Inl e \<longleftrightarrow> m = Inl e \<or> (\<exists>x. m = Inr x \<and> f x = Inl e)"
  by (cases m) auto

definition is_ok :: "'a res \<Rightarrow> bool" where
  "is_ok m = (case m of Inl _ \<Rightarrow> False | Inr _ \<Rightarrow> True)"

lemma is_ok_simps [simp]: "\<not> is_ok (Inl e)" "is_ok (Inr x)"
  by (simp_all add: is_ok_def)

lemma is_ok_iff: "is_ok m \<longleftrightarrow> (\<exists>x. m = Inr x)"
  by (cases m) auto

lemma if_Inl_eq_Inr [simp]:
  "(if b then Inl e else m) = Inr x \<longleftrightarrow> \<not> b \<and> m = Inr x"
  "(if b then m else Inl e) = Inr x \<longleftrightarrow> b \<and> m = Inr x"
  by auto

text \<open>\<^verbatim>\<open>try: m; except IntegrityError: h\<close>\<close>

definition except_integrity :: "'a res \<Rightarrow> 'a res \<Rightarrow> 'a res" where
  "except_integrity m h = (case m of Inl e \<Rightarrow> if e = IntegrityError then h else Inl e | Inr x \<Rightarrow> Inr x)"

lemma except_integrity_Inr [simp]:
  "except_integrity m h = Inr x \<longleftrightarrow> m = Inr x \<or> (m = Inl IntegrityError \<and> h = Inr x)"
  by (auto simp: except_integrity_def split: sum.splits)

lemma except_integrity_simps [simp]:
  "except_integrity (Inr x) h = Inr x"
  "except_integrity (Inl IntegrityError) h = h"
  by (simp_all add: except_integrity_def)

section \<open>Tables and queries\<close>

text \<open>
  A table is the list of its rows.  \<^verbatim>\<open>scalar_one_or_none\<close> of SQLAlchemy raises when a query
  returns several rows; \<^verbatim>\<open>scalar_one\<close> raises on an empty result as well.
\<close>

definition scalar_one_or_none :: "'a list \<Rightarrow> 'a option res" where
  "scalar_one_or_none rows =
     (case rows of [] \<Rightarrow> Inr None | [r] \<Rightarrow> Inr (Some r) | _ \<Rightarrow> Inl MultipleResultsFound)"

definition scalar_one :: "'a list \<Rightarrow> 'a res" where
  "scalar_one rows =
     (case rows of [] \<Rightarrow> Inl NoResultFound | [r] \<Rightarrow> Inr r | _ \<Rightarrow> Inl MultipleResultsFound)"

text \<open>\<^verbatim>\<open>UPDATE \<dots> WHERE p\<close>: the rows that satisfy \<open>p\<close> are changed by \<open>f\<close>.\<close>

definition update_where :: "('a \<Rightarrow> bool) \<Rightarrow> ('a \<Rightarrow> 'a) \<Rightarrow> 'a list \<Rightarrow> 'a list" where
  "update_where p f rows = map (\<lambda>r. if p r then f r else r) rows"

lemma scalar_one_or_none_simps [simp]:
  "scalar_one_or_none [] = Inr None"
  "scalar_one_or_none [r] = Inr (Some r)"
  "scalar_one_or_none (r # r' # rs) = Inl MultipleResultsFound"
  by (simp_all add: scalar_one_or_none_def)

lemma scalar_one_simps [simp]:
  "scalar_one [] = Inl NoResultFound"
  "scalar_one [r] = Inr r"
  "scalar_one (r # r' # rs) = Inl MultipleResultsFound"
  by (simp_all add: scalar_one_def)

lemma scalar_one_or_none_None [simp]: "scalar_one_or_none rows = Inr None \<longleftrightarrow> rows = []"
  by (auto simp: scalar_one_or_none_def split: list.splits)

lemma scalar_one_or_none_Some [simp]: "scalar_one_or_none rows = Inr (Some r) \<longleftrightarrow> rows = [r]"
  by (auto simp: scalar_one_or_none_def split: list.splits)

lemma scalar_one_Inr [simp]: "scalar_one rows = Inr r \<longleftrightarrow> rows = [r]"
  by (auto simp: scalar_one_def split: list.splits)

lemma update_where_simps [simp]:
  "update_where p f [] = []"
  "update_where p f (r # rs) = (if p r then f r else r) # update_where p f rs"
  by (simp_all add: update_where_def)

lemma length_update_where [simp]: "length (update_where p f rows) = length rows"
  by (simp add: update_where_def)

lemma set_update_where: "set (update_where p f rows) = (\<lambda>r. if p r then f r else r) ` set rows"
  by (simp add: update_where_def)

lemma update_where_append [simp]:
  "update_where p f (xs @ ys) = update_where p f xs @ update_where p f ys"
  by (simp add: update_where_def)

lemma map_update_where_same:
  "(\<And>r. p r \<Longrightarrow> g (f r) = g r) \<Longrightarrow> map g (update_where p f rows) = map g rows"
  by (induction rows) auto

lemma filter_update_where_other:
  "(\<And>r. p r \<Longrightarrow> q r \<Longrightarrow> False) \<Longrightarrow> (\<And>r. p r \<Longrightarrow> \<not> q (f r)) \<Longrightarrow>
    filter q (update_where p f rows) = filter q rows"
  by (induction rows) auto

lemma filter_update_where_same:
  "(\<And>r. p r \<Longrightarrow> q (f r) = q r) \<Longrightarrow>
    filter q (update_where p f rows) = update_where p f (filter q rows)"
  by (induction rows) auto

lemma filter_eq_singletonD: "filter p xs = [x] \<Longrightarrow> x \<in> set xs \<and> p x"
  by (induction xs) (auto split: if_splits)

lemma filter_eq_singleton_unique:
  "filter p xs = [x] \<Longrightarrow> y \<in> set xs \<Longrightarrow> p y \<Longrightarrow> y = x"
  by (induction xs) (auto split: if_splits simp: filter_empty_conv)

lemma filter_key_singleton:
  "distinct (map k xs) \<Longrightarrow> x \<in> set xs \<Longrightarrow> filter (\<lambda>y. k y = k x) xs = [x]"
proof (induction xs)
  case (Cons z zs)
  show ?case
  proof (cases "z = x")
    case True
    with Cons.prems have "filter (\<lambda>y. k y = k x) zs = []"
      by (auto simp: filter_empty_conv intro: rev_image_eqI)
    with True show ?thesis by simp
  next
    case False
    with Cons.prems have "x \<in> set zs" and "k z \<noteq> k x" by auto
    with Cons show ?thesis by simp
  qed
qed simp

lemma key_unique: "distinct (map k xs) \<Longrightarrow> x \<in> set xs \<Longrightarrow> y \<in> set xs \<Longrightarrow> k x = k y \<Longrightarrow> x = y"
  by (auto simp: distinct_map dest: inj_onD)

text \<open>Replacing the row with a given key replaces that row and no other.\<close>

lemma update_row_by_key:
  assumes "distinct (map k rows)" and "r \<in> set rows"
  shows "update_where (\<lambda>x. k x = k r) (\<lambda>_. r') rows = map (\<lambda>x. if x = r then r' else x) rows"
  using assms by (auto simp: update_where_def distinct_map dest: inj_onD)

section \<open>Formatting of integers\<close>

text \<open>\<^verbatim>\<open>str(n)\<close> and \<^verbatim>\<open>int(s)\<close> on decimal digits.\<close>

definition digit_char :: "nat \<Rightarrow> char" where
  "digit_char d = char_of (48 + d)"

definition digit_val :: "char \<Rightarrow> nat" where
  "digit_val c = of_char c - 48"

definition is_digit :: "char \<Rightarrow> bool" where
  "is_digit c = (48 \<le> (of_char c :: nat) \<and> (of_char c :: nat) \<le> 57)"

definition is_upper :: "char \<Rightarrow> bool" where
  "is_upper c = (65 \<le> (of_char c :: nat) \<and> (of_char c :: nat) \<le> 90)"

fun nat_str :: "nat \<Rightarrow> string" where
  "nat_str n = (if n < 10 then [digit_char n] else nat_str (n div 10) @ [digit_char (n mod 10)])"

declare nat_str.simps [simp del]

definition int_str :: "int \<Rightarrow> string" where
  "int_str i = (if i < 0 then ''-'' @ nat_str (nat (- i)) else nat_str (nat i))"

definition str_nat :: "string \<Rightarrow> nat" where
  "str_nat s = foldl (\<lambda>a c. 10 * a + digit_val c) 0 s"

text \<open>\<^verbatim>\<open>f"{n:0wd}"\<close>: decimal digits, filled with zeros on the left up to the width.\<close>

definition zero_pad :: "nat \<Rightarrow> string \<Rightarrow> string" where
  "zero_pad w s = replicate (w - length s) CHR ''0'' @ s"

lemma of_char_digit_char [simp]: "d < 10 \<Longrightarrow> (of_char (digit_char d) :: nat) = 48 + d"
  by (simp add: digit_char_def)

lemma digit_val_digit_char [simp]: "d < 10 \<Longrightarrow> digit_val (digit_char d) = d"
  by (simp add: digit_val_def)

lemma is_digit_digit_char [simp]: "d < 10 \<Longrightarrow> is_digit (digit_char d)"
  by (simp add: is_digit_def)

lemma digit_char_digit_val [simp]: "is_digit c \<Longrightarrow> digit_char (digit_val c) = c"
  by (simp add: is_digit_def digit_val_def digit_char_def)

lemma digit_val_less [simp]: "is_digit c \<Longrightarrow> digit_val c < 10"
  by (auto simp: is_digit_def digit_val_def)

lemma digit_val_inj: "is_digit c \<Longrightarrow> is_digit d \<Longrightarrow> digit_val c = digit_val d \<Longrightarrow> c = d"
  by (metis digit_char_digit_val)

lemma str_nat_snoc [simp]: "str_nat (s @ [c]) = 10 * str_nat s + digit_val c"
  by (simp add: str_nat_def)

lemma str_nat_Nil [simp]: "str_nat [] = 0"
  by (simp add: str_nat_def)

lemma nat_str_nonempty [simp]: "nat_str n \<noteq> []"
  by (subst nat_str.simps) simp

lemma nat_str_digits: "list_all is_digit (nat_str n)"
proof (induction n rule: nat_str.induct)
  case (1 n)
  then show ?case by (subst nat_str.simps) simp
qed

lemma str_nat_nat_str [simp]: "str_nat (nat_str n) = n"
proof (induction n rule: nat_str.induct)
  case (1 n)
  show ?case
  proof (cases "n < 10")
    case True
    then show ?thesis by (subst nat_str.simps) (simp add: str_nat_def)
  next
    case False
    with 1 show ?thesis by (subst nat_str.simps) simp
  qed
qed

lemma nat_str_inj [simp]: "nat_str m = nat_str n \<longleftrightarrow> m = n"
  by (metis str_nat_nat_str)

lemma length_nat_str_le: "n < 10 ^ w \<Longrightarrow> 0 < w \<Longrightarrow> length (nat_str n) \<le> w"
proof (induction w arbitrary: n)
  case (Suc w)
  show ?case
  proof (cases "n < 10")
    case True
    then show ?thesis by (subst nat_str.simps) simp
  next
    case False
    with Suc.prems have "n div 10 < 10 ^ w" by (simp add: less_mult_imp_div_less mult.commute)
    moreover from False Suc.prems have "0 < w" by (cases w) auto
    ultimately have "length (nat_str (n div 10)) \<le> w" by (rule Suc.IH)
    with False show ?thesis by (subst nat_str.simps) simp
  qed
qed simp

lemma str_nat_append: "str_nat (s @ t) = str_nat s * 10 ^ length t + str_nat t"
proof (induction t rule: rev_induct)
  case (snoc c t)
  have "str_nat (s @ t @ [c]) = 10 * str_nat (s @ t) + digit_val c"
    using str_nat_snoc [of "s @ t" c] by simp
  with snoc show ?case by (simp add: algebra_simps)
qed simp

lemma str_nat_replicate_zero [simp]: "str_nat (replicate k CHR ''0'') = 0"
proof (induction k)
  case (Suc k)
  have "replicate (Suc k) CHR ''0'' = replicate k CHR ''0'' @ [CHR ''0'']"
    by (simp add: replicate_append_same)
  with Suc show ?case by (simp add: digit_val_def del: replicate_Suc)
qed simp

lemma str_nat_zero_pad [simp]: "str_nat (zero_pad w s) = str_nat s"
  by (simp add: zero_pad_def str_nat_append)

lemma length_zero_pad [simp]: "length s \<le> w \<Longrightarrow> length (zero_pad w s) = w"
  by (simp add: zero_pad_def)

lemma is_digit_zero [simp]: "is_digit CHR ''0''"
  by (simp add: is_digit_def)

lemma zero_pad_digits [simp]: "list_all is_digit s \<Longrightarrow> list_all is_digit (zero_pad w s)"
  by (auto simp: zero_pad_def list_all_iff)

lemma str_nat_less: "list_all is_digit s \<Longrightarrow> str_nat s < 10 ^ length s"
proof (induction s rule: rev_induct)
  case (snoc c s)
  then have "str_nat s < 10 ^ length s" and "digit_val c < 10" by simp_all
  then show ?case by simp
qed simp

lemma str_nat_inj:
  "list_all is_digit s \<Longrightarrow> list_all is_digit t \<Longrightarrow> length s = length t \<Longrightarrow>
    str_nat s = str_nat t \<Longrightarrow> s = t"
proof (induction s arbitrary: t rule: rev_induct)
  case (snoc c s)
  then obtain d t' where t: "t = t' @ [d]" by (metis append_butlast_last_id length_0_conv snoc_eq_iff_butlast)
  with snoc.prems have eq: "10 * str_nat s + digit_val c = 10 * str_nat t' + digit_val d"
    and "digit_val c < 10" and "digit_val d < 10" by simp_all
  then have "digit_val c = digit_val d" and "str_nat s = str_nat t'" by presburger+
  with snoc t show ?case by (auto intro: digit_val_inj)
qed simp

end
