(* ===== verification/Enums.thy ===== *)
theory Enums
  imports Prelude
begin

text \<open>
  \<^verbatim>\<open>src/taxstamp/enums.py\<close> and \<^verbatim>\<open>src/taxstamp/errors.py\<close>: the enumerations, the tables of
  permitted transitions and their assertions, and the HTTP status and code of every domain
  error.  A \<^verbatim>\<open>StrEnum\<close> is a datatype with a function to its string value.
\<close>

section \<open>Enumerations\<close>

datatype order_status =
    O_SUBMITTED | O_COMPLIANCE_PENDING | O_COMPLIANCE_REJECTED | O_AWAITING_APPROVAL
  | O_APPROVED | O_REJECTED | O_AWAITING_PAYMENT | O_PAID | O_ISSUING | O_ISSUED | O_CANCELLED

fun order_status_value :: "order_status \<Rightarrow> string" where
  "order_status_value O_SUBMITTED = ''submitted''"
| "order_status_value O_COMPLIANCE_PENDING = ''compliance_pending''"
| "order_status_value O_COMPLIANCE_REJECTED = ''compliance_rejected''"
| "order_status_value O_AWAITING_APPROVAL = ''awaiting_approval''"
| "order_status_value O_APPROVED = ''approved''"
| "order_status_value O_REJECTED = ''rejected''"
| "order_status_value O_AWAITING_PAYMENT = ''awaiting_payment''"
| "order_status_value O_PAID = ''paid''"
| "order_status_value O_ISSUING = ''issuing''"
| "order_status_value O_ISSUED = ''issued''"
| "order_status_value O_CANCELLED = ''cancelled''"

definition ORDER_TRANSITIONS :: "(order_status \<times> order_status list) list" where
  "ORDER_TRANSITIONS =
    [(O_SUBMITTED, [O_COMPLIANCE_PENDING, O_AWAITING_APPROVAL, O_CANCELLED]),
     (O_COMPLIANCE_PENDING, [O_AWAITING_APPROVAL, O_COMPLIANCE_REJECTED, O_CANCELLED]),
     (O_COMPLIANCE_REJECTED, [O_CANCELLED]),
     (O_AWAITING_APPROVAL, [O_APPROVED, O_REJECTED, O_CANCELLED]),
     (O_APPROVED, [O_AWAITING_PAYMENT, O_CANCELLED]),
     (O_REJECTED, []),
     (O_AWAITING_PAYMENT, [O_PAID, O_CANCELLED]),
     (O_PAID, [O_ISSUING]),
     (O_ISSUING, [O_ISSUED]),
     (O_ISSUED, []),
     (O_CANCELLED, [])]"

datatype stamp_status = S_ISSUED | S_ACTIVE | S_VOID | S_EXPIRED

fun stamp_status_value :: "stamp_status \<Rightarrow> string" where
  "stamp_status_value S_ISSUED = ''issued''"
| "stamp_status_value S_ACTIVE = ''active''"
| "stamp_status_value S_VOID = ''void''"
| "stamp_status_value S_EXPIRED = ''expired''"

definition STAMP_TRANSITIONS :: "(stamp_status \<times> stamp_status list) list" where
  "STAMP_TRANSITIONS =
    [(S_ISSUED, [S_ACTIVE, S_VOID, S_EXPIRED]),
     (S_ACTIVE, [S_VOID, S_EXPIRED]),
     (S_VOID, []),
     (S_EXPIRED, [S_VOID])]"

datatype batch_status = B_PENDING | B_ISSUING | B_ISSUED | B_INSPECTION_FAILED

datatype payment_intent_status = P_AWAITING_PAYMENT | P_SETTLED | P_MISMATCHED | P_CANCELLED

datatype receipt_status = R_MATCHED | R_AMOUNT_MISMATCH | R_UNKNOWN_REFERENCE | R_DUPLICATE

fun receipt_status_value :: "receipt_status \<Rightarrow> string" where
  "receipt_status_value R_MATCHED = ''matched''"
| "receipt_status_value R_AMOUNT_MISMATCH = ''amount_mismatch''"
| "receipt_status_value R_UNKNOWN_REFERENCE = ''unknown_reference''"
| "receipt_status_value R_DUPLICATE = ''duplicate''"

datatype tb_intent_state =
  TB_READY | TB_SUBMISSION_UNCERTAIN | TB_EXTERNAL_CONFIRMED | TB_POSTED | TB_REJECTED
| TB_QUARANTINED

fun tb_intent_state_value :: "tb_intent_state \<Rightarrow> string" where
  "tb_intent_state_value TB_READY = ''ready''"
| "tb_intent_state_value TB_SUBMISSION_UNCERTAIN = ''submission_uncertain''"
| "tb_intent_state_value TB_EXTERNAL_CONFIRMED = ''external_confirmed''"
| "tb_intent_state_value TB_POSTED = ''posted''"
| "tb_intent_state_value TB_REJECTED = ''rejected''"
| "tb_intent_state_value TB_QUARANTINED = ''quarantined''"

definition TIGERBEETLE_LEDGER_INTENT_TRANSITIONS ::
  "(tb_intent_state \<times> tb_intent_state list) list" where
  "TIGERBEETLE_LEDGER_INTENT_TRANSITIONS =
    [(TB_READY, [TB_SUBMISSION_UNCERTAIN, TB_REJECTED, TB_QUARANTINED]),
     (TB_SUBMISSION_UNCERTAIN,
       [TB_SUBMISSION_UNCERTAIN, TB_EXTERNAL_CONFIRMED, TB_REJECTED, TB_QUARANTINED]),
     (TB_EXTERNAL_CONFIRMED, [TB_POSTED, TB_QUARANTINED]),
     (TB_POSTED, []),
     (TB_REJECTED, []),
     (TB_QUARANTINED, [])]"

datatype approval_level = L_ANALYST | L_SUPERVISOR

datatype approval_decision = D_APPROVED | D_REJECTED

fun approval_decision_value :: "approval_decision \<Rightarrow> string" where
  "approval_decision_value D_APPROVED = ''approved''"
| "approval_decision_value D_REJECTED = ''rejected''"

datatype risk_tier = LOW | MEDIUM | HIGH

fun REQUIRED_APPROVALS :: "risk_tier \<Rightarrow> approval_level list" where
  "REQUIRED_APPROVALS LOW = [L_ANALYST]"
| "REQUIRED_APPROVALS MEDIUM = [L_ANALYST, L_SUPERVISOR]"
| "REQUIRED_APPROVALS HIGH = [L_ANALYST, L_SUPERVISOR]"

datatype verification_outcome =
  V_VALID | V_UNKNOWN_SERIAL | V_SECURE_CODE_MISMATCH | V_NOT_ACTIVE | V_VOID | V_EXPIRED
| V_VELOCITY_SUSPECT

fun verification_outcome_value :: "verification_outcome \<Rightarrow> string" where
  "verification_outcome_value V_VALID = ''valid''"
| "verification_outcome_value V_UNKNOWN_SERIAL = ''unknown_serial''"
| "verification_outcome_value V_SECURE_CODE_MISMATCH = ''secure_code_mismatch''"
| "verification_outcome_value V_NOT_ACTIVE = ''not_active''"
| "verification_outcome_value V_VOID = ''void''"
| "verification_outcome_value V_EXPIRED = ''expired''"
| "verification_outcome_value V_VELOCITY_SUSPECT = ''velocity_suspect''"

datatype role = REQUESTER | ANALYST | SUPERVISOR | TREASURY | OPERATOR | AUDITOR | ADMIN | DEVICE

fun role_value :: "role \<Rightarrow> string" where
  "role_value REQUESTER = ''requester''"
| "role_value ANALYST = ''analyst''"
| "role_value SUPERVISOR = ''supervisor''"
| "role_value TREASURY = ''treasury''"
| "role_value OPERATOR = ''operator''"
| "role_value AUDITOR = ''auditor''"
| "role_value ADMIN = ''admin''"
| "role_value DEVICE = ''device''"

datatype kyb_status = K_UNVERIFIED | K_VERIFIED | K_SUSPENDED

section \<open>Transition assertions\<close>

definition assert_transition ::
  "string \<Rightarrow> ('s \<Rightarrow> string) \<Rightarrow> ('s \<times> 's list) list \<Rightarrow> 's \<Rightarrow> 's \<Rightarrow> unit res" where
  "assert_transition kind val table current target =
     (let allowed = (case map_of table current of None \<Rightarrow> [] | Some a \<Rightarrow> a)
      in if target \<notin> set allowed
         then Inl (TransitionError (kind @ '': illegal transition '' @ val current @ '' -> '' @ val target))
         else Inr ())"

definition assert_order_transition :: "order_status \<Rightarrow> order_status \<Rightarrow> unit res" where
  "assert_order_transition current target =
     assert_transition ''order'' order_status_value ORDER_TRANSITIONS current target"

definition assert_stamp_transition :: "stamp_status \<Rightarrow> stamp_status \<Rightarrow> unit res" where
  "assert_stamp_transition current target =
     assert_transition ''stamp'' stamp_status_value STAMP_TRANSITIONS current target"

definition assert_tigerbeetle_ledger_intent_transition ::
  "tb_intent_state \<Rightarrow> tb_intent_state \<Rightarrow> unit res" where
  "assert_tigerbeetle_ledger_intent_transition current target =
     (let allowed = (case map_of TIGERBEETLE_LEDGER_INTENT_TRANSITIONS current of
                       None \<Rightarrow> [] | Some a \<Rightarrow> a)
      in if target \<notin> set allowed
         then Inl (TransitionError (''tigerbeetle_ledger_intent: illegal transition ''
                     @ tb_intent_state_value current @ '' -> '' @ tb_intent_state_value target))
         else Inr ())"

section \<open>Domain errors\<close>

text \<open>
  The \<^verbatim>\<open>status\<close> and \<^verbatim>\<open>code\<close> attributes of the classes of \<^verbatim>\<open>errors.py\<close>; \<open>None\<close> for an
  exception that is not a \<^verbatim>\<open>DomainError\<close>.
\<close>

fun domain_error :: "exn \<Rightarrow> (nat \<times> string) option" where
  "domain_error ValidationFailed = Some (422, ''validation_failed'')"
| "domain_error NotFound = Some (404, ''not_found'')"
| "domain_error Conflict = Some (409, ''conflict'')"
| "domain_error IdempotencyKeyReused = Some (409, ''idempotency_key_reused'')"
| "domain_error Unauthenticated = Some (401, ''unauthenticated'')"
| "domain_error Forbidden = Some (403, ''forbidden'')"
| "domain_error RateLimited = Some (429, ''rate_limited'')"
| "domain_error IllegalState = Some (409, ''illegal_state'')"
| "domain_error CapabilityNotConfigured = Some (503, ''capability_not_configured'')"
| "domain_error CapabilityNotSupported = Some (501, ''capability_not_supported'')"
| "domain_error DependencyUnavailable = Some (503, ''dependency_unavailable'')"
| "domain_error _ = None"

section \<open>The contract of a state machine\<close>

text \<open>
  What the services rely on when they ask for a transition: a permitted move never goes back
  in a rank.  A history of permitted moves is then ordered by rank, and if no state moves to
  itself it visits every state at most once.
\<close>

fun legal_path :: "('s \<Rightarrow> 's \<Rightarrow> unit res) \<Rightarrow> 's list \<Rightarrow> bool" where
  "legal_path chk [] = True"
| "legal_path chk [a] = True"
| "legal_path chk (a # b # xs) = (chk a b = Inr () \<and> legal_path chk (b # xs))"

lemma legal_path_snoc:
  "legal_path chk (xs @ [a]) \<Longrightarrow> chk a b = Inr () \<Longrightarrow> legal_path chk (xs @ [a, b])"
  by (induction chk xs rule: legal_path.induct) auto

lemma legal_path_Cons: "legal_path chk (a # xs) \<Longrightarrow> legal_path chk xs"
  by (cases xs) auto

locale state_machine =
  fixes chk :: "'s \<Rightarrow> 's \<Rightarrow> unit res" and rank :: "'s \<Rightarrow> nat"
  assumes chk_rank: "chk a b = Inr () \<Longrightarrow> a \<noteq> b \<Longrightarrow> rank a < rank b"
begin

lemma chk_rank_le: "chk a b = Inr () \<Longrightarrow> rank a \<le> rank b"
  using chk_rank [of a b] by (cases "a = b") auto

lemma path_rank: "legal_path chk (a # xs) \<Longrightarrow> b \<in> set xs \<Longrightarrow> rank a \<le> rank b"
proof (induction xs arbitrary: a)
  case (Cons c xs)
  then have "rank a \<le> rank c" and "legal_path chk (c # xs)" by (auto intro: chk_rank_le)
  with Cons show ?case by fastforce
qed simp

lemma path_no_return:
  assumes "legal_path chk (a # b # xs)" and "a \<noteq> b"
  shows "a \<notin> set xs"
proof
  assume "a \<in> set xs"
  with assms(1) have "rank b \<le> rank a" by (auto intro: path_rank)
  with assms show False using chk_rank [of a b] by auto
qed

end

locale strict_state_machine = state_machine +
  assumes chk_irrefl: "chk a a \<noteq> Inr ()"
begin

lemma path_distinct: "legal_path chk xs \<Longrightarrow> distinct xs"
proof (induction xs)
  case (Cons a xs)
  show ?case
  proof (cases xs)
    case (Cons b ys)
    with Cons.prems have "a \<noteq> b" using chk_irrefl by auto
    with Cons.prems Cons.IH Cons show ?thesis using path_no_return [of a b ys] by auto
  qed simp
qed simp

end

fun order_rank :: "order_status \<Rightarrow> nat" where
  "order_rank O_SUBMITTED = 0"
| "order_rank O_COMPLIANCE_PENDING = 1"
| "order_rank O_COMPLIANCE_REJECTED = 2"
| "order_rank O_AWAITING_APPROVAL = 2"
| "order_rank O_APPROVED = 3"
| "order_rank O_REJECTED = 3"
| "order_rank O_AWAITING_PAYMENT = 4"
| "order_rank O_PAID = 5"
| "order_rank O_ISSUING = 6"
| "order_rank O_ISSUED = 7"
| "order_rank O_CANCELLED = 8"

fun stamp_rank :: "stamp_status \<Rightarrow> nat" where
  "stamp_rank S_ISSUED = 0"
| "stamp_rank S_ACTIVE = 1"
| "stamp_rank S_EXPIRED = 2"
| "stamp_rank S_VOID = 3"

fun tb_rank :: "tb_intent_state \<Rightarrow> nat" where
  "tb_rank TB_READY = 0"
| "tb_rank TB_SUBMISSION_UNCERTAIN = 1"
| "tb_rank TB_EXTERNAL_CONFIRMED = 2"
| "tb_rank TB_POSTED = 3"
| "tb_rank TB_REJECTED = 3"
| "tb_rank TB_QUARANTINED = 3"

lemma assert_order_transition_iff:
  "assert_order_transition a b = Inr () \<longleftrightarrow>
     (a, b) \<in> {(O_SUBMITTED, O_COMPLIANCE_PENDING), (O_SUBMITTED, O_AWAITING_APPROVAL),
       (O_SUBMITTED, O_CANCELLED), (O_COMPLIANCE_PENDING, O_AWAITING_APPROVAL),
       (O_COMPLIANCE_PENDING, O_COMPLIANCE_REJECTED), (O_COMPLIANCE_PENDING, O_CANCELLED),
       (O_COMPLIANCE_REJECTED, O_CANCELLED), (O_AWAITING_APPROVAL, O_APPROVED),
       (O_AWAITING_APPROVAL, O_REJECTED), (O_AWAITING_APPROVAL, O_CANCELLED),
       (O_APPROVED, O_AWAITING_PAYMENT), (O_APPROVED, O_CANCELLED),
       (O_AWAITING_PAYMENT, O_PAID), (O_AWAITING_PAYMENT, O_CANCELLED),
       (O_PAID, O_ISSUING), (O_ISSUING, O_ISSUED)}"
  by (cases a) (auto simp: assert_order_transition_def assert_transition_def
      ORDER_TRANSITIONS_def Let_def)

lemma assert_stamp_transition_iff:
  "assert_stamp_transition a b = Inr () \<longleftrightarrow>
     (a, b) \<in> {(S_ISSUED, S_ACTIVE), (S_ISSUED, S_VOID), (S_ISSUED, S_EXPIRED),
       (S_ACTIVE, S_VOID), (S_ACTIVE, S_EXPIRED), (S_EXPIRED, S_VOID)}"
  by (cases a) (auto simp: assert_stamp_transition_def assert_transition_def
      STAMP_TRANSITIONS_def Let_def)

lemma assert_tb_transition_iff:
  "assert_tigerbeetle_ledger_intent_transition a b = Inr () \<longleftrightarrow>
     (a, b) \<in> {(TB_READY, TB_SUBMISSION_UNCERTAIN), (TB_READY, TB_REJECTED),
       (TB_READY, TB_QUARANTINED), (TB_SUBMISSION_UNCERTAIN, TB_SUBMISSION_UNCERTAIN),
       (TB_SUBMISSION_UNCERTAIN, TB_EXTERNAL_CONFIRMED), (TB_SUBMISSION_UNCERTAIN, TB_REJECTED),
       (TB_SUBMISSION_UNCERTAIN, TB_QUARANTINED), (TB_EXTERNAL_CONFIRMED, TB_POSTED),
       (TB_EXTERNAL_CONFIRMED, TB_QUARANTINED)}"
  by (cases a) (auto simp: assert_tigerbeetle_ledger_intent_transition_def
      TIGERBEETLE_LEDGER_INTENT_TRANSITIONS_def Let_def)

interpretation order_machine: strict_state_machine assert_order_transition order_rank
  by unfold_locales (auto simp: assert_order_transition_iff)

interpretation stamp_machine: strict_state_machine assert_stamp_transition stamp_rank
  by unfold_locales (auto simp: assert_stamp_transition_iff)

interpretation tb_machine: state_machine assert_tigerbeetle_ledger_intent_transition tb_rank
  by unfold_locales (auto simp: assert_tb_transition_iff)

lemma assert_order_transition_Inl:
  "assert_order_transition a b = Inl e \<Longrightarrow> \<exists>m. e = TransitionError m"
  by (auto simp: assert_order_transition_def assert_transition_def Let_def split: if_splits)

end
