(* ===== verification/Clock.thy ===== *)
theory Clock
  imports Prelude
begin

text \<open>
  \<^verbatim>\<open>src/taxstamp/clock.py\<close> and the parts of \<^verbatim>\<open>datetime\<close> the program uses.  An aware datetime
  in UTC is the number of microseconds since 1970-01-01 (\<open>instant\<close>); \<open>datetime\<close> is a value
  that may still be naive or carry an offset, and \<open>ensure_utc\<close> turns it into an instant.  The
  proleptic Gregorian calendar is computed with eras of 400 years that begin in March.
\<close>

type_synonym instant = int

datatype datetime = Naive int | Aware int int

text \<open>\<open>Aware t off\<close> shows the local time \<open>t\<close> at the offset \<open>off\<close>, both in microseconds.\<close>

definition SECOND :: int where "SECOND = 1000000"

definition DAY :: int where "DAY = 86400 * SECOND"

text \<open>The instants of 0001-01-01 and of the first moment after 9999-12-31.\<close>

definition MIN_INSTANT :: instant where "MIN_INSTANT = - 719162 * DAY"

definition MAX_INSTANT :: instant where "MAX_INSTANT = 2932897 * DAY"

text \<open>\<^verbatim>\<open>datetime + timedelta\<close> raises outside the supported years.\<close>

definition dt_add :: "instant \<Rightarrow> int \<Rightarrow> instant res" where
  "dt_add t d = (if MIN_INSTANT \<le> t + d \<and> t + d < MAX_INSTANT then Inr (t + d) else Inl OverflowError)"

text \<open>\<^verbatim>\<open>astimezone\<close> subtracts the offset, which may leave the supported years.\<close>

definition ensure_utc :: "datetime \<Rightarrow> instant res" where
  "ensure_utc v = (case v of Naive t \<Rightarrow> Inl ValueError | Aware t off \<Rightarrow> dt_add t (- off))"

text \<open>Year, month and day of a day number counted from 1970-01-01.\<close>

definition civil_from_days :: "int \<Rightarrow> int \<times> int \<times> int" where
  "civil_from_days days =
     (let z = days + 719468;
          era = z div 146097;
          doe = z mod 146097;
          yoe = (doe - doe div 1460 + doe div 36524 - doe div 146096) div 365;
          doy = doe - (365 * yoe + yoe div 4 - yoe div 100);
          mp = (5 * doy + 2) div 153;
          d = doy - (153 * mp + 2) div 5 + 1;
          m = (if mp < 10 then mp + 3 else mp - 9);
          y = yoe + era * 400
      in (if m \<le> 2 then y + 1 else y, m, d))"

definition year_of :: "instant \<Rightarrow> int" where
  "year_of t = fst (civil_from_days (t div DAY))"

text \<open>\<^verbatim>\<open>f"{i:0wd}"\<close> for a non-negative integer.\<close>

definition int_pad :: "nat \<Rightarrow> int \<Rightarrow> string" where
  "int_pad w i = zero_pad w (nat_str (nat i))"

text \<open>
  \<^verbatim>\<open>isoformat()\<close> of an aware datetime in UTC; the fraction appears only when it is not zero.
\<close>

definition isoformat :: "instant \<Rightarrow> string" where
  "isoformat t =
     (let (y, m, d) = civil_from_days (t div DAY);
          r = t mod DAY;
          us = r mod SECOND;
          s = r div SECOND
      in int_pad 4 y @ ''-'' @ int_pad 2 m @ ''-'' @ int_pad 2 d @ ''T''
         @ int_pad 2 (s div 3600) @ '':'' @ int_pad 2 (s div 60 mod 60) @ '':'' @ int_pad 2 (s mod 60)
         @ (if us = 0 then '''' else ''.'' @ int_pad 6 us) @ ''+00:00'')"

section \<open>Lemmas\<close>

lemma dt_add_ok: "dt_add t d = Inr u \<longleftrightarrow> u = t + d \<and> MIN_INSTANT \<le> t + d \<and> t + d < MAX_INSTANT"
  by (auto simp: dt_add_def)

lemma ensure_utc_ok:
  "ensure_utc v = Inr t \<longleftrightarrow> (\<exists>l off. v = Aware l off \<and> t = l - off) \<and> MIN_INSTANT \<le> t \<and> t < MAX_INSTANT"
  by (cases v) (auto simp: ensure_utc_def dt_add_ok)

lemma epoch_supported [simp]: "MIN_INSTANT \<le> 0" "0 < MAX_INSTANT"
  by (simp_all add: MIN_INSTANT_def MAX_INSTANT_def DAY_def SECOND_def)

lemma ensure_utc_epoch [simp]: "ensure_utc (Aware 0 0) = Inr 0"
  by (simp add: ensure_utc_ok)

lemma isoformat_examples:
  "isoformat 0 = ''1970-01-01T00:00:00+00:00''"
  "isoformat 1767225599000001 = ''2025-12-31T23:59:59.000001+00:00''"
  "isoformat 951782400000000 = ''2000-02-29T00:00:00+00:00''"
  "isoformat MIN_INSTANT = ''0001-01-01T00:00:00+00:00''"
  by code_simp+

end
