(* ===== verification/Sha256.thy ===== *)
theory Sha256
  imports Prelude "HOL-Library.Word"
begin

text \<open>
  The parts of Python's \<^verbatim>\<open>hashlib\<close> and \<^verbatim>\<open>hmac\<close> the program uses: SHA-256 (FIPS 180-4) on 32-bit
  words, HMAC (RFC 2104) over it, hexadecimal digests and UTF-8.  Bytes are 8-bit words.
\<close>

unbundle bit_operations_syntax

type_synonym byte = "8 word"
type_synonym bytes = "byte list"

section \<open>SHA-256\<close>

text \<open>The first 32 bits of the fractional parts of the cube roots of the first 64 primes.\<close>

definition sha_K :: "32 word list" where
  "sha_K =
    [1116352408, 1899447441, 3049323471, 3921009573, 961987163, 1508970993, 2453635748,
     2870763221, 3624381080, 310598401, 607225278, 1426881987, 1925078388, 2162078206,
     2614888103, 3248222580, 3835390401, 4022224774, 264347078, 604807628, 770255983,
     1249150122, 1555081692, 1996064986, 2554220882, 2821834349, 2952996808, 3210313671,
     3336571891, 3584528711, 113926993, 338241895, 666307205, 773529912, 1294757372,
     1396182291, 1695183700, 1986661051, 2177026350, 2456956037, 2730485921, 2820302411,
     3259730800, 3345764771, 3516065817, 3600352804, 4094571909, 275423344, 430227734,
     506948616, 659060556, 883997877, 958139571, 1322822218, 1537002063, 1747873779,
     1955562222, 2024104815, 2227730452, 2361852424, 2428436474, 2756734187, 3204031479,
     3329325298]"

type_synonym sha_state =
  "32 word \<times> 32 word \<times> 32 word \<times> 32 word \<times> 32 word \<times> 32 word \<times> 32 word \<times> 32 word"

definition sha_init :: sha_state where
  "sha_init =
    (1779033703, 3144134277, 1013904242, 2773480762, 1359893119, 2600822924, 528734635,
     1541459225)"

definition rotr :: "nat \<Rightarrow> 32 word \<Rightarrow> 32 word" where
  "rotr n x = drop_bit n x OR push_bit (32 - n) x"

definition sha_ch :: "32 word \<Rightarrow> 32 word \<Rightarrow> 32 word \<Rightarrow> 32 word" where
  "sha_ch x y z = (x AND y) XOR (NOT x AND z)"

definition sha_maj :: "32 word \<Rightarrow> 32 word \<Rightarrow> 32 word \<Rightarrow> 32 word" where
  "sha_maj x y z = (x AND y) XOR (x AND z) XOR (y AND z)"

definition sha_S0 :: "32 word \<Rightarrow> 32 word" where
  "sha_S0 x = rotr 2 x XOR rotr 13 x XOR rotr 22 x"

definition sha_S1 :: "32 word \<Rightarrow> 32 word" where
  "sha_S1 x = rotr 6 x XOR rotr 11 x XOR rotr 25 x"

definition sha_s0 :: "32 word \<Rightarrow> 32 word" where
  "sha_s0 x = rotr 7 x XOR rotr 18 x XOR drop_bit 3 x"

definition sha_s1 :: "32 word \<Rightarrow> 32 word" where
  "sha_s1 x = rotr 17 x XOR rotr 19 x XOR drop_bit 10 x"

text \<open>The message schedule, latest word first: \<open>n\<close> words are still to be made.\<close>

fun sha_schedule :: "nat \<Rightarrow> 32 word list \<Rightarrow> 32 word list" where
  "sha_schedule 0 ws = rev ws"
| "sha_schedule (Suc n) ws =
     sha_schedule n ((sha_s1 (ws ! 1) + ws ! 6 + sha_s0 (ws ! 14) + ws ! 15) # ws)"

fun sha_rounds :: "(32 word \<times> 32 word) list \<Rightarrow> sha_state \<Rightarrow> sha_state" where
  "sha_rounds [] st = st"
| "sha_rounds ((k, w) # kws) (a, b, c, d, e, f, g, h) =
     (let t1 = h + sha_S1 e + sha_ch e f g + k + w;
          t2 = sha_S0 a + sha_maj a b c
      in sha_rounds kws (t1 + t2, a, b, c, d + t1, e, f, g))"

fun sha_add :: "sha_state \<Rightarrow> sha_state \<Rightarrow> sha_state" where
  "sha_add (a, b, c, d, e, f, g, h) (a', b', c', d', e', f', g', h') =
     (a + a', b + b', c + c', d + d', e + e', f + f', g + g', h + h')"

definition sha_block :: "sha_state \<Rightarrow> 32 word list \<Rightarrow> sha_state" where
  "sha_block st ws = sha_add st (sha_rounds (zip sha_K (sha_schedule 48 (rev ws))) st)"

fun be_words :: "bytes \<Rightarrow> 32 word list" where
  "be_words (a # b # c # d # bs) =
     (push_bit 24 (ucast a) OR push_bit 16 (ucast b) OR push_bit 8 (ucast c) OR ucast d) # be_words bs"
| "be_words _ = []"

definition be_bytes :: "32 word \<Rightarrow> bytes" where
  "be_bytes w = [ucast (drop_bit 24 w), ucast (drop_bit 16 w), ucast (drop_bit 8 w), ucast w]"

text \<open>Padding: a one bit, zeros, and the length of the message in bits in 64 bits.\<close>

definition sha_pad :: "bytes \<Rightarrow> bytes" where
  "sha_pad m =
     (let n = length m;
          z = (119 - n mod 64) mod 64;
          len = (of_nat (8 * n) :: 64 word)
      in m @ [0x80] @ replicate z 0
         @ map (\<lambda>i. ucast (drop_bit (8 * i) len)) [7, 6, 5, 4, 3, 2, 1, 0])"

fun sha_blocks :: "32 word list \<Rightarrow> sha_state \<Rightarrow> sha_state" where
  "sha_blocks ws st =
     (if length ws < 16 then st else sha_blocks (drop 16 ws) (sha_block st (take 16 ws)))"

declare sha_blocks.simps [simp del]

fun sha_digest :: "sha_state \<Rightarrow> bytes" where
  "sha_digest (a, b, c, d, e, f, g, h) = concat (map be_bytes [a, b, c, d, e, f, g, h])"

definition sha256 :: "bytes \<Rightarrow> bytes" where
  "sha256 m = sha_digest (sha_blocks (be_words (sha_pad m)) sha_init)"

section \<open>HMAC and digests\<close>

definition hmac_sha256 :: "bytes \<Rightarrow> bytes \<Rightarrow> bytes" where
  "hmac_sha256 key m =
     (let k0 = (if length key > 64 then sha256 key else key);
          k = k0 @ replicate (64 - length k0) 0
      in sha256 (map (\<lambda>b. b XOR 0x5c) k @ sha256 (map (\<lambda>b. b XOR 0x36) k @ m)))"

definition hex_digit :: "nat \<Rightarrow> char" where
  "hex_digit n = (if n < 10 then char_of (48 + n) else char_of (87 + n))"

definition hex_byte :: "byte \<Rightarrow> string" where
  "hex_byte b = [hex_digit (unat b div 16), hex_digit (unat b mod 16)]"

text \<open>\<^verbatim>\<open>bytes.hex()\<close>\<close>

definition hex :: "bytes \<Rightarrow> string" where
  "hex bs = concat (map hex_byte bs)"

text \<open>\<^verbatim>\<open>str.encode("utf-8")\<close> for code points below 256.\<close>

definition utf8_char :: "char \<Rightarrow> bytes" where
  "utf8_char c =
     (let n = (of_char c :: nat)
      in if n < 128 then [of_nat n] else [of_nat (192 + n div 64), of_nat (128 + n mod 64)])"

definition utf8 :: "string \<Rightarrow> bytes" where
  "utf8 s = concat (map utf8_char s)"

text \<open>A hexadecimal HMAC, \<^verbatim>\<open>hmac.new(key.encode("utf-8"), m, sha256).hexdigest()\<close>.\<close>

definition hmac_hexdigest :: "string \<Rightarrow> bytes \<Rightarrow> string" where
  "hmac_hexdigest key m = hex (hmac_sha256 (utf8 key) m)"

section \<open>Lemmas\<close>

lemma length_be_bytes [simp]: "length (be_bytes w) = 4"
  by (simp add: be_bytes_def)

lemma length_sha_digest [simp]: "length (sha_digest st) = 32"
  by (cases st rule: sha_digest.cases) simp

lemma length_sha256 [simp]: "length (sha256 m) = 32"
  by (simp add: sha256_def)

lemma length_hmac_sha256 [simp]: "length (hmac_sha256 k m) = 32"
  by (simp add: hmac_sha256_def Let_def)

lemma length_hex [simp]: "length (hex bs) = 2 * length bs"
  by (induction bs) (simp_all add: hex_def hex_byte_def)

lemma length_hmac_hexdigest [simp]: "length (hmac_hexdigest k m) = 64"
  by (simp add: hmac_hexdigest_def)

lemma hex_digit_inj: "m < 16 \<Longrightarrow> n < 16 \<Longrightarrow> hex_digit m = hex_digit n \<Longrightarrow> m = n"
  by (auto simp: hex_digit_def split: if_splits dest: arg_cong [where f = "of_char :: char \<Rightarrow> nat"])

lemma hex_digit_set: "n < 16 \<Longrightarrow> hex_digit n \<in> set ''0123456789abcdef''"
proof -
  assume "n < 16"
  then have "n \<in> set [0..<16]" by simp
  moreover have "list_all (\<lambda>n. hex_digit n \<in> set ''0123456789abcdef'') [0..<16]" by code_simp
  ultimately show ?thesis by (simp only: list_all_iff)
qed

lemma hex_byte_inj: "hex_byte a = hex_byte b \<Longrightarrow> a = b"
proof -
  assume eq: "hex_byte a = hex_byte b"
  have bound: "unat x < 256" for x :: byte
    using unsigned_less [where ?'a = nat, of x] by simp
  have "unat a div 16 = unat b div 16" "unat a mod 16 = unat b mod 16"
    using eq bound [of a] bound [of b] by (auto simp: hex_byte_def intro!: hex_digit_inj)
  then have "unat a = unat b" by (metis div_mult_mod_eq)
  then show ?thesis by (rule unsigned_word_eqI)
qed

lemma hex_inj: "hex a = hex b \<Longrightarrow> a = b"
proof (induction a arbitrary: b)
  case Nil
  then show ?case by (cases b) (simp_all add: hex_def hex_byte_def)
next
  case (Cons x xs)
  then obtain y ys where b: "b = y # ys" by (cases b) (simp_all add: hex_def hex_byte_def)
  with Cons.prems have "hex_byte x = hex_byte y" and "hex xs = hex ys"
    by (simp_all add: hex_def hex_byte_def)
  with Cons.IH b show ?case by (simp add: hex_byte_inj)
qed

lemma hex_chars: "c \<in> set (hex bs) \<Longrightarrow> c \<in> set ''0123456789abcdef''"
proof -
  assume "c \<in> set (hex bs)"
  then obtain x where c: "c \<in> set (hex_byte x)" by (auto simp: hex_def)
  have "unat x div 16 < 16" using unsigned_less [where ?'a = nat, of x] by (simp add: div_less_iff_less_mult)
  with c show ?thesis unfolding hex_byte_def
    by (metis hex_digit_set mod_less_divisor zero_less_numeral set_ConsD list.set(1) empty_iff)
qed

lemma hex_no_nul [simp]: "CHR 0x00 \<notin> set (hex bs)"
  using hex_chars [of "CHR 0x00" bs] by auto

text \<open>UTF-8 is injective.\<close>

lemma unat_byte [simp]: "m < 256 \<Longrightarrow> unat (of_nat m :: byte) = m"
  by (simp add: unat_of_nat)

lemma utf8_char_prefix: "utf8_char c @ x = utf8_char d @ y \<Longrightarrow> c = d \<and> x = y"
proof -
  assume eq: "utf8_char c @ x = utf8_char d @ y"
  let ?m = "of_char c :: nat" and ?n = "of_char d :: nat"
  have lt: "?m < 256" "?n < 256" by simp_all
  have byte: "i = j" if "(of_nat i :: byte) = of_nat j" "i < 256" "j < 256" for i j
    using arg_cong [OF that(1), of unat] that(2,3) by simp
  consider "?m < 128" "?n < 128" | "128 \<le> ?m" "128 \<le> ?n" | "?m < 128" "128 \<le> ?n" | "128 \<le> ?m" "?n < 128"
    by linarith
  then have "?m = ?n \<and> x = y"
  proof cases
    case 1
    with eq show ?thesis by (auto simp: utf8_char_def Let_def dest: byte)
  next
    case 2
    with eq have "(of_nat (192 + ?m div 64) :: byte) = of_nat (192 + ?n div 64)"
      "(of_nat (128 + ?m mod 64) :: byte) = of_nat (128 + ?n mod 64)" and x: "x = y"
      by (simp_all add: utf8_char_def Let_def)
    moreover have "?m div 64 < 64" "?n div 64 < 64"
      using lt by linarith+
    moreover have "?m mod 64 < 128" "?n mod 64 < 128"
      by (simp_all add: less_trans [OF mod_less_divisor [of 64]])
    ultimately have "?m div 64 = ?n div 64" "?m mod 64 = ?n mod 64"
      by (auto dest!: byte)
    then show ?thesis using x by (metis div_mult_mod_eq)
  next
    case 3
    with eq have "(of_nat ?m :: byte) = of_nat (192 + ?n div 64)" by (simp add: utf8_char_def Let_def)
    moreover have "?n div 64 < 64" using lt by linarith
    ultimately have "?m = 192 + ?n div 64" using lt by (intro byte) simp_all
    with 3 show ?thesis by simp
  next
    case 4
    with eq have "(of_nat (192 + ?m div 64) :: byte) = of_nat ?n" by (simp add: utf8_char_def Let_def)
    moreover have "?m div 64 < 64" using lt by linarith
    ultimately have "192 + ?m div 64 = ?n" using lt by (intro byte) simp_all
    with 4 show ?thesis by simp
  qed
  then show ?thesis by simp
qed

lemma utf8_simps [simp]: "utf8 [] = []" "utf8 (c # s) = utf8_char c @ utf8 s"
  by (simp_all add: utf8_def)

lemma utf8_append [simp]: "utf8 (s @ t) = utf8 s @ utf8 t"
  by (simp add: utf8_def)

lemma utf8_char_nonempty [simp]: "utf8_char c \<noteq> []"
  by (simp add: utf8_char_def Let_def)

lemma utf8_inj: "utf8 s = utf8 t \<Longrightarrow> s = t"
proof (induction s arbitrary: t)
  case Nil
  then show ?case by (cases t) simp_all
next
  case (Cons c s)
  then obtain d t' where "t = d # t'" by (cases t) simp_all
  with Cons utf8_char_prefix [of c "utf8 s" d "utf8 t'"] show ?case by simp
qed

end
