(* ===== verification/Canonical.thy ===== *)
theory Canonical
  imports Sha256
begin

text \<open>
  \<^verbatim>\<open>src/taxstamp/canonical.py\<close> and \<^verbatim>\<open>src/taxstamp/jsontypes.py\<close>: JSON documents, their canonical
  bytes (\<^verbatim>\<open>json.dumps\<close> with sorted keys, fixed separators and ASCII only) and the narrowing
  accessors.  A \<^verbatim>\<open>dict\<close> is the list of its items in insertion order.
\<close>

section \<open>Documents\<close>

text \<open>A float is a mantissa and a power of two, or one of the special values.\<close>

datatype py_float = Finite int int | PosInf | NegInf | NaN

datatype json =
    JNull
  | JBool bool
  | JInt int
  | JFloat py_float
  | JStr string
  | JList "json list"
  | JObj "(string \<times> json) list"

type_synonym json_object = "(string \<times> json) list"

text \<open>The accessors of \<^verbatim>\<open>jsontypes.py\<close>; a missing key reads as \<^verbatim>\<open>None\<close>.\<close>

definition doc_get :: "json_object \<Rightarrow> string \<Rightarrow> json" where
  "doc_get document key = (case map_of document key of None \<Rightarrow> JNull | Some v \<Rightarrow> v)"

definition require_str :: "json_object \<Rightarrow> string \<Rightarrow> string res" where
  "require_str document key = (case doc_get document key of JStr s \<Rightarrow> Inr s | _ \<Rightarrow> Inl ValueError)"

definition require_int :: "json_object \<Rightarrow> string \<Rightarrow> int res" where
  "require_int document key = (case doc_get document key of JInt i \<Rightarrow> Inr i | _ \<Rightarrow> Inl ValueError)"

definition require_bool :: "json_object \<Rightarrow> string \<Rightarrow> bool res" where
  "require_bool document key = (case doc_get document key of JBool b \<Rightarrow> Inr b | _ \<Rightarrow> Inl ValueError)"

definition optional_str :: "json_object \<Rightarrow> string \<Rightarrow> string option res" where
  "optional_str document key =
     (case doc_get document key of JNull \<Rightarrow> Inr None | JStr s \<Rightarrow> Inr (Some s) | _ \<Rightarrow> Inl ValueError)"

definition json_opt :: "string option \<Rightarrow> json" where
  "json_opt s = (case s of None \<Rightarrow> JNull | Some v \<Rightarrow> JStr v)"

section \<open>Canonical bytes\<close>

text \<open>\<^verbatim>\<open>_reject_floats\<close> raises exactly on a document with a float in it.\<close>

fun reject_floats :: "json \<Rightarrow> bool" where
  "reject_floats (JFloat _) = True"
| "reject_floats (JList xs) = (\<exists>x \<in> set xs. reject_floats x)"
| "reject_floats (JObj kvs) = (\<exists>kv \<in> set kvs. reject_floats (snd kv))"
| "reject_floats _ = False"

text \<open>The escapes of \<^verbatim>\<open>json.dumps\<close> with \<^verbatim>\<open>ensure_ascii\<close>.\<close>

definition esc :: "char \<Rightarrow> string" where
  "esc c =
     (let n = (of_char c :: nat) in
      if n = 34 then [CHR 0x5C, CHR 0x22]
      else if n = 92 then [CHR 0x5C, CHR 0x5C]
      else if n = 10 then [CHR 0x5C, CHR ''n'']
      else if n = 13 then [CHR 0x5C, CHR ''r'']
      else if n = 9 then [CHR 0x5C, CHR ''t'']
      else if n = 12 then [CHR 0x5C, CHR ''f'']
      else if n = 8 then [CHR 0x5C, CHR ''b'']
      else if 32 \<le> n \<and> n \<le> 126 then [c]
      else [CHR 0x5C, CHR ''u'', CHR ''0'', CHR ''0'', hex_digit (n div 16), hex_digit (n mod 16)])"

definition str_lit :: "string \<Rightarrow> string" where
  "str_lit s = [CHR 0x22] @ concat (map esc s) @ [CHR 0x22]"

fun join_commas :: "string list \<Rightarrow> string" where
  "join_commas [] = ''''"
| "join_commas [x] = x"
| "join_commas (x # y # xs) = x @ '','' @ join_commas (y # xs)"

text \<open>
  \<^verbatim>\<open>json.dumps(\<dots>, sort_keys=True, separators=(",", ":"), ensure_ascii=True)\<close>.  The clause for a
  float is never reached: \<open>canonical_bytes\<close> has rejected the document before.
\<close>

fun dumps :: "json \<Rightarrow> string" where
  "dumps JNull = ''null''"
| "dumps (JBool b) = (if b then ''true'' else ''false'')"
| "dumps (JInt i) = int_str i"
| "dumps (JFloat _) = ''''"
| "dumps (JStr s) = str_lit s"
| "dumps (JList xs) = ''['' @ join_commas (map dumps xs) @ '']''"
| "dumps (JObj kvs) =
     ''{'' @ join_commas (map (\<lambda>kv. str_lit (fst kv) @ '':'' @ snd kv)
             (sort_key fst (map (\<lambda>kv. (fst kv, dumps (snd kv))) kvs))) @ ''}''"

definition canonical_bytes :: "json_object \<Rightarrow> bytes res" where
  "canonical_bytes document =
     (if reject_floats (JObj document) then Inl CanonicalisationError
      else Inr (utf8 (dumps (JObj document))))"

definition sha256_hex :: "bytes \<Rightarrow> string" where
  "sha256_hex payload = hex (sha256 payload)"

definition canonical_hash :: "json_object \<Rightarrow> string res" where
  "canonical_hash document = bind_res (canonical_bytes document) (\<lambda>b. Inr (sha256_hex b))"

section \<open>The document behind the bytes\<close>

text \<open>
  Two documents are the same for Python when they differ only in the order of keys: they have
  the same normal form, in which every object lists its items by key.
\<close>

fun normalise :: "json \<Rightarrow> json" where
  "normalise (JList xs) = JList (map normalise xs)"
| "normalise (JObj kvs) = JObj (sort_key fst (map (\<lambda>kv. (fst kv, normalise (snd kv))) kvs))"
| "normalise v = v"

text \<open>Serialisation in the order given.\<close>

fun ser :: "json \<Rightarrow> string" where
  "ser (JList xs) = ''['' @ join_commas (map ser xs) @ '']''"
| "ser (JObj kvs) =
     ''{'' @ join_commas (map (\<lambda>kv. str_lit (fst kv) @ '':'' @ ser (snd kv)) kvs) @ ''}''"
| "ser v = dumps v"

lemma insort_key_map_snd:
  "insort_key fst (fst x, f (snd x)) (map (\<lambda>kv. (fst kv, f (snd kv))) xs) =
    map (\<lambda>kv. (fst kv, f (snd kv))) (insort_key fst x xs)"
  by (induction xs) auto

lemma sort_key_map_snd:
  "sort_key fst (map (\<lambda>kv. (fst kv, f (snd kv))) xs) =
    map (\<lambda>kv. (fst kv, f (snd kv))) (sort_key fst xs)"
proof (induction xs)
  case (Cons x xs)
  then show ?case using insort_key_map_snd [of x f "sort_key fst xs"] by simp
qed simp

lemma dumps_ser: "dumps v = ser (normalise v)"
proof (induction v)
  case (JList xs)
  then show ?case by (simp cong: map_cong)
next
  case (JObj kvs)
  then have eq: "map (\<lambda>kv. (fst kv, dumps (snd kv))) kvs = map (\<lambda>kv. (fst kv, ser (normalise (snd kv)))) kvs"
    by (auto simp: snds.simps)
  show ?case by (simp add: eq sort_key_map_snd [of normalise] sort_key_map_snd [of "\<lambda>v. ser (normalise v)"]
      comp_def)
qed simp_all

lemma reject_floats_normalise: "reject_floats (normalise v) = reject_floats v"
proof (induction v)
  case (JObj kvs)
  then show ?case by (auto simp: snds.simps)
qed auto

section \<open>Serialisation is a prefix code\<close>

lemma esc_prefix: "esc c @ x = esc d @ y \<Longrightarrow> c = d \<and> x = y"
proof -
  assume eq: "esc c @ x = esc d @ y"
  have lt: "of_char c < (256::nat)" "of_char d < (256::nat)" by simp_all
  have inj: "(of_char c :: nat) = of_char d \<Longrightarrow> c = d" by simp
  have hx: "(of_char c :: nat) = of_char d"
    if "hex_digit (of_char c div 16) = hex_digit (of_char d div 16)"
      "hex_digit (of_char c mod 16) = hex_digit (of_char d mod 16)"
  proof -
    have "(of_char c :: nat) div 16 = of_char d div 16" "(of_char c :: nat) mod 16 = of_char d mod 16"
      using that lt by (auto intro!: hex_digit_inj simp: div_less_iff_less_mult)
    then show ?thesis by (metis div_mult_mod_eq)
  qed
  show ?thesis
    using eq by (auto simp: esc_def Let_def split: if_splits intro!: inj hx)
qed

lemma esc_not_quote: "\<exists>a as. esc c = a # as \<and> a \<noteq> CHR 0x22"
  by (auto simp: esc_def Let_def)

lemma esc_body_prefix:
  "concat (map esc s) @ CHR 0x22 # x = concat (map esc t) @ CHR 0x22 # y \<Longrightarrow> s = t \<and> x = y"
proof (induction s arbitrary: t)
  case Nil
  show ?case
  proof (cases t)
    case (Cons d t')
    then show ?thesis using Nil esc_not_quote [of d] by auto
  qed (use Nil in simp)
next
  case (Cons c s)
  show ?case
  proof (cases t)
    case Nil
    then show ?thesis using Cons.prems esc_not_quote [of c] by auto
  next
    case t: (Cons d t')
    with Cons.prems esc_prefix [of c _ d] have "c = d"
      and "concat (map esc s) @ CHR 0x22 # x = concat (map esc t') @ CHR 0x22 # y" by auto
    with Cons.IH t show ?thesis by simp
  qed
qed

lemma str_lit_prefix: "str_lit s @ x = str_lit t @ y \<Longrightarrow> s = t \<and> x = y"
  by (rule esc_body_prefix) (simp add: str_lit_def)

text \<open>What may follow a value: the end, a comma or a closing bracket.\<close>

definition delim :: "string \<Rightarrow> bool" where
  "delim r = (case r of [] \<Rightarrow> True | c # _ \<Rightarrow> c \<in> set '',]}'')"

definition no_digit :: "string \<Rightarrow> bool" where
  "no_digit r = (case r of [] \<Rightarrow> True | c # _ \<Rightarrow> \<not> is_digit c)"

lemma delim_no_digit: "delim r \<Longrightarrow> no_digit r"
  by (auto simp: delim_def no_digit_def is_digit_def split: list.splits)

lemma takeWhile_digits:
  "list_all is_digit ds \<Longrightarrow> no_digit r \<Longrightarrow> takeWhile is_digit (ds @ r) = ds \<and> dropWhile is_digit (ds @ r) = r"
  by (induction ds) (auto simp: no_digit_def split: list.splits)

lemma nat_str_prefix:
  assumes "nat_str m @ r = nat_str n @ r'" and "no_digit r" and "no_digit r'"
  shows "m = n \<and> r = r'"
proof -
  have "takeWhile is_digit (nat_str m @ r) = nat_str m" "dropWhile is_digit (nat_str m @ r) = r"
    "takeWhile is_digit (nat_str n @ r') = nat_str n" "dropWhile is_digit (nat_str n @ r') = r'"
    using takeWhile_digits [OF nat_str_digits assms(2)] takeWhile_digits [OF nat_str_digits assms(3)]
    by blast+
  with assms(1) have "nat_str m = nat_str n" and "r = r'" by (simp_all only:)
  then show ?thesis by simp
qed

lemma nat_str_Cons: "\<exists>d ds. nat_str n = d # ds \<and> is_digit d"
  using nat_str_digits [of n] nat_str_nonempty [of n] by (cases "nat_str n") auto

lemma int_str_prefix:
  assumes "int_str i @ r = int_str j @ r'" and "no_digit r" and "no_digit r'"
  shows "i = j \<and> r = r'"
proof -
  have no: "nat_str m @ x \<noteq> CHR ''-'' # y" for m x y
    using nat_str_Cons [of m] by (auto simp: is_digit_def)
  consider "i < 0" "j < 0" | "i < 0" "\<not> j < 0" | "\<not> i < 0" "j < 0" | "\<not> i < 0" "\<not> j < 0" by blast
  then show ?thesis
  proof cases
    case 1
    with assms have "nat (- i) = nat (- j) \<and> r = r'"
      by (intro nat_str_prefix) (simp_all add: int_str_def)
    with 1 show ?thesis by auto
  next
    case 2
    with assms(1) have "nat_str (nat j) @ r' = CHR ''-'' # nat_str (nat (- i)) @ r"
      by (simp add: int_str_def)
    then show ?thesis using no by blast
  next
    case 3
    with assms(1) have "nat_str (nat i) @ r = CHR ''-'' # nat_str (nat (- j)) @ r'"
      by (simp add: int_str_def)
    then show ?thesis using no by blast
  next
    case 4
    with assms have "nat i = nat j \<and> r = r'"
      by (intro nat_str_prefix) (simp_all add: int_str_def)
    with 4 show ?thesis by auto
  qed
qed

lemma join_commas_prefix:
  assumes "\<And>x y r r'. x \<in> set xs \<Longrightarrow> ok y \<Longrightarrow> delim r \<Longrightarrow> delim r' \<Longrightarrow> f x @ r = f y @ r' \<Longrightarrow> x = y \<and> r = r'"
    and "\<And>y. ok y \<Longrightarrow> \<exists>a as. f y = a # as \<and> a \<notin> set '',]}''"
    and "close \<in> set '']}''" and "\<forall>x \<in> set xs. ok x" and "\<forall>y \<in> set ys. ok y"
    and "join_commas (map f xs) @ close # r = join_commas (map f ys) @ close # r'"
  shows "xs = ys \<and> r = r'"
  using assms(1,4,5,6)
proof (induction xs arbitrary: ys)
  case Nil
  show ?case
  proof (cases ys)
    case (Cons y ys')
    with Nil.prems(3) obtain a as where a: "f y = a # as" "a \<notin> set '',]}''" using assms(2) [of y] by auto
    have "hd (join_commas (map f ys) @ close # r') = a" using a Cons by (cases ys') simp_all
    moreover have "hd (join_commas (map f []) @ close # r) = close" by simp
    ultimately have "close = a" using Nil.prems(4) by (simp only:)
    with a(2) assms(3) show ?thesis by auto
  qed (use Nil in simp)
next
  case (Cons x xs)
  have "ys \<noteq> []"
  proof
    assume ys: "ys = []"
    obtain a as where a: "f x = a # as" "a \<notin> set '',]}''" using assms(2) [of x] Cons.prems(2) by auto
    have "hd (join_commas (map f (x # xs)) @ close # r) = a" using a by (cases xs) simp_all
    with Cons.prems(4) ys a(2) assms(3) show False by auto
  qed
  then obtain y ys' where ys: "ys = y # ys'" by (cases ys) auto
  define rest :: "'a list \<Rightarrow> string \<Rightarrow> string" where
    "rest = (\<lambda>zs t. if zs = [] then close # t else CHR '','' # join_commas (map f zs) @ close # t)"
  have split: "join_commas (f z # map f zs) @ close # t = f z @ rest zs t" for z zs t
    by (cases zs) (simp_all add: rest_def)
  have delim: "delim (rest zs t)" for zs t
    using assms(3) by (auto simp: rest_def delim_def)
  have "x = y \<and> rest xs r = rest ys' r'"
    using Cons.prems(1) [of x y "rest xs r" "rest ys' r'"] Cons.prems(3,4) delim
    by (simp add: ys split)
  then have x: "x = y" and rest: "rest xs r = rest ys' r'" by simp_all
  have "(xs = []) = (ys' = [])"
    using rest assms(3) by (auto simp: rest_def split: if_splits)
  with rest have "join_commas (map f xs) @ close # r = join_commas (map f ys') @ close # r'"
    by (auto simp: rest_def split: if_splits)
  moreover have "\<forall>x \<in> set xs. ok x" "\<forall>y \<in> set ys'. ok y" using Cons.prems(2,3) by (simp_all add: ys)
  moreover have "x' = y \<and> p = p'"
    if "x' \<in> set xs" "ok y" "delim p" "delim p'" "f x' @ p = f y @ p'" for x' y p p'
    using that by (intro Cons.prems(1)) (simp_all only: list.set_intros)
  ultimately have "xs = ys' \<and> r = r'" by (intro Cons.IH)
  with x ys show ?case by simp
qed

lemma ser_head: "\<not> reject_floats v \<Longrightarrow> \<exists>a as. ser v = a # as \<and> a \<notin> set '',]}''"
proof (cases v)
  case (JInt i)
  then show ?thesis using nat_str_Cons [of "nat i"] by (auto simp: int_str_def is_digit_def)
qed (auto simp: str_lit_def)

text \<open>The first character tells the constructors apart.\<close>

fun kind_of :: "json \<Rightarrow> nat" where
  "kind_of JNull = 0"
| "kind_of (JBool b) = (if b then 1 else 2)"
| "kind_of (JInt _) = 3"
| "kind_of (JStr _) = 4"
| "kind_of (JList _) = 5"
| "kind_of (JObj _) = 6"
| "kind_of (JFloat _) = 7"

definition head_kind :: "char \<Rightarrow> nat" where
  "head_kind c =
     (if c = CHR ''n'' then 0 else if c = CHR ''t'' then 1 else if c = CHR ''f'' then 2
      else if is_digit c \<or> c = CHR ''-'' then 3 else if c = CHR 0x22 then 4
      else if c = CHR ''['' then 5 else 6)"

lemma head_kind_ser: "\<not> reject_floats v \<Longrightarrow> head_kind (hd (ser v @ r)) = kind_of v"
proof (cases v)
  case (JInt i)
  then show ?thesis using nat_str_Cons [of "nat i"]
    by (auto simp: int_str_def head_kind_def is_digit_def)
qed (auto simp: str_lit_def head_kind_def is_digit_def)

lemma ser_prefix:
  "\<not> reject_floats v \<Longrightarrow> \<not> reject_floats w \<Longrightarrow> delim r \<Longrightarrow> delim r' \<Longrightarrow> ser v @ r = ser w @ r' \<Longrightarrow>
    v = w \<and> r = r'"
proof (induction v arbitrary: w r r')
  case (JInt i)
  then obtain j where "w = JInt j"
    using head_kind_ser [of "JInt i" r] head_kind_ser [of w r'] by (cases w) (auto split: if_splits)
  with JInt int_str_prefix [of i r j r'] delim_no_digit show ?case by simp
next
  case (JStr s)
  then obtain t where "w = JStr t"
    using head_kind_ser [of "JStr s" r] head_kind_ser [of w r'] by (cases w) (auto split: if_splits)
  with JStr str_lit_prefix [of s r t r'] show ?case by simp
next
  case (JList xs)
  then obtain ys where w: "w = JList ys"
    using head_kind_ser [of "JList xs" r] head_kind_ser [of w r'] by (cases w) (auto split: if_splits)
  have "xs = ys \<and> r = r'"
  proof (rule join_commas_prefix [where f = ser and ok = "\<lambda>v. \<not> reject_floats v" and close = "CHR '']''"])
    show "\<exists>a as. ser y = a # as \<and> a \<notin> set '',]}''" if "\<not> reject_floats y" for y
      using ser_head [OF that] by simp
    show "x = y \<and> p = p'" if "x \<in> set xs" "\<not> reject_floats y" "delim p" "delim p'" "ser x @ p = ser y @ p'"
      for x y p p'
      using JList.IH [OF that(1)] JList.prems(1) that by auto
  qed (use JList.prems w in auto)
  with w show ?case by simp
next
  case (JObj kvs)
  then obtain ys where w: "w = JObj ys"
    using head_kind_ser [of "JObj kvs" r] head_kind_ser [of w r'] by (cases w) (auto split: if_splits)
  let ?f = "\<lambda>kv. str_lit (fst kv) @ '':'' @ ser (snd kv)"
  have "kvs = ys \<and> r = r'"
  proof (rule join_commas_prefix [where f = ?f and ok = "\<lambda>kv. \<not> reject_floats (snd kv)" and close = "CHR ''}''"])
    show "\<exists>a as. ?f y = a # as \<and> a \<notin> set '',]}''" for y by (simp add: str_lit_def)
    show "x = y \<and> p = p'"
      if that: "x \<in> set kvs" "\<not> reject_floats (snd y)" "delim p" "delim p'" "?f x @ p = ?f y @ p'" for x y p p'
    proof -
      from that(5) have "fst x = fst y" and "ser (snd x) @ p = ser (snd y) @ p'"
        using str_lit_prefix [of "fst x" "CHR '':'' # ser (snd x) @ p" "fst y" "CHR '':'' # ser (snd y) @ p'"]
        by simp_all
      moreover have "snd x \<in> Basic_BNFs.snds x" by (simp add: snds.simps)
      moreover have "\<not> reject_floats (snd x)" using JObj.prems(1) that(1) by auto
      ultimately have "snd x = snd y \<and> p = p'" using that(1-4) JObj.IH by blast
      with \<open>fst x = fst y\<close> show ?thesis by (simp add: prod_eq_iff)
    qed
  qed (use JObj.prems w in auto)
  with w show ?case by simp
next
  case JNull
  then have "kind_of w = 0"
    using head_kind_ser [of JNull r] head_kind_ser [of w r'] by simp
  then have "w = JNull" by (cases w) (auto split: if_splits)
  with JNull show ?case by simp
next
  case (JBool b)
  then have "kind_of w = kind_of (JBool b)"
    using head_kind_ser [of "JBool b" r] head_kind_ser [of w r'] by simp
  then have "w = JBool b" by (cases w) (auto split: if_splits)
  with JBool show ?case by simp
qed simp

lemma dumps_inj:
  "\<not> reject_floats v \<Longrightarrow> \<not> reject_floats w \<Longrightarrow> dumps v = dumps w \<Longrightarrow> normalise v = normalise w"
  using ser_prefix [of "normalise v" "normalise w" "[]" "[]"]
  by (simp add: dumps_ser reject_floats_normalise delim_def)

lemma canonical_bytes_Inr:
  "canonical_bytes d = Inr b \<longleftrightarrow> \<not> reject_floats (JObj d) \<and> b = utf8 (dumps (JObj d))"
  by (auto simp: canonical_bytes_def)

lemma canonical_bytes_normalise:
  "canonical_bytes a = Inr s \<Longrightarrow> canonical_bytes b = Inr s \<Longrightarrow> normalise (JObj a) = normalise (JObj b)"
  unfolding canonical_bytes_Inr by (metis dumps_inj utf8_inj)

lemma length_canonical_hash: "canonical_hash d = Inr h \<Longrightarrow> length h = 64"
  by (auto simp: canonical_hash_def sha256_hex_def)

section \<open>Properties\<close>

text \<open>
  C35. Canonical bytes identify a document: two documents have the same canonical bytes exactly
  when they are equal up to the order of the keys of their objects, and a document is refused
  exactly when it holds a float at any depth.  Signatures and hashes over canonical bytes
  therefore bind the whole document.
\<close>

theorem canonical_bytes_identify:
  "(canonical_bytes a = Inl CanonicalisationError \<longleftrightarrow> reject_floats (JObj a)) \<and>
   (is_ok (canonical_bytes a) \<longrightarrow>
     (canonical_bytes a = canonical_bytes b \<longleftrightarrow> normalise (JObj a) = normalise (JObj b)))"
proof -
  have err: "canonical_bytes d = Inl CanonicalisationError \<longleftrightarrow> reject_floats (JObj d)" for d
    unfolding canonical_bytes_def by (cases "reject_floats (JObj d)") (simp_all only: if_True if_False sum.simps simp_thms)
  have "canonical_bytes a = canonical_bytes b" if "normalise (JObj a) = normalise (JObj b)"
    using that unfolding canonical_bytes_def by (metis dumps_ser reject_floats_normalise)
  moreover have "normalise (JObj a) = normalise (JObj b)"
    if "is_ok (canonical_bytes a)" "canonical_bytes a = canonical_bytes b"
    using that canonical_bytes_normalise unfolding is_ok_iff by metis
  ultimately show ?thesis using err by blast
qed

theorem canonical_bytes_identify_witness:
  "canonical_bytes [(''b'', JInt 1), (''a'', JStr ''x'')] = canonical_bytes [(''a'', JStr ''x''), (''b'', JInt 1)]"
  using canonical_bytes_identify [of "[(''b'', JInt 1), (''a'', JStr ''x'')]" "[(''a'', JStr ''x''), (''b'', JInt 1)]"]
  by (simp add: canonical_bytes_def)

end
