(* ===== verification/Models.thy ===== *)
theory Models
  imports Enums Clock Canonical
begin

text \<open>
  \<^verbatim>\<open>src/taxstamp/models.py\<close>: the tables as lists of row records, and the insertion of a row with
  the constraints the schema declares.  A value that does not fit its column is a \<open>DataError\<close>, a
  violated \<^verbatim>\<open>UNIQUE\<close>, \<^verbatim>\<open>CHECK\<close> or foreign key is an \<open>IntegrityError\<close>.  An enumeration column holds
  the enumeration itself.  Primary keys come from \<^verbatim>\<open>uuid4\<close>, taken here from a supply of unused
  numbers (\<open>next_uuid\<close>); \<open>db_now\<close> is the server's \<^verbatim>\<open>now()\<close>.  The \<^verbatim>\<open>version\<close> columns of optimistic
  locking are left out: one transaction runs at a time here.  A \<^verbatim>\<open>JSONB\<close> column takes every JSON value of the
  model; that PostgreSQL refuses the character \<open>0\<close> inside such a value is left out.
\<close>

type_synonym uuid = nat

section \<open>Rows\<close>

record company =
  co_id :: uuid
  co_tin :: string
  co_name :: string
  co_kyb_status :: kyb_status
  co_kyb_verified_at :: "instant option"
  co_risk_tier :: risk_tier
  co_created_at :: instant

record principal =
  pr_id :: uuid
  pr_subject :: string
  pr_role :: role
  pr_company_id :: "uuid option"
  pr_display_name :: string
  pr_active :: bool
  pr_created_at :: instant

record credential =
  cr_id :: uuid
  cr_principal_id :: uuid
  cr_token_hash :: string
  cr_label :: string
  cr_created_at :: instant
  cr_expires_at :: "instant option"
  cr_revoked_at :: "instant option"
  cr_last_used_at :: "instant option"

record tariff =
  ta_id :: uuid
  ta_product_category :: string
  ta_unit_price_minor :: int
  ta_currency :: string
  ta_vat_bps :: int
  ta_effective_from :: instant
  ta_effective_to :: "instant option"
  ta_statutory_reference :: string
  ta_created_at :: instant

record order =
  o_id :: uuid
  o_order_ref :: string
  o_company_id :: uuid
  o_submitted_by :: uuid
  o_product_category :: string
  o_quantity :: int
  o_tariff_id :: uuid
  o_unit_price_minor :: int
  o_subtotal_minor :: int
  o_vat_bps :: int
  o_vat_minor :: int
  o_total_minor :: int
  o_currency :: string
  o_status :: order_status
  o_risk_tier :: risk_tier
  o_delivery_state :: string
  o_delivery_address :: string
  o_compliance_evidence :: "json_object option"
  o_created_at :: instant
  o_updated_at :: instant

record order_transition =
  ot_id :: uuid
  ot_order_id :: uuid
  ot_from_status :: "order_status option"
  ot_to_status :: order_status
  ot_actor_principal_id :: "uuid option"
  ot_reason :: string
  ot_created_at :: instant

record approval =
  ap_id :: uuid
  ap_order_id :: uuid
  ap_level :: approval_level
  ap_decision :: approval_decision
  ap_actor_principal_id :: uuid
  ap_reason :: string
  ap_created_at :: instant

record payment_intent =
  pi_id :: uuid
  pi_order_id :: uuid
  pi_reference :: string
  pi_amount_minor :: int
  pi_currency :: string
  pi_status :: payment_intent_status
  pi_created_at :: instant
  pi_settled_at :: "instant option"

record payment_receipt =
  rc_id :: uuid
  rc_external_reference :: string
  rc_payment_intent_id :: "uuid option"
  rc_declared_reference :: string
  rc_amount_minor :: int
  rc_currency :: string
  rc_status :: receipt_status
  rc_payload_hash :: string
  rc_value_date :: instant
  rc_ingested_at :: instant

record tb_ledger_intent =
  tb_id :: uuid
  tb_payment_intent_id :: uuid
  tb_transfer_id :: string
  tb_debit_account_id :: string
  tb_credit_account_id :: string
  tb_ledger_code :: int
  tb_transfer_code :: int
  tb_transfer_flags :: int
  tb_amount_minor :: int
  tb_currency :: string
  tb_payload_hash :: string
  tb_state :: tb_intent_state
  tb_attempt_count :: int
  tb_last_error :: "string option"
  tb_external_timestamp :: "int option"
  tb_external_confirmed_at :: "instant option"
  tb_posted_at :: "instant option"
  tb_created_at :: instant
  tb_updated_at :: instant

record journal =
  j_id :: uuid
  j_reference :: string
  j_kind :: string
  j_currency :: string
  j_order_id :: "uuid option"
  j_payment_receipt_id :: "uuid option"
  j_reverses_journal_id :: "uuid option"
  j_created_at :: instant

record ledger_entry =
  le_id :: uuid
  le_journal_id :: uuid
  le_account :: string
  le_direction :: string
  le_amount_minor :: int
  le_currency :: string
  le_created_at :: instant

record serial_counter =
  sc_product_category :: string
  sc_year :: int
  sc_next_value :: int

record stamp_batch =
  b_id :: uuid
  b_order_id :: uuid
  b_requested_count :: int
  b_issued_count :: int
  b_status :: batch_status
  b_created_at :: instant
  b_completed_at :: "instant option"

record stamp =
  s_id :: uuid
  s_serial :: string
  s_batch_id :: uuid
  s_order_id :: uuid
  s_company_id :: uuid
  s_product_category :: string
  s_status :: stamp_status
  s_secure_code_hash :: string
  s_issued_at :: instant
  s_activated_at :: "instant option"
  s_voided_at :: "instant option"
  s_expires_at :: instant

record stamp_event =
  se_id :: uuid
  se_stamp_id :: uuid
  se_event_type :: string
  se_actor_principal_id :: "uuid option"
  se_context :: json_object
  se_created_at :: instant

record inspection =
  insp_id :: uuid
  insp_batch_id :: uuid
  insp_lot_size :: int
  insp_sample_size :: int
  insp_accept_number :: int
  insp_reject_number :: int
  insp_defects_found :: int
  insp_accepted :: bool
  insp_inspector_principal_id :: uuid
  insp_defective_serials :: "string list"
  insp_created_at :: instant

record verification =
  v_id :: uuid
  v_stamp_id :: "uuid option"
  v_serial_presented :: string
  v_outcome :: verification_outcome
  v_principal_id :: uuid
  v_device_id :: string
  v_nonce :: string
  v_latitude_e7 :: "int option"
  v_longitude_e7 :: "int option"
  v_occurred_at :: instant

record idempotency_record =
  ir_id :: uuid
  ir_scope :: string
  ir_idempotency_key :: string
  ir_principal_id :: uuid
  ir_request_hash :: string
  ir_state :: string
  ir_response_status :: "int option"
  ir_response_body :: "json_object option"
  ir_created_at :: instant
  ir_completed_at :: "instant option"
  ir_expires_at :: instant

record outbox_message =
  m_id :: uuid
  m_aggregate_type :: string
  m_aggregate_id :: uuid
  m_event_type :: string
  m_dedupe_key :: string
  m_payload :: json_object
  m_created_at :: instant
  m_available_at :: instant
  m_attempts :: int
  m_locked_by :: "string option"
  m_locked_until :: "instant option"
  m_processed_at :: "instant option"
  m_dead_lettered_at :: "instant option"
  m_last_error :: "string option"

record audit_event =
  ae_seq :: int
  ae_event_id :: uuid
  ae_occurred_at :: instant
  ae_ingested_at :: instant
  ae_actor_principal_id :: "uuid option"
  ae_actor_subject :: string
  ae_actor_role :: string
  ae_company_id :: "uuid option"
  ae_action :: string
  ae_target_type :: string
  ae_target_id :: string
  ae_outcome :: string
  ae_request_id :: "string option"
  ae_idempotency_key :: "string option"
  ae_before_state :: "json_object option"
  ae_after_state :: "json_object option"
  ae_revision :: string
  ae_prev_hash :: string
  ae_hash :: string

record reconciliation_run =
  rr_id :: uuid
  rr_kind :: string
  rr_started_at :: instant
  rr_finished_at :: "instant option"
  rr_status :: string
  rr_findings :: json_object

text \<open>The database.\<close>

record db =
  next_uuid :: uuid
  next_seq :: int
  db_now :: instant
  companies :: "company list"
  principals :: "principal list"
  credentials :: "credential list"
  tariffs :: "tariff list"
  orders :: "order list"
  order_transitions :: "order_transition list"
  approvals :: "approval list"
  payment_intents :: "payment_intent list"
  payment_receipts :: "payment_receipt list"
  tb_ledger_intents :: "tb_ledger_intent list"
  journals :: "journal list"
  ledger_entries :: "ledger_entry list"
  serial_counters :: "serial_counter list"
  stamp_batches :: "stamp_batch list"
  stamps :: "stamp list"
  stamp_events :: "stamp_event list"
  inspections :: "inspection list"
  verifications :: "verification list"
  idempotency_records :: "idempotency_record list"
  outbox_messages :: "outbox_message list"
  audit_events :: "audit_event list"
  reconciliation_runs :: "reconciliation_run list"

section \<open>Column types\<close>

definition varchar :: "nat \<Rightarrow> string \<Rightarrow> bool" where
  "varchar n s = (length s \<le> n \<and> CHR 0x00 \<notin> set s)"

definition text_col :: "string \<Rightarrow> bool" where
  "text_col s = (CHR 0x00 \<notin> set s)"

definition bigint :: "int \<Rightarrow> bool" where
  "bigint i = (- (2 ^ 63) \<le> i \<and> i < 2 ^ 63)"

definition int4 :: "int \<Rightarrow> bool" where
  "int4 i = (- (2 ^ 31) \<le> i \<and> i < 2 ^ 31)"

definition opt_col :: "('a \<Rightarrow> bool) \<Rightarrow> 'a option \<Rightarrow> bool" where
  "opt_col p v = (case v of None \<Rightarrow> True | Some x \<Rightarrow> p x)"

text \<open>\<^verbatim>\<open>col ~ '^[0-9a-f]{n}$'\<close>\<close>

definition lower_hex :: "nat \<Rightarrow> string \<Rightarrow> bool" where
  "lower_hex n s = (length s = n \<and> list_all (\<lambda>c. c \<in> set ''0123456789abcdef'') s)"

definition foreign_key :: "('r \<Rightarrow> uuid) \<Rightarrow> 'r list \<Rightarrow> uuid \<Rightarrow> bool" where
  "foreign_key k rows i = (i \<in> k ` set rows)"

definition unused :: "('r \<Rightarrow> 'k) \<Rightarrow> 'r list \<Rightarrow> 'k \<Rightarrow> bool" where
  "unused k rows x = (x \<notin> k ` set rows)"

text \<open>The outcome of an \<^verbatim>\<open>INSERT\<close>.\<close>

definition insert_row :: "bool \<Rightarrow> bool \<Rightarrow> 'a \<Rightarrow> 'a res" where
  "insert_row types checks done =
     (if \<not> types then Inl DataError else if \<not> checks then Inl IntegrityError else Inr done)"

section \<open>Constraints and insertion\<close>

definition upper_char :: "char \<Rightarrow> char" where
  "upper_char c = (let n = (of_char c :: nat) in
     if (97 \<le> n \<and> n \<le> 122) \<or> (224 \<le> n \<and> n \<le> 254 \<and> n \<noteq> 247) then char_of (n - 32) else c)"

definition company_types :: "company \<Rightarrow> bool" where
  "company_types r =
     (varchar 32 (co_tin r) \<and> varchar 255 (co_name r))"

definition company_checks :: "db \<Rightarrow> company \<Rightarrow> bool" where
  "company_checks db r =
     (unused co_id (companies db) (co_id r) \<and>
      unused co_tin (companies db) (co_tin r) \<and>
      8 \<le> length (co_tin r))"

definition insert_company :: "(uuid \<Rightarrow> company) \<Rightarrow> db \<Rightarrow> (company \<times> db) res" where
  "insert_company mk db =
     (let r = mk (next_uuid db)
      in insert_row (company_types r) (company_checks db r)
           (r, db\<lparr>next_uuid := Suc (next_uuid db), companies := companies db @ [r]\<rparr>))"

definition principal_types :: "principal \<Rightarrow> bool" where
  "principal_types r =
     (varchar 128 (pr_subject r) \<and> varchar 255 (pr_display_name r))"

definition principal_checks :: "db \<Rightarrow> principal \<Rightarrow> bool" where
  "principal_checks db r =
     (unused pr_id (principals db) (pr_id r) \<and>
      unused pr_subject (principals db) (pr_subject r) \<and>
      opt_col (foreign_key co_id (companies db)) (pr_company_id r) \<and>
      (pr_role r = REQUESTER \<longrightarrow> pr_company_id r \<noteq> None))"

definition insert_principal :: "(uuid \<Rightarrow> principal) \<Rightarrow> db \<Rightarrow> (principal \<times> db) res" where
  "insert_principal mk db =
     (let r = mk (next_uuid db)
      in insert_row (principal_types r) (principal_checks db r)
           (r, db\<lparr>next_uuid := Suc (next_uuid db), principals := principals db @ [r]\<rparr>))"

definition credential_types :: "credential \<Rightarrow> bool" where
  "credential_types r =
     (varchar 64 (cr_token_hash r) \<and> varchar 128 (cr_label r))"

definition credential_checks :: "db \<Rightarrow> credential \<Rightarrow> bool" where
  "credential_checks db r =
     (unused cr_id (credentials db) (cr_id r) \<and>
      unused cr_token_hash (credentials db) (cr_token_hash r) \<and>
      foreign_key pr_id (principals db) (cr_principal_id r))"

definition insert_credential :: "(uuid \<Rightarrow> credential) \<Rightarrow> db \<Rightarrow> (credential \<times> db) res" where
  "insert_credential mk db =
     (let r = mk (next_uuid db)
      in insert_row (credential_types r) (credential_checks db r)
           (r, db\<lparr>next_uuid := Suc (next_uuid db), credentials := credentials db @ [r]\<rparr>))"

definition tariff_types :: "tariff \<Rightarrow> bool" where
  "tariff_types r =
     (varchar 64 (ta_product_category r) \<and> bigint (ta_unit_price_minor r) \<and> varchar 3 (ta_currency r) \<and>
      int4 (ta_vat_bps r) \<and> varchar 255 (ta_statutory_reference r))"

definition tariff_checks :: "db \<Rightarrow> tariff \<Rightarrow> bool" where
  "tariff_checks db r =
     (unused ta_id (tariffs db) (ta_id r) \<and>
      unused (\<lambda>x. (ta_product_category x, ta_effective_from x)) (tariffs db) (ta_product_category r, ta_effective_from r) \<and>
      0 < ta_unit_price_minor r \<and> 0 \<le> ta_vat_bps r \<and> ta_vat_bps r \<le> 10000 \<and>
      opt_col (\<lambda>t. ta_effective_from r < t) (ta_effective_to r))"

definition insert_tariff :: "(uuid \<Rightarrow> tariff) \<Rightarrow> db \<Rightarrow> (tariff \<times> db) res" where
  "insert_tariff mk db =
     (let r = mk (next_uuid db)
      in insert_row (tariff_types r) (tariff_checks db r)
           (r, db\<lparr>next_uuid := Suc (next_uuid db), tariffs := tariffs db @ [r]\<rparr>))"

definition order_types :: "order \<Rightarrow> bool" where
  "order_types r =
     (varchar 40 (o_order_ref r) \<and> varchar 64 (o_product_category r) \<and> bigint (o_quantity r) \<and>
      bigint (o_unit_price_minor r) \<and> bigint (o_subtotal_minor r) \<and> int4 (o_vat_bps r) \<and>
      bigint (o_vat_minor r) \<and> bigint (o_total_minor r) \<and> varchar 3 (o_currency r) \<and>
      varchar 64 (o_delivery_state r) \<and> text_col (o_delivery_address r))"

definition order_checks :: "db \<Rightarrow> order \<Rightarrow> bool" where
  "order_checks db r =
     (unused o_id (orders db) (o_id r) \<and>
      unused o_order_ref (orders db) (o_order_ref r) \<and>
      foreign_key co_id (companies db) (o_company_id r) \<and>
      foreign_key pr_id (principals db) (o_submitted_by r) \<and>
      foreign_key ta_id (tariffs db) (o_tariff_id r) \<and>
      0 < o_quantity r \<and> 0 < o_unit_price_minor r \<and> 0 < o_subtotal_minor r \<and> 0 \<le> o_vat_minor r \<and>
      o_subtotal_minor r = o_unit_price_minor r * o_quantity r \<and>
      o_total_minor r = o_subtotal_minor r + o_vat_minor r)"

definition insert_order :: "(uuid \<Rightarrow> order) \<Rightarrow> db \<Rightarrow> (order \<times> db) res" where
  "insert_order mk db =
     (let r = mk (next_uuid db)
      in insert_row (order_types r) (order_checks db r)
           (r, db\<lparr>next_uuid := Suc (next_uuid db), orders := orders db @ [r]\<rparr>))"

definition order_transition_types :: "order_transition \<Rightarrow> bool" where
  "order_transition_types r =
     (varchar 500 (ot_reason r))"

definition order_transition_checks :: "db \<Rightarrow> order_transition \<Rightarrow> bool" where
  "order_transition_checks db r =
     (unused ot_id (order_transitions db) (ot_id r) \<and>
      foreign_key o_id (orders db) (ot_order_id r) \<and>
      opt_col (foreign_key pr_id (principals db)) (ot_actor_principal_id r))"

definition insert_order_transition :: "(uuid \<Rightarrow> order_transition) \<Rightarrow> db \<Rightarrow> (order_transition \<times> db) res" where
  "insert_order_transition mk db =
     (let r = mk (next_uuid db)
      in insert_row (order_transition_types r) (order_transition_checks db r)
           (r, db\<lparr>next_uuid := Suc (next_uuid db), order_transitions := order_transitions db @ [r]\<rparr>))"

definition approval_types :: "approval \<Rightarrow> bool" where
  "approval_types r =
     (varchar 500 (ap_reason r))"

definition approval_checks :: "db \<Rightarrow> approval \<Rightarrow> bool" where
  "approval_checks db r =
     (unused ap_id (approvals db) (ap_id r) \<and>
      unused (\<lambda>x. (ap_order_id x, ap_level x)) (approvals db) (ap_order_id r, ap_level r) \<and>
      foreign_key o_id (orders db) (ap_order_id r) \<and>
      foreign_key pr_id (principals db) (ap_actor_principal_id r))"

definition insert_approval :: "(uuid \<Rightarrow> approval) \<Rightarrow> db \<Rightarrow> (approval \<times> db) res" where
  "insert_approval mk db =
     (let r = mk (next_uuid db)
      in insert_row (approval_types r) (approval_checks db r)
           (r, db\<lparr>next_uuid := Suc (next_uuid db), approvals := approvals db @ [r]\<rparr>))"

definition payment_intent_types :: "payment_intent \<Rightarrow> bool" where
  "payment_intent_types r =
     (varchar 40 (pi_reference r) \<and> bigint (pi_amount_minor r) \<and> varchar 3 (pi_currency r))"

definition payment_intent_checks :: "db \<Rightarrow> payment_intent \<Rightarrow> bool" where
  "payment_intent_checks db r =
     (unused pi_id (payment_intents db) (pi_id r) \<and>
      unused pi_order_id (payment_intents db) (pi_order_id r) \<and>
      unused pi_reference (payment_intents db) (pi_reference r) \<and>
      foreign_key o_id (orders db) (pi_order_id r) \<and>
      0 < pi_amount_minor r)"

definition insert_payment_intent :: "(uuid \<Rightarrow> payment_intent) \<Rightarrow> db \<Rightarrow> (payment_intent \<times> db) res" where
  "insert_payment_intent mk db =
     (let r = mk (next_uuid db)
      in insert_row (payment_intent_types r) (payment_intent_checks db r)
           (r, db\<lparr>next_uuid := Suc (next_uuid db), payment_intents := payment_intents db @ [r]\<rparr>))"

definition payment_receipt_types :: "payment_receipt \<Rightarrow> bool" where
  "payment_receipt_types r =
     (varchar 128 (rc_external_reference r) \<and> varchar 64 (rc_declared_reference r) \<and>
      bigint (rc_amount_minor r) \<and> varchar 3 (rc_currency r) \<and> varchar 64 (rc_payload_hash r))"

definition payment_receipt_checks :: "db \<Rightarrow> payment_receipt \<Rightarrow> bool" where
  "payment_receipt_checks db r =
     (unused rc_id (payment_receipts db) (rc_id r) \<and>
      unused rc_external_reference (payment_receipts db) (rc_external_reference r) \<and>
      opt_col (foreign_key pi_id (payment_intents db)) (rc_payment_intent_id r) \<and>
      0 < rc_amount_minor r)"

definition insert_payment_receipt :: "(uuid \<Rightarrow> payment_receipt) \<Rightarrow> db \<Rightarrow> (payment_receipt \<times> db) res" where
  "insert_payment_receipt mk db =
     (let r = mk (next_uuid db)
      in insert_row (payment_receipt_types r) (payment_receipt_checks db r)
           (r, db\<lparr>next_uuid := Suc (next_uuid db), payment_receipts := payment_receipts db @ [r]\<rparr>))"

definition tb_ledger_intent_types :: "tb_ledger_intent \<Rightarrow> bool" where
  "tb_ledger_intent_types r =
     (varchar 32 (tb_transfer_id r) \<and> varchar 32 (tb_debit_account_id r) \<and> varchar 32 (tb_credit_account_id r) \<and>
      bigint (tb_ledger_code r) \<and> int4 (tb_transfer_code r) \<and> bigint (tb_transfer_flags r) \<and>
      bigint (tb_amount_minor r) \<and> varchar 3 (tb_currency r) \<and> varchar 64 (tb_payload_hash r) \<and>
      int4 (tb_attempt_count r) \<and> opt_col text_col (tb_last_error r) \<and> opt_col bigint (tb_external_timestamp r))"

definition tb_ledger_intent_checks :: "db \<Rightarrow> tb_ledger_intent \<Rightarrow> bool" where
  "tb_ledger_intent_checks db r =
     (unused tb_id (tb_ledger_intents db) (tb_id r) \<and>
      unused tb_payment_intent_id (tb_ledger_intents db) (tb_payment_intent_id r) \<and>
      unused tb_transfer_id (tb_ledger_intents db) (tb_transfer_id r) \<and>
      foreign_key pi_id (payment_intents db) (tb_payment_intent_id r) \<and>
      0 < tb_amount_minor r \<and> tb_debit_account_id r \<noteq> tb_credit_account_id r \<and>
      0 < tb_ledger_code r \<and> tb_ledger_code r \<le> 4294967295 \<and>
      0 \<le> tb_transfer_code r \<and> tb_transfer_code r \<le> 65535 \<and> 0 \<le> tb_transfer_flags r \<and>
      0 \<le> tb_attempt_count r \<and> length (tb_currency r) = 3 \<and>
      tb_currency r = map upper_char (tb_currency r) \<and>
      lower_hex 32 (tb_transfer_id r) \<and> lower_hex 32 (tb_debit_account_id r) \<and>
      lower_hex 32 (tb_credit_account_id r) \<and> lower_hex 64 (tb_payload_hash r))"

definition insert_tb_ledger_intent :: "(uuid \<Rightarrow> tb_ledger_intent) \<Rightarrow> db \<Rightarrow> (tb_ledger_intent \<times> db) res" where
  "insert_tb_ledger_intent mk db =
     (let r = mk (next_uuid db)
      in insert_row (tb_ledger_intent_types r) (tb_ledger_intent_checks db r)
           (r, db\<lparr>next_uuid := Suc (next_uuid db), tb_ledger_intents := tb_ledger_intents db @ [r]\<rparr>))"

definition journal_types :: "journal \<Rightarrow> bool" where
  "journal_types r =
     (varchar 128 (j_reference r) \<and> varchar 64 (j_kind r) \<and> varchar 3 (j_currency r))"

definition journal_checks :: "db \<Rightarrow> journal \<Rightarrow> bool" where
  "journal_checks db r =
     (unused j_id (journals db) (j_id r) \<and>
      unused j_reference (journals db) (j_reference r) \<and>
      opt_col (foreign_key o_id (orders db)) (j_order_id r) \<and>
      opt_col (foreign_key rc_id (payment_receipts db)) (j_payment_receipt_id r) \<and>
      opt_col (foreign_key j_id (journals db)) (j_reverses_journal_id r) \<and>
      (j_reverses_journal_id r = None \<or> unused j_reverses_journal_id (journals db) (j_reverses_journal_id r)))"

definition insert_journal :: "(uuid \<Rightarrow> journal) \<Rightarrow> db \<Rightarrow> (journal \<times> db) res" where
  "insert_journal mk db =
     (let r = mk (next_uuid db)
      in insert_row (journal_types r) (journal_checks db r)
           (r, db\<lparr>next_uuid := Suc (next_uuid db), journals := journals db @ [r]\<rparr>))"

definition ledger_entry_types :: "ledger_entry \<Rightarrow> bool" where
  "ledger_entry_types r =
     (varchar 64 (le_account r) \<and> varchar 6 (le_direction r) \<and> bigint (le_amount_minor r) \<and>
      varchar 3 (le_currency r))"

definition ledger_entry_checks :: "db \<Rightarrow> ledger_entry \<Rightarrow> bool" where
  "ledger_entry_checks db r =
     (unused le_id (ledger_entries db) (le_id r) \<and>
      foreign_key j_id (journals db) (le_journal_id r) \<and>
      le_direction r \<in> {''debit'', ''credit''} \<and> 0 < le_amount_minor r)"

definition insert_ledger_entry :: "(uuid \<Rightarrow> ledger_entry) \<Rightarrow> db \<Rightarrow> (ledger_entry \<times> db) res" where
  "insert_ledger_entry mk db =
     (let r = mk (next_uuid db)
      in insert_row (ledger_entry_types r) (ledger_entry_checks db r)
           (r, db\<lparr>next_uuid := Suc (next_uuid db), ledger_entries := ledger_entries db @ [r]\<rparr>))"

definition stamp_batch_types :: "stamp_batch \<Rightarrow> bool" where
  "stamp_batch_types r =
     (bigint (b_requested_count r) \<and> bigint (b_issued_count r))"

definition stamp_batch_checks :: "db \<Rightarrow> stamp_batch \<Rightarrow> bool" where
  "stamp_batch_checks db r =
     (unused b_id (stamp_batches db) (b_id r) \<and>
      unused b_order_id (stamp_batches db) (b_order_id r) \<and>
      foreign_key o_id (orders db) (b_order_id r) \<and>
      0 < b_requested_count r \<and> 0 \<le> b_issued_count r \<and> b_issued_count r \<le> b_requested_count r)"

definition insert_stamp_batch :: "(uuid \<Rightarrow> stamp_batch) \<Rightarrow> db \<Rightarrow> (stamp_batch \<times> db) res" where
  "insert_stamp_batch mk db =
     (let r = mk (next_uuid db)
      in insert_row (stamp_batch_types r) (stamp_batch_checks db r)
           (r, db\<lparr>next_uuid := Suc (next_uuid db), stamp_batches := stamp_batches db @ [r]\<rparr>))"

definition stamp_types :: "stamp \<Rightarrow> bool" where
  "stamp_types r =
     (varchar 64 (s_serial r) \<and> varchar 64 (s_product_category r) \<and> varchar 64 (s_secure_code_hash r))"

definition stamp_checks :: "db \<Rightarrow> stamp \<Rightarrow> bool" where
  "stamp_checks db r =
     (unused s_id (stamps db) (s_id r) \<and>
      unused s_serial (stamps db) (s_serial r) \<and>
      foreign_key b_id (stamp_batches db) (s_batch_id r) \<and>
      foreign_key o_id (orders db) (s_order_id r) \<and>
      foreign_key co_id (companies db) (s_company_id r) \<and>
      (s_status r = S_ACTIVE \<longrightarrow> s_activated_at r \<noteq> None) \<and>
      (s_status r = S_VOID \<longrightarrow> s_voided_at r \<noteq> None))"

definition insert_stamp :: "(uuid \<Rightarrow> stamp) \<Rightarrow> db \<Rightarrow> (stamp \<times> db) res" where
  "insert_stamp mk db =
     (let r = mk (next_uuid db)
      in insert_row (stamp_types r) (stamp_checks db r)
           (r, db\<lparr>next_uuid := Suc (next_uuid db), stamps := stamps db @ [r]\<rparr>))"

definition stamp_event_types :: "stamp_event \<Rightarrow> bool" where
  "stamp_event_types r =
     (varchar 32 (se_event_type r))"

definition stamp_event_checks :: "db \<Rightarrow> stamp_event \<Rightarrow> bool" where
  "stamp_event_checks db r =
     (unused se_id (stamp_events db) (se_id r) \<and>
      foreign_key s_id (stamps db) (se_stamp_id r) \<and>
      opt_col (foreign_key pr_id (principals db)) (se_actor_principal_id r))"

definition insert_stamp_event :: "(uuid \<Rightarrow> stamp_event) \<Rightarrow> db \<Rightarrow> (stamp_event \<times> db) res" where
  "insert_stamp_event mk db =
     (let r = mk (next_uuid db)
      in insert_row (stamp_event_types r) (stamp_event_checks db r)
           (r, db\<lparr>next_uuid := Suc (next_uuid db), stamp_events := stamp_events db @ [r]\<rparr>))"

definition inspection_types :: "inspection \<Rightarrow> bool" where
  "inspection_types r =
     (bigint (insp_lot_size r) \<and> int4 (insp_sample_size r) \<and> int4 (insp_accept_number r) \<and>
      int4 (insp_reject_number r) \<and> int4 (insp_defects_found r))"

definition inspection_checks :: "db \<Rightarrow> inspection \<Rightarrow> bool" where
  "inspection_checks db r =
     (unused insp_id (inspections db) (insp_id r) \<and>
      unused insp_batch_id (inspections db) (insp_batch_id r) \<and>
      foreign_key b_id (stamp_batches db) (insp_batch_id r) \<and>
      foreign_key pr_id (principals db) (insp_inspector_principal_id r) \<and>
      0 < insp_sample_size r \<and> insp_sample_size r \<le> insp_lot_size r \<and> 0 \<le> insp_defects_found r)"

definition insert_inspection :: "(uuid \<Rightarrow> inspection) \<Rightarrow> db \<Rightarrow> (inspection \<times> db) res" where
  "insert_inspection mk db =
     (let r = mk (next_uuid db)
      in insert_row (inspection_types r) (inspection_checks db r)
           (r, db\<lparr>next_uuid := Suc (next_uuid db), inspections := inspections db @ [r]\<rparr>))"

definition verification_types :: "verification \<Rightarrow> bool" where
  "verification_types r =
     (varchar 64 (v_serial_presented r) \<and> varchar 64 (v_device_id r) \<and> varchar 64 (v_nonce r) \<and>
      opt_col bigint (v_latitude_e7 r) \<and> opt_col bigint (v_longitude_e7 r))"

definition verification_checks :: "db \<Rightarrow> verification \<Rightarrow> bool" where
  "verification_checks db r =
     (unused v_id (verifications db) (v_id r) \<and>
      opt_col (foreign_key s_id (stamps db)) (v_stamp_id r) \<and>
      foreign_key pr_id (principals db) (v_principal_id r))"

definition insert_verification :: "(uuid \<Rightarrow> verification) \<Rightarrow> db \<Rightarrow> (verification \<times> db) res" where
  "insert_verification mk db =
     (let r = mk (next_uuid db)
      in insert_row (verification_types r) (verification_checks db r)
           (r, db\<lparr>next_uuid := Suc (next_uuid db), verifications := verifications db @ [r]\<rparr>))"

definition idempotency_record_types :: "idempotency_record \<Rightarrow> bool" where
  "idempotency_record_types r =
     (varchar 64 (ir_scope r) \<and> varchar 128 (ir_idempotency_key r) \<and> varchar 64 (ir_request_hash r) \<and>
      varchar 16 (ir_state r) \<and> opt_col int4 (ir_response_status r))"

definition idempotency_record_checks :: "db \<Rightarrow> idempotency_record \<Rightarrow> bool" where
  "idempotency_record_checks db r =
     (unused ir_id (idempotency_records db) (ir_id r) \<and>
      unused (\<lambda>x. (ir_scope x, ir_idempotency_key x)) (idempotency_records db) (ir_scope r, ir_idempotency_key r) \<and>
      foreign_key pr_id (principals db) (ir_principal_id r) \<and>
      ir_state r \<in> {''in_progress'', ''completed''})"

definition insert_idempotency_record :: "(uuid \<Rightarrow> idempotency_record) \<Rightarrow> db \<Rightarrow> (idempotency_record \<times> db) res" where
  "insert_idempotency_record mk db =
     (let r = mk (next_uuid db)
      in insert_row (idempotency_record_types r) (idempotency_record_checks db r)
           (r, db\<lparr>next_uuid := Suc (next_uuid db), idempotency_records := idempotency_records db @ [r]\<rparr>))"

definition outbox_message_types :: "outbox_message \<Rightarrow> bool" where
  "outbox_message_types r =
     (varchar 64 (m_aggregate_type r) \<and> varchar 64 (m_event_type r) \<and> varchar 200 (m_dedupe_key r) \<and>
      int4 (m_attempts r) \<and> opt_col (varchar 64) (m_locked_by r) \<and> opt_col text_col (m_last_error r))"

definition outbox_message_checks :: "db \<Rightarrow> outbox_message \<Rightarrow> bool" where
  "outbox_message_checks db r =
     (unused m_id (outbox_messages db) (m_id r) \<and>
      unused m_dedupe_key (outbox_messages db) (m_dedupe_key r))"

definition insert_outbox_message :: "(uuid \<Rightarrow> outbox_message) \<Rightarrow> db \<Rightarrow> (outbox_message \<times> db) res" where
  "insert_outbox_message mk db =
     (let r = mk (next_uuid db)
      in insert_row (outbox_message_types r) (outbox_message_checks db r)
           (r, db\<lparr>next_uuid := Suc (next_uuid db), outbox_messages := outbox_messages db @ [r]\<rparr>))"

definition reconciliation_run_types :: "reconciliation_run \<Rightarrow> bool" where
  "reconciliation_run_types r =
     (varchar 64 (rr_kind r) \<and> varchar 16 (rr_status r))"

definition reconciliation_run_checks :: "db \<Rightarrow> reconciliation_run \<Rightarrow> bool" where
  "reconciliation_run_checks db r =
     (unused rr_id (reconciliation_runs db) (rr_id r) \<and>
      rr_status r \<in> {''clean'', ''findings'', ''error''})"

definition insert_reconciliation_run :: "(uuid \<Rightarrow> reconciliation_run) \<Rightarrow> db \<Rightarrow> (reconciliation_run \<times> db) res" where
  "insert_reconciliation_run mk db =
     (let r = mk (next_uuid db)
      in insert_row (reconciliation_run_types r) (reconciliation_run_checks db r)
           (r, db\<lparr>next_uuid := Suc (next_uuid db), reconciliation_runs := reconciliation_runs db @ [r]\<rparr>))"

text \<open>
  The audit trail numbers its rows by a sequence and is keyed by the event id, which the program
  draws itself.
\<close>

definition audit_event_types :: "audit_event \<Rightarrow> bool" where
  "audit_event_types r =
     (varchar 128 (ae_actor_subject r) \<and> varchar 32 (ae_actor_role r) \<and> varchar 64 (ae_action r) \<and>
      varchar 64 (ae_target_type r) \<and> varchar 128 (ae_target_id r) \<and> varchar 16 (ae_outcome r) \<and>
      opt_col (varchar 64) (ae_request_id r) \<and> opt_col (varchar 128) (ae_idempotency_key r) \<and>
      varchar 64 (ae_revision r) \<and> varchar 64 (ae_prev_hash r) \<and> varchar 64 (ae_hash r))"

definition audit_event_checks :: "db \<Rightarrow> audit_event \<Rightarrow> bool" where
  "audit_event_checks db r =
     (unused ae_seq (audit_events db) (ae_seq r) \<and> unused ae_event_id (audit_events db) (ae_event_id r) \<and>
      unused ae_hash (audit_events db) (ae_hash r) \<and>
      ae_outcome r \<in> {''success'', ''failure'', ''denied''})"

definition insert_audit_event :: "audit_event \<Rightarrow> db \<Rightarrow> (audit_event \<times> db) res" where
  "insert_audit_event r db =
     insert_row (audit_event_types r) (audit_event_checks db r)
       (r, db\<lparr>next_seq := next_seq db + 1, audit_events := audit_events db @ [r]\<rparr>)"

end
