(* ===== verification/Tables.thy ===== *)
theory Tables
  imports Models
begin

text \<open>
  The lemmas on tables the services share: what a successful insertion did, the contract of a
  unique index, and its instances for the unique columns of the schema.
\<close>

named_theorems insert_ok \<open>when an insertion succeeds and what it leaves behind\<close>

lemma insert_row_ok: "insert_row t c d = Inr x \<longleftrightarrow> t \<and> c \<and> x = d"
  by (auto simp: insert_row_def)

lemma insert_row_Inl:
  "insert_row t c d = Inl e \<longleftrightarrow> (\<not> t \<and> e = DataError) \<or> (t \<and> \<not> c \<and> e = IntegrityError)"
  by (auto simp: insert_row_def)

lemma insert_company_ok [insert_ok]:
  "insert_company mk db = Inr (r, db') \<longleftrightarrow> r = mk (next_uuid db) \<and> company_types r \<and> company_checks db r \<and>
     db' = db\<lparr>next_uuid := Suc (next_uuid db), companies := companies db @ [r]\<rparr>"
  by (auto simp: insert_company_def Let_def insert_row_ok)

lemma insert_principal_ok [insert_ok]:
  "insert_principal mk db = Inr (r, db') \<longleftrightarrow> r = mk (next_uuid db) \<and> principal_types r \<and> principal_checks db r \<and>
     db' = db\<lparr>next_uuid := Suc (next_uuid db), principals := principals db @ [r]\<rparr>"
  by (auto simp: insert_principal_def Let_def insert_row_ok)

lemma insert_credential_ok [insert_ok]:
  "insert_credential mk db = Inr (r, db') \<longleftrightarrow> r = mk (next_uuid db) \<and> credential_types r \<and> credential_checks db r \<and>
     db' = db\<lparr>next_uuid := Suc (next_uuid db), credentials := credentials db @ [r]\<rparr>"
  by (auto simp: insert_credential_def Let_def insert_row_ok)

lemma insert_tariff_ok [insert_ok]:
  "insert_tariff mk db = Inr (r, db') \<longleftrightarrow> r = mk (next_uuid db) \<and> tariff_types r \<and> tariff_checks db r \<and>
     db' = db\<lparr>next_uuid := Suc (next_uuid db), tariffs := tariffs db @ [r]\<rparr>"
  by (auto simp: insert_tariff_def Let_def insert_row_ok)

lemma insert_order_ok [insert_ok]:
  "insert_order mk db = Inr (r, db') \<longleftrightarrow> r = mk (next_uuid db) \<and> order_types r \<and> order_checks db r \<and>
     db' = db\<lparr>next_uuid := Suc (next_uuid db), orders := orders db @ [r]\<rparr>"
  by (auto simp: insert_order_def Let_def insert_row_ok)

lemma insert_order_transition_ok [insert_ok]:
  "insert_order_transition mk db = Inr (r, db') \<longleftrightarrow> r = mk (next_uuid db) \<and> order_transition_types r \<and> order_transition_checks db r \<and>
     db' = db\<lparr>next_uuid := Suc (next_uuid db), order_transitions := order_transitions db @ [r]\<rparr>"
  by (auto simp: insert_order_transition_def Let_def insert_row_ok)

lemma insert_approval_ok [insert_ok]:
  "insert_approval mk db = Inr (r, db') \<longleftrightarrow> r = mk (next_uuid db) \<and> approval_types r \<and> approval_checks db r \<and>
     db' = db\<lparr>next_uuid := Suc (next_uuid db), approvals := approvals db @ [r]\<rparr>"
  by (auto simp: insert_approval_def Let_def insert_row_ok)

lemma insert_payment_intent_ok [insert_ok]:
  "insert_payment_intent mk db = Inr (r, db') \<longleftrightarrow> r = mk (next_uuid db) \<and> payment_intent_types r \<and> payment_intent_checks db r \<and>
     db' = db\<lparr>next_uuid := Suc (next_uuid db), payment_intents := payment_intents db @ [r]\<rparr>"
  by (auto simp: insert_payment_intent_def Let_def insert_row_ok)

lemma insert_payment_receipt_ok [insert_ok]:
  "insert_payment_receipt mk db = Inr (r, db') \<longleftrightarrow> r = mk (next_uuid db) \<and> payment_receipt_types r \<and> payment_receipt_checks db r \<and>
     db' = db\<lparr>next_uuid := Suc (next_uuid db), payment_receipts := payment_receipts db @ [r]\<rparr>"
  by (auto simp: insert_payment_receipt_def Let_def insert_row_ok)

lemma insert_tb_ledger_intent_ok [insert_ok]:
  "insert_tb_ledger_intent mk db = Inr (r, db') \<longleftrightarrow> r = mk (next_uuid db) \<and> tb_ledger_intent_types r \<and> tb_ledger_intent_checks db r \<and>
     db' = db\<lparr>next_uuid := Suc (next_uuid db), tb_ledger_intents := tb_ledger_intents db @ [r]\<rparr>"
  by (auto simp: insert_tb_ledger_intent_def Let_def insert_row_ok)

lemma insert_journal_ok [insert_ok]:
  "insert_journal mk db = Inr (r, db') \<longleftrightarrow> r = mk (next_uuid db) \<and> journal_types r \<and> journal_checks db r \<and>
     db' = db\<lparr>next_uuid := Suc (next_uuid db), journals := journals db @ [r]\<rparr>"
  by (auto simp: insert_journal_def Let_def insert_row_ok)

lemma insert_ledger_entry_ok [insert_ok]:
  "insert_ledger_entry mk db = Inr (r, db') \<longleftrightarrow> r = mk (next_uuid db) \<and> ledger_entry_types r \<and> ledger_entry_checks db r \<and>
     db' = db\<lparr>next_uuid := Suc (next_uuid db), ledger_entries := ledger_entries db @ [r]\<rparr>"
  by (auto simp: insert_ledger_entry_def Let_def insert_row_ok)

lemma insert_stamp_batch_ok [insert_ok]:
  "insert_stamp_batch mk db = Inr (r, db') \<longleftrightarrow> r = mk (next_uuid db) \<and> stamp_batch_types r \<and> stamp_batch_checks db r \<and>
     db' = db\<lparr>next_uuid := Suc (next_uuid db), stamp_batches := stamp_batches db @ [r]\<rparr>"
  by (auto simp: insert_stamp_batch_def Let_def insert_row_ok)

lemma insert_stamp_ok [insert_ok]:
  "insert_stamp mk db = Inr (r, db') \<longleftrightarrow> r = mk (next_uuid db) \<and> stamp_types r \<and> stamp_checks db r \<and>
     db' = db\<lparr>next_uuid := Suc (next_uuid db), stamps := stamps db @ [r]\<rparr>"
  by (auto simp: insert_stamp_def Let_def insert_row_ok)

lemma insert_stamp_event_ok [insert_ok]:
  "insert_stamp_event mk db = Inr (r, db') \<longleftrightarrow> r = mk (next_uuid db) \<and> stamp_event_types r \<and> stamp_event_checks db r \<and>
     db' = db\<lparr>next_uuid := Suc (next_uuid db), stamp_events := stamp_events db @ [r]\<rparr>"
  by (auto simp: insert_stamp_event_def Let_def insert_row_ok)

lemma insert_inspection_ok [insert_ok]:
  "insert_inspection mk db = Inr (r, db') \<longleftrightarrow> r = mk (next_uuid db) \<and> inspection_types r \<and> inspection_checks db r \<and>
     db' = db\<lparr>next_uuid := Suc (next_uuid db), inspections := inspections db @ [r]\<rparr>"
  by (auto simp: insert_inspection_def Let_def insert_row_ok)

lemma insert_verification_ok [insert_ok]:
  "insert_verification mk db = Inr (r, db') \<longleftrightarrow> r = mk (next_uuid db) \<and> verification_types r \<and> verification_checks db r \<and>
     db' = db\<lparr>next_uuid := Suc (next_uuid db), verifications := verifications db @ [r]\<rparr>"
  by (auto simp: insert_verification_def Let_def insert_row_ok)

lemma insert_idempotency_record_ok [insert_ok]:
  "insert_idempotency_record mk db = Inr (r, db') \<longleftrightarrow> r = mk (next_uuid db) \<and> idempotency_record_types r \<and> idempotency_record_checks db r \<and>
     db' = db\<lparr>next_uuid := Suc (next_uuid db), idempotency_records := idempotency_records db @ [r]\<rparr>"
  by (auto simp: insert_idempotency_record_def Let_def insert_row_ok)

lemma insert_outbox_message_ok [insert_ok]:
  "insert_outbox_message mk db = Inr (r, db') \<longleftrightarrow> r = mk (next_uuid db) \<and> outbox_message_types r \<and> outbox_message_checks db r \<and>
     db' = db\<lparr>next_uuid := Suc (next_uuid db), outbox_messages := outbox_messages db @ [r]\<rparr>"
  by (auto simp: insert_outbox_message_def Let_def insert_row_ok)

lemma insert_reconciliation_run_ok [insert_ok]:
  "insert_reconciliation_run mk db = Inr (r, db') \<longleftrightarrow> r = mk (next_uuid db) \<and> reconciliation_run_types r \<and> reconciliation_run_checks db r \<and>
     db' = db\<lparr>next_uuid := Suc (next_uuid db), reconciliation_runs := reconciliation_runs db @ [r]\<rparr>"
  by (auto simp: insert_reconciliation_run_def Let_def insert_row_ok)

lemma insert_audit_event_ok [insert_ok]:
  "insert_audit_event r db = Inr (r', db') \<longleftrightarrow> r' = r \<and> audit_event_types r \<and> audit_event_checks db r \<and>
     db' = db\<lparr>next_seq := next_seq db + 1, audit_events := audit_events db @ [r]\<rparr>"
  by (auto simp: insert_audit_event_def insert_row_ok)

section \<open>Unique indexes\<close>

text \<open>
  What a service relies on when it looks a row up by a unique column: after an insertion the new
  key finds the new row and nothing else, every other key finds what it found before, and a key
  never finds two rows.
\<close>

locale unique_index =
  fixes ins :: "(uuid \<Rightarrow> 'r) \<Rightarrow> db \<Rightarrow> ('r \<times> db) res" and rows :: "db \<Rightarrow> 'r list" and key :: "'r \<Rightarrow> 'k"
  assumes ins_rows: "ins mk db = Inr (r, db') \<Longrightarrow> rows db' = rows db @ [r]"
    and ins_unused: "ins mk db = Inr (r, db') \<Longrightarrow> unused key (rows db) (key r)"
begin

lemma ins_distinct:
  "distinct (map key (rows db)) \<Longrightarrow> ins mk db = Inr (r, db') \<Longrightarrow> distinct (map key (rows db'))"
  using ins_rows [of mk db r db'] ins_unused [of mk db r db'] by (auto simp: unused_def)

lemma ins_lookup:
  assumes "ins mk db = Inr (r, db')"
  shows "filter (\<lambda>x. key x = key r) (rows db') = [r]"
  using ins_rows [OF assms] ins_unused [OF assms] by (auto simp: unused_def filter_empty_conv image_iff)

lemma ins_lookup_other:
  assumes "ins mk db = Inr (r, db')" and "k \<noteq> key r"
  shows "filter (\<lambda>x. key x = k) (rows db') = filter (\<lambda>x. key x = k) (rows db)"
  using ins_rows [OF assms(1)] assms(2) by auto

lemma lookup_one:
  assumes "distinct (map key (rows db))"
  shows "scalar_one_or_none (filter (\<lambda>x. key x = k) (rows db)) \<noteq> Inl e"
proof (cases "\<exists>r \<in> set (rows db). key r = k")
  case True
  then obtain r where "r \<in> set (rows db)" "key r = k" by blast
  with assms filter_key_singleton [of key "rows db" r] show ?thesis by simp
next
  case False
  then have "filter (\<lambda>x. key x = k) (rows db) = []" by (simp add: filter_empty_conv)
  then show ?thesis by simp
qed

end

lemmas unique_defs = order_checks_def approval_checks_def payment_intent_checks_def
  payment_receipt_checks_def tb_ledger_intent_checks_def journal_checks_def stamp_batch_checks_def
  stamp_checks_def inspection_checks_def idempotency_record_checks_def outbox_message_checks_def

interpretation order_ref_index: unique_index insert_order orders "o_order_ref"
  by unfold_locales (auto simp: insert_ok unique_defs)

interpretation order_id_index: unique_index insert_order orders "o_id"
  by unfold_locales (auto simp: insert_ok unique_defs)

interpretation approval_index: unique_index insert_approval approvals "(\<lambda>x. (ap_order_id x, ap_level x))"
  by unfold_locales (auto simp: insert_ok unique_defs)

interpretation intent_order_index: unique_index insert_payment_intent payment_intents "pi_order_id"
  by unfold_locales (auto simp: insert_ok unique_defs)

interpretation intent_reference_index: unique_index insert_payment_intent payment_intents "pi_reference"
  by unfold_locales (auto simp: insert_ok unique_defs)

interpretation receipt_index: unique_index insert_payment_receipt payment_receipts "rc_external_reference"
  by unfold_locales (auto simp: insert_ok unique_defs)

interpretation tb_payment_index: unique_index insert_tb_ledger_intent tb_ledger_intents "tb_payment_intent_id"
  by unfold_locales (auto simp: insert_ok unique_defs)

interpretation tb_transfer_index: unique_index insert_tb_ledger_intent tb_ledger_intents "tb_transfer_id"
  by unfold_locales (auto simp: insert_ok unique_defs)

interpretation journal_index: unique_index insert_journal journals "j_reference"
  by unfold_locales (auto simp: insert_ok unique_defs)

interpretation batch_order_index: unique_index insert_stamp_batch stamp_batches "b_order_id"
  by unfold_locales (auto simp: insert_ok unique_defs)

interpretation serial_index: unique_index insert_stamp stamps "s_serial"
  by unfold_locales (auto simp: insert_ok unique_defs)

interpretation inspection_index: unique_index insert_inspection inspections "insp_batch_id"
  by unfold_locales (auto simp: insert_ok unique_defs)

interpretation idempotency_index: unique_index insert_idempotency_record idempotency_records "(\<lambda>x. (ir_scope x, ir_idempotency_key x))"
  by unfold_locales (auto simp: insert_ok unique_defs)

interpretation dedupe_index: unique_index insert_outbox_message outbox_messages "m_dedupe_key"
  by unfold_locales (auto simp: insert_ok unique_defs)

section \<open>Fresh identifiers\<close>

text \<open>All identifiers in use are smaller than the next one of the supply.\<close>

definition below :: "uuid \<Rightarrow> uuid list \<Rightarrow> bool" where
  "below n is = list_all (\<lambda>i. i < n) is"

lemma below_fresh: "below n is \<Longrightarrow> n \<notin> set is"
  by (auto simp: below_def list_all_iff)

lemma below_fresh_key [simp]: "below n (map k rows) \<Longrightarrow> n \<notin> k ` set rows"
  by (auto simp: below_def list_all_iff)

lemma below_keyD: "below n (map k rows) \<Longrightarrow> r \<in> set rows \<Longrightarrow> k r < n"
  by (auto simp: below_def list_all_iff)

lemma below_Nil [simp]: "below n []"
  by (simp add: below_def)

lemma below_append [simp]: "below n (is @ js) \<longleftrightarrow> below n is \<and> below n js"
  by (simp add: below_def)

lemma below_Cons [simp]: "below n (i # is) \<longleftrightarrow> i < n \<and> below n is"
  by (simp add: below_def)

lemma below_mono: "below m is \<Longrightarrow> m \<le> n \<Longrightarrow> below n is"
  by (auto simp: below_def list_all_iff)

lemma below_Suc [simp]: "below n is \<Longrightarrow> below (Suc n) is"
  by (auto simp: below_def list_all_iff less_Suc_eq)

lemma unused_map: "unused k rows x \<longleftrightarrow> x \<notin> set (map k rows)"
  by (simp add: unused_def)

lemma canonical_hash_total: "\<not> reject_floats (JObj d) \<Longrightarrow> \<exists>h. canonical_hash d = Inr h \<and> varchar 64 h"
  by (simp add: canonical_hash_def canonical_bytes_def sha256_hex_def varchar_def del: dumps.simps)

section \<open>A database without rows\<close>

definition empty_db :: db where
  "empty_db = \<lparr>next_uuid = 1, next_seq = 1, db_now = 0,
     companies = [], principals = [], credentials = [], tariffs = [], orders = [],
     order_transitions = [], approvals = [], payment_intents = [], payment_receipts = [],
     tb_ledger_intents = [], journals = [], ledger_entries = [], serial_counters = [],
     stamp_batches = [], stamps = [], stamp_events = [], inspections = [], verifications =
     [], idempotency_records = [], outbox_messages = [], audit_events = [],
     reconciliation_runs = []\<rparr>"

text \<open>The definitions that evaluate a service on a concrete database.\<close>

lemmas db_eval =
  insert_row_def company_types_def company_checks_def insert_company_def principal_types_def
  principal_checks_def insert_principal_def credential_types_def credential_checks_def
  insert_credential_def tariff_types_def tariff_checks_def insert_tariff_def order_types_def
  order_checks_def insert_order_def order_transition_types_def order_transition_checks_def
  insert_order_transition_def approval_types_def approval_checks_def insert_approval_def
  payment_intent_types_def payment_intent_checks_def insert_payment_intent_def
  payment_receipt_types_def payment_receipt_checks_def insert_payment_receipt_def
  tb_ledger_intent_types_def tb_ledger_intent_checks_def insert_tb_ledger_intent_def
  journal_types_def journal_checks_def insert_journal_def ledger_entry_types_def
  ledger_entry_checks_def insert_ledger_entry_def stamp_batch_types_def
  stamp_batch_checks_def insert_stamp_batch_def stamp_types_def stamp_checks_def
  insert_stamp_def stamp_event_types_def stamp_event_checks_def insert_stamp_event_def
  inspection_types_def inspection_checks_def insert_inspection_def verification_types_def
  verification_checks_def insert_verification_def idempotency_record_types_def
  idempotency_record_checks_def insert_idempotency_record_def outbox_message_types_def
  outbox_message_checks_def insert_outbox_message_def reconciliation_run_types_def
  reconciliation_run_checks_def insert_reconciliation_run_def audit_event_types_def
  audit_event_checks_def insert_audit_event_def varchar_def text_col_def bigint_def int4_def
  opt_col_def lower_hex_def upper_char_def foreign_key_def unused_def empty_db_def Let_def

end
