(* ===== verification/Security.thy ===== *)
theory Security
  imports Canonical Clock
begin

text \<open>
  \<^verbatim>\<open>src/taxstamp/security.py\<close>: keyed hashes of tokens and secure codes, and signed requests.
  The generators that only draw random characters (\<^verbatim>\<open>generate_token\<close>, \<^verbatim>\<open>generate_secure_code\<close>)
  have no definition here.  \<^verbatim>\<open>datetime.timestamp\<close> and \<^verbatim>\<open>total_seconds\<close> are exact here.
\<close>

text \<open>\<^verbatim>\<open>hmac.compare_digest\<close> on strings raises on characters outside ASCII.\<close>

definition is_ascii :: "string \<Rightarrow> bool" where
  "is_ascii s = list_all (\<lambda>c. of_char c < (128 :: nat)) s"

definition compare_digest :: "string \<Rightarrow> string \<Rightarrow> bool res" where
  "compare_digest a b = (if is_ascii a \<and> is_ascii b then Inr (a = b) else Inl TypeError)"

definition hash_token :: "string \<Rightarrow> string \<Rightarrow> string" where
  "hash_token token secret = hmac_hexdigest secret (utf8 token)"

definition tokens_match :: "string \<Rightarrow> string \<Rightarrow> bool res" where
  "tokens_match candidate_hash stored_hash = compare_digest candidate_hash stored_hash"

definition SECURE_ALPHABET :: string where
  "SECURE_ALPHABET = ''ABCDEFGHJKLMNPQRSTUVWXYZ23456789''"

definition derive_secure_code :: "string \<Rightarrow> string \<Rightarrow> string" where
  "derive_secure_code serial secret =
     map (\<lambda>byte. SECURE_ALPHABET ! (unat byte mod length SECURE_ALPHABET))
         (take 12 (hmac_sha256 (utf8 secret) (utf8 (''code:'' @ serial))))"

definition hash_secure_code :: "string \<Rightarrow> string \<Rightarrow> string \<Rightarrow> string" where
  "hash_secure_code serial code secret = hmac_hexdigest secret (utf8 (serial @ '':'' @ code))"

definition secure_codes_match :: "string \<Rightarrow> string \<Rightarrow> bool res" where
  "secure_codes_match candidate stored = compare_digest candidate stored"

record signed_request =
  sr_body :: json_object
  sr_signature :: string
  sr_timestamp :: datetime

text \<open>\<^verbatim>\<open>int(aware.timestamp())\<close> drops the fraction towards zero.\<close>

definition unix_seconds :: "instant \<Rightarrow> int" where
  "unix_seconds t = (if 0 \<le> t then t div SECOND else - ((- t) div SECOND))"

definition signing_payload :: "json_object \<Rightarrow> datetime \<Rightarrow> bytes res" where
  "signing_payload body timestamp =
     bind_res (ensure_utc timestamp) (\<lambda>aware.
     bind_res (canonical_bytes body) (\<lambda>doc.
     Inr (utf8 ''v1|'' @ utf8 (int_str (unix_seconds aware)) @ utf8 ''|'' @ doc)))"

definition sign_request :: "json_object \<Rightarrow> datetime \<Rightarrow> string \<Rightarrow> string res" where
  "sign_request body timestamp secret =
     bind_res (signing_payload body timestamp) (\<lambda>p. Inr (hmac_hexdigest secret p))"

definition verify_signed_request ::
  "signed_request \<Rightarrow> string \<Rightarrow> instant \<Rightarrow> int \<Rightarrow> unit res" where
  "verify_signed_request request secret now max_skew_seconds =
     bind_res (sign_request (sr_body request) (sr_timestamp request) secret) (\<lambda>expected.
     bind_res (compare_digest expected (sr_signature request)) (\<lambda>same.
     if \<not> same then Inl SignatureError else
     bind_res (ensure_utc (sr_timestamp request)) (\<lambda>ts.
     if \<bar>now - ts\<bar> > max_skew_seconds * SECOND then Inl SignatureError else Inr ())))"

section \<open>Lemmas\<close>

lemma is_ascii_hex [simp]: "is_ascii (hex bs)"
proof -
  have "of_char c < (128::nat)" if "c \<in> set (hex bs)" for c
    using hex_chars [OF that] by auto
  then show ?thesis by (simp add: is_ascii_def list_all_iff)
qed

lemma is_ascii_hmac [simp]: "is_ascii (hmac_hexdigest k m)"
  by (simp add: hmac_hexdigest_def)

lemma compare_digest_ok: "compare_digest a b = Inr r \<longleftrightarrow> is_ascii a \<and> is_ascii b \<and> r = (a = b)"
  by (auto simp: compare_digest_def)

lemma length_derive_secure_code [simp]: "length (derive_secure_code s k) = 12"
  by (simp add: derive_secure_code_def)

lemma length_hash_secure_code [simp]: "length (hash_secure_code s c k) = 64"
  by (simp add: hash_secure_code_def)

lemma secure_codes_match_same [simp]:
  "secure_codes_match (hash_secure_code s c k) (hash_secure_code s c k) = Inr True"
  by (simp add: secure_codes_match_def compare_digest_ok hash_secure_code_def)

lemma canonical_bytes_utf8: "canonical_bytes d = Inr b \<Longrightarrow> \<exists>s. b = utf8 s"
  unfolding canonical_bytes_Inr by blast

lemma signing_payloadE:
  assumes "signing_payload body ts = Inr p"
  obtains t d where "ensure_utc ts = Inr t" "canonical_bytes body = Inr (utf8 d)"
    "p = utf8 (''v1|'' @ int_str (unix_seconds t) @ ''|'' @ d)"
proof -
  from assms obtain t b where "ensure_utc ts = Inr t" "canonical_bytes body = Inr b"
    "p = utf8 ''v1|'' @ utf8 (int_str (unix_seconds t)) @ utf8 ''|'' @ b"
    by (auto simp: signing_payload_def)
  moreover from this(2) obtain d where "b = utf8 d" using canonical_bytes_utf8 by blast
  ultimately show thesis using that by simp
qed

section \<open>Properties\<close>

text \<open>
  What is signed determines the request: equal signing payloads come from the same second
  and from documents that are equal up to the order of keys.
\<close>

theorem signing_payload_binds:
  assumes "signing_payload body ts = Inr p" and "signing_payload body' ts' = Inr p"
  shows "\<exists>t t'. ensure_utc ts = Inr t \<and> ensure_utc ts' = Inr t' \<and> unix_seconds t = unix_seconds t' \<and>
    normalise (JObj body) = normalise (JObj body')"
proof -
  obtain t d where t: "ensure_utc ts = Inr t" "canonical_bytes body = Inr (utf8 d)"
    "p = utf8 (''v1|'' @ int_str (unix_seconds t) @ ''|'' @ d)"
    using assms(1) by (rule signing_payloadE)
  obtain t' d' where t': "ensure_utc ts' = Inr t'" "canonical_bytes body' = Inr (utf8 d')"
    "p = utf8 (''v1|'' @ int_str (unix_seconds t') @ ''|'' @ d')"
    using assms(2) by (rule signing_payloadE)
  from t(3) t'(3) have "int_str (unix_seconds t) @ ''|'' @ d = int_str (unix_seconds t') @ ''|'' @ d'"
    using utf8_inj [of "''v1|'' @ _" "''v1|'' @ _"] by (metis same_append_eq)
  then have "unix_seconds t = unix_seconds t' \<and> ''|'' @ d = ''|'' @ d'"
    by (rule int_str_prefix) (simp_all add: no_digit_def is_digit_def)
  then have sec: "unix_seconds t = unix_seconds t'" and "d = d'" by simp_all
  with t(2) t'(2) have "normalise (JObj body) = normalise (JObj body')"
    by (intro canonical_bytes_normalise) simp_all
  with t(1) t'(1) sec show ?thesis by blast
qed

theorem signing_payload_binds_witness:
  "\<exists>t t'. ensure_utc (Aware 5000001 0) = Inr t \<and> ensure_utc (Aware 8000000 3000000) = Inr t' \<and>
    unix_seconds t = unix_seconds t' \<and> normalise (JObj [(''a'', JInt 1)]) = normalise (JObj [(''a'', JInt 1)])"
proof -
  have "signing_payload [(''a'', JInt 1)] (Aware 5000001 0) = signing_payload [(''a'', JInt 1)] (Aware 8000000 3000000)"
    and "is_ok (signing_payload [(''a'', JInt 1)] (Aware 5000001 0))"
    by (simp_all add: signing_payload_def ensure_utc_def dt_add_def MIN_INSTANT_def MAX_INSTANT_def DAY_def unix_seconds_def SECOND_def canonical_bytes_def)
  then show ?thesis using signing_payload_binds unfolding is_ok_iff by metis
qed

text \<open>
  A signed request is accepted exactly when its timestamp carries an offset, its body can be
  canonicalised, its signature is the HMAC of the signing payload, and the clock differs from
  the timestamp by at most the permitted skew, in either direction.
\<close>

theorem verify_signed_request_iff:
  "verify_signed_request r secret now skew = Inr () \<longleftrightarrow>
     (\<exists>t p. ensure_utc (sr_timestamp r) = Inr t \<and> signing_payload (sr_body r) (sr_timestamp r) = Inr p \<and>
        sr_signature r = hmac_hexdigest secret p \<and>
        t - skew * SECOND \<le> now \<and> now \<le> t + skew * SECOND)"
proof -
  have abs: "(\<not> \<bar>now - t\<bar> > k) = (t - k \<le> now \<and> now \<le> t + k)" for t k :: int by linarith
  show ?thesis
    by (auto simp: verify_signed_request_def sign_request_def compare_digest_ok abs not_less
        simp del: not_less)
qed

end
