(* ===== verification/Audit_Chain.thy ===== *)
theory Audit_Chain
  imports Tables Security
begin

text \<open>
  \<^verbatim>\<open>src/taxstamp/audit.py\<close>: the keyed hash chain.  \<open>record_audit_event\<close> appends one event in the
  caller's transaction, \<open>verify_audit_chain\<close> recomputes the chain.  The advisory lock that
  serialises writers has no counterpart: one transaction runs at a time here.
\<close>

section \<open>Model\<close>

text \<open>\<^verbatim>\<open>str(uuid)\<close>: 32 hexadecimal digits in groups of 8, 4, 4, 4 and 12.\<close>

fun hex_width :: "nat \<Rightarrow> nat \<Rightarrow> string" where
  "hex_width 0 n = ''''"
| "hex_width (Suc w) n = hex_width w (n div 16) @ [hex_digit (n mod 16)]"

definition uuid_str :: "uuid \<Rightarrow> string" where
  "uuid_str u =
     (let h = hex_width 32 u
      in take 8 h @ ''-'' @ take 4 (drop 8 h) @ ''-'' @ take 4 (drop 12 h) @ ''-''
         @ take 4 (drop 16 h) @ ''-'' @ drop 20 h)"

lemma hex_digit_no_nul: "hex_digit (n mod 16) \<noteq> CHR 0x00"
  using hex_digit_set [of "n mod 16"] by auto

lemma hex_width_chars: "length (hex_width w n) = w \<and> CHR 0x00 \<notin> set (hex_width w n)"
proof (induction w arbitrary: n)
  case (Suc w)
  then show ?case using hex_digit_no_nul [of n] by (auto dest: sym)
qed simp

lemma uuid_str_chars [simp]: "length (uuid_str u) = 36" "CHR 0x00 \<notin> set (uuid_str u)"
  using hex_width_chars [of 32 u] by (auto simp: uuid_str_def Let_def dest: in_set_takeD in_set_dropD)

lemma uuid_str_varchar [simp]: "36 \<le> n \<Longrightarrow> varchar n (uuid_str u)"
  by (simp add: varchar_def)

definition GENESIS_HASH :: string where
  "GENESIS_HASH = replicate 64 CHR ''0''"

record audit_actor =
  aa_principal_id :: "uuid option"
  aa_subject :: string
  aa_role :: string
  aa_company_id :: "uuid option"

record audit_record =
  ar_action :: string
  ar_target_type :: string
  ar_target_id :: string
  ar_outcome :: string
  ar_before_state :: "json_object option"
  ar_after_state :: "json_object option"
  ar_request_id :: "string option"
  ar_idempotency_key :: "string option"

definition json_obj_opt :: "json_object option \<Rightarrow> json" where
  "json_obj_opt d = (case d of None \<Rightarrow> JNull | Some v \<Rightarrow> JObj v)"

definition event_document ::
  "uuid \<Rightarrow> instant \<Rightarrow> audit_actor \<Rightarrow> audit_record \<Rightarrow> string \<Rightarrow> json_object" where
  "event_document event_id occurred_at actor rec revision =
     [(''event_id'', JStr (uuid_str event_id)),
      (''occurred_at'', JStr (isoformat occurred_at)),
      (''actor_principal_id'', json_opt (map_option uuid_str (aa_principal_id actor))),
      (''actor_subject'', JStr (aa_subject actor)),
      (''actor_role'', JStr (aa_role actor)),
      (''company_id'', json_opt (map_option uuid_str (aa_company_id actor))),
      (''action'', JStr (ar_action rec)),
      (''target_type'', JStr (ar_target_type rec)),
      (''target_id'', JStr (ar_target_id rec)),
      (''outcome'', JStr (ar_outcome rec)),
      (''request_id'', json_opt (ar_request_id rec)),
      (''idempotency_key'', json_opt (ar_idempotency_key rec)),
      (''before_state'', json_obj_opt (ar_before_state rec)),
      (''after_state'', json_obj_opt (ar_after_state rec)),
      (''revision'', JStr revision)]"

text \<open>\<^verbatim>\<open>prev_hash.encode("ascii")\<close> raises a \<^verbatim>\<open>UnicodeEncodeError\<close>, which is a \<^verbatim>\<open>ValueError\<close>.\<close>

definition encode_ascii :: "string \<Rightarrow> bytes res" where
  "encode_ascii s = (if is_ascii s then Inr (utf8 s) else Inl ValueError)"

definition chain_message :: "string \<Rightarrow> json_object \<Rightarrow> bytes res" where
  "chain_message prev_hash document =
     bind_res (encode_ascii prev_hash) (\<lambda>p.
     bind_res (canonical_bytes document) (\<lambda>d. Inr (p @ utf8 ''.'' @ d)))"

definition chain_hash :: "string \<Rightarrow> json_object \<Rightarrow> string \<Rightarrow> string res" where
  "chain_hash prev_hash document secret =
     bind_res (chain_message prev_hash document) (\<lambda>m. Inr (hmac_hexdigest secret m))"

text \<open>\<^verbatim>\<open>SELECT hash ORDER BY seq DESC LIMIT 1\<close>, and \<^verbatim>\<open>prev_hash or GENESIS_HASH\<close>.\<close>

definition last_hash :: "audit_event list \<Rightarrow> string option" where
  "last_hash events = (if events = [] then None else Some (ae_hash (last (sort_key ae_seq events))))"

definition or_genesis :: "string option \<Rightarrow> string" where
  "or_genesis h = (case h of None \<Rightarrow> GENESIS_HASH | Some s \<Rightarrow> if s = [] then GENESIS_HASH else s)"

definition record_audit_event ::
  "audit_actor \<Rightarrow> audit_record \<Rightarrow> instant \<Rightarrow> string \<Rightarrow> string \<Rightarrow> db \<Rightarrow> (audit_event \<times> db) res" where
  "record_audit_event actor rec occurred_at secret revision db =
     (let prev_hash = last_hash (audit_events db);
          event_id = next_uuid db;
          db = db\<lparr>next_uuid := Suc event_id\<rparr>;
          document = event_document event_id occurred_at actor rec revision;
          previous = or_genesis prev_hash
      in bind_res (chain_hash previous document secret) (\<lambda>h.
         insert_audit_event
           \<lparr>ae_seq = next_seq db, ae_event_id = event_id, ae_occurred_at = occurred_at,
            ae_ingested_at = db_now db, ae_actor_principal_id = aa_principal_id actor,
            ae_actor_subject = aa_subject actor, ae_actor_role = aa_role actor,
            ae_company_id = aa_company_id actor, ae_action = ar_action rec,
            ae_target_type = ar_target_type rec, ae_target_id = ar_target_id rec,
            ae_outcome = ar_outcome rec, ae_request_id = ar_request_id rec,
            ae_idempotency_key = ar_idempotency_key rec, ae_before_state = ar_before_state rec,
            ae_after_state = ar_after_state rec, ae_revision = revision, ae_prev_hash = previous,
            ae_hash = h\<rparr> db))"

record chain_verification =
  events_checked :: nat
  intact :: bool
  first_bad_seq :: "int option"
  reason :: "string option"

definition document_of :: "audit_event \<Rightarrow> json_object" where
  "document_of e =
     event_document (ae_event_id e) (ae_occurred_at e)
       \<lparr>aa_principal_id = ae_actor_principal_id e, aa_subject = ae_actor_subject e,
        aa_role = ae_actor_role e, aa_company_id = ae_company_id e\<rparr>
       \<lparr>ar_action = ae_action e, ar_target_type = ae_target_type e, ar_target_id = ae_target_id e,
        ar_outcome = ae_outcome e, ar_before_state = ae_before_state e,
        ar_after_state = ae_after_state e, ar_request_id = ae_request_id e,
        ar_idempotency_key = ae_idempotency_key e\<rparr>
       (ae_revision e)"

text \<open>The loop of \<^verbatim>\<open>verify_audit_chain\<close> over the events in the order of their numbers.\<close>

fun verify_loop :: "string \<Rightarrow> string \<Rightarrow> nat \<Rightarrow> audit_event list \<Rightarrow> chain_verification res" where
  "verify_loop secret previous checked [] =
     Inr \<lparr>events_checked = checked, intact = True, first_bad_seq = None, reason = None\<rparr>"
| "verify_loop secret previous checked (event # events) =
     (if ae_prev_hash event \<noteq> previous
      then Inr \<lparr>events_checked = checked, intact = False, first_bad_seq = Some (ae_seq event),
                reason = Some ''prev_hash does not match predecessor''\<rparr>
      else bind_res (chain_hash previous (document_of event) secret) (\<lambda>expected.
           bind_res (compare_digest expected (ae_hash event)) (\<lambda>same.
           if \<not> same
           then Inr \<lparr>events_checked = checked, intact = False, first_bad_seq = Some (ae_seq event),
                     reason = Some ''recomputed hash does not match stored hash''\<rparr>
           else verify_loop secret (ae_hash event) (Suc checked) events)))"

definition verify_audit_chain :: "string \<Rightarrow> db \<Rightarrow> chain_verification res" where
  "verify_audit_chain secret db = verify_loop secret GENESIS_HASH 0 (sort_key ae_seq (audit_events db))"

section \<open>Lemmas\<close>

text \<open>An intact chain, and the hash its last event leaves for the next.\<close>

fun chain_ok :: "string \<Rightarrow> string \<Rightarrow> audit_event list \<Rightarrow> bool" where
  "chain_ok secret previous [] = True"
| "chain_ok secret previous (e # es) =
     (ae_prev_hash e = previous \<and> chain_hash previous (document_of e) secret = Inr (ae_hash e) \<and>
      chain_ok secret (ae_hash e) es)"

definition head_hash :: "string \<Rightarrow> audit_event list \<Rightarrow> string" where
  "head_hash previous es = (if es = [] then previous else ae_hash (last es))"

definition INTACT :: "nat \<Rightarrow> chain_verification" where
  "INTACT n = \<lparr>events_checked = n, intact = True, first_bad_seq = None, reason = None\<rparr>"

lemma chain_hash_shape: "chain_hash p d k = Inr h \<Longrightarrow> is_ascii h \<and> length h = 64 \<and> CHR 0x00 \<notin> set h"
  by (auto simp: chain_hash_def hmac_hexdigest_def)

lemma verify_loop_intact:
  "(\<exists>v. verify_loop k p n es = Inr v \<and> intact v) \<longleftrightarrow> chain_ok k p es"
proof (induction k p n es rule: verify_loop.induct)
  case (2 k p n e es)
  show ?case
  proof (cases "chain_hash p (document_of e) k")
    case (Inr h)
    then show ?thesis using 2 chain_hash_shape [OF Inr] by (auto simp: compare_digest_def)
  qed simp
qed simp

lemma verify_loop_value:
  "chain_ok k p es \<Longrightarrow> verify_loop k p n es = Inr (INTACT (n + length es))"
proof (induction es arbitrary: p n)
  case (Cons e es)
  then have "chain_hash p (document_of e) k = Inr (ae_hash e)" and "ae_prev_hash e = p"
    and "verify_loop k (ae_hash e) (Suc n) es = Inr (INTACT (Suc n + length es))" by simp_all
  then show ?case using chain_hash_shape [of p "document_of e" k "ae_hash e"]
    by (simp add: compare_digest_def)
qed (simp add: INTACT_def)

lemma verify_loop_INTACT: "verify_loop k p n es = Inr (INTACT (n + length es)) \<longleftrightarrow> chain_ok k p es"
proof
  assume "verify_loop k p n es = Inr (INTACT (n + length es))"
  moreover have "intact (INTACT (n + length es))" by (simp add: INTACT_def)
  ultimately show "chain_ok k p es" using verify_loop_intact by blast
qed (rule verify_loop_value)

lemma chain_ok_append:
  "chain_ok k p (es @ fs) \<longleftrightarrow> chain_ok k p es \<and> chain_ok k (head_hash p es) fs"
  by (induction es arbitrary: p) (auto simp: head_hash_def)

lemma head_hash_snoc [simp]: "head_hash p (es @ [e]) = ae_hash e"
  by (simp add: head_hash_def)

lemma head_hash_Nil [simp]: "head_hash p [] = p"
  by (simp add: head_hash_def)

lemma chain_ok_hash: "chain_ok k p es \<Longrightarrow> e \<in> set es \<Longrightarrow> length (ae_hash e) = 64"
  by (induction es arbitrary: p) (auto dest: chain_hash_shape)

text \<open>The invariant of the table: numbers rise, and the next one is larger than all.\<close>

definition audit_wf :: "db \<Rightarrow> bool" where
  "audit_wf db = (sorted (map ae_seq (audit_events db)) \<and>
     list_all (\<lambda>e. ae_seq e < next_seq db) (audit_events db))"

lemma audit_wf_sort: "audit_wf db \<Longrightarrow> sort_key ae_seq (audit_events db) = audit_events db"
  by (simp add: audit_wf_def sorted_sort_id sort_key_id_if_sorted)

lemma record_audit_event_ok:
  "record_audit_event actor rec t k rv db = Inr (e, db') \<longleftrightarrow>
     (\<exists>h. chain_hash (or_genesis (last_hash (audit_events db)))
            (event_document (next_uuid db) t actor rec rv) k = Inr h \<and>
        e = \<lparr>ae_seq = next_seq db, ae_event_id = next_uuid db, ae_occurred_at = t,
            ae_ingested_at = db_now db, ae_actor_principal_id = aa_principal_id actor,
            ae_actor_subject = aa_subject actor, ae_actor_role = aa_role actor,
            ae_company_id = aa_company_id actor, ae_action = ar_action rec,
            ae_target_type = ar_target_type rec, ae_target_id = ar_target_id rec,
            ae_outcome = ar_outcome rec, ae_request_id = ar_request_id rec,
            ae_idempotency_key = ar_idempotency_key rec, ae_before_state = ar_before_state rec,
            ae_after_state = ar_after_state rec, ae_revision = rv,
            ae_prev_hash = or_genesis (last_hash (audit_events db)), ae_hash = h\<rparr>) \<and>
     audit_event_types e \<and> audit_event_checks db e \<and>
     db' = db\<lparr>next_uuid := Suc (next_uuid db), next_seq := next_seq db + 1,
              audit_events := audit_events db @ [e]\<rparr>"
  by (auto simp: record_audit_event_def Let_def insert_audit_event_ok audit_event_checks_def)

lemma record_audit_event_document:
  "record_audit_event actor rec t k rv db = Inr (e, db') \<Longrightarrow>
    document_of e = event_document (next_uuid db) t actor rec rv"
  by (auto simp: record_audit_event_ok document_of_def event_document_def)

lemma record_audit_event_db:
  "record_audit_event actor rec t k rv db = Inr (e, db') \<Longrightarrow>
     db' = db\<lparr>next_uuid := Suc (next_uuid db), next_seq := next_seq db + 1,
              audit_events := audit_events db @ [e]\<rparr>"
  by (simp add: record_audit_event_ok)

text \<open>An operation on an intact chain builds on the hash of its last event.\<close>

lemma or_genesis_head:
  assumes "audit_wf db" and "chain_ok k GENESIS_HASH (audit_events db)"
  shows "or_genesis (last_hash (audit_events db)) = head_hash GENESIS_HASH (audit_events db)"
proof (cases "audit_events db = []")
  case False
  then have "length (ae_hash (last (audit_events db))) = 64"
    using chain_ok_hash [OF assms(2)] by simp
  with False show ?thesis
    by (auto simp: or_genesis_def last_hash_def head_hash_def audit_wf_sort [OF assms(1)])
qed (simp add: or_genesis_def last_hash_def)

text \<open>The invariant every service keeps: an intact chain over a well-formed table.\<close>

definition audit_intact :: "string \<Rightarrow> db \<Rightarrow> bool" where
  "audit_intact secret db = (audit_wf db \<and> chain_ok secret GENESIS_HASH (audit_events db))"

lemma audit_intact_iff:
  "audit_intact k db \<longleftrightarrow>
    audit_wf db \<and> verify_audit_chain k db = Inr (INTACT (length (audit_events db)))"
  using verify_loop_INTACT [of k GENESIS_HASH 0 "audit_events db"]
  by (auto simp: audit_intact_def verify_audit_chain_def audit_wf_sort)

lemma audit_intact_cong [inv_pres]:
  "audit_events db' = audit_events db \<Longrightarrow> next_seq db' = next_seq db \<Longrightarrow>
    audit_intact k db' = audit_intact k db"
  by (simp add: audit_intact_def audit_wf_def)

lemma record_audit_event_intact [inv_pres]:
  assumes "audit_intact k db" and "record_audit_event actor rec t k rv db = Inr (e, db')"
  shows "audit_intact k db'"
proof -
  have wf: "audit_wf db" and ok: "chain_ok k GENESIS_HASH (audit_events db)"
    using assms(1) by (simp_all add: audit_intact_def)
  have db': "audit_events db' = audit_events db @ [e]" "next_seq db' = next_seq db + 1" "ae_seq e = next_seq db"
    using assms(2) by (auto simp: record_audit_event_ok)
  have "audit_wf db'"
    using wf by (auto simp: audit_wf_def db' sorted_append list_all_iff less_imp_le)
  moreover have "chain_ok k (head_hash GENESIS_HASH (audit_events db)) [e]"
    using assms(2) record_audit_event_document [OF assms(2)]
    by (auto simp: record_audit_event_ok or_genesis_head [OF wf ok])
  ultimately show ?thesis using ok by (simp add: audit_intact_def db' chain_ok_append)
qed

text \<open>The message that is hashed determines the previous hash and the document.\<close>

lemma chain_message_inj:
  assumes "chain_message p d = Inr m" and "chain_message p' d' = Inr m" and "length p = length p'"
  shows "p = p' \<and> normalise (JObj d) = normalise (JObj d')"
proof -
  from assms(1) obtain b where b: "canonical_bytes d = Inr b" "m = utf8 p @ utf8 ''.'' @ b"
    by (auto simp: chain_message_def encode_ascii_def)
  from assms(2) obtain b' where b': "canonical_bytes d' = Inr b'" "m = utf8 p' @ utf8 ''.'' @ b'"
    by (auto simp: chain_message_def encode_ascii_def)
  from b(1) b'(1) obtain s s' where s: "b = utf8 s" "b' = utf8 s'" using canonical_bytes_utf8 by blast
  with b(2) b'(2) have "p @ ''.'' @ s = p' @ ''.'' @ s'"
    by (intro utf8_inj) (simp add: s)
  with assms(3) have "p = p'" and "s = s'" by simp_all
  with b(1) b'(1) s show ?thesis using canonical_bytes_normalise by blast
qed

text \<open>
  The messages whose HMACs make up a trail.  HMACs always collide somewhere; the claim is about a
  collision among these messages.
\<close>

fun trail_msgs :: "string \<Rightarrow> audit_event list \<Rightarrow> bytes list" where
  "trail_msgs previous [] = []"
| "trail_msgs previous (e # es) =
     (case chain_message previous (document_of e) of Inl _ \<Rightarrow> [] | Inr m \<Rightarrow> [m]) @ trail_msgs (ae_hash e) es"

lemma trail_msgs_append: "trail_msgs p (es @ fs) = trail_msgs p es @ trail_msgs (head_hash p es) fs"
  by (induction es arbitrary: p) (auto simp: head_hash_def)

definition hmac_clash :: "string \<Rightarrow> bytes list \<Rightarrow> bytes list \<Rightarrow> bool" where
  "hmac_clash secret ms ns =
     (\<exists>m \<in> set ms. \<exists>n \<in> set ns. m \<noteq> n \<and> hmac_hexdigest secret m = hmac_hexdigest secret n)"

lemma chain_hash_inj:
  assumes "chain_hash p d k = Inr h" and "chain_hash p' d' k = Inr h" and "length p = length p'"
  obtains "p = p'" and "normalise (JObj d) = normalise (JObj d')"
  | m m' where "chain_message p d = Inr m" "chain_message p' d' = Inr m'" "m \<noteq> m'" "hmac_hexdigest k m = hmac_hexdigest k m'"
proof -
  from assms obtain m m' where m: "chain_message p d = Inr m" "chain_message p' d' = Inr m'"
    "hmac_hexdigest k m = hmac_hexdigest k m'" by (auto simp: chain_hash_def)
  show thesis
  proof (cases "m = m'")
    case True
    with m assms(3) show ?thesis using that(1) chain_message_inj by blast
  next
    case False
    with m that(2) show ?thesis by blast
  qed
qed

lemma length_head_hash: "chain_ok k GENESIS_HASH es \<Longrightarrow> length (head_hash GENESIS_HASH es) = 64"
  using chain_ok_hash [of k GENESIS_HASH es] by (simp add: head_hash_def GENESIS_HASH_def)

lemma genesis_hash_msg:
  "chain_hash p d k = Inr GENESIS_HASH \<Longrightarrow> \<exists>m. chain_message p d = Inr m \<and> hmac_hexdigest k m = GENESIS_HASH"
  by (auto simp: chain_hash_def)

lemma chain_determined:
  assumes "chain_ok k GENESIS_HASH es" and "chain_ok k GENESIS_HASH fs"
    and "head_hash GENESIS_HASH es = head_hash GENESIS_HASH fs"
  shows "map (\<lambda>e. normalise (JObj (document_of e))) es = map (\<lambda>e. normalise (JObj (document_of e))) fs \<or>
    hmac_clash k (trail_msgs GENESIS_HASH es) (trail_msgs GENESIS_HASH fs) \<or>
    (\<exists>m \<in> set (trail_msgs GENESIS_HASH es) \<union> set (trail_msgs GENESIS_HASH fs). hmac_hexdigest k m = GENESIS_HASH)"
  using assms
proof (induction es arbitrary: fs rule: rev_induct)
  case Nil
  show ?case
  proof (cases fs rule: rev_cases)
    case (snoc fs' f)
    with Nil have "chain_hash (head_hash GENESIS_HASH fs') (document_of f) k = Inr GENESIS_HASH"
      by (auto simp: chain_ok_append)
    from genesis_hash_msg [OF this] show ?thesis by (auto simp: snoc trail_msgs_append)
  qed simp
next
  case (snoc e es)
  show ?case
  proof (cases fs rule: rev_cases)
    case Nil
    with snoc.prems have "chain_hash (head_hash GENESIS_HASH es) (document_of e) k = Inr GENESIS_HASH"
      by (auto simp: chain_ok_append)
    from genesis_hash_msg [OF this] show ?thesis by (auto simp: Nil trail_msgs_append)
  next
    case fs: (snoc fs' f)
    have ok: "chain_ok k GENESIS_HASH es" "chain_ok k GENESIS_HASH fs'"
      and h: "chain_hash (head_hash GENESIS_HASH es) (document_of e) k = Inr (ae_hash e)"
        "chain_hash (head_hash GENESIS_HASH fs') (document_of f) k = Inr (ae_hash e)"
      using snoc.prems by (auto simp: chain_ok_append fs)
    have len: "length (head_hash GENESIS_HASH es) = length (head_hash GENESIS_HASH fs')"
      using ok [THEN length_head_hash] by simp
    show ?thesis
    proof (rule chain_hash_inj [OF h len])
      assume "head_hash GENESIS_HASH es = head_hash GENESIS_HASH fs'"
        and "normalise (JObj (document_of e)) = normalise (JObj (document_of f))"
      with snoc.IH [OF ok] show ?thesis by (auto simp: fs trail_msgs_append hmac_clash_def)
    next
      fix m m' assume "chain_message (head_hash GENESIS_HASH es) (document_of e) = Inr m"
        "chain_message (head_hash GENESIS_HASH fs') (document_of f) = Inr m'"
        "m \<noteq> m'" "hmac_hexdigest k m = hmac_hexdigest k m'"
      then have "hmac_clash k (trail_msgs GENESIS_HASH (es @ [e])) (trail_msgs GENESIS_HASH (fs' @ [f]))"
        unfolding hmac_clash_def by (intro bexI [of _ m] bexI [of _ m']) (simp_all add: trail_msgs_append)
      then show ?thesis unfolding fs by blast
    qed
  qed
qed

text \<open>What the caller has to supply for an event to be recorded.\<close>

definition audit_fits :: "audit_actor \<Rightarrow> audit_record \<Rightarrow> string \<Rightarrow> bool" where
  "audit_fits actor rec revision =
     (varchar 128 (aa_subject actor) \<and> varchar 32 (aa_role actor) \<and> varchar 64 (ar_action rec) \<and>
      varchar 64 (ar_target_type rec) \<and> varchar 128 (ar_target_id rec) \<and>
      ar_outcome rec \<in> {''success'', ''failure'', ''denied''} \<and>
      opt_col (varchar 64) (ar_request_id rec) \<and> opt_col (varchar 128) (ar_idempotency_key rec) \<and>
      varchar 64 revision \<and> \<not> reject_floats (json_obj_opt (ar_before_state rec)) \<and>
      \<not> reject_floats (json_obj_opt (ar_after_state rec)))"

lemma reject_floats_json_opt [simp]: "\<not> reject_floats (json_opt v)"
  by (simp add: json_opt_def split: option.splits)

lemma chain_hash_total:
  assumes "is_ascii p" and "\<not> reject_floats (json_obj_opt (ar_before_state rec))"
    and "\<not> reject_floats (json_obj_opt (ar_after_state rec))"
  shows "\<exists>h. chain_hash p (event_document i t actor rec rv) k = Inr h"
  using assms by (simp add: chain_hash_def chain_message_def encode_ascii_def canonical_bytes_def
      event_document_def del: dumps.simps)

lemma varchar_chain_hash: "chain_hash p d k = Inr h \<Longrightarrow> varchar 64 h"
  using chain_hash_shape [of p d k h] by (simp add: varchar_def)

lemma GENESIS_HASH_shape [simp]: "is_ascii GENESIS_HASH" "varchar 64 GENESIS_HASH"
  by (auto simp: GENESIS_HASH_def is_ascii_def list_all_iff varchar_def)

lemma record_audit_event_first:
  assumes "audit_events db = []" and "audit_fits actor rec rv"
  shows "\<exists>e. record_audit_event actor rec t k rv db =
    Inr (e, db\<lparr>next_uuid := Suc (next_uuid db), next_seq := next_seq db + 1, audit_events := [e]\<rparr>)"
proof -
  have gen: "or_genesis (last_hash []) = GENESIS_HASH"
    by (simp add: or_genesis_def last_hash_def)
  obtain h where h: "chain_hash GENESIS_HASH (event_document (next_uuid db) t actor rec rv) k = Inr h"
    using chain_hash_total [of GENESIS_HASH rec "next_uuid db" t actor rv k] assms(2)
    by (auto simp: audit_fits_def)
  have out: "varchar 16 (ar_outcome rec)" using assms(2) by (auto simp: audit_fits_def varchar_def)
  show ?thesis
    using assms h out varchar_chain_hash [OF h]
    by (simp add: record_audit_event_def Let_def insert_audit_event_def insert_row_def gen
        audit_event_types_def audit_event_checks_def audit_fits_def unused_def)
qed

section \<open>Properties\<close>

text \<open>
  Appending an event to an intact trail leaves the trail intact: verification with the same
  key then reports one event more, and no earlier event has changed.
\<close>

theorem record_audit_event_keeps_chain:
  assumes "audit_wf db" and "verify_audit_chain secret db = Inr (INTACT (length (audit_events db)))"
    and "record_audit_event actor rec now secret revision db = Inr (e, db')"
  shows "audit_wf db' \<and> verify_audit_chain secret db' = Inr (INTACT (Suc (length (audit_events db)))) \<and>
    audit_events db' = audit_events db @ [e] \<and>
    document_of e = event_document (next_uuid db) now actor rec revision"
proof -
  have "audit_intact secret db" using assms(1,2) audit_intact_iff by blast
  then have "audit_intact secret db'" using assms(3) by (rule record_audit_event_intact)
  moreover have events: "audit_events db' = audit_events db @ [e]"
    using record_audit_event_db [OF assms(3)] by simp
  ultimately show ?thesis
    unfolding audit_intact_iff using record_audit_event_document [OF assms(3)] by simp
qed

theorem record_audit_event_keeps_chain_witness:
  "\<exists>e db'. record_audit_event \<lparr>aa_principal_id = None, aa_subject = ''system'', aa_role = ''operator'',
        aa_company_id = None\<rparr>
      \<lparr>ar_action = ''a'', ar_target_type = ''t'', ar_target_id = ''1'', ar_outcome = ''success'',
        ar_before_state = None, ar_after_state = Some [(''n'', JInt 3)], ar_request_id = None,
        ar_idempotency_key = None\<rparr> 0 ''key'' ''r1'' empty_db = Inr (e, db') \<and>
    verify_audit_chain ''key'' db' = Inr (INTACT 1)"
  (is "\<exists>e db'. record_audit_event ?actor ?rec 0 ''key'' ''r1'' empty_db = Inr (e, db') \<and> _")
proof -
  have "audit_events empty_db = []" by (simp add: empty_db_def)
  moreover have "audit_fits ?actor ?rec ''r1''"
    by (simp add: audit_fits_def varchar_def opt_col_def json_obj_opt_def)
  ultimately obtain e db' where e: "record_audit_event ?actor ?rec 0 ''key'' ''r1'' empty_db = Inr (e, db')"
    using record_audit_event_first by blast
  moreover have "audit_wf empty_db" and "verify_audit_chain ''key'' empty_db = Inr (INTACT (length (audit_events empty_db)))"
    by (simp_all add: empty_db_def audit_wf_def verify_audit_chain_def INTACT_def)
  then have "verify_audit_chain ''key'' db' = Inr (INTACT 1)"
    using record_audit_event_keeps_chain [OF _ _ e] by (simp add: empty_db_def)
  with e show ?thesis by blast
qed

text \<open>
  C34. Tamper evidence.  Two trails that both verify under the same key and end in the same hash
  record the same events in the same order, whatever rows they consist of; otherwise two
  different messages of the two trails have the same HMAC, or one of them hashes to the genesis
  value.  So no event can be edited, dropped, inserted or moved below a known head hash without a
  collision among the recorded messages.
\<close>

theorem audit_chain_tamper_evident:
  assumes "verify_loop secret GENESIS_HASH 0 es = Inr v" and "intact v"
    and "verify_loop secret GENESIS_HASH 0 fs = Inr w" and "intact w"
    and "head_hash GENESIS_HASH es = head_hash GENESIS_HASH fs"
  shows "map (\<lambda>e. normalise (JObj (document_of e))) es = map (\<lambda>e. normalise (JObj (document_of e))) fs \<or>
    (\<exists>m \<in> set (trail_msgs GENESIS_HASH es). \<exists>m' \<in> set (trail_msgs GENESIS_HASH fs).
       m \<noteq> m' \<and> hmac_hexdigest secret m = hmac_hexdigest secret m') \<or>
    (\<exists>m \<in> set (trail_msgs GENESIS_HASH es) \<union> set (trail_msgs GENESIS_HASH fs). hmac_hexdigest secret m = GENESIS_HASH)"
proof -
  have "chain_ok secret GENESIS_HASH es" "chain_ok secret GENESIS_HASH fs"
    using assms(1-4) verify_loop_intact by blast+
  from chain_determined [OF this assms(5)] show ?thesis by (simp only: hmac_clash_def)
qed

theorem audit_chain_tamper_evident_witness:
  "\<exists>e v. verify_loop ''key'' GENESIS_HASH 0 [e] = Inr v \<and> intact v \<and>
    (map (\<lambda>e. normalise (JObj (document_of e))) [e] = map (\<lambda>e. normalise (JObj (document_of e))) [e] \<or>
     (\<exists>m \<in> set (trail_msgs GENESIS_HASH [e]). \<exists>m' \<in> set (trail_msgs GENESIS_HASH [e]).
        m \<noteq> m' \<and> hmac_hexdigest ''key'' m = hmac_hexdigest ''key'' m') \<or>
     (\<exists>m \<in> set (trail_msgs GENESIS_HASH [e]) \<union> set (trail_msgs GENESIS_HASH [e]). hmac_hexdigest ''key'' m = GENESIS_HASH))"
proof -
  let ?actor = "\<lparr>aa_principal_id = None, aa_subject = ''s'', aa_role = ''r'', aa_company_id = None\<rparr>"
  let ?rec = "\<lparr>ar_action = ''a'', ar_target_type = ''t'', ar_target_id = ''1'', ar_outcome = ''success'',
    ar_before_state = None, ar_after_state = None, ar_request_id = None, ar_idempotency_key = None\<rparr>"
  have fits: "audit_fits ?actor ?rec ''r1''"
    by (simp add: audit_fits_def varchar_def opt_col_def json_obj_opt_def)
  have none: "audit_events empty_db = []" by (simp add: empty_db_def)
  obtain e db' where e: "record_audit_event ?actor ?rec 0 ''key'' ''r1'' empty_db = Inr (e, db')"
    using record_audit_event_first [OF none fits] by blast
  have "audit_intact ''key'' db'"
    by (rule record_audit_event_intact [OF _ e]) (simp add: audit_intact_def audit_wf_def none)
  then have "chain_ok ''key'' GENESIS_HASH [e]"
    using record_audit_event_db [OF e] none by (simp add: audit_intact_def)
  then obtain v where "verify_loop ''key'' GENESIS_HASH 0 [e] = Inr v" "intact v"
    using verify_loop_intact by blast
  then show ?thesis using audit_chain_tamper_evident [of "''key''" "[e]" v "[e]" v] by blast
qed

end
