(* ===== verification/Outbox.thy ===== *)
theory Outbox
  imports Audit_Chain
begin

text \<open>
  \<^verbatim>\<open>src/taxstamp/outbox.py\<close>: messages recorded with the change that caused them, leased by
  workers, retried with a bounded backoff and dead-lettered.
\<close>

section \<open>Model\<close>

record enqueue_result =
  er_message_id :: "uuid option"
  er_created :: bool

definition new_message ::
  "string \<Rightarrow> uuid \<Rightarrow> string \<Rightarrow> string \<Rightarrow> json_object \<Rightarrow> instant \<Rightarrow> instant \<Rightarrow> uuid \<Rightarrow> outbox_message" where
  "new_message aggregate_type aggregate_id event_type dedupe_key payload available_at created_at i =
     \<lparr>m_id = i, m_aggregate_type = aggregate_type, m_aggregate_id = aggregate_id,
      m_event_type = event_type, m_dedupe_key = dedupe_key, m_payload = payload,
      m_created_at = created_at, m_available_at = available_at, m_attempts = 0, m_locked_by = None,
      m_locked_until = None, m_processed_at = None, m_dead_lettered_at = None, m_last_error = None\<rparr>"

text \<open>The savepoint is rolled back on an \<open>IntegrityError\<close> only; any other error passes through.\<close>

definition enqueue ::
  "string \<Rightarrow> uuid \<Rightarrow> string \<Rightarrow> string \<Rightarrow> json_object \<Rightarrow> instant \<Rightarrow> db \<Rightarrow> (enqueue_result \<times> db) res" where
  "enqueue aggregate_type aggregate_id event_type dedupe_key payload available_at db =
     except_integrity
       (bind_res (insert_outbox_message
           (new_message aggregate_type aggregate_id event_type dedupe_key payload available_at (db_now db)) db)
         (\<lambda>(message, db'). Inr (\<lparr>er_message_id = Some (m_id message), er_created = True\<rparr>, db')))
       (bind_res (scalar_one_or_none
           (map m_id (filter (\<lambda>m. m_dedupe_key m = dedupe_key) (outbox_messages db))))
         (\<lambda>existing. Inr (\<lparr>er_message_id = existing, er_created = False\<rparr>, db)))"

text \<open>The \<^verbatim>\<open>WHERE\<close> clause of \<^verbatim>\<open>claim_batch\<close>.\<close>

definition due :: "instant \<Rightarrow> outbox_message \<Rightarrow> bool" where
  "due now m =
     (m_processed_at m = None \<and> m_dead_lettered_at m = None \<and> m_available_at m \<le> now \<and>
      (case m_locked_until m of None \<Rightarrow> True | Some u \<Rightarrow> u < now))"

text \<open>
  A negative \<^verbatim>\<open>LIMIT\<close> is an error of PostgreSQL.  The statement that returns the leased rows promises no order, nor does the
  one that picks them among messages of the same time; here both follow the order of the table.
\<close>

definition claim_batch ::
  "string \<Rightarrow> instant \<Rightarrow> int \<Rightarrow> int \<Rightarrow> db \<Rightarrow> (outbox_message list \<times> db) res" where
  "claim_batch worker_id now lease_seconds batch_size db =
     (if batch_size < 0 then Inl DataError else
      let candidates = map m_id (take (nat batch_size)
                         (sort_key m_available_at (filter (due now) (outbox_messages db))))
      in if candidates = [] then Inr ([], db)
         else bind_res (dt_add now (lease_seconds * SECOND)) (\<lambda>until.
              if \<not> varchar 64 worker_id then Inl DataError else
              let db' = db\<lparr>outbox_messages := update_where (\<lambda>m. m_id m \<in> set candidates)
                             (\<lambda>m. m\<lparr>m_locked_by := Some worker_id, m_locked_until := Some until\<rparr>)
                             (outbox_messages db)\<rparr>
              in Inr (filter (\<lambda>m. m_id m \<in> set candidates) (outbox_messages db'), db')))"

definition mark_processed :: "uuid \<Rightarrow> instant \<Rightarrow> db \<Rightarrow> db" where
  "mark_processed message_id now db =
     db\<lparr>outbox_messages := update_where (\<lambda>m. m_id m = message_id)
          (\<lambda>m. m\<lparr>m_processed_at := Some now, m_locked_by := None, m_locked_until := None, m_last_error := None\<rparr>)
          (outbox_messages db)\<rparr>"

definition backoff_seconds :: "nat \<Rightarrow> int" where
  "backoff_seconds attempts = min (2 ^ attempts) 600"

definition mark_failed ::
  "outbox_message \<Rightarrow> string \<Rightarrow> instant \<Rightarrow> int \<Rightarrow> db \<Rightarrow> (bool \<times> db) res" where
  "mark_failed message error now max_attempts db =
     (let attempts = m_attempts message + 1;
          dead = (attempts \<ge> max_attempts)
      in if \<not> text_col (take 2000 error) \<or> \<not> int4 attempts then Inl DataError else
         bind_res (dt_add now (backoff_seconds (nat attempts) * SECOND)) (\<lambda>available_at.
         Inr (dead, db\<lparr>outbox_messages := update_where (\<lambda>m. m_id m = m_id message)
           (\<lambda>m. m\<lparr>m_attempts := attempts, m_last_error := Some (take 2000 error), m_locked_by := None,
                  m_locked_until := None, m_available_at := available_at,
                  m_dead_lettered_at := if dead then Some now else None\<rparr>)
           (outbox_messages db)\<rparr>)))"

section \<open>Lemmas\<close>

lemma new_message_simps [simp]:
  "m_id (new_message at ai et k p av cr i) = i"
  "m_dedupe_key (new_message at ai et k p av cr i) = k"
  "m_event_type (new_message at ai et k p av cr i) = et"
  "m_payload (new_message at ai et k p av cr i) = p"
  "m_aggregate_type (new_message at ai et k p av cr i) = at"
  "m_aggregate_id (new_message at ai et k p av cr i) = ai"
  "m_processed_at (new_message at ai et k p av cr i) = None"
  "m_available_at (new_message at ai et k p av cr i) = av"
  "m_dead_lettered_at (new_message at ai et k p av cr i) = None"
  "m_locked_until (new_message at ai et k p av cr i) = None"
  "m_locked_by (new_message at ai et k p av cr i) = None"
  "m_attempts (new_message at ai et k p av cr i) = 0"
  "m_last_error (new_message at ai et k p av cr i) = None"
  by (simp_all add: new_message_def)

text \<open>The identifiers and deduplication keys of the outbox are distinct, and the supply is fresh.\<close>

definition outbox_wf :: "db \<Rightarrow> bool" where
  "outbox_wf db =
     (distinct (map m_id (outbox_messages db)) \<and> distinct (map m_dedupe_key (outbox_messages db)) \<and>
      below (next_uuid db) (map m_id (outbox_messages db)))"

text \<open>What an enqueue does to the database: nothing, or one message more.\<close>

lemma enqueue_ok:
  assumes "enqueue at ai et k p av db = Inr (r, db')"
  shows "(er_created r \<and> k \<notin> m_dedupe_key ` set (outbox_messages db) \<and> er_message_id r = Some (next_uuid db) \<and>
      db' = db\<lparr>next_uuid := Suc (next_uuid db),
               outbox_messages := outbox_messages db @ [new_message at ai et k p av (db_now db) (next_uuid db)]\<rparr>) \<or>
    (\<not> er_created r \<and> db' = db)"
  using assms
  by (auto simp: enqueue_def insert_ok outbox_message_checks_def unused_def)

lemma enqueue_frame [db_frame]:
  assumes "enqueue at ai et k p av db = Inr (r, db')"
  shows "\<exists>u ms. db' = db\<lparr>next_uuid := u, outbox_messages := ms\<rparr> \<and> next_uuid db \<le> u"
proof -
  from enqueue_ok [OF assms] show ?thesis
  proof
    assume "\<not> er_created r \<and> db' = db"
    then have "db' = db\<lparr>next_uuid := next_uuid db, outbox_messages := outbox_messages db\<rparr>" by simp
    then show ?thesis by blast
  qed (metis Suc_n_not_le_n nat_le_linear)
qed

lemma enqueue_total:
  assumes "outbox_wf db" and "varchar 64 at" and "varchar 64 et" and "varchar 200 k"
  shows "\<exists>r db'. enqueue at ai et k p av db = Inr (r, db') \<and>
    (er_created r \<longleftrightarrow> k \<notin> m_dedupe_key ` set (outbox_messages db))"
proof -
  let ?m = "new_message at ai et k p av (db_now db) (next_uuid db)"
  have types: "outbox_message_types ?m"
    using assms(2-4) by (simp add: outbox_message_types_def opt_col_def int4_def)
  have fresh: "unused m_id (outbox_messages db) (next_uuid db)"
    using assms(1) by (simp add: outbox_wf_def unused_def)
  show ?thesis
  proof (cases "k \<in> m_dedupe_key ` set (outbox_messages db)")
    case True
    then obtain m where m: "m \<in> set (outbox_messages db)" "m_dedupe_key m = k" by blast
    with assms(1) filter_key_singleton [of m_dedupe_key "outbox_messages db" m]
    have one: "filter (\<lambda>x. m_dedupe_key x = k) (outbox_messages db) = [m]" by (simp add: outbox_wf_def)
    have "insert_outbox_message (new_message at ai et k p av (db_now db)) db = Inl IntegrityError"
      using types True by (simp add: insert_outbox_message_def Let_def insert_row_def
          outbox_message_checks_def unused_def)
    with one True show ?thesis by (simp add: enqueue_def)
  next
    case False
    then have "insert_outbox_message (new_message at ai et k p av (db_now db)) db =
        Inr (?m, db\<lparr>next_uuid := Suc (next_uuid db), outbox_messages := outbox_messages db @ [?m]\<rparr>)"
      using types fresh by (simp add: insert_ok outbox_message_checks_def unused_def)
    with False show ?thesis by (simp add: enqueue_def)
  qed
qed

lemma enqueue_wf [inv_pres]:
  assumes "outbox_wf db" and "enqueue at ai et k p av db = Inr (r, db')"
  shows "outbox_wf db'"
  using enqueue_ok [OF assms(2)] assms(1)
  by (auto simp: outbox_wf_def dest: below_keyD)

lemma outbox_wf_unique:
  "outbox_wf db \<Longrightarrow> m \<in> set (outbox_messages db) \<Longrightarrow> m' \<in> set (outbox_messages db) \<Longrightarrow> m_id m = m_id m' \<Longrightarrow> m = m'"
  by (auto simp: outbox_wf_def distinct_map dest: inj_onD)

text \<open>The messages a worker leased, read from the table before the lease.\<close>

lemma claim_batch_ok:
  assumes "claim_batch w now lease n db = Inr (ms, db')"
  obtains C where "C = set (take (nat n) (sort_key m_available_at (filter (due now) (outbox_messages db))))"
    and "0 \<le> n"
    and "outbox_messages db' = update_where (\<lambda>m. m_id m \<in> m_id ` C)
      (\<lambda>m. m\<lparr>m_locked_by := Some w, m_locked_until := Some (now + lease * SECOND)\<rparr>) (outbox_messages db)"
    and "ms = filter (\<lambda>m. m_id m \<in> m_id ` C) (outbox_messages db')"
proof -
  define C where "C = set (take (nat n) (sort_key m_available_at (filter (due now) (outbox_messages db))))"
  have n: "0 \<le> n" using assms by (auto simp: claim_batch_def split: if_splits)
  show thesis
  proof (cases "C = {}")
    case True
    then have "ms = [] \<and> db' = db" using assms by (auto simp: claim_batch_def Let_def C_def)
    with True show ?thesis using n by (intro that [OF C_def]) (simp_all add: update_where_def)
  next
    case False
    then show ?thesis using assms n
      by (intro that [OF C_def]) (auto simp: claim_batch_def Let_def C_def dt_add_ok split: if_splits)
  qed
qed

lemma claimed_due: "m \<in> set (take n (sort_key f (filter (due now) xs))) \<Longrightarrow> due now m \<and> m \<in> set xs"
  by (auto dest!: in_set_takeD)

lemma update_where_ids: "(\<And>m. m_id (f m) = m_id m) \<Longrightarrow> map m_id (update_where p f ms) = map m_id ms"
  by (rule map_update_where_same)

text \<open>Every message a claim returns was due, and now carries the lease.\<close>

lemma claim_batch_leased:
  assumes "outbox_wf db" and "claim_batch w now lease n db = Inr (ms, db')" and "m \<in> set ms"
  shows "m \<in> set (outbox_messages db') \<and> m_locked_by m = Some w \<and> m_locked_until m = Some (now + lease * SECOND) \<and>
    (\<exists>m0 \<in> set (outbox_messages db). m_id m0 = m_id m \<and> due now m0)"
  using assms(2)
proof (rule claim_batch_ok)
  fix C assume C: "C = set (take (nat n) (sort_key m_available_at (filter (due now) (outbox_messages db))))"
    and upd: "outbox_messages db' = update_where (\<lambda>m. m_id m \<in> m_id ` C)
      (\<lambda>m. m\<lparr>m_locked_by := Some w, m_locked_until := Some (now + lease * SECOND)\<rparr>) (outbox_messages db)"
    and ms: "ms = filter (\<lambda>m. m_id m \<in> m_id ` C) (outbox_messages db')"
  have "m \<in> set (outbox_messages db')" and "m_id m \<in> m_id ` C" using assms(3) ms by auto
  then obtain m0 where m0: "m0 \<in> C" "m_id m0 = m_id m" by auto
  then have "due now m0 \<and> m0 \<in> set (outbox_messages db)" unfolding C by (auto dest: claimed_due)
  with m0 \<open>m \<in> set (outbox_messages db')\<close> \<open>m_id m \<in> m_id ` C\<close> show ?thesis
    by (auto simp: upd set_update_where split: if_splits)
qed

lemma claim_batch_wf [inv_pres]:
  assumes "outbox_wf db" and "claim_batch w now lease n db = Inr (ms, db')"
  shows "outbox_wf db'"
proof -
  have "next_uuid db' = next_uuid db"
    using assms(2) by (auto simp: claim_batch_def Let_def split: if_splits)
  moreover from assms(2) have "map m_id (outbox_messages db') = map m_id (outbox_messages db) \<and>
      map m_dedupe_key (outbox_messages db') = map m_dedupe_key (outbox_messages db)"
    by (rule claim_batch_ok) (auto intro!: map_update_where_same)
  ultimately show ?thesis
    using assms(1) by (simp add: outbox_wf_def)
qed

section \<open>Properties\<close>

text \<open>
  An effect is recorded once per deduplication key: after the first enqueue under a key the
  outbox holds exactly one message with it, and any later enqueue under that key, whatever its
  other fields, is a no-op that reports the message already there.
\<close>

theorem enqueue_once:
  assumes "outbox_wf db" and "enqueue at ai et key p av db = Inr (r, db1)"
    and "varchar 64 at'" and "varchar 64 et'" and "varchar 200 key"
  shows "length (filter (\<lambda>m. m_dedupe_key m = key) (outbox_messages db1)) = 1 \<and>
    enqueue at' ai' et' key p' av' db1 = Inr (\<lparr>er_message_id = er_message_id r, er_created = False\<rparr>, db1)"
proof -
  have wf: "outbox_wf db1" using assms(1,2) by (rule enqueue_wf)
  have r: "key \<in> m_dedupe_key ` set (outbox_messages db1) \<and>
      scalar_one_or_none (map m_id (filter (\<lambda>m. m_dedupe_key m = key) (outbox_messages db1))) = Inr (er_message_id r)"
  proof (cases "er_created r")
    case True
    then have db1: "outbox_messages db1 = outbox_messages db @ [new_message at ai et key p av (db_now db) (next_uuid db)]"
      and none: "key \<notin> m_dedupe_key ` set (outbox_messages db)" and id: "er_message_id r = Some (next_uuid db)"
      using enqueue_ok [OF assms(2)] by auto
    from none have "filter (\<lambda>m. m_dedupe_key m = key) (outbox_messages db) = []"
      by (auto simp: filter_empty_conv)
    with db1 id show ?thesis by simp
  next
    case False
    have "next_uuid db \<notin> m_id ` set (outbox_messages db)" using assms(1) by (simp add: outbox_wf_def)
    then have "er_created r \<longleftrightarrow> key \<notin> m_dedupe_key ` set (outbox_messages db)"
      and "db1 = db" using enqueue_ok [OF assms(2)] False assms(2)
      by (auto simp: enqueue_def insert_outbox_message_def Let_def insert_row_def outbox_message_checks_def
          unused_def split: if_splits)
    with False assms(2) show ?thesis
      by (auto simp: enqueue_def)
  qed
  obtain m where m: "m \<in> set (outbox_messages db1)" "m_dedupe_key m = key" using r by auto
  have one: "filter (\<lambda>x. m_dedupe_key x = key) (outbox_messages db1) = [m]"
    using filter_key_singleton [of m_dedupe_key "outbox_messages db1" m] wf m by (simp add: outbox_wf_def)
  obtain r' db2 where r': "enqueue at' ai' et' key p' av' db1 = Inr (r', db2)" "\<not> er_created r'"
    using enqueue_total [OF wf assms(3-5), of ai' p' av'] r by blast
  have "db2 = db1" using enqueue_ok [OF r'(1)] r'(2) by blast
  moreover have "er_message_id r' = er_message_id r"
    using r'(1,2) r one by (auto simp: enqueue_def)
  ultimately show ?thesis using r' one by (cases r') simp
qed

theorem enqueue_once_witness:
  "\<exists>r db1. enqueue ''order'' 7 ''e'' ''k'' [] 0 empty_db = Inr (r, db1) \<and> er_created r \<and>
    enqueue ''order'' 8 ''f'' ''k'' [] 5 db1 = Inr (\<lparr>er_message_id = er_message_id r, er_created = False\<rparr>, db1)"
proof -
  have wf: "outbox_wf empty_db" by (simp add: outbox_wf_def empty_db_def)
  moreover have "varchar 64 ''order''" "varchar 64 ''e''" "varchar 64 ''f''" "varchar 200 ''k''"
    by (simp_all add: varchar_def)
  moreover obtain r db1 where e: "enqueue ''order'' 7 ''e'' ''k'' [] 0 empty_db = Inr (r, db1)" "er_created r"
    using enqueue_total [OF wf, of "''order''" "''e''" "''k''" 7 "[]" 0] calculation
    by (auto simp: empty_db_def)
  ultimately show ?thesis using enqueue_once [OF wf e(1), of "''order''" "''f''"] by blast
qed

text \<open>
  Leases exclude each other: while the lease of one worker runs, no claim returns a message it
  holds, whatever the worker, the lease and the batch size of the second claim.
\<close>

theorem claim_batch_exclusive:
  assumes "outbox_wf db" and "claim_batch w now lease n db = Inr (ms, db1)"
    and "claim_batch w' now' lease' n' db1 = Inr (ms', db2)" and "now' \<le> now + lease * SECOND"
  shows "m_id ` set ms \<inter> m_id ` set ms' = {}"
proof (rule ccontr)
  assume "\<not> ?thesis"
  then obtain m m' where m: "m \<in> set ms" and m': "m' \<in> set ms'" and id: "m_id m = m_id m'" by auto
  have wf: "outbox_wf db1" using assms(1,2) by (rule claim_batch_wf)
  have 1: "m \<in> set (outbox_messages db1)" "m_locked_until m = Some (now + lease * SECOND)"
    using claim_batch_leased [OF assms(1,2) m] by simp_all
  obtain m0 where m0: "m0 \<in> set (outbox_messages db1)" "m_id m0 = m_id m'" "due now' m0"
    using claim_batch_leased [OF wf assms(3) m'] by auto
  then have "m0 = m" using outbox_wf_unique [OF wf] 1(1) id by simp
  with m0(3) 1(2) assms(4) show False by (simp add: due_def)
qed

theorem claim_batch_exclusive_witness:
  "\<exists>m ms' db1 db2. claim_batch ''a'' 10 5 3 (empty_db\<lparr>next_uuid := 2,
        outbox_messages := [new_message ''t'' 1 ''e'' ''k'' [] 0 0 1]\<rparr>) = Inr ([m], db1) \<and>
      claim_batch ''b'' 11 5 3 db1 = Inr (ms', db2) \<and> m_id ` set [m] \<inter> m_id ` set ms' = {}"
proof -
  let ?db = "empty_db\<lparr>next_uuid := 2, outbox_messages := [new_message ''t'' 1 ''e'' ''k'' [] 0 0 1]\<rparr>"
  have wf: "outbox_wf ?db" by (simp add: outbox_wf_def)
  have c: "\<exists>m db1. claim_batch ''a'' 10 5 3 ?db = Inr ([m], db1)"
    by (simp add: claim_batch_def due_def Let_def dt_add_def MIN_INSTANT_def MAX_INSTANT_def DAY_def
        SECOND_def varchar_def)
  then obtain m db1 where c: "claim_batch ''a'' 10 5 3 ?db = Inr ([m], db1)" by blast
  moreover have "\<exists>ms' db2. claim_batch ''b'' 11 5 3 db1 = Inr (ms', db2)"
    by (cases "dt_add 11 (5 * SECOND)")
      (auto simp: claim_batch_def Let_def varchar_def dt_add_def MIN_INSTANT_def MAX_INSTANT_def DAY_def SECOND_def)
  then obtain ms' db2 where c': "claim_batch ''b'' 11 5 3 db1 = Inr (ms', db2)" by blast
  ultimately show ?thesis using claim_batch_exclusive [OF wf c c'] by (force simp: SECOND_def)
qed

text \<open>
  A failed delivery is counted, loses its lease and waits \<open>min (2 ^ attempts) 600\<close> seconds: it is
  dead-lettered exactly when the attempts reach the maximum, and then never due again; otherwise it
  is due again from the end of its backoff, and not before.
\<close>

theorem mark_failed_bounded_retry:
  assumes "mark_failed msg err now max_attempts db = Inr (dead, db')"
    and "m \<in> set (outbox_messages db')" and "m_id m = m_id msg" and "0 \<le> m_attempts msg"
  shows "(dead \<longleftrightarrow> max_attempts \<le> m_attempts msg + 1) \<and> m_attempts m = m_attempts msg + 1 \<and>
    m_available_at m = now + min (2 ^ nat (m_attempts msg + 1)) 600 * SECOND \<and>
    (if dead then (\<forall>t. \<not> due t m)
     else m_processed_at m = None \<longrightarrow> (\<forall>t. due t m \<longleftrightarrow> m_available_at m \<le> t))"
proof -
  define f :: "outbox_message \<Rightarrow> outbox_message" where "f = (\<lambda>m. m\<lparr>m_attempts := m_attempts msg + 1, m_last_error := Some (take 2000 err),
    m_locked_by := None, m_locked_until := None,
    m_available_at := now + backoff_seconds (nat (m_attempts msg + 1)) * SECOND,
    m_dead_lettered_at := if dead then Some now else None\<rparr>)"
  have dead: "dead = (max_attempts \<le> m_attempts msg + 1)"
    and rows: "outbox_messages db' = update_where (\<lambda>m. m_id m = m_id msg) f (outbox_messages db)"
    using assms(1) by (auto simp: mark_failed_def Let_def dt_add_ok f_def split: if_splits)
  obtain m0 where "m = (if m_id m0 = m_id msg then f m0 else m0)"
    using assms(2) unfolding rows set_update_where by blast
  with assms(3) have "m = f m0" by (auto split: if_splits)
  with dead show ?thesis by (auto simp: due_def backoff_seconds_def f_def)
qed

theorem mark_failed_bounded_retry_witness:
  "\<exists>db' m. mark_failed (new_message ''t'' 1 ''e'' ''k'' [] 0 0 1) ''boom'' 0 3
       (empty_db\<lparr>outbox_messages := [new_message ''t'' 1 ''e'' ''k'' [] 0 0 1]\<rparr>) = Inr (False, db') \<and>
     m \<in> set (outbox_messages db') \<and> m_attempts m = 1 \<and> m_available_at m = 2000000"
proof -
  let ?m = "new_message ''t'' 1 ''e'' ''k'' [] 0 0 1"
  have "\<exists>db' m. mark_failed ?m ''boom'' 0 3 (empty_db\<lparr>outbox_messages := [?m]\<rparr>) = Inr (False, db') \<and>
      m \<in> set (outbox_messages db') \<and> m_id m = 1"
    by (simp add: mark_failed_def Let_def text_col_def int4_def dt_add_def backoff_seconds_def
        MIN_INSTANT_def MAX_INSTANT_def DAY_def SECOND_def)
  then obtain db' m where f: "mark_failed ?m ''boom'' 0 3 (empty_db\<lparr>outbox_messages := [?m]\<rparr>) = Inr (False, db')"
    "m \<in> set (outbox_messages db')" "m_id m = m_id ?m" by auto
  have "m_attempts m = 1 \<and> m_available_at m = 2000000"
    using mark_failed_bounded_retry [OF f] by (simp add: SECOND_def)
  with f show ?thesis by blast
qed

end
