(* ===== verification/Money.thy ===== *)
theory Money
  imports Prelude
begin

text \<open>
  \<^verbatim>\<open>src/taxstamp/money.py\<close>: amounts in minor units, the VAT portion in basis points, and the
  price of an order.  The VAT portion goes through Python's \<^verbatim>\<open>decimal\<close> in its default context
  of 28 significant digits, which is modelled as such: operations round to 28 digits, and
  \<^verbatim>\<open>quantize\<close> refuses a longer result.
\<close>

section \<open>Decimal arithmetic in the default context\<close>

text \<open>\<open>Decimal c e\<close> is the number \<open>c * 10 ^ e\<close>.\<close>

datatype decimal = Decimal int int

definition PREC :: nat where "PREC = 28"

fun ndigits :: "nat \<Rightarrow> nat" where
  "ndigits n = (if n < 10 then 1 else Suc (ndigits (n div 10)))"

declare ndigits.simps [simp del]

definition half_even_div :: "nat \<Rightarrow> nat \<Rightarrow> nat" where
  "half_even_div n d =
     (let q = n div d; r = n mod d
      in if 2 * r < d then q else if 2 * r > d then Suc q else if even q then q else Suc q)"

definition half_up_div :: "nat \<Rightarrow> nat \<Rightarrow> nat" where
  "half_up_div n d = (let q = n div d; r = n mod d in if 2 * r \<ge> d then Suc q else q)"

text \<open>Rounding of a result to the precision of the context (\<^verbatim>\<open>ROUND_HALF_EVEN\<close>).\<close>

fun dec_fix :: "decimal \<Rightarrow> decimal" where
  "dec_fix (Decimal c e) =
     (let n = nat \<bar>c\<bar> in
      if ndigits n \<le> PREC then Decimal c e
      else let k = ndigits n - PREC; q = half_even_div n (10 ^ k)
           in if ndigits q \<le> PREC then Decimal (sgn c * int q) (e + int k)
              else Decimal (sgn c * int (q div 10)) (e + int k + 1))"

fun dec_mul :: "decimal \<Rightarrow> decimal \<Rightarrow> decimal" where
  "dec_mul (Decimal a e) (Decimal b f) = dec_fix (Decimal (a * b) (e + f))"

text \<open>Division by \<^verbatim>\<open>Decimal(10_000)\<close> moves the exponent; the digits do not change.\<close>

fun dec_div_10000 :: "decimal \<Rightarrow> decimal" where
  "dec_div_10000 (Decimal c e) = dec_fix (Decimal c (e - 4))"

text \<open>\<^verbatim>\<open>quantize(Decimal(1), rounding=ROUND_HALF_UP)\<close>: an integer, ties away from zero.\<close>

fun quantize_half_up :: "decimal \<Rightarrow> int res" where
  "quantize_half_up (Decimal c e) =
     (let r = (if e \<ge> 0 then nat \<bar>c\<bar> * 10 ^ nat e else half_up_div (nat \<bar>c\<bar>) (10 ^ nat (- e)))
      in if ndigits r \<le> PREC then Inr (sgn c * int r) else Inl DecimalError)"

section \<open>Money\<close>

record money =
  minor :: int
  currency :: string

definition CURRENCY_EXPONENTS :: "(string \<times> nat) list" where
  "CURRENCY_EXPONENTS = [(''NGN'', 2), (''USD'', 2)]"

definition DEFAULT_CURRENCY :: string where
  "DEFAULT_CURRENCY = ''NGN''"

definition exponent_for :: "string \<Rightarrow> nat res" where
  "exponent_for c = (case map_of CURRENCY_EXPONENTS c of None \<Rightarrow> Inl MoneyError | Some e \<Rightarrow> Inr e)"

text \<open>The constructor runs \<^verbatim>\<open>__post_init__\<close>; that \<^verbatim>\<open>minor\<close> is an \<^verbatim>\<open>int\<close> is its type here.\<close>

definition Money :: "int \<Rightarrow> string \<Rightarrow> money res" where
  "Money m c = bind_res (exponent_for c) (\<lambda>_. Inr \<lparr>minor = m, currency = c\<rparr>)"

text \<open>
  \<^verbatim>\<open>Decimal(str(major)).scaleb(exponent)\<close> rounds to the precision of the context before the test for an integer.  The argument is a
  decimal whose exponent the context can represent.
\<close>

fun from_major :: "decimal \<Rightarrow> string \<Rightarrow> money res" where
  "from_major (Decimal c e) cur =
     bind_res (exponent_for cur) (\<lambda>x.
     case dec_fix (Decimal c (e + int x)) of
       Decimal c' e' \<Rightarrow>
         if e' \<ge> 0 then Money (c' * 10 ^ nat e') cur
         else if c' mod 10 ^ nat (- e') \<noteq> 0 then Inl MoneyError
         else Money (c' div 10 ^ nat (- e')) cur)"

definition money_check :: "money \<Rightarrow> money \<Rightarrow> unit res" where
  "money_check a b = (if currency a \<noteq> currency b then Inl MoneyError else Inr ())"

definition money_add :: "money \<Rightarrow> money \<Rightarrow> money res" where
  "money_add a b = bind_res (money_check a b) (\<lambda>_. Money (minor a + minor b) (currency a))"

definition money_sub :: "money \<Rightarrow> money \<Rightarrow> money res" where
  "money_sub a b = bind_res (money_check a b) (\<lambda>_. Money (minor a - minor b) (currency a))"

definition times :: "money \<Rightarrow> int \<Rightarrow> money res" where
  "times a quantity =
     (if quantity < 0 then Inl MoneyError else Money (minor a * quantity) (currency a))"

definition apply_bps :: "money \<Rightarrow> int \<Rightarrow> money res" where
  "apply_bps a basis_points =
     (if basis_points < 0 then Inl MoneyError
      else bind_res
             (quantize_half_up
                (dec_div_10000 (dec_mul (Decimal (minor a) 0) (Decimal basis_points 0))))
             (\<lambda>portion. Money portion (currency a)))"

section \<open>Prices\<close>

record price_breakdown =
  pb_quantity :: int
  pb_unit_price :: money
  pb_subtotal :: money
  pb_vat_bps :: int
  pb_vat :: money
  pb_total :: money

definition assert_consistent :: "price_breakdown \<Rightarrow> unit res" where
  "assert_consistent b =
     bind_res (times (pb_unit_price b) (pb_quantity b)) (\<lambda>expected_subtotal.
     if expected_subtotal \<noteq> pb_subtotal b then Inl MoneyError else
     bind_res (apply_bps (pb_subtotal b) (pb_vat_bps b)) (\<lambda>expected_vat.
     if expected_vat \<noteq> pb_vat b then Inl MoneyError else
     bind_res (money_add (pb_subtotal b) (pb_vat b)) (\<lambda>expected_total.
     if expected_total \<noteq> pb_total b then Inl MoneyError else Inr ())))"

definition price_order :: "int \<Rightarrow> money \<Rightarrow> int \<Rightarrow> price_breakdown res" where
  "price_order quantity unit_price vat_bps =
     (if quantity \<le> 0 then Inl MoneyError
      else if minor unit_price \<le> 0 then Inl MoneyError
      else bind_res (times unit_price quantity) (\<lambda>subtotal.
           bind_res (apply_bps subtotal vat_bps) (\<lambda>vat.
           bind_res (money_add subtotal vat) (\<lambda>total.
           let breakdown = \<lparr>pb_quantity = quantity, pb_unit_price = unit_price,
                 pb_subtotal = subtotal, pb_vat_bps = vat_bps, pb_vat = vat, pb_total = total\<rparr>
           in bind_res (assert_consistent breakdown) (\<lambda>_. Inr breakdown)))))"

section \<open>Lemmas\<close>

declare dec_mul.simps [simp del] dec_div_10000.simps [simp del] quantize_half_up.simps [simp del]

lemmas decimal_simps = dec_mul.simps dec_div_10000.simps quantize_half_up.simps

lemma ndigits_le_iff: "0 < k \<Longrightarrow> ndigits n \<le> k \<longleftrightarrow> n < 10 ^ k"
proof (induction k arbitrary: n)
  case (Suc k)
  show ?case
  proof (cases "n < 10")
    case True
    moreover have "(10::nat) ^ 1 \<le> 10 ^ Suc k" by (rule power_increasing) simp_all
    ultimately have "n < 10 ^ Suc k" by (simp only: power_one_right less_le_trans)
    with True show ?thesis by (subst ndigits.simps) simp
  next
    case False
    show ?thesis
    proof (cases "k = 0")
      case True
      with False show ?thesis by (subst ndigits.simps, subst ndigits.simps) simp
    next
      case k: False
      have "ndigits n \<le> Suc k \<longleftrightarrow> ndigits (n div 10) \<le> k"
        using False by (subst ndigits.simps) simp
      also have "\<dots> \<longleftrightarrow> n div 10 < 10 ^ k" using k Suc.IH by simp
      also have "\<dots> \<longleftrightarrow> n < 10 ^ Suc k" by (simp add: div_less_iff_less_mult mult.commute)
      finally show ?thesis .
    qed
  qed
qed simp

lemma ndigits_PREC: "ndigits n \<le> PREC \<longleftrightarrow> n < 10 ^ 28"
  by (simp add: PREC_def ndigits_le_iff)

lemma half_up_div_le: "half_up_div n (10 ^ 4) \<le> n"
  by (auto simp: half_up_div_def Let_def)

lemma exponent_for_ok: "exponent_for c = Inr e \<longleftrightarrow> c \<in> {''NGN'', ''USD''} \<and> e = 2"
  by (auto simp: exponent_for_def CURRENCY_EXPONENTS_def)

lemma Money_ok: "Money m c = Inr a \<longleftrightarrow> c \<in> {''NGN'', ''USD''} \<and> a = \<lparr>minor = m, currency = c\<rparr>"
  by (auto simp: Money_def exponent_for_ok)

lemma times_ok:
  "times a q = Inr b \<longleftrightarrow> 0 \<le> q \<and> currency a \<in> {''NGN'', ''USD''} \<and>
     b = \<lparr>minor = minor a * q, currency = currency a\<rparr>"
  by (auto simp: times_def Money_ok)

lemma money_add_ok:
  "money_add a b = Inr c \<longleftrightarrow> currency a = currency b \<and> currency a \<in> {''NGN'', ''USD''} \<and>
     c = \<lparr>minor = minor a + minor b, currency = currency a\<rparr>"
  by (auto simp: money_add_def money_check_def Money_ok)

text \<open>
  Within 28 digits the portion is exactly the half-up rounding of \<open>minor * bps / 10000\<close>.
\<close>

definition vat_of :: "int \<Rightarrow> int \<Rightarrow> int" where
  "vat_of subtotal bps = (subtotal * bps + 5000) div 10000"

lemma half_up_div_10000: "int (half_up_div n 10000) = (int n + 5000) div 10000"
proof -
  define q r where "q = n div 10000" and "r = n mod 10000"
  have n: "n = 10000 * q + r" and r: "r < 10000" by (simp_all add: q_def r_def)
  have "(n + 5000) div 10000 = q + (r + 5000) div 10000" by (simp add: n add.assoc)
  also have "\<dots> = half_up_div n 10000"
    using r by (auto simp: half_up_div_def Let_def simp flip: q_def r_def)
  finally show ?thesis by (simp flip: zdiv_int of_nat_add)
qed

lemma apply_bps_exact:
  assumes "0 \<le> minor a" and "0 \<le> bps" and "minor a * bps < 10 ^ 28"
  shows "apply_bps a bps = Money (vat_of (minor a) bps) (currency a)"
proof -
  define n where "n = nat (minor a * bps)"
  have n: "int n = minor a * bps" using assms by (simp add: n_def)
  then have "int n < int (10 ^ 28)" using assms(3) by simp
  then have small: "n < 10 ^ 28" by (simp only: of_nat_less_iff)
  have abs: "nat \<bar>minor a * bps\<bar> = n" using assms by (simp add: n_def)
  have le: "half_up_div n 10000 < 10 ^ 28"
    using half_up_div_le [of n] small by simp
  have fixed: "dec_div_10000 (dec_mul (Decimal (minor a) 0) (Decimal bps 0)) = Decimal (minor a * bps) (- 4)"
    using small by (simp add: abs ndigits_PREC Let_def decimal_simps)
  have sg: "sgn (minor a * bps) * int (half_up_div n 10000) = int (half_up_div n 10000)"
  proof (cases "minor a * bps = 0")
    case True
    with n show ?thesis by (simp add: half_up_div_def)
  next
    case False
    with n have "0 < minor a * bps" by linarith
    then show ?thesis by simp
  qed
  have "quantize_half_up (Decimal (minor a * bps) (- 4)) =
      Inr (sgn (minor a * bps) * int (half_up_div n 10000))"
    using le by (simp add: abs ndigits_PREC Let_def decimal_simps)
  also have "\<dots> = Inr (vat_of (minor a) bps)"
    by (simp only: sg) (simp only: half_up_div_10000 n vat_of_def)
  finally have "quantize_half_up (Decimal (minor a * bps) (- 4)) = Inr (vat_of (minor a) bps)" .
  then show ?thesis using assms(2) unfolding apply_bps_def fixed by simp
qed

lemma vat_of_nonneg: "0 \<le> s \<Longrightarrow> 0 \<le> b \<Longrightarrow> 0 \<le> vat_of s b"
  by (simp add: vat_of_def pos_imp_zdiv_nonneg_iff)

text \<open>The rounding error is at most half a minor unit.\<close>

lemma vat_of_error: "\<bar>10000 * vat_of s b - s * b\<bar> \<le> 5000"
proof -
  have "10000 * ((s * b + 5000) div 10000) + (s * b + 5000) mod 10000 = s * b + 5000" by simp
  moreover have "0 \<le> (s * b + 5000) mod 10000" "(s * b + 5000) mod 10000 < 10000" by simp_all
  ultimately show ?thesis unfolding vat_of_def by linarith
qed

lemma vat_of_le: "0 \<le> s \<Longrightarrow> b \<le> 10000 \<Longrightarrow> vat_of s b \<le> s"
proof -
  assume "0 \<le> s" and "b \<le> 10000"
  then have "s * b \<le> s * 10000" by (rule mult_left_mono [rotated])
  then show ?thesis unfolding vat_of_def by linarith
qed

lemma price_order_ok:
  assumes "price_order q u bps = Inr b"
  shows "0 < q" "0 < minor u" "0 \<le> bps" "currency u \<in> {''NGN'', ''USD''}"
    "pb_quantity b = q" "pb_unit_price b = u" "pb_vat_bps b = bps"
    "pb_subtotal b = \<lparr>minor = minor u * q, currency = currency u\<rparr>"
    "apply_bps (pb_subtotal b) bps = Inr (pb_vat b)"
    "currency (pb_vat b) = currency u"
    "pb_total b = \<lparr>minor = minor (pb_subtotal b) + minor (pb_vat b), currency = currency u\<rparr>"
    "assert_consistent b = Inr ()"
proof -
  show "assert_consistent b = Inr ()"
    using assms by (auto simp: price_order_def Let_def simp del: old.unit.exhaust)
qed (use assms in \<open>auto simp: price_order_def Let_def times_ok money_add_ok apply_bps_def Money_ok\<close>)

lemma price_order_priced:
  assumes "0 < q" and "0 < minor u" and "0 \<le> bps" and "currency u \<in> {''NGN'', ''USD''}"
    and "minor u * q * bps < 10 ^ 28"
  shows "price_order q u bps = Inr \<lparr>pb_quantity = q, pb_unit_price = u,
    pb_subtotal = \<lparr>minor = minor u * q, currency = currency u\<rparr>, pb_vat_bps = bps,
    pb_vat = \<lparr>minor = vat_of (minor u * q) bps, currency = currency u\<rparr>,
    pb_total = \<lparr>minor = minor u * q + vat_of (minor u * q) bps, currency = currency u\<rparr>\<rparr>"
proof -
  let ?sub = "\<lparr>minor = minor u * q, currency = currency u\<rparr>"
  let ?vat = "\<lparr>minor = vat_of (minor u * q) bps, currency = currency u\<rparr>"
  have sub: "times u q = Inr ?sub" using assms by (simp add: times_ok)
  have "apply_bps ?sub bps = Money (vat_of (minor u * q) bps) (currency u)"
    using assms by (subst apply_bps_exact) simp_all
  then have vat: "apply_bps ?sub bps = Inr ?vat" using assms(4) by (simp add: Money_ok)
  have tot: "money_add ?sub ?vat =
      Inr \<lparr>minor = minor u * q + vat_of (minor u * q) bps, currency = currency u\<rparr>"
    using assms(4) by (simp add: money_add_ok)
  show ?thesis
    using assms(1,2) by (simp add: price_order_def assert_consistent_def sub vat tot Let_def)
qed

section \<open>Properties\<close>

text \<open>
  C36. For a supported currency, a positive quantity and unit price and a rate in basis points
  whose product stays below \<open>10 ^ 28\<close>, an order is priced exactly: the subtotal is unit price
  times quantity, the VAT is the subtotal times the rate rounded half up to a whole minor unit
  (at most half a unit away, never more than the subtotal for a rate up to 100%), the total is
  their sum, and the breakdown passes its own consistency check.
\<close>

theorem price_order_exact:
  assumes "0 < q" and "0 < minor u" and "0 \<le> bps" and "currency u \<in> {''NGN'', ''USD''}"
    and "minor u * q * bps < 10 ^ 28"
  shows "\<exists>b. price_order q u bps = Inr b \<and>
    minor (pb_subtotal b) = minor u * q \<and>
    minor (pb_vat b) = (minor u * q * bps + 5000) div 10000 \<and>
    \<bar>10000 * minor (pb_vat b) - minor u * q * bps\<bar> \<le> 5000 \<and>
    (bps \<le> 10000 \<longrightarrow> minor (pb_vat b) \<le> minor (pb_subtotal b)) \<and>
    minor (pb_total b) = minor (pb_subtotal b) + minor (pb_vat b) \<and>
    currency (pb_subtotal b) = currency u \<and> currency (pb_vat b) = currency u \<and>
    currency (pb_total b) = currency u \<and> assert_consistent b = Inr ()"
  using price_order_priced [OF assms] price_order_ok(12) [OF price_order_priced [OF assms]]
    vat_of_error [of "minor u * q" bps] vat_of_le [of "minor u * q" bps] assms(1,2)
  by (simp add: vat_of_def)

theorem price_order_exact_witness:
  "\<exists>b. price_order 10 \<lparr>minor = 1005, currency = ''NGN''\<rparr> 750 = Inr b \<and>
    minor (pb_vat b) = 754 \<and> minor (pb_total b) = 10804"
  using price_order_exact [of 10 "\<lparr>minor = 1005, currency = ''NGN''\<rparr>" 750] by auto

text \<open>
  Whatever \<^verbatim>\<open>price_order\<close> returns is consistent, also when the product leaves the 28 digits of
  the decimal context: quantity, price and rate are those asked for, the subtotal is exact, the
  VAT is what \<^verbatim>\<open>apply_bps\<close> gives on it, the total is their sum, all in one supported currency.
\<close>

theorem price_order_consistent:
  assumes "price_order q u bps = Inr b"
  shows "0 < q \<and> 0 < minor u \<and> 0 \<le> bps \<and> currency u \<in> {''NGN'', ''USD''} \<and>
    pb_quantity b = q \<and> pb_unit_price b = u \<and> pb_vat_bps b = bps \<and>
    pb_subtotal b = \<lparr>minor = minor u * q, currency = currency u\<rparr> \<and>
    apply_bps (pb_subtotal b) bps = Inr (pb_vat b) \<and>
    pb_total b = \<lparr>minor = minor (pb_subtotal b) + minor (pb_vat b), currency = currency u\<rparr> \<and>
    assert_consistent b = Inr ()"
  using price_order_ok [OF assms] by blast

theorem price_order_consistent_witness:
  "\<exists>b. price_order 2 \<lparr>minor = 3, currency = ''USD''\<rparr> 1 = Inr b \<and>
    minor (pb_subtotal b) = 6"
proof -
  have "is_ok (price_order 2 \<lparr>minor = 3, currency = ''USD''\<rparr> 1)"
    using price_order_priced [of 2 "\<lparr>minor = 3, currency = ''USD''\<rparr>" 1] by (auto simp: is_ok_iff)
  then show ?thesis using price_order_consistent by (fastforce simp: is_ok_iff)
qed

end
