(* ===== verification/Ledger.thy ===== *)
theory Ledger
  imports Tables Money
begin

text \<open>
  \<^verbatim>\<open>src/taxstamp/ledger.py\<close>: balanced double-entry journals, account balances, and the deferred
  constraint trigger of \<^verbatim>\<open>migrations/versions/0001_initial_schema.py\<close> that checks them at commit.
\<close>

section \<open>Model\<close>

definition BANK_COLLECTIONS :: string where "BANK_COLLECTIONS = ''asset:bank_collections''"
definition DUTY_PAYABLE :: string where "DUTY_PAYABLE = ''liability:duty_payable''"
definition VAT_PAYABLE :: string where "VAT_PAYABLE = ''liability:vat_payable''"
definition UNAPPLIED_RECEIPTS :: string where "UNAPPLIED_RECEIPTS = ''liability:unapplied_receipts''"
definition DUTY_REVENUE :: string where "DUTY_REVENUE = ''revenue:excise_duty''"

record posting =
  po_account :: string
  po_direction :: string
  po_amount :: money

text \<open>The constructor runs \<^verbatim>\<open>__post_init__\<close>.\<close>

definition Posting :: "string \<Rightarrow> string \<Rightarrow> money \<Rightarrow> posting res" where
  "Posting account direction amount =
     (if direction \<notin> {''debit'', ''credit''} then Inl IllegalState
      else if minor amount \<le> 0 then Inl IllegalState
      else Inr \<lparr>po_account = account, po_direction = direction, po_amount = amount\<rparr>)"

definition posted :: "string \<Rightarrow> posting list \<Rightarrow> int" where
  "posted direction ps = sum_list (map (\<lambda>p. minor (po_amount p)) (filter (\<lambda>p. po_direction p = direction) ps))"

fun add_entries :: "uuid \<Rightarrow> instant \<Rightarrow> posting list \<Rightarrow> db \<Rightarrow> db res" where
  "add_entries journal_id now [] db = Inr db"
| "add_entries journal_id now (p # ps) db =
     bind_res (insert_ledger_entry
       (\<lambda>i. \<lparr>le_id = i, le_journal_id = journal_id, le_account = po_account p,
             le_direction = po_direction p, le_amount_minor = minor (po_amount p),
             le_currency = currency (po_amount p), le_created_at = now\<rparr>) db)
       (\<lambda>(e, db). add_entries journal_id now ps db)"

definition post_journal ::
  "string \<Rightarrow> string \<Rightarrow> posting list \<Rightarrow> instant \<Rightarrow> uuid option \<Rightarrow> uuid option \<Rightarrow> uuid option \<Rightarrow>
   db \<Rightarrow> (journal \<times> db) res" where
  "post_journal reference kind postings now order_id payment_receipt_id reverses_journal_id db =
     (if length postings < 2 then Inl IllegalState else
      let currencies = remdups (map (\<lambda>p. currency (po_amount p)) postings) in
      if length currencies \<noteq> 1 then Inl IllegalState else
      let debits = posted ''debit'' postings; credits = posted ''credit'' postings in
      if debits \<noteq> credits then Inl IllegalState else
      bind_res (insert_journal
        (\<lambda>i. \<lparr>j_id = i, j_reference = reference, j_kind = kind, j_currency = hd currencies,
              j_order_id = order_id, j_payment_receipt_id = payment_receipt_id,
              j_reverses_journal_id = reverses_journal_id, j_created_at = now\<rparr>) db)
        (\<lambda>(journal, db).
           bind_res (add_entries (j_id journal) now postings db) (\<lambda>db. Inr (journal, db))))"

text \<open>\<^verbatim>\<open>SUM(amount_minor) \<dots> WHERE\<close>\<close>

definition amount_sum :: "(ledger_entry \<Rightarrow> bool) \<Rightarrow> ledger_entry list \<Rightarrow> int" where
  "amount_sum p es = sum_list (map le_amount_minor (filter p es))"

definition account_balance :: "db \<Rightarrow> string \<Rightarrow> string \<Rightarrow> money res" where
  "account_balance db account cur =
     Money (amount_sum (\<lambda>e. le_account e = account \<and> le_currency e = cur \<and> le_direction e = ''debit'')
              (ledger_entries db)
            - amount_sum (\<lambda>e. le_account e = account \<and> le_currency e = cur \<and> le_direction e = ''credit'')
                (ledger_entries db)) cur"

definition journal_sum :: "string \<Rightarrow> ledger_entry list \<Rightarrow> uuid \<Rightarrow> int" where
  "journal_sum direction es i = amount_sum (\<lambda>e. le_journal_id e = i \<and> le_direction e = direction) es"

definition unbalanced_journals :: "db \<Rightarrow> (uuid \<times> int \<times> int) list" where
  "unbalanced_journals db =
     filter (\<lambda>(i, d, c). d \<noteq> c)
       (map (\<lambda>i. (i, journal_sum ''debit'' (ledger_entries db) i, journal_sum ''credit'' (ledger_entries db) i))
         (remdups (map le_journal_id (ledger_entries db))))"

text \<open>
  The trigger \<^verbatim>\<open>taxstamp_assert_journal_balanced\<close>, run at commit for each entry inserted by the
  transaction: true when it does not raise.
\<close>

definition trigger_ok :: "db \<Rightarrow> ledger_entry \<Rightarrow> bool" where
  "trigger_ok db new =
     (let rows = filter (\<lambda>e. le_journal_id e = le_journal_id new) (ledger_entries db);
          debits = journal_sum ''debit'' (ledger_entries db) (le_journal_id new);
          credits = journal_sum ''credit'' (ledger_entries db) (le_journal_id new)
      in bigint debits \<and> bigint credits \<and> 2 \<le> length rows \<and> length (remdups (map le_currency rows)) = 1 \<and>
         map j_currency (filter (\<lambda>j. j_id j = le_journal_id new) (journals db)) = [le_currency new] \<and>
         debits = credits)"

section \<open>Lemmas\<close>

lemma Posting_ok:
  "Posting a d m = Inr p \<longleftrightarrow> d \<in> {''debit'', ''credit''} \<and> 0 < minor m \<and>
     p = \<lparr>po_account = a, po_direction = d, po_amount = m\<rparr>"
  by (auto simp: Posting_def)

definition entry_of :: "uuid \<Rightarrow> instant \<Rightarrow> uuid \<Rightarrow> posting \<Rightarrow> ledger_entry" where
  "entry_of jid now i p =
     \<lparr>le_id = i, le_journal_id = jid, le_account = po_account p, le_direction = po_direction p,
      le_amount_minor = minor (po_amount p), le_currency = currency (po_amount p), le_created_at = now\<rparr>"

fun entries_of :: "uuid \<Rightarrow> instant \<Rightarrow> uuid \<Rightarrow> posting list \<Rightarrow> ledger_entry list" where
  "entries_of jid now i [] = []"
| "entries_of jid now i (p # ps) = entry_of jid now i p # entries_of jid now (Suc i) ps"

lemma add_entries_ok:
  "add_entries jid now ps db = Inr db' \<Longrightarrow>
    db' = db\<lparr>next_uuid := next_uuid db + length ps,
             ledger_entries := ledger_entries db @ entries_of jid now (next_uuid db) ps\<rparr> \<and>
    list_all (\<lambda>p. po_direction p \<in> {''debit'', ''credit''} \<and> 0 < minor (po_amount p)) ps"
proof (induction jid now ps db rule: add_entries.induct)
  case (2 jid now p ps db)
  let ?e = "entry_of jid now (next_uuid db) p"
  let ?db = "db\<lparr>next_uuid := Suc (next_uuid db), ledger_entries := ledger_entries db @ [?e]\<rparr>"
  from "2.prems" have rest: "add_entries jid now ps ?db = Inr db'" and chk: "ledger_entry_checks db ?e"
    by (auto simp: insert_ok entry_of_def)
  from chk rest show ?case
    using "2.IH" [OF rest]
    by (auto simp: entry_of_def ledger_entry_checks_def)
qed simp

lemma entries_of_simps:
  "length (entries_of jid now i ps) = length ps"
  "map le_journal_id (entries_of jid now i ps) = replicate (length ps) jid"
  "map le_currency (entries_of jid now i ps) = map (\<lambda>p. currency (po_amount p)) ps"
  "map le_account (entries_of jid now i ps) = map po_account ps"
  "map le_direction (entries_of jid now i ps) = map po_direction ps"
  "map le_amount_minor (entries_of jid now i ps) = map (\<lambda>p. minor (po_amount p)) ps"
  by (induction ps arbitrary: i) (simp_all add: entry_of_def)

lemma entries_of_sum:
  "(\<And>j i p. P (entry_of jid now i p) = Q p) \<Longrightarrow>
    amount_sum P (entries_of jid now i ps) = sum_list (map (\<lambda>p. minor (po_amount p)) (filter Q ps))"
  by (induction ps arbitrary: i) (simp_all add: amount_sum_def, simp add: entry_of_def)

lemma amount_sum_append [simp]: "amount_sum P (xs @ ys) = amount_sum P xs + amount_sum P ys"
  by (simp add: amount_sum_def)

lemma amount_sum_Nil [simp]: "amount_sum P [] = 0"
  by (simp add: amount_sum_def)

lemma amount_sum_none: "(\<And>e. e \<in> set es \<Longrightarrow> \<not> P e) \<Longrightarrow> amount_sum P es = 0"
  by (induction es) (simp_all add: amount_sum_def)

lemma journal_sum_append [simp]:
  "journal_sum d (xs @ ys) i = journal_sum d xs i + journal_sum d ys i"
  by (simp add: journal_sum_def)

lemma journal_sum_entries_of:
  "journal_sum d (entries_of jid now i ps) k = (if k = jid then posted d ps else 0)"
  unfolding journal_sum_def
  by (subst entries_of_sum [where Q = "\<lambda>p. k = jid \<and> po_direction p = d"])
    (auto simp: entry_of_def posted_def)

lemma length_remdups_1: "length (remdups xs) = 1 \<longleftrightarrow> (\<exists>c. set xs = {c})"
  by (metis card_1_singleton_iff length_remdups_card_conv One_nat_def)

text \<open>What a successful posting leaves behind.\<close>

lemma post_journal_ok:
  assumes "post_journal ref kind ps now oid rid rvs db = Inr (j, db')"
  shows "2 \<le> length ps \<and> (\<forall>p \<in> set ps. currency (po_amount p) = j_currency j) \<and>
    posted ''debit'' ps = posted ''credit'' ps \<and>
    j_id j = next_uuid db \<and> j_reference j = ref \<and> j_kind j = kind \<and> j_order_id j = oid \<and>
    j_payment_receipt_id j = rid \<and> journal_checks db j \<and>
    db' = db\<lparr>next_uuid := Suc (next_uuid db) + length ps, journals := journals db @ [j],
             ledger_entries := ledger_entries db @ entries_of (next_uuid db) now (Suc (next_uuid db)) ps\<rparr> \<and>
    list_all (\<lambda>p. po_direction p \<in> {''debit'', ''credit''} \<and> 0 < minor (po_amount p)) ps"
proof -
  let ?cs = "remdups (map (\<lambda>p. currency (po_amount p)) ps)"
  define db1 where "db1 = db\<lparr>next_uuid := Suc (next_uuid db), journals := journals db @ [j]\<rparr>"
  from assms have cs: "length ?cs = 1" and j: "j_currency j = hd ?cs"
    and add: "add_entries (next_uuid db) now ps db1 = Inr db'"
    and rest: "2 \<le> length ps" "posted ''debit'' ps = posted ''credit'' ps" "j_id j = next_uuid db"
      "j_reference j = ref" "j_kind j = kind" "j_order_id j = oid" "j_payment_receipt_id j = rid"
      "journal_checks db j"
    by (auto simp: post_journal_def Let_def insert_ok db1_def split: if_splits)
  from cs obtain c where c: "set (map (\<lambda>p. currency (po_amount p)) ps) = {c}"
    unfolding length_remdups_1 by blast
  then have "hd ?cs = c" using cs by (metis hd_in_set length_0_conv set_remdups singletonD zero_neq_one)
  with c j have "\<forall>p \<in> set ps. currency (po_amount p) = j_currency j" by auto
  with rest add_entries_ok [OF add] show ?thesis by (simp add: db1_def)
qed

section \<open>The contract of the books\<close>

text \<open>
  What the rest of the program relies on: a posting only appends entries, and the entries it
  appends balance in every currency.  The books then balance after any number of postings, and the
  balances of all accounts in a currency add up to nothing: no operation creates money.
\<close>

definition signed :: "ledger_entry \<Rightarrow> int" where
  "signed e = (if le_direction e = ''debit'' then le_amount_minor e else - le_amount_minor e)"

definition trial_balance :: "string \<Rightarrow> ledger_entry list \<Rightarrow> int" where
  "trial_balance c es = sum_list (map signed (filter (\<lambda>e. le_currency e = c) es))"

lemma trial_balance_append [simp]: "trial_balance c (xs @ ys) = trial_balance c xs + trial_balance c ys"
  by (simp add: trial_balance_def)

locale double_entry =
  fixes books :: "'s \<Rightarrow> ledger_entry list" and post :: "'s \<Rightarrow> 's \<Rightarrow> bool"
  assumes post_balanced: "post s s' \<Longrightarrow> \<exists>es. books s' = books s @ es \<and> (\<forall>c. trial_balance c es = 0)"
begin

lemma posts_balanced: "post\<^sup>*\<^sup>* s s' \<Longrightarrow> trial_balance c (books s') = trial_balance c (books s)"
proof (induction rule: rtranclp_induct)
  case (step t u)
  from post_balanced [OF step.hyps(2)] obtain es where "books u = books t @ es" "trial_balance c es = 0" by blast
  with step.IH show ?case by simp
qed simp

lemma posts_append: "post\<^sup>*\<^sup>* s s' \<Longrightarrow> \<exists>es. books s' = books s @ es"
proof (induction rule: rtranclp_induct)
  case (step t u)
  from post_balanced [OF step.hyps(2)] step.IH show ?case by force
qed simp

end

definition posts :: "db \<Rightarrow> db \<Rightarrow> bool" where
  "posts db db' = (\<exists>ref kind ps now oid rid rvs j. post_journal ref kind ps now oid rid rvs db = Inr (j, db'))"

lemma trial_balance_entries_of:
  assumes "\<forall>p \<in> set ps. currency (po_amount p) = cur"
    and "list_all (\<lambda>p. po_direction p \<in> {''debit'', ''credit''}) ps"
  shows "trial_balance c (entries_of jid now i ps) =
    (if c = cur then posted ''debit'' ps - posted ''credit'' ps else 0)"
  using assms
  by (induction ps arbitrary: i) (auto simp: trial_balance_def posted_def signed_def entry_of_def)

lemma post_journal_trial:
  assumes "post_journal ref kind ps now oid rid rvs db = Inr (j, db')"
  shows "\<exists>es. ledger_entries db' = ledger_entries db @ es \<and> (\<forall>c. trial_balance c es = 0)"
proof -
  have "\<forall>p \<in> set ps. currency (po_amount p) = j_currency j"
    and "list_all (\<lambda>p. po_direction p \<in> {''debit'', ''credit''}) ps"
    and "posted ''debit'' ps = posted ''credit'' ps"
    using post_journal_ok [OF assms] by (auto simp: list_all_iff)
  then have "\<forall>c. trial_balance c (entries_of (next_uuid db) now (Suc (next_uuid db)) ps) = 0"
    using trial_balance_entries_of [of ps "j_currency j"] by simp
  then show ?thesis using post_journal_ok [OF assms] by auto
qed

interpretation books: double_entry ledger_entries posts
  by unfold_locales (auto simp: posts_def dest: post_journal_trial)

text \<open>The sum of all balances in a currency is the trial balance.\<close>

definition balance :: "ledger_entry list \<Rightarrow> string \<Rightarrow> string \<Rightarrow> int" where
  "balance es c a = amount_sum (\<lambda>e. le_account e = a \<and> le_currency e = c \<and> le_direction e = ''debit'') es
     - amount_sum (\<lambda>e. le_account e = a \<and> le_currency e = c \<and> le_direction e = ''credit'') es"

lemma account_balance_balance:
  "account_balance db a c = Money (balance (ledger_entries db) c a) c"
  by (simp add: account_balance_def balance_def)

lemma balance_Cons:
  "le_direction e \<in> {''debit'', ''credit''} \<Longrightarrow>
    balance (e # es) c a = (if le_account e = a \<and> le_currency e = c then signed e else 0) + balance es c a"
  by (auto simp: balance_def amount_sum_def signed_def)

lemma sum_balances:
  assumes "finite A" and "\<forall>e \<in> set es. le_account e \<in> A \<and> le_direction e \<in> {''debit'', ''credit''}"
  shows "(\<Sum>a \<in> A. balance es c a) = trial_balance c es"
  using assms(2)
proof (induction es)
  case (Cons e es)
  then have e: "le_direction e \<in> {''debit'', ''credit''}" "le_account e \<in> A" by simp_all
  have "(\<Sum>a \<in> A. balance (e # es) c a) =
      (\<Sum>a \<in> A. if le_account e = a \<and> le_currency e = c then signed e else 0) + (\<Sum>a \<in> A. balance es c a)"
    by (simp add: balance_Cons [OF e(1)] sum.distrib)
  also have "(\<Sum>a \<in> A. if le_account e = a \<and> le_currency e = c then signed e else 0) =
      (if le_currency e = c then signed e else 0)"
    using e(2) assms(1) by (cases "le_currency e = c") (simp_all add: sum.delta)
  finally show ?case using Cons by (simp add: trial_balance_def)
qed (simp add: balance_def trial_balance_def)

section \<open>The invariant of the books\<close>

definition ledger_wf :: "db \<Rightarrow> bool" where
  "ledger_wf db =
     (distinct (map j_id (journals db)) \<and> below (next_uuid db) (map j_id (journals db)) \<and>
      list_all (\<lambda>e. le_direction e \<in> {''debit'', ''credit''} \<and> 0 < le_amount_minor e) (ledger_entries db) \<and>
      below (next_uuid db) (map le_journal_id (ledger_entries db)) \<and>
      (\<forall>i. journal_sum ''debit'' (ledger_entries db) i = journal_sum ''credit'' (ledger_entries db) i))"

lemma ledger_wf_cong:
  "journals db' = journals db \<Longrightarrow> ledger_entries db' = ledger_entries db \<Longrightarrow> next_uuid db \<le> next_uuid db' \<Longrightarrow>
    ledger_wf db \<Longrightarrow> ledger_wf db'"
  by (auto simp: ledger_wf_def intro: below_mono)

lemma entries_of_directions:
  "list_all (\<lambda>p. po_direction p \<in> {''debit'', ''credit''} \<and> 0 < minor (po_amount p)) ps \<Longrightarrow>
    list_all (\<lambda>e. le_direction e \<in> {''debit'', ''credit''} \<and> 0 < le_amount_minor e) (entries_of jid now i ps)"
  by (induction ps arbitrary: i) (auto simp: entry_of_def)

lemma entries_of_uniform:
  "list_all (\<lambda>p. 0 < minor (po_amount p)) ps \<Longrightarrow> \<forall>p \<in> set ps. currency (po_amount p) = c \<Longrightarrow>
    list_all (\<lambda>e. le_journal_id e = jid \<and> le_currency e = c \<and> 0 < le_amount_minor e) (entries_of jid now i ps)"
  by (induction ps arbitrary: i) (simp_all add: entry_of_def)

lemma below_replicate [simp]: "below n (replicate k i) \<longleftrightarrow> k = 0 \<or> i < n"
  by (induction k) auto

lemma post_journal_wf [inv_pres]:
  assumes "ledger_wf db" and "post_journal ref kind ps now oid rid rvs db = Inr (j, db')"
  shows "ledger_wf db'"
proof -
  note ok = post_journal_ok [OF assms(2)]
  have "below (next_uuid db') (map j_id (journals db'))"
    using ok assms(1) below_mono [of "next_uuid db"] by (auto simp: ledger_wf_def)
  moreover have "below (next_uuid db') (map le_journal_id (ledger_entries db'))"
    using ok assms(1) below_mono [of "next_uuid db"] by (auto simp: ledger_wf_def entries_of_simps)
  moreover have "distinct (map j_id (journals db'))"
    using ok assms(1) by (auto simp: ledger_wf_def dest: below_keyD)
  moreover have "journal_sum ''debit'' (ledger_entries db') i = journal_sum ''credit'' (ledger_entries db') i" for i
    using ok assms(1) by (auto simp: ledger_wf_def journal_sum_entries_of)
  moreover have "list_all (\<lambda>e. le_direction e \<in> {''debit'', ''credit''} \<and> 0 < le_amount_minor e) (ledger_entries db')"
    using ok assms(1) entries_of_directions by (auto simp: ledger_wf_def)
  ultimately show ?thesis by (simp add: ledger_wf_def)
qed

lemma ledger_wf_no_unbalanced: "ledger_wf db \<Longrightarrow> unbalanced_journals db = []"
  by (auto simp: ledger_wf_def unbalanced_journals_def filter_empty_conv)

text \<open>The trigger has nothing to object to in a journal the helper posted.\<close>

lemma filter_other_journal:
  "below n (map le_journal_id es) \<Longrightarrow> filter (\<lambda>e. le_journal_id e = n) es = []"
  by (auto simp: filter_empty_conv dest: below_keyD)

lemma filter_entries_of: "filter (\<lambda>e. le_journal_id e = jid) (entries_of jid now i ps) = entries_of jid now i ps"
  by (induction ps arbitrary: i) (simp_all add: entry_of_def)

lemma journal_sum_other: "below n (map le_journal_id es) \<Longrightarrow> journal_sum d es n = 0"
  by (auto simp: journal_sum_def intro!: amount_sum_none dest: below_keyD)

lemma post_journal_trigger:
  assumes "ledger_wf db" and "post_journal ref kind ps now oid rid rvs db = Inr (j, db')"
    and "bigint (posted ''debit'' ps)"
    and "e \<in> set (entries_of (next_uuid db) now (Suc (next_uuid db)) ps)"
  shows "trigger_ok db' e"
proof -
  note ok = post_journal_ok [OF assms(2)]
  let ?es = "entries_of (next_uuid db) now (Suc (next_uuid db)) ps"
  have "le_journal_id e \<in> set (map le_journal_id ?es)" using assms(4) by simp
  then have id: "le_journal_id e = next_uuid db" unfolding entries_of_simps by (simp split: if_splits)
  have "le_currency e \<in> set (map le_currency ?es)" using assms(4) by simp
  then have cur: "le_currency e = j_currency j" unfolding entries_of_simps using ok by auto
  have wf: "below (next_uuid db) (map le_journal_id (ledger_entries db))" "below (next_uuid db) (map j_id (journals db))"
    using assms(1) by (simp_all add: ledger_wf_def)
  have "ps \<noteq> []" using ok by auto
  then have cs: "set (map (\<lambda>p. currency (po_amount p)) ps) = {j_currency j}" using ok by (cases ps) auto
  have rows: "filter (\<lambda>x. le_journal_id x = next_uuid db) (ledger_entries db') = ?es"
    using ok wf(1) by (simp add: filter_other_journal filter_entries_of)
  have js: "filter (\<lambda>x. j_id x = next_uuid db) (journals db') = [j]"
    using ok wf(2) by (auto simp: filter_empty_conv dest: below_keyD)
  have sums: "journal_sum d (ledger_entries db') (next_uuid db) = posted d ps" for d
    using ok wf(1) by (simp add: journal_sum_entries_of journal_sum_other)
  have one: "length (remdups (map le_currency ?es)) = 1"
    unfolding length_remdups_1 entries_of_simps using cs by blast
  have "posted ''debit'' ps = posted ''credit'' ps" and "2 \<le> length ps" using ok by simp_all
  with assms(3) one show ?thesis
    by (simp add: trigger_ok_def Let_def id rows js sums cur entries_of_simps(1))
qed

section \<open>Properties\<close>

text \<open>
  Posting keeps the books sound: from books in which every journal balances, a posting that
  succeeds adds one journal with at least two positive entries in one currency, every journal
  balances afterwards, and the commit-time trigger of the database accepts every new entry (its
  sums fit a 64-bit column as long as the total posted does).
\<close>

theorem post_journal_sound:
  assumes "ledger_wf db" and "post_journal ref kind ps now oid rid rvs db = Inr (j, db')"
  shows "ledger_wf db' \<and> unbalanced_journals db' = [] \<and> journals db' = journals db @ [j] \<and>
    (\<exists>es. ledger_entries db' = ledger_entries db @ es \<and> length es = length ps \<and> 2 \<le> length es \<and>
       map le_account es = map po_account ps \<and> map le_amount_minor es = map (\<lambda>p. minor (po_amount p)) ps \<and>
       list_all (\<lambda>e. le_journal_id e = j_id j \<and> le_currency e = j_currency j \<and> 0 < le_amount_minor e) es \<and>
       (bigint (posted ''debit'' ps) \<longrightarrow> list_all (trigger_ok db') es))"
proof -
  note ok = post_journal_ok [OF assms(2)]
  let ?es = "entries_of (next_uuid db) now (Suc (next_uuid db)) ps"
  have wf: "ledger_wf db'" using assms by (rule post_journal_wf)
  have "list_all (\<lambda>p. 0 < minor (po_amount p)) ps" "\<forall>p \<in> set ps. currency (po_amount p) = j_currency j"
    and id: "j_id j = next_uuid db"
    using ok by (auto simp: list_all_iff)
  from entries_of_uniform [OF this(1,2)]
  have "list_all (\<lambda>e. le_journal_id e = j_id j \<and> le_currency e = j_currency j \<and> 0 < le_amount_minor e) ?es"
    by (simp add: id)
  moreover have "bigint (posted ''debit'' ps) \<longrightarrow> list_all (trigger_ok db') ?es"
    using post_journal_trigger [OF assms] by (simp add: list_all_iff)
  ultimately show ?thesis
    using ok wf ledger_wf_no_unbalanced [OF wf] by (auto simp: entries_of_simps)
qed

theorem post_journal_sound_witness:
  "\<exists>j db'. post_journal ''r'' ''k''
      [\<lparr>po_account = BANK_COLLECTIONS, po_direction = ''debit'', po_amount = \<lparr>minor = 7, currency = ''NGN''\<rparr>\<rparr>,
       \<lparr>po_account = DUTY_PAYABLE, po_direction = ''credit'', po_amount = \<lparr>minor = 7, currency = ''NGN''\<rparr>\<rparr>]
      0 None None None empty_db = Inr (j, db') \<and> unbalanced_journals db' = [] \<and> journals db' = [j]"
  (is "\<exists>j db'. ?post = Inr (j, db') \<and> _")
proof -
  have wf: "ledger_wf empty_db" by (simp add: ledger_wf_def empty_db_def journal_sum_def)
  have "is_ok ?post"
    by (simp add: post_journal_def posted_def insert_journal_def insert_ledger_entry_def insert_row_def
        journal_types_def journal_checks_def ledger_entry_types_def ledger_entry_checks_def varchar_def
        opt_col_def bigint_def unused_def foreign_key_def empty_db_def BANK_COLLECTIONS_def DUTY_PAYABLE_def
        Let_def)
  then obtain j db' where "?post = Inr (j, db')" by (auto simp: is_ok_iff)
  then show ?thesis using post_journal_sound [OF wf] by (fastforce simp: empty_db_def)
qed

text \<open>
  No money is created: after any sequence of postings on empty books, the balances of all
  accounts in a currency add up to zero.
\<close>

theorem balances_sum_to_zero:
  assumes "posts\<^sup>*\<^sup>* db0 db" and "ledger_wf db0" and "ledger_entries db0 = []" and "c \<in> {''NGN'', ''USD''}"
    and "finite A" and "le_account ` set (ledger_entries db) \<subseteq> A"
  shows "\<exists>bal. (\<forall>a. account_balance db a c = Inr \<lparr>minor = bal a, currency = c\<rparr>) \<and> (\<Sum>a \<in> A. bal a) = 0"
proof -
  have "ledger_wf db" using assms(1,2)
    by (induction rule: rtranclp_induct) (auto simp: posts_def intro: post_journal_wf)
  then have "\<forall>e \<in> set (ledger_entries db). le_account e \<in> A \<and> le_direction e \<in> {''debit'', ''credit''}"
    using assms(6) by (auto simp: ledger_wf_def list_all_iff)
  from sum_balances [OF assms(5) this] have "(\<Sum>a \<in> A. balance (ledger_entries db) c a) = 0"
    using books.posts_balanced [OF assms(1), of c] assms(3) by (simp add: trial_balance_def)
  then show ?thesis
    using assms(4) by (intro exI [of _ "balance (ledger_entries db) c"])
      (simp add: account_balance_balance Money_ok)
qed

theorem balances_sum_to_zero_witness:
  "\<exists>j db. post_journal ''r'' ''k''
      [\<lparr>po_account = ''a'', po_direction = ''debit'', po_amount = \<lparr>minor = 7, currency = ''NGN''\<rparr>\<rparr>,
       \<lparr>po_account = ''b'', po_direction = ''credit'', po_amount = \<lparr>minor = 7, currency = ''NGN''\<rparr>\<rparr>]
      0 None None None empty_db = Inr (j, db) \<and>
    (\<exists>bal. (\<forall>a. account_balance db a ''NGN'' = Inr \<lparr>minor = bal a, currency = ''NGN''\<rparr>) \<and>
       (\<Sum>a \<in> {''a'', ''b''}. bal a) = 0)"
  (is "\<exists>j db. ?post = Inr (j, db) \<and> _")
proof -
  have wf: "ledger_wf empty_db" and none: "ledger_entries empty_db = []"
    by (simp_all add: ledger_wf_def empty_db_def journal_sum_def)
  have "is_ok ?post"
    by (simp add: post_journal_def posted_def insert_journal_def insert_ledger_entry_def insert_row_def
        journal_types_def journal_checks_def ledger_entry_types_def ledger_entry_checks_def varchar_def
        opt_col_def bigint_def unused_def foreign_key_def empty_db_def Let_def)
  then obtain j db where p: "?post = Inr (j, db)" by (auto simp: is_ok_iff)
  then have "posts empty_db db" unfolding posts_def by blast
  then have "posts\<^sup>*\<^sup>* empty_db db" by (rule r_into_rtranclp)
  moreover have "le_account ` set (ledger_entries db) \<subseteq> {''a'', ''b''}"
    using post_journal_ok [OF p] none by (auto simp: entry_of_def)
  ultimately show ?thesis
    using p balances_sum_to_zero [OF _ wf none, of db "''NGN''" "{''a'', ''b''}"] by auto
qed

end
