(* ===== verification/Context.thy ===== *)
theory Context
  imports Audit_Chain
begin

text \<open>
  \<^verbatim>\<open>src/taxstamp/services/context.py\<close>: the authenticated actor and its authorisation checks.
\<close>

record actor =
  ac_principal_id :: uuid
  ac_subject :: string
  ac_role :: role
  ac_company_id :: "uuid option"
  ac_request_id :: "string option"

definition audit_actor_of :: "actor \<Rightarrow> audit_actor" where
  "audit_actor_of a =
     \<lparr>aa_principal_id = Some (ac_principal_id a), aa_subject = ac_subject a,
      aa_role = role_value (ac_role a), aa_company_id = ac_company_id a\<rparr>"

definition require_role :: "actor \<Rightarrow> role list \<Rightarrow> unit res" where
  "require_role a roles = (if ac_role a \<notin> set roles then Inl Forbidden else Inr ())"

definition require_company :: "actor \<Rightarrow> uuid \<Rightarrow> unit res" where
  "require_company a company_id =
     (if ac_role a = ADMIN then Inr ()
      else if ac_company_id a = None \<or> ac_company_id a \<noteq> Some company_id then Inl Forbidden
      else Inr ())"

definition require_subject :: "actor \<Rightarrow> string \<Rightarrow> unit res" where
  "require_subject a subject = (if ac_subject a \<noteq> subject then Inl Forbidden else Inr ())"

lemma require_role_ok [simp]: "require_role a rs = Inr u \<longleftrightarrow> ac_role a \<in> set rs"
  by (simp add: require_role_def)

lemma require_company_ok [simp]:
  "require_company a c = Inr u \<longleftrightarrow> ac_role a = ADMIN \<or> ac_company_id a = Some c"
  by (auto simp: require_company_def)

lemma require_subject_ok [simp]: "require_subject a s = Inr u \<longleftrightarrow> ac_subject a = s"
  by (auto simp: require_subject_def)

lemma varchar_role_value [simp]: "varchar 32 (role_value r)"
  by (cases r) (simp_all add: varchar_def)

end
