(* ===== verification/Providers.thy ===== *)
theory Providers
  imports Tables Security
begin

text \<open>
  \<^verbatim>\<open>src/taxstamp/providers\<close>: the HTTP client of external systems of record, the compliance checks
  against registries, and the Merkle root over the serials of a batch.  The transport (\<^verbatim>\<open>httpx\<close> and
  the remote system) is a parameter of a client: what a \<^verbatim>\<open>POST\<close> of a body to a URL gives back.
\<close>

section \<open>HTTP clients\<close>

text \<open>\<open>Response status body\<close>: the body is \<open>None\<close> when it is not JSON.\<close>

datatype http_result = TransportError | Response int "json option"

record provider_client =
  pc_base_url :: string
  pc_post :: "string \<Rightarrow> json_object \<Rightarrow> http_result"

definition configured :: "provider_client \<Rightarrow> bool" where
  "configured c = (pc_base_url c \<noteq> [])"

definition require_configured :: "provider_client \<Rightarrow> unit res" where
  "require_configured c = (if \<not> configured c then Inl CapabilityNotConfigured else Inr ())"

definition rstrip_slash :: "string \<Rightarrow> string" where
  "rstrip_slash s = rev (dropWhile (\<lambda>c. c = CHR ''/'') (rev s))"

definition post_json :: "provider_client \<Rightarrow> string \<Rightarrow> json_object \<Rightarrow> json_object res" where
  "post_json c path body =
     bind_res (require_configured c) (\<lambda>_.
     case pc_post c (rstrip_slash (pc_base_url c) @ path) body of
       TransportError \<Rightarrow> Inl DependencyUnavailable
     | Response status decoded \<Rightarrow>
         if status \<ge> 500 then Inl DependencyUnavailable
         else if status \<ge> 400 then Inl DependencyUnavailable
         else (case decoded of
                 None \<Rightarrow> Inl DependencyUnavailable
               | Some (JObj d) \<Rightarrow> Inr d
               | Some _ \<Rightarrow> Inl DependencyUnavailable))"

section \<open>Compliance\<close>

datatype registry = FIRS | NAFDAC | SON | CUSTOMS

fun registry_value :: "registry \<Rightarrow> string" where
  "registry_value FIRS = ''firs''"
| "registry_value NAFDAC = ''nafdac''"
| "registry_value SON = ''son''"
| "registry_value CUSTOMS = ''customs''"

record registry_decision =
  rd_registry :: registry
  rd_compliant :: bool
  rd_reference :: string
  rd_reason :: "string option"
  rd_checked_at :: string

record compliance_outcome =
  oc_compliant :: bool
  oc_decisions :: "registry_decision list"

definition as_evidence :: "compliance_outcome \<Rightarrow> json_object" where
  "as_evidence oc =
     [(''compliant'', JBool (oc_compliant oc)),
      (''decisions'', JList (map (\<lambda>d. JObj
         [(''registry'', JStr (registry_value (rd_registry d))),
          (''compliant'', JBool (rd_compliant d)),
          (''reference'', JStr (rd_reference d)),
          (''reason'', json_opt (rd_reason d)),
          (''checked_at'', JStr (rd_checked_at d))]) (oc_decisions oc)))]"

definition REQUIRED_REGISTRIES :: "(string \<times> registry list) list" where
  "REQUIRED_REGISTRIES =
    [(''tobacco'', [FIRS, SON, CUSTOMS]),
     (''alcohol'', [FIRS, NAFDAC, SON]),
     (''pharmaceuticals'', [FIRS, NAFDAC]),
     (''beverages'', [FIRS, NAFDAC])]"

type_synonym compliance_service = "registry \<Rightarrow> provider_client"

definition registries_for :: "string \<Rightarrow> registry list" where
  "registries_for product_category =
     (case map_of REQUIRED_REGISTRIES product_category of None \<Rightarrow> [FIRS] | Some rs \<Rightarrow> rs)"

definition unconfigured :: "compliance_service \<Rightarrow> string \<Rightarrow> registry list" where
  "unconfigured clients product_category =
     filter (\<lambda>r. \<not> configured (clients r)) (registries_for product_category)"

definition check_registry :: "compliance_service \<Rightarrow> string \<Rightarrow> string \<Rightarrow> int \<Rightarrow> registry \<Rightarrow> registry_decision res" where
  "check_registry clients tin product_category quantity r =
     bind_res (require_configured (clients r)) (\<lambda>_.
     bind_res (post_json (clients r) ''/v1/compliance-checks''
         [(''tin'', JStr tin), (''product_category'', JStr product_category), (''quantity'', JInt quantity)])
       (\<lambda>response.
     bind_res (require_bool response ''compliant'') (\<lambda>compliant.
     bind_res (require_str response ''reference'') (\<lambda>reference.
     bind_res (optional_str response ''reason'') (\<lambda>reason.
     bind_res (require_str response ''checked_at'') (\<lambda>checked_at.
     Inr \<lparr>rd_registry = r, rd_compliant = compliant, rd_reference = reference, rd_reason = reason,
          rd_checked_at = checked_at\<rparr>))))))"

fun check_all :: "compliance_service \<Rightarrow> string \<Rightarrow> string \<Rightarrow> int \<Rightarrow> registry list \<Rightarrow> registry_decision list res" where
  "check_all clients tin product_category quantity [] = Inr []"
| "check_all clients tin product_category quantity (r # rs) =
     bind_res (check_registry clients tin product_category quantity r) (\<lambda>d.
     bind_res (check_all clients tin product_category quantity rs) (\<lambda>ds. Inr (d # ds)))"

definition compliance_check :: "compliance_service \<Rightarrow> string \<Rightarrow> string \<Rightarrow> int \<Rightarrow> compliance_outcome res" where
  "compliance_check clients tin product_category quantity =
     bind_res (check_all clients tin product_category quantity (registries_for product_category)) (\<lambda>decisions.
     Inr \<lparr>oc_compliant = list_all rd_compliant decisions, oc_decisions = decisions\<rparr>)"

section \<open>Merkle root\<close>

text \<open>One pass of the \<^verbatim>\<open>while\<close> loop: neighbours are hashed together, an odd last node moves up.\<close>

fun merkle_level :: "bytes list \<Rightarrow> bytes list" where
  "merkle_level (a # b # rest) = sha256 (0x01 # a @ b) # merkle_level rest"
| "merkle_level level = level"

lemma length_merkle_level [simp]: "length (merkle_level xs) = (length xs + 1) div 2"
  by (induction xs rule: merkle_level.induct) auto

function merkle_up :: "bytes list \<Rightarrow> bytes" where
  "merkle_up level = (if length level > 1 then merkle_up (merkle_level level) else hd level)"
  by pat_completeness auto
termination by (relation "measure length") auto

declare merkle_up.simps [simp del]

definition merkle_root :: "string list \<Rightarrow> string res" where
  "merkle_root leaves =
     (if leaves = [] then Inl ValueError
      else Inr (hex (merkle_up (map (\<lambda>leaf. sha256 (0x00 # utf8 leaf)) leaves))))"

record anchor_receipt =
  an_root :: string
  an_external_reference :: string
  an_anchored_at :: string

definition anchor :: "provider_client \<Rightarrow> string \<Rightarrow> string \<Rightarrow> anchor_receipt res" where
  "anchor c batch_id root =
     bind_res (require_configured c) (\<lambda>_.
     bind_res (post_json c ''/v1/anchors'' [(''batch_id'', JStr batch_id), (''root'', JStr root)]) (\<lambda>response.
     bind_res (require_str response ''root'') (\<lambda>r.
     bind_res (require_str response ''reference'') (\<lambda>ref.
     bind_res (require_str response ''anchored_at'') (\<lambda>at.
     Inr \<lparr>an_root = r, an_external_reference = ref, an_anchored_at = at\<rparr>)))))"

section \<open>Lemmas\<close>

lemma post_json_ok:
  "post_json c path body = Inr d \<longleftrightarrow> configured c \<and>
     (\<exists>status. status < 400 \<and>
        pc_post c (rstrip_slash (pc_base_url c) @ path) body = Response status (Some (JObj d)))"
  by (auto simp: post_json_def require_configured_def split: http_result.splits option.splits json.splits if_splits)

lemma require_bool_ok: "require_bool d k = Inr b \<longleftrightarrow> doc_get d k = JBool b"
  by (auto simp: require_bool_def split: json.splits)

lemma check_all_ok:
  "check_all cl t p q rs = Inr ds \<longleftrightarrow> list_all2 (\<lambda>r d. check_registry cl t p q r = Inr d) rs ds"
  by (induction rs arbitrary: ds) (auto simp: list_all2_Cons1)

lemma check_registry_ok:
  assumes "check_registry cl t p q r = Inr d"
  shows "rd_registry d = r \<and> configured (cl r) \<and> (\<exists>status doc. status < 400 \<and>
    pc_post (cl r) (rstrip_slash (pc_base_url (cl r)) @ ''/v1/compliance-checks'')
      [(''tin'', JStr t), (''product_category'', JStr p), (''quantity'', JInt q)] =
      Response status (Some (JObj doc)) \<and> doc_get doc ''compliant'' = JBool (rd_compliant d))"
  using assms by (auto simp: check_registry_def post_json_ok require_bool_ok)

text \<open>A level determines the one below it, up to a collision of SHA-256.\<close>

text \<open>
  The messages that are hashed on the way to a root.  Digests always collide somewhere; the claim is
  about a collision among these messages.
\<close>

fun level_msgs :: "bytes list \<Rightarrow> bytes list" where
  "level_msgs (a # b # rest) = (0x01 # a @ b) # level_msgs rest"
| "level_msgs level = []"

function up_msgs :: "bytes list \<Rightarrow> bytes list" where
  "up_msgs level = (if length level > 1 then level_msgs level @ up_msgs (merkle_level level) else [])"
  by pat_completeness auto
termination by (relation "measure length") auto

declare up_msgs.simps [simp del]

definition root_msgs :: "string list \<Rightarrow> bytes list" where
  "root_msgs leaves = map (\<lambda>leaf. 0x00 # utf8 leaf) leaves @
     up_msgs (map (\<lambda>leaf. sha256 (0x00 # utf8 leaf)) leaves)"

definition clash :: "bytes list \<Rightarrow> bytes list \<Rightarrow> bool" where
  "clash ms ns = (\<exists>m \<in> set ms. \<exists>n \<in> set ns. m \<noteq> n \<and> sha256 m = sha256 n)"

lemma clashI: "m \<in> set ms \<Longrightarrow> n \<in> set ns \<Longrightarrow> m \<noteq> n \<Longrightarrow> sha256 m = sha256 n \<Longrightarrow> clash ms ns"
  unfolding clash_def by (intro bexI conjI)

lemma clash_mono: "clash ms ns \<Longrightarrow> set ms \<subseteq> set ms' \<Longrightarrow> set ns \<subseteq> set ns' \<Longrightarrow> clash ms' ns'"
  unfolding clash_def by blast

lemma merkle_level_binds:
  "length xs = length ys \<Longrightarrow> list_all (\<lambda>x. length x = 32) xs \<Longrightarrow> list_all (\<lambda>x. length x = 32) ys \<Longrightarrow>
    merkle_level xs = merkle_level ys \<Longrightarrow> xs = ys \<or> clash (level_msgs xs) (level_msgs ys)"
proof (induction xs arbitrary: ys rule: merkle_level.induct)
  case (1 a b rest)
  from "1.prems"(1) obtain c d rest' where ys: "ys = c # d # rest'"
    by (cases ys; cases "tl ys") auto
  with "1.prems" have eq: "sha256 (1 # a @ b) = sha256 (1 # c @ d)" and "merkle_level rest = merkle_level rest'"
    and len: "length a = length c" by auto
  with "1.IH" [of rest'] "1.prems" ys have rest: "rest = rest' \<or> clash (level_msgs rest) (level_msgs rest')" by simp
  show ?case
  proof (cases "1 # a @ b = 1 # c @ d")
    case True
    moreover have "clash (level_msgs (a # b # rest)) (level_msgs ys)" if "clash (level_msgs rest) (level_msgs rest')"
      using that by (rule clash_mono) (auto simp: ys)
    ultimately show ?thesis using len rest ys by auto
  next
    case False
    then have "clash (level_msgs (a # b # rest)) (level_msgs (c # d # rest'))"
      by (rule clashI [rotated 2]) (simp_all add: eq)
    then show ?thesis unfolding ys ..
  qed
next
  case "2_1"
  then show ?case by simp
next
  case "2_2"
  then show ?case by (cases ys) auto
qed

lemma merkle_level_32:
  "list_all (\<lambda>x. length x = 32) xs \<Longrightarrow> list_all (\<lambda>x. length x = 32) (merkle_level xs)"
  by (induction xs rule: merkle_level.induct) auto

lemma merkle_up_binds:
  "length xs = length ys \<Longrightarrow> xs \<noteq> [] \<Longrightarrow> list_all (\<lambda>x. length x = 32) xs \<Longrightarrow>
    list_all (\<lambda>x. length x = 32) ys \<Longrightarrow> merkle_up xs = merkle_up ys \<Longrightarrow> xs = ys \<or> clash (up_msgs xs) (up_msgs ys)"
proof (induction xs arbitrary: ys rule: merkle_up.induct)
  case (1 xs)
  show ?case
  proof (cases "length xs > 1")
    case True
    then have "merkle_up (merkle_level xs) = merkle_up (merkle_level ys)"
      using "1.prems"(1,5) by (simp add: merkle_up.simps [of xs] merkle_up.simps [of ys])
    moreover have "merkle_level xs \<noteq> []" using True length_merkle_level [of xs] by (cases "merkle_level xs") auto
    ultimately have "merkle_level xs = merkle_level ys \<or> clash (up_msgs (merkle_level xs)) (up_msgs (merkle_level ys))"
      using 1 True merkle_level_32 by simp
    then have "xs = ys \<or> clash (level_msgs xs) (level_msgs ys) \<or> clash (up_msgs (merkle_level xs)) (up_msgs (merkle_level ys))"
      using merkle_level_binds "1.prems" by blast
    moreover have "set (level_msgs zs) \<union> set (up_msgs (merkle_level zs)) = set (up_msgs zs)" if "zs \<in> {xs, ys}" for zs
      using True "1.prems"(1) that by (auto simp: up_msgs.simps [of xs] up_msgs.simps [of ys])
    ultimately show ?thesis using clash_mono by (metis Un_upper1 Un_upper2 insertI1 insertI2)
  next
    case False
    then have "length xs = 1" using "1.prems"(2) by (cases xs) auto
    then obtain x y where "xs = [x]" "ys = [y]" using "1.prems"(1) by (auto simp: length_Suc_conv)
    with "1.prems"(5) show ?thesis by (simp add: merkle_up.simps)
  qed
qed

lemma leaves_bind:
  "map (\<lambda>leaf. sha256 (0x00 # utf8 leaf)) xs = map (\<lambda>leaf. sha256 (0x00 # utf8 leaf)) ys \<Longrightarrow>
    xs = ys \<or> clash (map (\<lambda>leaf. 0x00 # utf8 leaf) xs) (map (\<lambda>leaf. 0x00 # utf8 leaf) ys)"
proof (induction xs ys rule: list_induct2')
  case (4 x xs y ys)
  let ?m = "map (\<lambda>leaf. 0x00 # utf8 leaf :: bytes)"
  from 4 have eq: "sha256 (0 # utf8 x) = sha256 (0 # utf8 y)" and rest: "xs = ys \<or> clash (?m xs) (?m ys)" by simp_all
  show ?case
  proof (cases "(0 # utf8 x :: bytes) = 0 # utf8 y")
    case True
    then have "x = y" by (auto dest: utf8_inj)
    moreover have "clash (?m (x # xs)) (?m (y # ys))" if "clash (?m xs) (?m ys)"
      using that by (rule clash_mono) auto
    ultimately show ?thesis using rest by auto
  next
    case False
    then have "clash (?m (x # xs)) (?m (y # ys))" using eq by (intro clashI [of "0 # utf8 x" _ "0 # utf8 y"]) simp_all
    then show ?thesis ..
  qed
qed simp_all

section \<open>Properties\<close>

text \<open>
  An order counts as compliant only when every registry required for its category is configured
  and answered with a success status and a JSON object whose \<^verbatim>\<open>compliant\<close> field is the boolean
  \<^verbatim>\<open>true\<close>; when a required registry is not configured, the check raises instead of returning.
\<close>

theorem compliance_requires_every_registry:
  "(case compliance_check clients tin cat q of
      Inl e \<Rightarrow> True
    | Inr oc \<Rightarrow> map rd_registry (oc_decisions oc) = registries_for cat \<and>
        (oc_compliant oc \<longleftrightarrow> (\<forall>r \<in> set (registries_for cat). \<exists>status doc. status < 400 \<and>
          pc_post (clients r) (rstrip_slash (pc_base_url (clients r)) @ ''/v1/compliance-checks'')
            [(''tin'', JStr tin), (''product_category'', JStr cat), (''quantity'', JInt q)] =
            Response status (Some (JObj doc)) \<and> doc_get doc ''compliant'' = JBool True))) \<and>
   (unconfigured clients cat \<noteq> [] \<longrightarrow> (\<exists>e. compliance_check clients tin cat q = Inl e))"
proof (cases "compliance_check clients tin cat q")
  case (Inr oc)
  then obtain ds where ds: "list_all2 (\<lambda>r d. check_registry clients tin cat q r = Inr d) (registries_for cat) ds"
    and oc: "oc = \<lparr>oc_compliant = list_all rd_compliant ds, oc_decisions = ds\<rparr>"
    by (auto simp: compliance_check_def check_all_ok)
  from ds have "map rd_registry ds = registries_for cat \<and>
      (list_all rd_compliant ds \<longleftrightarrow> (\<forall>r \<in> set (registries_for cat). \<exists>status doc. status < 400 \<and>
        pc_post (clients r) (rstrip_slash (pc_base_url (clients r)) @ ''/v1/compliance-checks'')
          [(''tin'', JStr tin), (''product_category'', JStr cat), (''quantity'', JInt q)] =
          Response status (Some (JObj doc)) \<and> doc_get doc ''compliant'' = JBool True)) \<and>
      (\<forall>r \<in> set (registries_for cat). configured (clients r))"
  proof (induction rule: list_all2_induct)
    case (Cons r rs d ds)
    then show ?case using check_registry_ok [OF Cons.hyps(1)] by auto
  qed simp
  then show ?thesis by (auto simp: Inr oc unconfigured_def filter_empty_conv)
qed simp

theorem compliance_requires_every_registry_witness:
  "\<exists>e. compliance_check (\<lambda>r. \<lparr>pc_base_url = '''', pc_post = (\<lambda>u b. TransportError)\<rparr>) ''12345678'' ''beverages'' 5 = Inl e"
  using compliance_requires_every_registry
    [where clients = "\<lambda>r. \<lparr>pc_base_url = '''', pc_post = (\<lambda>u b. TransportError)\<rparr>" and tin = "''12345678''"
      and cat = "''beverages''" and q = 5]
  by (simp add: unconfigured_def configured_def registries_for_def REQUIRED_REGISTRIES_def)

text \<open>
  The Merkle root is defined for every non-empty batch and binds its serials: two batches of the
  same size with the same root have the same serials in the same order, or two different messages
  among those hashed to compute the two roots have the same SHA-256 digest.
\<close>

theorem merkle_root_binds:
  "(merkle_root xs = Inl ValueError \<longleftrightarrow> xs = []) \<and>
   (xs \<noteq> [] \<and> length xs = length ys \<and> merkle_root xs = merkle_root ys \<longrightarrow>
      xs = ys \<or> (\<exists>m \<in> set (root_msgs xs). \<exists>m' \<in> set (root_msgs ys). m \<noteq> m' \<and> sha256 m = sha256 m'))"
proof (intro conjI impI)
  assume a: "xs \<noteq> [] \<and> length xs = length ys \<and> merkle_root xs = merkle_root ys"
  let ?leaf = "\<lambda>leaf. sha256 (0 # utf8 leaf)"
  have "merkle_up (map ?leaf xs) = merkle_up (map ?leaf ys)"
    using a hex_inj by (auto simp: merkle_root_def split: if_splits)
  then have "map ?leaf xs = map ?leaf ys \<or> clash (up_msgs (map ?leaf xs)) (up_msgs (map ?leaf ys))"
    using a by (intro merkle_up_binds) (auto simp: list_all_iff)
  then have "xs = ys \<or> clash (root_msgs xs) (root_msgs ys)"
    using leaves_bind [of xs ys] clash_mono [of _ _ "root_msgs xs" "root_msgs ys"] by (fastforce simp: root_msgs_def)
  then show "xs = ys \<or> (\<exists>m \<in> set (root_msgs xs). \<exists>m' \<in> set (root_msgs ys). m \<noteq> m' \<and> sha256 m = sha256 m')"
    unfolding clash_def .
qed (simp add: merkle_root_def)

theorem merkle_root_binds_witness:
  "merkle_root [''a'', ''b'', ''c''] = merkle_root [''a'', ''b'', ''c''] \<and>
   ([''a'', ''b'', ''c''] = [''a'', ''b'', ''c''] \<or>
    (\<exists>m \<in> set (root_msgs [''a'', ''b'', ''c'']). \<exists>m' \<in> set (root_msgs [''a'', ''b'', ''c'']). m \<noteq> m' \<and> sha256 m = sha256 m'))"
  using merkle_root_binds [of "[''a'', ''b'', ''c'']" "[''a'', ''b'', ''c'']"] by simp

end
