(* ===== verification/Orders.thy ===== *)
theory Orders
  imports Outbox Ledger Context Providers
begin

text \<open>
  \<^verbatim>\<open>src/taxstamp/services/orders.py\<close>: intake, maker-checker approval and cancellation.  The random
  suffix of a reference is an argument of the operation that draws it.  An operation maps the
  database to an error, which rolls the transaction back, or to a result and the new database.
\<close>

section \<open>Model\<close>

definition REFERENCE_ALPHABET :: string where
  "REFERENCE_ALPHABET = ''23456789ABCDEFGHJKLMNPQRSTUVWXYZ''"

definition reference :: "string \<Rightarrow> instant \<Rightarrow> string \<Rightarrow> string" where
  "reference prefix now suffix = prefix @ ''-'' @ int_pad 4 (year_of now) @ ''-'' @ suffix"

record submit_order_command =
  so_company_id :: uuid
  so_product_category :: string
  so_quantity :: int
  so_delivery_state :: string
  so_delivery_address :: string

text \<open>\<^verbatim>\<open>session.get\<close>: a row by its primary key.\<close>

definition get_row :: "('r \<Rightarrow> uuid) \<Rightarrow> 'r list \<Rightarrow> uuid \<Rightarrow> 'r option" where
  "get_row k rows i = (case filter (\<lambda>r. k r = i) rows of [] \<Rightarrow> None | r # _ \<Rightarrow> Some r)"

definition current_tariff :: "db \<Rightarrow> string \<Rightarrow> instant \<Rightarrow> tariff res" where
  "current_tariff db product_category now =
     (case sort_key (\<lambda>t. - ta_effective_from t)
             (filter (\<lambda>t. ta_product_category t = product_category \<and> ta_effective_from t \<le> now \<and>
                          (case ta_effective_to t of None \<Rightarrow> True | Some u \<Rightarrow> u > now)) (tariffs db)) of
        [] \<Rightarrow> Inl ValidationFailed
      | t # _ \<Rightarrow> Inr t)"

definition new_transition ::
  "uuid \<Rightarrow> order_status option \<Rightarrow> order_status \<Rightarrow> uuid option \<Rightarrow> string \<Rightarrow> instant \<Rightarrow> uuid \<Rightarrow> order_transition" where
  "new_transition order_id from to actor_id why now i =
     \<lparr>ot_id = i, ot_order_id = order_id, ot_from_status = from, ot_to_status = to,
      ot_actor_principal_id = actor_id, ot_reason = why, ot_created_at = now\<rparr>"

text \<open>The row of an order after its attributes were assigned and flushed.\<close>

definition save_order :: "order \<Rightarrow> db \<Rightarrow> db" where
  "save_order o' db = db\<lparr>orders := update_where (\<lambda>x. o_id x = o_id o') (\<lambda>_. o') (orders db)\<rparr>"

text \<open>
  The assignments and the history row that every change of an order's status makes; the caller
  has asserted the transition.
\<close>

definition move_order ::
  "order \<Rightarrow> order_status \<Rightarrow> uuid option \<Rightarrow> string \<Rightarrow> instant \<Rightarrow> db \<Rightarrow> (order \<times> db) res" where
  "move_order ord target actor_id why now db =
     (let ord' = ord\<lparr>o_status := target, o_updated_at := now\<rparr>
      in bind_res (insert_order_transition
             (new_transition (o_id ord) (Some (o_status ord)) target actor_id why now) (save_order ord' db))
           (\<lambda>(t, db). Inr (ord', db)))"

definition transition ::
  "order \<Rightarrow> order_status \<Rightarrow> actor option \<Rightarrow> string \<Rightarrow> instant \<Rightarrow> db \<Rightarrow> (order \<times> db) res" where
  "transition ord target actor why now db =
     bind_res (assert_order_transition (o_status ord) target) (\<lambda>_.
     move_order ord target (map_option ac_principal_id actor) why now db)"

definition order_snapshot :: "order \<Rightarrow> json_object" where
  "order_snapshot ord =
     [(''order_ref'', JStr (o_order_ref ord)),
      (''status'', JStr (order_status_value (o_status ord))),
      (''quantity'', JInt (o_quantity ord)),
      (''total_minor'', JInt (o_total_minor ord)),
      (''currency'', JStr (o_currency ord)),
      (''product_category'', JStr (o_product_category ord))]"

definition order_record :: "string \<Rightarrow> order \<Rightarrow> json_object \<Rightarrow> string option \<Rightarrow> string option \<Rightarrow> audit_record" where
  "order_record action ord after_state request_id idempotency_key =
     \<lparr>ar_action = action, ar_target_type = ''order'', ar_target_id = uuid_str (o_id ord),
      ar_outcome = ''success'', ar_before_state = None, ar_after_state = Some after_state,
      ar_request_id = request_id, ar_idempotency_key = idempotency_key\<rparr>"

definition new_order ::
  "string \<Rightarrow> company \<Rightarrow> actor \<Rightarrow> submit_order_command \<Rightarrow> tariff \<Rightarrow> price_breakdown \<Rightarrow> compliance_outcome \<Rightarrow>
   instant \<Rightarrow> uuid \<Rightarrow> order" where
  "new_order order_ref company actor command tariff breakdown oc now i =
     \<lparr>o_id = i, o_order_ref = order_ref, o_company_id = co_id company,
      o_submitted_by = ac_principal_id actor, o_product_category = so_product_category command,
      o_quantity = so_quantity command, o_tariff_id = ta_id tariff,
      o_unit_price_minor = minor (pb_unit_price breakdown),
      o_subtotal_minor = minor (pb_subtotal breakdown), o_vat_bps = pb_vat_bps breakdown,
      o_vat_minor = minor (pb_vat breakdown), o_total_minor = minor (pb_total breakdown),
      o_currency = currency (pb_total breakdown), o_status = O_SUBMITTED,
      o_risk_tier = co_risk_tier company, o_delivery_state = so_delivery_state command,
      o_delivery_address = so_delivery_address command,
      o_compliance_evidence = Some (as_evidence oc), o_created_at = now, o_updated_at = now\<rparr>"

text \<open>The transition out of submission that the outcome of the compliance check decides.\<close>

definition route_order :: "actor \<Rightarrow> compliance_outcome \<Rightarrow> instant \<Rightarrow> order \<Rightarrow> db \<Rightarrow> (order \<times> db) res" where
  "route_order actor oc now ord db =
     (if oc_compliant oc then
        transition ord O_AWAITING_APPROVAL (Some actor) ''compliance checks passed'' now db
      else
        bind_res (transition ord O_COMPLIANCE_PENDING (Some actor) ''compliance decision recorded'' now db)
          (\<lambda>(ord, db). transition ord O_COMPLIANCE_REJECTED (Some actor)
              ''one or more registries reported non-compliance'' now db))"

definition submit_order ::
  "actor \<Rightarrow> submit_order_command \<Rightarrow> compliance_service \<Rightarrow> instant \<Rightarrow> string \<Rightarrow> string \<Rightarrow> int \<Rightarrow> string option \<Rightarrow>
   string \<Rightarrow> db \<Rightarrow> (order \<times> db) res" where
  "submit_order actor command compliance now audit_secret revision max_quantity idempotency_key suffix db =
     bind_res (require_role actor [REQUESTER, ADMIN]) (\<lambda>_.
     bind_res (require_company actor (so_company_id command)) (\<lambda>_.
     if so_quantity command \<le> 0 then Inl ValidationFailed else
     if so_quantity command > max_quantity then Inl ValidationFailed else
     case get_row co_id (companies db) (so_company_id command) of
       None \<Rightarrow> Inl NotFound
     | Some company \<Rightarrow>
     if co_kyb_status company \<noteq> K_VERIFIED then Inl ValidationFailed else
     bind_res (current_tariff db (so_product_category command) now) (\<lambda>tariff.
     bind_res (Money (ta_unit_price_minor tariff) (ta_currency tariff)) (\<lambda>unit_price.
     bind_res (price_order (so_quantity command) unit_price (ta_vat_bps tariff)) (\<lambda>breakdown.
     bind_res (compliance_check compliance (co_tin company) (so_product_category command)
         (so_quantity command)) (\<lambda>oc.
     bind_res (insert_order (new_order (reference ''ORD'' now suffix) company actor command tariff
         breakdown oc now) db) (\<lambda>(ord, db).
     bind_res (insert_order_transition (new_transition (o_id ord) None O_SUBMITTED
         (Some (ac_principal_id actor)) ''submitted'' now) db) (\<lambda>(t, db).
     bind_res (route_order actor oc now ord db)
       (\<lambda>(ord, db).
     bind_res (record_audit_event (audit_actor_of actor)
         (order_record ''order.submit'' ord (order_snapshot ord) (ac_request_id actor) idempotency_key)
         now audit_secret revision db) (\<lambda>(e, db).
     Inr (ord, db)))))))))))"

record approval_command =
  ap_cmd_order_id :: uuid
  ap_cmd_level :: approval_level
  ap_cmd_decision :: approval_decision
  ap_cmd_reason :: string

fun LEVEL_ROLES :: "approval_level \<Rightarrow> role" where
  "LEVEL_ROLES L_ANALYST = ANALYST"
| "LEVEL_ROLES L_SUPERVISOR = SUPERVISOR"

definition new_approval :: "uuid \<Rightarrow> approval_command \<Rightarrow> actor \<Rightarrow> instant \<Rightarrow> uuid \<Rightarrow> approval" where
  "new_approval order_id command actor now i =
     \<lparr>ap_id = i, ap_order_id = order_id, ap_level = ap_cmd_level command,
      ap_decision = ap_cmd_decision command, ap_actor_principal_id = ac_principal_id actor,
      ap_reason = ap_cmd_reason command, ap_created_at = now\<rparr>"

definition new_intent :: "order \<Rightarrow> string \<Rightarrow> instant \<Rightarrow> uuid \<Rightarrow> payment_intent" where
  "new_intent ord ref now i =
     \<lparr>pi_id = i, pi_order_id = o_id ord, pi_reference = ref, pi_amount_minor = o_total_minor ord,
      pi_currency = o_currency ord, pi_status = P_AWAITING_PAYMENT, pi_created_at = now,
      pi_settled_at = None\<rparr>"

text \<open>The payment intent, its outbox message included, that a completed approval creates.\<close>

definition create_intent :: "order \<Rightarrow> instant \<Rightarrow> string \<Rightarrow> db \<Rightarrow> db res" where
  "create_intent ord now suffix db =
     bind_res (insert_payment_intent (new_intent ord (reference ''PAY'' now suffix) now) db) (\<lambda>(intent, db).
     bind_res (enqueue ''order'' (o_id ord) ''order.awaiting_payment''
         (''order.awaiting_payment:'' @ uuid_str (o_id ord))
         [(''order_id'', JStr (uuid_str (o_id ord))),
          (''payment_reference'', JStr (pi_reference intent)),
          (''amount_minor'', JInt (pi_amount_minor intent)),
          (''currency'', JStr (pi_currency intent))] now db) (\<lambda>(r, db).
     Inr db))"

definition approved_levels :: "db \<Rightarrow> uuid \<Rightarrow> approval_level list" where
  "approved_levels db order_id =
     map ap_level (filter (\<lambda>a. ap_order_id a = order_id \<and> ap_decision a = D_APPROVED) (approvals db))"

text \<open>The part of \<^verbatim>\<open>decide_approval\<close> that follows the recording of the decision.\<close>

definition apply_decision ::
  "actor \<Rightarrow> approval_command \<Rightarrow> instant \<Rightarrow> string \<Rightarrow> order \<Rightarrow> db \<Rightarrow> (order \<times> bool \<times> db) res" where
  "apply_decision actor command now suffix ord db =
     (if ap_cmd_decision command = D_REJECTED then
        bind_res (transition ord O_REJECTED (Some actor) (ap_cmd_reason command) now db)
          (\<lambda>(ord, db). Inr (ord, False, db))
      else if list_all (\<lambda>l. l \<in> set (approved_levels db (o_id ord))) (REQUIRED_APPROVALS (o_risk_tier ord)) then
        bind_res (transition ord O_APPROVED (Some actor) ''all approvals recorded'' now db) (\<lambda>(ord, db).
        bind_res (transition ord O_AWAITING_PAYMENT (Some actor) ''payment intent created'' now db) (\<lambda>(ord, db).
        bind_res (create_intent ord now suffix db) (\<lambda>db.
        Inr (ord, True, db))))
      else Inr (ord, False, db))"

definition decide_approval ::
  "actor \<Rightarrow> approval_command \<Rightarrow> instant \<Rightarrow> string \<Rightarrow> string \<Rightarrow> string option \<Rightarrow> string \<Rightarrow> db \<Rightarrow> (order \<times> db) res" where
  "decide_approval actor command now audit_secret revision idempotency_key suffix db =
     bind_res (require_role actor [LEVEL_ROLES (ap_cmd_level command)]) (\<lambda>_.
     bind_res (scalar_one_or_none (filter (\<lambda>x. o_id x = ap_cmd_order_id command) (orders db))) (\<lambda>found.
     case found of
       None \<Rightarrow> Inl NotFound
     | Some ord \<Rightarrow>
     if o_status ord \<noteq> O_AWAITING_APPROVAL then Inl IllegalState else
     if o_submitted_by ord = ac_principal_id actor then Inl Forbidden else
     let existing = filter (\<lambda>a. ap_order_id a = o_id ord) (approvals db) in
     if list_ex (\<lambda>a. ap_level a = ap_cmd_level command) existing then Inl Conflict else
     if list_ex (\<lambda>a. ap_actor_principal_id a = ac_principal_id actor) existing then Inl Forbidden else
     bind_res (insert_approval (new_approval (o_id ord) command actor now) db) (\<lambda>(a, db).
     bind_res (apply_decision actor command now suffix ord db)
       (\<lambda>(ord, intent_created, db).
     bind_res (record_audit_event (audit_actor_of actor)
         (order_record (''order.approval.'' @ approval_decision_value (ap_cmd_decision command)) ord
            (order_snapshot ord @ [(''payment_intent_created'', JBool intent_created)])
            (ac_request_id actor) idempotency_key)
         now audit_secret revision db) (\<lambda>(e, db).
     Inr (ord, db))))))"

definition cancel_order ::
  "actor \<Rightarrow> uuid \<Rightarrow> string \<Rightarrow> instant \<Rightarrow> string \<Rightarrow> string \<Rightarrow> db \<Rightarrow> (order \<times> db) res" where
  "cancel_order actor order_id why now audit_secret revision db =
     bind_res (scalar_one_or_none (filter (\<lambda>x. o_id x = order_id) (orders db))) (\<lambda>found.
     case found of
       None \<Rightarrow> Inl NotFound
     | Some ord \<Rightarrow>
     bind_res
       (if ac_role actor \<noteq> ADMIN then
          bind_res (require_role actor [REQUESTER]) (\<lambda>_. require_company actor (o_company_id ord))
        else Inr ()) (\<lambda>_.
     bind_res (transition ord O_CANCELLED (Some actor) why now db) (\<lambda>(ord, db).
     bind_res (record_audit_event (audit_actor_of actor)
         (order_record ''order.cancel'' ord (order_snapshot ord) (ac_request_id actor) None)
         now audit_secret revision db) (\<lambda>(e, db).
     Inr (ord, db)))))"

section \<open>What the building blocks do\<close>

lemma new_transition_simps [simp]:
  "ot_id (new_transition oid f t a w now i) = i"
  "ot_order_id (new_transition oid f t a w now i) = oid"
  "ot_to_status (new_transition oid f t a w now i) = t"
  "ot_from_status (new_transition oid f t a w now i) = f"
  "ot_actor_principal_id (new_transition oid f t a w now i) = a"
  by (simp_all add: new_transition_def)

lemma new_approval_simps [simp]:
  "ap_order_id (new_approval oid c a now i) = oid"
  "ap_level (new_approval oid c a now i) = ap_cmd_level c"
  "ap_decision (new_approval oid c a now i) = ap_cmd_decision c"
  "ap_actor_principal_id (new_approval oid c a now i) = ac_principal_id a"
  by (simp_all add: new_approval_def)

lemma new_intent_simps [simp]:
  "pi_id (new_intent ord ref now i) = i"
  "pi_order_id (new_intent ord ref now i) = o_id ord"
  "pi_reference (new_intent ord ref now i) = ref"
  "pi_amount_minor (new_intent ord ref now i) = o_total_minor ord"
  "pi_currency (new_intent ord ref now i) = o_currency ord"
  "pi_status (new_intent ord ref now i) = P_AWAITING_PAYMENT"
  by (simp_all add: new_intent_def)

lemma move_order_ok:
  "move_order ord tgt aid why now db = Inr (ord', db') \<longleftrightarrow>
     ord' = ord\<lparr>o_status := tgt, o_updated_at := now\<rparr> \<and>
     order_transition_types (new_transition (o_id ord) (Some (o_status ord)) tgt aid why now (next_uuid db)) \<and>
     order_transition_checks (save_order ord' db)
       (new_transition (o_id ord) (Some (o_status ord)) tgt aid why now (next_uuid db)) \<and>
     db' = db\<lparr>next_uuid := Suc (next_uuid db),
              orders := update_where (\<lambda>x. o_id x = o_id ord) (\<lambda>_. ord') (orders db),
              order_transitions := order_transitions db @
                [new_transition (o_id ord) (Some (o_status ord)) tgt aid why now (next_uuid db)]\<rparr>"
  by (auto simp: move_order_def Let_def insert_ok save_order_def)

lemma transition_ok:
  "transition ord tgt a why now db = Inr (ord', db') \<longleftrightarrow>
     assert_order_transition (o_status ord) tgt = Inr () \<and>
     move_order ord tgt (map_option ac_principal_id a) why now db = Inr (ord', db')"
  by (auto simp: transition_def)

section \<open>The invariant of orders\<close>

definition history :: "db \<Rightarrow> uuid \<Rightarrow> order_status list" where
  "history db i = map ot_to_status (filter (\<lambda>t. ot_order_id t = i) (order_transitions db))"

text \<open>The constraints on the amounts of an order.\<close>

definition priced :: "order \<Rightarrow> bool" where
  "priced ord = (0 < o_quantity ord \<and> 0 < o_unit_price_minor ord \<and> 0 < o_subtotal_minor ord \<and>
     0 \<le> o_vat_minor ord \<and> o_subtotal_minor ord = o_unit_price_minor ord * o_quantity ord \<and>
     o_total_minor ord = o_subtotal_minor ord + o_vat_minor ord)"

text \<open>The history of an order is a path of permitted transitions from submission to its status.\<close>

definition history_ok :: "db \<Rightarrow> order \<Rightarrow> bool" where
  "history_ok db ord =
     (\<exists>hs. history db (o_id ord) = hs @ [o_status ord] \<and> hd (hs @ [o_status ord]) = O_SUBMITTED \<and>
        legal_path assert_order_transition (hs @ [o_status ord]))"

definition APPROVED_STATES :: "order_status set" where
  "APPROVED_STATES = {O_APPROVED, O_AWAITING_PAYMENT, O_PAID, O_ISSUING, O_ISSUED}"

definition approvers :: "db \<Rightarrow> uuid \<Rightarrow> uuid list" where
  "approvers db i = map ap_actor_principal_id (filter (\<lambda>a. ap_order_id a = i) (approvals db))"

text \<open>
  Maker-checker: the decisions on an order come from different people, none of them its submitter,
  and an order beyond approval has every level its risk tier requires.
\<close>

definition approvals_ok :: "db \<Rightarrow> order \<Rightarrow> bool" where
  "approvals_ok db ord =
     (distinct (approvers db (o_id ord)) \<and> o_submitted_by ord \<notin> set (approvers db (o_id ord)) \<and>
      (o_status ord \<in> APPROVED_STATES \<longrightarrow>
        set (REQUIRED_APPROVALS (o_risk_tier ord)) \<subseteq> set (approved_levels db (o_id ord))))"

definition order_ok :: "db \<Rightarrow> order \<Rightarrow> bool" where
  "order_ok db ord = (priced ord \<and> history_ok db ord \<and> approvals_ok db ord)"

definition orders_wf :: "db \<Rightarrow> bool" where
  "orders_wf db =
     (distinct (map o_id (orders db)) \<and> below (next_uuid db) (map o_id (orders db)) \<and>
      below (next_uuid db) (map ot_order_id (order_transitions db)) \<and>
      below (next_uuid db) (map ot_id (order_transitions db)) \<and>
      below (next_uuid db) (map ap_order_id (approvals db)) \<and>
      (\<forall>ord \<in> set (orders db). order_ok db ord))"

lemma order_ok_cong:
  "order_transitions db' = order_transitions db \<Longrightarrow> approvals db' = approvals db \<Longrightarrow>
    order_ok db' ord = order_ok db ord"
  by (simp add: order_ok_def history_ok_def history_def approvals_ok_def approvers_def approved_levels_def)

lemma orders_wf_cong [inv_pres]:
  "orders db' = orders db \<Longrightarrow> order_transitions db' = order_transitions db \<Longrightarrow> approvals db' = approvals db \<Longrightarrow>
    next_uuid db \<le> next_uuid db' \<Longrightarrow> orders_wf db \<Longrightarrow> orders_wf db'"
  using order_ok_cong [of db' db] by (auto simp: orders_wf_def intro: below_mono)

lemma orders_wf_lookup:
  "orders_wf db \<Longrightarrow> ord \<in> set (orders db) \<Longrightarrow> filter (\<lambda>x. o_id x = o_id ord) (orders db) = [ord]"
  by (simp add: orders_wf_def filter_key_singleton)

text \<open>A permitted move keeps the invariant.\<close>

lemma move_order_wf [inv_pres]:
  assumes wf: "orders_wf db" and ord: "ord \<in> set (orders db)"
    and chk: "assert_order_transition (o_status ord) tgt = Inr ()"
    and lev: "tgt \<in> APPROVED_STATES \<Longrightarrow> o_status ord \<in> APPROVED_STATES \<or>
      set (REQUIRED_APPROVALS (o_risk_tier ord)) \<subseteq> set (approved_levels db (o_id ord))"
    and mv: "move_order ord tgt aid why now db = Inr (ord', db')"
  shows "orders_wf db'" and "ord' \<in> set (orders db')"
proof -
  have ord': "ord' = ord\<lparr>o_status := tgt, o_updated_at := now\<rparr>"
    and ts: "order_transitions db' = order_transitions db @
        [new_transition (o_id ord) (Some (o_status ord)) tgt aid why now (next_uuid db)]"
    and ap: "approvals db' = approvals db" and nu: "next_uuid db' = Suc (next_uuid db)"
    using mv by (auto simp: move_order_ok)
  have os: "orders db' = map (\<lambda>x. if x = ord then ord' else x) (orders db)"
    using mv ord wf by (auto simp: move_order_ok orders_wf_def update_row_by_key)
  have ids: "map o_id (orders db') = map o_id (orders db)" by (simp add: os ord' comp_def)
  have hist: "history db' i = history db i @ (if i = o_id ord then [tgt] else [])" for i
    by (simp add: history_def ts)
  have same: "approvers db' = approvers db" "approved_levels db' = approved_levels db"
    by (simp_all add: fun_eq_iff approvers_def approved_levels_def ap)
  have other: "order_ok db' x" if "x \<in> set (orders db)" "x \<noteq> ord" for x
  proof -
    have "o_id x \<noteq> o_id ord" using that ord wf by (auto simp: orders_wf_def distinct_map dest: inj_onD)
    moreover have "order_ok db x" using that wf by (simp add: orders_wf_def)
    ultimately show ?thesis
      by (simp add: order_ok_def history_ok_def approvals_ok_def hist same)
  qed
  have old: "order_ok db ord" using wf ord by (simp add: orders_wf_def)
  then obtain hs where hs: "history db (o_id ord) = hs @ [o_status ord]" "hd (hs @ [o_status ord]) = O_SUBMITTED"
    "legal_path assert_order_transition (hs @ [o_status ord])" by (auto simp: order_ok_def history_ok_def)
  have "legal_path assert_order_transition (hs @ [o_status ord, tgt])" using hs(3) chk by (rule legal_path_snoc)
  then have "history_ok db' ord'"
    unfolding history_ok_def using hs(1,2)
    by (intro exI [of _ "hs @ [o_status ord]"]) (cases hs; simp add: hist ord')
  moreover have "approvals_ok db' ord'"
    using old lev by (auto simp: order_ok_def approvals_ok_def same ord')
  moreover have "priced ord'" using old by (simp add: order_ok_def priced_def ord')
  ultimately have new: "order_ok db' ord'" by (simp add: order_ok_def)
  show "ord' \<in> set (orders db')" using ord by (auto simp: os)
  have "\<forall>x \<in> set (orders db'). order_ok db' x" using new other by (auto simp: os)
  with wf show "orders_wf db'"
    by (simp add: orders_wf_def ids ts ap nu below_keyD [OF _ ord])
qed

text \<open>A decision by somebody new keeps the invariant.\<close>

lemma insert_approval_wf [inv_pres]:
  assumes wf: "orders_wf db" and ord: "ord \<in> set (orders db)" and st: "o_status ord = O_AWAITING_APPROVAL"
    and sub: "o_submitted_by ord \<noteq> ac_principal_id a" and new: "ac_principal_id a \<notin> set (approvers db (o_id ord))"
    and ins: "insert_approval (new_approval (o_id ord) c a now) db = Inr (row, db')"
  shows "orders_wf db'"
proof -
  have aps: "approvals db' = approvals db @ [new_approval (o_id ord) c a now (next_uuid db)]"
    and rest: "orders db' = orders db" "order_transitions db' = order_transitions db"
      "next_uuid db' = Suc (next_uuid db)"
    using ins by (auto simp: insert_ok)
  have appr: "approvers db' i = approvers db i @ (if i = o_id ord then [ac_principal_id a] else [])" for i
    by (simp add: approvers_def aps)
  have lev: "set (approved_levels db i) \<subseteq> set (approved_levels db' i)" for i
    by (auto simp: approved_levels_def aps)
  have "order_ok db' x" if x: "x \<in> set (orders db)" for x
  proof -
    have "order_ok db x" using x wf by (simp add: orders_wf_def)
    moreover have "x = ord" if "o_id x = o_id ord"
      using that x ord wf by (auto simp: orders_wf_def distinct_map dest: inj_onD)
    ultimately show ?thesis
      using sub new st lev [of "o_id x"]
      by (auto simp: order_ok_def history_ok_def history_def rest approvals_ok_def appr APPROVED_STATES_def)
  qed
  with wf show ?thesis by (simp add: orders_wf_def rest aps below_keyD [OF _ ord])
qed

section \<open>Frames\<close>

text \<open>
  The tables the order service does not touch: two databases agree on them when they are equal after
  the tables it may touch are blanked.
\<close>

definition order_mask :: "db \<Rightarrow> db" where
  "order_mask db = db\<lparr>next_uuid := 0, next_seq := 0, orders := [], order_transitions := [], approvals := [],
     payment_intents := [], outbox_messages := [], audit_events := []\<rparr>"

lemma order_maskD:
  assumes "order_mask db' = order_mask db"
  shows "journals db' = journals db" "ledger_entries db' = ledger_entries db"
    "payment_receipts db' = payment_receipts db" "stamps db' = stamps db"
    "stamp_batches db' = stamp_batches db" "serial_counters db' = serial_counters db"
    "tb_ledger_intents db' = tb_ledger_intents db" "inspections db' = inspections db"
    "companies db' = companies db" "principals db' = principals db" "tariffs db' = tariffs db"
    "idempotency_records db' = idempotency_records db" "stamp_events db' = stamp_events db"
    "verifications db' = verifications db" "db_now db' = db_now db"
  using arg_cong [OF assms, of journals] arg_cong [OF assms, of ledger_entries]
    arg_cong [OF assms, of payment_receipts] arg_cong [OF assms, of stamps]
    arg_cong [OF assms, of stamp_batches] arg_cong [OF assms, of serial_counters]
    arg_cong [OF assms, of tb_ledger_intents] arg_cong [OF assms, of inspections]
    arg_cong [OF assms, of companies] arg_cong [OF assms, of principals] arg_cong [OF assms, of tariffs]
    arg_cong [OF assms, of idempotency_records] arg_cong [OF assms, of stamp_events]
    arg_cong [OF assms, of verifications] arg_cong [OF assms, of db_now]
  by (simp_all add: order_mask_def)

lemma transition_frame [db_frame]:
  "transition ord tgt a why now db = Inr (ord', db') \<Longrightarrow>
    order_mask db' = order_mask db \<and> next_uuid db \<le> next_uuid db' \<and> next_seq db' = next_seq db \<and>
    audit_events db' = audit_events db \<and> outbox_messages db' = outbox_messages db \<and>
    approvals db' = approvals db \<and> payment_intents db' = payment_intents db"
  by (auto simp: transition_ok move_order_ok order_mask_def)

lemma record_audit_event_frame [db_frame]:
  "record_audit_event a r t k rv db = Inr (e, db') \<Longrightarrow>
    order_mask db' = order_mask db \<and> next_uuid db' = Suc (next_uuid db) \<and> orders db' = orders db \<and>
    order_transitions db' = order_transitions db \<and> approvals db' = approvals db \<and>
    payment_intents db' = payment_intents db \<and> outbox_messages db' = outbox_messages db"
  using record_audit_event_db [of a r t k rv db e db'] by (auto simp: order_mask_def)

lemma create_intent_ok:
  assumes "create_intent ord now sfx db = Inr db'"
  shows "\<exists>r. payment_intents db' = payment_intents db @ [new_intent ord (reference ''PAY'' now sfx) now (next_uuid db)] \<and>
    payment_intent_checks db (new_intent ord (reference ''PAY'' now sfx) now (next_uuid db)) \<and>
    order_mask db' = order_mask db \<and> next_uuid db < next_uuid db' \<and> next_seq db' = next_seq db \<and>
    audit_events db' = audit_events db \<and> approvals db' = approvals db \<and> orders db' = orders db \<and>
    order_transitions db' = order_transitions db"
  using assms by (auto simp: create_intent_def insert_ok order_mask_def dest!: enqueue_frame)

lemma create_intent_outbox [inv_pres]:
  assumes "outbox_wf db" and "create_intent ord now sfx db = Inr db'"
  shows "outbox_wf db'"
proof -
  have wf: "outbox_wf (db\<lparr>next_uuid := Suc (next_uuid db), payment_intents := pis\<rparr>)" for pis
    using assms(1) by (simp add: outbox_wf_def)
  show ?thesis using assms(2) by (auto simp: create_intent_def insert_ok intro: enqueue_wf [OF wf])
qed

lemma route_order_frame [db_frame]:
  "route_order a oc now ord db = Inr (ord', db') \<Longrightarrow>
    order_mask db' = order_mask db \<and> next_uuid db \<le> next_uuid db' \<and> next_seq db' = next_seq db \<and>
    audit_events db' = audit_events db \<and> outbox_messages db' = outbox_messages db \<and>
    approvals db' = approvals db \<and> payment_intents db' = payment_intents db"
  by (auto simp: route_order_def split: if_splits dest!: transition_frame)

lemma apply_decision_frame [db_frame]:
  "apply_decision a c now sfx ord db = Inr (ord', f, db') \<Longrightarrow>
    order_mask db' = order_mask db \<and> next_uuid db \<le> next_uuid db' \<and> next_seq db' = next_seq db \<and>
    audit_events db' = audit_events db \<and> approvals db' = approvals db"
  by (auto simp: apply_decision_def split: if_splits dest!: transition_frame create_intent_ok)

section \<open>Steps of the operations\<close>

lemma submit_orderE:
  assumes "submit_order actor cmd cs now k rv mx ik sfx db = Inr (ord', db')"
  obtains co ta up b oc ord db1 tr db2 db3 e where
    "ac_role actor \<in> {REQUESTER, ADMIN}" "ac_role actor = ADMIN \<or> ac_company_id actor = Some (so_company_id cmd)"
    "0 < so_quantity cmd" "so_quantity cmd \<le> mx"
    "get_row co_id (companies db) (so_company_id cmd) = Some co" "co_kyb_status co = K_VERIFIED"
    "current_tariff db (so_product_category cmd) now = Inr ta"
    "Money (ta_unit_price_minor ta) (ta_currency ta) = Inr up"
    "price_order (so_quantity cmd) up (ta_vat_bps ta) = Inr b"
    "compliance_check cs (co_tin co) (so_product_category cmd) (so_quantity cmd) = Inr oc"
    "insert_order (new_order (reference ''ORD'' now sfx) co actor cmd ta b oc now) db = Inr (ord, db1)"
    "insert_order_transition (new_transition (o_id ord) None O_SUBMITTED (Some (ac_principal_id actor))
        ''submitted'' now) db1 = Inr (tr, db2)"
    "route_order actor oc now ord db2 = Inr (ord', db3)"
    "record_audit_event (audit_actor_of actor)
        (order_record ''order.submit'' ord' (order_snapshot ord') (ac_request_id actor) ik) now k rv db3 = Inr (e, db')"
  using assms unfolding submit_order_def by (auto split: option.splits)

lemma list_ex_approvers:
  "list_ex (\<lambda>a. ap_actor_principal_id a = p) (filter (\<lambda>a. ap_order_id a = i) (approvals db)) \<longleftrightarrow>
    p \<in> set (approvers db i)"
  by (auto simp: approvers_def list_ex_iff)

lemma decide_approvalE:
  assumes "decide_approval actor cmd now k rv ik sfx db = Inr (ord', db')"
  obtains ord row db1 f db2 e where
    "ac_role actor = LEVEL_ROLES (ap_cmd_level cmd)"
    "filter (\<lambda>x. o_id x = ap_cmd_order_id cmd) (orders db) = [ord]"
    "o_status ord = O_AWAITING_APPROVAL" "o_submitted_by ord \<noteq> ac_principal_id actor"
    "ac_principal_id actor \<notin> set (approvers db (o_id ord))"
    "insert_approval (new_approval (o_id ord) cmd actor now) db = Inr (row, db1)"
    "apply_decision actor cmd now sfx ord db1 = Inr (ord', f, db2)"
    "record_audit_event (audit_actor_of actor)
         (order_record (''order.approval.'' @ approval_decision_value (ap_cmd_decision cmd)) ord'
            (order_snapshot ord' @ [(''payment_intent_created'', JBool f)]) (ac_request_id actor) ik)
         now k rv db2 = Inr (e, db')"
  using assms unfolding decide_approval_def
  by (auto simp: Let_def list_ex_approvers split: option.splits if_splits)

lemma cancel_orderE:
  assumes "cancel_order actor oid why now k rv db = Inr (ord', db')"
  obtains ord db1 e where
    "filter (\<lambda>x. o_id x = oid) (orders db) = [ord]"
    "ac_role actor = ADMIN \<or> (ac_role actor = REQUESTER \<and> ac_company_id actor = Some (o_company_id ord))"
    "transition ord O_CANCELLED (Some actor) why now db = Inr (ord', db1)"
    "record_audit_event (audit_actor_of actor)
        (order_record ''order.cancel'' ord' (order_snapshot ord') (ac_request_id actor) None) now k rv db1 = Inr (e, db')"
  using assms unfolding cancel_order_def by (auto split: option.splits if_splits)

section \<open>The operations keep the invariants\<close>

lemma transition_wf [inv_pres]:
  assumes "orders_wf db" and "ord \<in> set (orders db)" and "transition ord tgt a why now db = Inr (ord', db')"
    and "tgt \<in> APPROVED_STATES \<Longrightarrow> o_status ord \<in> APPROVED_STATES \<or>
      set (REQUIRED_APPROVALS (o_risk_tier ord)) \<subseteq> set (approved_levels db (o_id ord))"
  shows "orders_wf db'" and "ord' \<in> set (orders db')" and "o_status ord' = tgt" and "o_id ord' = o_id ord"
    and "o_risk_tier ord' = o_risk_tier ord" and "o_total_minor ord' = o_total_minor ord"
    and "o_currency ord' = o_currency ord"
proof -
  have mv: "move_order ord tgt (map_option ac_principal_id a) why now db = Inr (ord', db')"
    and chk: "assert_order_transition (o_status ord) tgt = Inr ()"
    using assms(3) by (simp_all add: transition_ok)
  show "orders_wf db'" and "ord' \<in> set (orders db')"
    using move_order_wf [OF assms(1,2) chk assms(4) mv] by blast+
qed (use assms(3) in \<open>simp_all add: transition_ok move_order_ok\<close>)

text \<open>An order enters with the first row of its history.\<close>

lemma new_order_simps [simp]:
  "o_id (new_order r co a cmd ta b oc now i) = i"
  "o_status (new_order r co a cmd ta b oc now i) = O_SUBMITTED"
  "o_total_minor (new_order r co a cmd ta b oc now i) = minor (pb_total b)"
  by (simp_all add: new_order_def)

lemma open_order_wf [inv_pres]:
  assumes wf: "orders_wf db"
    and ins: "insert_order (new_order r co a cmd ta b oc now) db = Inr (ord, db1)"
    and tr: "insert_order_transition (new_transition (o_id ord) None O_SUBMITTED aid why now) db1 = Inr (row, db2)"
  shows "orders_wf db2" and "ord \<in> set (orders db2)" and "o_status ord = O_SUBMITTED"
proof -
  have ord: "ord = new_order r co a cmd ta b oc now (next_uuid db)" and chk: "order_checks db ord"
    and os: "orders db2 = orders db @ [ord]" and aps: "approvals db2 = approvals db"
    and ts: "order_transitions db2 = order_transitions db @
        [new_transition (o_id ord) None O_SUBMITTED aid why now (Suc (next_uuid db))]"
    and nu: "next_uuid db2 = Suc (Suc (next_uuid db))"
    using ins tr by (auto simp: insert_ok)
  have id: "o_id ord = next_uuid db" by (simp add: ord)
  have none: "history db (next_uuid db) = []" "approvers db (next_uuid db) = []"
    using wf by (auto simp: orders_wf_def history_def approvers_def filter_empty_conv dest: below_keyD)
  have hist: "history db2 i = history db i @ (if i = next_uuid db then [O_SUBMITTED] else [])" for i
    by (simp add: history_def ts id)
  have same: "approvers db2 = approvers db" "approved_levels db2 = approved_levels db"
    by (simp_all add: fun_eq_iff approvers_def approved_levels_def aps)
  have old: "order_ok db2 x" if x: "x \<in> set (orders db)" for x
  proof -
    have "o_id x \<noteq> next_uuid db" using wf x below_keyD by (fastforce simp: orders_wf_def)
    moreover have "order_ok db x" using wf x by (simp add: orders_wf_def)
    ultimately show ?thesis by (simp add: order_ok_def history_ok_def approvals_ok_def hist same)
  qed
  show st: "o_status ord = O_SUBMITTED" by (simp add: ord)
  have "order_ok db2 ord"
    using chk none by (simp add: order_ok_def priced_def order_checks_def history_ok_def approvals_ok_def hist same
        id st APPROVED_STATES_def)
  with old wf show "orders_wf db2"
    by (auto simp: orders_wf_def os aps ts nu id dest: below_keyD)
  show "ord \<in> set (orders db2)" by (simp add: os)
qed

lemma route_order_wf [inv_pres]:
  assumes "orders_wf db" and "ord \<in> set (orders db)" and "route_order a oc now ord db = Inr (ord', db')"
  shows "orders_wf db' \<and> ord' \<in> set (orders db') \<and>
    o_status ord' = (if oc_compliant oc then O_AWAITING_APPROVAL else O_COMPLIANCE_REJECTED) \<and>
    o_id ord' = o_id ord \<and> o_total_minor ord' = o_total_minor ord"
proof (cases "oc_compliant oc")
  case True
  with assms(3) have "transition ord O_AWAITING_APPROVAL (Some a) ''compliance checks passed'' now db = Inr (ord', db')"
    by (simp add: route_order_def)
  from transition_wf [OF assms(1,2) this] True show ?thesis by (simp add: APPROVED_STATES_def)
next
  case False
  with assms(3) obtain o1 db1 where
    1: "transition ord O_COMPLIANCE_PENDING (Some a) ''compliance decision recorded'' now db = Inr (o1, db1)" and
    2: "transition o1 O_COMPLIANCE_REJECTED (Some a) ''one or more registries reported non-compliance'' now db1 = Inr (ord', db')"
    by (auto simp: route_order_def)
  have s1: "orders_wf db1" "o1 \<in> set (orders db1)" "o_id o1 = o_id ord" "o_total_minor o1 = o_total_minor ord"
    using transition_wf [OF assms(1,2) 1] by (simp_all add: APPROVED_STATES_def)
  from transition_wf [OF s1(1,2) 2] s1 False show ?thesis by (simp add: APPROVED_STATES_def)
qed

lemma orders_wf_audit [inv_pres]:
  "orders_wf db \<Longrightarrow> record_audit_event a r t k rv db = Inr (e, db') \<Longrightarrow> orders_wf db'"
  using record_audit_event_frame [of a r t k rv db e db'] by (auto intro: orders_wf_cong)

lemma submit_order_wf [inv_pres]:
  assumes "orders_wf db" and "submit_order a cmd cs now k rv mx ik sfx db = Inr (ord', db')"
  shows "orders_wf db'"
  using assms(2)
proof (rule submit_orderE)
  fix co ta up b oc ord db1 tr db2 db3 e
  assume ins: "insert_order (new_order (reference ''ORD'' now sfx) co a cmd ta b oc now) db = Inr (ord, db1)"
    and tr: "insert_order_transition (new_transition (o_id ord) None O_SUBMITTED (Some (ac_principal_id a))
        ''submitted'' now) db1 = Inr (tr, db2)"
    and rt: "route_order a oc now ord db2 = Inr (ord', db3)"
    and au: "record_audit_event (audit_actor_of a)
        (order_record ''order.submit'' ord' (order_snapshot ord') (ac_request_id a) ik) now k rv db3 = Inr (e, db')"
  note open_order_wf [OF assms(1) ins tr]
  then have "orders_wf db3" using route_order_wf [OF _ _ rt] by simp
  then show ?thesis using au by (rule orders_wf_audit)
qed

lemma apply_decision_wf [inv_pres]:
  assumes wf: "orders_wf db" and ord: "ord \<in> set (orders db)" and ap: "apply_decision a c now sfx ord db = Inr (ord', f, db')"
  shows "orders_wf db' \<and> ord' \<in> set (orders db') \<and> o_id ord' = o_id ord"
proof -
  consider (rej) "ap_cmd_decision c = D_REJECTED"
    | (full) "ap_cmd_decision c \<noteq> D_REJECTED" "set (REQUIRED_APPROVALS (o_risk_tier ord)) \<subseteq> set (approved_levels db (o_id ord))"
    | (part) "ap_cmd_decision c \<noteq> D_REJECTED" "\<not> set (REQUIRED_APPROVALS (o_risk_tier ord)) \<subseteq> set (approved_levels db (o_id ord))"
    by blast
  then show ?thesis
  proof cases
    case rej
    with ap have "transition ord O_REJECTED (Some a) (ap_cmd_reason c) now db = Inr (ord', db')"
      by (auto simp: apply_decision_def)
    from transition_wf [OF wf ord this] show ?thesis by (simp add: APPROVED_STATES_def)
  next
    case full
    then have "list_all (\<lambda>l. l \<in> set (approved_levels db (o_id ord))) (REQUIRED_APPROVALS (o_risk_tier ord))"
      by (auto simp: list_all_iff)
    with ap full(1) obtain o1 db1 db2 where
      1: "transition ord O_APPROVED (Some a) ''all approvals recorded'' now db = Inr (o1, db1)" and
      2: "transition o1 O_AWAITING_PAYMENT (Some a) ''payment intent created'' now db1 = Inr (ord', db2)" and
      3: "create_intent ord' now sfx db2 = Inr db'"
      by (auto simp: apply_decision_def)
    have s1: "orders_wf db1" "o1 \<in> set (orders db1)" "o_status o1 = O_APPROVED" "o_id o1 = o_id ord"
      using transition_wf [OF wf ord 1] full(2) by blast+
    have s2: "orders_wf db2" "ord' \<in> set (orders db2)" "o_id ord' = o_id ord"
      using transition_wf [OF s1(1,2) 2] s1(3,4) by (simp_all add: APPROVED_STATES_def)
    have "orders_wf db'"
      using create_intent_ok [OF 3] s2(1) by (auto intro: orders_wf_cong)
    with s2 create_intent_ok [OF 3] show ?thesis by auto
  next
    case part
    then have "\<not> list_all (\<lambda>l. l \<in> set (approved_levels db (o_id ord))) (REQUIRED_APPROVALS (o_risk_tier ord))"
      by (auto simp: list_all_iff)
    with ap part(1) wf ord show ?thesis by (simp add: apply_decision_def)
  qed
qed

lemma decide_approval_wf [inv_pres]:
  assumes "orders_wf db" and "decide_approval a cmd now k rv ik sfx db = Inr (ord', db')"
  shows "orders_wf db'"
  using assms(2)
proof (rule decide_approvalE)
  fix ord row db1 f db2 e
  assume one: "filter (\<lambda>x. o_id x = ap_cmd_order_id cmd) (orders db) = [ord]"
    and st: "o_status ord = O_AWAITING_APPROVAL" "o_submitted_by ord \<noteq> ac_principal_id a"
      "ac_principal_id a \<notin> set (approvers db (o_id ord))"
    and ins: "insert_approval (new_approval (o_id ord) cmd a now) db = Inr (row, db1)"
    and ap: "apply_decision a cmd now sfx ord db1 = Inr (ord', f, db2)"
    and au: "record_audit_event (audit_actor_of a)
         (order_record (''order.approval.'' @ approval_decision_value (ap_cmd_decision cmd)) ord'
            (order_snapshot ord' @ [(''payment_intent_created'', JBool f)]) (ac_request_id a) ik)
         now k rv db2 = Inr (e, db')"
  have ord: "ord \<in> set (orders db)" using filter_eq_singletonD [OF one] by simp
  have "orders_wf db1" using insert_approval_wf [OF assms(1) ord st ins] .
  moreover have "ord \<in> set (orders db1)" using ins ord by (auto simp: insert_ok)
  ultimately have "orders_wf db2" using apply_decision_wf [OF _ _ ap] by blast
  then show ?thesis using au by (rule orders_wf_audit)
qed

lemma cancel_order_wf [inv_pres]:
  assumes "orders_wf db" and "cancel_order a oid why now k rv db = Inr (ord', db')"
  shows "orders_wf db'"
  using assms(2)
proof (rule cancel_orderE)
  fix ord db1 e
  assume one: "filter (\<lambda>x. o_id x = oid) (orders db) = [ord]"
    and tr: "transition ord O_CANCELLED (Some a) why now db = Inr (ord', db1)"
    and au: "record_audit_event (audit_actor_of a)
        (order_record ''order.cancel'' ord' (order_snapshot ord') (ac_request_id a) None) now k rv db1 = Inr (e, db')"
  have "orders_wf db1"
    using transition_wf(1) [OF assms(1) _ tr] filter_eq_singletonD [OF one] by (simp add: APPROVED_STATES_def)
  then show ?thesis using au by (rule orders_wf_audit)
qed

end
