(* ===== verification/Payments.thy ===== *)
theory Payments
  imports Orders
begin

text \<open>
  \<^verbatim>\<open>src/taxstamp/services/payments.py\<close>: ingestion of remittances.  A remittance is recorded once,
  matched on the exact amount and currency, posted as a balanced journal and advances its order in
  one transaction; a mismatch is quarantined as an unapplied receipt.
\<close>

section \<open>Model\<close>

definition INGEST_ACTOR :: audit_actor where
  "INGEST_ACTOR = \<lparr>aa_principal_id = None, aa_subject = ''system:payment-ingestor'', aa_role = ''treasury'',
     aa_company_id = None\<rparr>"

record remittance_advice =
  ra_external_reference :: string
  ra_declared_reference :: string
  ra_amount_minor :: int
  ra_currency :: string
  ra_value_date :: datetime
  ra_raw :: json_object

record ingest_result =
  ig_receipt_id :: uuid
  ig_status :: receipt_status
  ig_order_id :: "uuid option"
  ig_duplicate :: bool

definition classify :: "payment_intent option \<Rightarrow> remittance_advice \<Rightarrow> receipt_status" where
  "classify intent advice =
     (case intent of
        None \<Rightarrow> R_UNKNOWN_REFERENCE
      | Some i \<Rightarrow>
          if pi_amount_minor i \<noteq> ra_amount_minor advice \<or> pi_currency i \<noteq> ra_currency advice \<or>
             pi_status i \<noteq> P_AWAITING_PAYMENT
          then R_AMOUNT_MISMATCH else R_MATCHED)"

definition new_receipt ::
  "remittance_advice \<Rightarrow> payment_intent option \<Rightarrow> string \<Rightarrow> instant \<Rightarrow> instant \<Rightarrow> uuid \<Rightarrow> payment_receipt" where
  "new_receipt advice intent payload_hash value_date now i =
     \<lparr>rc_id = i, rc_external_reference = ra_external_reference advice,
      rc_payment_intent_id = map_option pi_id intent,
      rc_declared_reference = ra_declared_reference advice, rc_amount_minor = ra_amount_minor advice,
      rc_currency = ra_currency advice, rc_status = classify intent advice,
      rc_payload_hash = payload_hash, rc_value_date = value_date, rc_ingested_at = now\<rparr>"

text \<open>\<^verbatim>\<open>Posting(account, direction, Money(amount, currency))\<close>\<close>

definition posting_of :: "string \<Rightarrow> string \<Rightarrow> int \<Rightarrow> string \<Rightarrow> posting res" where
  "posting_of account direction amount cur = bind_res (Money amount cur) (Posting account direction)"

definition save_intent :: "payment_intent \<Rightarrow> db \<Rightarrow> db" where
  "save_intent i db =
     db\<lparr>payment_intents := update_where (\<lambda>x. pi_id x = pi_id i) (\<lambda>_. i) (payment_intents db)\<rparr>"

text \<open>
  The branch of an exact match: the order is paid, the intent settled, the duty and VAT booked.  A row is checked here where
  the source adds it to the session; the ORM sends it with the next flush, so that of two errors in one settlement the source
  may raise the other.  Either rolls the transaction back.
\<close>

definition settle ::
  "payment_intent \<Rightarrow> payment_receipt \<Rightarrow> instant \<Rightarrow> db \<Rightarrow> (uuid \<times> db) res" where
  "settle intent receipt now db =
     bind_res (scalar_one (filter (\<lambda>x. o_id x = pi_order_id intent) (orders db))) (\<lambda>ord.
     bind_res (assert_order_transition (o_status ord) O_PAID) (\<lambda>_.
     bind_res (move_order ord O_PAID None (''settlement '' @ rc_external_reference receipt) now db) (\<lambda>(ord, db).
     let db = save_intent (intent\<lparr>pi_status := P_SETTLED, pi_settled_at := Some now\<rparr>) db in
     bind_res (posting_of BANK_COLLECTIONS ''debit'' (o_total_minor ord) (o_currency ord)) (\<lambda>bank.
     bind_res (posting_of DUTY_PAYABLE ''credit'' (o_subtotal_minor ord) (o_currency ord)) (\<lambda>duty.
     bind_res (posting_of VAT_PAYABLE ''credit'' (o_vat_minor ord) (o_currency ord)) (\<lambda>vat.
     bind_res (post_journal (''settlement:'' @ rc_external_reference receipt) ''duty_settlement''
         [bank, duty, vat] now (Some (o_id ord)) (Some (rc_id receipt)) None db) (\<lambda>(j, db).
     bind_res (enqueue ''order'' (o_id ord) ''order.issue_stamps''
         (''order.issue_stamps:'' @ uuid_str (o_id ord))
         [(''order_id'', JStr (uuid_str (o_id ord))), (''quantity'', JInt (o_quantity ord))] now db) (\<lambda>(r, db).
     Inr (o_id ord, db)))))))))"

text \<open>The branch of a mismatch: the funds are held as an unapplied liability.\<close>

definition quarantine ::
  "remittance_advice \<Rightarrow> payment_intent \<Rightarrow> payment_receipt \<Rightarrow> instant \<Rightarrow> db \<Rightarrow> (uuid \<times> db) res" where
  "quarantine advice intent receipt now db =
     bind_res (posting_of BANK_COLLECTIONS ''debit'' (ra_amount_minor advice) (ra_currency advice)) (\<lambda>bank.
     bind_res (posting_of UNAPPLIED_RECEIPTS ''credit'' (ra_amount_minor advice) (ra_currency advice)) (\<lambda>held.
     bind_res (post_journal (''unapplied:'' @ rc_external_reference receipt) ''unapplied_receipt''
         [bank, held] now None (Some (rc_id receipt)) None db) (\<lambda>(j, db).
     bind_res (enqueue ''payment_receipt'' (rc_id receipt) ''payment.mismatch_requires_review''
         (''payment.mismatch:'' @ rc_external_reference receipt)
         [(''receipt_id'', JStr (uuid_str (rc_id receipt))),
          (''declared_reference'', JStr (ra_declared_reference advice)),
          (''amount_minor'', JInt (ra_amount_minor advice)),
          (''expected_minor'', JInt (pi_amount_minor intent))] now db) (\<lambda>(r, db).
     Inr (pi_order_id intent, db)))))"

definition apply_receipt ::
  "remittance_advice \<Rightarrow> payment_intent option \<Rightarrow> payment_receipt \<Rightarrow> instant \<Rightarrow> db \<Rightarrow> (uuid option \<times> db) res" where
  "apply_receipt advice intent receipt now db =
     (case intent of
        None \<Rightarrow> Inr (None, db)
      | Some i \<Rightarrow>
          if classify intent advice = R_MATCHED
          then bind_res (settle i receipt now db) (\<lambda>(oid, db). Inr (Some oid, db))
          else bind_res (quarantine advice i receipt now db) (\<lambda>(oid, db). Inr (Some oid, db)))"

definition ingest_record :: "remittance_advice \<Rightarrow> receipt_status \<Rightarrow> uuid \<Rightarrow> uuid option \<Rightarrow> audit_record" where
  "ingest_record advice status receipt_id order_id =
     \<lparr>ar_action = ''payment.ingest'', ar_target_type = ''payment_receipt'',
      ar_target_id = uuid_str receipt_id,
      ar_outcome = (if status = R_MATCHED then ''success'' else ''failure''), ar_before_state = None,
      ar_after_state = Some
        [(''status'', JStr (receipt_status_value status)),
         (''external_reference'', JStr (ra_external_reference advice)),
         (''amount_minor'', JInt (ra_amount_minor advice)),
         (''currency'', JStr (ra_currency advice)),
         (''order_id'', json_opt (map_option uuid_str order_id))],
      ar_request_id = None, ar_idempotency_key = None\<rparr>"

text \<open>The answer to a remittance whose external reference is on record.\<close>

definition replay_receipt :: "payment_receipt \<Rightarrow> db \<Rightarrow> ingest_result res" where
  "replay_receipt existing db =
     bind_res (case rc_payment_intent_id existing of
                 None \<Rightarrow> Inr None
               | Some i \<Rightarrow> bind_res (scalar_one (map pi_order_id (filter (\<lambda>x. pi_id x = i) (payment_intents db))))
                             (\<lambda>oid. Inr (Some oid)))
       (\<lambda>oid. Inr \<lparr>ig_receipt_id = rc_id existing, ig_status = rc_status existing, ig_order_id = oid,
                    ig_duplicate = True\<rparr>)"

definition ingest_remittance ::
  "remittance_advice \<Rightarrow> instant \<Rightarrow> string \<Rightarrow> string \<Rightarrow> db \<Rightarrow> (ingest_result \<times> db) res" where
  "ingest_remittance advice now audit_secret revision db =
     bind_res (scalar_one_or_none (filter (\<lambda>x. rc_external_reference x = ra_external_reference advice)
         (payment_receipts db))) (\<lambda>existing.
     case existing of
       Some r \<Rightarrow> bind_res (replay_receipt r db) (\<lambda>res. Inr (res, db))
     | None \<Rightarrow>
     bind_res (scalar_one_or_none (filter (\<lambda>x. pi_reference x = ra_declared_reference advice)
         (payment_intents db))) (\<lambda>intent.
     bind_res (canonical_hash (ra_raw advice)) (\<lambda>payload_hash.
     bind_res (ensure_utc (ra_value_date advice)) (\<lambda>value_date.
     bind_res (insert_payment_receipt (new_receipt advice intent payload_hash value_date now) db) (\<lambda>(receipt, db).
     bind_res (apply_receipt advice intent receipt now db) (\<lambda>(order_id, db).
     bind_res (record_audit_event INGEST_ACTOR
         (ingest_record advice (classify intent advice) (rc_id receipt) order_id)
         now audit_secret revision db) (\<lambda>(e, db).
     Inr (\<lparr>ig_receipt_id = rc_id receipt, ig_status = classify intent advice, ig_order_id = order_id,
           ig_duplicate = False\<rparr>, db))))))))"

section \<open>What the branches do\<close>

lemma posting_of_ok:
  "posting_of a d m c = Inr p \<longleftrightarrow> c \<in> {''NGN'', ''USD''} \<and> d \<in> {''debit'', ''credit''} \<and> 0 < m \<and>
     p = \<lparr>po_account = a, po_direction = d, po_amount = \<lparr>minor = m, currency = c\<rparr>\<rparr>"
  by (auto simp: posting_of_def Money_ok Posting_ok)

lemma new_receipt_simps [simp]:
  "rc_id (new_receipt adv i h v now k) = k"
  "rc_external_reference (new_receipt adv i h v now k) = ra_external_reference adv"
  "rc_payment_intent_id (new_receipt adv i h v now k) = map_option pi_id i"
  "rc_amount_minor (new_receipt adv i h v now k) = ra_amount_minor adv"
  "rc_currency (new_receipt adv i h v now k) = ra_currency adv"
  "rc_status (new_receipt adv i h v now k) = classify i adv"
  by (simp_all add: new_receipt_def)

lemma classify_matched:
  "classify i adv = R_MATCHED \<longleftrightarrow>
    (\<exists>x. i = Some x \<and> pi_amount_minor x = ra_amount_minor adv \<and> pi_currency x = ra_currency adv \<and>
       pi_status x = P_AWAITING_PAYMENT)"
  by (auto simp: classify_def split: option.splits)

lemma classify_None [simp]: "classify None adv = R_UNKNOWN_REFERENCE"
  by (simp add: classify_def)

lemma classify_Some: "classify (Some i) adv = R_MATCHED \<or> classify (Some i) adv = R_AMOUNT_MISMATCH"
  by (simp add: classify_def)

definition settlement_postings :: "order \<Rightarrow> posting list" where
  "settlement_postings ord =
     [\<lparr>po_account = BANK_COLLECTIONS, po_direction = ''debit'', po_amount = \<lparr>minor = o_total_minor ord, currency = o_currency ord\<rparr>\<rparr>,
      \<lparr>po_account = DUTY_PAYABLE, po_direction = ''credit'', po_amount = \<lparr>minor = o_subtotal_minor ord, currency = o_currency ord\<rparr>\<rparr>,
      \<lparr>po_account = VAT_PAYABLE, po_direction = ''credit'', po_amount = \<lparr>minor = o_vat_minor ord, currency = o_currency ord\<rparr>\<rparr>]"

definition quarantine_postings :: "remittance_advice \<Rightarrow> posting list" where
  "quarantine_postings adv =
     [\<lparr>po_account = BANK_COLLECTIONS, po_direction = ''debit'', po_amount = \<lparr>minor = ra_amount_minor adv, currency = ra_currency adv\<rparr>\<rparr>,
      \<lparr>po_account = UNAPPLIED_RECEIPTS, po_direction = ''credit'', po_amount = \<lparr>minor = ra_amount_minor adv, currency = ra_currency adv\<rparr>\<rparr>]"

lemma assert_paid: "assert_order_transition s O_PAID = Inr () \<longleftrightarrow> s = O_AWAITING_PAYMENT"
  by (simp add: assert_order_transition_iff)

lemma settleE:
  assumes "settle i rc now db = Inr (oid, db')"
  obtains ord ord' db1 j db2 r where
    "filter (\<lambda>x. o_id x = pi_order_id i) (orders db) = [ord]" "o_status ord = O_AWAITING_PAYMENT" "oid = o_id ord"
    "move_order ord O_PAID None (''settlement '' @ rc_external_reference rc) now db = Inr (ord', db1)"
    "ord' = ord\<lparr>o_status := O_PAID, o_updated_at := now\<rparr>"
    "o_currency ord \<in> {''NGN'', ''USD''}" "0 < o_total_minor ord" "0 < o_subtotal_minor ord" "0 < o_vat_minor ord"
    "post_journal (''settlement:'' @ rc_external_reference rc) ''duty_settlement'' (settlement_postings ord) now
       (Some (o_id ord)) (Some (rc_id rc)) None
       (save_intent (i\<lparr>pi_status := P_SETTLED, pi_settled_at := Some now\<rparr>) db1) = Inr (j, db2)"
    "enqueue ''order'' (o_id ord) ''order.issue_stamps'' (''order.issue_stamps:'' @ uuid_str (o_id ord))
         [(''order_id'', JStr (uuid_str (o_id ord))), (''quantity'', JInt (o_quantity ord))] now db2 = Inr (r, db')"
proof -
  from assms obtain ord ord' db1 j db2 r where
    1: "filter (\<lambda>x. o_id x = pi_order_id i) (orders db) = [ord]" "assert_order_transition (o_status ord) O_PAID = Inr ()"
    and mv: "move_order ord O_PAID None (''settlement '' @ rc_external_reference rc) now db = Inr (ord', db1)"
    and 2: "o_currency ord' \<in> {''NGN'', ''USD''}" "0 < o_total_minor ord'" "0 < o_subtotal_minor ord'" "0 < o_vat_minor ord'"
      "oid = o_id ord'"
    "post_journal (''settlement:'' @ rc_external_reference rc) ''duty_settlement'' (settlement_postings ord') now
       (Some (o_id ord')) (Some (rc_id rc)) None
       (save_intent (i\<lparr>pi_status := P_SETTLED, pi_settled_at := Some now\<rparr>) db1) = Inr (j, db2)"
    "enqueue ''order'' (o_id ord') ''order.issue_stamps'' (''order.issue_stamps:'' @ uuid_str (o_id ord'))
         [(''order_id'', JStr (uuid_str (o_id ord'))), (''quantity'', JInt (o_quantity ord'))] now db2 = Inr (r, db')"
    unfolding settle_def by (auto simp: Let_def posting_of_ok settlement_postings_def)
  have ord': "ord' = ord\<lparr>o_status := O_PAID, o_updated_at := now\<rparr>" using mv by (simp add: move_order_ok)
  have "settlement_postings ord' = settlement_postings ord" by (simp add: settlement_postings_def ord')
  with that [of ord ord' db1 j db2 r] 1 mv 2 ord' show thesis by (simp add: assert_paid)
qed

lemma quarantineE:
  assumes "quarantine adv i rc now db = Inr (oid, db')"
  obtains j db1 where
    "ra_currency adv \<in> {''NGN'', ''USD''}" "0 < ra_amount_minor adv" "oid = pi_order_id i"
    "post_journal (''unapplied:'' @ rc_external_reference rc) ''unapplied_receipt'' (quarantine_postings adv) now
       None (Some (rc_id rc)) None db = Inr (j, db1)"
    "\<exists>u ms. db' = db1\<lparr>next_uuid := u, outbox_messages := ms\<rparr> \<and> next_uuid db1 \<le> u \<and> (outbox_wf db1 \<longrightarrow> outbox_wf db')"
proof -
  from assms obtain j db1 k p r where 1: "ra_currency adv \<in> {''NGN'', ''USD''}" "0 < ra_amount_minor adv" "oid = pi_order_id i"
    "post_journal (''unapplied:'' @ rc_external_reference rc) ''unapplied_receipt'' (quarantine_postings adv) now
       None (Some (rc_id rc)) None db = Inr (j, db1)"
    "enqueue ''payment_receipt'' (rc_id rc) ''payment.mismatch_requires_review'' k p now db1 = Inr (r, db')"
    unfolding quarantine_def by (auto simp: posting_of_ok quarantine_postings_def)
  show thesis using that [OF 1(1-4)] enqueue_frame [OF 1(5)] enqueue_wf [OF _ 1(5)] by blast
qed

section \<open>The invariant of payments\<close>

definition paid :: "order \<Rightarrow> bool" where
  "paid ord = (o_status ord \<in> {O_PAID, O_ISSUING, O_ISSUED})"

text \<open>What payments depend on in an order: its identity, its amounts, and whether it is paid.\<close>

definition order_core :: "order \<Rightarrow> order" where
  "order_core ord = ord\<lparr>o_status := if paid ord then O_PAID else O_SUBMITTED, o_updated_at := 0\<rparr>"

abbreviation cores :: "db \<Rightarrow> order list" where
  "cores db \<equiv> map order_core (orders db)"

definition matched_for :: "uuid \<Rightarrow> payment_receipt \<Rightarrow> bool" where
  "matched_for i r = (rc_payment_intent_id r = Some i \<and> rc_status r = R_MATCHED)"

text \<open>An intent asks for the total of its order, and is settled exactly when the order is paid.\<close>

definition intent_ok :: "order list \<Rightarrow> payment_intent \<Rightarrow> bool" where
  "intent_ok os i = (\<exists>ord \<in> set os. o_id ord = pi_order_id i \<and> o_total_minor ord = pi_amount_minor i \<and>
     o_currency ord = pi_currency i \<and> pi_status i = (if paid ord then P_SETTLED else P_AWAITING_PAYMENT))"

text \<open>A settled intent has one matched receipt, over its exact amount; an open one has none.\<close>

definition receipts_ok :: "payment_receipt list \<Rightarrow> payment_intent \<Rightarrow> bool" where
  "receipts_ok rs i =
     (map (\<lambda>r. (rc_amount_minor r, rc_currency r)) (filter (matched_for (pi_id i)) rs) =
       (if pi_status i = P_SETTLED then [(pi_amount_minor i, pi_currency i)] else []))"

definition payments_wf :: "db \<Rightarrow> bool" where
  "payments_wf db =
     (distinct (map pi_id (payment_intents db)) \<and> distinct (map pi_order_id (payment_intents db)) \<and>
      distinct (map pi_reference (payment_intents db)) \<and>
      distinct (map rc_external_reference (payment_receipts db)) \<and>
      below (next_uuid db) (map pi_id (payment_intents db)) \<and>
      (\<forall>r \<in> set (payment_receipts db). \<forall>i. rc_payment_intent_id r = Some i \<longrightarrow> i \<in> pi_id ` set (payment_intents db)) \<and>
      (\<forall>i \<in> set (payment_intents db). intent_ok (cores db) i \<and> receipts_ok (payment_receipts db) i) \<and>
      (\<forall>ord \<in> set (cores db). paid ord \<longrightarrow> o_id ord \<in> pi_order_id ` set (payment_intents db)))"

lemma order_core_simps [simp]:
  "o_id (order_core x) = o_id x" "o_total_minor (order_core x) = o_total_minor x"
  "o_subtotal_minor (order_core x) = o_subtotal_minor x" "o_vat_minor (order_core x) = o_vat_minor x"
  "o_currency (order_core x) = o_currency x" "paid (order_core x) = paid x"
  by (simp_all add: order_core_def paid_def)

lemma payments_wf_cong [inv_pres]:
  "cores db' = cores db \<Longrightarrow> payment_intents db' = payment_intents db \<Longrightarrow>
    payment_receipts db' = payment_receipts db \<Longrightarrow> next_uuid db \<le> next_uuid db' \<Longrightarrow>
    payments_wf db \<Longrightarrow> payments_wf db'"
  unfolding payments_wf_def by (auto intro: below_mono)

lemma orders_wf_unique:
  assumes "orders_wf db" and "x \<in> set (orders db)" "y \<in> set (orders db)" and "o_id x = o_id y"
  shows "x = y"
  using assms key_unique [of o_id "orders db" x y] by (simp add: orders_wf_def)

lemma core_move:
  assumes "orders_wf db" and "ord \<in> set (orders db)" and "move_order ord tgt aid why now db = Inr (ord', db')"
    and "paid ord \<longleftrightarrow> tgt \<in> {O_PAID, O_ISSUING, O_ISSUED}"
  shows "cores db' = cores db"
proof -
  have eq: "order_core ord' = order_core ord"
    using assms(3,4) by (auto simp: move_order_ok order_core_def paid_def)
  moreover have "orders db' = map (\<lambda>x. if x = ord then ord' else x) (orders db)"
    using assms by (auto simp: move_order_ok orders_wf_def update_row_by_key)
  ultimately show ?thesis by simp
qed

lemma transition_core:
  assumes "orders_wf db" and "ord \<in> set (orders db)" and "transition ord tgt a why now db = Inr (ord', db')"
    and "tgt \<noteq> O_PAID"
  shows "cores db' = cores db"
proof -
  have chk: "assert_order_transition (o_status ord) tgt = Inr ()"
    and mv: "move_order ord tgt (map_option ac_principal_id a) why now db = Inr (ord', db')"
    using assms(3) by (simp_all add: transition_ok)
  have "paid ord \<longleftrightarrow> tgt \<in> {O_PAID, O_ISSUING, O_ISSUED}"
    using chk assms(4) by (auto simp: assert_order_transition_iff paid_def)
  with assms(1,2) mv show ?thesis by (rule core_move)
qed

lemma intent_ok_mono: "set os \<subseteq> set os' \<Longrightarrow> intent_ok os i \<Longrightarrow> intent_ok os' i"
  by (auto simp: intent_ok_def)

lemma payments_wf_new_order:
  assumes "payments_wf db" and "cores db' = cores db @ [x]" and "\<not> paid x"
    and "payment_intents db' = payment_intents db" "payment_receipts db' = payment_receipts db"
      "next_uuid db \<le> next_uuid db'"
  shows "payments_wf db'"
proof -
  have "intent_ok (cores db') i" if "intent_ok (cores db) i" for i
    using that by (rule intent_ok_mono [rotated]) (auto simp: assms(2))
  with assms show ?thesis
    unfolding payments_wf_def assms(2) by (auto intro: below_mono)
qed

lemma payments_wf_new_intent:
  assumes wf: "payments_wf db" and ord: "ord \<in> set (orders db)" "\<not> paid ord"
    and pis: "payment_intents db' = payment_intents db @ [new_intent ord ref now (next_uuid db)]"
    and chk: "payment_intent_checks db (new_intent ord ref now (next_uuid db))"
    and same: "cores db' = cores db" "payment_receipts db' = payment_receipts db" "next_uuid db < next_uuid db'"
  shows "payments_wf db'"
proof -
  let ?i = "new_intent ord ref now (next_uuid db)"
  have "intent_ok (cores db) ?i" unfolding intent_ok_def
    using ord by (intro bexI [of _ "order_core ord"]) simp_all
  moreover have "filter (matched_for (next_uuid db)) (payment_receipts db) = []"
    using wf by (fastforce simp: payments_wf_def filter_empty_conv matched_for_def dest: below_keyD)
  then have "receipts_ok (payment_receipts db) ?i" by (simp add: receipts_ok_def)
  ultimately show ?thesis
    using wf chk same unfolding payments_wf_def pis
    by (auto simp: payment_intent_checks_def unused_def intro: below_mono less_imp_le)
qed

lemma payments_wf_settle:
  assumes wf: "payments_wf db" and owf: "orders_wf db"
    and i: "i \<in> set (payment_intents db)" "pi_status i = P_AWAITING_PAYMENT"
    and ord: "ord \<in> set (orders db)" "o_id ord = pi_order_id i"
    and rcs: "payment_receipts db' = payment_receipts db @ [rc]" and rc: "matched_for (pi_id i) rc"
      "rc_amount_minor rc = pi_amount_minor i" "rc_currency rc = pi_currency i"
      "rc_external_reference rc \<notin> rc_external_reference ` set (payment_receipts db)"
    and pis: "payment_intents db' = update_where (\<lambda>x. pi_id x = pi_id i) (\<lambda>_. i') (payment_intents db)"
      "i' = i\<lparr>pi_status := P_SETTLED, pi_settled_at := Some now\<rparr>"
    and os: "orders db' = update_where (\<lambda>x. o_id x = o_id ord) (\<lambda>_. ord') (orders db)"
      "ord' = ord\<lparr>o_status := O_PAID, o_updated_at := now\<rparr>"
    and nu: "next_uuid db \<le> next_uuid db'"
  shows "payments_wf db'"
proof -
  have ps: "payment_intents db' = map (\<lambda>x. if x = i then i' else x) (payment_intents db)"
    unfolding pis(1) using wf i(1) by (intro update_row_by_key) (simp_all add: payments_wf_def)
  have o': "orders db' = map (\<lambda>x. if x = ord then ord' else x) (orders db)"
    unfolding os(1) using owf ord(1) by (intro update_row_by_key) (simp_all add: orders_wf_def)
  have keys: "map pi_id (payment_intents db') = map pi_id (payment_intents db)"
    "map pi_order_id (payment_intents db') = map pi_order_id (payment_intents db)"
    "map pi_reference (payment_intents db') = map pi_reference (payment_intents db)"
    by (simp_all add: ps pis(2))
  have ids: "pi_id ` set (payment_intents db') = pi_id ` set (payment_intents db)"
    "pi_order_id ` set (payment_intents db') = pi_order_id ` set (payment_intents db)"
    using keys(1,2) by (metis set_map)+
  have new_order: "intent_ok (cores db') i'" unfolding intent_ok_def
  proof (rule bexI [of _ "order_core ord'"])
    obtain y where y: "y \<in> set (orders db)" "o_id y = pi_order_id i" "o_total_minor y = pi_amount_minor i"
      "o_currency y = pi_currency i"
      using wf i(1) by (auto simp: payments_wf_def intent_ok_def)
    then have "y = ord" using ord by (intro orders_wf_unique [OF owf]) simp_all
    moreover have "paid ord'" by (simp add: paid_def os(2))
    ultimately show "o_id (order_core ord') = pi_order_id i' \<and> o_total_minor (order_core ord') = pi_amount_minor i' \<and>
        o_currency (order_core ord') = pi_currency i' \<and>
        pi_status i' = (if paid (order_core ord') then P_SETTLED else P_AWAITING_PAYMENT)"
      using y by (simp add: os(2) pis(2))
  qed (use ord(1) in \<open>auto simp: o'\<close>)
  have new_receipt: "receipts_ok (payment_receipts db') i'"
    using wf i rc(1-3) by (simp add: payments_wf_def receipts_ok_def rcs pis(2))
  have old: "intent_ok (cores db') x \<and> receipts_ok (payment_receipts db') x"
    if x: "x \<in> set (payment_intents db)" "x \<noteq> i" for x
  proof
    have ne: "pi_id x \<noteq> pi_id i" "pi_order_id x \<noteq> pi_order_id i"
      using x i(1) wf by (auto simp: payments_wf_def distinct_map dest: inj_onD)
    have "intent_ok (cores db) x" "receipts_ok (payment_receipts db) x"
      using wf x(1) by (simp_all add: payments_wf_def)
    then obtain y where "y \<in> set (orders db)" "o_id y = pi_order_id x" "o_total_minor y = pi_amount_minor x"
      "o_currency y = pi_currency x" "pi_status x = (if paid y then P_SETTLED else P_AWAITING_PAYMENT)"
      by (auto simp: intent_ok_def)
    moreover from calculation have "y \<in> set (orders db')" using ne(2) ord(2) by (auto simp: o')
    ultimately show "intent_ok (cores db') x"
      unfolding intent_ok_def by (intro bexI [of _ "order_core y"]) auto
    show "receipts_ok (payment_receipts db') x"
      using \<open>receipts_ok (payment_receipts db) x\<close> ne(1) rc(1) by (simp add: receipts_ok_def rcs matched_for_def)
  qed
  have "\<forall>i \<in> set (payment_intents db'). intent_ok (cores db') i \<and> receipts_ok (payment_receipts db') i"
    using new_order new_receipt old by (auto simp: ps)
  moreover have "\<forall>y \<in> set (cores db'). paid y \<longrightarrow> o_id y \<in> pi_order_id ` set (payment_intents db')"
    unfolding ids using wf ord i(1) by (auto simp: payments_wf_def o' os(2))
  ultimately show ?thesis
    using wf rc i(1) nu unfolding payments_wf_def keys ids
    by (auto simp: rcs matched_for_def intro: below_mono)
qed

lemma payments_wf_other_receipt:
  assumes wf: "payments_wf db" and rcs: "payment_receipts db' = payment_receipts db @ [rc]"
    and rc: "rc_status rc \<noteq> R_MATCHED" "rc_external_reference rc \<notin> rc_external_reference ` set (payment_receipts db)"
      "\<And>k. rc_payment_intent_id rc = Some k \<Longrightarrow> k \<in> pi_id ` set (payment_intents db)"
    and same: "cores db' = cores db" "payment_intents db' = payment_intents db" "next_uuid db \<le> next_uuid db'"
  shows "payments_wf db'"
proof -
  have "receipts_ok (payment_receipts db') i = receipts_ok (payment_receipts db) i" for i
    using rc(1) by (simp add: receipts_ok_def rcs matched_for_def)
  with assms show ?thesis unfolding payments_wf_def by (auto intro: below_mono)
qed

section \<open>The invariant of the books\<close>

text \<open>
  The accounts say what the receipts and the paid orders say: collections are the receipts that were
  matched or quarantined, the duty and VAT owed are those of the paid orders, and the unapplied
  liability is the quarantined receipts.
\<close>

definition owed :: "(order \<Rightarrow> int) \<Rightarrow> string \<Rightarrow> order list \<Rightarrow> int" where
  "owed f c os = sum_list (map (\<lambda>x. if paid x \<and> o_currency x = c then f x else 0) os)"

definition received :: "receipt_status set \<Rightarrow> string \<Rightarrow> payment_receipt list \<Rightarrow> int" where
  "received S c rs = sum_list (map (\<lambda>r. if rc_status r \<in> S \<and> rc_currency r = c then rc_amount_minor r else 0) rs)"

definition accounts_ok :: "db \<Rightarrow> string \<Rightarrow> bool" where
  "accounts_ok db c =
     (trial_balance c (ledger_entries db) = 0 \<and>
      balance (ledger_entries db) c BANK_COLLECTIONS = received {R_MATCHED, R_AMOUNT_MISMATCH} c (payment_receipts db) \<and>
      balance (ledger_entries db) c DUTY_PAYABLE = - owed o_subtotal_minor c (cores db) \<and>
      balance (ledger_entries db) c VAT_PAYABLE = - owed o_vat_minor c (cores db) \<and>
      balance (ledger_entries db) c UNAPPLIED_RECEIPTS = - received {R_AMOUNT_MISMATCH} c (payment_receipts db))"

definition ACCOUNTS :: "string set" where
  "ACCOUNTS = {BANK_COLLECTIONS, DUTY_PAYABLE, VAT_PAYABLE, UNAPPLIED_RECEIPTS}"

definition ledger_ok :: "db \<Rightarrow> bool" where
  "ledger_ok db =
     (ledger_wf db \<and> (\<forall>e \<in> set (ledger_entries db). le_account e \<in> ACCOUNTS) \<and>
      (\<forall>j \<in> set (journals db). j_currency j \<in> {''NGN'', ''USD''}))"

definition books_wf :: "db \<Rightarrow> bool" where
  "books_wf db = (ledger_ok db \<and> (\<forall>c. accounts_ok db c))"

lemma ledger_ok_cong [inv_pres]:
  "journals db' = journals db \<Longrightarrow> ledger_entries db' = ledger_entries db \<Longrightarrow> next_uuid db \<le> next_uuid db' \<Longrightarrow>
    ledger_ok db \<Longrightarrow> ledger_ok db'"
  using ledger_wf_cong [of db' db] by (auto simp: ledger_ok_def)

lemma books_wf_cong [inv_pres]:
  "cores db' = cores db \<Longrightarrow> payment_receipts db' = payment_receipts db \<Longrightarrow> journals db' = journals db \<Longrightarrow>
    ledger_entries db' = ledger_entries db \<Longrightarrow> next_uuid db \<le> next_uuid db' \<Longrightarrow> books_wf db \<Longrightarrow> books_wf db'"
  using ledger_ok_cong [of db' db] by (auto simp: books_wf_def accounts_ok_def)

lemma owed_append [simp]: "owed f c (xs @ ys) = owed f c xs + owed f c ys"
  by (simp add: owed_def)

lemma received_snoc [simp]:
  "received S c (rs @ [r]) = received S c rs + (if rc_status r \<in> S \<and> rc_currency r = c then rc_amount_minor r else 0)"
  by (simp add: received_def)

lemma balance_append [simp]: "balance (xs @ ys) c a = balance xs c a + balance ys c a"
  by (simp add: balance_def)

lemma balance_Nil [simp]: "balance [] c a = 0"
  by (simp add: balance_def)

lemma books_wf_new_order:
  assumes "books_wf db" and "cores db' = cores db @ [x]" and "\<not> paid x"
    and "payment_receipts db' = payment_receipts db" "journals db' = journals db"
      "ledger_entries db' = ledger_entries db" "next_uuid db \<le> next_uuid db'"
  shows "books_wf db'"
proof -
  have "accounts_ok db' c = accounts_ok db c" for c
    unfolding accounts_ok_def assms(2) using assms(3-6) by (simp add: owed_def)
  with assms ledger_ok_cong [of db' db] show ?thesis by (auto simp: books_wf_def)
qed

section \<open>The order service keeps the payments and the books\<close>

text \<open>Both invariants hold; the services never change one of them alone.\<close>

definition money_wf :: "db \<Rightarrow> bool" where
  "money_wf db = (payments_wf db \<and> books_wf db)"

lemma money_wf_cong [inv_pres]:
  "cores db' = cores db \<Longrightarrow> payment_intents db' = payment_intents db \<Longrightarrow>
    payment_receipts db' = payment_receipts db \<Longrightarrow> journals db' = journals db \<Longrightarrow>
    ledger_entries db' = ledger_entries db \<Longrightarrow> next_uuid db \<le> next_uuid db' \<Longrightarrow> money_wf db \<Longrightarrow> money_wf db'"
  unfolding money_wf_def using payments_wf_cong books_wf_cong by blast

lemma money_wf_audit [inv_pres]:
  "money_wf db \<Longrightarrow> record_audit_event a r t k rv db = Inr (e, db') \<Longrightarrow> money_wf db'"
  using record_audit_event_db [of a r t k rv db e db'] by (auto intro: money_wf_cong)

lemma money_wf_transition [inv_pres]:
  assumes "money_wf db" and "orders_wf db" and "ord \<in> set (orders db)"
    and "transition ord tgt a why now db = Inr (ord', db')" and "tgt \<noteq> O_PAID"
  shows "money_wf db'"
  using transition_core [OF assms(2-5)] transition_frame [OF assms(4)] order_maskD [of db' db] assms(1)
  by (intro money_wf_cong [of db' db]) simp_all

lemma money_wf_open_order:
  assumes "money_wf db" and ins: "insert_order (new_order r co a cmd ta b oc now) db = Inr (ord, db1)"
    and tr: "insert_order_transition (new_transition (o_id ord) None O_SUBMITTED aid why now) db1 = Inr (row, db2)"
  shows "money_wf db2"
proof -
  have "cores db2 = cores db @ [order_core ord]" "o_status ord = O_SUBMITTED" "payment_intents db2 = payment_intents db"
    "payment_receipts db2 = payment_receipts db" "journals db2 = journals db" "ledger_entries db2 = ledger_entries db"
    "next_uuid db \<le> next_uuid db2"
    using ins tr by (auto simp: insert_ok)
  moreover from calculation(2) have "\<not> paid (order_core ord)" unfolding order_core_simps by (simp add: paid_def)
  ultimately show ?thesis
    using assms(1) payments_wf_new_order [of db db2 "order_core ord"] books_wf_new_order [of db db2 "order_core ord"]
    by (simp add: money_wf_def)
qed

lemma money_wf_route:
  assumes m: "money_wf db" and "orders_wf db" and "ord \<in> set (orders db)" and rt: "route_order a oc now ord db = Inr (ord', db')"
  shows "money_wf db'"
proof (cases "oc_compliant oc")
  case True
  with assms show ?thesis by (auto simp: route_order_def intro: money_wf_transition)
next
  case False
  with rt obtain o1 db1 where
    1: "transition ord O_COMPLIANCE_PENDING (Some a) ''compliance decision recorded'' now db = Inr (o1, db1)" and
    2: "transition o1 O_COMPLIANCE_REJECTED (Some a) ''one or more registries reported non-compliance'' now db1 = Inr (ord', db')"
    by (auto simp: route_order_def)
  have "orders_wf db1" "o1 \<in> set (orders db1)"
    using transition_wf [OF assms(2,3) 1] by (simp_all add: APPROVED_STATES_def)
  moreover have "money_wf db1" using money_wf_transition [OF assms(1-3) 1] by simp
  ultimately show ?thesis using money_wf_transition [OF _ _ _ 2] by simp
qed

lemma submit_order_money [inv_pres]:
  assumes "money_wf db" and "orders_wf db" and "submit_order a cmd cs now k rv mx ik sfx db = Inr (ord', db')"
  shows "money_wf db'"
  using assms(3)
proof (rule submit_orderE)
  fix co ta up b oc ord db1 tr db2 db3 e
  assume ins: "insert_order (new_order (reference ''ORD'' now sfx) co a cmd ta b oc now) db = Inr (ord, db1)"
    and tr: "insert_order_transition (new_transition (o_id ord) None O_SUBMITTED (Some (ac_principal_id a))
        ''submitted'' now) db1 = Inr (tr, db2)"
    and rt: "route_order a oc now ord db2 = Inr (ord', db3)"
    and au: "record_audit_event (audit_actor_of a)
        (order_record ''order.submit'' ord' (order_snapshot ord') (ac_request_id a) ik) now k rv db3 = Inr (e, db')"
  have "money_wf db2" using assms(1) ins tr by (rule money_wf_open_order)
  then have "money_wf db3"
    using open_order_wf(1,2) [OF assms(2) ins tr] rt by (rule money_wf_route)
  then show ?thesis using au by (rule money_wf_audit)
qed

lemma create_intent_money [inv_pres]:
  assumes "money_wf db" and "ord \<in> set (orders db)" and "\<not> paid ord" and "create_intent ord now sfx db = Inr db'"
  shows "money_wf db'"
proof -
  note ok = create_intent_ok [OF assms(4)]
  then have "payments_wf db'"
    using payments_wf_new_intent [of db ord db' "reference ''PAY'' now sfx" now] assms(1-3) order_maskD [of db' db]
    by (simp add: money_wf_def)
  moreover have "books_wf db'"
    using ok assms(1) order_maskD [of db' db] by (auto simp: money_wf_def intro: books_wf_cong)
  ultimately show ?thesis by (simp add: money_wf_def)
qed

lemma apply_decision_money [inv_pres]:
  assumes m: "money_wf db" and wf: "orders_wf db" and ord: "ord \<in> set (orders db)"
    and ap: "apply_decision a c now sfx ord db = Inr (ord', f, db')"
  shows "money_wf db'"
proof -
  consider (rej) "transition ord O_REJECTED (Some a) (ap_cmd_reason c) now db = Inr (ord', db')"
    | (full) o1 db1 db2 where "set (REQUIRED_APPROVALS (o_risk_tier ord)) \<subseteq> set (approved_levels db (o_id ord))"
      "transition ord O_APPROVED (Some a) ''all approvals recorded'' now db = Inr (o1, db1)"
      "transition o1 O_AWAITING_PAYMENT (Some a) ''payment intent created'' now db1 = Inr (ord', db2)"
      "create_intent ord' now sfx db2 = Inr db'"
    | (part) "db' = db"
    using ap by (auto simp: apply_decision_def list_all_iff split: if_splits)
  then show ?thesis
  proof cases
    case rej
    with m wf ord show ?thesis by (rule money_wf_transition) simp
  next
    case full
    have s1: "orders_wf db1" "o1 \<in> set (orders db1)" "o_status o1 = O_APPROVED" "money_wf db1"
      using transition_wf [OF wf ord full(2)] full(1) money_wf_transition [OF m wf ord full(2)] by auto
    have s2: "ord' \<in> set (orders db2)" "o_status ord' = O_AWAITING_PAYMENT" "money_wf db2"
      using transition_wf [OF s1(1,2) full(3)] s1(3) money_wf_transition [OF s1(4,1,2) full(3)]
      by (simp_all add: APPROVED_STATES_def)
    show ?thesis by (rule create_intent_money [OF s2(3,1) _ full(4)]) (simp add: paid_def s2(2))
  qed (use m in simp)
qed

lemma decide_approval_money [inv_pres]:
  assumes "money_wf db" and "orders_wf db" and "decide_approval a cmd now k rv ik sfx db = Inr (ord', db')"
  shows "money_wf db'"
  using assms(3)
proof (rule decide_approvalE)
  fix ord row db1 f db2 e
  assume one: "filter (\<lambda>x. o_id x = ap_cmd_order_id cmd) (orders db) = [ord]"
    and st: "o_status ord = O_AWAITING_APPROVAL" "o_submitted_by ord \<noteq> ac_principal_id a"
      "ac_principal_id a \<notin> set (approvers db (o_id ord))"
    and ins: "insert_approval (new_approval (o_id ord) cmd a now) db = Inr (row, db1)"
    and ap: "apply_decision a cmd now sfx ord db1 = Inr (ord', f, db2)"
    and au: "record_audit_event (audit_actor_of a)
         (order_record (''order.approval.'' @ approval_decision_value (ap_cmd_decision cmd)) ord'
            (order_snapshot ord' @ [(''payment_intent_created'', JBool f)]) (ac_request_id a) ik)
         now k rv db2 = Inr (e, db')"
  have ord: "ord \<in> set (orders db)" using filter_eq_singletonD [OF one] by simp
  have "orders_wf db1" using insert_approval_wf [OF assms(2) ord st ins] .
  moreover have "ord \<in> set (orders db1)" using ins ord by (auto simp: insert_ok)
  moreover have "money_wf db1" using ins assms(1) by (auto simp: insert_ok intro: money_wf_cong)
  ultimately have "money_wf db2" using apply_decision_money [OF _ _ _ ap] by blast
  then show ?thesis using au by (rule money_wf_audit)
qed

lemma cancel_order_money [inv_pres]:
  assumes "money_wf db" and "orders_wf db" and "cancel_order a oid why now k rv db = Inr (ord', db')"
  shows "money_wf db'"
  using assms(3)
proof (rule cancel_orderE)
  fix ord db1 e
  assume one: "filter (\<lambda>x. o_id x = oid) (orders db) = [ord]"
    and tr: "transition ord O_CANCELLED (Some a) why now db = Inr (ord', db1)"
    and au: "record_audit_event (audit_actor_of a)
        (order_record ''order.cancel'' ord' (order_snapshot ord') (ac_request_id a) None) now k rv db1 = Inr (e, db')"
  have "ord \<in> set (orders db)" using filter_eq_singletonD [OF one] by simp
  then have "money_wf db1" using money_wf_transition [OF assms(1,2) _ tr] by simp
  then show ?thesis using au by (rule money_wf_audit)
qed

section \<open>Ingestion keeps the invariants\<close>

lemma ingest_remittanceE:
  assumes "ingest_remittance adv now k rv db = Inr (res, db')"
  obtains
    (replay) r where "filter (\<lambda>x. rc_external_reference x = ra_external_reference adv) (payment_receipts db) = [r]"
      "replay_receipt r db = Inr res" "db' = db"
  | (fresh) intent h v rc db1 oid db2 e where
      "filter (\<lambda>x. rc_external_reference x = ra_external_reference adv) (payment_receipts db) = []"
      "scalar_one_or_none (filter (\<lambda>x. pi_reference x = ra_declared_reference adv) (payment_intents db)) = Inr intent"
      "canonical_hash (ra_raw adv) = Inr h" "ensure_utc (ra_value_date adv) = Inr v"
      "rc = new_receipt adv intent h v now (next_uuid db)" "payment_receipt_checks db rc"
      "db1 = db\<lparr>next_uuid := Suc (next_uuid db), payment_receipts := payment_receipts db @ [rc]\<rparr>"
      "apply_receipt adv intent rc now db1 = Inr (oid, db2)"
      "record_audit_event INGEST_ACTOR (ingest_record adv (classify intent adv) (rc_id rc) oid) now k rv db2 = Inr (e, db')"
      "res = \<lparr>ig_receipt_id = rc_id rc, ig_status = classify intent adv, ig_order_id = oid, ig_duplicate = False\<rparr>"
proof -
  from assms obtain existing where
    ex: "scalar_one_or_none (filter (\<lambda>x. rc_external_reference x = ra_external_reference adv) (payment_receipts db)) = Inr existing"
    by (auto simp: ingest_remittance_def)
  show thesis
  proof (cases existing)
    case (Some r)
    show ?thesis
    proof (rule replay)
      show "filter (\<lambda>x. rc_external_reference x = ra_external_reference adv) (payment_receipts db) = [r]"
        using ex Some by simp
      then show "replay_receipt r db = Inr res" "db' = db"
        using assms by (auto simp: ingest_remittance_def)
    qed
  next
    case None
    with assms ex obtain intent h v rc db1 oid db2 e where
      "scalar_one_or_none (filter (\<lambda>x. pi_reference x = ra_declared_reference adv) (payment_intents db)) = Inr intent"
      "canonical_hash (ra_raw adv) = Inr h" "ensure_utc (ra_value_date adv) = Inr v"
      "insert_payment_receipt (new_receipt adv intent h v now) db = Inr (rc, db1)"
      "apply_receipt adv intent rc now db1 = Inr (oid, db2)"
      "record_audit_event INGEST_ACTOR (ingest_record adv (classify intent adv) (rc_id rc) oid) now k rv db2 = Inr (e, db')"
      "res = \<lparr>ig_receipt_id = rc_id rc, ig_status = classify intent adv, ig_order_id = oid, ig_duplicate = False\<rparr>"
      by (auto simp: ingest_remittance_def)
    then show ?thesis
      unfolding insert_payment_receipt_ok using None ex by (intro fresh [of intent h v rc db1 oid db2 e]) auto
  qed
qed

lemma account_names [simp]:
  "BANK_COLLECTIONS \<noteq> DUTY_PAYABLE" "BANK_COLLECTIONS \<noteq> VAT_PAYABLE" "BANK_COLLECTIONS \<noteq> UNAPPLIED_RECEIPTS"
  "DUTY_PAYABLE \<noteq> BANK_COLLECTIONS" "VAT_PAYABLE \<noteq> BANK_COLLECTIONS" "UNAPPLIED_RECEIPTS \<noteq> BANK_COLLECTIONS"
  "DUTY_PAYABLE \<noteq> VAT_PAYABLE" "DUTY_PAYABLE \<noteq> UNAPPLIED_RECEIPTS" "VAT_PAYABLE \<noteq> UNAPPLIED_RECEIPTS"
  "VAT_PAYABLE \<noteq> DUTY_PAYABLE" "UNAPPLIED_RECEIPTS \<noteq> DUTY_PAYABLE" "UNAPPLIED_RECEIPTS \<noteq> VAT_PAYABLE"
  by (simp_all add: BANK_COLLECTIONS_def DUTY_PAYABLE_def VAT_PAYABLE_def UNAPPLIED_RECEIPTS_def)

lemma entries_money:
  "balance (entries_of jid now i (settlement_postings ord)) c a =
    (if c = o_currency ord then
       (if a = BANK_COLLECTIONS then o_total_minor ord else 0) - (if a = DUTY_PAYABLE then o_subtotal_minor ord else 0) -
       (if a = VAT_PAYABLE then o_vat_minor ord else 0) else 0)"
  by (simp add: settlement_postings_def entry_of_def balance_Cons signed_def)

lemma entries_quarantine:
  "balance (entries_of jid now i (quarantine_postings adv)) c a =
    (if c = ra_currency adv then
       (if a = BANK_COLLECTIONS then ra_amount_minor adv else 0) -
       (if a = UNAPPLIED_RECEIPTS then ra_amount_minor adv else 0) else 0)"
  by (simp add: quarantine_postings_def entry_of_def balance_Cons signed_def)

lemma post_journal_ledger_ok [inv_pres]:
  assumes "post_journal ref kind ps now oid rid rvs db = Inr (j, db')" and "ledger_ok db"
    and "(\<lambda>p. currency (po_amount p)) ` set ps \<subseteq> {''NGN'', ''USD''}" "po_account ` set ps \<subseteq> ACCOUNTS"
  shows "ledger_ok db'"
proof -
  note ok = post_journal_ok [OF assms(1)]
  have "le_account ` set (entries_of i now i' ps) \<subseteq> ACCOUNTS" for i i'
    using assms(4) entries_of_simps(4) [of i now i' ps] by (metis set_map)
  moreover have "j_currency j \<in> {''NGN'', ''USD''}" using ok assms(3) by (cases ps) auto
  ultimately show ?thesis
    using ok assms(2) post_journal_wf [OF _ assms(1)] by (auto simp: ledger_ok_def)
qed

text \<open>A settlement: the state after it, and what it was about.\<close>

text \<open>One message stands under a key, and if there was none before it is the one that was asked for.\<close>

definition enqueued :: "string \<Rightarrow> string \<Rightarrow> json_object \<Rightarrow> db \<Rightarrow> db \<Rightarrow> bool" where
  "enqueued k et p db db' =
     (\<exists>m. filter (\<lambda>m. m_dedupe_key m = k) (outbox_messages db') = [m] \<and>
       (k \<notin> m_dedupe_key ` set (outbox_messages db) \<longrightarrow> m_event_type m = et \<and> m_payload m = p))"

lemma enqueued_cong: "outbox_messages d = outbox_messages db \<Longrightarrow> outbox_messages d' = outbox_messages db' \<Longrightarrow> enqueued k et p d d' = enqueued k et p db db'"
  by (simp add: enqueued_def)

lemma enqueue_enqueued:
  assumes wf: "outbox_wf db" and eq: "enqueue at ai et k p av db = Inr (r, db')"
  shows "enqueued k et p db db'"
proof (cases "er_created r")
  case True
  then have "outbox_messages db' = outbox_messages db @ [new_message at ai et k p av (db_now db) (next_uuid db)]"
    and none: "k \<notin> m_dedupe_key ` set (outbox_messages db)" using enqueue_ok [OF eq] by auto
  moreover from none have "filter (\<lambda>m. m_dedupe_key m = k) (outbox_messages db) = []" by (auto simp: filter_empty_conv)
  ultimately show ?thesis by (simp add: enqueued_def)
next
  case False
  have "next_uuid db \<notin> m_id ` set (outbox_messages db)" using wf by (simp add: outbox_wf_def)
  then have "k \<in> m_dedupe_key ` set (outbox_messages db)" and db': "db' = db"
    using enqueue_ok [OF eq] False eq
    by (auto simp: enqueue_def insert_outbox_message_def Let_def insert_row_def outbox_message_checks_def unused_def split: if_splits)
  then obtain m where m: "m \<in> set (outbox_messages db)" "m_dedupe_key m = k" by auto
  then have "filter (\<lambda>x. m_dedupe_key x = k) (outbox_messages db) = [m]"
    using filter_key_singleton [of m_dedupe_key "outbox_messages db" m] wf by (simp add: outbox_wf_def)
  with m show ?thesis by (auto simp: enqueued_def db')
qed

text \<open>The request to issue the stamps of an order.\<close>

definition issue_requested :: "order \<Rightarrow> db \<Rightarrow> db \<Rightarrow> bool" where
  "issue_requested ord = enqueued (''order.issue_stamps:'' @ uuid_str (o_id ord)) ''order.issue_stamps''
     [(''order_id'', JStr (uuid_str (o_id ord))), (''quantity'', JInt (o_quantity ord))]"

text \<open>The request to review a remittance that was quarantined.\<close>

definition review_requested :: "remittance_advice \<Rightarrow> payment_intent \<Rightarrow> payment_receipt \<Rightarrow> db \<Rightarrow> db \<Rightarrow> bool" where
  "review_requested adv i rc = enqueued (''payment.mismatch:'' @ rc_external_reference rc) ''payment.mismatch_requires_review''
     [(''receipt_id'', JStr (uuid_str (rc_id rc))), (''declared_reference'', JStr (ra_declared_reference adv)),
      (''amount_minor'', JInt (ra_amount_minor adv)), (''expected_minor'', JInt (pi_amount_minor i))]"

lemma settle_ok:
  assumes "settle i rc now db = Inr (oid, db')"
  obtains ord ord' j where
    "filter (\<lambda>x. o_id x = pi_order_id i) (orders db) = [ord]" "o_status ord = O_AWAITING_PAYMENT" "oid = o_id ord"
    "ord' = ord\<lparr>o_status := O_PAID, o_updated_at := now\<rparr>" "o_currency ord \<in> {''NGN'', ''USD''}" "0 < o_vat_minor ord"
    "orders db' = update_where (\<lambda>x. o_id x = o_id ord) (\<lambda>_. ord') (orders db)"
    "payment_intents db' = update_where (\<lambda>x. pi_id x = pi_id i)
        (\<lambda>_. i\<lparr>pi_status := P_SETTLED, pi_settled_at := Some now\<rparr>) (payment_intents db)"
    "payment_receipts db' = payment_receipts db" "next_uuid db \<le> next_uuid db'"
    "journals db' = journals db @ [j]" "j_reference j = ''settlement:'' @ rc_external_reference rc"
    "\<exists>jid i'. ledger_entries db' = ledger_entries db @ entries_of jid now i' (settlement_postings ord)"
    "audit_events db' = audit_events db" "next_seq db' = next_seq db"
    "orders_wf db \<Longrightarrow> orders_wf db'" "outbox_wf db \<Longrightarrow> outbox_wf db'" "ledger_ok db \<Longrightarrow> ledger_ok db'"
    "outbox_wf db \<Longrightarrow> issue_requested ord db db'"
  using assms
proof (rule settleE)
  fix ord ord' db1 j db2 r
  assume one: "filter (\<lambda>x. o_id x = pi_order_id i) (orders db) = [ord]" "o_status ord = O_AWAITING_PAYMENT" "oid = o_id ord"
    and mv: "move_order ord O_PAID None (''settlement '' @ rc_external_reference rc) now db = Inr (ord', db1)"
    and ord': "ord' = ord\<lparr>o_status := O_PAID, o_updated_at := now\<rparr>"
    and amt: "o_currency ord \<in> {''NGN'', ''USD''}" "0 < o_vat_minor ord"
    and pj: "post_journal (''settlement:'' @ rc_external_reference rc) ''duty_settlement'' (settlement_postings ord) now
       (Some (o_id ord)) (Some (rc_id rc)) None
       (save_intent (i\<lparr>pi_status := P_SETTLED, pi_settled_at := Some now\<rparr>) db1) = Inr (j, db2)"
    and eq: "enqueue ''order'' (o_id ord) ''order.issue_stamps'' (''order.issue_stamps:'' @ uuid_str (o_id ord))
         [(''order_id'', JStr (uuid_str (o_id ord))), (''quantity'', JInt (o_quantity ord))] now db2 = Inr (r, db')"
  let ?db = "save_intent (i\<lparr>pi_status := P_SETTLED, pi_settled_at := Some now\<rparr>) db1"
  have ordin: "ord \<in> set (orders db)" using filter_eq_singletonD [OF one(1)] by simp
  obtain ms u where db': "db' = db2\<lparr>next_uuid := u, outbox_messages := ms\<rparr>" "next_uuid db2 \<le> u"
    using enqueue_frame [OF eq] by blast
  have db2: "db2 = ?db\<lparr>next_uuid := Suc (next_uuid ?db) + length (settlement_postings ord), journals := journals ?db @ [j],
      ledger_entries := ledger_entries ?db @ entries_of (next_uuid ?db) now (Suc (next_uuid ?db)) (settlement_postings ord)\<rparr>"
    and jref: "j_reference j = ''settlement:'' @ rc_external_reference rc"
    using post_journal_ok [OF pj] by simp_all
  have db1: "db1 = db\<lparr>next_uuid := Suc (next_uuid db), orders := update_where (\<lambda>x. o_id x = o_id ord) (\<lambda>_. ord') (orders db),
      order_transitions := order_transitions db1\<rparr>" using mv by (auto simp: move_order_ok)
  have fr: "journals ?db = journals db" "ledger_entries ?db = ledger_entries db" "next_uuid ?db = Suc (next_uuid db)"
    "outbox_messages ?db = outbox_messages db"
    by (simp_all add: save_intent_def, (subst db1, simp)+)
  have "orders_wf db'" if "orders_wf db"
  proof -
    have "orders_wf db1"
      using that ordin _ _ mv by (rule move_order_wf) (simp_all add: one(2) APPROVED_STATES_def assert_paid)
    then show ?thesis by (rule orders_wf_cong [rotated -1]) (use db' in \<open>simp_all add: db2 save_intent_def\<close>)
  qed
  moreover have "outbox_wf db'" "issue_requested ord db db'" if "outbox_wf db"
  proof -
    have wf2: "outbox_wf db2" using that by (auto simp: outbox_wf_def db2 fr intro: below_mono)
    then show "outbox_wf db'" using eq by (rule enqueue_wf)
    have "outbox_messages db2 = outbox_messages db" by (simp add: db2 fr)
    with enqueue_enqueued [OF wf2 eq] show "issue_requested ord db db'" by (simp add: issue_requested_def enqueued_def)
  qed
  moreover have "ledger_ok db'" if "ledger_ok db"
  proof -
    have "ledger_ok ?db" using that ledger_ok_cong [of ?db db] fr by simp
    then have "ledger_ok db2"
      using amt(1) by (intro post_journal_ledger_ok [OF pj]) (auto simp: settlement_postings_def ACCOUNTS_def)
    then show ?thesis by (rule ledger_ok_cong [rotated -1]) (use db' in simp_all)
  qed
  ultimately show thesis
    using one amt ord' jref fr db'(2)
    by (intro that [of ord ord' j]) (simp_all add: db'(1), simp_all add: db2 save_intent_def, (subst db1, auto)+)
qed

lemma owed_settle:
  assumes "orders_wf db" and "ord \<in> set (orders db)" and "\<not> paid ord" and "paid ord'"
    and "orders db' = update_where (\<lambda>x. o_id x = o_id ord) (\<lambda>_. ord') (orders db)"
  shows "owed f c (cores db') = owed f c (cores db) + (if o_currency ord' = c then f (order_core ord') else 0)"
proof -
  have dist: "distinct (map o_id (orders db))" using assms(1) by (simp add: orders_wf_def)
  then obtain xs ys where xs: "orders db = xs @ ord # ys" "ord \<notin> set xs" "ord \<notin> set ys"
    using split_list [OF assms(2)] by (metis distinct.simps(2) distinct_append distinct_map disjoint_iff list.set_intros(1))
  have "orders db' = map (\<lambda>x. if x = ord then ord' else x) (orders db)"
    unfolding assms(5) using dist assms(2) by (rule update_row_by_key)
  also have "\<dots> = xs @ ord' # ys" using xs by (auto intro!: map_idI)
  finally show ?thesis using assms(3,4) by (simp add: xs(1) owed_def)
qed

lemma intent_order:
  assumes "money_wf db" "orders_wf db" and "i \<in> set (payment_intents db)" and "ord \<in> set (orders db)" "o_id ord = pi_order_id i"
  shows "o_total_minor ord = pi_amount_minor i" "o_currency ord = pi_currency i"
    "pi_status i = (if paid ord then P_SETTLED else P_AWAITING_PAYMENT)"
proof -
  obtain y where "y \<in> set (orders db)" "o_id y = pi_order_id i" "o_total_minor y = pi_amount_minor i" "o_currency y = pi_currency i"
    "pi_status i = (if paid y then P_SETTLED else P_AWAITING_PAYMENT)"
    using assms(1,3) by (auto simp: money_wf_def payments_wf_def intent_ok_def)
  then show "o_total_minor ord = pi_amount_minor i" "o_currency ord = pi_currency i"
    "pi_status i = (if paid ord then P_SETTLED else P_AWAITING_PAYMENT)"
    using orders_wf_unique [OF assms(2,4), of y] assms(5) by simp_all
qed

lemma settle_money:
  assumes wf: "money_wf db" and owf: "orders_wf db"
    and i: "i \<in> set (payment_intents db)" and cl: "classify (Some i) adv = R_MATCHED"
    and rc: "rc = new_receipt adv (Some i) h v now n" "payment_receipt_checks db rc"
    and st: "settle i rc now (db\<lparr>next_uuid := Suc (next_uuid db), payment_receipts := payment_receipts db @ [rc]\<rparr>) = Inr (oid, db')"
  shows "money_wf db'"
  using st
proof (rule settle_ok)
  let ?db = "db\<lparr>next_uuid := Suc (next_uuid db), payment_receipts := payment_receipts db @ [rc]\<rparr>"
  fix ord ord' j
  assume one: "filter (\<lambda>x. o_id x = pi_order_id i) (orders ?db) = [ord]" "o_status ord = O_AWAITING_PAYMENT"
    and ord': "ord' = ord\<lparr>o_status := O_PAID, o_updated_at := now\<rparr>"
    and vat: "0 < o_vat_minor ord"
    and os: "orders db' = update_where (\<lambda>x. o_id x = o_id ord) (\<lambda>_. ord') (orders ?db)"
    and ps: "payment_intents db' = update_where (\<lambda>x. pi_id x = pi_id i)
        (\<lambda>_. i\<lparr>pi_status := P_SETTLED, pi_settled_at := Some now\<rparr>) (payment_intents ?db)"
    and rs: "payment_receipts db' = payment_receipts ?db" and nu: "next_uuid ?db \<le> next_uuid db'"
    and es: "\<exists>jid i'. ledger_entries db' = ledger_entries ?db @ entries_of jid now i' (settlement_postings ord)"
    and bk: "ledger_ok ?db \<Longrightarrow> ledger_ok db'"
  have ord: "ord \<in> set (orders db)" "o_id ord = pi_order_id i" using filter_eq_singletonD [OF one(1)] by simp_all
  have amt: "pi_amount_minor i = ra_amount_minor adv" "pi_currency i = ra_currency adv" "pi_status i = P_AWAITING_PAYMENT"
    using cl by (simp_all add: classify_matched)
  note ok = intent_order(1,2) [OF wf owf i ord]
  have "payments_wf db'"
    by (rule payments_wf_settle [where db = db and i = i and ord = ord and rc = rc and now = now, OF _ owf i amt(3) ord])
      (use wf rc cl amt rs ps os ord' nu in \<open>simp_all add: money_wf_def matched_for_def payment_receipt_checks_def unused_def\<close>)
  moreover have "accounts_ok db' c" for c
  proof -
    have acc: "accounts_ok db c" using wf by (simp add: money_wf_def books_wf_def)
    obtain jid i' where es: "ledger_entries db' = ledger_entries db @ entries_of jid now i' (settlement_postings ord)"
      using es by auto
    have np: "\<not> paid ord" "paid ord'" by (simp_all add: paid_def one(2) ord')
    have owe: "owed f c (cores db') = owed f c (cores db) + (if o_currency ord = c then f (order_core ord') else 0)" for f
      using owed_settle [OF owf ord(1) np, of db' f c] os by (simp add: ord')
    have tot: "o_total_minor ord = o_subtotal_minor ord + o_vat_minor ord"
      using owf ord(1) by (simp add: orders_wf_def order_ok_def priced_def)
    have "trial_balance c (entries_of jid now i' (settlement_postings ord)) = 0"
      by (simp add: settlement_postings_def trial_balance_def entry_of_def signed_def tot)
    with acc show ?thesis
      using ok amt cl by (simp add: accounts_ok_def es owe rs rc(1) entries_money ord' account_names)
  qed
  moreover have "ledger_ok ?db" using wf ledger_ok_cong [of ?db db] by (simp add: money_wf_def books_wf_def)
  ultimately show ?thesis using bk by (simp add: money_wf_def books_wf_def)
qed

lemma quarantine_money:
  assumes wf: "money_wf db" and i: "i \<in> set (payment_intents db)" and cl: "classify (Some i) adv = R_AMOUNT_MISMATCH"
    and rc: "rc = new_receipt adv (Some i) h v now n" "payment_receipt_checks db rc"
    and st: "quarantine adv i rc now (db\<lparr>next_uuid := Suc (next_uuid db), payment_receipts := payment_receipts db @ [rc]\<rparr>)
      = Inr (oid, db')"
  shows "money_wf db' \<and> (orders_wf db \<longrightarrow> orders_wf db') \<and> (outbox_wf db \<longrightarrow> outbox_wf db') \<and>
    audit_events db' = audit_events db \<and> next_seq db' = next_seq db \<and> orders db' = orders db"
  using st
proof (rule quarantineE)
  let ?db = "db\<lparr>next_uuid := Suc (next_uuid db), payment_receipts := payment_receipts db @ [rc]\<rparr>"
  fix j db1
  assume cur: "ra_currency adv \<in> {''NGN'', ''USD''}"
    and pj: "post_journal (''unapplied:'' @ rc_external_reference rc) ''unapplied_receipt'' (quarantine_postings adv) now
       None (Some (rc_id rc)) None ?db = Inr (j, db1)"
    and fr: "\<exists>u ms. db' = db1\<lparr>next_uuid := u, outbox_messages := ms\<rparr> \<and> next_uuid db1 \<le> u \<and> (outbox_wf db1 \<longrightarrow> outbox_wf db')"
  then obtain u ms where db': "db' = db1\<lparr>next_uuid := u, outbox_messages := ms\<rparr>" "next_uuid db1 \<le> u"
    and ob: "outbox_wf db1 \<longrightarrow> outbox_wf db'" by blast
  define es where "es = entries_of (next_uuid ?db) now (Suc (next_uuid ?db)) (quarantine_postings adv)"
  have db1: "db1 = ?db\<lparr>next_uuid := Suc (next_uuid ?db) + length (quarantine_postings adv), journals := journals ?db @ [j],
      ledger_entries := ledger_entries ?db @ es\<rparr>" using post_journal_ok [OF pj] by (simp add: es_def)
  have "payments_wf db'"
    by (rule payments_wf_other_receipt [of db db' rc])
      (use wf rc cl i db'(2) in \<open>auto simp: db' db1 money_wf_def payment_receipt_checks_def unused_def\<close>)
  moreover have "ledger_ok db1"
  proof (rule post_journal_ledger_ok [OF pj])
    show "ledger_ok ?db" using wf ledger_ok_cong [of ?db db] by (simp add: money_wf_def books_wf_def)
  qed (use cur in \<open>auto simp: quarantine_postings_def ACCOUNTS_def\<close>)
  then have "ledger_ok db'" by (rule ledger_ok_cong [rotated -1]) (use db' in simp_all)
  moreover have "accounts_ok db' c" for c
  proof -
    have "trial_balance c es = 0"
      by (simp add: es_def quarantine_postings_def trial_balance_def entry_of_def signed_def)
    moreover have "accounts_ok db c" using wf by (simp add: money_wf_def books_wf_def)
    ultimately show ?thesis
      using cl by (simp add: accounts_ok_def db'(1) db1) (simp add: es_def rc(1) entries_quarantine)
  qed
  moreover have "outbox_wf db \<longrightarrow> outbox_wf db1" by (auto simp: outbox_wf_def db1 intro: below_mono)
  moreover have "orders_wf db \<longrightarrow> orders_wf db'"
    using db'(2) by (intro impI, elim orders_wf_cong [rotated -1]) (simp_all add: db'(1) db1)
  ultimately show ?thesis using ob by (simp add: money_wf_def books_wf_def db'(1)) (simp add: db1)
qed

lemma apply_receipt_wf:
  assumes wf: "money_wf db" "orders_wf db" "outbox_wf db"
    and lk: "scalar_one_or_none (filter (\<lambda>x. pi_reference x = ra_declared_reference adv) (payment_intents db)) = Inr intent"
    and rc: "rc = new_receipt adv intent h v now n" "payment_receipt_checks db rc"
    and ap: "apply_receipt adv intent rc now
      (db\<lparr>next_uuid := Suc (next_uuid db), payment_receipts := payment_receipts db @ [rc]\<rparr>) = Inr (oid, db')"
  shows "money_wf db' \<and> orders_wf db' \<and> outbox_wf db' \<and> audit_events db' = audit_events db \<and> next_seq db' = next_seq db"
proof (cases intent)
  case None
  let ?db = "db\<lparr>next_uuid := Suc (next_uuid db), payment_receipts := payment_receipts db @ [rc]\<rparr>"
  have db': "db' = ?db" using ap None by (simp add: apply_receipt_def)
  have "payments_wf db'"
    by (rule payments_wf_other_receipt [of db db' rc])
      (use wf rc None db' in \<open>auto simp: money_wf_def payment_receipt_checks_def unused_def\<close>)
  moreover have "accounts_ok db' c = accounts_ok db c" for c by (simp add: accounts_ok_def db' rc(1) None)
  then have "books_wf db'"
    using wf(1) ledger_ok_cong [of db' db] by (simp add: money_wf_def books_wf_def db')
  moreover have "orders_wf db'" using wf(2) by (rule orders_wf_cong [rotated -1]) (simp_all add: db')
  moreover have "outbox_wf db'" using wf(3) by (simp add: outbox_wf_def db')
  ultimately show ?thesis by (simp add: money_wf_def db')
next
  case (Some i)
  then have i: "i \<in> set (payment_intents db)" using lk filter_eq_singletonD by fastforce
  let ?db = "db\<lparr>next_uuid := Suc (next_uuid db), payment_receipts := payment_receipts db @ [rc]\<rparr>"
  show ?thesis
  proof (cases "classify (Some i) adv = R_MATCHED")
    case True
    with ap Some obtain o' where st: "settle i rc now ?db = Inr (o', db')" by (auto simp: apply_receipt_def)
    have "orders_wf ?db" using wf(2) by (rule orders_wf_cong [rotated -1]) simp_all
    moreover have "outbox_wf ?db" using wf(3) by (simp add: outbox_wf_def)
    ultimately have "orders_wf db' \<and> outbox_wf db' \<and> audit_events db' = audit_events db \<and> next_seq db' = next_seq db"
      by (rule_tac settle_ok [OF st]) simp
    with settle_money [OF wf(1,2) i True _ _ st] rc Some show ?thesis by blast
  next
    case False
    with ap Some obtain o' where st: "quarantine adv i rc now ?db = Inr (o', db')" by (auto simp: apply_receipt_def)
    have "classify (Some i) adv = R_AMOUNT_MISMATCH" using False classify_Some by blast
    from quarantine_money [OF wf(1) i this _ _ st] rc Some wf show ?thesis by blast
  qed
qed

lemma ingest_remittance_wf [inv_pres]:
  assumes "money_wf db" "orders_wf db" "outbox_wf db" "audit_intact k db"
    and "ingest_remittance adv now k rv db = Inr (res, db')"
  shows "money_wf db' \<and> orders_wf db' \<and> outbox_wf db' \<and> audit_intact k db'"
  using assms(5)
proof (cases rule: ingest_remittanceE)
  case replay
  with assms show ?thesis by simp
next
  case (fresh intent h v rc db1 oid db2 e)
  have "money_wf db2 \<and> orders_wf db2 \<and> outbox_wf db2 \<and> audit_events db2 = audit_events db \<and> next_seq db2 = next_seq db"
    using apply_receipt_wf [OF assms(1-3) fresh(2,5,6)] fresh(7,8) by simp
  then show ?thesis
    using fresh(9) assms(4) record_audit_event_db [OF fresh(9)] audit_intact_cong [of db2 db k]
      record_audit_event_intact [OF _ fresh(9)]
    by (auto intro: money_wf_audit orders_wf_audit simp: outbox_wf_def)
qed

section \<open>A sample database\<close>

text \<open>
  One verified company, one tariff and one approved order over 10 stamps at 50.00 with VAT, with its
  history up to a given status and its payment intent: the input of the witnesses.
\<close>

definition sample_company :: company where
  "sample_company = \<lparr>co_id = 1, co_tin = ''12345678'', co_name = ''Acme'', co_kyb_status = K_VERIFIED,
     co_kyb_verified_at = None, co_risk_tier = LOW, co_created_at = 0\<rparr>"

definition sample_principal :: "uuid \<Rightarrow> role \<Rightarrow> principal" where
  "sample_principal i r = \<lparr>pr_id = i, pr_subject = role_value r, pr_role = r,
     pr_company_id = (if r = REQUESTER then Some 1 else None), pr_display_name = ''x'', pr_active = True, pr_created_at = 0\<rparr>"

definition sample_order :: "order_status \<Rightarrow> int \<Rightarrow> order" where
  "sample_order st vat = \<lparr>o_id = 5, o_order_ref = ''ORD-2026-AAAA'', o_company_id = 1, o_submitted_by = 2,
     o_product_category = ''beverages'', o_quantity = 10, o_tariff_id = 4, o_unit_price_minor = 5000,
     o_subtotal_minor = 50000, o_vat_bps = 750, o_vat_minor = vat, o_total_minor = 50000 + vat, o_currency = ''NGN'',
     o_status = st, o_risk_tier = LOW, o_delivery_state = ''Lagos'', o_delivery_address = ''1 Road'',
     o_compliance_evidence = None, o_created_at = 0, o_updated_at = 0\<rparr>"

definition sample_history :: "order_status list \<Rightarrow> order_transition list" where
  "sample_history hs = map (\<lambda>(i, s). new_transition 5 None s None ''moved'' 0 i) (zip [10 ..< 10 + length hs] hs)"

definition sample_approval :: approval where
  "sample_approval = \<lparr>ap_id = 6, ap_order_id = 5, ap_level = L_ANALYST, ap_decision = D_APPROVED,
     ap_actor_principal_id = 3, ap_reason = ''ok'', ap_created_at = 0\<rparr>"

definition sample_intent :: "int \<Rightarrow> payment_intent" where
  "sample_intent vat = new_intent (sample_order O_AWAITING_PAYMENT vat) ''PAY-2026-BBBB'' 0 7"

definition sample_db :: "order_status list \<Rightarrow> int \<Rightarrow> db" where
  "sample_db hs vat = empty_db\<lparr>next_uuid := 30, companies := [sample_company],
     principals := [sample_principal 2 REQUESTER, sample_principal 3 ANALYST, sample_principal 8 OPERATOR],
     orders := [sample_order (last hs) vat], order_transitions := sample_history hs, approvals := [sample_approval],
     payment_intents := [sample_intent vat]\<rparr>"

definition to_payment :: "order_status list" where
  "to_payment = [O_SUBMITTED, O_AWAITING_APPROVAL, O_APPROVED, O_AWAITING_PAYMENT]"

definition sample_advice :: "int \<Rightarrow> remittance_advice" where
  "sample_advice amount = \<lparr>ra_external_reference = ''BANK-1'', ra_declared_reference = ''PAY-2026-BBBB'',
     ra_amount_minor = amount, ra_currency = ''NGN'', ra_value_date = Aware 0 0, ra_raw = [(''amount'', JInt amount)]\<rparr>"

lemmas sample_defs = sample_db_def sample_company_def sample_principal_def sample_order_def sample_history_def
  sample_approval_def sample_intent_def sample_advice_def to_payment_def new_transition_def new_intent_def

lemma legal_to_payment: "legal_path assert_order_transition to_payment"
  "legal_path assert_order_transition (to_payment @ [O_CANCELLED])"
  "legal_path assert_order_transition (to_payment @ [O_PAID])"
  "legal_path assert_order_transition (to_payment @ [O_PAID, O_ISSUING])"
  by (simp_all add: to_payment_def assert_order_transition_iff)

lemma sample_orders_wf:
  assumes "0 \<le> vat" and "hs \<in> {to_payment, to_payment @ [O_CANCELLED], to_payment @ [O_PAID], to_payment @ [O_PAID, O_ISSUING]}"
  shows "orders_wf (sample_db hs vat)"
proof -
  have hist: "history (sample_db hs vat) 5 = hs"
    by (simp add: history_def sample_db_def sample_history_def filter_map comp_def case_prod_beta map_snd_zip [unfolded snd_def])
  have ne: "butlast hs @ [last hs] = hs" "hd hs = O_SUBMITTED" "legal_path assert_order_transition hs"
    using assms(2) legal_to_payment by (auto simp: to_payment_def)
  then have "history_ok (sample_db hs vat) (sample_order (last hs) vat)"
    unfolding history_ok_def using hist
    by (intro exI [of _ "butlast hs"]) (simp add: sample_order_def)
  moreover have "below 30 (map ot_order_id (order_transitions (sample_db hs vat)))"
    by (auto simp: below_def list_all_iff sample_db_def sample_history_def)
  moreover have "length hs \<le> 20" using assms(2) by (auto simp: to_payment_def)
  then have "below 30 (map ot_id (order_transitions (sample_db hs vat)))"
    by (auto simp: below_def list_all_iff sample_db_def sample_history_def dest!: set_zip_leftD)
  moreover have "approvers (sample_db hs vat) 5 = [3]" "approved_levels (sample_db hs vat) 5 = [L_ANALYST]"
    by (simp_all add: approvers_def approved_levels_def sample_db_def sample_approval_def)
  then have "approvals_ok (sample_db hs vat) (sample_order (last hs) vat)"
    by (simp add: approvals_ok_def sample_order_def)
  moreover have "priced (sample_order (last hs) vat)" using assms(1) by (simp add: priced_def sample_order_def)
  ultimately show "orders_wf (sample_db hs vat)"
    unfolding orders_wf_def order_ok_def by (simp add: sample_db_def) (simp add: sample_order_def sample_approval_def)
qed

lemma sample_wf:
  assumes "0 \<le> vat" and "hs = to_payment \<or> hs = to_payment @ [O_CANCELLED]"
  shows "orders_wf (sample_db hs vat)" "money_wf (sample_db hs vat)" "outbox_wf (sample_db hs vat)"
    "audit_intact k (sample_db hs vat)"
proof -
  show "orders_wf (sample_db hs vat)" using assms by (intro sample_orders_wf) auto
  show "money_wf (sample_db hs vat)"
    using assms(2)
    by (auto simp: money_wf_def payments_wf_def books_wf_def ledger_ok_def ledger_wf_def accounts_ok_def sample_db_def
        sample_intent_def empty_db_def intent_ok_def receipts_ok_def paid_def to_payment_def sample_order_def order_core_def
        owed_def received_def trial_balance_def journal_sum_def)
  show "outbox_wf (sample_db hs vat)" "audit_intact k (sample_db hs vat)"
    by (simp_all add: outbox_wf_def audit_intact_def audit_wf_def sample_db_def empty_db_def)
qed

lemma sample_lookup:
  "filter (\<lambda>x. rc_external_reference x = ra_external_reference (sample_advice a)) (payment_receipts (sample_db hs vat)) = []"
  "filter (\<lambda>x. pi_reference x = ra_declared_reference (sample_advice a)) (payment_intents (sample_db hs vat)) = [sample_intent vat]"
  "ensure_utc (ra_value_date (sample_advice a)) = Inr 0"
  by (simp_all add: sample_db_def empty_db_def sample_advice_def sample_intent_def ensure_utc_ok)

lemma INGEST_fits: "audit_fits INGEST_ACTOR (ingest_record adv st i oid) ''r1''"
  by (simp add: audit_fits_def INGEST_ACTOR_def ingest_record_def varchar_def opt_col_def json_obj_opt_def)

text \<open>On the sample, ingestion comes down to the treatment of the new receipt.\<close>

lemma sample_ingest:
  assumes "canonical_hash (ra_raw (sample_advice a)) = Inr h"
    and "rc = new_receipt (sample_advice a) (Some (sample_intent vat)) h 0 0 30"
    and "insert_payment_receipt (new_receipt (sample_advice a) (Some (sample_intent vat)) h 0 0) (sample_db hs vat) = Inr (rc, db1)"
  shows "ingest_remittance (sample_advice a) 0 k ''r1'' (sample_db hs vat) =
    bind_res (apply_receipt (sample_advice a) (Some (sample_intent vat)) rc 0 db1) (\<lambda>(order_id, db).
    bind_res (record_audit_event INGEST_ACTOR
        (ingest_record (sample_advice a) (classify (Some (sample_intent vat)) (sample_advice a)) (rc_id rc) order_id)
        0 k ''r1'' db) (\<lambda>(e, db).
    Inr (\<lparr>ig_receipt_id = rc_id rc, ig_status = classify (Some (sample_intent vat)) (sample_advice a),
          ig_order_id = order_id, ig_duplicate = False\<rparr>, db)))"
  unfolding ingest_remittance_def sample_lookup using assms by simp

lemma sample_receipt:
  assumes "canonical_hash (ra_raw (sample_advice a)) = Inr h" and "varchar 64 h" and "0 < a" "a < 1000000"
  shows "insert_payment_receipt (new_receipt (sample_advice a) (Some (sample_intent vat)) h 0 0) (sample_db hs vat) =
    Inr (new_receipt (sample_advice a) (Some (sample_intent vat)) h 0 0 30,
      (sample_db hs vat)\<lparr>next_uuid := 31,
        payment_receipts := [new_receipt (sample_advice a) (Some (sample_intent vat)) h 0 0 30]\<rparr>)"
  using assms
  by (simp add: insert_payment_receipt_def Let_def insert_row_def payment_receipt_types_def payment_receipt_checks_def)
    (simp add: varchar_def bigint_def opt_col_def unused_def foreign_key_def sample_db_def empty_db_def new_receipt_def
      sample_advice_def sample_intent_def)

text \<open>The remittance over the exact total of the sample order is ingested.\<close>

lemma sample_settles:
  "\<exists>res db'. ingest_remittance (sample_advice 53750) 0 k ''r1'' (sample_db to_payment 3750) = Inr (res, db') \<and>
    \<not> ig_duplicate res \<and> ig_status res = R_MATCHED \<and> ig_order_id res = Some 5 \<and>
    orders db' = [sample_order O_PAID 3750] \<and> companies db' = [sample_company] \<and> stamps db' = [] \<and> stamp_batches db' = [] \<and>
    serial_counters db' = [] \<and> (\<exists>e. audit_events db' = [e] \<and> ae_event_id e < next_uuid db')"
proof -
  let ?adv = "sample_advice 53750" and ?i = "sample_intent 3750" and ?db = "sample_db to_payment 3750"
  obtain h where h: "canonical_hash (ra_raw ?adv) = Inr h" "varchar 64 h"
    using canonical_hash_total [of "ra_raw ?adv"] by (auto simp: sample_advice_def)
  define rc where "rc = new_receipt ?adv (Some ?i) h 0 0 30"
  define db1 where "db1 = ?db\<lparr>next_uuid := 31, payment_receipts := [rc]\<rparr>"
  have ins: "insert_payment_receipt (new_receipt ?adv (Some ?i) h 0 0) ?db = Inr (rc, db1)"
    using sample_receipt [OF h] by (simp add: rc_def db1_def)
  have cl: "classify (Some ?i) ?adv = R_MATCHED"
    by (simp add: classify_def sample_intent_def sample_order_def sample_advice_def)
  have "\<exists>db2. settle ?i rc 0 db1 = Inr (5, db2) \<and> audit_events db2 = [] \<and> orders db2 = [sample_order O_PAID 3750] \<and>
      companies db2 = [sample_company] \<and> stamps db2 = [] \<and> stamp_batches db2 = [] \<and> serial_counters db2 = []"
    by (simp add: settle_def db1_def rc_def sample_defs to_payment_def Let_def assert_order_transition_iff move_order_def
        save_order_def save_intent_def posting_of_def Posting_def Money_def exponent_for_def CURRENCY_EXPONENTS_def
        post_journal_def posted_def enqueue_def new_message_def except_integrity_def db_eval BANK_COLLECTIONS_def
        DUTY_PAYABLE_def VAT_PAYABLE_def uuid_str_varchar)
  then obtain db2 where st: "settle ?i rc 0 db1 = Inr (5, db2)" "audit_events db2 = []" "orders db2 = [sample_order O_PAID 3750]"
      "companies db2 = [sample_company]" "stamps db2 = []" "stamp_batches db2 = []" "serial_counters db2 = []" by blast
  obtain e where au: "record_audit_event INGEST_ACTOR (ingest_record ?adv R_MATCHED (rc_id rc) (Some 5)) 0 k ''r1'' db2 =
      Inr (e, db2\<lparr>next_uuid := Suc (next_uuid db2), next_seq := next_seq db2 + 1, audit_events := [e]\<rparr>)"
    using record_audit_event_first [OF st(2) INGEST_fits] by blast
  then have "ae_event_id e = next_uuid db2" unfolding record_audit_event_ok by auto
  with au show ?thesis
    using sample_ingest [OF h(1) rc_def ins] st by (simp add: apply_receipt_def cl)
qed

section \<open>The effect of the branches on orders and accounts\<close>

text \<open>The balances of a currency change by the listed amounts; every other balance stays.\<close>

definition moved :: "db \<Rightarrow> db \<Rightarrow> string \<Rightarrow> (string \<times> int) list \<Rightarrow> bool" where
  "moved db db' cur ms =
     (\<forall>c a. balance (ledger_entries db') c a = balance (ledger_entries db) c a +
        (if c = cur then (\<Sum>(b, x) \<leftarrow> ms. if b = a then x else 0) else 0))"

lemma moved_cong: "ledger_entries d = ledger_entries db \<Longrightarrow> ledger_entries d' = ledger_entries db' \<Longrightarrow> moved d d' = moved db db'"
  by (simp add: moved_def fun_eq_iff)

text \<open>What a matching remittance does: the order is paid, its intent settled, the money booked and the stamps requested.\<close>

definition settled :: "remittance_advice \<Rightarrow> payment_intent \<Rightarrow> order \<Rightarrow> instant \<Rightarrow> db \<Rightarrow> db \<Rightarrow> bool" where
  "settled adv i ord now db db' =
     (pi_status i = P_AWAITING_PAYMENT \<and> pi_order_id i = o_id ord \<and> o_status ord = O_AWAITING_PAYMENT \<and>
      pi_amount_minor i = ra_amount_minor adv \<and> pi_currency i = ra_currency adv \<and>
      o_total_minor ord = ra_amount_minor adv \<and> o_currency ord = ra_currency adv \<and>
      orders db' = update_where (\<lambda>x. o_id x = o_id ord) (\<lambda>x. x\<lparr>o_status := O_PAID, o_updated_at := now\<rparr>) (orders db) \<and>
      payment_intents db' = update_where (\<lambda>x. pi_id x = pi_id i) (\<lambda>x. x\<lparr>pi_status := P_SETTLED, pi_settled_at := Some now\<rparr>) (payment_intents db) \<and>
      moved db db' (o_currency ord)
        [(BANK_COLLECTIONS, o_total_minor ord), (DUTY_PAYABLE, - o_subtotal_minor ord), (VAT_PAYABLE, - o_vat_minor ord)] \<and>
      issue_requested ord db db')"

text \<open>What a remittance does that names an intent and does not match it: the money is held and a review requested.\<close>

definition unapplied :: "remittance_advice \<Rightarrow> payment_intent \<Rightarrow> payment_receipt \<Rightarrow> db \<Rightarrow> db \<Rightarrow> bool" where
  "unapplied adv i r db db' =
     ((pi_amount_minor i \<noteq> ra_amount_minor adv \<or> pi_currency i \<noteq> ra_currency adv \<or> pi_status i \<noteq> P_AWAITING_PAYMENT) \<and>
      orders db' = orders db \<and> payment_intents db' = payment_intents db \<and>
      moved db db' (ra_currency adv) [(BANK_COLLECTIONS, ra_amount_minor adv), (UNAPPLIED_RECEIPTS, - ra_amount_minor adv)] \<and>
      review_requested adv i r db db')"

lemma settle_effect:
  assumes wf: "money_wf db" "orders_wf db" "outbox_wf db" and i: "i \<in> set (payment_intents db)" and cl: "classify (Some i) adv = R_MATCHED"
    and same: "db1 = db\<lparr>next_uuid := Suc (next_uuid db), payment_receipts := rs\<rparr>" and st: "settle i rc now db1 = Inr (oid, db')"
  shows "payment_receipts db' = rs \<and> (\<exists>ord \<in> set (orders db). oid = o_id ord \<and> settled adv i ord now db db')"
  using st
proof (rule settle_ok)
  fix ord ord' j
  assume one: "filter (\<lambda>x. o_id x = pi_order_id i) (orders db1) = [ord]" "o_status ord = O_AWAITING_PAYMENT" "oid = o_id ord"
    and os: "orders db' = update_where (\<lambda>x. o_id x = o_id ord) (\<lambda>_. ord') (orders db1)"
      "ord' = ord\<lparr>o_status := O_PAID, o_updated_at := now\<rparr>"
    and ps: "payment_intents db' = update_where (\<lambda>x. pi_id x = pi_id i)
        (\<lambda>_. i\<lparr>pi_status := P_SETTLED, pi_settled_at := Some now\<rparr>) (payment_intents db1)"
    and rs: "payment_receipts db' = payment_receipts db1"
    and es: "\<exists>jid i'. ledger_entries db' = ledger_entries db1 @ entries_of jid now i' (settlement_postings ord)"
    and req: "outbox_wf db1 \<Longrightarrow> issue_requested ord db1 db'"
  obtain jid i' where es: "ledger_entries db' = ledger_entries db @ entries_of jid now i' (settlement_postings ord)"
    using es same by auto
  have ord: "ord \<in> set (orders db)" "o_id ord = pi_order_id i"
    using filter_eq_singletonD [OF one(1)] same by simp_all
  have amt: "o_total_minor ord = ra_amount_minor adv" "o_currency ord = ra_currency adv" "pi_status i = P_AWAITING_PAYMENT"
    "pi_amount_minor i = ra_amount_minor adv" "pi_currency i = ra_currency adv"
    using intent_order [OF wf(1,2) i ord] cl by (simp_all add: classify_matched)
  have "orders db' = update_where (\<lambda>x. o_id x = o_id ord) (\<lambda>x. x\<lparr>o_status := O_PAID, o_updated_at := now\<rparr>) (orders db)"
    unfolding os using orders_wf_unique [OF wf(2) ord(1)] same by (auto simp: update_where_def dest: sym)
  moreover have "x = i" if "x \<in> set (payment_intents db)" "pi_id x = pi_id i" for x
    using that i wf(1) by (auto simp: money_wf_def payments_wf_def distinct_map dest: inj_onD)
  then have "payment_intents db' = update_where (\<lambda>x. pi_id x = pi_id i) (\<lambda>x. x\<lparr>pi_status := P_SETTLED, pi_settled_at := Some now\<rparr>) (payment_intents db)"
    unfolding ps using same by (auto simp: update_where_def)
  moreover have "outbox_wf db1" using wf(3) same by (auto simp: outbox_wf_def intro: below_mono)
  then have "issue_requested ord db db'" using req enqueued_cong [of db1 db db' db'] same by (simp add: issue_requested_def)
  moreover have "moved db db' (o_currency ord)
      [(BANK_COLLECTIONS, o_total_minor ord), (DUTY_PAYABLE, - o_subtotal_minor ord), (VAT_PAYABLE, - o_vat_minor ord)]"
    by (simp add: moved_def entries_money es)
  ultimately show ?thesis using rs same ord amt one(2,3) by (intro conjI bexI [of _ ord]) (simp_all add: settled_def)
qed

lemma quarantine_effect:
  assumes "quarantine adv i rc now db = Inr (oid, db')"
  shows "orders db' = orders db \<and> payment_intents db' = payment_intents db \<and> payment_receipts db' = payment_receipts db \<and>
    moved db db' (ra_currency adv) [(BANK_COLLECTIONS, ra_amount_minor adv), (UNAPPLIED_RECEIPTS, - ra_amount_minor adv)]"
  using assms
proof (rule quarantineE)
  fix j db1
  assume pj: "post_journal (''unapplied:'' @ rc_external_reference rc) ''unapplied_receipt'' (quarantine_postings adv) now
      None (Some (rc_id rc)) None db = Inr (j, db1)"
    and "\<exists>u ms. db' = db1\<lparr>next_uuid := u, outbox_messages := ms\<rparr> \<and> next_uuid db1 \<le> u \<and> (outbox_wf db1 \<longrightarrow> outbox_wf db')"
  then obtain u ms where "db' = db1\<lparr>next_uuid := u, outbox_messages := ms\<rparr>" by blast
  with post_journal_ok [OF pj] show ?thesis by (simp add: moved_def entries_quarantine)
qed

lemma quarantine_requests:
  assumes "outbox_wf db" and "quarantine adv i rc now db = Inr (oid, db')"
  shows "review_requested adv i rc db db'"
proof -
  obtain j db1 r where pj: "post_journal (''unapplied:'' @ rc_external_reference rc) ''unapplied_receipt'' (quarantine_postings adv) now
      None (Some (rc_id rc)) None db = Inr (j, db1)"
    and eq: "enqueue ''payment_receipt'' (rc_id rc) ''payment.mismatch_requires_review'' (''payment.mismatch:'' @ rc_external_reference rc)
      [(''receipt_id'', JStr (uuid_str (rc_id rc))), (''declared_reference'', JStr (ra_declared_reference adv)),
       (''amount_minor'', JInt (ra_amount_minor adv)), (''expected_minor'', JInt (pi_amount_minor i))] now db1 = Inr (r, db')"
    using assms(2) unfolding quarantine_def by (auto simp: posting_of_ok quarantine_postings_def)
  have db1: "outbox_messages db1 = outbox_messages db" "next_uuid db \<le> next_uuid db1"
    using post_journal_ok [OF pj] by simp_all
  then have "outbox_wf db1" using assms(1) by (auto simp: outbox_wf_def intro: below_mono)
  from enqueue_enqueued [OF this eq] show ?thesis by (simp add: review_requested_def enqueued_def db1)
qed

lemma apply_receipt_frame:
  assumes "apply_receipt adv intent rc now db = Inr (oid, db')"
  shows "payment_receipts db' = payment_receipts db \<and> oid = map_option pi_order_id intent \<and>
    (\<forall>i. intent = Some i \<longrightarrow> i \<in> set (payment_intents db) \<longrightarrow>
      (\<exists>i' \<in> set (payment_intents db'). pi_id i' = pi_id i \<and> pi_order_id i' = pi_order_id i))"
proof (cases intent)
  case None
  with assms show ?thesis by (simp add: apply_receipt_def)
next
  case (Some i)
  show ?thesis
  proof (cases "classify (Some i) adv = R_MATCHED")
    case True
    with assms Some obtain o' where st: "settle i rc now db = Inr (o', db')" "oid = Some o'"
      by (auto simp: apply_receipt_def)
    show ?thesis using st(1)
    proof (rule settle_ok)
      fix ord
      assume "filter (\<lambda>x. o_id x = pi_order_id i) (orders db) = [ord]" "o' = o_id ord"
        "payment_receipts db' = payment_receipts db"
        and ps: "payment_intents db' = update_where (\<lambda>x. pi_id x = pi_id i)
          (\<lambda>_. i\<lparr>pi_status := P_SETTLED, pi_settled_at := Some now\<rparr>) (payment_intents db)"
      moreover have "i\<lparr>pi_status := P_SETTLED, pi_settled_at := Some now\<rparr> \<in> set (payment_intents db')"
        if "i \<in> set (payment_intents db)" using that unfolding ps set_update_where by (rule rev_image_eqI) simp
      ultimately show ?thesis using st(2) Some
        by (auto dest: filter_eq_singletonD
            intro!: bexI [of _ "i\<lparr>pi_status := P_SETTLED, pi_settled_at := Some now\<rparr>"])
    qed
  next
    case False
    with assms Some obtain o' where st: "quarantine adv i rc now db = Inr (o', db')" "oid = Some o'"
      by (auto simp: apply_receipt_def)
    have "o' = pi_order_id i" using st(1) by (rule quarantineE)
    with st(2) Some quarantine_effect [OF st(1)] show ?thesis by auto
  qed
qed

section \<open>Properties\<close>

text \<open>
  C12. Ingestion of a remittance, case by case.  A remittance on record changes nothing and is answered
  with the recorded receipt.  A new one adds exactly one receipt, over the declared amount and linked to the
  intent with the declared reference, if there is one.  If that intent waits for exactly this amount in this
  currency, it becomes settled, its order moves from awaiting payment to paid, the ledger moves the total from
  the duty and VAT accounts to collections, and the issuance of the stamps is requested.  Any other remittance
  for a known reference leaves orders and intents alone, is held as an unapplied liability and a review is
  requested.  One for an unknown reference touches no order, no intent, no account and no message.
\<close>

theorem ingest_remittance_effect:
  assumes "money_wf db" "orders_wf db" "outbox_wf db" and "ingest_remittance adv now k rv db = Inr (res, db')"
  shows "(ig_duplicate res \<and> db' = db \<and> (\<exists>r \<in> set (payment_receipts db). rc_external_reference r = ra_external_reference adv \<and>
        ig_receipt_id res = rc_id r \<and> ig_status res = rc_status r)) \<or>
    (\<not> ig_duplicate res \<and> ra_external_reference adv \<notin> rc_external_reference ` set (payment_receipts db) \<and>
     (\<exists>r. payment_receipts db' = payment_receipts db @ [r] \<and> rc_id r = ig_receipt_id res \<and> rc_status r = ig_status res \<and>
        rc_external_reference r = ra_external_reference adv \<and> rc_amount_minor r = ra_amount_minor adv \<and> rc_currency r = ra_currency adv \<and>
        (case ig_status res of
           R_MATCHED \<Rightarrow> \<exists>i \<in> set (payment_intents db). \<exists>ord \<in> set (orders db).
             pi_reference i = ra_declared_reference adv \<and> rc_payment_intent_id r = Some (pi_id i) \<and>
             ig_order_id res = Some (o_id ord) \<and> settled adv i ord now db db'
         | R_AMOUNT_MISMATCH \<Rightarrow> \<exists>i \<in> set (payment_intents db).
             pi_reference i = ra_declared_reference adv \<and> rc_payment_intent_id r = Some (pi_id i) \<and>
             ig_order_id res = Some (pi_order_id i) \<and> unapplied adv i r db db'
         | R_UNKNOWN_REFERENCE \<Rightarrow> ra_declared_reference adv \<notin> pi_reference ` set (payment_intents db) \<and>
             rc_payment_intent_id r = None \<and> ig_order_id res = None \<and> orders db' = orders db \<and>
             payment_intents db' = payment_intents db \<and> ledger_entries db' = ledger_entries db \<and> outbox_messages db' = outbox_messages db
         | R_DUPLICATE \<Rightarrow> False)))"
  using assms(4)
proof (cases rule: ingest_remittanceE)
  case (replay r)
  then have "ig_duplicate res \<and> ig_receipt_id res = rc_id r \<and> ig_status res = rc_status r"
    by (auto simp: replay_receipt_def)
  with replay filter_eq_singletonD [OF replay(1)] show ?thesis by blast
next
  case (fresh intent h v rc db1 oid db2 e)
  note au = record_audit_event_db [OF fresh(9)]
  have none: "ra_external_reference adv \<notin> rc_external_reference ` set (payment_receipts db)"
    using fresh(1) by (auto simp: filter_empty_conv)
  have rc: "rc_id rc = ig_receipt_id res" "rc_external_reference rc = ra_external_reference adv" "rc_amount_minor rc = ra_amount_minor adv"
    "rc_currency rc = ra_currency adv" "rc_payment_intent_id rc = map_option pi_id intent" "rc_status rc = classify intent adv"
    "ig_status res = classify intent adv" "ig_order_id res = oid" "\<not> ig_duplicate res"
    using fresh(10) by (simp_all add: fresh(5))
  have wf1: "outbox_wf db1" using assms(3) by (auto simp: outbox_wf_def fresh(7) intro: below_mono)
  note same = moved_cong [of db1 db db2 db'] enqueued_cong [of db1 db db2 db']
  have au': "moved d db' = moved d db2" "enqueued a b c d db' = enqueued a b c d db2" for d a b c
    using au by (simp_all add: moved_def enqueued_def fun_eq_iff)
  show ?thesis
  proof (cases intent)
    case None
    with fresh(8) have db2: "db2 = db1" "oid = None" by (simp_all add: apply_receipt_def)
    have "ra_declared_reference adv \<notin> pi_reference ` set (payment_intents db)"
      using fresh(2) None by (auto simp: filter_empty_conv)
    then show ?thesis using None rc none au db2 fresh(7) by auto
  next
    case (Some i)
    then have i: "i \<in> set (payment_intents db)" "pi_reference i = ra_declared_reference adv"
      using fresh(2) filter_eq_singletonD by fastforce+
    show ?thesis
    proof (cases "classify (Some i) adv = R_MATCHED")
      case True
      with fresh(8) Some obtain o' where st: "settle i rc now db1 = Inr (o', db2)" "oid = Some o'"
        by (auto simp: apply_receipt_def)
      from settle_effect [OF assms(1-3) i(1) True fresh(7) st(1)] obtain ord where
        "payment_receipts db2 = payment_receipts db @ [rc]" "ord \<in> set (orders db)" "o' = o_id ord" "settled adv i ord now db db2" by blast
      moreover have "orders db' = orders db2" "payment_intents db' = payment_intents db2" using au by simp_all
      then have "settled adv i ord now db db' = settled adv i ord now db db2" by (simp only: settled_def issue_requested_def au')
      ultimately show ?thesis using none True Some rc i st(2) au by auto
    next
      case False
      then have cl: "classify (Some i) adv = R_AMOUNT_MISMATCH" using classify_Some by blast
      with fresh(8) Some obtain o' where st: "quarantine adv i rc now db1 = Inr (o', db2)" "oid = Some o'"
        by (auto simp: apply_receipt_def)
      have "o' = pi_order_id i" using st(1) by (rule quarantineE)
      moreover have "unapplied adv i rc db db'"
        using quarantine_effect [OF st(1)] quarantine_requests [OF wf1 st(1)] same au cl
        by (auto simp: unapplied_def review_requested_def fresh(7) classify_def split: if_splits)
      ultimately show ?thesis using none cl Some rc i st(2) au quarantine_effect [OF st(1)] by (auto simp: fresh(7))
    qed
  qed
qed

theorem ingest_remittance_effect_witness:
  "\<exists>res db'. ingest_remittance (sample_advice 53750) 0 ''key'' ''r1'' (sample_db to_payment 3750) = Inr (res, db') \<and>
    orders db' = [sample_order O_PAID 3750] \<and> map pi_status (payment_intents db') = [P_SETTLED] \<and>
    balance (ledger_entries db') ''NGN'' BANK_COLLECTIONS = 53750 \<and>
    balance (ledger_entries db') ''NGN'' DUTY_PAYABLE = - 50000 \<and> balance (ledger_entries db') ''NGN'' VAT_PAYABLE = - 3750"
proof -
  let ?db = "sample_db to_payment 3750"
  obtain res db' where ing: "ingest_remittance (sample_advice 53750) 0 ''key'' ''r1'' ?db = Inr (res, db')"
    and res: "\<not> ig_duplicate res" "ig_status res = R_MATCHED" using sample_settles by blast
  have wf: "money_wf ?db" "orders_wf ?db" "outbox_wf ?db" using sample_wf [of 3750 to_payment] by simp_all
  have os: "orders ?db = [sample_order O_AWAITING_PAYMENT 3750]" "payment_intents ?db = [sample_intent 3750]" "ledger_entries ?db = []"
    by (simp_all add: sample_db_def to_payment_def empty_db_def)
  from ingest_remittance_effect [OF wf ing] res obtain i ord where "i \<in> set (payment_intents ?db)" "ord \<in> set (orders ?db)"
    "settled (sample_advice 53750) i ord 0 ?db db'" by auto
  then have "orders db' = [sample_order O_PAID 3750] \<and> map pi_status (payment_intents db') = [P_SETTLED] \<and>
      balance (ledger_entries db') ''NGN'' BANK_COLLECTIONS = 53750 \<and>
      balance (ledger_entries db') ''NGN'' DUTY_PAYABLE = - 50000 \<and> balance (ledger_entries db') ''NGN'' VAT_PAYABLE = - 3750"
    unfolding os by (auto simp: settled_def sample_order_def moved_def os)
  then show ?thesis by (intro exI [of _ res] exI [of _ db'] conjI [OF ing])
qed

text \<open>
  A remittance is applied at most once: after a successful ingestion, any later delivery with the
  same external reference returns the same receipt, status and order, flagged as a duplicate, and
  leaves the database as it is, whatever else it says.
\<close>

theorem ingest_remittance_idempotent:
  assumes "money_wf db" "orders_wf db" "outbox_wf db" "audit_intact k db"
    and "ingest_remittance adv now k rv db = Inr (res, db')" and "\<not> ig_duplicate res"
    and "ra_external_reference adv' = ra_external_reference adv"
  shows "ingest_remittance adv' now' k' rv' db' = Inr (res\<lparr>ig_duplicate := True\<rparr>, db')"
  using assms(5)
proof (cases rule: ingest_remittanceE)
  case (replay r)
  with assms(6) show ?thesis by (auto simp: replay_receipt_def)
next
  case (fresh intent h v rc db1 oid db2 e)
  note au = record_audit_event_db [OF fresh(9)]
  have wf: "money_wf db'" using ingest_remittance_wf [OF assms(1-5)] by simp
  have rs: "payment_receipts db2 = payment_receipts db1" and oid: "oid = map_option pi_order_id intent"
    and keep: "\<And>i. intent = Some i \<Longrightarrow> i \<in> set (payment_intents db1) \<Longrightarrow>
      \<exists>i' \<in> set (payment_intents db2). pi_id i' = pi_id i \<and> pi_order_id i' = pi_order_id i"
    using apply_receipt_frame [OF fresh(8)] by blast+
  have one: "filter (\<lambda>x. rc_external_reference x = ra_external_reference adv') (payment_receipts db') = [rc]"
    using fresh(1,5,7) rs au assms(7) by simp
  have "replay_receipt rc db' = Inr (res\<lparr>ig_duplicate := True\<rparr>)"
  proof (cases intent)
    case None
    with fresh(5,10) oid show ?thesis by (simp add: replay_receipt_def)
  next
    case (Some i)
    then have "i \<in> set (payment_intents db1)" using fresh(2,7) filter_eq_singletonD by fastforce
    from keep [OF Some this] obtain i' where i': "i' \<in> set (payment_intents db')" "pi_id i' = pi_id i" "pi_order_id i' = pi_order_id i"
      using au by auto
    have "filter (\<lambda>x. pi_id x = pi_id i) (payment_intents db') = [i']"
      using wf i' filter_key_singleton [of pi_id "payment_intents db'" i'] by (simp add: money_wf_def payments_wf_def)
    with Some fresh(5,10) oid i'(3) show ?thesis by (simp add: replay_receipt_def)
  qed
  then show ?thesis unfolding ingest_remittance_def one by simp
qed

theorem ingest_remittance_idempotent_witness:
  "\<exists>res db'. ingest_remittance (sample_advice 53750) 0 ''key'' ''r1'' (sample_db to_payment 3750) = Inr (res, db') \<and>
    ingest_remittance (sample_advice 1) 7 ''key'' ''r2'' db' = Inr (res\<lparr>ig_duplicate := True\<rparr>, db')"
proof -
  let ?db = "sample_db to_payment 3750"
  obtain res db' where ing: "ingest_remittance (sample_advice 53750) 0 ''key'' ''r1'' ?db = Inr (res, db')"
    and new: "\<not> ig_duplicate res" using sample_settles by blast
  have wf: "money_wf ?db" "orders_wf ?db" "outbox_wf ?db" "audit_intact ''key'' ?db"
    using sample_wf [of 3750 to_payment] by simp_all
  have "ra_external_reference (sample_advice 1) = ra_external_reference (sample_advice 53750)"
    by (simp add: sample_advice_def)
  from ing ingest_remittance_idempotent [OF wf ing new this] show ?thesis by blast
qed

text \<open>
  C17. An order whose VAT is zero (a zero-rated tariff, or a portion that rounds to nothing) can never
  be settled: the remittance that matches it exactly is refused, because the settlement posts a VAT
  entry and a posting has to be positive.
\<close>

theorem zero_vat_order_cannot_settle:
  assumes "orders_wf db" and "ord \<in> set (orders db)" and "o_vat_minor ord = 0"
    and "filter (\<lambda>x. pi_reference x = ra_declared_reference adv) (payment_intents db) = [i]" and "pi_order_id i = o_id ord"
    and "classify (Some i) adv = R_MATCHED"
    and "ra_external_reference adv \<notin> rc_external_reference ` set (payment_receipts db)"
  shows "\<exists>err. ingest_remittance adv now k rv db = Inl err"
proof (rule ccontr)
  assume "\<not> ?thesis"
  then obtain res db' where "ingest_remittance adv now k rv db = Inr (res, db')"
    by (cases "ingest_remittance adv now k rv db") auto
  then show False
  proof (cases rule: ingest_remittanceE)
    case (replay r)
    with filter_eq_singletonD [OF replay(1)] assms(7) show False by (metis image_eqI)
  next
    case (fresh intent h v rc db1 oid db2 e)
    then have "intent = Some i" using assms(4) by simp
    with fresh(8) assms(6) obtain o' where "settle i rc now db1 = Inr (o', db2)" by (auto simp: apply_receipt_def)
    then show False
    proof (rule settleE)
      fix y assume "filter (\<lambda>x. o_id x = pi_order_id i) (orders db1) = [y]" and "0 < o_vat_minor y"
      moreover from calculation(1) have "y = ord"
        using orders_wf_lookup [OF assms(1,2)] assms(5) fresh(7) by simp
      ultimately show False using assms(3) by simp
    qed
  qed
qed


lemma sample_to_payment:
  "sample_order (last to_payment) v \<in> set (orders (sample_db to_payment v))"
  "sample_order (last (to_payment @ [O_CANCELLED])) v \<in> set (orders (sample_db (to_payment @ [O_CANCELLED]) v))"
  by (simp_all add: sample_db_def)

theorem zero_vat_order_cannot_settle_witness:
  "o_vat_minor (sample_order O_AWAITING_PAYMENT 0) = 0 \<and>
    (\<exists>err. ingest_remittance (sample_advice 50000) 0 ''key'' ''r1'' (sample_db to_payment 0) = Inl err)"
proof -
  have wf: "orders_wf (sample_db to_payment 0)" using sample_wf [of 0 to_payment] by simp
  have "o_vat_minor (sample_order (last to_payment) 0) = 0" "pi_order_id (sample_intent 0) = o_id (sample_order (last to_payment) 0)"
    "classify (Some (sample_intent 0)) (sample_advice 50000) = R_MATCHED"
    "ra_external_reference (sample_advice 50000) \<notin> rc_external_reference ` set (payment_receipts (sample_db to_payment 0))"
    by (simp_all add: sample_order_def sample_intent_def classify_def sample_advice_def sample_db_def empty_db_def)
  with zero_vat_order_cannot_settle [OF wf sample_to_payment(1) _ sample_lookup(2)] show ?thesis
    by (simp add: sample_order_def)
qed

lemma cancelled_ingest_fails:
  assumes "orders_wf db" and "ord \<in> set (orders db)" and "o_status ord = O_CANCELLED"
    and "filter (\<lambda>x. pi_reference x = ra_declared_reference adv) (payment_intents db) = [i]" and "pi_order_id i = o_id ord"
    and "classify (Some i) adv = R_MATCHED"
    and "ra_external_reference adv \<notin> rc_external_reference ` set (payment_receipts db)"
    and "canonical_hash (ra_raw adv) = Inr h" and "ensure_utc (ra_value_date adv) = Inr v"
    and "insert_payment_receipt (new_receipt adv (Some i) h v now) db = Inr (rc, db1)"
  shows "\<exists>m. ingest_remittance adv now k rv db = Inl (TransitionError m)"
proof -
  have none: "filter (\<lambda>x. rc_external_reference x = ra_external_reference adv) (payment_receipts db) = []"
    using assms(7) by (auto simp: filter_empty_conv image_iff)
  have "orders db1 = orders db" using assms(10) by (auto simp: insert_ok)
  then have one: "filter (\<lambda>x. o_id x = pi_order_id i) (orders db1) = [ord]"
    using orders_wf_lookup [OF assms(1,2)] assms(5) by simp
  have "assert_order_transition (o_status ord) O_PAID \<noteq> Inr ()" by (simp add: assert_paid assms(3))
  then obtain m where "assert_order_transition (o_status ord) O_PAID = Inl (TransitionError m)"
    by (cases "assert_order_transition (o_status ord) O_PAID") (auto dest: assert_order_transition_Inl)
  then have "settle i rc now db1 = Inl (TransitionError m)" unfolding settle_def one by simp
  then have "ingest_remittance adv now k rv db = Inl (TransitionError m)"
    unfolding ingest_remittance_def none assms(4) using assms(6,8-10) by (simp add: apply_receipt_def)
  then show ?thesis by simp
qed

lemma sample_cancelled:
  "orders_wf (sample_db (to_payment @ [O_CANCELLED]) 3750)"
  "o_status (sample_order (last (to_payment @ [O_CANCELLED])) 3750) = O_CANCELLED"
  "pi_order_id (sample_intent 3750) = o_id (sample_order (last (to_payment @ [O_CANCELLED])) 3750)"
  "classify (Some (sample_intent 3750)) (sample_advice 53750) = R_MATCHED"
  "ra_external_reference (sample_advice 53750) \<notin> rc_external_reference ` set (payment_receipts (sample_db (to_payment @ [O_CANCELLED]) 3750))"
  using sample_wf [of 3750 "to_payment @ [O_CANCELLED]"]
  by (simp_all add: sample_order_def sample_intent_def classify_def sample_advice_def sample_db_def empty_db_def)

lemma sample_advice_hash: obtains h where "canonical_hash (ra_raw (sample_advice a)) = Inr h" "varchar 64 h"
  using canonical_hash_total [of "ra_raw (sample_advice a)"] by (auto simp: sample_advice_def)

lemma sample_cancelled_ingest:
  "\<exists>m. ingest_remittance (sample_advice 53750) 0 k rv (sample_db (to_payment @ [O_CANCELLED]) 3750) = Inl (TransitionError m)"
proof -
  obtain h where h: "canonical_hash (ra_raw (sample_advice 53750)) = Inr h" "varchar 64 h" using sample_advice_hash .
  show ?thesis
    using cancelled_ingest_fails [OF sample_cancelled(1) sample_to_payment(2) sample_cancelled(2) sample_lookup(2) sample_cancelled(3-5) h(1)
        sample_lookup(3) sample_receipt [OF h]] by simp
qed

text \<open>
  C18. Cancelling an order leaves its payment intent open, so a remittance that arrives afterwards with the
  exact amount is taken for a match and then fails in the transition of the cancelled order.  The
  error is not a domain error, and the transaction is rolled back: the receipt is not recorded and the
  funds are not quarantined.
\<close>

theorem cancelled_order_remittance_lost:
  assumes "orders_wf db" and "ord \<in> set (orders db)" and "o_status ord = O_CANCELLED"
    and "filter (\<lambda>x. pi_reference x = ra_declared_reference adv) (payment_intents db) = [i]" and "pi_order_id i = o_id ord"
    and "classify (Some i) adv = R_MATCHED"
    and "ra_external_reference adv \<notin> rc_external_reference ` set (payment_receipts db)"
    and "canonical_hash (ra_raw adv) = Inr h" and "ensure_utc (ra_value_date adv) = Inr v"
    and "insert_payment_receipt (new_receipt adv (Some i) h v now) db = Inr (rc, db1)"
  shows "\<exists>m. ingest_remittance adv now k rv db = Inl (TransitionError m) \<and> domain_error (TransitionError m) = None"
  using cancelled_ingest_fails [OF assms] by auto

theorem cancelled_order_remittance_lost_witness:
  "\<exists>m. ingest_remittance (sample_advice 53750) 0 ''key'' ''r1'' (sample_db (to_payment @ [O_CANCELLED]) 3750) =
    Inl (TransitionError m)"
proof -
  obtain h where h: "canonical_hash (ra_raw (sample_advice 53750)) = Inr h" "varchar 64 h" using sample_advice_hash .
  show ?thesis
    using cancelled_order_remittance_lost [OF sample_cancelled(1) sample_to_payment(2) sample_cancelled(2) sample_lookup(2) sample_cancelled(3-5) h(1)
        sample_lookup(3) sample_receipt [OF h]] by auto
qed

end
