(* ===== verification/Serials.thy ===== *)
theory Serials
  imports Prelude
begin

text \<open>
  \<^verbatim>\<open>src/taxstamp/serials.py\<close>: the serial \<^verbatim>\<open>NG-<CAT>-<YEAR>-<SEQ>-<CHECK>\<close>, its Luhn mod-34
  check character, and the parser that accepts exactly the well-formed serials.
\<close>

section \<open>Definitions\<close>

definition ALPHABET :: string where
  "ALPHABET = ''0123456789ABCDEFGHJKLMNPQRSTUVWXYZ''"

definition CATEGORY_CODES :: "(string \<times> string) list" where
  "CATEGORY_CODES =
     [(''tobacco'', ''TOB''), (''alcohol'', ''ALC''), (''pharmaceuticals'', ''PHA''),
      (''beverages'', ''BEV'')]"

definition category_code :: "string \<Rightarrow> string res" where
  "category_code product_category =
     (case map_of CATEGORY_CODES product_category of None \<Rightarrow> Inl SerialError | Some c \<Rightarrow> Inr c)"

text \<open>\<^verbatim>\<open>str.index\<close>: the first position of a character, if there is one.\<close>

fun index_of :: "char \<Rightarrow> string \<Rightarrow> nat option" where
  "index_of c [] = None"
| "index_of c (d # ds) = (if c = d then Some 0 else map_option Suc (index_of c ds))"

definition luhn_addend :: "nat \<Rightarrow> nat \<Rightarrow> nat" where
  "luhn_addend factor code_point =
     (let modulus = length ALPHABET; addend = factor * code_point
      in addend div modulus + addend mod modulus)"

text \<open>The loop of \<^verbatim>\<open>_check_character\<close> over the reversed payload.\<close>

fun luhn_loop :: "string \<Rightarrow> nat \<Rightarrow> nat \<Rightarrow> nat res" where
  "luhn_loop [] factor acc = Inr acc"
| "luhn_loop (c # cs) factor acc =
     (if c = CHR ''-'' then luhn_loop cs factor acc
      else case index_of c ALPHABET of
             None \<Rightarrow> Inl SerialError
           | Some code_point \<Rightarrow>
               luhn_loop cs (if factor = 2 then 1 else 2) (acc + luhn_addend factor code_point))"

definition check_character :: "string \<Rightarrow> char res" where
  "check_character payload =
     bind_res (luhn_loop (rev payload) 2 0) (\<lambda>total.
       let modulus = length ALPHABET; remainder = total mod modulus
       in Inr (ALPHABET ! ((modulus - remainder) mod modulus)))"

definition serial_payload :: "string \<Rightarrow> int \<Rightarrow> int \<Rightarrow> string" where
  "serial_payload code year sequence =
     ''NG-'' @ code @ ''-'' @ zero_pad 4 (nat_str (nat year)) @ ''-'' @
     zero_pad 10 (nat_str (nat sequence))"

definition format_serial :: "string \<Rightarrow> int \<Rightarrow> int \<Rightarrow> string res" where
  "format_serial product_category year sequence =
     (if sequence \<le> 0 then Inl SerialError
      else if sequence > 9999999999 then Inl SerialError
      else if \<not> (2000 \<le> year \<and> year \<le> 9999) then Inl SerialError
      else bind_res (category_code product_category) (\<lambda>code.
           let payload = serial_payload code year sequence in
           bind_res (check_character payload) (\<lambda>c. Inr (payload @ ''-'' @ [c]))))"

record parsed_serial =
  ps_category_code :: string
  ps_year :: nat
  ps_sequence :: nat

text \<open>
  \<^verbatim>\<open>SERIAL_RE.match\<close>: the groups \<open>cat\<close>, \<open>year\<close>, \<open>seq\<close> and \<open>check\<close> of the 24 characters.  The
  final \<^verbatim>\<open>$\<close> of a Python pattern also matches before a newline that ends the string.
\<close>

definition re_body :: "string \<Rightarrow> (string \<times> string \<times> string \<times> char) option" where
  "re_body s =
     (if length s = 24 \<and> take 3 s = ''NG-'' \<and> list_all is_upper (take 3 (drop 3 s))
         \<and> s ! 6 = CHR ''-'' \<and> list_all is_digit (take 4 (drop 7 s))
         \<and> s ! 11 = CHR ''-'' \<and> list_all is_digit (take 10 (drop 12 s))
         \<and> s ! 22 = CHR ''-'' \<and> (is_digit (s ! 23) \<or> is_upper (s ! 23))
      then Some (take 3 (drop 3 s), take 4 (drop 7 s), take 10 (drop 12 s), s ! 23)
      else None)"

definition NEWLINE :: char where
  "NEWLINE = CHR 0x0A"

definition serial_re_match :: "string \<Rightarrow> (string \<times> string \<times> string \<times> char) option" where
  "serial_re_match s =
     re_body (if length s = 25 \<and> s ! 24 = NEWLINE then take 24 s else s)"

text \<open>\<^verbatim>\<open>serial.rsplit("-", 1)[0]\<close>: what stands before the last hyphen.\<close>

definition rsplit_head :: "string \<Rightarrow> string" where
  "rsplit_head s =
     (if CHR ''-'' \<in> set s then rev (tl (dropWhile (\<lambda>c. c \<noteq> CHR ''-'') (rev s))) else s)"

definition parse_serial :: "string \<Rightarrow> parsed_serial res" where
  "parse_serial serial =
     (case serial_re_match serial of
        None \<Rightarrow> Inl SerialError
      | Some (cat, year, seq, check) \<Rightarrow>
          bind_res (check_character (rsplit_head serial)) (\<lambda>c.
            if c \<noteq> check then Inl SerialError
            else Inr \<lparr>ps_category_code = cat, ps_year = str_nat year, ps_sequence = str_nat seq\<rparr>))"

definition is_valid_serial :: "string \<Rightarrow> bool" where
  "is_valid_serial serial =
     (case parse_serial serial of Inl _ \<Rightarrow> False | Inr _ \<Rightarrow> True)"

section \<open>The alphabet and the weighted sum\<close>

lemma length_ALPHABET [simp]: "length ALPHABET = 34"
  by (simp add: ALPHABET_def)

lemma distinct_ALPHABET: "distinct ALPHABET"
  by (simp add: ALPHABET_def)

lemma index_of_Some: "index_of c s = Some i \<Longrightarrow> i < length s \<and> s ! i = c"
  by (induction s arbitrary: i) (auto split: if_splits)

lemma index_of_None: "index_of c s = None \<longleftrightarrow> c \<notin> set s"
  by (induction s) auto

lemma index_of_inj: "index_of c s = Some i \<Longrightarrow> index_of d s = Some i \<Longrightarrow> c = d"
  by (metis index_of_Some)

lemma index_of_bound: "index_of c ALPHABET = Some i \<Longrightarrow> i < 34"
  using index_of_Some [of c ALPHABET i] by simp

lemma luhn_addend_2: "x < 34 \<Longrightarrow> luhn_addend 2 x = (if x < 17 then 2 * x else 2 * x - 33)"
  by (auto simp: luhn_addend_def Let_def div_if mod_if)

lemma luhn_addend_1: "x < 34 \<Longrightarrow> luhn_addend 1 x = x"
  by (simp add: luhn_addend_def Let_def)

lemma luhn_addend_less: "f \<in> {1, 2} \<Longrightarrow> x < 34 \<Longrightarrow> luhn_addend f x < 34"
  by (auto simp: luhn_addend_1 luhn_addend_2 simp flip: One_nat_def)

lemma luhn_addend_inj:
  "f \<in> {1, 2} \<Longrightarrow> x < 34 \<Longrightarrow> y < 34 \<Longrightarrow> luhn_addend f x = luhn_addend f y \<Longrightarrow> x = y"
  by (auto simp: luhn_addend_1 luhn_addend_2 simp flip: One_nat_def split: if_splits) presburger+

text \<open>The running total only adds: the sum can be read off from zero.\<close>

lemma luhn_loop_total:
  "luhn_loop cs f t = (case luhn_loop cs f 0 of Inl e \<Rightarrow> Inl e | Inr n \<Rightarrow> Inr (t + n))"
proof (induction cs arbitrary: f t)
  case (Cons c cs)
  show ?case
  proof (cases "c = CHR ''-''")
    case True
    then show ?thesis using Cons [of f t] by simp
  next
    case False
    show ?thesis
    proof (cases "index_of c ALPHABET")
      case (Some i)
      let ?f = "if f = 2 then 1 else 2 :: nat"
      show ?thesis
        using False Some Cons [of ?f "t + luhn_addend f i"] Cons [of ?f "luhn_addend f i"]
        by (auto split: sum.splits)
    qed (use False in simp)
  qed
qed simp

lemma luhn_loop_append:
  "luhn_loop (xs @ ys) f t =
     (case luhn_loop xs f t of Inl e \<Rightarrow> Inl e
      | Inr n \<Rightarrow> luhn_loop ys (if even (length (filter (\<lambda>c. c \<noteq> CHR ''-'') xs)) then f
                                else if f = 2 then 1 else 2) n)"
  if "f \<in> {1, 2}"
  using that by (induction xs arbitrary: f t) (auto split: option.splits sum.splits)


lemma factor_flip: "f \<in> {1, 2 :: nat} \<Longrightarrow> (if f = 2 then 1 else 2 :: nat) \<in> {1, 2}"
  by auto

text \<open>
  Replacing one character of the alphabet by another changes the weighted sum modulo 34, and
  so does exchanging two different adjacent digits.
\<close>

lemma luhn_loop_ok_iff:
  "(\<exists>n. luhn_loop cs f t = Inr n) \<longleftrightarrow> (\<forall>c \<in> set cs. c \<noteq> CHR ''-'' \<longrightarrow> index_of c ALPHABET \<noteq> None)"
  by (induction cs arbitrary: f t) (auto split: option.splits)

lemma mod34_add: "s < 34 \<Longrightarrow> a < 34 \<Longrightarrow> (s + a) mod 34 = (if s + a < 34 then s + a else s + a - (34 :: nat))"
  by (simp add: mod_if)

lemma mod_add_neq:
  assumes "a < 34" "b < 34" "a \<noteq> b"
  shows "(k + a) mod 34 \<noteq> (k + b) mod (34 :: nat)"
proof -
  define s where "s = k mod 34"
  have s: "s < 34" by (simp add: s_def)
  have "(k + a) mod 34 = (s + a) mod 34" "(k + b) mod 34 = (s + b) mod 34"
    by (simp_all add: s_def mod_simps)
  then have eqs: "(k + a) mod 34 = (if s + a < 34 then s + a else s + a - 34)"
    "(k + b) mod 34 = (if s + b < 34 then s + b else s + b - 34)"
    using mod34_add [OF s] assms by simp_all
  show ?thesis unfolding eqs using assms s by (cases "s + a < 34"; cases "s + b < 34") auto
qed

lemma neg_mod34: "x < 34 \<Longrightarrow> (34 - x) mod 34 = (if x = 0 then 0 else 34 - x :: nat)"
  by (simp add: mod_if)

lemma neg34_inj:
  "(34 - x) mod 34 = (34 - y) mod 34 \<Longrightarrow> x < 34 \<Longrightarrow> y < 34 \<Longrightarrow> x = (y :: nat)"
  by (auto simp: neg_mod34 split: if_splits)

lemma luhn_loop_subst:
  assumes f: "f \<in> {1, 2}" and c: "c \<noteq> CHR ''-''" "d \<noteq> CHR ''-''" "c \<noteq> d"
    and m: "luhn_loop (xs @ c # ys) f 0 = Inr m" and n: "luhn_loop (xs @ d # ys) f 0 = Inr n"
  shows "m mod 34 \<noteq> n mod 34"
proof -
  define g where "g = (if even (length (filter (\<lambda>c. c \<noteq> CHR ''-'') xs)) then f
                       else if f = 2 then 1 else 2 :: nat)"
  have g: "g \<in> {1, 2}" using f by (auto simp: g_def)
  from m obtain k where k: "luhn_loop xs f 0 = Inr k"
    by (auto simp: luhn_loop_append [OF f] split: sum.splits)
  from m k c obtain i where i: "index_of c ALPHABET = Some i"
    by (auto simp: luhn_loop_append [OF f] split: option.splits)
  from n k c obtain j where j: "index_of d ALPHABET = Some j"
    by (auto simp: luhn_loop_append [OF f] split: option.splits)
  let ?g = "if g = 2 then 1 else 2 :: nat"
  from m k c i obtain r where r: "luhn_loop ys ?g 0 = Inr r" and "m = k + luhn_addend g i + r"
    using luhn_loop_total [of ys ?g "k + luhn_addend g i"]
    by (auto simp: luhn_loop_append [OF f] simp flip: g_def split: sum.splits)
  moreover from n k c j r have "n = k + luhn_addend g j + r"
    using luhn_loop_total [of ys ?g "k + luhn_addend g j"]
    by (auto simp: luhn_loop_append [OF f] simp flip: g_def split: sum.splits)
  moreover have "luhn_addend g i \<noteq> luhn_addend g j"
    using g c i j luhn_addend_inj [of g i j] index_of_bound index_of_inj by blast
  ultimately show ?thesis
    using mod_add_neq [of "luhn_addend g i" "luhn_addend g j" "k + r"]
      luhn_addend_less [OF g] index_of_bound [OF i] index_of_bound [OF j]
    by (simp add: ac_simps)
qed

lemma index_of_digit:
  assumes "is_digit c"
  shows "index_of c ALPHABET = Some (digit_val c)"
proof -
  have "digit_val c < 10" using assms by simp
  then have "digit_val c \<in> {0, 1, 2, 3, 4, 5, 6, 7, 8, 9}" by auto
  then have "index_of (digit_char (digit_val c)) ALPHABET = Some (digit_val c)"
    by (elim insertE) (simp_all add: digit_char_def ALPHABET_def char_of_def bit_iff_odd)
  then show ?thesis using assms by simp
qed

lemma luhn_loop_swap:
  assumes f: "f \<in> {1, 2}" and d: "is_digit c" "is_digit d" "c \<noteq> d"
    and m: "luhn_loop (xs @ c # d # ys) f 0 = Inr m"
    and n: "luhn_loop (xs @ d # c # ys) f 0 = Inr n"
  shows "m mod 34 \<noteq> n mod 34"
proof -
  define g where "g = (if even (length (filter (\<lambda>c. c \<noteq> CHR ''-'') xs)) then f
                       else if f = 2 then 1 else 2 :: nat)"
  have g: "g \<in> {1, 2}" using f by (auto simp: g_def)
  have nd: "c \<noteq> CHR ''-''" "d \<noteq> CHR ''-''" using d by (auto simp: is_digit_def)
  note idx = index_of_digit [OF d(1)] index_of_digit [OF d(2)]
  let ?g = "if g = 2 then 1 else 2 :: nat"
  have gg: "(if ?g = 2 then 1 else 2 :: nat) = g" using g by auto
  from m obtain k where k: "luhn_loop xs f 0 = Inr k"
    by (auto simp: luhn_loop_append [OF f] split: sum.splits)
  let ?x = "digit_val c" and ?y = "digit_val d"
  from m k nd idx obtain r where r: "luhn_loop ys g 0 = Inr r"
    and meq: "m = k + luhn_addend g ?x + luhn_addend ?g ?y + r"
    using luhn_loop_total [of ys g "k + luhn_addend g ?x + luhn_addend ?g ?y"]
    by (auto simp: luhn_loop_append [OF f] gg simp flip: g_def split: sum.splits)
  from n k nd idx r have neq: "n = k + luhn_addend g ?y + luhn_addend ?g ?x + r"
    using luhn_loop_total [of ys g "k + luhn_addend g ?y + luhn_addend ?g ?x"]
    by (auto simp: luhn_loop_append [OF f] gg simp flip: g_def split: sum.splits)
  have small: "?x < 10" "?y < 10" and diff: "?x \<noteq> ?y" using d digit_val_inj by auto
  have "luhn_addend g ?x + luhn_addend ?g ?y = (if g = 2 then 2 * ?x + ?y else ?x + 2 * ?y)"
    and "luhn_addend g ?y + luhn_addend ?g ?x = (if g = 2 then 2 * ?y + ?x else ?y + 2 * ?x)"
    using g small by (auto simp: luhn_addend_1 luhn_addend_2 simp flip: One_nat_def)
  with meq neq have "m = k + r + (if g = 2 then 2 * ?x + ?y else ?x + 2 * ?y)"
    and "n = k + r + (if g = 2 then 2 * ?y + ?x else ?y + 2 * ?x)" by simp_all
  then show ?thesis
    using small diff mod_add_neq [of "2 * ?x + ?y" "2 * ?y + ?x" "k + r"]
      mod_add_neq [of "?x + 2 * ?y" "?y + 2 * ?x" "k + r"] by (cases "g = 2") simp_all
qed

lemma check_character_sum:
  assumes "luhn_loop (rev p) 2 0 = Inr m" and "luhn_loop (rev q) 2 0 = Inr n"
    and "check_character p = check_character q"
  shows "m mod 34 = n mod 34"
proof -
  have "ALPHABET ! ((34 - m mod 34) mod 34) = ALPHABET ! ((34 - n mod 34) mod 34)"
    using assms by (simp add: check_character_def Let_def)
  then have "(34 - m mod 34) mod 34 = (34 - n mod 34) mod 34"
    using distinct_ALPHABET by (simp add: nth_eq_iff_index_eq)
  then show ?thesis by (rule neg34_inj) simp_all
qed

lemma check_character_ok: "check_character p = Inr c \<Longrightarrow> \<exists>n. luhn_loop (rev p) 2 0 = Inr n"
  by (auto simp: check_character_def)

lemma check_character_subst:
  assumes "check_character (xs @ c # ys) = Inr k" and "check_character (xs @ d # ys) = Inr k"
    and "c \<noteq> CHR ''-''" "d \<noteq> CHR ''-''"
  shows "c = d"
proof (rule ccontr)
  assume "c \<noteq> d"
  obtain m n where mn: "luhn_loop (rev ys @ c # rev xs) 2 0 = Inr m"
    "luhn_loop (rev ys @ d # rev xs) 2 0 = Inr n"
    using assms(1,2)[THEN check_character_ok] by auto
  then have "m mod 34 \<noteq> n mod 34"
    using assms(3,4) \<open>c \<noteq> d\<close> by (intro luhn_loop_subst) auto
  moreover have "m mod 34 = n mod 34"
    using mn assms(1,2) by (intro check_character_sum [of "xs @ c # ys" m "xs @ d # ys" n]) auto
  ultimately show False by simp
qed

lemma check_character_swap:
  assumes "check_character (xs @ c # d # ys) = Inr k" and "check_character (xs @ d # c # ys) = Inr k"
    and "is_digit c" "is_digit d"
  shows "c = d"
proof (rule ccontr)
  assume "c \<noteq> d"
  obtain m n where mn: "luhn_loop (rev ys @ d # c # rev xs) 2 0 = Inr m"
    "luhn_loop (rev ys @ c # d # rev xs) 2 0 = Inr n"
    using assms(1,2)[THEN check_character_ok] by auto
  then have "m mod 34 \<noteq> n mod 34"
    using assms(3,4) \<open>c \<noteq> d\<close> by (intro luhn_loop_swap) auto
  moreover have "m mod 34 = n mod 34"
    using mn assms(1,2)
    by (intro check_character_sum [of "xs @ c # d # ys" m "xs @ d # c # ys" n]) auto
  ultimately show False by simp
qed


section \<open>The shape of a serial\<close>

text \<open>The pattern position by position; position 24 exists only with a trailing newline.\<close>

definition slot_ok :: "nat \<Rightarrow> char \<Rightarrow> bool" where
  "slot_ok i c =
     (if i = 0 then c = CHR ''N'' else if i = 1 then c = CHR ''G''
      else if i \<in> {2, 6, 11, 22} then c = CHR ''-''
      else if i < 6 then is_upper c
      else if i = 23 then is_digit c \<or> is_upper c
      else if i = 24 then c = NEWLINE
      else is_digit c)"

definition serial_form :: "string \<Rightarrow> bool" where
  "serial_form s \<longleftrightarrow> (length s = 24 \<or> length s = 25) \<and> (\<forall>i < length s. slot_ok i (s ! i))"

lemma upt_24: "[0 ..< 24] =
    [0, 1, 2, 3, 4, 5, 6, 7, 8, 9, 10, 11, 12, 13, 14, 15, 16, 17, 18, 19, 20, 21, 22, 23 :: nat]"
  by code_simp

lemma upt_small:
  "[0 ..< 3] = [0, 1, 2 :: nat]" "[0 ..< 4] = [0, 1, 2, 3 :: nat]"
  "[0 ..< 10] = [0, 1, 2, 3, 4, 5, 6, 7, 8, 9 :: nat]"
  by code_simp+

lemma all_less_24: "(\<forall>i < 24. P i) \<longleftrightarrow> list_all P [0 ..< 24]"
  by (auto simp: list_all_iff)

lemma take_drop_nths:
  "m + n \<le> length s \<Longrightarrow> take n (drop m s) = map (\<lambda>i. s ! (m + i)) [0 ..< n]"
  by (auto intro: nth_equalityI)

lemma re_body_iff:
  assumes "length s = 24"
  shows "re_body s \<noteq> None \<longleftrightarrow> (\<forall>i < 24. slot_ok i (s ! i))"
proof -
  note td = take_drop_nths [of _ _ s, unfolded assms]
  have "take 3 s = [s ! 0, s ! 1, s ! 2]" using td [of 0 3] by (simp add: upt_small)
  moreover have "take 3 (drop 3 s) = [s ! 3, s ! 4, s ! 5]" by (simp add: td upt_small)
  moreover have "take 4 (drop 7 s) = [s ! 7, s ! 8, s ! 9, s ! 10]" by (simp add: td upt_small)
  moreover have "take 10 (drop 12 s) =
      [s ! 12, s ! 13, s ! 14, s ! 15, s ! 16, s ! 17, s ! 18, s ! 19, s ! 20, s ! 21]"
    by (simp add: td upt_small)
  ultimately show ?thesis
    unfolding all_less_24 re_body_def upt_24 using assms by (simp add: slot_ok_def)
qed

lemma serial_re_match_iff: "serial_re_match s \<noteq> None \<longleftrightarrow> serial_form s"
proof -
  consider "length s = 24" | "length s = 25" | "length s \<noteq> 24" "length s \<noteq> 25" by blast
  then show ?thesis
  proof cases
    case 1
    then show ?thesis using re_body_iff [of s] by (simp add: serial_re_match_def serial_form_def)
  next
    case 2
    have "slot_ok 24 (s ! 24) \<longleftrightarrow> s ! 24 = NEWLINE" by (simp add: slot_ok_def)
    moreover have "(\<forall>i < 25. slot_ok i (s ! i)) \<longleftrightarrow>
        slot_ok 24 (s ! 24) \<and> (\<forall>i < 24. slot_ok i (s ! i))"
      using All_less_Suc [of 24 "\<lambda>i. slot_ok i (s ! i)"] by simp
    moreover have "(\<forall>i < 24. slot_ok i (take 24 s ! i)) \<longleftrightarrow> (\<forall>i < 24. slot_ok i (s ! i))" by simp
    ultimately show ?thesis
      using 2 re_body_iff [of "take 24 s"]
      by (auto simp: serial_re_match_def serial_form_def re_body_def)
  next
    case 3
    then show ?thesis by (simp add: serial_re_match_def serial_form_def re_body_def)
  qed
qed

lemma serial_re_match_Some:
  "serial_re_match s = Some (cat, year, seq, check) \<Longrightarrow>
     cat = take 3 (drop 3 s) \<and> year = take 4 (drop 7 s) \<and> seq = take 10 (drop 12 s) \<and> check = s ! 23"
  by (auto simp: serial_re_match_def re_body_def drop_take split: if_splits)

lemma rsplit_head_append: "CHR ''-'' \<notin> set ys \<Longrightarrow> rsplit_head (xs @ CHR ''-'' # ys) = xs"
proof -
  assume "CHR ''-'' \<notin> set ys"
  then have "dropWhile (\<lambda>c. c \<noteq> CHR ''-'') (rev ys @ CHR ''-'' # rev xs) = CHR ''-'' # rev xs"
    by (subst dropWhile_append2) auto
  then show ?thesis by (simp add: rsplit_head_def)
qed

lemma rsplit_head_serial:
  assumes "serial_form s"
  shows "rsplit_head s = take 22 s"
proof -
  from assms have len: "22 < length s" and slots: "\<And>i. i < length s \<Longrightarrow> slot_ok i (s ! i)"
    by (auto simp: serial_form_def)
  have "CHR ''-'' \<notin> set (drop 23 s)"
  proof
    assume "CHR ''-'' \<in> set (drop 23 s)"
    then obtain k where k: "23 + k < length s" and eq: "s ! (23 + k) = CHR ''-''"
      unfolding in_set_conv_nth using len by (auto simp: less_diff_conv add.commute intro: that)
    from k assms have "k = 0 \<or> k = 1" by (auto simp: serial_form_def)
    with slots [OF k] eq show False
      by (auto simp: slot_ok_def is_digit_def is_upper_def NEWLINE_def)
  qed
  moreover from len slots [of 22] have "s = take 22 s @ CHR ''-'' # drop 23 s"
    using id_take_nth_drop [of 22 s] by (simp add: slot_ok_def)
  ultimately show ?thesis using rsplit_head_append [of "drop 23 s" "take 22 s"] by metis
qed

text \<open>Validity in one line: the shape, and the check character of the first 22 characters.\<close>

lemma is_valid_serial_iff:
  "is_valid_serial s \<longleftrightarrow> serial_form s \<and> check_character (take 22 s) = Inr (s ! 23)"
proof (cases "serial_re_match s")
  case None
  then have "\<not> serial_form s" using serial_re_match_iff by blast
  with None show ?thesis by (simp add: is_valid_serial_def parse_serial_def)
next
  case (Some g)
  then have form: "serial_form s" using serial_re_match_iff by blast
  obtain cat year seq check where g: "g = (cat, year, seq, check)" by (cases g)
  with Some have "check = s ! 23" using serial_re_match_Some by blast
  then show ?thesis using Some form
    by (auto simp: is_valid_serial_def parse_serial_def g rsplit_head_serial bind_res_def
        split: sum.splits)
qed


lemma is_valid_serialD:
  assumes "is_valid_serial s" and "i < length s"
  shows "slot_ok i (s ! i)" and "length s = 24 \<or> length s = 25"
  using assms by (auto simp: is_valid_serial_iff serial_form_def)

section \<open>Formatting\<close>

lemma category_code_ok:
  "category_code cat = Inr code \<Longrightarrow> code \<in> {''TOB'', ''ALC'', ''PHA'', ''BEV''}"
  by (auto simp: category_code_def CATEGORY_CODES_def split: if_splits)

lemma category_code_inj:
  "category_code c1 = Inr code \<Longrightarrow> category_code c2 = Inr code \<Longrightarrow> c1 = c2"
  by (auto simp: category_code_def CATEGORY_CODES_def split: if_splits)

lemma category_code_upper:
  "category_code cat = Inr code \<Longrightarrow> length code = 3 \<and> list_all is_upper code"
  by (drule category_code_ok) (auto simp: is_upper_def)

lemma format_serial_ok:
  assumes "format_serial cat year n = Inr s"
  obtains code c where "0 < n" "n \<le> 9999999999" "2000 \<le> year" "year \<le> 9999"
    "category_code cat = Inr code" "check_character (serial_payload code year n) = Inr c"
    "s = serial_payload code year n @ ''-'' @ [c]"
  using assms by (auto simp: format_serial_def Let_def)

lemma year_digits:
  "2000 \<le> year \<Longrightarrow> year \<le> 9999 \<Longrightarrow> length (zero_pad 4 (nat_str (nat year))) = 4"
  using length_nat_str_le [of "nat year" 4] by simp

lemma sequence_digits:
  "0 < n \<Longrightarrow> n \<le> 9999999999 \<Longrightarrow> length (zero_pad 10 (nat_str (nat n))) = 10"
  using length_nat_str_le [of "nat n" 10] by simp

lemma check_character_in_ALPHABET: "check_character p = Inr c \<Longrightarrow> c \<in> set ALPHABET"
  by (auto simp: check_character_def Let_def)

lemma ALPHABET_alnum: "c \<in> set ALPHABET \<Longrightarrow> is_digit c \<or> is_upper c"
  by (auto simp: ALPHABET_def is_digit_def is_upper_def)

lemma re_body_pieces:
  assumes "length code = 3" "length y = 4" "length q = 10" "list_all is_upper code"
    "list_all is_digit y" "list_all is_digit q" "is_digit c \<or> is_upper c"
  shows "re_body ((''NG-'' @ code @ ''-'' @ y @ ''-'' @ q) @ ''-'' @ [c]) = Some (code, y, q, c)"
  using assms by (simp add: re_body_def nth_append)

text \<open>What a formatted serial parses to.\<close>

lemma parse_format:
  assumes "format_serial cat year n = Inr s" and "category_code cat = Inr code"
  shows "parse_serial s = Inr \<lparr>ps_category_code = code, ps_year = nat year, ps_sequence = nat n\<rparr>"
proof -
  from assms obtain c where b: "0 < n" "n \<le> 9999999999" "2000 \<le> year" "year \<le> 9999"
    and chk: "check_character (serial_payload code year n) = Inr c"
    and s: "s = serial_payload code year n @ ''-'' @ [c]"
    by (auto elim: format_serial_ok)
  let ?y = "zero_pad 4 (nat_str (nat year))" and ?q = "zero_pad 10 (nat_str (nat n))"
  have alnum: "is_digit c \<or> is_upper c"
    using chk check_character_in_ALPHABET ALPHABET_alnum by blast
  have lens: "length code = 3" "length ?y = 4" "length ?q = 10" "list_all is_upper code"
    using b year_digits sequence_digits category_code_upper [OF assms(2)] by simp_all
  then have len: "length s = 24" by (simp add: s serial_payload_def)
  have "re_body s = Some (code, ?y, ?q, c)"
    unfolding s serial_payload_def
    by (rule re_body_pieces) (use lens alnum nat_str_digits in simp_all)
  with len have m: "serial_re_match s = Some (code, ?y, ?q, c)" by (simp add: serial_re_match_def)
  then have "rsplit_head s = take 22 s" using rsplit_head_serial serial_re_match_iff by blast
  also have "\<dots> = serial_payload code year n" using len by (simp add: s)
  finally show ?thesis using m chk by (simp add: parse_serial_def)
qed


text \<open>The characters of a formatted serial.\<close>

lemma format_serial_chars:
  assumes "format_serial cat year n = Inr s"
  shows "length s = 24 \<and> (\<forall>c \<in> set s. is_digit c \<or> is_upper c \<or> c = CHR ''-'')"
proof -
  from assms obtain code c where b: "0 < n" "n \<le> 9999999999" "2000 \<le> year" "year \<le> 9999"
    and code: "category_code cat = Inr code" and chk: "check_character (serial_payload code year n) = Inr c"
    and s: "s = serial_payload code year n @ ''-'' @ [c]"
    by (auto elim: format_serial_ok)
  let ?y = "zero_pad 4 (nat_str (nat year))" and ?q = "zero_pad 10 (nat_str (nat n))"
  have "is_digit c \<or> is_upper c" using chk check_character_in_ALPHABET ALPHABET_alnum by blast
  moreover have "length code = 3" "length ?y = 4" "length ?q = 10" "list_all is_upper code"
    using b year_digits sequence_digits category_code_upper [OF code] by simp_all
  moreover have "list_all is_digit ?y" "list_all is_digit ?q" using nat_str_digits by simp_all
  moreover have "is_upper CHR ''N''" "is_upper CHR ''G''" by (simp_all add: is_upper_def)
  ultimately show ?thesis by (auto simp: s serial_payload_def list_all_iff)
qed

lemma format_serial_inj:
  assumes "format_serial c1 y1 n1 = Inr s" and "format_serial c2 y2 n2 = Inr s"
  shows "c1 = c2 \<and> y1 = y2 \<and> n1 = n2"
proof -
  obtain k1 k2 where k: "category_code c1 = Inr k1" "category_code c2 = Inr k2"
    and b: "0 < n1" "0 < n2" "2000 \<le> y1" "2000 \<le> y2"
    using assms by (auto elim!: format_serial_ok)
  have "\<lparr>ps_category_code = k1, ps_year = nat y1, ps_sequence = nat n1\<rparr> =
        \<lparr>ps_category_code = k2, ps_year = nat y2, ps_sequence = nat n2\<rparr>"
    using parse_format [OF assms(1) k(1)] parse_format [OF assms(2) k(2)] by simp
  then show ?thesis using k b category_code_inj [of c1 k1 c2] by auto
qed

lemma digit_not_dash: "is_digit c \<or> is_upper c \<Longrightarrow> c \<noteq> CHR ''-''"
  by (auto simp: is_digit_def is_upper_def)

lemma luhn_loop_tobacco: "luhn_loop (xs @ ''BOT-GN'') f t = Inr n \<Longrightarrow> False"
  using luhn_loop_ok_iff [of "xs @ ''BOT-GN''" f t] by (auto simp: ALPHABET_def)

lemma luhn_loop_err: "luhn_loop cs f t = Inl e \<Longrightarrow> e = SerialError"
  by (induction cs arbitrary: f t) (auto split: if_splits option.splits)

lemma format_serial_defined:
  assumes "cat \<in> {''alcohol'', ''pharmaceuticals'', ''beverages''}"
    and "0 < n" "n \<le> 9999999999" "2000 \<le> year" "year \<le> 9999"
  shows "\<exists>s. format_serial cat year n = Inr s"
proof -
  have digits: "index_of c ALPHABET \<noteq> None" if "is_digit c" for c
    using index_of_digit [OF that] by simp
  from assms(1) obtain code where code: "category_code cat = Inr code"
    "code \<in> {''ALC'', ''PHA'', ''BEV''}"
    by (auto simp: category_code_def CATEGORY_CODES_def)
  have "\<forall>c \<in> set (rev (serial_payload code year n)). c \<noteq> CHR ''-'' \<longrightarrow> index_of c ALPHABET \<noteq> None"
  proof
    fix c assume "c \<in> set (rev (serial_payload code year n))"
    then have "c \<in> set ''NG-'' \<union> set code \<or> is_digit c"
      using zero_pad_digits [OF nat_str_digits]
      by (auto simp: serial_payload_def list_all_iff)
    then show "c \<noteq> CHR ''-'' \<longrightarrow> index_of c ALPHABET \<noteq> None"
      using code(2) digits by (auto simp: index_of_None) (auto simp: ALPHABET_def)
  qed
  then obtain t where "luhn_loop (rev (serial_payload code year n)) 2 0 = Inr t"
    using luhn_loop_ok_iff by metis
  then show ?thesis using assms code(1)
    by (simp add: format_serial_def check_character_def Let_def)
qed

section \<open>Properties\<close>

text \<open>
  C33. A formatted serial parses back to the category code, the year and the sequence it was
  formatted from: formatting loses nothing, and the parser accepts every issued serial.
\<close>

theorem format_parse_roundtrip:
  assumes "format_serial cat year n = Inr s"
  shows "\<exists>code. category_code cat = Inr code \<and>
    parse_serial s = Inr \<lparr>ps_category_code = code, ps_year = nat year, ps_sequence = nat n\<rparr> \<and>
    is_valid_serial s"
proof -
  from assms obtain code where "category_code cat = Inr code" by (auto elim!: format_serial_ok)
  with parse_format [OF assms] show ?thesis by (simp add: is_valid_serial_def)
qed

theorem format_parse_roundtrip_witness:
  "\<exists>code. category_code ''alcohol'' = Inr code \<and>
    parse_serial ''NG-ALC-2026-0000000001-T'' =
      Inr \<lparr>ps_category_code = code, ps_year = nat 2026, ps_sequence = nat 1\<rparr> \<and>
    is_valid_serial ''NG-ALC-2026-0000000001-T''"
  by (rule format_parse_roundtrip) code_simp

text \<open>
  A serial with one mistyped character is rejected, whatever the position and whatever
  the replacement.
\<close>

theorem single_substitution_detected:
  assumes "is_valid_serial s" and "i < length s" and "c \<noteq> s ! i"
  shows "\<not> is_valid_serial (s[i := c])"
proof
  let ?t = "s[i := c]"
  assume t: "is_valid_serial ?t"
  from assms(1) have len: "length s = 24 \<or> length s = 25"
    by (simp add: is_valid_serial_iff serial_form_def)
  have slots: "slot_ok i (s ! i)" "slot_ok i c"
    using is_valid_serialD [OF assms(1,2)] is_valid_serialD [OF t, of i] assms(2) by simp_all
  have chk: "check_character (take 22 s) = Inr (s ! 23)"
    "check_character (take 22 ?t) = Inr (?t ! 23)"
    using assms(1) t by (simp_all add: is_valid_serial_iff)
  show False
  proof (cases "i < 22")
    case True
    then have eq: "take 22 s = take i s @ s ! i # drop (Suc i) (take 22 s)"
      using len id_take_nth_drop [of i "take 22 s"] by fastforce
    have eq': "take 22 ?t = take i s @ c # drop (Suc i) (take 22 s)"
      using True len upd_conv_take_nth_drop [of i "take 22 s" c] by (auto simp: take_update_swap)
    show False
    proof (cases "i \<in> {0, 1, 2, 6, 11}")
      case True
      with slots assms(3) show False by (auto simp: slot_ok_def)
    next
      case False
      with slots \<open>i < 22\<close> have "s ! i \<noteq> CHR ''-''" and "c \<noteq> CHR ''-''"
        by (auto simp: slot_ok_def is_digit_def is_upper_def split: if_splits)
      moreover have "check_character (take i s @ s ! i # drop (Suc i) (take 22 s)) = Inr (s ! 23)"
        by (simp only: eq [symmetric] chk)
      moreover have "check_character (take i s @ c # drop (Suc i) (take 22 s)) = Inr (s ! 23)"
        using chk(2) \<open>i < 22\<close> by (simp only: eq') simp
      ultimately have "s ! i = c" by (intro check_character_subst)
      with assms(3) show False by simp
    qed
  next
    case False
    with chk have "i \<noteq> 23" using assms(3) len by auto
    with False assms(2) len have "i = 22 \<or> i = 24" by auto
    with slots assms(3) show False by (auto simp: slot_ok_def)
  qed
qed

theorem single_substitution_detected_witness:
  "\<not> is_valid_serial (''NG-ALC-2026-0000000001-T''[21 := CHR ''7''])"
  by (rule single_substitution_detected) (code_simp, simp, simp)

text \<open>
  Exchanging two different neighbouring digits of the year or of the sequence is always
  rejected.
\<close>

theorem adjacent_digit_swap_detected:
  assumes "is_valid_serial s" and "i \<in> {7 .. 9} \<union> {12 .. 20}" and "s ! i \<noteq> s ! Suc i"
  shows "\<not> is_valid_serial (s[i := s ! Suc i, Suc i := s ! i])"
proof
  let ?t = "s[i := s ! Suc i, Suc i := s ! i]"
  assume t: "is_valid_serial ?t"
  from assms(1) have len: "length s = 24 \<or> length s = 25"
    by (simp add: is_valid_serial_iff serial_form_def)
  have i: "Suc i < 22" using assms(2) by auto
  have digits: "is_digit (s ! i)" "is_digit (s ! Suc i)"
    using is_valid_serialD(1) [OF assms(1), of i] is_valid_serialD(1) [OF assms(1), of "Suc i"]
      assms(2) len by (auto simp: slot_ok_def)
  have chk: "check_character (take 22 s) = Inr (s ! 23)"
    "check_character (take 22 ?t) = Inr (s ! 23)"
    using assms(1) t i len by (simp_all add: is_valid_serial_iff)
  define zs where "zs = drop (Suc (Suc i)) (take 22 s)"
  have eq: "take 22 s = take i s @ s ! i # s ! Suc i # zs"
    using i len id_take_nth_drop [of i "take 22 s"] Cons_nth_drop_Suc [of "Suc i" "take 22 s"]
    by (auto simp: zs_def)
  have "take 22 ?t = (take 22 s)[i := s ! Suc i, Suc i := s ! i]"
    by (simp add: take_update_swap)
  also have "\<dots> = take i s @ s ! Suc i # s ! i # zs"
    unfolding eq using i len by (auto simp: list_update_append min_def split: nat.splits)
  finally have "s ! i = s ! Suc i"
    using chk digits eq check_character_swap [of "take i s" "s ! i" "s ! Suc i" zs] by simp
  with assms(3) show False by simp
qed

theorem adjacent_digit_swap_detected_witness:
  "\<not> is_valid_serial (let s = ''NG-ALC-2026-0000000001-T'' in s[20 := s ! Suc 20, Suc 20 := s ! 20])"
  unfolding Let_def by (rule adjacent_digit_swap_detected) (code_simp, simp, simp)

text \<open>
  Every category but tobacco can be formatted for every year and sequence in range.
\<close>

theorem format_serial_total:
  assumes "cat \<in> {''alcohol'', ''pharmaceuticals'', ''beverages''}"
    and "0 < n" "n \<le> 9999999999" "2000 \<le> year" "year \<le> 9999"
  shows "\<exists>s. format_serial cat year n = Inr s"
  using assms by (rule format_serial_defined)

theorem format_serial_total_witness: "\<exists>s. format_serial ''beverages'' 2026 7 = Inr s"
  by (rule format_serial_total) simp_all

text \<open>
  C37. No tobacco serial can ever be formatted: the category code \<^verbatim>\<open>TOB\<close> contains the letter O,
  which the check alphabet leaves out, so the check character cannot be computed.
\<close>

theorem tobacco_serials_impossible: "format_serial ''tobacco'' year n = Inl SerialError"
proof -
  have "check_character (serial_payload ''TOB'' year n) = Inl SerialError"
  proof (cases "luhn_loop (rev (serial_payload ''TOB'' year n)) 2 0")
    case (Inl e)
    then show ?thesis using luhn_loop_err by (simp add: check_character_def)
  next
    case (Inr t)
    let ?digits = "rev (''-'' @ zero_pad 4 (nat_str (nat year)) @ ''-'' @ zero_pad 10 (nat_str (nat n)))"
    have "rev (serial_payload ''TOB'' year n) = ?digits @ ''BOT-GN''"
      by (simp add: serial_payload_def)
    with Inr show ?thesis using luhn_loop_tobacco [of ?digits 2 0 t] by simp
  qed
  then show ?thesis
    by (simp add: format_serial_def category_code_def CATEGORY_CODES_def Let_def)
qed


end
