(* ===== verification/Issuance.thy ===== *)
theory Issuance
  imports Payments Serials
begin

text \<open>
  \<^verbatim>\<open>src/taxstamp/services/issuance.py\<close>: chunked, resumable issuance of the stamps of a paid order.
  A chunk is one transaction; \<open>issue_order\<close> repeats chunks until the batch is complete.  The readings
  of the clock are a sequence, one per chunk.
\<close>

section \<open>Model\<close>

definition ISSUER :: audit_actor where
  "ISSUER = \<lparr>aa_principal_id = None, aa_subject = ''system:issuer'', aa_role = ''operator'', aa_company_id = None\<rparr>"

definition STAMP_VALIDITY_DAYS :: int where "STAMP_VALIDITY_DAYS = 730"

record issuance_progress =
  ip_batch_id :: uuid
  ip_requested :: int
  ip_issued :: int
  ip_completed :: bool

definition counter_for :: "string \<Rightarrow> int \<Rightarrow> serial_counter \<Rightarrow> bool" where
  "counter_for cat year c = (sc_product_category c = cat \<and> sc_year c = year)"

text \<open>
  \<^verbatim>\<open>INSERT \<dots> ON CONFLICT DO NOTHING\<close>, then \<^verbatim>\<open>UPDATE \<dots> RETURNING\<close>.
\<close>

definition ensure_counter :: "string \<Rightarrow> int \<Rightarrow> db \<Rightarrow> db res" where
  "ensure_counter cat year db =
     (if \<not> varchar 64 cat \<or> \<not> int4 year then Inl DataError
      else if list_ex (counter_for cat year) (serial_counters db) then Inr db
      else Inr (db\<lparr>serial_counters := serial_counters db @
                     [\<lparr>sc_product_category = cat, sc_year = year, sc_next_value = 1\<rparr>]\<rparr>))"

definition allocate_serial_block :: "string \<Rightarrow> int \<Rightarrow> int \<Rightarrow> db \<Rightarrow> (int \<times> db) res" where
  "allocate_serial_block cat year count db =
     (if count \<le> 0 then Inl IllegalState else
      bind_res (ensure_counter cat year db) (\<lambda>db.
      let db' = db\<lparr>serial_counters := update_where (counter_for cat year)
                     (\<lambda>c. c\<lparr>sc_next_value := sc_next_value c + count\<rparr>) (serial_counters db)\<rparr>
      in if list_ex (\<lambda>c. counter_for cat year c \<and> \<not> bigint (sc_next_value c)) (serial_counters db') then Inl DataError
         else bind_res (scalar_one (map (\<lambda>c. sc_next_value c - count) (filter (counter_for cat year) (serial_counters db'))))
                (\<lambda>start. Inr (start, db'))))"

definition new_batch :: "order \<Rightarrow> instant \<Rightarrow> uuid \<Rightarrow> stamp_batch" where
  "new_batch ord now i =
     \<lparr>b_id = i, b_order_id = o_id ord, b_requested_count = o_quantity ord, b_issued_count = 0,
      b_status = B_PENDING, b_created_at = now, b_completed_at = None\<rparr>"

definition ensure_batch :: "order \<Rightarrow> instant \<Rightarrow> db \<Rightarrow> (stamp_batch \<times> db) res" where
  "ensure_batch ord now db =
     bind_res (scalar_one_or_none (filter (\<lambda>b. b_order_id b = o_id ord) (stamp_batches db))) (\<lambda>found.
     case found of Some b \<Rightarrow> Inr (b, db) | None \<Rightarrow> insert_stamp_batch (new_batch ord now) db)"

text \<open>The \<^verbatim>\<open>UPDATE\<close> of a batch, with the constraint on its counts.\<close>

definition save_batch :: "stamp_batch \<Rightarrow> db \<Rightarrow> db res" where
  "save_batch b db =
     (if b_issued_count b < 0 \<or> b_issued_count b > b_requested_count b then Inl IntegrityError
      else Inr (db\<lparr>stamp_batches := update_where (\<lambda>x. b_id x = b_id b) (\<lambda>_. b) (stamp_batches db)\<rparr>))"

definition batch_stamps :: "db \<Rightarrow> uuid \<Rightarrow> stamp list" where
  "batch_stamps db i = filter (\<lambda>s. s_batch_id s = i) (stamps db)"

text \<open>The end of a batch: the order is issued and the anchoring of its serials requested.\<close>

definition complete_batch ::
  "order \<Rightarrow> stamp_batch \<Rightarrow> int \<Rightarrow> instant \<Rightarrow> db \<Rightarrow> (issuance_progress \<times> db) res" where
  "complete_batch ord batch issued now db =
     bind_res (if b_status batch \<noteq> B_ISSUED
               then save_batch (batch\<lparr>b_status := B_ISSUED, b_issued_count := issued, b_completed_at := Some now\<rparr>) db
               else Inr db) (\<lambda>db.
     bind_res (if o_status ord = O_ISSUING then
          bind_res (assert_order_transition O_ISSUING O_ISSUED) (\<lambda>_.
          bind_res (move_order ord O_ISSUED None ''issuance complete'' now db) (\<lambda>(ord, db).
          let serials = sort (map s_serial (batch_stamps db (b_id batch))) in
          bind_res (merkle_root serials) (\<lambda>root.
          bind_res (enqueue ''stamp_batch'' (b_id batch) ''batch.anchor_requested''
              (''batch.anchor:'' @ uuid_str (b_id batch))
              [(''batch_id'', JStr (uuid_str (b_id batch))), (''order_id'', JStr (uuid_str (o_id ord))),
               (''stamp_count'', JInt (int (length serials))), (''merkle_root'', JStr root)] now db) (\<lambda>(r, db).
          Inr db))))
        else Inr db) (\<lambda>db.
     Inr (\<lparr>ip_batch_id = b_id batch, ip_requested = b_requested_count batch, ip_issued = issued, ip_completed = True\<rparr>, db)))"

definition new_stamp ::
  "order \<Rightarrow> stamp_batch \<Rightarrow> string \<Rightarrow> string \<Rightarrow> instant \<Rightarrow> instant \<Rightarrow> uuid \<Rightarrow> stamp" where
  "new_stamp ord batch serial secret now expires_at i =
     \<lparr>s_id = i, s_serial = serial, s_batch_id = b_id batch, s_order_id = o_id ord, s_company_id = o_company_id ord,
      s_product_category = o_product_category ord, s_status = S_ISSUED,
      s_secure_code_hash = hash_secure_code serial (derive_secure_code serial secret) secret,
      s_issued_at = now, s_activated_at = None, s_voided_at = None, s_expires_at = expires_at\<rparr>"

text \<open>\<^verbatim>\<open>for offset in range(take)\<close>: the serials of a block.\<close>

fun format_block :: "string \<Rightarrow> int \<Rightarrow> int \<Rightarrow> nat \<Rightarrow> string list res" where
  "format_block cat year start 0 = Inr []"
| "format_block cat year start (Suc n) =
     bind_res (format_serial cat year start) (\<lambda>s.
     bind_res (format_block cat year (start + 1) n) (\<lambda>ss. Inr (s # ss)))"

fun insert_stamps :: "(string \<Rightarrow> uuid \<Rightarrow> stamp) \<Rightarrow> string list \<Rightarrow> db \<Rightarrow> db res" where
  "insert_stamps mk [] db = Inr db"
| "insert_stamps mk (s # ss) db = bind_res (insert_stamp (mk s) db) (\<lambda>(r, db). insert_stamps mk ss db)"

text \<open>The start of a chunk: a paid order moves to issuing.\<close>

definition begin_issuing :: "order \<Rightarrow> stamp_batch \<Rightarrow> instant \<Rightarrow> db \<Rightarrow> (order \<times> stamp_batch \<times> db) res" where
  "begin_issuing ord batch now db =
     (if o_status ord = O_PAID then
        bind_res (assert_order_transition O_PAID O_ISSUING) (\<lambda>_.
        bind_res (move_order ord O_ISSUING None ''issuance started'' now db) (\<lambda>(ord, db).
        let batch = batch\<lparr>b_status := B_ISSUING\<rparr> in
        bind_res (save_batch batch db) (\<lambda>db. Inr (ord, batch, db))))
      else Inr (ord, batch, db))"

text \<open>The part of a chunk that issues stamps.\<close>

definition issue_stamps ::
  "order \<Rightarrow> stamp_batch \<Rightarrow> int \<Rightarrow> int \<Rightarrow> string \<Rightarrow> instant \<Rightarrow> db \<Rightarrow> (stamp_batch \<times> db) res" where
  "issue_stamps ord batch issued_now n secret now db =
     bind_res (allocate_serial_block (o_product_category ord) (year_of now) n db) (\<lambda>(start, db).
     bind_res (dt_add now (STAMP_VALIDITY_DAYS * DAY)) (\<lambda>expires_at.
     bind_res (format_block (o_product_category ord) (year_of now) start (nat n)) (\<lambda>serials.
     bind_res (insert_stamps (\<lambda>s. new_stamp ord batch s secret now expires_at) serials db) (\<lambda>db.
     let batch = batch\<lparr>b_issued_count := issued_now + n\<rparr> in
     bind_res (save_batch batch db) (\<lambda>db. Inr (batch, db))))))"

definition issue_chunk ::
  "uuid \<Rightarrow> int \<Rightarrow> string \<Rightarrow> instant \<Rightarrow> db \<Rightarrow> (issuance_progress \<times> db) res" where
  "issue_chunk order_id chunk_size secret now db =
     bind_res (scalar_one_or_none (filter (\<lambda>x. o_id x = order_id) (orders db))) (\<lambda>found.
     case found of
       None \<Rightarrow> Inl NotFound
     | Some ord \<Rightarrow>
     if o_status ord \<notin> {O_PAID, O_ISSUING, O_ISSUED} then Inl IllegalState else
     bind_res (ensure_batch ord now db) (\<lambda>(batch, db).
     bind_res (begin_issuing ord batch now db) (\<lambda>(ord, batch, db).
     let issued_now = int (length (batch_stamps db (b_id batch)));
         remaining = b_requested_count batch - issued_now in
     if remaining \<le> 0 then complete_batch ord batch issued_now now db else
     bind_res (issue_stamps ord batch issued_now (min chunk_size remaining) secret now db) (\<lambda>(batch, db).
     if b_issued_count batch \<ge> b_requested_count batch
     then complete_batch ord batch (b_issued_count batch) now db
     else Inr (\<lparr>ip_batch_id = b_id batch, ip_requested = b_requested_count batch, ip_issued = b_issued_count batch,
                ip_completed = False\<rparr>, db)))))"

definition issued_record :: "issuance_progress \<Rightarrow> audit_record" where
  "issued_record p =
     \<lparr>ar_action = ''batch.issued'', ar_target_type = ''stamp_batch'', ar_target_id = uuid_str (ip_batch_id p),
      ar_outcome = ''success'', ar_before_state = None,
      ar_after_state = Some [(''issued'', JInt (ip_issued p)), (''requested'', JInt (ip_requested p))],
      ar_request_id = None, ar_idempotency_key = None\<rparr>"

text \<open>One transaction of \<^verbatim>\<open>issue_order\<close>.\<close>

definition issue_step ::
  "uuid \<Rightarrow> int \<Rightarrow> string \<Rightarrow> string \<Rightarrow> string \<Rightarrow> instant \<Rightarrow> db \<Rightarrow> (issuance_progress \<times> db) res" where
  "issue_step order_id chunk_size secret audit_secret revision now db =
     bind_res (issue_chunk order_id chunk_size secret now db) (\<lambda>(p, db).
     if ip_completed p
     then bind_res (record_audit_event ISSUER (issued_record p) now audit_secret revision db) (\<lambda>(e, db). Inr (p, db))
     else Inr (p, db))"

section \<open>What the steps do\<close>

lemma new_batch_simps [simp]:
  "b_id (new_batch ord now i) = i" "b_order_id (new_batch ord now i) = o_id ord"
  "b_requested_count (new_batch ord now i) = o_quantity ord" "b_issued_count (new_batch ord now i) = 0"
  "b_status (new_batch ord now i) = B_PENDING"
  by (simp_all add: new_batch_def)

lemma new_stamp_simps [simp]:
  "s_id (new_stamp ord b s k now ex i) = i" "s_serial (new_stamp ord b s k now ex i) = s"
  "s_batch_id (new_stamp ord b s k now ex i) = b_id b" "s_order_id (new_stamp ord b s k now ex i) = o_id ord"
  "s_product_category (new_stamp ord b s k now ex i) = o_product_category ord"
  "s_company_id (new_stamp ord b s k now ex i) = o_company_id ord"
  "s_status (new_stamp ord b s k now ex i) = S_ISSUED" "s_expires_at (new_stamp ord b s k now ex i) = ex"
  "s_secure_code_hash (new_stamp ord b s k now ex i) = hash_secure_code s (derive_secure_code s k) k"
  by (simp_all add: new_stamp_def)

text \<open>The rows that a bulk insert adds.\<close>

fun stamp_rows :: "(string \<Rightarrow> uuid \<Rightarrow> stamp) \<Rightarrow> uuid \<Rightarrow> string list \<Rightarrow> stamp list" where
  "stamp_rows mk i [] = []"
| "stamp_rows mk i (s # ss) = mk s i # stamp_rows mk (Suc i) ss"

lemma length_stamp_rows [simp]: "length (stamp_rows mk i ss) = length ss"
  by (induction ss arbitrary: i) simp_all

lemma stamp_rows_all: "x \<in> set (stamp_rows mk i ss) \<Longrightarrow> \<exists>s \<in> set ss. \<exists>j \<ge> i. j < i + length ss \<and> x = mk s j"
proof (induction ss arbitrary: i)
  case (Cons s ss)
  show ?case
  proof (cases "x = mk s i")
    case False
    with Cons.prems have "x \<in> set (stamp_rows mk (Suc i) ss)" by simp
    from Cons.IH [OF this] show ?thesis by fastforce
  qed auto
qed simp

lemma insert_stamps_ok:
  "insert_stamps mk ss db = Inr db' \<Longrightarrow>
    db' = db\<lparr>next_uuid := next_uuid db + length ss, stamps := stamps db @ stamp_rows mk (next_uuid db) ss\<rparr>"
proof (induction ss arbitrary: db)
  case (Cons s ss)
  from Cons.prems obtain r db1 where ins: "insert_stamp (mk s) db = Inr (r, db1)" and rest: "insert_stamps mk ss db1 = Inr db'"
    by auto
  then have "db1 = db\<lparr>next_uuid := Suc (next_uuid db), stamps := stamps db @ [mk s (next_uuid db)]\<rparr>"
    by (simp add: insert_ok)
  with Cons.IH [OF rest] show ?case by simp
qed simp

lemma format_block_length: "format_block cat y n k = Inr ss \<Longrightarrow> length ss = k"
  by (induction cat y n k arbitrary: ss rule: format_block.induct) auto

lemma format_block_nth: "format_block cat y n k = Inr ss \<Longrightarrow> s \<in> set ss \<Longrightarrow>
    \<exists>m. n \<le> m \<and> m < n + int k \<and> format_serial cat y m = Inr s"
proof (induction cat y n k arbitrary: ss rule: format_block.induct)
  case (2 cat y n k)
  then obtain s0 ss0 where f: "format_serial cat y n = Inr s0" "format_block cat y (n + 1) k = Inr ss0" "ss = s0 # ss0" by auto
  show ?case
  proof (cases "s = s0")
    case True
    with f(1) show ?thesis by (intro exI [of _ n]) simp
  next
    case False
    with "2.prems"(2) f(3) have "s \<in> set ss0" by simp
    from "2.IH" [OF f(2) this] obtain m where "n + 1 \<le> m" "m < n + 1 + int k" "format_serial cat y m = Inr s" by blast
    then show ?thesis by (intro exI [of _ m]) simp
  qed
qed simp

lemma format_block_distinct: "format_block cat y n k = Inr ss \<Longrightarrow> distinct ss"
proof (induction cat y n k arbitrary: ss rule: format_block.induct)
  case (2 cat y n k)
  then obtain s0 ss0 where f: "format_serial cat y n = Inr s0" "format_block cat y (n + 1) k = Inr ss0" "ss = s0 # ss0" by auto
  have "s0 \<notin> set ss0" using format_block_nth [OF f(2)] format_serial_inj [OF f(1)] by fastforce
  with "2.IH" [OF f(2)] f(3) show ?case by simp
qed simp

lemma batch_stamps_append:
  "stamps db' = stamps db @ xs \<Longrightarrow> batch_stamps db' i = batch_stamps db i @ filter (\<lambda>s. s_batch_id s = i) xs"
  by (simp add: batch_stamps_def)

lemma batch_stamps_rows:
  "filter (\<lambda>s. s_batch_id s = i) (stamp_rows (\<lambda>s. new_stamp ord b s k now ex) n ss) =
    (if i = b_id b then stamp_rows (\<lambda>s. new_stamp ord b s k now ex) n ss else [])"
  by (induction ss arbitrary: n) auto

lemma ensure_batchE:
  assumes "ensure_batch ord now db = Inr (b, db')"
  obtains (old) "filter (\<lambda>b. b_order_id b = o_id ord) (stamp_batches db) = [b]" "db' = db"
  | (new) "filter (\<lambda>b. b_order_id b = o_id ord) (stamp_batches db) = []" "b = new_batch ord now (next_uuid db)"
      "stamp_batch_checks db b" "db' = db\<lparr>next_uuid := Suc (next_uuid db), stamp_batches := stamp_batches db @ [b]\<rparr>"
proof -
  from assms obtain found where
    f: "scalar_one_or_none (filter (\<lambda>b. b_order_id b = o_id ord) (stamp_batches db)) = Inr found"
    by (auto simp: ensure_batch_def)
  show thesis
  proof (cases found)
    case None
    with assms f show ?thesis by (intro new) (auto simp: ensure_batch_def insert_ok)
  next
    case (Some x)
    with assms f show ?thesis by (intro old) (auto simp: ensure_batch_def)
  qed
qed

lemma save_batch_ok:
  "save_batch b db = Inr db' \<longleftrightarrow> 0 \<le> b_issued_count b \<and> b_issued_count b \<le> b_requested_count b \<and>
    db' = db\<lparr>stamp_batches := update_where (\<lambda>x. b_id x = b_id b) (\<lambda>_. b) (stamp_batches db)\<rparr>"
  by (auto simp: save_batch_def)

lemma begin_issuingE:
  assumes "begin_issuing ord b now db = Inr (ord', b', db')"
  obtains (start) db1 where "o_status ord = O_PAID" "move_order ord O_ISSUING None ''issuance started'' now db = Inr (ord', db1)"
      "b' = b\<lparr>b_status := B_ISSUING\<rparr>" "save_batch b' db1 = Inr db'"
  | (resume) "o_status ord \<noteq> O_PAID" "ord' = ord" "b' = b" "db' = db"
  using assms by (auto simp: begin_issuing_def Let_def split: if_splits)

lemma allocate_serial_block_ok:
  assumes "allocate_serial_block cat y n db = Inr (start, db')"
  shows "0 < n" "db' = db\<lparr>serial_counters := serial_counters db'\<rparr>"
  using assms by (auto simp: allocate_serial_block_def ensure_counter_def Let_def split: if_splits)

lemma issue_stampsE:
  assumes "issue_stamps ord b issued n k now db = Inr (b', db')"
  obtains start db1 ex serials where
    "allocate_serial_block (o_product_category ord) (year_of now) n db = Inr (start, db1)"
    "dt_add now (STAMP_VALIDITY_DAYS * DAY) = Inr ex"
    "format_block (o_product_category ord) (year_of now) start (nat n) = Inr serials"
    "insert_stamps (\<lambda>s. new_stamp ord b s k now ex) serials db1 =
       Inr (db1\<lparr>next_uuid := next_uuid db1 + nat n,
                stamps := stamps db1 @ stamp_rows (\<lambda>s. new_stamp ord b s k now ex) (next_uuid db1) serials\<rparr>)"
    "b' = b\<lparr>b_issued_count := issued + n\<rparr>" "0 < n" "0 \<le> issued + n" "issued + n \<le> b_requested_count b"
    "db' = db\<lparr>next_uuid := next_uuid db + nat n, serial_counters := serial_counters db1,
      stamps := stamps db @ stamp_rows (\<lambda>s. new_stamp ord b s k now ex) (next_uuid db) serials,
      stamp_batches := update_where (\<lambda>x. b_id x = b_id b) (\<lambda>_. b') (stamp_batches db)\<rparr>"
proof -
  from assms obtain start db1 ex serials db2 where
    1: "allocate_serial_block (o_product_category ord) (year_of now) n db = Inr (start, db1)"
    "dt_add now (STAMP_VALIDITY_DAYS * DAY) = Inr ex"
    "format_block (o_product_category ord) (year_of now) start (nat n) = Inr serials"
    and 2: "insert_stamps (\<lambda>s. new_stamp ord b s k now ex) serials db1 = Inr db2"
    and 3: "b' = b\<lparr>b_issued_count := issued + n\<rparr>" "save_batch b' db2 = Inr db'"
    by (auto simp: issue_stamps_def Let_def)
  note al = allocate_serial_block_ok [OF 1(1)]
  have db2: "db2 = db1\<lparr>next_uuid := next_uuid db1 + nat n,
                stamps := stamps db1 @ stamp_rows (\<lambda>s. new_stamp ord b s k now ex) (next_uuid db1) serials\<rparr>"
    using insert_stamps_ok [OF 2] format_block_length [OF 1(3)] by simp
  have db1: "db1 = db\<lparr>serial_counters := serial_counters db1\<rparr>" using al(2) .
  show thesis
    using 1 2 3 al(1) db2 by (intro that [of start db1 ex serials]) (auto simp: save_batch_ok, (subst db1, simp)+)
qed

lemma complete_batchE:
  assumes "complete_batch ord b issued now db = Inr (p, db')"
  obtains db1 where
    "p = \<lparr>ip_batch_id = b_id b, ip_requested = b_requested_count b, ip_issued = issued, ip_completed = True\<rparr>"
    "(b_status b = B_ISSUED \<and> db1 = db) \<or> (b_status b \<noteq> B_ISSUED \<and>
      save_batch (b\<lparr>b_status := B_ISSUED, b_issued_count := issued, b_completed_at := Some now\<rparr>) db = Inr db1)"
    "(o_status ord \<noteq> O_ISSUING \<and> db' = db1) \<or> (o_status ord = O_ISSUING \<and>
      (\<exists>ord' db2 root r pl. move_order ord O_ISSUED None ''issuance complete'' now db1 = Inr (ord', db2) \<and>
        merkle_root (sort (map s_serial (batch_stamps db2 (b_id b)))) = Inr root \<and>
        enqueue ''stamp_batch'' (b_id b) ''batch.anchor_requested'' (''batch.anchor:'' @ uuid_str (b_id b)) pl now db2 = Inr (r, db')))"
proof -
  from assms obtain db1 where
    "(b_status b = B_ISSUED \<and> db1 = db) \<or> (b_status b \<noteq> B_ISSUED \<and>
      save_batch (b\<lparr>b_status := B_ISSUED, b_issued_count := issued, b_completed_at := Some now\<rparr>) db = Inr db1)"
    and 2: "(if o_status ord = O_ISSUING then
          bind_res (assert_order_transition O_ISSUING O_ISSUED) (\<lambda>_.
          bind_res (move_order ord O_ISSUED None ''issuance complete'' now db1) (\<lambda>(ord, db).
          let serials = sort (map s_serial (batch_stamps db (b_id b))) in
          bind_res (merkle_root serials) (\<lambda>root.
          bind_res (enqueue ''stamp_batch'' (b_id b) ''batch.anchor_requested''
              (''batch.anchor:'' @ uuid_str (b_id b))
              [(''batch_id'', JStr (uuid_str (b_id b))), (''order_id'', JStr (uuid_str (o_id ord))),
               (''stamp_count'', JInt (int (length serials))), (''merkle_root'', JStr root)] now db) (\<lambda>(r, db).
          Inr db))))
        else Inr db1) = Inr db'"
    and "p = \<lparr>ip_batch_id = b_id b, ip_requested = b_requested_count b, ip_issued = issued, ip_completed = True\<rparr>"
    unfolding complete_batch_def by (auto split: if_splits)
  moreover from 2 have "(o_status ord \<noteq> O_ISSUING \<and> db' = db1) \<or> (o_status ord = O_ISSUING \<and>
      (\<exists>ord' db2 root r pl. move_order ord O_ISSUED None ''issuance complete'' now db1 = Inr (ord', db2) \<and>
        merkle_root (sort (map s_serial (batch_stamps db2 (b_id b)))) = Inr root \<and>
        enqueue ''stamp_batch'' (b_id b) ''batch.anchor_requested'' (''batch.anchor:'' @ uuid_str (b_id b)) pl now db2 = Inr (r, db')))"
    by (auto simp: Let_def split: if_splits)
  ultimately show thesis using that by blast
qed

lemma issue_chunkE:
  assumes "issue_chunk oid c k now db = Inr (p, db')"
  obtains ord b0 db1 ord' b db2 where
    "filter (\<lambda>x. o_id x = oid) (orders db) = [ord]" "o_status ord \<in> {O_PAID, O_ISSUING, O_ISSUED}"
    "ensure_batch ord now db = Inr (b0, db1)" "begin_issuing ord b0 now db1 = Inr (ord', b, db2)"
    "(b_requested_count b \<le> int (length (batch_stamps db2 (b_id b))) \<and>
        complete_batch ord' b (int (length (batch_stamps db2 (b_id b)))) now db2 = Inr (p, db')) \<or>
     (int (length (batch_stamps db2 (b_id b))) < b_requested_count b \<and>
      (\<exists>b' db3. issue_stamps ord' b (int (length (batch_stamps db2 (b_id b))))
         (min c (b_requested_count b - int (length (batch_stamps db2 (b_id b))))) k now db2 = Inr (b', db3) \<and>
       ((b_requested_count b' \<le> b_issued_count b' \<and> complete_batch ord' b' (b_issued_count b') now db3 = Inr (p, db')) \<or>
        (b_issued_count b' < b_requested_count b' \<and> db' = db3 \<and>
         p = \<lparr>ip_batch_id = b_id b', ip_requested = b_requested_count b', ip_issued = b_issued_count b', ip_completed = False\<rparr>))))"
proof -
  from assms obtain found where f: "scalar_one_or_none (filter (\<lambda>x. o_id x = oid) (orders db)) = Inr found"
    by (auto simp: issue_chunk_def)
  then obtain ord where ord: "found = Some ord" using assms by (cases found) (auto simp: issue_chunk_def)
  with f assms have one: "filter (\<lambda>x. o_id x = oid) (orders db) = [ord]" "o_status ord \<in> {O_PAID, O_ISSUING, O_ISSUED}"
    by (auto simp: issue_chunk_def split: if_splits)
  with assms obtain b0 db1 ord' b db2 where 1: "ensure_batch ord now db = Inr (b0, db1)"
    "begin_issuing ord b0 now db1 = Inr (ord', b, db2)"
    and 2: "(let issued_now = int (length (batch_stamps db2 (b_id b))); remaining = b_requested_count b - issued_now in
     if remaining \<le> 0 then complete_batch ord' b issued_now now db2 else
     bind_res (issue_stamps ord' b issued_now (min c remaining) k now db2) (\<lambda>(batch, db).
     if b_issued_count batch \<ge> b_requested_count batch
     then complete_batch ord' batch (b_issued_count batch) now db
     else Inr (\<lparr>ip_batch_id = b_id batch, ip_requested = b_requested_count batch, ip_issued = b_issued_count batch,
                ip_completed = False\<rparr>, db))) = Inr (p, db')"
    by (auto simp: issue_chunk_def simp del: bind_res_eq_Inr intro: FalseE dest!: iffD1 [OF bind_res_eq_Inr])
  show thesis
    using 2 by (intro that [OF one 1]) (auto simp: Let_def split: if_splits)
qed

section \<open>Termination of the loop\<close>

text \<open>The stamps an order still lacks: those its batch was opened for, or all that were ordered while it has no batch.\<close>

definition pending :: "uuid \<Rightarrow> db \<Rightarrow> nat" where
  "pending oid db =
     (case filter (\<lambda>b. b_order_id b = oid) (stamp_batches db) of
        b # _ \<Rightarrow> nat (b_requested_count b - int (length (batch_stamps db (b_id b))))
      | [] \<Rightarrow> (case filter (\<lambda>x. o_id x = oid) (orders db) of ord # _ \<Rightarrow> nat (o_quantity ord) | [] \<Rightarrow> 0))"

text \<open>The batch of an order is the only row with its order.\<close>

definition sole_batch :: "uuid \<Rightarrow> stamp_batch \<Rightarrow> db \<Rightarrow> bool" where
  "sole_batch oid b db = (b_order_id b = oid \<and> b \<in> set (stamp_batches db) \<and>
     (\<forall>x \<in> set (stamp_batches db). b_order_id x = oid \<longrightarrow> x = b))"

lemma sole_batch_filter: "sole_batch oid b db \<Longrightarrow> \<exists>bs. filter (\<lambda>x. b_order_id x = oid) (stamp_batches db) = b # bs"
proof (cases "filter (\<lambda>x. b_order_id x = oid) (stamp_batches db)")
  case (Cons a bs)
  assume sole: "sole_batch oid b db"
  have "a \<in> set (filter (\<lambda>x. b_order_id x = oid) (stamp_batches db))" unfolding Cons by simp
  with sole have "a = b" by (simp add: sole_batch_def)
  with Cons show ?thesis by simp
qed (auto simp: sole_batch_def filter_empty_conv)

lemma sole_batch_update:
  assumes "sole_batch oid b db" and "b_id b' = b_id b" "b_order_id b' = oid"
    and "stamp_batches db' = update_where (\<lambda>x. b_id x = b_id b') (\<lambda>_. b') (stamp_batches db)"
  shows "sole_batch oid b' db'"
  using assms unfolding sole_batch_def by (auto simp: set_update_where image_iff)

lemma ensure_batch_sole:
  assumes "ensure_batch ord now db = Inr (b, db')"
  shows "sole_batch (o_id ord) b db' \<and> stamps db' = stamps db \<and> pending (o_id ord) db' \<le> pending (o_id ord) db \<or>
    (sole_batch (o_id ord) b db' \<and> stamps db' = stamps db \<and> filter (\<lambda>b. b_order_id b = o_id ord) (stamp_batches db) = [] \<and>
     b_requested_count b = o_quantity ord)"
  using assms
proof (cases rule: ensure_batchE)
  case old
  then have "sole_batch (o_id ord) b db"
    unfolding sole_batch_def using filter_eq_singletonD [OF old(1)] filter_eq_singleton_unique [OF old(1)] by blast
  with old show ?thesis by simp
next
  case new
  then have "sole_batch (o_id ord) b db'" unfolding sole_batch_def by (auto simp: filter_empty_conv)
  with new show ?thesis by simp
qed

lemma begin_issuing_sole:
  assumes "sole_batch oid b db" and "begin_issuing ord b now db = Inr (ord', b', db')"
  shows "sole_batch oid b' db'" "stamps db' = stamps db" "b_id b' = b_id b" "b_requested_count b' = b_requested_count b"
    "o_id ord' = o_id ord"
proof -
  have "sole_batch oid b' db' \<and> stamps db' = stamps db \<and> b_id b' = b_id b \<and> b_requested_count b' = b_requested_count b \<and>
      o_id ord' = o_id ord"
    using assms(2)
  proof (cases rule: begin_issuingE)
    case (start db1)
    have "stamp_batches db1 = stamp_batches db" "stamps db1 = stamps db" "o_id ord' = o_id ord"
      using start(2) by (auto simp: move_order_ok)
    moreover have "sole_batch oid b' db'"
      by (rule sole_batch_update [OF assms(1)])
        (use assms(1) start calculation in \<open>auto simp: save_batch_ok sole_batch_def\<close>)
    ultimately show ?thesis using start by (auto simp: save_batch_ok)
  qed (use assms(1) in simp)
  then show "sole_batch oid b' db'" "stamps db' = stamps db" "b_id b' = b_id b" "b_requested_count b' = b_requested_count b"
    "o_id ord' = o_id ord" by simp_all
qed

lemma issue_stamps_sole:
  assumes "sole_batch oid b db" and "issue_stamps ord b issued n k now db = Inr (b', db')"
  shows "sole_batch oid b' db'" "length (batch_stamps db' (b_id b')) = length (batch_stamps db (b_id b)) + nat n"
    "0 < n" "b_requested_count b' = b_requested_count b" "b_issued_count b' = issued + n" "b_id b' = b_id b"
proof -
  have "sole_batch oid b' db' \<and> length (batch_stamps db' (b_id b')) = length (batch_stamps db (b_id b)) + nat n \<and>
      0 < n \<and> b_requested_count b' = b_requested_count b \<and> b_issued_count b' = issued + n \<and> b_id b' = b_id b"
    using assms(2)
  proof (rule issue_stampsE)
    fix start db1 ex serials
    assume fb: "format_block (o_product_category ord) (year_of now) start (nat n) = Inr serials"
      and b': "b' = b\<lparr>b_issued_count := issued + n\<rparr>" "0 < n"
      and db': "db' = db\<lparr>next_uuid := next_uuid db + nat n, serial_counters := serial_counters db1,
      stamps := stamps db @ stamp_rows (\<lambda>s. new_stamp ord b s k now ex) (next_uuid db) serials,
      stamp_batches := update_where (\<lambda>x. b_id x = b_id b) (\<lambda>_. b') (stamp_batches db)\<rparr>"
    have "sole_batch oid b' db'"
      by (rule sole_batch_update [OF assms(1)]) (use assms(1) in \<open>simp_all add: b' db' sole_batch_def\<close>)
    moreover have "batch_stamps db' (b_id b) = batch_stamps db (b_id b) @
        stamp_rows (\<lambda>s. new_stamp ord b s k now ex) (next_uuid db) serials"
      using batch_stamps_rows [of "b_id b" ord b k now ex "next_uuid db" serials]
      by (subst batch_stamps_append [of _ db]) (simp_all add: db')
    ultimately show ?thesis using b' format_block_length [OF fb] by simp
  qed
  then show "sole_batch oid b' db'" "length (batch_stamps db' (b_id b')) = length (batch_stamps db (b_id b)) + nat n"
    "0 < n" "b_requested_count b' = b_requested_count b" "b_issued_count b' = issued + n" "b_id b' = b_id b" by blast+
qed

lemma pending_sole:
  "sole_batch oid b db \<Longrightarrow> pending oid db = nat (b_requested_count b - int (length (batch_stamps db (b_id b))))"
  using sole_batch_filter [of oid b db] by (auto simp: pending_def)

lemma complete_batch_completed: "complete_batch ord b issued now db = Inr (p, db') \<Longrightarrow> ip_completed p"
  by (auto elim!: complete_batchE)

lemma issue_chunk_progress:
  assumes "issue_chunk oid c k now db = Inr (p, db')" and "\<not> ip_completed p"
  shows "pending oid db' < pending oid db"
  using assms(1)
proof (rule issue_chunkE)
  fix ord b0 db1 ord' db2 and b :: stamp_batch
  let ?m = "int (length (batch_stamps db2 (b_id b)))"
  assume one: "filter (\<lambda>x. o_id x = oid) (orders db) = [ord]"
    and eb: "ensure_batch ord now db = Inr (b0, db1)" and bi: "begin_issuing ord b0 now db1 = Inr (ord', b, db2)"
    and br: "(b_requested_count b \<le> ?m \<and> complete_batch ord' b ?m now db2 = Inr (p, db')) \<or>
     (?m < b_requested_count b \<and>
      (\<exists>b' db3. issue_stamps ord' b ?m (min c (b_requested_count b - ?m)) k now db2 = Inr (b', db3) \<and>
       ((b_requested_count b' \<le> b_issued_count b' \<and> complete_batch ord' b' (b_issued_count b') now db3 = Inr (p, db')) \<or>
        (b_issued_count b' < b_requested_count b' \<and> db' = db3 \<and>
         p = \<lparr>ip_batch_id = b_id b', ip_requested = b_requested_count b', ip_issued = b_issued_count b', ip_completed = False\<rparr>))))"
  from br assms(2) obtain b' where lt: "?m < b_requested_count b"
    and iss: "issue_stamps ord' b ?m (min c (b_requested_count b - ?m)) k now db2 = Inr (b', db')"
    using complete_batch_completed by blast
  have oid: "o_id ord = oid" using filter_eq_singletonD [OF one] by simp
  have s1: "sole_batch oid b0 db1" "stamps db1 = stamps db" using ensure_batch_sole [OF eb] oid by auto
  note s2 = begin_issuing_sole [OF s1(1) bi]
  note s3 = issue_stamps_sole [OF s2(1) iss]
  have "pending oid db' < pending oid db1" 
    unfolding pending_sole [OF s3(1)] pending_sole [OF s1(1)] using s2 s3 lt by (simp add: batch_stamps_def)
  moreover have "pending oid db1 \<le> pending oid db"
  proof (cases "filter (\<lambda>b. b_order_id b = oid) (stamp_batches db) = []")
    case True
    then have "pending oid db = nat (o_quantity ord)" by (simp add: pending_def one)
    moreover have "b_requested_count b0 = o_quantity ord"
      using eb True oid by (cases rule: ensure_batchE) auto
    ultimately show ?thesis unfolding pending_sole [OF s1(1)] by simp
  next
    case False
    with eb oid have "db1 = db" by (cases rule: ensure_batchE) auto
    then show ?thesis by simp
  qed
  ultimately show ?thesis by simp
qed

lemma issue_step_progress:
  "issue_step oid c k ak rv now db = Inr (p, db') \<Longrightarrow> \<not> ip_completed p \<Longrightarrow> pending oid db' < pending oid db"
  by (auto simp: issue_step_def split: if_splits intro: issue_chunk_progress)

text \<open>\<^verbatim>\<open>while True\<close>: the outcome, and the database as the last committed transaction left it.\<close>

function issue_loop ::
  "uuid \<Rightarrow> int \<Rightarrow> string \<Rightarrow> string \<Rightarrow> string \<Rightarrow> (nat \<Rightarrow> instant) \<Rightarrow> nat \<Rightarrow> db \<Rightarrow> issuance_progress res \<times> db" where
  "issue_loop order_id chunk_size secret audit_secret revision clock i db =
     (case issue_step order_id chunk_size secret audit_secret revision (clock i) db of
        Inl e \<Rightarrow> (Inl e, db)
      | Inr (p, db') \<Rightarrow>
          if ip_completed p then (Inr p, db')
          else issue_loop order_id chunk_size secret audit_secret revision clock (Suc i) db')"
  by pat_completeness auto
termination
  by (relation "measure (\<lambda>(order_id, chunk_size, secret, audit_secret, revision, clock, i, db). pending order_id db)")
    (auto dest: issue_step_progress)

declare issue_loop.simps [simp del]

definition issue_order ::
  "uuid \<Rightarrow> int \<Rightarrow> string \<Rightarrow> string \<Rightarrow> string \<Rightarrow> (nat \<Rightarrow> instant) \<Rightarrow> db \<Rightarrow> issuance_progress res \<times> db" where
  "issue_order order_id chunk_size secret audit_secret revision clock db =
     issue_loop order_id chunk_size secret audit_secret revision clock 0 db"

section \<open>The contract of the serial allocator\<close>

text \<open>
  What issuance relies on: a block starts at the next free number of its key, the next free number
  moves past the block, and other keys are not touched.  Blocks claimed one after the other are then
  disjoint, whatever their keys and sizes.
\<close>

locale serial_allocator =
  fixes alloc :: "'k \<Rightarrow> int \<Rightarrow> 's \<Rightarrow> (int \<times> 's) res" and next_free :: "'s \<Rightarrow> 'k \<Rightarrow> int"
  assumes alloc_start: "alloc k n s = Inr (i, s') \<Longrightarrow> i = next_free s k"
    and alloc_next: "alloc k n s = Inr (i, s') \<Longrightarrow> next_free s' k = i + n"
    and alloc_other: "alloc k n s = Inr (i, s') \<Longrightarrow> k' \<noteq> k \<Longrightarrow> next_free s' k' = next_free s k'"
    and alloc_size: "alloc k n s = Inr (i, s') \<Longrightarrow> 0 < n"
begin

text \<open>The blocks of a sequence of claims, as sets of keys and numbers.\<close>

fun claims :: "('k \<times> int) list \<Rightarrow> 's \<Rightarrow> ('k \<times> int) set list res" where
  "claims [] s = Inr []"
| "claims ((k, n) # rs) s =
     bind_res (alloc k n s) (\<lambda>(i, s). bind_res (claims rs s) (\<lambda>bs. Inr ({k} \<times> {i ..< i + n} # bs)))"

lemma alloc_mono: "alloc k n s = Inr (i, s') \<Longrightarrow> next_free s k' \<le> next_free s' k'"
  using alloc_start [of k n s i s'] alloc_next [of k n s i s'] alloc_size [of k n s i s'] alloc_other [of k n s i s' k']
  by (cases "k' = k") auto

lemma claims_above: "claims rs s = Inr bs \<Longrightarrow> b \<in> set bs \<Longrightarrow> (k, m) \<in> b \<Longrightarrow> next_free s k \<le> m"
proof (induction rs s arbitrary: bs rule: claims.induct)
  case (2 k0 n rs s)
  then obtain i s' bs' where al: "alloc k0 n s = Inr (i, s')" and rest: "claims rs s' = Inr bs'"
    and bs: "bs = {k0} \<times> {i ..< i + n} # bs'" by auto
  show ?case
  proof (cases "b \<in> set bs'")
    case True
    with "2.IH" [OF rest] "2.prems"(3) have "next_free s' k \<le> m" by simp
    with alloc_mono [OF al, of k] show ?thesis by simp
  next
    case False
    with "2.prems" bs have "k = k0" "i \<le> m" by auto
    with alloc_start [OF al] show ?thesis by simp
  qed
qed simp

lemma claims_disjoint: "claims rs s = Inr bs \<Longrightarrow> pairwise disjnt (set bs) \<and> distinct bs"
proof (induction rs s arbitrary: bs rule: claims.induct)
  case (2 k0 n rs s)
  then obtain i s' bs' where al: "alloc k0 n s = Inr (i, s')" and rest: "claims rs s' = Inr bs'"
    and bs: "bs = {k0} \<times> {i ..< i + n} # bs'" by auto
  have apart: "disjnt ({k0} \<times> {i ..< i + n}) b" if "b \<in> set bs'" for b
    using claims_above [OF rest that] alloc_next [OF al] by (fastforce simp: disjnt_def)
  moreover have "({k0} \<times> {i ..< i + n}) \<noteq> {}" using alloc_size [OF al] by simp
  ultimately have "{k0} \<times> {i ..< i + n} \<notin> set bs'" by (metis disjnt_self_iff_empty)
  with apart "2.IH" [OF rest] show ?case
    by (auto simp: bs pairwise_insert disjnt_sym)
qed (simp add: pairwise_def)

end

definition next_serial :: "db \<Rightarrow> string \<times> int \<Rightarrow> int" where
  "next_serial db = (\<lambda>(cat, year). case filter (counter_for cat year) (serial_counters db) of
     c # _ \<Rightarrow> sc_next_value c | [] \<Rightarrow> 1)"

lemma counter_for_upd [simp]: "counter_for cat y (c\<lparr>sc_next_value := v\<rparr>) = counter_for cat y c"
  by (simp add: counter_for_def)

lemma counter_other: "counter_for cat y c \<Longrightarrow> counter_for cat' y' c \<longleftrightarrow> (cat', y') = (cat, y)"
  by (auto simp: counter_for_def)

lemma next_serial_update:
  "filter (counter_for cat' y') (update_where (counter_for cat y) f cs) =
    (if (cat', y') = (cat, y) then map f (filter (counter_for cat y) cs) else filter (counter_for cat' y') cs)"
  if "\<And>c. counter_for cat y (f c) = counter_for cat y c" "\<And>c. counter_for cat' y' (f c) = counter_for cat' y' c"
  using that by (induction cs) (auto dest: counter_other)

lemma allocate_serial_blockE:
  assumes "allocate_serial_block cat y n db = Inr (start, db')"
  obtains c cs where "0 < n" "filter (counter_for cat y) cs = [c]" "start = sc_next_value c"
    "cs = serial_counters db \<or> (filter (counter_for cat y) (serial_counters db) = [] \<and> sc_next_value c = 1 \<and>
       cs = serial_counters db @ [c])"
    "db' = db\<lparr>serial_counters := update_where (counter_for cat y) (\<lambda>c. c\<lparr>sc_next_value := sc_next_value c + n\<rparr>) cs\<rparr>"
proof -
  from assms obtain db1 where n: "0 < n" and ec: "ensure_counter cat y db = Inr db1"
    and db': "db' = db1\<lparr>serial_counters := update_where (counter_for cat y)
      (\<lambda>c. c\<lparr>sc_next_value := sc_next_value c + n\<rparr>) (serial_counters db1)\<rparr>"
    and one: "map (\<lambda>c. sc_next_value c - n) (filter (counter_for cat y) (serial_counters db')) = [start]"
    by (auto simp: allocate_serial_block_def Let_def split: if_splits)
  from one have "map (\<lambda>c. sc_next_value c) (filter (counter_for cat y) (serial_counters db1)) = [start]"
    by (simp add: db' next_serial_update comp_def)
  then obtain c where c: "filter (counter_for cat y) (serial_counters db1) = [c]" "start = sc_next_value c" by auto
  have "db1 = db \<or> (\<not> list_ex (counter_for cat y) (serial_counters db) \<and>
    db1 = db\<lparr>serial_counters := serial_counters db @ [\<lparr>sc_product_category = cat, sc_year = y, sc_next_value = 1\<rparr>]\<rparr>)"
    using ec by (cases "list_ex (counter_for cat y) (serial_counters db)") (simp_all add: ensure_counter_def)
  then consider "db1 = db" |
    "\<not> list_ex (counter_for cat y) (serial_counters db)"
    "db1 = db\<lparr>serial_counters := serial_counters db @ [\<lparr>sc_product_category = cat, sc_year = y, sc_next_value = 1\<rparr>]\<rparr>"
    by blast
  then show thesis
  proof cases
    case 1
    with n c db' show ?thesis by (intro that [of "serial_counters db" c]) simp_all
  next
    case 2
    then have none: "filter (counter_for cat y) (serial_counters db) = []" by (auto simp: filter_empty_conv list_ex_iff)
    with c(1) have "c = \<lparr>sc_product_category = cat, sc_year = y, sc_next_value = 1\<rparr>"
      unfolding 2(2) by (simp add: counter_for_def)
    then have "serial_counters db1 = serial_counters db @ [c]" "sc_next_value c = 1" by (simp_all add: 2)
    moreover have "db1\<lparr>serial_counters := z\<rparr> = db\<lparr>serial_counters := z\<rparr>" for z by (simp add: 2(2))
    ultimately show ?thesis using n c db' none by (intro that [of "serial_counters db1" c]) (simp_all only: simp_thms)
  qed
qed

lemma allocate_other:
  assumes "allocate_serial_block cat y n db = Inr (start, db')" and "(cat', y') \<noteq> (cat, y)"
  shows "filter (counter_for cat' y') (serial_counters db') = filter (counter_for cat' y') (serial_counters db)"
  using assms(1)
proof (rule allocate_serial_blockE)
  fix c cs
  assume one: "filter (counter_for cat y) cs = [c]"
    and cs: "cs = serial_counters db \<or> (filter (counter_for cat y) (serial_counters db) = [] \<and> sc_next_value c = 1 \<and>
       cs = serial_counters db @ [c])"
    and db': "db' = db\<lparr>serial_counters := update_where (counter_for cat y) (\<lambda>c. c\<lparr>sc_next_value := sc_next_value c + n\<rparr>) cs\<rparr>"
  have "counter_for cat y c" using filter_eq_singletonD [OF one] by simp
  then have "\<not> counter_for cat' y' c" using assms(2) by (auto dest: counter_other)
  then have "filter (counter_for cat' y') cs = filter (counter_for cat' y') (serial_counters db)" using cs by auto
  moreover have "filter (counter_for cat' y') (update_where (counter_for cat y) (\<lambda>c. c\<lparr>sc_next_value := sc_next_value c + n\<rparr>) cs)
      = filter (counter_for cat' y') cs"
    using assms(2) by (subst next_serial_update) auto
  ultimately show ?thesis by (simp add: db')
qed

interpretation serials: serial_allocator "\<lambda>(cat, y). allocate_serial_block cat y" next_serial
proof
  fix k n db i db' k'
  assume al: "(case k of (cat, y) \<Rightarrow> allocate_serial_block cat y) n db = Inr (i, db')"
  obtain cat y where k: "k = (cat, y)" by fastforce
  from al have ok: "allocate_serial_block cat y n db = Inr (i, db')" by (simp add: k)
  note E = allocate_serial_blockE [OF ok]
  show "0 < n" by (rule E)
  show "i = next_serial db k" by (rule E) (auto simp: next_serial_def k)
  show "next_serial db' k = i + n" by (rule E) (simp add: next_serial_def k next_serial_update)
  assume "k' \<noteq> k"
  then show "next_serial db' k' = next_serial db k'"
    using allocate_other [OF ok, of "fst k'" "snd k'"] by (simp add: next_serial_def k case_prod_beta prod_eq_iff)
qed

section \<open>The invariant of issuance\<close>

text \<open>
  A batch belongs to a paid order, asks for the quantity of that order, and counts its stamps; it
  never holds more of them than the order paid for, and exactly as many once the order is issued.
\<close>

definition batch_ok :: "db \<Rightarrow> stamp_batch \<Rightarrow> bool" where
  "batch_ok db b =
     (b_issued_count b = int (length (batch_stamps db (b_id b))) \<and> b_issued_count b \<le> b_requested_count b \<and>
      (\<exists>ord \<in> set (orders db). o_id ord = b_order_id b \<and> paid ord \<and> b_requested_count b = o_quantity ord \<and>
         (o_status ord = O_ISSUED \<longrightarrow> b_issued_count b = b_requested_count b)))"

text \<open>A stamp belongs to a batch, and its serial was allocated.\<close>

definition allocated :: "db \<Rightarrow> stamp \<Rightarrow> bool" where
  "allocated db s = (\<exists>y n. format_serial (s_product_category s) y n = Inr (s_serial s) \<and>
     n < next_serial db (s_product_category s, y))"

definition stamp_ok :: "db \<Rightarrow> stamp \<Rightarrow> bool" where
  "stamp_ok db s = (s_batch_id s \<in> b_id ` set (stamp_batches db) \<and> allocated db s)"

definition stamps_wf :: "db \<Rightarrow> bool" where
  "stamps_wf db =
     (distinct (map b_id (stamp_batches db)) \<and> distinct (map b_order_id (stamp_batches db)) \<and>
      below (next_uuid db) (map b_id (stamp_batches db)) \<and>
      distinct (map s_serial (stamps db)) \<and> distinct (map s_id (stamps db)) \<and> below (next_uuid db) (map s_id (stamps db)) \<and>
      distinct (map (\<lambda>c. (sc_product_category c, sc_year c)) (serial_counters db)) \<and> (\<forall>k. 1 \<le> next_serial db k) \<and>
      (\<forall>b \<in> set (stamp_batches db). batch_ok db b) \<and> (\<forall>s \<in> set (stamps db). stamp_ok db s) \<and>
      (\<forall>ord \<in> set (orders db). o_status ord = O_ISSUED \<longrightarrow> o_id ord \<in> b_order_id ` set (stamp_batches db)))"

text \<open>Steps of the other services: paid orders stay as they are, and nothing is issued.\<close>

definition issuance_kept :: "db \<Rightarrow> db \<Rightarrow> bool" where
  "issuance_kept db db' =
     ((\<forall>x \<in> set (orders db). paid x \<longrightarrow> x \<in> set (orders db')) \<and>
      (\<forall>x \<in> set (orders db'). o_status x = O_ISSUED \<longrightarrow> x \<in> set (orders db)) \<and>
      stamp_batches db' = stamp_batches db \<and> stamps db' = stamps db \<and> serial_counters db' = serial_counters db \<and>
      next_uuid db \<le> next_uuid db')"

lemma issuance_kept_refl [simp]: "issuance_kept db db"
  by (simp add: issuance_kept_def)

lemma issuance_kept_trans: "issuance_kept a b \<Longrightarrow> issuance_kept b c \<Longrightarrow> issuance_kept a c"
  unfolding issuance_kept_def by (elim conjE, intro conjI) (blast, blast, simp, simp, simp, rule order_trans)

lemma issuance_keptI:
  "orders db' = orders db \<Longrightarrow> stamp_batches db' = stamp_batches db \<Longrightarrow> stamps db' = stamps db \<Longrightarrow>
    serial_counters db' = serial_counters db \<Longrightarrow> next_uuid db \<le> next_uuid db' \<Longrightarrow> issuance_kept db db'"
  by (simp add: issuance_kept_def)

lemma stamps_wf_kept [inv_pres]:
  assumes "stamps_wf db" and "issuance_kept db db'"
  shows "stamps_wf db'"
proof -
  have eqs: "batch_stamps db' = batch_stamps db" "next_serial db' = next_serial db"
    using assms(2) by (auto simp: issuance_kept_def batch_stamps_def next_serial_def fun_eq_iff)
  have "batch_ok db' b" if "batch_ok db b" for b
    using that assms(2) by (auto simp: batch_ok_def issuance_kept_def eqs)
  moreover have "stamp_ok db' s = stamp_ok db s" for s
    using assms(2) by (simp add: stamp_ok_def allocated_def eqs issuance_kept_def)
  ultimately show ?thesis
    using assms by (auto simp: stamps_wf_def eqs issuance_kept_def intro: below_mono)
qed

lemma audit_kept: "record_audit_event a r t k rv db = Inr (e, db') \<Longrightarrow> issuance_kept db db'"
  by (drule record_audit_event_db) (auto intro: issuance_keptI)

lemma enqueue_kept: "enqueue at ai et key p av db = Inr (r, db') \<Longrightarrow> issuance_kept db db'"
  by (drule enqueue_frame) (auto intro: issuance_keptI)

text \<open>
  A step of issuance: an order, its batch and the stamps of the batch move together.
\<close>

lemma stamps_wf_step:
  assumes wf: "stamps_wf db" and owf: "orders_wf db"
    and ord: "ord \<in> set (orders db)" and b: "b \<in> set (stamp_batches db)" "b_order_id b = o_id ord"
    and os: "orders db' = map (\<lambda>x. if x = ord then ord' else x) (orders db)" "o_id ord' = o_id ord"
      "o_quantity ord' = o_quantity ord" "paid ord'"
    and bs: "stamp_batches db' = update_where (\<lambda>x. b_id x = b_id b) (\<lambda>_. b') (stamp_batches db)" "b_id b' = b_id b"
      "b_order_id b' = b_order_id b" "b_requested_count b' = b_requested_count b"
    and ss: "stamps db' = stamps db @ xs" "\<And>x. x \<in> set xs \<Longrightarrow> s_batch_id x = b_id b \<and> allocated db' x"
      "distinct (map s_serial (stamps db'))" "distinct (map s_id (stamps db'))" "below (next_uuid db') (map s_id (stamps db'))"
    and cnt: "b_issued_count b' = int (length (batch_stamps db (b_id b)) + length xs)" "b_issued_count b' \<le> b_requested_count b"
      "o_status ord' = O_ISSUED \<Longrightarrow> b_issued_count b' = b_requested_count b"
    and ctr: "\<And>k. next_serial db k \<le> next_serial db' k" "distinct (map (\<lambda>c. (sc_product_category c, sc_year c)) (serial_counters db'))"
    and nu: "next_uuid db \<le> next_uuid db'"
  shows "stamps_wf db'"
proof -
  have bs': "stamp_batches db' = map (\<lambda>x. if x = b then b' else x) (stamp_batches db)"
    unfolding bs(1) using wf b(1) by (intro update_row_by_key) (simp_all add: stamps_wf_def)
  have keys: "map b_id (stamp_batches db') = map b_id (stamp_batches db)"
    "map b_order_id (stamp_batches db') = map b_order_id (stamp_batches db)" by (simp_all add: bs' bs)
  have ids: "b_id ` set (stamp_batches db') = b_id ` set (stamp_batches db)"
    "b_order_id ` set (stamp_batches db') = b_order_id ` set (stamp_batches db)" using keys by (metis set_map)+
  have mine: "batch_stamps db' (b_id b) = batch_stamps db (b_id b) @ xs"
    using ss(2) by (simp add: batch_stamps_def ss(1))
  have others: "batch_stamps db' i = batch_stamps db i" if "i \<noteq> b_id b" for i
    using ss(2) that by (auto simp: batch_stamps_def ss(1) filter_empty_conv)
  have okb: "batch_ok db b" using wf b(1) by (simp add: stamps_wf_def)
  have "batch_ok db' b'"
  proof -
    from okb have "b_requested_count b = o_quantity ord"
      using ord b(2) orders_wf_unique [OF owf] by (auto simp: batch_ok_def)
    then show ?thesis
      unfolding batch_ok_def using cnt ord b(2) os bs mine by (auto intro!: bexI [of _ ord'])
  qed
  moreover have "batch_ok db' x" if x: "x \<in> set (stamp_batches db)" "x \<noteq> b" for x
  proof -
    have ne: "b_id x \<noteq> b_id b" "b_order_id x \<noteq> b_order_id b"
      using wf x b(1) key_unique [of b_id "stamp_batches db"] key_unique [of b_order_id "stamp_batches db"]
      by (auto simp: stamps_wf_def)
    have "batch_ok db x" using wf x(1) by (simp add: stamps_wf_def)
    then obtain y where y: "y \<in> set (orders db)" "o_id y = b_order_id x" "paid y" "b_requested_count x = o_quantity y"
      "o_status y = O_ISSUED \<longrightarrow> b_issued_count x = b_requested_count x"
      and c: "b_issued_count x = int (length (batch_stamps db (b_id x)))" "b_issued_count x \<le> b_requested_count x"
      by (auto simp: batch_ok_def)
    have "y \<noteq> ord" using y(2) ne(2) b(2) by auto
    then have "y \<in> set (orders db')" using y(1) by (force simp: os(1))
    with y c others [OF ne(1)] show ?thesis by (auto simp: batch_ok_def)
  qed
  ultimately have "\<forall>x \<in> set (stamp_batches db'). batch_ok db' x" by (auto simp: bs')
  moreover have "stamp_ok db' x" if "x \<in> set (stamps db)" for x
    using wf that ctr(1) ids(1) by (fastforce simp: stamps_wf_def stamp_ok_def allocated_def intro: less_le_trans)
  moreover have "stamp_ok db' x" if "x \<in> set xs" for x
    using ss(2) [OF that] b(1) ids(1) by (simp add: stamp_ok_def)
  moreover have "\<forall>k. 1 \<le> next_serial db' k" using wf ctr(1) order_trans unfolding stamps_wf_def by blast
  moreover have "o_id ord \<in> b_order_id ` set (stamp_batches db)" using b by (metis image_eqI)
  ultimately show ?thesis
    using wf nu ss(3-5) ctr(2) unfolding stamps_wf_def keys ids
    by (auto simp: ss(1) os(1,2) intro: below_mono)
qed

section \<open>Issuance keeps the invariants\<close>

text \<open>The invariants of orders, money, outbox and audit trail, together.\<close>

definition rest_wf :: "string \<Rightarrow> db \<Rightarrow> bool" where
  "rest_wf secret db = (orders_wf db \<and> money_wf db \<and> outbox_wf db \<and> audit_intact secret db)"

lemma outbox_wf_cong: "outbox_messages db' = outbox_messages db \<Longrightarrow> next_uuid db \<le> next_uuid db' \<Longrightarrow> outbox_wf db \<Longrightarrow> outbox_wf db'"
  by (auto simp: outbox_wf_def intro: below_mono)

lemma rest_wf_cong [inv_pres]:
  assumes "orders db' = orders db" "order_transitions db' = order_transitions db" "approvals db' = approvals db"
    "payment_intents db' = payment_intents db" "payment_receipts db' = payment_receipts db" "journals db' = journals db"
    "ledger_entries db' = ledger_entries db" "outbox_messages db' = outbox_messages db" "audit_events db' = audit_events db"
    "next_seq db' = next_seq db" "next_uuid db \<le> next_uuid db'" and "rest_wf k db"
  shows "rest_wf k db'"
  using assms orders_wf_cong [of db' db] money_wf_cong [of db' db] outbox_wf_cong [of db' db] audit_intact_cong [of db' db k]
  by (simp add: rest_wf_def)

lemma rest_wf_move [inv_pres]:
  assumes wf: "rest_wf k db" and ord: "ord \<in> set (orders db)" and chk: "assert_order_transition (o_status ord) tgt = Inr ()"
    and lev: "tgt \<in> APPROVED_STATES \<Longrightarrow> o_status ord \<in> APPROVED_STATES"
    and paid: "paid ord \<longleftrightarrow> tgt \<in> {O_PAID, O_ISSUING, O_ISSUED}"
    and mv: "move_order ord tgt aid why now db = Inr (ord', db')"
  shows "rest_wf k db'" and "ord' \<in> set (orders db')"
proof -
  have owf: "orders_wf db" using wf by (simp add: rest_wf_def)
  have mv': "orders_wf db'" "ord' \<in> set (orders db')" using move_order_wf [OF owf ord chk _ mv] lev by auto
  moreover have "cores db' = cores db" using owf ord mv paid by (rule core_move)
  then have "money_wf db'" using wf mv by (intro money_wf_cong [of db' db]) (auto simp: rest_wf_def move_order_ok)
  moreover have "outbox_wf db'" using wf mv by (intro outbox_wf_cong [of db' db]) (auto simp: rest_wf_def move_order_ok)
  moreover have "audit_intact k db'" using wf mv audit_intact_cong [of db' db k] by (auto simp: rest_wf_def move_order_ok)
  ultimately show "rest_wf k db'" "ord' \<in> set (orders db')" by (simp_all add: rest_wf_def)
qed

lemma rest_wf_enqueue [inv_pres]:
  assumes "rest_wf k db" and "enqueue at ai et key p av db = Inr (r, db')"
  shows "rest_wf k db'"
proof -
  obtain u ms where db': "db' = db\<lparr>next_uuid := u, outbox_messages := ms\<rparr>" "next_uuid db \<le> u"
    using enqueue_frame [OF assms(2)] by blast
  have "outbox_wf db'" using assms(1) enqueue_wf [OF _ assms(2)] by (simp add: rest_wf_def)
  then show ?thesis
    using assms(1) db' orders_wf_cong [of db' db] money_wf_cong [of db' db] audit_intact_cong [of db' db k]
    by (simp add: rest_wf_def)
qed

lemma rest_wf_audit [inv_pres]:
  assumes "rest_wf k db" and "record_audit_event a r t k rv db = Inr (e, db')"
  shows "rest_wf k db'"
  using assms orders_wf_audit [OF _ assms(2)] money_wf_audit [OF _ assms(2)] record_audit_event_intact [OF _ assms(2)]
    outbox_wf_cong [of db' db] record_audit_event_db [OF assms(2)]
  by (simp add: rest_wf_def)

definition platform_wf :: "string \<Rightarrow> db \<Rightarrow> bool" where
  "platform_wf secret db = (rest_wf secret db \<and> stamps_wf db)"

lemma platform_wf_audit [inv_pres]:
  "platform_wf k db \<Longrightarrow> record_audit_event a r t k rv db = Inr (e, db') \<Longrightarrow> platform_wf k db'"
  using rest_wf_audit audit_kept stamps_wf_kept unfolding platform_wf_def by blast

lemma platform_orders: "platform_wf k db \<Longrightarrow> orders_wf db" "platform_wf k db \<Longrightarrow> stamps_wf db" "platform_wf k db \<Longrightarrow> rest_wf k db"
  by (simp_all add: platform_wf_def rest_wf_def)

lemma stamps_wf_keys:
  assumes "stamps_wf db"
  shows "distinct (map s_serial (stamps db))" "distinct (map s_id (stamps db))" "below (next_uuid db) (map s_id (stamps db))"
    "distinct (map (\<lambda>c. (sc_product_category c, sc_year c)) (serial_counters db))" "distinct (map b_id (stamp_batches db))"
    "distinct (map b_order_id (stamp_batches db))" "below (next_uuid db) (map b_id (stamp_batches db))"
  using assms by (simp_all add: stamps_wf_def)

lemma stamps_wf_batch: "stamps_wf db \<Longrightarrow> b \<in> set (stamp_batches db) \<Longrightarrow> batch_ok db b"
  by (simp add: stamps_wf_def)

lemma batch_okD:
  "batch_ok db b \<Longrightarrow> b_issued_count b = int (length (batch_stamps db (b_id b)))"
  "batch_ok db b \<Longrightarrow> b_issued_count b \<le> b_requested_count b"
  by (simp_all add: batch_ok_def)

lemma map_same: "map (\<lambda>x. if x = a then a else x) xs = xs"
  by (induction xs) auto

lemma save_batch_platform [inv_pres]:
  assumes wf: "platform_wf k db" and b: "b \<in> set (stamp_batches db)" and sv: "save_batch b' db = Inr db'"
    and same: "b_id b' = b_id b" "b_order_id b' = b_order_id b" "b_requested_count b' = b_requested_count b"
      "b_issued_count b' = b_issued_count b"
  shows "platform_wf k db'" and "b' \<in> set (stamp_batches db')"
proof -
  have db': "db' = db\<lparr>stamp_batches := update_where (\<lambda>x. b_id x = b_id b) (\<lambda>_. b') (stamp_batches db)\<rparr>"
    using sv same by (simp add: save_batch_ok)
  have ok: "batch_ok db b" using wf b by (simp add: platform_wf_def stamps_wf_def)
  then obtain ord where ord: "ord \<in> set (orders db)" "o_id ord = b_order_id b" "paid ord"
    "o_status ord = O_ISSUED \<longrightarrow> b_issued_count b = b_requested_count b" by (auto simp: batch_ok_def)
  have ns: "next_serial db' = next_serial db" by (simp add: next_serial_def db' fun_eq_iff)
  have "stamps_wf db'"
    by (rule stamps_wf_step [OF platform_orders(2,1) [OF wf] ord(1) b ord(2) [symmetric], where ord' = ord and b' = b' and xs = "[]"])
      (use ord batch_okD [OF ok] stamps_wf_keys [OF platform_orders(2) [OF wf]] same in \<open>simp_all add: db' map_same ns [unfolded db']\<close>)
  moreover have "rest_wf k db'" by (rule rest_wf_cong [of db' db]) (use wf in \<open>simp_all add: db' platform_wf_def\<close>)
  ultimately show "platform_wf k db'" by (simp add: platform_wf_def)
  show "b' \<in> set (stamp_batches db')" unfolding db' using b by (auto simp: set_update_where image_iff)
qed

lemma move_order_platform [inv_pres]:
  assumes wf: "platform_wf k db" and ord: "ord \<in> set (orders db)" and b: "b \<in> set (stamp_batches db)" "b_order_id b = o_id ord"
    and mv: "move_order ord tgt None why now db = Inr (ord', db')"
    and tgt: "(o_status ord, tgt) \<in> {(O_PAID, O_ISSUING), (O_ISSUING, O_ISSUED)}"
      "tgt = O_ISSUED \<Longrightarrow> b_issued_count b = b_requested_count b"
  shows "platform_wf k db'" and "ord' \<in> set (orders db')"
proof -
  have owf: "orders_wf db" using wf by (rule platform_orders)
  have chk: "assert_order_transition (o_status ord) tgt = Inr ()" using tgt(1) by (auto simp: assert_order_transition_iff)
  have rest: "rest_wf k db'" "ord' \<in> set (orders db')"
    using rest_wf_move [OF platform_orders(3) [OF wf] ord chk _ _ mv] tgt(1) by (auto simp: APPROVED_STATES_def paid_def)
  have ord': "ord' = ord\<lparr>o_status := tgt, o_updated_at := now\<rparr>"
    and fr: "stamp_batches db' = stamp_batches db" "stamps db' = stamps db" "serial_counters db' = serial_counters db"
      "next_uuid db' = Suc (next_uuid db)" using mv by (auto simp: move_order_ok)
  have os: "orders db' = map (\<lambda>x. if x = ord then ord' else x) (orders db)"
    using mv ord owf by (auto simp: move_order_ok orders_wf_def update_row_by_key)
  have ns: "next_serial db' = next_serial db" by (simp add: next_serial_def fr fun_eq_iff)
  have wfs: "stamps_wf db" using wf by (rule platform_orders)
  then have bs: "stamp_batches db = update_where (\<lambda>x. b_id x = b_id b) (\<lambda>_. b) (stamp_batches db)"
    using update_row_by_key [of b_id "stamp_batches db" b b] b(1) by (simp add: stamps_wf_def map_same)
  have okb: "batch_ok db b" using wfs b(1) by (simp add: stamps_wf_def)
  have "stamps_wf db'"
    by (rule stamps_wf_step [OF wfs owf ord b os, where b' = b and xs = "[]"])
      (use stamps_wf_keys [OF wfs] batch_okD [OF okb] tgt bs in \<open>auto simp: ord' fr ns paid_def\<close>)
  with rest show "platform_wf k db'" "ord' \<in> set (orders db')" by (simp_all add: platform_wf_def)
qed

lemma ensure_batch_platform [inv_pres]:
  assumes wf: "platform_wf k db" and ord: "ord \<in> set (orders db)" "paid ord" and eb: "ensure_batch ord now db = Inr (b, db')"
  shows "platform_wf k db'" and "b \<in> set (stamp_batches db')" and "b_order_id b = o_id ord" and "orders db' = orders db"
proof -
  have wfs: "stamps_wf db" using wf by (rule platform_orders)
  have "platform_wf k db' \<and> b \<in> set (stamp_batches db') \<and> b_order_id b = o_id ord \<and> orders db' = orders db" using eb
  proof (cases rule: ensure_batchE)
    case old
    with wf filter_eq_singletonD [OF old(1)] show ?thesis by simp
  next
    case new
    have fresh: "o_id ord \<notin> b_order_id ` set (stamp_batches db)" using new(1) by (auto simp: filter_empty_conv)
    have none: "batch_stamps db (next_uuid db) = []"
      using wfs below_keyD [OF stamps_wf_keys(7) [OF wfs]]
      by (fastforce simp: batch_stamps_def filter_empty_conv stamps_wf_def stamp_ok_def)
    have eqs: "batch_stamps db' = batch_stamps db" "next_serial db' = next_serial db"
      by (simp_all add: batch_stamps_def next_serial_def new(4) fun_eq_iff)
    have os: "orders db' = orders db" by (simp add: new(4))
    have "o_status ord \<noteq> O_ISSUED" using wfs ord fresh by (auto simp: stamps_wf_def)
    moreover have "0 < o_quantity ord"
      using ord(1) platform_orders(1) [OF wf] by (simp add: orders_wf_def order_ok_def priced_def)
    ultimately have "batch_ok db' b"
      using ord unfolding batch_ok_def eqs by (auto simp: new(2,4) none intro!: bexI [of _ ord])
    moreover have "batch_ok db' x" if "x \<in> set (stamp_batches db)" for x
      using stamps_wf_batch [OF wfs that] unfolding batch_ok_def eqs os .
    moreover have "stamp_ok db' x" if "x \<in> set (stamps db)" for x
      using wfs that by (simp add: stamps_wf_def stamp_ok_def allocated_def eqs) (simp add: new(4))
    ultimately have "stamps_wf db'"
      using wfs fresh new(2) below_fresh_key [OF stamps_wf_keys(7) [OF wfs]]
      unfolding stamps_wf_def eqs by (auto simp: new(4))
    moreover have "rest_wf k db'"
      by (rule rest_wf_cong [of db' db]) (use platform_orders(3) [OF wf] in \<open>simp_all add: new(4)\<close>)
    ultimately show ?thesis using new(2,4) by (simp add: platform_wf_def)
  qed
  then show "platform_wf k db'" "b \<in> set (stamp_batches db')" "b_order_id b = o_id ord" "orders db' = orders db" by simp_all
qed

lemma begin_issuing_platform [inv_pres]:
  assumes wf: "platform_wf k db" and ord: "ord \<in> set (orders db)" "paid ord" and b: "b \<in> set (stamp_batches db)" "b_order_id b = o_id ord"
    and bi: "begin_issuing ord b now db = Inr (ord', b', db')"
  shows "platform_wf k db'" and "ord' \<in> set (orders db')" and "b' \<in> set (stamp_batches db')" and "b_order_id b' = o_id ord'"
    and "o_status ord' \<in> {O_ISSUING, O_ISSUED}" and "o_quantity ord' = o_quantity ord" and "o_id ord' = o_id ord"
    and "o_product_category ord' = o_product_category ord"
proof -
  have "platform_wf k db' \<and> ord' \<in> set (orders db') \<and> b' \<in> set (stamp_batches db') \<and> b_order_id b' = o_id ord' \<and>
      o_status ord' \<in> {O_ISSUING, O_ISSUED} \<and> o_quantity ord' = o_quantity ord \<and> o_id ord' = o_id ord \<and>
      o_product_category ord' = o_product_category ord"
    using bi
  proof (cases rule: begin_issuingE)
    case (start db1)
    have 1: "platform_wf k db1" "ord' \<in> set (orders db1)"
      using move_order_platform [OF wf ord(1) b start(2)] start(1) by simp_all
    have "b \<in> set (stamp_batches db1)" and ord': "ord' = ord\<lparr>o_status := O_ISSUING, o_updated_at := now\<rparr>"
      using b(1) start(2) by (auto simp: move_order_ok)
    from save_batch_platform [OF 1(1) this(1) start(4)] start(3)
    have "platform_wf k db'" "b' \<in> set (stamp_batches db')" by simp_all
    moreover have "orders db' = orders db1" using start(4) by (simp add: save_batch_ok)
    ultimately show ?thesis using 1(2) b(2) start(3) ord' by simp
  next
    case resume
    with wf ord b show ?thesis by (auto simp: paid_def)
  qed
  then show "platform_wf k db'" "ord' \<in> set (orders db')" "b' \<in> set (stamp_batches db')" "b_order_id b' = o_id ord'"
    "o_status ord' \<in> {O_ISSUING, O_ISSUED}" "o_quantity ord' = o_quantity ord" "o_id ord' = o_id ord"
    "o_product_category ord' = o_product_category ord" by blast+
qed

lemma insert_stamps_distinct:
  assumes "insert_stamps mk ss db = Inr db'" and "distinct (map s_serial (stamps db))" "distinct (map s_id (stamps db))"
  shows "distinct (map s_serial (stamps db')) \<and> distinct (map s_id (stamps db'))"
  using assms
proof (induction ss arbitrary: db)
  case (Cons s ss)
  from Cons.prems(1) obtain r db1 where ins: "insert_stamp (mk s) db = Inr (r, db1)" and rest: "insert_stamps mk ss db1 = Inr db'"
    by auto
  have "distinct (map s_serial (stamps db1))" using Cons.prems(2) ins by (rule serial_index.ins_distinct)
  moreover have "distinct (map s_id (stamps db1))"
    using ins Cons.prems(3) by (auto simp: insert_ok stamp_checks_def unused_def)
  ultimately show ?case using Cons.IH [OF rest] by simp
qed simp

lemma stamp_rows_below:
  "(\<And>s i. s_id (mk s i) = i) \<Longrightarrow> below (i + length ss) (map s_id (stamp_rows mk i ss))"
proof (induction ss arbitrary: i)
  case (Cons s ss)
  from Cons.IH [OF Cons.prems, of "Suc i"] Cons.prems show ?case by simp
qed simp

lemma allocate_distinct:
  assumes "allocate_serial_block cat y n db = Inr (start, db')"
    and "distinct (map (\<lambda>c. (sc_product_category c, sc_year c)) (serial_counters db))"
  shows "distinct (map (\<lambda>c. (sc_product_category c, sc_year c)) (serial_counters db'))"
  using assms(1)
proof (rule allocate_serial_blockE)
  fix c cs
  assume one: "filter (counter_for cat y) cs = [c]"
    and cs: "cs = serial_counters db \<or> (filter (counter_for cat y) (serial_counters db) = [] \<and> sc_next_value c = 1 \<and>
       cs = serial_counters db @ [c])"
    and db': "db' = db\<lparr>serial_counters := update_where (counter_for cat y) (\<lambda>c. c\<lparr>sc_next_value := sc_next_value c + n\<rparr>) cs\<rparr>"
  have "counter_for cat y c" using filter_eq_singletonD [OF one] by simp
  then have "distinct (map (\<lambda>c. (sc_product_category c, sc_year c)) cs)"
    using cs assms(2) by (force simp: filter_empty_conv counter_for_def)
  then show ?thesis by (simp add: db' map_update_where_same)
qed

lemma issue_stamps_platform [inv_pres]:
  assumes wf: "platform_wf k db" and ord: "ord \<in> set (orders db)" "o_status ord = O_ISSUING"
    and b: "b \<in> set (stamp_batches db)" "b_order_id b = o_id ord"
    and iss: "issue_stamps ord b (int (length (batch_stamps db (b_id b)))) n sk now db = Inr (b', db')"
  shows "platform_wf k db' \<and> b' \<in> set (stamp_batches db') \<and> orders db' = orders db \<and> b_order_id b' = b_order_id b \<and>
    b_status b' = b_status b"
  using iss
proof (rule issue_stampsE)
  fix start db1 ex serials
  let ?mk = "\<lambda>s. new_stamp ord b s sk now ex" and ?m = "int (length (batch_stamps db (b_id b)))"
  let ?rows = "stamp_rows ?mk (next_uuid db) serials"
  assume al: "allocate_serial_block (o_product_category ord) (year_of now) n db = Inr (start, db1)"
    and fb: "format_block (o_product_category ord) (year_of now) start (nat n) = Inr serials"
    and ins: "insert_stamps ?mk serials db1 =
       Inr (db1\<lparr>next_uuid := next_uuid db1 + nat n, stamps := stamps db1 @ stamp_rows ?mk (next_uuid db1) serials\<rparr>)"
    and b': "b' = b\<lparr>b_issued_count := ?m + n\<rparr>" "0 < n" "?m + n \<le> b_requested_count b"
    and db': "db' = db\<lparr>next_uuid := next_uuid db + nat n, serial_counters := serial_counters db1, stamps := stamps db @ ?rows,
      stamp_batches := update_where (\<lambda>x. b_id x = b_id b) (\<lambda>_. b') (stamp_batches db)\<rparr>"
  have wfs: "stamps_wf db" and owf: "orders_wf db" using wf by (rule platform_orders)+
  have db1: "next_uuid db1 = next_uuid db" "stamps db1 = stamps db"
    by (rule allocate_serial_blockE [OF al], simp)+
  have ns: "next_serial db' = next_serial db1" by (simp add: next_serial_def db' fun_eq_iff)
  have top: "next_serial db' (o_product_category ord, year_of now) = start + n"
    using serials.alloc_next [of "(o_product_category ord, year_of now)" n db start db1] al by (simp add: ns)
  have mono: "next_serial db x \<le> next_serial db' x" for x
    using serials.alloc_mono [of "(o_product_category ord, year_of now)" n db start db1 x] al by (simp add: ns)
  have rows: "s_batch_id x = b_id b \<and> allocated db' x" if "x \<in> set ?rows" for x
  proof -
    from stamp_rows_all [OF that] obtain s j where x: "s \<in> set serials" "x = ?mk s j" by blast
    from format_block_nth [OF fb x(1)] b'(2) obtain m where "m < start + n" "format_serial (o_product_category ord) (year_of now) m = Inr s"
      by auto
    then have "allocated db' x" unfolding allocated_def using x(2) top
      by (intro exI [of _ "year_of now"] exI [of _ m]) simp
    then show ?thesis using x(2) by simp
  qed
  have dist: "distinct (map s_serial (stamps db')) \<and> distinct (map s_id (stamps db'))"
    using insert_stamps_distinct [OF ins] stamps_wf_keys [OF wfs] db1 by (simp add: db')
  have bel: "below (next_uuid db') (map s_id (stamps db'))"
    using stamp_rows_below [of ?mk "next_uuid db" serials] stamps_wf_keys(3) [OF wfs] format_block_length [OF fb]
      below_mono [of "next_uuid db" _ "next_uuid db + nat n"] by (simp add: db')
  have "stamps_wf db'"
    by (rule stamps_wf_step [OF wfs owf ord(1) b, where ord' = ord and b' = b' and xs = ?rows])
      (use ord b' rows dist bel mono allocate_distinct [OF al stamps_wf_keys(4) [OF wfs]] format_block_length [OF fb]
        in \<open>simp_all add: db' map_same paid_def\<close>)
  moreover have "rest_wf k db'" by (rule rest_wf_cong [of db' db]) (use platform_orders(3) [OF wf] in \<open>simp_all add: db'\<close>)
  moreover have "b' \<in> set (stamp_batches db')" using b(1) by (auto simp: db' set_update_where image_iff)
  ultimately show ?thesis using b' by (simp add: platform_wf_def db')
qed

text \<open>Completion: the batch counts its stamps, and the order is issued.\<close>

lemma complete_batch_platform [inv_pres]:
  assumes wf: "platform_wf k db" and ord: "ord \<in> set (orders db)" "o_status ord \<in> {O_ISSUING, O_ISSUED}"
    and b: "b \<in> set (stamp_batches db)" "b_order_id b = o_id ord"
    and full: "issued = int (length (batch_stamps db (b_id b)))" "b_requested_count b \<le> issued"
    and cb: "complete_batch ord b issued now db = Inr (p, db')"
  shows "platform_wf k db' \<and> ip_completed p \<and> ip_issued p = b_requested_count b \<and>
    (\<exists>ord' \<in> set (orders db'). o_id ord' = o_id ord \<and> o_status ord' = O_ISSUED \<and> o_quantity ord' = o_quantity ord) \<and>
    (\<exists>b' \<in> set (stamp_batches db'). b_order_id b' = o_id ord \<and> b_id b' = ip_batch_id p \<and> b_requested_count b' = b_requested_count b)"
  using cb
proof (rule complete_batchE)
  fix db1
  assume p: "p = \<lparr>ip_batch_id = b_id b, ip_requested = b_requested_count b, ip_issued = issued, ip_completed = True\<rparr>"
    and sv: "(b_status b = B_ISSUED \<and> db1 = db) \<or> (b_status b \<noteq> B_ISSUED \<and>
      save_batch (b\<lparr>b_status := B_ISSUED, b_issued_count := issued, b_completed_at := Some now\<rparr>) db = Inr db1)"
    and mv: "(o_status ord \<noteq> O_ISSUING \<and> db' = db1) \<or> (o_status ord = O_ISSUING \<and>
      (\<exists>ord' db2 root r pl. move_order ord O_ISSUED None ''issuance complete'' now db1 = Inr (ord', db2) \<and>
        merkle_root (sort (map s_serial (batch_stamps db2 (b_id b)))) = Inr root \<and>
        enqueue ''stamp_batch'' (b_id b) ''batch.anchor_requested'' (''batch.anchor:'' @ uuid_str (b_id b)) pl now db2 = Inr (r, db')))"
  have ok: "batch_ok db b" using platform_orders(2) [OF wf] b(1) by (rule stamps_wf_batch)
  have cnt: "b_issued_count b = issued" "issued = b_requested_count b" using batch_okD [OF ok] full by simp_all
  obtain b' where b': "platform_wf k db1" "b' \<in> set (stamp_batches db1)" "orders db1 = orders db" "b_order_id b' = o_id ord"
    "b_id b' = b_id b" "b_requested_count b' = b_requested_count b" "b_issued_count b' = b_requested_count b"
    using sv
  proof (elim disjE conjE)
    assume "db1 = db"
    then show thesis using that [of b] wf b cnt by simp
  next
    assume sv: "save_batch (b\<lparr>b_status := B_ISSUED, b_issued_count := issued, b_completed_at := Some now\<rparr>) db = Inr db1"
    then show thesis
      using that [of "b\<lparr>b_status := B_ISSUED, b_issued_count := issued, b_completed_at := Some now\<rparr>"]
        save_batch_platform [OF wf b(1) sv] b(2) cnt by (simp add: save_batch_ok)
  qed
  have ord1: "ord \<in> set (orders db1)" using ord(1) b'(3) by simp
  from mv show ?thesis
  proof (elim disjE conjE exE)
    assume "o_status ord \<noteq> O_ISSUING" "db' = db1"
    then show ?thesis using ord ord1 b' p cnt by auto
  next
    fix ord' db2 root r pl
    assume st: "o_status ord = O_ISSUING" and mv: "move_order ord O_ISSUED None ''issuance complete'' now db1 = Inr (ord', db2)"
      and eq: "enqueue ''stamp_batch'' (b_id b) ''batch.anchor_requested'' (''batch.anchor:'' @ uuid_str (b_id b)) pl now db2 = Inr (r, db')"
    have wf2: "platform_wf k db2" "ord' \<in> set (orders db2)"
      using move_order_platform [OF b'(1) ord1 b'(2,4) mv] st b'(6,7) by simp_all
    have "platform_wf k db'"
      using wf2(1) rest_wf_enqueue [OF _ eq] stamps_wf_kept [OF _ enqueue_kept [OF eq]] by (simp add: platform_wf_def)
    moreover have "orders db' = orders db2" "stamp_batches db' = stamp_batches db1" "ord' = ord\<lparr>o_status := O_ISSUED, o_updated_at := now\<rparr>"
      using enqueue_frame [OF eq] mv by (auto simp: move_order_ok)
    ultimately show ?thesis using wf2(2) b' p cnt by (intro conjI bexI [of _ ord'] bexI [of _ b']) simp_all
  qed
qed

lemma issued_exactly:
  assumes "platform_wf k db" and "ord \<in> set (orders db)" "o_status ord = O_ISSUED"
    and "b \<in> set (stamp_batches db)" "b_order_id b = o_id ord"
  shows "b_requested_count b = o_quantity ord \<and> int (length (batch_stamps db (b_id b))) = o_quantity ord"
proof -
  have "batch_ok db b" using platform_orders(2) [OF assms(1)] assms(4) by (rule stamps_wf_batch)
  then obtain y where "y \<in> set (orders db)" "o_id y = b_order_id b" "b_requested_count b = o_quantity y"
    "o_status y = O_ISSUED \<longrightarrow> b_issued_count b = b_requested_count b"
    and "b_issued_count b = int (length (batch_stamps db (b_id b)))" by (auto simp: batch_ok_def)
  moreover from this have "y = ord" using orders_wf_unique [OF platform_orders(1) [OF assms(1)]] assms(2,5) by metis
  ultimately show ?thesis using assms(3) by simp
qed

text \<open>What a chunk leaves behind: the invariants, and all stamps of the order if it is the last.\<close>

lemma issue_chunk_platform [inv_pres]:
  assumes wf: "platform_wf k db" and ch: "issue_chunk oid c sk now db = Inr (p, db')"
  shows "platform_wf k db' \<and> (ip_completed p \<longrightarrow>
    (\<exists>ord \<in> set (orders db'). \<exists>b \<in> set (stamp_batches db'). o_id ord = oid \<and> o_status ord = O_ISSUED \<and> b_order_id b = oid \<and>
       b_id b = ip_batch_id p \<and> int (length (batch_stamps db' (b_id b))) = o_quantity ord \<and> ip_issued p = o_quantity ord))"
  using ch
proof (rule issue_chunkE)
  fix ord b0 db1 ord' db2 and b :: stamp_batch
  let ?m = "int (length (batch_stamps db2 (b_id b)))"
  assume one: "filter (\<lambda>x. o_id x = oid) (orders db) = [ord]" and st: "o_status ord \<in> {O_PAID, O_ISSUING, O_ISSUED}"
    and eb: "ensure_batch ord now db = Inr (b0, db1)" and bi: "begin_issuing ord b0 now db1 = Inr (ord', b, db2)"
    and br: "(b_requested_count b \<le> ?m \<and> complete_batch ord' b ?m now db2 = Inr (p, db')) \<or>
     (?m < b_requested_count b \<and>
      (\<exists>b' db3. issue_stamps ord' b ?m (min c (b_requested_count b - ?m)) sk now db2 = Inr (b', db3) \<and>
       ((b_requested_count b' \<le> b_issued_count b' \<and> complete_batch ord' b' (b_issued_count b') now db3 = Inr (p, db')) \<or>
        (b_issued_count b' < b_requested_count b' \<and> db' = db3 \<and>
         p = \<lparr>ip_batch_id = b_id b', ip_requested = b_requested_count b', ip_issued = b_issued_count b', ip_completed = False\<rparr>))))"
  have ord: "ord \<in> set (orders db)" "o_id ord = oid" "paid ord"
    using filter_eq_singletonD [OF one] st by (simp_all add: paid_def)
  note s1 = ensure_batch_platform [OF wf ord(1,3) eb]
  have "ord \<in> set (orders db1)" using s1(4) ord(1) by simp
  note s2 = begin_issuing_platform [OF s1(1) this ord(3) s1(2,3) bi]
  have fin: ?thesis
    if "platform_wf k db' \<and> ip_completed p \<and> ip_issued p = b_requested_count x \<and>
      (\<exists>ord'' \<in> set (orders db'). o_id ord'' = o_id ord' \<and> o_status ord'' = O_ISSUED \<and> o_quantity ord'' = o_quantity ord') \<and>
      (\<exists>b' \<in> set (stamp_batches db'). b_order_id b' = o_id ord' \<and> b_id b' = ip_batch_id p \<and> b_requested_count b' = b_requested_count x)"
    for x :: stamp_batch
  proof -
    from that obtain y z where y: "platform_wf k db'" "y \<in> set (orders db')" "o_id y = oid" "o_status y = O_ISSUED"
      and z: "z \<in> set (stamp_batches db')" "b_order_id z = oid" "b_id z = ip_batch_id p" "b_requested_count z = ip_issued p"
      using s2(7) ord(2) by auto
    from issued_exactly [OF y(1,2,4) z(1)] y z show ?thesis
      by (intro conjI impI bexI [of _ y] bexI [of _ z]) simp_all
  qed
  show ?thesis using br
  proof (elim disjE conjE exE)
    assume "b_requested_count b \<le> ?m" "complete_batch ord' b ?m now db2 = Inr (p, db')"
    from complete_batch_platform [OF s2(1,2,5,3,4) refl this] show ?thesis by (rule fin)
  next
    fix b' db3
    assume lt: "?m < b_requested_count b" and iss: "issue_stamps ord' b ?m (min c (b_requested_count b - ?m)) sk now db2 = Inr (b', db3)"
    have "o_status ord' = O_ISSUING"
      using s2(2,4,5) stamps_wf_batch [OF platform_orders(2) [OF s2(1)] s2(3)] lt orders_wf_unique [OF platform_orders(1) [OF s2(1)]]
      by (auto simp: batch_ok_def)
    note s3 = issue_stamps_platform [OF s2(1,2) this s2(3,4) iss]
    {
      assume "b_requested_count b' \<le> b_issued_count b'" and cb: "complete_batch ord' b' (b_issued_count b') now db3 = Inr (p, db')"
      moreover have "batch_ok db3 b'" using s3 platform_orders(2) stamps_wf_batch by blast
      ultimately show ?thesis
        using s3 s2(2,4,5) complete_batch_platform [of k db3 ord' b' "b_issued_count b'" now p db']
        by (intro fin [of b']) (simp add: batch_okD)
    next
      assume "db' = db3" and p: "p = \<lparr>ip_batch_id = b_id b', ip_requested = b_requested_count b',
        ip_issued = b_issued_count b', ip_completed = False\<rparr>"
      then show ?thesis using s3 by simp
    }
  qed
qed

lemma issue_step_platform [inv_pres]:
  assumes "platform_wf k db" and "issue_step oid c sk k rv now db = Inr (p, db')"
  shows "platform_wf k db' \<and> (ip_completed p \<longrightarrow>
    (\<exists>ord \<in> set (orders db'). \<exists>b \<in> set (stamp_batches db'). o_id ord = oid \<and> o_status ord = O_ISSUED \<and> b_order_id b = oid \<and>
       b_id b = ip_batch_id p \<and> int (length (batch_stamps db' (b_id b))) = o_quantity ord \<and> ip_issued p = o_quantity ord))"
proof -
  from assms(2) obtain db1 where ch: "issue_chunk oid c sk now db = Inr (p, db1)"
    and rest: "(\<not> ip_completed p \<and> db' = db1) \<or>
      (ip_completed p \<and> (\<exists>e. record_audit_event ISSUER (issued_record p) now k rv db1 = Inr (e, db')))"
    by (auto simp: issue_step_def split: if_splits)
  note chunk = issue_chunk_platform [OF assms(1) ch]
  from rest show ?thesis
  proof (elim disjE conjE exE)
    assume "\<not> ip_completed p" "db' = db1"
    with chunk show ?thesis by simp
  next
    fix e assume "ip_completed p" and au: "record_audit_event ISSUER (issued_record p) now k rv db1 = Inr (e, db')"
    moreover have "orders db' = orders db1" "stamp_batches db' = stamp_batches db1" "batch_stamps db' = batch_stamps db1"
      using record_audit_event_db [OF au] by (simp_all add: batch_stamps_def fun_eq_iff)
    ultimately show ?thesis using chunk platform_wf_audit [OF _ au] by simp
  qed
qed

lemma issue_loop_platform [inv_pres]:
  assumes "platform_wf k db" and "issue_loop oid c sk k rv clock i db = (r, db')"
  shows "platform_wf k db' \<and> (\<forall>p. r = Inr p \<longrightarrow> ip_completed p \<and>
    (\<exists>ord \<in> set (orders db'). \<exists>b \<in> set (stamp_batches db'). o_id ord = oid \<and> o_status ord = O_ISSUED \<and> b_order_id b = oid \<and>
       b_id b = ip_batch_id p \<and> int (length (batch_stamps db' (b_id b))) = o_quantity ord \<and> ip_issued p = o_quantity ord))"
  using assms
proof (induction oid c sk k rv clock i db rule: issue_loop.induct)
  case (1 oid c sk k rv clock i db)
  show ?case
  proof (cases "issue_step oid c sk k rv (clock i) db")
    case (Inl e)
    with 1 show ?thesis by (auto simp: issue_loop.simps [of oid c sk k rv clock i])
  next
    case (Inr x)
    then obtain p db1 where st: "issue_step oid c sk k rv (clock i) db = Inr (p, db1)" by (cases x) auto
    note wf1 = issue_step_platform [OF "1.prems"(1) st]
    show ?thesis
    proof (cases "ip_completed p")
      case True
      with st "1.prems"(2) have "r = Inr p" "db' = db1" by (simp_all add: issue_loop.simps [of oid c sk k rv clock i])
      with wf1 True show ?thesis by simp
    next
      case False
      with st "1.prems"(2) have "issue_loop oid c sk k rv clock (Suc i) db1 = (r, db')"
        by (simp add: issue_loop.simps [of oid c sk k rv clock i])
      with "1.IH" [OF st refl False] wf1 show ?thesis by blast
    qed
  qed
qed

end
