(* ===== verification/Issuance_Progress.thy ===== *)
theory Issuance_Progress
  imports Issuance
begin

text \<open>
  When issuance succeeds: each part of a chunk, the chunk, and with it the loop of
  \<^verbatim>\<open>src/src/taxstamp/services/issuance.py\<close>.  Then the properties of issuance.
\<close>

section \<open>Progress\<close>

text \<open>When each part succeeds.\<close>

lemma format_block_total:
  assumes "cat \<in> {''alcohol'', ''pharmaceuticals'', ''beverages''}" "2000 \<le> y" "y \<le> 9999"
  shows "0 < n \<Longrightarrow> n + int k \<le> 10000000000 \<Longrightarrow> \<exists>ss. format_block cat y n k = Inr ss"
proof (induction k arbitrary: n)
  case (Suc k)
  obtain s where "format_serial cat y n = Inr s"
    using format_serial_defined [OF assms(1), of n y] assms(2,3) Suc.prems by auto
  moreover obtain ss where "format_block cat y (n + 1) k = Inr ss" using Suc.IH [of "n + 1"] Suc.prems by auto
  ultimately show ?case by simp
qed simp

lemma format_serial_varchar:
  assumes "format_serial cat y n = Inr s"
  shows "varchar 64 s"
proof -
  have "CHR 0x00 \<notin> set s"
    using format_serial_chars [OF assms] by (fastforce simp: is_digit_def is_upper_def)
  then show ?thesis using format_serial_chars [OF assms] by (simp add: varchar_def)
qed

lemma insert_stamps_total:
  assumes "\<And>s i. s \<in> set ss \<Longrightarrow> stamp_types (mk s i) \<and> s_serial (mk s i) = s \<and> s_id (mk s i) = i \<and> s_status (mk s i) = S_ISSUED \<and>
      s_batch_id (mk s i) = bid \<and> s_order_id (mk s i) = oid \<and> s_company_id (mk s i) = cid"
  shows "distinct ss \<Longrightarrow> set ss \<inter> s_serial ` set (stamps db) = {} \<Longrightarrow> below (next_uuid db) (map s_id (stamps db)) \<Longrightarrow>
    bid \<in> b_id ` set (stamp_batches db) \<Longrightarrow> oid \<in> o_id ` set (orders db) \<Longrightarrow> cid \<in> co_id ` set (companies db) \<Longrightarrow>
    \<exists>db'. insert_stamps mk ss db = Inr db'"
  using assms
proof (induction ss arbitrary: db)
  case (Cons s ss)
  let ?r = "mk s (next_uuid db)"
  let ?db = "db\<lparr>next_uuid := Suc (next_uuid db), stamps := stamps db @ [?r]\<rparr>"
  have r: "stamp_types ?r" "s_serial ?r = s" "s_id ?r = next_uuid db" "s_status ?r = S_ISSUED" "s_batch_id ?r = bid"
    "s_order_id ?r = oid" "s_company_id ?r = cid" using Cons.prems(7) [of s "next_uuid db"] by simp_all
  have "insert_stamp (mk s) db = Inr (?r, ?db)"
    using Cons.prems(2-6) r by (simp add: insert_ok stamp_checks_def unused_def foreign_key_def)
  moreover have "\<exists>db'. insert_stamps mk ss ?db = Inr db'"
    by (rule Cons.IH) (use Cons.prems r in auto)
  ultimately show ?case by auto
qed simp

lemma allocate_total:
  assumes ty: "varchar 64 cat" "int4 y" "0 < n" and ds: "distinct (map (\<lambda>c. (sc_product_category c, sc_year c)) (serial_counters db))"
    and fit: "bigint (next_serial db (cat, y) + n)"
  shows "\<exists>i db'. allocate_serial_block cat y n db = Inr (i, db')"
proof -
  have alloc: "\<exists>i db'. allocate_serial_block cat y n db = Inr (i, db')"
    if "ensure_counter cat y db = Inr db1" "filter (counter_for cat y) (serial_counters db1) = [c]" "bigint (sc_next_value c + n)" for db1 c
  proof -
    let ?cs = "update_where (counter_for cat y) (\<lambda>c. c\<lparr>sc_next_value := sc_next_value c + n\<rparr>) (serial_counters db1)"
    have f: "filter (counter_for cat y) ?cs = [c\<lparr>sc_next_value := sc_next_value c + n\<rparr>]"
      by (simp add: next_serial_update that(2))
    have "\<not> list_ex (\<lambda>c. counter_for cat y c \<and> \<not> bigint (sc_next_value c)) ?cs"
    proof
      assume "list_ex (\<lambda>c. counter_for cat y c \<and> \<not> bigint (sc_next_value c)) ?cs"
      then obtain x where "x \<in> set (filter (counter_for cat y) ?cs)" "\<not> bigint (sc_next_value x)" by (auto simp: list_ex_iff)
      then show False using that(3) unfolding f by simp
    qed
    then show ?thesis using ty(3) that(1) f by (simp add: allocate_serial_block_def Let_def)
  qed
  show ?thesis
  proof (cases "list_ex (counter_for cat y) (serial_counters db)")
    case True
    then obtain c where c: "c \<in> set (serial_counters db)" "counter_for cat y c" by (auto simp: list_ex_iff)
    then have "filter (counter_for cat y) (serial_counters db) = [c]"
      using filter_key_singleton [OF ds c(1)] by (simp add: counter_for_def [abs_def])
    then show ?thesis
      using alloc [of db c] True ty fit by (simp add: ensure_counter_def next_serial_def)
  next
    case False
    then have none: "filter (counter_for cat y) (serial_counters db) = []" by (auto simp: filter_empty_conv list_ex_iff)
    let ?c = "\<lparr>sc_product_category = cat, sc_year = y, sc_next_value = 1\<rparr>"
    have "counter_for cat y ?c" by (simp add: counter_for_def)
    then show ?thesis
      using alloc [of "db\<lparr>serial_counters := serial_counters db @ [?c]\<rparr>" ?c] False none ty fit
      by (simp add: ensure_counter_def next_serial_def)
  qed
qed

lemma move_order_total:
  assumes "orders_wf db" and "ord \<in> set (orders db)" and "varchar 500 why"
  shows "\<exists>ord' db'. move_order ord tgt None why now db = Inr (ord', db')"
proof -
  let ?t = "new_transition (o_id ord) (Some (o_status ord)) tgt None why now (next_uuid db)"
  have "order_transition_types ?t" using assms(3) by (simp add: order_transition_types_def new_transition_def)
  moreover have "next_uuid db \<notin> ot_id ` set (order_transitions db)" using assms(1) by (simp add: orders_wf_def)
  moreover have "map o_id (update_where (\<lambda>x. o_id x = o_id ord) (\<lambda>_. ord\<lparr>o_status := tgt, o_updated_at := now\<rparr>) (orders db)) =
      map o_id (orders db)" by (rule map_update_where_same) simp
  then have "o_id ord \<in> o_id ` set (update_where (\<lambda>x. o_id x = o_id ord) (\<lambda>_. ord\<lparr>o_status := tgt, o_updated_at := now\<rparr>) (orders db))"
    using assms(2) by (metis image_eqI set_map)
  ultimately show ?thesis
    by (simp add: move_order_def Let_def insert_order_transition_def insert_row_def order_transition_checks_def save_order_def
        unused_def foreign_key_def opt_col_def)
qed

lemma save_batch_total: "0 \<le> b_issued_count b \<Longrightarrow> b_issued_count b \<le> b_requested_count b \<Longrightarrow> \<exists>db'. save_batch b db = Inr db'"
  by (simp add: save_batch_ok)

lemma ensure_batch_total:
  assumes wf: "platform_wf k db" and ord: "ord \<in> set (orders db)" and q: "o_quantity ord \<le> 10000000000 \<or>
      o_id ord \<in> b_order_id ` set (stamp_batches db)"
  shows "\<exists>b db'. ensure_batch ord now db = Inr (b, db')"
proof (cases "o_id ord \<in> b_order_id ` set (stamp_batches db)")
  case True
  then obtain b where "b \<in> set (stamp_batches db)" "b_order_id b = o_id ord" by auto
  then have "filter (\<lambda>x. b_order_id x = o_id ord) (stamp_batches db) = [b]"
    using filter_key_singleton [OF stamps_wf_keys(6) [OF platform_orders(2) [OF wf]], of b] by simp
  then show ?thesis by (simp add: ensure_batch_def)
next
  case False
  then have none: "filter (\<lambda>x. b_order_id x = o_id ord) (stamp_batches db) = []" by (auto simp: filter_empty_conv image_iff)
  have "0 < o_quantity ord" using platform_orders(1) [OF wf] ord by (simp add: orders_wf_def order_ok_def priced_def)
  then have "stamp_batch_types (new_batch ord now (next_uuid db))" "stamp_batch_checks db (new_batch ord now (next_uuid db))"
    using False q ord stamps_wf_keys(7) [OF platform_orders(2) [OF wf]]
    by (simp_all add: stamp_batch_types_def stamp_batch_checks_def bigint_def unused_def foreign_key_def)
  then show ?thesis by (simp add: ensure_batch_def none insert_stamp_batch_def Let_def insert_row_def)
qed

lemma begin_issuing_total:
  assumes wf: "platform_wf k db" and ord: "ord \<in> set (orders db)" and b: "b \<in> set (stamp_batches db)"
  shows "\<exists>ord' b' db'. begin_issuing ord b now db = Inr (ord', b', db')"
proof -
  obtain ord' db' where "move_order ord O_ISSUING None ''issuance started'' now db = Inr (ord', db')"
    using move_order_total [OF platform_orders(1) [OF wf] ord, of "''issuance started''" O_ISSUING now] by (auto simp: varchar_def)
  moreover have ok: "batch_ok db b" using platform_orders(2) [OF wf] b by (rule stamps_wf_batch)
  obtain db'' where "save_batch (b\<lparr>b_status := B_ISSUING\<rparr>) db' = Inr db''"
    using save_batch_total [of "b\<lparr>b_status := B_ISSUING\<rparr>" db'] batch_okD [OF ok] by auto
  ultimately show ?thesis by (simp add: begin_issuing_def Let_def assert_order_transition_iff)
qed

lemma complete_batch_total:
  assumes wf: "platform_wf k db" and ord: "ord \<in> set (orders db)" and b: "b \<in> set (stamp_batches db)" "b_order_id b = o_id ord"
    and full: "issued = int (length (batch_stamps db (b_id b)))" "b_requested_count b \<le> issued"
  shows "\<exists>p db'. complete_batch ord b issued now db = Inr (p, db')"
proof -
  have ok: "batch_ok db b" using platform_orders(2) [OF wf] b(1) by (rule stamps_wf_batch)
  have cnt: "b_issued_count b = issued" "issued = b_requested_count b" using batch_okD [OF ok] full by simp_all
  let ?b = "b\<lparr>b_status := B_ISSUED, b_issued_count := issued, b_completed_at := Some now\<rparr>"
  obtain db1 where sv: "(if b_status b \<noteq> B_ISSUED then save_batch ?b db else Inr db) = Inr db1" and wf1: "platform_wf k db1"
    and same: "orders db1 = orders db" "stamps db1 = stamps db"
  proof (cases "b_status b = B_ISSUED")
    case True
    with wf show ?thesis by (intro that [of db]) simp_all
  next
    case False
    obtain db1 where sv: "save_batch ?b db = Inr db1" using save_batch_total [of ?b db] cnt full(1) by auto
    then show ?thesis using False save_batch_platform(1) [OF wf b(1) sv] cnt by (intro that [of db1]) (auto simp: save_batch_ok)
  qed
  show ?thesis
  proof (cases "o_status ord = O_ISSUING")
    case False
    with sv show ?thesis by (simp add: complete_batch_def)
  next
    case True
    have ord1: "ord \<in> set (orders db1)" using ord same by simp
    obtain ord' db2 where mv: "move_order ord O_ISSUED None ''issuance complete'' now db1 = Inr (ord', db2)"
      using move_order_total [OF platform_orders(1) [OF wf1] ord1, of "''issuance complete''" O_ISSUED now] by (auto simp: varchar_def)
    have "0 < o_quantity ord" using platform_orders(1) [OF wf] ord by (simp add: orders_wf_def order_ok_def priced_def)
    moreover have "b_requested_count b = o_quantity ord"
      using ok ord b(2) orders_wf_unique [OF platform_orders(1) [OF wf]] by (auto simp: batch_ok_def)
    ultimately have "batch_stamps db (b_id b) \<noteq> []" using cnt full(1) by auto
    moreover have "stamps db2 = stamps db" "outbox_messages db2 = outbox_messages db1" "next_uuid db1 \<le> next_uuid db2"
      using mv same by (auto simp: move_order_ok)
    ultimately have ne: "map s_serial (batch_stamps db2 (b_id b)) \<noteq> []" by (simp add: batch_stamps_def)
    then have "sort (map s_serial (batch_stamps db2 (b_id b))) \<noteq> []" by (metis length_0_conv length_sort)
    then obtain root where mr: "merkle_root (sort (map s_serial (batch_stamps db2 (b_id b)))) = Inr root"
      by (auto simp: merkle_root_def)
    have "outbox_wf db2"
      using platform_orders(3) [OF wf1] \<open>outbox_messages db2 = outbox_messages db1\<close> \<open>next_uuid db1 \<le> next_uuid db2\<close>
      by (auto simp: rest_wf_def intro: outbox_wf_cong)
    then have "\<exists>r db'. enqueue ''stamp_batch'' (b_id b) ''batch.anchor_requested'' (''batch.anchor:'' @ uuid_str (b_id b)) pl now db2 = Inr (r, db')"
      for pl by (rule exE [OF enqueue_total]) (auto simp: varchar_def)
    then show ?thesis using sv True mv mr by (simp add: complete_batch_def Let_def assert_order_transition_iff) force
  qed
qed

text \<open>When the next stamps of an order can be issued at a moment.\<close>

definition can_issue :: "uuid \<Rightarrow> instant \<Rightarrow> db \<Rightarrow> bool" where
  "can_issue oid now db =
     (2000 \<le> year_of now \<and> year_of now \<le> 9999 \<and> is_ok (dt_add now (STAMP_VALIDITY_DAYS * DAY)) \<and>
      (\<exists>ord \<in> set (orders db). o_id ord = oid \<and> paid ord \<and>
         o_product_category ord \<in> {''alcohol'', ''pharmaceuticals'', ''beverages''} \<and>
         o_company_id ord \<in> co_id ` set (companies db) \<and>
         next_serial db (o_product_category ord, year_of now) + int (pending oid db) \<le> 10000000000))"

lemma issue_stamps_total:
  assumes wf: "platform_wf k db" and ord: "ord \<in> set (orders db)" and b: "b \<in> set (stamp_batches db)"
    and cat: "o_product_category ord \<in> {''alcohol'', ''pharmaceuticals'', ''beverages''}"
    and co: "o_company_id ord \<in> co_id ` set (companies db)"
    and t: "2000 \<le> year_of now" "year_of now \<le> 9999" "is_ok (dt_add now (STAMP_VALIDITY_DAYS * DAY))"
    and n: "0 < n" "int (length (batch_stamps db (b_id b))) + n \<le> b_requested_count b"
      "next_serial db (o_product_category ord, year_of now) + n \<le> 10000000000"
  shows "\<exists>b' db'. issue_stamps ord b (int (length (batch_stamps db (b_id b)))) n sk now db = Inr (b', db')"
proof -
  let ?cat = "o_product_category ord" and ?y = "year_of now"
  have wfs: "stamps_wf db" using wf by (rule platform_orders)
  have pos: "1 \<le> next_serial db (?cat, ?y)" using wfs by (simp add: stamps_wf_def)
  have catv: "varchar 64 ?cat" using cat by (auto simp: varchar_def)
  have "int4 ?y" "bigint (next_serial db (?cat, ?y) + n)" using t n pos by (simp_all add: int4_def bigint_def)
  then obtain start db1 where al: "allocate_serial_block ?cat ?y n db = Inr (start, db1)"
    using allocate_total [OF catv _ n(1) stamps_wf_keys(4) [OF wfs]] by blast
  have start: "start = next_serial db (?cat, ?y)" using serials.alloc_start [of "(?cat, ?y)" n db start db1] al by simp
  have db1: "next_uuid db1 = next_uuid db" "stamps db1 = stamps db" "stamp_batches db1 = stamp_batches db" "orders db1 = orders db"
    "companies db1 = companies db" by (rule allocate_serial_blockE [OF al], simp)+
  obtain ex where ex: "dt_add now (STAMP_VALIDITY_DAYS * DAY) = Inr ex" using t(3) by (auto simp: is_ok_iff)
  obtain ss where fb: "format_block ?cat ?y start (nat n) = Inr ss"
    using format_block_total [OF cat t(1,2), of start "nat n"] n start pos by auto
  have "s \<notin> s_serial ` set (stamps db)" if new: "s \<in> set ss" for s
  proof
    assume "s \<in> s_serial ` set (stamps db)"
    then obtain x where x: "x \<in> set (stamps db)" "s_serial x = s" by auto
    then obtain y m where "format_serial (s_product_category x) y m = Inr s" "m < next_serial db (s_product_category x, y)"
      using wfs by (auto simp: stamps_wf_def stamp_ok_def allocated_def)
    moreover obtain m' where "start \<le> m'" "format_serial ?cat ?y m' = Inr s" using format_block_nth [OF fb new] by blast
    ultimately show False using format_serial_inj [of "s_product_category x" y m s ?cat ?y m'] start by simp
  qed
  moreover have "stamp_types (new_stamp ord b s sk now ex i)" if "s \<in> set ss" for s i
    using format_block_nth [OF fb that] catv format_serial_varchar
    by (auto simp: stamp_types_def hash_secure_code_def hmac_hexdigest_def) (auto simp: varchar_def)
  ultimately have "\<exists>db2. insert_stamps (\<lambda>s. new_stamp ord b s sk now ex) ss db1 = Inr db2"
    using format_block_distinct [OF fb] stamps_wf_keys(3) [OF wfs] ord b co
    by (intro insert_stamps_total [where bid = "b_id b" and oid = "o_id ord" and cid = "o_company_id ord"])
      (auto simp: db1)
  then obtain db2 where "insert_stamps (\<lambda>s. new_stamp ord b s sk now ex) ss db1 = Inr db2" ..
  moreover obtain db3 where "save_batch (b\<lparr>b_issued_count := int (length (batch_stamps db (b_id b))) + n\<rparr>) db2 = Inr db3"
    using save_batch_total [of "b\<lparr>b_issued_count := int (length (batch_stamps db (b_id b))) + n\<rparr>" db2] n by auto
  ultimately show ?thesis using al ex fb by (simp add: issue_stamps_def Let_def)
qed

lemma ensure_batch_pending:
  assumes "ensure_batch ord now db = Inr (b, db')" and "filter (\<lambda>x. o_id x = o_id ord) (orders db) = [ord]"
  shows "pending (o_id ord) db' \<le> pending (o_id ord) db" "next_serial db' = next_serial db" "companies db' = companies db"
    "audit_events db' = audit_events db" "next_seq db' = next_seq db" "next_uuid db \<le> next_uuid db'"
proof -
  have "pending (o_id ord) db' \<le> pending (o_id ord) db \<and> next_serial db' = next_serial db \<and> companies db' = companies db \<and>
      audit_events db' = audit_events db \<and> next_seq db' = next_seq db \<and> next_uuid db \<le> next_uuid db'"
    using assms(1)
  proof (cases rule: ensure_batchE)
    case new
    have "sole_batch (o_id ord) b db'" using ensure_batch_sole [OF assms(1)] by blast
    from pending_sole [OF this] have "pending (o_id ord) db' \<le> nat (o_quantity ord)" by (simp add: new(2))
    moreover have "pending (o_id ord) db = nat (o_quantity ord)" by (simp add: pending_def new(1) assms(2))
    ultimately show ?thesis by (simp add: new(4) next_serial_def fun_eq_iff)
  qed simp
  then show "pending (o_id ord) db' \<le> pending (o_id ord) db" "next_serial db' = next_serial db" "companies db' = companies db"
    "audit_events db' = audit_events db" "next_seq db' = next_seq db" "next_uuid db \<le> next_uuid db'" by blast+
qed

lemma begin_issuing_pending:
  assumes "sole_batch oid b db" and "begin_issuing ord b now db = Inr (ord', b', db')"
  shows "pending oid db' = pending oid db" "next_serial db' = next_serial db" "companies db' = companies db"
    "audit_events db' = audit_events db" "next_seq db' = next_seq db" "o_company_id ord' = o_company_id ord"
proof -
  have "next_serial db' = next_serial db \<and> companies db' = companies db \<and> audit_events db' = audit_events db \<and> next_seq db' = next_seq db
      \<and> o_company_id ord' = o_company_id ord"
    using assms(2) by (cases rule: begin_issuingE) (auto simp: move_order_ok save_batch_ok next_serial_def fun_eq_iff)
  then show "next_serial db' = next_serial db" "companies db' = companies db" "audit_events db' = audit_events db" "next_seq db' = next_seq db"
    "o_company_id ord' = o_company_id ord" by blast+
  note b = begin_issuing_sole [OF assms]
  show "pending oid db' = pending oid db"
    unfolding pending_sole [OF b(1)] pending_sole [OF assms(1)] using b by (simp add: batch_stamps_def)
qed

text \<open>A chunk succeeds when its order can be issued, and leaves the order in that condition.\<close>

lemma issue_chunk_total:
  assumes wf: "platform_wf k db" and can: "can_issue oid now db" and c: "0 < c"
  shows "\<exists>p db'. issue_chunk oid c sk now db = Inr (p, db')"
proof -
  obtain ord where ord: "ord \<in> set (orders db)" "o_id ord = oid" "paid ord"
      "o_product_category ord \<in> {''alcohol'', ''pharmaceuticals'', ''beverages''}" "o_company_id ord \<in> co_id ` set (companies db)"
      "next_serial db (o_product_category ord, year_of now) + int (pending oid db) \<le> 10000000000"
    and t: "2000 \<le> year_of now" "year_of now \<le> 9999" "is_ok (dt_add now (STAMP_VALIDITY_DAYS * DAY))"
    using can by (auto simp: can_issue_def)
  have one: "filter (\<lambda>x. o_id x = oid) (orders db) = [ord]" using orders_wf_lookup [OF platform_orders(1) [OF wf] ord(1)] ord(2) by simp
  have pos: "1 \<le> next_serial db x" for x
    using platform_orders(2) [OF wf] unfolding stamps_wf_def by blast
  have "o_quantity ord \<le> 10000000000 \<or> o_id ord \<in> b_order_id ` set (stamp_batches db)"
  proof (cases "filter (\<lambda>b. b_order_id b = oid) (stamp_batches db)")
    case Nil
    then have "pending oid db = nat (o_quantity ord)" by (simp add: pending_def one)
    then have "next_serial db (o_product_category ord, year_of now) + o_quantity ord \<le> 10000000000" using ord(6) by (simp split: if_splits)
    then show ?thesis using pos [of "(o_product_category ord, year_of now)"] by linarith
  next
    case (Cons x xs)
    then have "x \<in> set (filter (\<lambda>b. b_order_id b = oid) (stamp_batches db))" by simp
    then show ?thesis using ord(2) by (intro disjI2) (auto intro: rev_image_eqI)
  qed
  from ensure_batch_total [OF wf ord(1) this] obtain b0 db1 where eb: "ensure_batch ord now db = Inr (b0, db1)" by blast
  note s1 = ensure_batch_platform [OF wf ord(1,3) eb]
  have ord1: "ord \<in> set (orders db1)" using s1(4) ord(1) by simp
  from begin_issuing_total [OF s1(1) ord1 s1(2)] obtain ord' b db2 where bi: "begin_issuing ord b0 now db1 = Inr (ord', b, db2)" by blast
  note s2 = begin_issuing_platform [OF s1(1) ord1 ord(3) s1(2,3) bi]
  have sole: "sole_batch oid b0 db1" using ensure_batch_sole [OF eb] ord(2) by blast
  note p1 = ensure_batch_pending [OF eb] and p2 = begin_issuing_pending [OF sole bi]
  let ?m = "int (length (batch_stamps db2 (b_id b)))"
  have st: "o_status ord \<in> {O_PAID, O_ISSUING, O_ISSUED}" using ord(3) by (simp add: paid_def)
  show ?thesis
  proof (cases "b_requested_count b \<le> ?m")
    case True
    from complete_batch_total [OF s2(1-4) refl True] show ?thesis
      using one st eb bi True by (simp add: issue_chunk_def Let_def)
  next
    case False
    let ?n = "min c (b_requested_count b - ?m)"
    have "pending oid db2 = nat (b_requested_count b - ?m)" using pending_sole [OF begin_issuing_sole(1) [OF sole bi]] .
    moreover have "pending oid db2 \<le> pending oid db" using p1(1) p2(1) one ord(2) by simp
    moreover have "next_serial db2 = next_serial db" using p1(2) p2(2) one ord(2) by simp
    ultimately have "next_serial db2 (o_product_category ord', year_of now) + ?n \<le> 10000000000"
      using ord(6) False s2(8) by simp
    moreover have "o_company_id ord' \<in> co_id ` set (companies db2)" using ord(5) p1(3) p2(3,6) one ord(2) by simp
    moreover have "o_product_category ord' \<in> {''alcohol'', ''pharmaceuticals'', ''beverages''}" using ord(4) s2(8) by simp
    moreover have "0 < ?n" "?m + ?n \<le> b_requested_count b" using c False by auto
    ultimately have "\<exists>b' db3. issue_stamps ord' b ?m ?n sk now db2 = Inr (b', db3)"
      using issue_stamps_total [OF s2(1-3) _ _ t, of ?n sk] by blast
    then obtain b' db3 where iss: "issue_stamps ord' b ?m ?n sk now db2 = Inr (b', db3)" by blast
    have "o_status ord' = O_ISSUING"
      using s2(2,4,5) stamps_wf_batch [OF platform_orders(2) [OF s2(1)] s2(3)] False orders_wf_unique [OF platform_orders(1) [OF s2(1)]]
      by (auto simp: batch_ok_def)
    note s3 = issue_stamps_platform [OF s2(1,2) this s2(3,4) iss]
    have "batch_ok db3 b'" using s3 platform_orders(2) stamps_wf_batch by blast
    then have "\<exists>p db'. complete_batch ord' b' (b_issued_count b') now db3 = Inr (p, db')" if "b_requested_count b' \<le> b_issued_count b'"
      using complete_batch_total [of k db3 ord' b' "b_issued_count b'"] that s3 s2(2,4) by (simp add: batch_okD)
    then show ?thesis using one st eb bi False iss by (simp add: issue_chunk_def Let_def)
  qed
qed

lemma issue_stamps_pending:
  assumes "sole_batch oid b db" and "issue_stamps ord b (int (length (batch_stamps db (b_id b)))) n k now db = Inr (b', db')"
    and "n \<le> b_requested_count b - int (length (batch_stamps db (b_id b)))"
  shows "next_serial db' x + int (pending oid db') \<le> next_serial db x + int (pending oid db)" "companies db' = companies db"
    "orders db' = orders db" "audit_events db' = audit_events db" "next_seq db' = next_seq db" "next_uuid db \<le> next_uuid db'"
proof -
  note s = issue_stamps_sole [OF assms(1,2)]
  have "pending oid db' + nat n = pending oid db"
    unfolding pending_sole [OF s(1)] pending_sole [OF assms(1)] using s assms(3) by simp
  moreover have "next_serial db' x \<le> next_serial db x + n \<and> companies db' = companies db \<and> orders db' = orders db \<and>
      audit_events db' = audit_events db \<and> next_seq db' = next_seq db \<and> next_uuid db \<le> next_uuid db'"
    using assms(2)
  proof (rule issue_stampsE)
    fix start db1 ex serials
    assume al: "allocate_serial_block (o_product_category ord) (year_of now) n db = Inr (start, db1)" and "0 < n"
      and db': "db' = db\<lparr>next_uuid := next_uuid db + nat n, serial_counters := serial_counters db1,
      stamps := stamps db @ stamp_rows (\<lambda>s. new_stamp ord b s k now ex) (next_uuid db) serials,
      stamp_batches := update_where (\<lambda>x. b_id x = b_id b) (\<lambda>_. b') (stamp_batches db)\<rparr>"
    let ?k = "(o_product_category ord, year_of now)"
    have "next_serial db1 x \<le> next_serial db x + n"
      using serials.alloc_start [of ?k n db start db1] serials.alloc_next [of ?k n db start db1]
        serials.alloc_other [of ?k n db start db1 x] al \<open>0 < n\<close> by (cases "x = ?k") simp_all
    then show ?thesis by (simp add: db' next_serial_def)
  qed
  ultimately show "next_serial db' x + int (pending oid db') \<le> next_serial db x + int (pending oid db)" "companies db' = companies db"
    "orders db' = orders db" "audit_events db' = audit_events db" "next_seq db' = next_seq db" "next_uuid db \<le> next_uuid db'"
    using s(3) by auto
qed

lemma issue_chunk_can:
  assumes wf: "platform_wf k db" and ch: "issue_chunk oid c sk now db = Inr (p, db')" and np: "\<not> ip_completed p"
    and can: "can_issue oid t db"
  shows "can_issue oid t db'" "audit_events db' = audit_events db" "next_seq db' = next_seq db"
proof -
  have "can_issue oid t db' \<and> audit_events db' = audit_events db \<and> next_seq db' = next_seq db" using ch
  proof (rule issue_chunkE)
    fix ord b0 db1 ord' db2 and b :: stamp_batch
    let ?m = "int (length (batch_stamps db2 (b_id b)))"
    assume one: "filter (\<lambda>x. o_id x = oid) (orders db) = [ord]" and st: "o_status ord \<in> {O_PAID, O_ISSUING, O_ISSUED}"
      and eb: "ensure_batch ord now db = Inr (b0, db1)" and bi: "begin_issuing ord b0 now db1 = Inr (ord', b, db2)"
      and br: "(b_requested_count b \<le> ?m \<and> complete_batch ord' b ?m now db2 = Inr (p, db')) \<or>
       (?m < b_requested_count b \<and>
        (\<exists>b' db3. issue_stamps ord' b ?m (min c (b_requested_count b - ?m)) sk now db2 = Inr (b', db3) \<and>
         ((b_requested_count b' \<le> b_issued_count b' \<and> complete_batch ord' b' (b_issued_count b') now db3 = Inr (p, db')) \<or>
          (b_issued_count b' < b_requested_count b' \<and> db' = db3 \<and>
           p = \<lparr>ip_batch_id = b_id b', ip_requested = b_requested_count b', ip_issued = b_issued_count b', ip_completed = False\<rparr>))))"
    from br np obtain b' where iss: "issue_stamps ord' b ?m (min c (b_requested_count b - ?m)) sk now db2 = Inr (b', db')"
      using complete_batch_completed by blast
    have ord: "ord \<in> set (orders db)" "o_id ord = oid" "paid ord"
      using filter_eq_singletonD [OF one] st by (simp_all add: paid_def)
    note s1 = ensure_batch_platform [OF wf ord(1,3) eb]
    have "ord \<in> set (orders db1)" using s1(4) ord(1) by simp
    note s2 = begin_issuing_platform [OF s1(1) this ord(3) s1(2,3) bi]
    have sole: "sole_batch oid b0 db1" using ensure_batch_sole [OF eb] ord(2) by blast
    note p1 = ensure_batch_pending [OF eb] and p2 = begin_issuing_pending [OF sole bi]
    note p3 = issue_stamps_pending [OF begin_issuing_sole(1) [OF sole bi] iss]
    obtain y where y: "y \<in> set (orders db)" "o_id y = oid" "o_product_category y \<in> {''alcohol'', ''pharmaceuticals'', ''beverages''}"
      "o_company_id y \<in> co_id ` set (companies db)"
      "next_serial db (o_product_category y, year_of t) + int (pending oid db) \<le> 10000000000"
      using can by (auto simp: can_issue_def)
    then have "y = ord" using orders_wf_unique [OF platform_orders(1) [OF wf] y(1) ord(1)] ord(2) by simp
    moreover have "paid ord'" using s2(5) by (auto simp: paid_def)
    moreover have "next_serial db' x + int (pending oid db') \<le> next_serial db x + int (pending oid db)" for x
      using p1(1,2) p2(1,2) p3(1) [of x] one ord(2) by simp
    ultimately have "can_issue oid t db'"
      unfolding can_issue_def using can y p1(3) p2(3,6) p3(2,3) s2(2,7,8) ord(2) one
      by (intro conjI bexI [of _ ord']) (auto simp: can_issue_def intro: order_trans)
    then show ?thesis using p1(4,5) p2(4,5) p3(4,5) one ord(2) by simp
  qed
  then show "can_issue oid t db'" "audit_events db' = audit_events db" "next_seq db' = next_seq db" by blast+
qed


text \<open>A chunk appends nothing to the audit trail.\<close>

definition same_trail :: "db \<Rightarrow> db \<Rightarrow> bool" where
  "same_trail db db' = (audit_events db' = audit_events db \<and> next_seq db' = next_seq db \<and> next_uuid db \<le> next_uuid db')"

lemma same_trail_refl [simp]: "same_trail db db"
  by (simp add: same_trail_def)

lemma same_trail_trans [trans]: "same_trail a b \<Longrightarrow> same_trail b c \<Longrightarrow> same_trail a c"
  by (simp add: same_trail_def)

lemma ensure_batch_trail: "ensure_batch ord now db = Inr (b, db') \<Longrightarrow> same_trail db db'"
  by (cases rule: ensure_batchE) (auto simp: same_trail_def)

lemma begin_issuing_trail: "begin_issuing ord b now db = Inr (ord', b', db') \<Longrightarrow> same_trail db db'"
  by (cases rule: begin_issuingE) (auto simp: same_trail_def move_order_ok save_batch_ok)

lemma issue_stamps_trail: "issue_stamps ord b m n k now db = Inr (b', db') \<Longrightarrow> same_trail db db'"
  by (cases rule: issue_stampsE) (auto simp: same_trail_def)

lemma enqueue_trail: "enqueue at ai et key p av db = Inr (r, db') \<Longrightarrow> same_trail db db'"
  by (drule enqueue_frame) (auto simp: same_trail_def)

lemma complete_batch_trail: "complete_batch ord b m now db = Inr (p, db') \<Longrightarrow> same_trail db db'"
proof (cases rule: complete_batchE)
  qed (auto simp: same_trail_def move_order_ok save_batch_ok split: if_splits dest!: enqueue_trail)

lemma issue_chunk_trail:
  assumes "issue_chunk oid c sk now db = Inr (p, db')"
  shows "same_trail db db'"
  using assms
proof (rule issue_chunkE)
  fix ord b0 db1 ord' db2 and b :: stamp_batch
  let ?m = "int (length (batch_stamps db2 (b_id b)))"
  assume "ensure_batch ord now db = Inr (b0, db1)" and "begin_issuing ord b0 now db1 = Inr (ord', b, db2)"
  then have "same_trail db db2" using ensure_batch_trail begin_issuing_trail same_trail_trans by blast
  moreover assume "(b_requested_count b \<le> ?m \<and> complete_batch ord' b ?m now db2 = Inr (p, db')) \<or>
     (?m < b_requested_count b \<and>
      (\<exists>b' db3. issue_stamps ord' b ?m (min c (b_requested_count b - ?m)) sk now db2 = Inr (b', db3) \<and>
       ((b_requested_count b' \<le> b_issued_count b' \<and> complete_batch ord' b' (b_issued_count b') now db3 = Inr (p, db')) \<or>
        (b_issued_count b' < b_requested_count b' \<and> db' = db3 \<and>
         p = \<lparr>ip_batch_id = b_id b', ip_requested = b_requested_count b', ip_issued = b_issued_count b', ip_completed = False\<rparr>))))"
  ultimately show ?thesis
    by (elim disjE conjE exE)
      (auto dest!: complete_batch_trail issue_stamps_trail elim: same_trail_trans)
qed

text \<open>
  The closing event of an issuance clashes with a recorded one: the two have different identifiers and the same
  hash, which the unique index on the column refuses.
\<close>

definition hash_clash :: "string \<Rightarrow> string \<Rightarrow> db \<Rightarrow> bool" where
  "hash_clash k rv db = (\<exists>e \<in> set (audit_events db). \<exists>p t u. ae_event_id e < u \<and>
     chain_hash (or_genesis (last_hash (audit_events db))) (event_document u t ISSUER (issued_record p) rv) k = Inr (ae_hash e))"

text \<open>The identifiers of events come from the supply of fresh ones.\<close>

definition events_below :: "db \<Rightarrow> bool" where
  "events_below db = below (next_uuid db) (map ae_event_id (audit_events db))"

lemma ISSUER_fits: "varchar 64 rv \<Longrightarrow> audit_fits ISSUER (issued_record p) rv"
  by (simp add: audit_fits_def ISSUER_def issued_record_def varchar_def opt_col_def json_obj_opt_def)

lemma chain_ok_shape: "chain_ok k p es \<Longrightarrow> e \<in> set es \<Longrightarrow> is_ascii (ae_hash e) \<and> varchar 64 (ae_hash e)"
  by (induction es arbitrary: p) (auto dest: chain_hash_shape varchar_chain_hash)

lemma last_hash_shape:
  assumes "audit_intact k db"
  shows "is_ascii (or_genesis (last_hash (audit_events db)))" "varchar 64 (or_genesis (last_hash (audit_events db)))"
proof -
  have c: "audit_wf db" "chain_ok k GENESIS_HASH (audit_events db)" using assms by (simp_all add: audit_intact_def)
  show "is_ascii (or_genesis (last_hash (audit_events db)))" "varchar 64 (or_genesis (last_hash (audit_events db)))"
    unfolding or_genesis_head [OF c] head_hash_def using chain_ok_shape [OF c(2)] by simp_all
qed

lemma record_issued_cases:
  assumes "audit_intact k db" "events_below db" "varchar 64 rv"
  shows "is_ok (record_audit_event ISSUER (issued_record p) t k rv db) \<or>
    record_audit_event ISSUER (issued_record p) t k rv db = Inl IntegrityError \<and> hash_clash k rv db"
proof -
  let ?prev = "or_genesis (last_hash (audit_events db))"
  note fits = ISSUER_fits [OF assms(3), of p] and prev = last_hash_shape [OF assms(1)]
  obtain h where h: "chain_hash ?prev (event_document (next_uuid db) t ISSUER (issued_record p) rv) k = Inr h"
    using chain_hash_total [of ?prev "issued_record p" "next_uuid db" t ISSUER rv k] fits prev by (auto simp: audit_fits_def)
  have "varchar 16 (ar_outcome (issued_record p))" using fits by (auto simp: audit_fits_def varchar_def)
  moreover have "next_seq db \<notin> ae_seq ` set (audit_events db)"
    using assms(1) by (auto simp: audit_intact_def audit_wf_def list_all_iff)
  moreover have ids: "ae_event_id e < next_uuid db" if "e \<in> set (audit_events db)" for e
    using that assms(2) by (auto simp: events_below_def below_def list_all_iff)
  then have "next_uuid db \<notin> ae_event_id ` set (audit_events db)" by (metis imageE less_irrefl)
  moreover have "hash_clash k rv db" if "h \<in> ae_hash ` set (audit_events db)"
    using that h ids unfolding hash_clash_def by fastforce
  ultimately show ?thesis
    using h fits prev varchar_chain_hash [OF h]
    by (auto simp: record_audit_event_def Let_def insert_audit_event_def insert_row_def audit_event_types_def audit_event_checks_def
        audit_fits_def unused_def)
qed

lemma same_trail_events:
  assumes "same_trail db db'"
  shows "events_below db \<Longrightarrow> events_below db'" "hash_clash k rv db' = hash_clash k rv db"
  using assms by (auto simp: same_trail_def events_below_def hash_clash_def intro: below_mono)

lemma issue_step_outcome:
  assumes wf: "platform_wf k db" and can: "can_issue oid now db" and c: "0 < c" and ev: "events_below db" "varchar 64 rv"
  obtains (progress) p db' where "issue_step oid c sk k rv now db = Inr (p, db')"
    "\<not> ip_completed p \<Longrightarrow> same_trail db db' \<and> (\<forall>t. can_issue oid t db \<longrightarrow> can_issue oid t db')"
  | (clash) "issue_step oid c sk k rv now db = Inl IntegrityError" "hash_clash k rv db"
proof -
  obtain p db1 where ch: "issue_chunk oid c sk now db = Inr (p, db1)" using issue_chunk_total [OF wf can c] by blast
  note tr = issue_chunk_trail [OF ch]
  have "audit_intact k db1"
    using wf tr audit_intact_cong [of db1 db k] by (simp add: platform_wf_def rest_wf_def same_trail_def)
  note out = record_issued_cases [OF this same_trail_events(1) [OF tr ev(1)] ev(2), of p now]
  show thesis
  proof (cases "ip_completed p")
    case True
    from out show thesis
    proof
      assume "is_ok (record_audit_event ISSUER (issued_record p) now k rv db1)"
      then obtain e db' where "record_audit_event ISSUER (issued_record p) now k rv db1 = Inr (e, db')"
        by (cases "record_audit_event ISSUER (issued_record p) now k rv db1") auto
      with ch True show thesis by (intro progress [of p db']) (simp_all add: issue_step_def)
    qed (use ch True same_trail_events(2) [OF tr] in \<open>intro clash, simp_all add: issue_step_def\<close>)
  next
    case False
    with ch have "issue_step oid c sk k rv now db = Inr (p, db1)" by (simp add: issue_step_def)
    then show thesis using progress tr issue_chunk_can(1) [OF wf ch False] by blast
  qed
qed

lemma issue_loop_outcome:
  assumes "platform_wf k db" "\<And>i. can_issue oid (clock i) db" "0 < c" "events_below db" "varchar 64 rv"
  shows "(\<exists>p db'. issue_loop oid c sk k rv clock i db = (Inr p, db')) \<or>
    (\<exists>db'. issue_loop oid c sk k rv clock i db = (Inl IntegrityError, db')) \<and> hash_clash k rv db"
  using assms
proof (induction oid c sk k rv clock i db rule: issue_loop.induct)
  case (1 oid c sk k rv clock i db)
  note unfold = issue_loop.simps [of oid c sk k rv clock i]
  show ?case
  proof (rule issue_step_outcome [OF "1.prems"(1,2,3,4,5)])
    fix p db1
    assume st: "issue_step oid c sk k rv (clock i) db = Inr (p, db1)"
      and later: "\<not> ip_completed p \<Longrightarrow> same_trail db db1 \<and> (\<forall>t. can_issue oid t db \<longrightarrow> can_issue oid t db1)"
    show ?case
    proof (cases "ip_completed p")
      case True
      with st show ?thesis by (simp add: unfold)
    next
      case False
      note keep = later [OF False]
      have "platform_wf k db1" using issue_step_platform [OF "1.prems"(1) st] by blast
      with "1.IH" [OF st refl False] "1.prems"(2,3,5) keep same_trail_events [of db db1] "1.prems"(4) show ?thesis
        using st False by (simp add: unfold)
    qed
  qed (simp add: unfold)
qed

section \<open>A paid sample order\<close>

text \<open>The sample order of the payments theory after its remittance: paid, settled and journalled.\<close>

definition paid_journal :: journal where
  "paid_journal = \<lparr>j_id = 21, j_reference = ''settlement:PAY-2026-BBBB'', j_kind = ''settlement'', j_currency = ''NGN'',
     j_order_id = Some 5, j_payment_receipt_id = Some 20, j_reverses_journal_id = None, j_created_at = 0\<rparr>"

definition paid_db :: db where
  "paid_db = (sample_db (to_payment @ [O_PAID]) 3750)\<lparr>
     payment_intents := [(sample_intent 3750)\<lparr>pi_status := P_SETTLED, pi_settled_at := Some 0\<rparr>],
     payment_receipts := [new_receipt (sample_advice 53750) (Some (sample_intent 3750)) (replicate 64 CHR ''0'') 0 0 20],
     journals := [paid_journal],
     ledger_entries := entries_of 21 0 22 (settlement_postings (sample_order O_PAID 3750))\<rparr>"

lemma paid_db_fields:
  "orders paid_db = [sample_order O_PAID 3750]" "stamps paid_db = []" "stamp_batches paid_db = []" "serial_counters paid_db = []"
  "outbox_messages paid_db = []" "audit_events paid_db = []" "companies paid_db = [sample_company]" "next_uuid paid_db = 30"
  "payment_intents paid_db = [(sample_intent 3750)\<lparr>pi_status := P_SETTLED, pi_settled_at := Some 0\<rparr>]"
  "payment_receipts paid_db = [new_receipt (sample_advice 53750) (Some (sample_intent 3750)) (replicate 64 CHR ''0'') 0 0 20]"
  "journals paid_db = [paid_journal]"
  "ledger_entries paid_db = entries_of 21 0 22 (settlement_postings (sample_order O_PAID 3750))"
  by (simp_all add: paid_db_def sample_db_def empty_db_def)

lemma paid_db_payments: "payments_wf paid_db"
  by (simp add: payments_wf_def paid_db_fields intent_ok_def receipts_ok_def paid_def matched_for_def
      sample_intent_def sample_order_def sample_advice_def new_receipt_def order_core_def classify_def new_intent_def)

lemma paid_db_books: "books_wf paid_db"
proof -
  have "ledger_ok paid_db"
    by (simp add: ledger_ok_def ledger_wf_def paid_db_fields settlement_postings_def entry_of_def ACCOUNTS_def
        paid_journal_def sample_order_def journal_sum_def amount_sum_def below_def)
  moreover have "accounts_ok paid_db c" for c
    by (simp add: accounts_ok_def paid_db_fields entries_money)
      (simp add: settlement_postings_def entry_of_def trial_balance_def owed_def received_def paid_def sample_order_def
        order_core_def sample_advice_def sample_intent_def classify_def new_intent_def signed_def)
  ultimately show ?thesis by (simp add: books_wf_def)
qed

lemma paid_db_wf: "platform_wf k paid_db"
proof -
  have "orders_wf paid_db"
    by (rule orders_wf_cong [OF _ _ _ _ sample_orders_wf [of 3750 "to_payment @ [O_PAID]"]]) (simp_all add: paid_db_def)
  moreover have "outbox_wf paid_db" "audit_intact k paid_db"
    by (simp_all add: outbox_wf_def audit_intact_def audit_wf_def paid_db_fields)
  moreover have "stamps_wf paid_db" by (simp add: stamps_wf_def paid_db_fields next_serial_def sample_order_def)
  ultimately show ?thesis
    using paid_db_payments paid_db_books by (simp add: platform_wf_def rest_wf_def money_wf_def)
qed

text \<open>Issuance may start in 2026.\<close>

definition in_2026 :: instant where "in_2026 = 20500 * DAY"

lemma in_2026: "year_of in_2026 = 2026" "is_ok (dt_add in_2026 (STAMP_VALIDITY_DAYS * DAY))"
  by code_simp+

lemma paid_db_can: "can_issue 5 in_2026 paid_db"
proof -
  have "pending 5 paid_db = 10" by (simp add: pending_def paid_db_fields sample_order_def)
  moreover have "next_serial paid_db x = 1" for x by (simp add: next_serial_def paid_db_fields split: prod.splits)
  ultimately show ?thesis
    unfolding can_issue_def in_2026 using in_2026(2)
    by (simp add: paid_db_fields paid_def sample_company_def sample_order_def)
qed

text \<open>The database after the sample order was issued.\<close>

lemma sample_issued:
  "\<exists>p db'. issue_order 5 4 sk k ''r1'' (\<lambda>_. in_2026) paid_db = (Inr p, db')"
proof -
  have "events_below paid_db" "\<not> hash_clash k ''r1'' paid_db" by (simp_all add: events_below_def hash_clash_def paid_db_fields)
  moreover have "varchar 64 ''r1''" by (simp add: varchar_def)
  ultimately show ?thesis
    using issue_loop_outcome [OF paid_db_wf [of k], of 5 "\<lambda>_. in_2026" 4 "''r1''" sk 0] paid_db_can unfolding issue_order_def by auto
qed


section \<open>Properties\<close>



text \<open>
  C9. Stamps are never issued beyond what was paid for.  Whatever the outcome of a call of
  \<^verbatim>\<open>issue_order\<close>, an error in the middle included, the invariants hold afterwards: every batch belongs to a
  paid order and holds at most its quantity of stamps, the count in the batch is the number of its stamps, an issued
  order has a batch with exactly its quantity, and no two stamps share a serial.
\<close>

theorem issue_order_exact:
  assumes "platform_wf k db" and "issue_order oid c sk k rv clock db = (r, db')"
  shows "platform_wf k db' \<and>
    (\<forall>b \<in> set (stamp_batches db'). \<exists>ord \<in> set (orders db'). o_id ord = b_order_id b \<and>
       o_status ord \<in> {O_PAID, O_ISSUING, O_ISSUED} \<and> b_issued_count b = int (length (batch_stamps db' (b_id b))) \<and>
       b_issued_count b \<le> o_quantity ord \<and> (o_status ord = O_ISSUED \<longrightarrow> b_issued_count b = o_quantity ord)) \<and>
    (\<forall>ord \<in> set (orders db'). o_status ord = O_ISSUED \<longrightarrow> o_id ord \<in> b_order_id ` set (stamp_batches db')) \<and>
    distinct (map s_serial (stamps db'))"
proof (intro conjI)
  show wf: "platform_wf k db'"
    using issue_loop_platform [OF assms(1), of oid c sk rv clock 0] assms(2) by (auto simp: issue_order_def)
  then have st: "stamps_wf db'" by (rule platform_orders)
  show "\<forall>b \<in> set (stamp_batches db'). \<exists>ord \<in> set (orders db'). o_id ord = b_order_id b \<and>
       o_status ord \<in> {O_PAID, O_ISSUING, O_ISSUED} \<and> b_issued_count b = int (length (batch_stamps db' (b_id b))) \<and>
       b_issued_count b \<le> o_quantity ord \<and> (o_status ord = O_ISSUED \<longrightarrow> b_issued_count b = o_quantity ord)"
    using stamps_wf_batch [OF st] unfolding batch_ok_def paid_def by metis
  show "\<forall>ord \<in> set (orders db'). o_status ord = O_ISSUED \<longrightarrow> o_id ord \<in> b_order_id ` set (stamp_batches db')"
    "distinct (map s_serial (stamps db'))" using st by (simp_all add: stamps_wf_def)
qed

theorem issue_order_exact_witness:
  "\<exists>p db'. issue_order 5 4 ''s'' ''k'' ''r1'' (\<lambda>_. in_2026) paid_db = (Inr p, db') \<and> platform_wf ''k'' db'"
  using sample_issued [of "''s''" "''k''"] issue_order_exact [OF paid_db_wf, of 5 4 "''s''" "''k''" "''r1''" "\<lambda>_. in_2026"] by blast

fun issue_iterations ::
  "nat \<Rightarrow> uuid \<Rightarrow> int \<Rightarrow> string \<Rightarrow> string \<Rightarrow> string \<Rightarrow> (nat \<Rightarrow> instant) \<Rightarrow> nat \<Rightarrow> db \<Rightarrow> (issuance_progress res \<times> db) option" where
  "issue_iterations 0 order_id chunk_size secret audit_secret revision clock i db = None"
| "issue_iterations (Suc n) order_id chunk_size secret audit_secret revision clock i db =
     (case issue_step order_id chunk_size secret audit_secret revision (clock i) db of
        Inl e \<Rightarrow> Some (Inl e, db)
      | Inr (p, db') \<Rightarrow>
          if ip_completed p then Some (Inr p, db')
          else issue_iterations n order_id chunk_size secret audit_secret revision clock (Suc i) db')"

lemma issue_iterations_enough:
  "pending oid db < n \<Longrightarrow> issue_iterations n oid c sk k rv clock i db = Some (issue_loop oid c sk k rv clock i db)"
proof (induction n arbitrary: i db)
  case (Suc n)
  show ?case
    using Suc issue_step_progress [of oid c sk k rv "clock i" db]
    by (fastforce simp: issue_loop.simps [of oid c sk k rv clock i db] split: sum.splits prod.splits)
qed simp

text \<open>
  C11. The loop of \<^verbatim>\<open>issue_order\<close> ends after at most as many transactions as the order lacks stamps, and one more:
  run with that many iterations it returns, and what it returns is the result of the unbounded loop.
\<close>

theorem issue_order_terminates:
  "issue_iterations (Suc (pending oid db)) oid c sk k rv clock 0 db = Some (issue_order oid c sk k rv clock db)"
  unfolding issue_order_def by (rule issue_iterations_enough) simp

fun serial_blocks :: "((string \<times> int) \<times> int) list \<Rightarrow> db \<Rightarrow> ((string \<times> int) \<times> int) set list res" where
  "serial_blocks [] db = Inr []"
| "serial_blocks (((cat, year), n) # rs) db =
     bind_res (allocate_serial_block cat year n db) (\<lambda>(start, db).
     bind_res (serial_blocks rs db) (\<lambda>bs. Inr ({(cat, year)} \<times> {start ..< start + n} # bs)))"

lemma serial_blocks_claims: "serial_blocks rs db = serials.claims rs db"
  by (induction rs db rule: serial_blocks.induct) (auto simp: bind_res_def split: sum.splits)

text \<open>
  Serial blocks never overlap.  However many blocks are claimed one after the other, for whatever
  categories, years and sizes, no number of a category and year is in two of them.
\<close>

theorem serial_blocks_disjoint:
  assumes "serial_blocks rs db = Inr bs"
  shows "pairwise disjnt (set bs) \<and> distinct bs"
  using assms unfolding serial_blocks_claims by (rule serials.claims_disjoint)

theorem serial_blocks_disjoint_witness:
  "\<exists>bs. serial_blocks [((''beverages'', 2026), 3), ((''beverages'', 2026), 2)] paid_db = Inr bs \<and> pairwise disjnt (set bs) \<and> distinct bs"
proof -
  have "\<exists>bs. serial_blocks [((''beverages'', 2026), 3), ((''beverages'', 2026), 2)] paid_db = Inr bs"
    by (simp add: allocate_serial_block_def ensure_counter_def counter_for_def paid_db_fields db_eval)
  then show ?thesis using serial_blocks_disjoint by blast
qed

text \<open>
  C16. A redelivered issuance message clears a failed inspection: for an issued order whose batch failed its quality
  inspection, the chunk transaction succeeds and the batch is \<^verbatim>\<open>issued\<close> again, with a new completion time.
\<close>

theorem redelivery_clears_failed_inspection:
  assumes "platform_wf k db" and "ord \<in> set (orders db)" "o_status ord = O_ISSUED"
    and "b \<in> set (stamp_batches db)" "b_order_id b = o_id ord" "b_status b = B_INSPECTION_FAILED"
  shows "\<exists>p db'. issue_chunk (o_id ord) c sk now db = Inr (p, db') \<and> ip_completed p \<and>
    b\<lparr>b_status := B_ISSUED, b_completed_at := Some now\<rparr> \<in> set (stamp_batches db')"
proof -
  have wf: "stamps_wf db" "orders_wf db" using assms(1) by (rule platform_orders)+
  have one: "filter (\<lambda>x. o_id x = o_id ord) (orders db) = [ord]" using orders_wf_lookup [OF wf(2) assms(2)] .
  have two: "filter (\<lambda>x. b_order_id x = o_id ord) (stamp_batches db) = [b]"
    using wf(1) filter_key_singleton [OF _ assms(4), of b_order_id] assms(5) by (simp add: stamps_wf_def)
  have cnt: "int (length (batch_stamps db (b_id b))) = b_requested_count b" "b_issued_count b = b_requested_count b"
    using issued_exactly [OF assms(1-5)] batch_okD [OF stamps_wf_batch [OF wf(1) assms(4)]] by simp_all
  then have sv: "save_batch (b\<lparr>b_status := B_ISSUED, b_issued_count := b_requested_count b, b_completed_at := Some now\<rparr>) db =
      Inr (db\<lparr>stamp_batches := update_where (\<lambda>x. b_id x = b_id b)
        (\<lambda>_. b\<lparr>b_status := B_ISSUED, b_issued_count := b_requested_count b, b_completed_at := Some now\<rparr>) (stamp_batches db)\<rparr>)"
    by (simp add: save_batch_def)
  have "issue_chunk (o_id ord) c sk now db =
      Inr (\<lparr>ip_batch_id = b_id b, ip_requested = b_requested_count b, ip_issued = b_requested_count b, ip_completed = True\<rparr>,
        db\<lparr>stamp_batches := update_where (\<lambda>x. b_id x = b_id b)
          (\<lambda>_. b\<lparr>b_status := B_ISSUED, b_issued_count := b_requested_count b, b_completed_at := Some now\<rparr>) (stamp_batches db)\<rparr>)"
    using assms(3,6) by (simp add: issue_chunk_def one two ensure_batch_def begin_issuing_def complete_batch_def Let_def cnt sv)
  moreover have "b\<lparr>b_status := B_ISSUED, b_issued_count := b_requested_count b, b_completed_at := Some now\<rparr> =
      b\<lparr>b_status := B_ISSUED, b_completed_at := Some now\<rparr>" using cnt(2) by (cases b) simp
  ultimately show ?thesis using assms(4) by (auto simp: set_update_where image_iff)
qed

theorem redelivery_clears_failed_inspection_witness:
  "\<exists>db b. platform_wf ''k'' db \<and> b \<in> set (stamp_batches db) \<and> b_status b = B_INSPECTION_FAILED \<and>
    (\<exists>p db'. issue_chunk 5 4 ''s'' in_2026 db = Inr (p, db') \<and> ip_completed p \<and>
      b\<lparr>b_status := B_ISSUED, b_completed_at := Some in_2026\<rparr> \<in> set (stamp_batches db'))"
proof -
  obtain p db1 where "issue_loop 5 4 ''s'' ''k'' ''r1'' (\<lambda>_. in_2026) 0 paid_db = (Inr p, db1)"
    using sample_issued [of "''s''" "''k''"] by (auto simp: issue_order_def)
  from issue_loop_platform [OF paid_db_wf this] obtain ord b where wf: "platform_wf ''k'' db1"
    and ord: "ord \<in> set (orders db1)" "o_id ord = 5" "o_status ord = O_ISSUED"
    and b: "b \<in> set (stamp_batches db1)" "b_order_id b = 5" by blast
  let ?b = "b\<lparr>b_status := B_INSPECTION_FAILED\<rparr>"
  have "0 \<le> b_issued_count b" "b_issued_count b \<le> b_requested_count b"
    using batch_okD [OF stamps_wf_batch [OF platform_orders(2) [OF wf] b(1)]] by simp_all
  then obtain db where sv: "save_batch ?b db1 = Inr db" using save_batch_total [of ?b db1] by auto
  note wf2 = save_batch_platform [OF wf b(1) sv, simplified]
  have "ord \<in> set (orders db)" using sv ord(1) by (auto simp: save_batch_ok)
  from redelivery_clears_failed_inspection [OF wf2(1) this ord(3) wf2(2), of 4 "''s''" in_2026] show ?thesis
    using wf2 ord(2) b(2) by (intro exI [of _ db] exI [of _ ?b]) simp
qed

end
