(* ===== verification/Stamps.thy ===== *)
theory Stamps
  imports Issuance_Progress
begin

text \<open>
  \<^verbatim>\<open>src/src/taxstamp/services/stamps.py\<close>: activation, voiding and expiry of stamps.  A serial that
  cannot be changed is reported on its own; the others of the request are changed.  The events of a
  request are written at its flush, after the loop over the serials.
\<close>

definition MAX_BULK_SERIALS :: nat where "MAX_BULK_SERIALS = 1000"

definition EXPIRY_ACTOR :: audit_actor where
  "EXPIRY_ACTOR = \<lparr>aa_principal_id = None, aa_subject = ''system:expiry'', aa_role = ''operator'', aa_company_id = None\<rparr>"

record stamp_outcome =
  so_serial :: string
  so_status :: string
  so_changed :: bool
  so_reason :: "string option"

type_synonym bulk_result = "stamp_outcome list"

definition changed_count :: "bulk_result \<Rightarrow> int" where
  "changed_count outcomes = int (length (filter so_changed outcomes))"

text \<open>\<^verbatim>\<open>list(dict.fromkeys(xs))\<close>: the first occurrence of each element.\<close>

definition dict_fromkeys :: "'a list \<Rightarrow> 'a list" where
  "dict_fromkeys xs = rev (remdups (rev xs))"

definition validate_serials :: "string list \<Rightarrow> string list res" where
  "validate_serials serials =
     (if serials = [] then Inl ValidationFailed else
      if length serials > MAX_BULK_SERIALS then Inl ValidationFailed else
      let deduped = dict_fromkeys serials in
      if filter (\<lambda>s. \<not> is_valid_serial s) deduped \<noteq> [] then Inl ValidationFailed
      else Inr deduped)"

text \<open>\<^verbatim>\<open>found.get(serial)\<close> and \<^verbatim>\<open>batch_status.get(batch_id)\<close>.\<close>

definition find_stamp :: "string \<Rightarrow> db \<Rightarrow> stamp option" where
  "find_stamp serial db = find (\<lambda>s. s_serial s = serial) (rev (stamps db))"

definition batch_status_of :: "uuid \<Rightarrow> db \<Rightarrow> batch_status option" where
  "batch_status_of i db = map_option b_status (find (\<lambda>b. b_id b = i) (rev (stamp_batches db)))"

text \<open>One iteration of the loop of \<^verbatim>\<open>activate_stamps\<close>: the outcome, and the changed stamp if any.\<close>

definition activate_stamp :: "actor \<Rightarrow> instant \<Rightarrow> string \<Rightarrow> db \<Rightarrow> (stamp_outcome \<times> stamp option) res" where
  "activate_stamp actor now serial db =
     (case find_stamp serial db of
        None \<Rightarrow> Inr (\<lparr>so_serial = serial, so_status = ''unknown'', so_changed = False,
                      so_reason = Some ''serial not issued''\<rparr>, None)
      | Some s \<Rightarrow>
          let skip = (\<lambda>why. Inr (\<lparr>so_serial = serial, so_status = stamp_status_value (s_status s), so_changed = False,
                                  so_reason = Some why\<rparr>, None)) in
          if ac_role actor \<notin> {ADMIN, OPERATOR} \<and> ac_company_id actor \<noteq> Some (s_company_id s) then Inl Forbidden
          else if batch_status_of (s_batch_id s) db = Some B_INSPECTION_FAILED then skip ''batch failed quality inspection''
          else if s_status s = S_ACTIVE then skip ''already active''
          else if s_expires_at s \<le> now then skip ''stamp has expired''
          else case assert_stamp_transition (s_status s) S_ACTIVE of
            Inl (TransitionError msg) \<Rightarrow> skip msg
          | Inl e \<Rightarrow> Inl e
          | Inr _ \<Rightarrow> Inr (\<lparr>so_serial = serial, so_status = stamp_status_value S_ACTIVE, so_changed = True, so_reason = None\<rparr>,
                          Some (s\<lparr>s_status := S_ACTIVE, s_activated_at := Some now\<rparr>)))"

definition void_stamp :: "instant \<Rightarrow> string \<Rightarrow> db \<Rightarrow> (stamp_outcome \<times> stamp option) res" where
  "void_stamp now serial db =
     (case find_stamp serial db of
        None \<Rightarrow> Inr (\<lparr>so_serial = serial, so_status = ''unknown'', so_changed = False,
                      so_reason = Some ''serial not issued''\<rparr>, None)
      | Some s \<Rightarrow>
          case assert_stamp_transition (s_status s) S_VOID of
            Inl (TransitionError msg) \<Rightarrow>
              Inr (\<lparr>so_serial = serial, so_status = stamp_status_value (s_status s), so_changed = False,
                    so_reason = Some msg\<rparr>, None)
          | Inl e \<Rightarrow> Inl e
          | Inr _ \<Rightarrow> Inr (\<lparr>so_serial = serial, so_status = stamp_status_value S_VOID, so_changed = True, so_reason = None\<rparr>,
                          Some (s\<lparr>s_status := S_VOID, s_voided_at := Some now\<rparr>)))"

definition new_stamp_event :: "uuid \<Rightarrow> string \<Rightarrow> uuid option \<Rightarrow> json_object \<Rightarrow> instant \<Rightarrow> uuid \<Rightarrow> stamp_event" where
  "new_stamp_event stamp_id event_type actor_id ctx now i =
     \<lparr>se_id = i, se_stamp_id = stamp_id, se_event_type = event_type, se_actor_principal_id = actor_id,
      se_context = ctx, se_created_at = now\<rparr>"

definition save_stamp :: "stamp \<Rightarrow> db \<Rightarrow> db" where
  "save_stamp s db = db\<lparr>stamps := update_where (\<lambda>x. s_id x = s_id s) (\<lambda>_. s) (stamps db)\<rparr>"

text \<open>\<^verbatim>\<open>for serial in wanted\<close>: the outcomes, the events to write, and the changed table.\<close>

fun stamp_loop ::
  "(string \<Rightarrow> db \<Rightarrow> (stamp_outcome \<times> stamp option) res) \<Rightarrow> (stamp \<Rightarrow> uuid \<Rightarrow> stamp_event) \<Rightarrow> string list \<Rightarrow> db \<Rightarrow>
    (stamp_outcome list \<times> (uuid \<Rightarrow> stamp_event) list \<times> db) res" where
  "stamp_loop step event [] db = Inr ([], [], db)"
| "stamp_loop step event (serial # rest) db =
     bind_res (step serial db) (\<lambda>(out, upd).
     case upd of
       None \<Rightarrow> bind_res (stamp_loop step event rest db) (\<lambda>(outs, evs, db). Inr (out # outs, evs, db))
     | Some s \<Rightarrow> bind_res (stamp_loop step event rest (save_stamp s db)) (\<lambda>(outs, evs, db).
         Inr (out # outs, event s # evs, db)))"

fun insert_stamp_events :: "(uuid \<Rightarrow> stamp_event) list \<Rightarrow> db \<Rightarrow> db res" where
  "insert_stamp_events [] db = Inr db"
| "insert_stamp_events (e # es) db = bind_res (insert_stamp_event e db) (\<lambda>(r, db). insert_stamp_events es db)"

definition activate_record :: "string list \<Rightarrow> bulk_result \<Rightarrow> actor \<Rightarrow> string option \<Rightarrow> audit_record" where
  "activate_record wanted outcomes actor idempotency_key =
     \<lparr>ar_action = ''stamp.activate'', ar_target_type = ''stamp_set'',
      ar_target_id = nat_str (length wanted) @ '' serials'', ar_outcome = ''success'', ar_before_state = None,
      ar_after_state = Some [(''requested'', JInt (int (length wanted))), (''activated'', JInt (changed_count outcomes)),
        (''serials'', JList (map JStr (take 50 wanted)))],
      ar_request_id = ac_request_id actor, ar_idempotency_key = idempotency_key\<rparr>"

definition activated_event :: "actor \<Rightarrow> instant \<Rightarrow> stamp \<Rightarrow> uuid \<Rightarrow> stamp_event" where
  "activated_event actor now s =
     new_stamp_event (s_id s) ''activated'' (Some (ac_principal_id actor)) [(''serial'', JStr (s_serial s))] now"

definition activate_stamps ::
  "actor \<Rightarrow> string list \<Rightarrow> instant \<Rightarrow> string \<Rightarrow> string \<Rightarrow> string option \<Rightarrow> db \<Rightarrow> (bulk_result \<times> db) res" where
  "activate_stamps actor serials now audit_secret revision idempotency_key db =
     bind_res (require_role actor [REQUESTER, OPERATOR, ADMIN]) (\<lambda>_.
     bind_res (validate_serials serials) (\<lambda>wanted.
     bind_res (stamp_loop (activate_stamp actor now) (activated_event actor now) wanted db) (\<lambda>(outcomes, evs, db).
     bind_res (insert_stamp_events evs db) (\<lambda>db.
     bind_res (record_audit_event (audit_actor_of actor) (activate_record wanted outcomes actor idempotency_key) now
        audit_secret revision db) (\<lambda>(e, db).
     Inr (outcomes, db))))))"

text \<open>\<^verbatim>\<open>reason.strip()\<close> is empty when every character is white space.\<close>

definition py_space :: "char \<Rightarrow> bool" where
  "py_space c = ((of_char c :: nat) \<in> {9, 10, 11, 12, 13, 28, 29, 30, 31, 32, 133, 160})"

definition void_record :: "string list \<Rightarrow> bulk_result \<Rightarrow> string \<Rightarrow> actor \<Rightarrow> audit_record" where
  "void_record wanted outcomes why actor =
     \<lparr>ar_action = ''stamp.void'', ar_target_type = ''stamp_set'',
      ar_target_id = nat_str (length wanted) @ '' serials'', ar_outcome = ''success'', ar_before_state = None,
      ar_after_state = Some [(''requested'', JInt (int (length wanted))), (''voided'', JInt (changed_count outcomes)),
        (''reason'', JStr why)],
      ar_request_id = ac_request_id actor, ar_idempotency_key = None\<rparr>"

definition voided_event :: "actor \<Rightarrow> string \<Rightarrow> instant \<Rightarrow> stamp \<Rightarrow> uuid \<Rightarrow> stamp_event" where
  "voided_event actor why now s =
     new_stamp_event (s_id s) ''voided'' (Some (ac_principal_id actor))
       [(''serial'', JStr (s_serial s)), (''reason'', JStr why)] now"

definition void_stamps ::
  "actor \<Rightarrow> string list \<Rightarrow> string \<Rightarrow> instant \<Rightarrow> string \<Rightarrow> string \<Rightarrow> db \<Rightarrow> (bulk_result \<times> db) res" where
  "void_stamps actor serials why now audit_secret revision db =
     bind_res (require_role actor [ADMIN, OPERATOR]) (\<lambda>_.
     if list_all py_space why then Inl ValidationFailed else
     bind_res (validate_serials serials) (\<lambda>wanted.
     bind_res (stamp_loop (void_stamp now) (voided_event actor why now) wanted db) (\<lambda>(outcomes, evs, db).
     bind_res (insert_stamp_events evs db) (\<lambda>db.
     bind_res (record_audit_event (audit_actor_of actor) (void_record wanted outcomes why actor) now
        audit_secret revision db) (\<lambda>(e, db).
     Inr (outcomes, db))))))"

definition expiry_due :: "instant \<Rightarrow> stamp \<Rightarrow> bool" where
  "expiry_due now s = (s_expires_at s \<le> now \<and> s_status s \<in> {S_ISSUED, S_ACTIVE})"

definition expire_record :: "nat \<Rightarrow> audit_record" where
  "expire_record n =
     \<lparr>ar_action = ''stamp.expire'', ar_target_type = ''stamp_set'', ar_target_id = nat_str n @ '' stamps'',
      ar_outcome = ''success'', ar_before_state = None, ar_after_state = Some [(''expired'', JInt (int n))],
      ar_request_id = None, ar_idempotency_key = None\<rparr>"

definition expire_due_stamps :: "instant \<Rightarrow> int \<Rightarrow> string \<Rightarrow> string \<Rightarrow> db \<Rightarrow> (int \<times> db) res" where
  "expire_due_stamps now limit audit_secret revision db =
     (if limit < 0 then Inl DataError else
      let due_ids = map s_id (take (nat limit) (sort_key s_expires_at (filter (expiry_due now) (stamps db)))) in
      if due_ids = [] then Inr (0, db) else
      bind_res (insert_stamp_events
          (map (\<lambda>i. new_stamp_event i ''expired'' None [(''reason'', JStr ''validity elapsed'')] now) due_ids)
          (db\<lparr>stamps := update_where (\<lambda>s. s_id s \<in> set due_ids) (\<lambda>s. s\<lparr>s_status := S_EXPIRED\<rparr>) (stamps db)\<rparr>)) (\<lambda>db.
      bind_res (record_audit_event EXPIRY_ACTOR (expire_record (length due_ids)) now audit_secret revision db) (\<lambda>(e, db).
      Inr (int (length due_ids), db))))"

definition get_stamp :: "string \<Rightarrow> actor \<Rightarrow> db \<Rightarrow> stamp res" where
  "get_stamp serial actor db =
     bind_res (scalar_one_or_none (filter (\<lambda>s. s_serial s = serial) (stamps db))) (\<lambda>found.
     case found of
       None \<Rightarrow> Inl NotFound
     | Some s \<Rightarrow>
         if ac_role actor = REQUESTER then bind_res (require_company actor (s_company_id s)) (\<lambda>_. Inr s) else Inr s)"

definition batch_id_for :: "uuid \<Rightarrow> db \<Rightarrow> stamp_batch res" where
  "batch_id_for batch_id db =
     (case find (\<lambda>b. b_id b = batch_id) (stamp_batches db) of None \<Rightarrow> Inl NotFound | Some b \<Rightarrow> Inr b)"

section \<open>Moves of a stamp\<close>

text \<open>The services change the status of a stamp along its transition table, and nothing else but the times.\<close>

definition stamp_move :: "stamp \<Rightarrow> stamp \<Rightarrow> bool" where
  "stamp_move s s' =
     (s' = s\<lparr>s_status := s_status s', s_activated_at := s_activated_at s', s_voided_at := s_voided_at s'\<rparr> \<and>
      (s_status s' = s_status s \<or> assert_stamp_transition (s_status s) (s_status s') = Inr ()))"

lemma stamp_move_refl [simp]: "stamp_move s s"
  by (simp add: stamp_move_def)

lemma stamp_move_trans: "stamp_move a b \<Longrightarrow> stamp_move b c \<Longrightarrow> stamp_move a c"
  by (cases a; cases b; cases c) (auto simp: stamp_move_def assert_stamp_transition_iff)

lemma stamp_move_keys:
  assumes "stamp_move s s'"
  shows "s_id s' = s_id s" "s_serial s' = s_serial s" "s_batch_id s' = s_batch_id s" "s_product_category s' = s_product_category s"
  using assms by (cases s; cases s'; simp add: stamp_move_def)+

text \<open>A step of the life cycle: stamps move, events are added, every other table stays.\<close>

definition lifecycle :: "db \<Rightarrow> db \<Rightarrow> bool" where
  "lifecycle db db' =
     (list_all2 stamp_move (stamps db) (stamps db') \<and> next_uuid db \<le> next_uuid db' \<and>
      db' = db\<lparr>stamps := stamps db', stamp_events := stamp_events db', next_uuid := next_uuid db'\<rparr>)"

lemma lifecycle_refl [simp]: "lifecycle db db"
  by (simp add: lifecycle_def list.rel_refl)

lemma lifecycle_trans:
  assumes "lifecycle a b" "lifecycle b c"
  shows "lifecycle a c"
  unfolding lifecycle_def
proof (intro conjI)
  have b: "b = a\<lparr>stamps := stamps b, stamp_events := stamp_events b, next_uuid := next_uuid b\<rparr>"
    and c: "c = b\<lparr>stamps := stamps c, stamp_events := stamp_events c, next_uuid := next_uuid c\<rparr>"
    using assms by (simp_all add: lifecycle_def)
  show "c = a\<lparr>stamps := stamps c, stamp_events := stamp_events c, next_uuid := next_uuid c\<rparr>"
    by (rule trans [OF c], subst b) simp
  show "list_all2 stamp_move (stamps a) (stamps c)"
    using assms by (auto simp: lifecycle_def intro: list_all2_trans [OF stamp_move_trans])
  show "next_uuid a \<le> next_uuid c" using assms by (simp add: lifecycle_def)
qed

lemma lifecycle_keys:
  assumes "lifecycle db db'"
  shows "map s_id (stamps db') = map s_id (stamps db)" "map s_serial (stamps db') = map s_serial (stamps db)"
    "length (batch_stamps db' i) = length (batch_stamps db i)"
    "(\<forall>s \<in> set (stamps db'). stamp_ok db' s) = (\<forall>s \<in> set (stamps db). stamp_ok db s)"
proof -
  have all: "list_all2 stamp_move (stamps db) (stamps db')" using assms by (simp add: lifecycle_def)
  show "map s_id (stamps db') = map s_id (stamps db)" "map s_serial (stamps db') = map s_serial (stamps db)"
    using all by (auto simp: list_all2_conv_all_nth stamp_move_keys intro!: nth_equalityI)
  show "length (batch_stamps db' i) = length (batch_stamps db i)"
    using all unfolding batch_stamps_def
    by (induction rule: list_all2_induct) (simp_all add: stamp_move_keys)
  have "db' = db\<lparr>stamps := stamps db', stamp_events := stamp_events db', next_uuid := next_uuid db'\<rparr>"
    using assms by (simp add: lifecycle_def)
  then have "next_serial db' = next_serial db" "stamp_batches db' = stamp_batches db"
    by (cases db; cases db'; simp add: next_serial_def fun_eq_iff)+
  then have "stamp_ok db' s' = stamp_ok db s" if "stamp_move s s'" for s s'
    using stamp_move_keys [OF that] by (simp add: stamp_ok_def allocated_def)
  with all show "(\<forall>s \<in> set (stamps db'). stamp_ok db' s) = (\<forall>s \<in> set (stamps db). stamp_ok db s)"
    unfolding list_all2_conv_all_nth all_set_conv_all_nth by metis
qed

lemma lifecycle_tables:
  assumes "lifecycle db db'"
  shows "orders db' = orders db" "order_transitions db' = order_transitions db" "approvals db' = approvals db"
    "payment_intents db' = payment_intents db" "payment_receipts db' = payment_receipts db" "journals db' = journals db"
    "ledger_entries db' = ledger_entries db" "outbox_messages db' = outbox_messages db" "audit_events db' = audit_events db"
    "next_seq db' = next_seq db" "next_uuid db \<le> next_uuid db'" "stamp_batches db' = stamp_batches db"
    "serial_counters db' = serial_counters db"
  using assms unfolding lifecycle_def by (cases db; cases db'; simp)+

lemma lifecycle_platform [inv_pres]:
  assumes wf: "platform_wf k db" and lc: "lifecycle db db'"
  shows "platform_wf k db'"
proof -
  note t = lifecycle_tables [OF lc] and keys = lifecycle_keys [OF lc]
  have "next_serial db' = next_serial db" by (simp add: next_serial_def t fun_eq_iff)
  moreover have "batch_ok db' b = batch_ok db b" for b by (simp add: batch_ok_def t keys(3))
  moreover have "stamps_wf db" using wf by (rule platform_orders)
  ultimately have "stamps_wf db'"
    unfolding stamps_wf_def keys t(1,12,13) using t(11) by (auto intro: below_mono)
  moreover have "rest_wf k db'" using wf t by (intro rest_wf_cong [of db' db]) (simp_all add: platform_wf_def)
  ultimately show ?thesis by (simp add: platform_wf_def)
qed

lemma insert_stamp_events_lifecycle:
  "insert_stamp_events evs db = Inr db' \<Longrightarrow> lifecycle db db' \<and> stamps db' = stamps db \<and>
    length (stamp_events db') = length (stamp_events db) + length evs"
proof (induction evs arbitrary: db)
  case (Cons e es)
  from Cons.prems obtain r db1 where ins: "insert_stamp_event e db = Inr (r, db1)" and rest: "insert_stamp_events es db1 = Inr db'"
    by auto
  have db1: "db1 = db\<lparr>next_uuid := Suc (next_uuid db), stamp_events := stamp_events db @ [r]\<rparr>"
    using ins by (auto simp: insert_stamp_event_def insert_row_def Let_def split: if_splits)
  then have "lifecycle db db1" by (simp add: lifecycle_def list.rel_refl)
  with Cons.IH [OF rest] lifecycle_trans db1 show ?case by auto
qed simp

text \<open>A serial finds its stamp.\<close>

lemma find_SomeD: "find p xs = Some x \<Longrightarrow> x \<in> set xs \<and> p x"
  by (induction xs) (auto split: if_splits)

lemma find_stamp_None: "find_stamp x db = None \<longleftrightarrow> x \<notin> s_serial ` set (stamps db)"
  by (auto simp: find_stamp_def find_None_iff)

lemma find_stamp_Some:
  assumes "distinct (map s_serial (stamps db))"
  shows "find_stamp x db = Some s \<longleftrightarrow> s \<in> set (stamps db) \<and> s_serial s = x"
proof
  show "s \<in> set (stamps db) \<and> s_serial s = x" if "find_stamp x db = Some s"
    using find_SomeD [OF that [unfolded find_stamp_def]] by simp
next
  assume s: "s \<in> set (stamps db) \<and> s_serial s = x"
  then obtain t where t: "find_stamp x db = Some t" using find_stamp_None [of x db] by (cases "find_stamp x db") auto
  then have "t \<in> set (stamps db)" "s_serial t = x" using find_SomeD [OF t [unfolded find_stamp_def]] by simp_all
  with s key_unique [OF assms] have "t = s" by metis
  with t show "find_stamp x db = Some s" by simp
qed

section \<open>The contract of an operation on serials\<close>

text \<open>
  What the loop over the serials of a request relies on: an iteration reports on its serial, changes
  the stamp of that serial exactly when the operation may be applied to it, and says so.
\<close>

locale stamp_operation =
  fixes step :: "string \<Rightarrow> db \<Rightarrow> (stamp_outcome \<times> stamp option) res" and may :: "stamp_batch list \<Rightarrow> stamp \<Rightarrow> bool"
    and upd :: "stamp \<Rightarrow> stamp"
  assumes step_serial: "step x db = Inr (out, u) \<Longrightarrow> so_serial out = x"
    and step_changed: "step x db = Inr (out, u) \<Longrightarrow> so_changed out \<longleftrightarrow> u \<noteq> None"
    and step_upd: "step x db = Inr (out, u) \<Longrightarrow>
      u = (case find_stamp x db of None \<Rightarrow> None | Some s \<Rightarrow> if may (stamp_batches db) s then Some (upd s) else None)"
    and upd_move: "may bs s \<Longrightarrow> stamp_move s (upd s)"
begin

definition sweep :: "string set \<Rightarrow> db \<Rightarrow> stamp list" where
  "sweep X db = map (\<lambda>s. if s_serial s \<in> X \<and> may (stamp_batches db) s then upd s else s) (stamps db)"

definition changes :: "db \<Rightarrow> string \<Rightarrow> bool" where
  "changes db x = (\<exists>s \<in> set (stamps db). s_serial s = x \<and> may (stamp_batches db) s)"

lemma sweep_one:
  assumes "distinct (map s_serial (stamps db))" "distinct (map s_id (stamps db))" "find_stamp x db = Some s" "may (stamp_batches db) s"
    "x \<notin> X"
  shows "sweep X (save_stamp (upd s) db) = sweep (insert x X) db"
proof -
  have s: "s \<in> set (stamps db)" "s_serial s = x" using assms(3) find_stamp_Some [OF assms(1)] by blast+
  note keys = stamp_move_keys [OF upd_move [OF assms(4)]]
  have "stamps (save_stamp (upd s) db) = map (\<lambda>t. if t = s then upd s else t) (stamps db)"
    using update_row_by_key [OF assms(2) s(1), of "upd s"] by (simp add: save_stamp_def keys)
  moreover have "stamp_batches (save_stamp (upd s) db) = stamp_batches db" by (simp add: save_stamp_def)
  ultimately have "sweep X (save_stamp (upd s) db) =
      map (\<lambda>t. if s_serial (if t = s then upd s else t) \<in> X \<and> may (stamp_batches db) (if t = s then upd s else t)
        then upd (if t = s then upd s else t) else (if t = s then upd s else t)) (stamps db)"
    by (simp add: sweep_def comp_def)
  also have "\<dots> = sweep (insert x X) db"
    unfolding sweep_def
  proof (rule map_cong [OF refl])
    fix t assume "t \<in> set (stamps db)"
    then have "s_serial t = x \<longleftrightarrow> t = s" using key_unique [OF assms(1) _ s(1)] s(2) by auto
    then show "(if s_serial (if t = s then upd s else t) \<in> X \<and> may (stamp_batches db) (if t = s then upd s else t)
        then upd (if t = s then upd s else t) else (if t = s then upd s else t)) =
      (if s_serial t \<in> insert x X \<and> may (stamp_batches db) t then upd t else t)"
      using s(2) assms(4,5) keys(2) by (cases "t = s") simp_all
  qed
  finally show ?thesis .
qed

lemma loop_effect:
  assumes "stamp_loop step ev xs db = Inr (outs, evs, db')" "distinct xs"
    "distinct (map s_serial (stamps db))" "distinct (map s_id (stamps db))"
  shows "map so_serial outs = xs \<and> db' = db\<lparr>stamps := sweep (set xs) db\<rparr> \<and> length evs = length (filter so_changed outs) \<and>
    (\<forall>out \<in> set outs. so_changed out \<longleftrightarrow> changes db (so_serial out))"
  using assms
proof (induction xs arbitrary: db outs evs)
  case Nil
  then show ?case by (simp add: sweep_def)
next
  case (Cons x xs)
  from Cons.prems(1) obtain out u where st: "step x db = Inr (out, u)" by auto
  note out = step_serial [OF st] step_changed [OF st] step_upd [OF st]
  have ch: "so_changed out \<longleftrightarrow> changes db x"
  proof (cases "find_stamp x db")
    case None
    then show ?thesis using out(2,3) find_stamp_None [of x db] by (auto simp: changes_def)
  next
    case (Some t)
    then have t: "t \<in> set (stamps db)" "s_serial t = x" using find_stamp_Some [OF Cons.prems(3)] by blast+
    then have "changes db x = may (stamp_batches db) t"
      unfolding changes_def using key_unique [OF Cons.prems(3) _ t(1)] by metis
    then show ?thesis using out(2,3) Some by (simp split: if_splits)
  qed
  show ?case
  proof (cases u)
    case None
    with Cons.prems(1) st obtain outs' where lp: "stamp_loop step ev xs db = Inr (outs', evs, db')" "outs = out # outs'" by auto
    have "sweep (set xs) db = sweep (set (x # xs)) db"
      using ch out(2) None by (auto simp: sweep_def changes_def)
    with Cons.IH [OF lp(1)] Cons.prems(2-4) lp(2) out ch None show ?thesis by simp
  next
    case (Some s')
    then obtain s where s: "find_stamp x db = Some s" "may (stamp_batches db) s" "s' = upd s"
      using out(3) by (auto split: option.splits if_splits)
    from Cons.prems(1) st Some obtain outs' evs' where lp: "stamp_loop step ev xs (save_stamp (upd s) db) = Inr (outs', evs', db')"
      "outs = out # outs'" "evs = ev s' # evs'" using s(3) by auto
    note keys = stamp_move_keys [OF upd_move [OF s(2)]]
    have id: "s \<in> set (stamps db)" "s_serial s = x" using s(1) find_stamp_Some [OF Cons.prems(3)] by blast+
    have same: "map s_serial (stamps (save_stamp (upd s) db)) = map s_serial (stamps db)"
      "map s_id (stamps (save_stamp (upd s) db)) = map s_id (stamps db)"
      using update_row_by_key [OF Cons.prems(4) id(1), of "upd s"] keys by (auto simp: save_stamp_def)
    have other: "changes (save_stamp (upd s) db) y = changes db y" if "y \<noteq> x" for y
      using update_row_by_key [OF Cons.prems(4) id(1), of "upd s"] keys id(2) that
      by (auto simp: changes_def save_stamp_def image_iff)
    have "x \<notin> set xs" using Cons.prems(2) by simp
    from sweep_one [OF Cons.prems(3,4) s(1,2) this]
    have sw: "sweep (set xs) (save_stamp (upd s) db) = sweep (set (x # xs)) db" by simp
    have d1: "distinct (map s_serial (stamps (save_stamp (upd s) db)))" "distinct (map s_id (stamps (save_stamp (upd s) db)))"
      unfolding same using Cons.prems(3,4) by simp_all
    have ih: "map so_serial outs' = xs" "db' = (save_stamp (upd s) db)\<lparr>stamps := sweep (set (x # xs)) db\<rparr>"
      "length evs' = length (filter so_changed outs')"
      "\<forall>out \<in> set outs'. so_changed out \<longleftrightarrow> changes (save_stamp (upd s) db) (so_serial out)"
      using Cons.IH [OF lp(1) _ d1] Cons.prems(2) sw by auto
    have "so_serial o' \<noteq> x" if "o' \<in> set outs'" for o' using ih(1) \<open>x \<notin> set xs\<close> that by auto
    then show ?thesis
      using ih lp(2,3) out(1,2) ch Some other by (auto simp: save_stamp_def)
  qed
qed

lemma sweep_lifecycle: "lifecycle db (db\<lparr>stamps := sweep X db\<rparr>)"
  by (auto simp: lifecycle_def sweep_def list_all2_map2 intro!: list.rel_refl_strong upd_move)

text \<open>Every serial of a request that succeeds got its own successful iteration, on the stamp it names.\<close>

lemma find_after_save:
  assumes "distinct (map s_serial (stamps db))" "distinct (map s_id (stamps db))" "find_stamp x db = Some s" "may (stamp_batches db) s"
    "y \<noteq> x"
  shows "find_stamp y (save_stamp (upd s) db) = find_stamp y db"
proof -
  have s: "s \<in> set (stamps db)" "s_serial s = x" using assms(3) find_stamp_Some [OF assms(1)] by blast+
  note keys = stamp_move_keys [OF upd_move [OF assms(4)]]
  have st: "stamps (save_stamp (upd s) db) = map (\<lambda>t. if t = s then upd s else t) (stamps db)"
    using update_row_by_key [OF assms(2) s(1), of "upd s"] by (simp add: save_stamp_def keys)
  have "map s_serial (stamps (save_stamp (upd s) db)) = map s_serial (stamps db)" using keys(2) by (simp add: st)
  then have d: "distinct (map s_serial (stamps (save_stamp (upd s) db)))" using assms(1) by simp
  have "find_stamp y (save_stamp (upd s) db) = Some t \<longleftrightarrow> find_stamp y db = Some t" for t
    unfolding find_stamp_Some [OF assms(1)] find_stamp_Some [OF d] st using s(2) keys(2) assms(5) by auto
  then show ?thesis by (metis option.exhaust)
qed

lemma loop_steps:
  assumes "stamp_loop step ev xs db = Inr (outs, evs, db')" "distinct xs"
    "distinct (map s_serial (stamps db))" "distinct (map s_id (stamps db))" "x \<in> set xs"
  shows "\<exists>d r. step x d = Inr r \<and> find_stamp x d = find_stamp x db"
  using assms
proof (induction xs arbitrary: db outs evs)
  case (Cons y ys)
  from Cons.prems(1) obtain out u where st: "step y db = Inr (out, u)" by auto
  note out = step_upd [OF st]
  show ?case
  proof (cases "x = y")
    case True
    with st show ?thesis by blast
  next
    case False
    then have x: "x \<in> set ys" using Cons.prems(5) by simp
    show ?thesis
    proof (cases u)
      case None
      with Cons.prems(1) st obtain outs' where "stamp_loop step ev ys db = Inr (outs', evs, db')" by auto
      from Cons.IH [OF this] Cons.prems(2-4) x show ?thesis by simp
    next
      case (Some s')
      then obtain s where s: "find_stamp y db = Some s" "may (stamp_batches db) s" "s' = upd s"
        using out by (auto split: option.splits if_splits)
      from Cons.prems(1) st Some s(3) obtain outs' evs' where
        lp: "stamp_loop step ev ys (save_stamp (upd s) db) = Inr (outs', evs', db')" by auto
      have lc: "stamps (save_stamp (upd s) db) = map (\<lambda>t. if t = s then upd s else t) (stamps db)"
        using update_row_by_key [OF Cons.prems(4), of s "upd s"] s(1) find_stamp_Some [OF Cons.prems(3)]
          stamp_move_keys [OF upd_move [OF s(2)]] by (simp add: save_stamp_def)
      have "map s_serial (stamps (save_stamp (upd s) db)) = map s_serial (stamps db)"
        "map s_id (stamps (save_stamp (upd s) db)) = map s_id (stamps db)"
        using stamp_move_keys [OF upd_move [OF s(2)]] by (simp_all add: lc)
      with Cons.IH [OF lp] Cons.prems(2-4) x find_after_save [OF Cons.prems(3,4) s(1,2) False] show ?thesis by simp
    qed
  qed
qed simp

end

section \<open>Activation and voiding meet the contract\<close>

definition activatable :: "instant \<Rightarrow> stamp_batch list \<Rightarrow> stamp \<Rightarrow> bool" where
  "activatable now bs s =
     (s_status s = S_ISSUED \<and> now < s_expires_at s \<and>
      map_option b_status (find (\<lambda>b. b_id b = s_batch_id s) (rev bs)) \<noteq> Some B_INSPECTION_FAILED)"

lemma assert_stamp_transition_Inl: "assert_stamp_transition a b = Inl e \<Longrightarrow> \<exists>m. e = TransitionError m"
  by (auto simp: assert_stamp_transition_def assert_transition_def Let_def split: if_splits)

lemma activate_stamp_cases:
  assumes "activate_stamp actor now x db = Inr (out, u)"
  shows "so_serial out = x \<and> (so_changed out \<longleftrightarrow> u \<noteq> None) \<and>
    u = (case find_stamp x db of None \<Rightarrow> None
         | Some s \<Rightarrow> if activatable now (stamp_batches db) s then Some (s\<lparr>s_status := S_ACTIVE, s_activated_at := Some now\<rparr>) else None) \<and>
    (\<forall>s. find_stamp x db = Some s \<longrightarrow> ac_role actor \<in> {ADMIN, OPERATOR} \<or> ac_company_id actor = Some (s_company_id s))"
proof (cases "find_stamp x db")
  case None
  with assms show ?thesis by (auto simp: activate_stamp_def)
next
  case (Some s)
  show ?thesis
  proof (cases "assert_stamp_transition (s_status s) S_ACTIVE")
    case (Inl e)
    then obtain m where "e = TransitionError m" using assert_stamp_transition_Inl by blast
    moreover have "s_status s \<noteq> S_ISSUED" using Inl by (auto simp: assert_stamp_transition_def assert_transition_def STAMP_TRANSITIONS_def)
    ultimately show ?thesis using assms Some Inl
      by (auto simp: activate_stamp_def activatable_def Let_def split: if_splits)
  next
    case (Inr y)
    then have "s_status s = S_ISSUED" using assert_stamp_transition_iff [of "s_status s" S_ACTIVE] by auto
    with assms Some Inr show ?thesis
      by (auto simp: activate_stamp_def activatable_def batch_status_of_def Let_def split: if_splits)
  qed
qed

interpretation activation: stamp_operation "activate_stamp actor now" "activatable now"
  "\<lambda>s. s\<lparr>s_status := S_ACTIVE, s_activated_at := Some now\<rparr>" for actor now
proof unfold_locales
  fix x db out u
  assume "activate_stamp actor now x db = Inr (out, u)"
  note c = activate_stamp_cases [OF this]
  then show "so_serial out = x" "so_changed out \<longleftrightarrow> u \<noteq> None"
    "u = (case find_stamp x db of None \<Rightarrow> None
       | Some s \<Rightarrow> if activatable now (stamp_batches db) s then Some (s\<lparr>s_status := S_ACTIVE, s_activated_at := Some now\<rparr>) else None)"
    by blast+
next
  fix bs s
  assume "activatable now bs s"
  then show "stamp_move s (s\<lparr>s_status := S_ACTIVE, s_activated_at := Some now\<rparr>)"
    by (cases s) (simp add: stamp_move_def activatable_def assert_stamp_transition_iff)
qed

lemma void_stamp_cases:
  assumes "void_stamp now x db = Inr (out, u)"
  shows "so_serial out = x \<and> (so_changed out \<longleftrightarrow> u \<noteq> None) \<and>
    u = (case find_stamp x db of None \<Rightarrow> None
         | Some s \<Rightarrow> if s_status s \<noteq> S_VOID then Some (s\<lparr>s_status := S_VOID, s_voided_at := Some now\<rparr>) else None)"
proof (cases "find_stamp x db")
  case None
  with assms show ?thesis by (auto simp: void_stamp_def)
next
  case (Some s)
  show ?thesis
  proof (cases "assert_stamp_transition (s_status s) S_VOID")
    case (Inl e)
    then obtain m where "e = TransitionError m" using assert_stamp_transition_Inl by blast
    moreover have "s_status s = S_VOID"
      using Inl assert_stamp_transition_iff [of "s_status s" S_VOID] by (cases "s_status s") auto
    ultimately show ?thesis using assms Some Inl by (auto simp: void_stamp_def)
  next
    case (Inr y)
    then have "s_status s \<noteq> S_VOID" using assert_stamp_transition_iff [of "s_status s" S_VOID] by auto
    with assms Some Inr show ?thesis by (auto simp: void_stamp_def)
  qed
qed

interpretation voiding: stamp_operation "void_stamp now" "\<lambda>_ s. s_status s \<noteq> S_VOID"
  "\<lambda>s. s\<lparr>s_status := S_VOID, s_voided_at := Some now\<rparr>" for now
proof unfold_locales
  fix x db out u
  assume "void_stamp now x db = Inr (out, u)"
  note c = void_stamp_cases [OF this]
  then show "so_serial out = x" "so_changed out \<longleftrightarrow> u \<noteq> None"
    "u = (case find_stamp x db of None \<Rightarrow> None
       | Some s \<Rightarrow> if s_status s \<noteq> S_VOID then Some (s\<lparr>s_status := S_VOID, s_voided_at := Some now\<rparr>) else None)"
    by blast+
next
  fix bs :: "stamp_batch list" and s :: stamp
  assume "s_status s \<noteq> S_VOID"
  then show "stamp_move s (s\<lparr>s_status := S_VOID, s_voided_at := Some now\<rparr>)"
    by (cases s; cases "s_status s") (simp_all add: stamp_move_def assert_stamp_transition_iff)
qed

section \<open>The services keep the invariants\<close>

lemma set_dict_fromkeys [simp]: "set (dict_fromkeys xs) = set xs" "distinct (dict_fromkeys xs)"
  by (simp_all add: dict_fromkeys_def)

lemma validate_serials_ok:
  "validate_serials xs = Inr ys \<longleftrightarrow>
    xs \<noteq> [] \<and> length xs \<le> MAX_BULK_SERIALS \<and> (\<forall>x \<in> set xs. is_valid_serial x) \<and> ys = dict_fromkeys xs"
  by (auto simp: validate_serials_def Let_def filter_empty_conv)

lemma insert_stamp_events_platform [inv_pres]:
  "platform_wf k db \<Longrightarrow> insert_stamp_events evs db = Inr db' \<Longrightarrow> platform_wf k db'"
  using insert_stamp_events_lifecycle lifecycle_platform by blast

lemma activate_stampsE:
  assumes "activate_stamps actor serials now k rv key db = Inr (outs, db')"
  obtains evs db1 db2 e where "ac_role actor \<in> {REQUESTER, OPERATOR, ADMIN}" "\<forall>x \<in> set serials. is_valid_serial x"
    "stamp_loop (activate_stamp actor now) (activated_event actor now) (dict_fromkeys serials) db = Inr (outs, evs, db1)"
    "insert_stamp_events evs db1 = Inr db2"
    "record_audit_event (audit_actor_of actor) (activate_record (dict_fromkeys serials) outs actor key) now k rv db2 = Inr (e, db')"
  using assms by (auto simp: activate_stamps_def validate_serials_ok)

lemma void_stampsE:
  assumes "void_stamps actor serials why now k rv db = Inr (outs, db')"
  obtains evs db1 db2 e where "ac_role actor \<in> {OPERATOR, ADMIN}" "\<forall>x \<in> set serials. is_valid_serial x"
    "stamp_loop (void_stamp now) (voided_event actor why now) (dict_fromkeys serials) db = Inr (outs, evs, db1)"
    "insert_stamp_events evs db1 = Inr db2"
    "record_audit_event (audit_actor_of actor) (void_record (dict_fromkeys serials) outs why actor) now k rv db2 = Inr (e, db')"
  using assms by (auto simp: void_stamps_def validate_serials_ok)

lemma activate_stamps_platform [inv_pres]:
  assumes "platform_wf k db" and "activate_stamps actor serials now k rv key db = Inr (outs, db')"
  shows "platform_wf k db' \<and> list_all2 stamp_move (stamps db) (stamps db')"
  using assms(2)
proof (rule activate_stampsE)
  fix evs db1 db2 e
  assume lp: "stamp_loop (activate_stamp actor now) (activated_event actor now) (dict_fromkeys serials) db = Inr (outs, evs, db1)"
    and ev: "insert_stamp_events evs db1 = Inr db2"
    and au: "record_audit_event (audit_actor_of actor) (activate_record (dict_fromkeys serials) outs actor key) now k rv db2 = Inr (e, db')"
  note keys = stamps_wf_keys [OF platform_orders(2) [OF assms(1)]]
  have "lifecycle db db1" using activation.loop_effect [OF lp _ keys(1,2)] activation.sweep_lifecycle by auto
  then have lc: "lifecycle db db2" using insert_stamp_events_lifecycle [OF ev] lifecycle_trans by blast
  have "stamps db' = stamps db2" using record_audit_event_db [OF au] by simp
  then show ?thesis using platform_wf_audit [OF lifecycle_platform [OF assms(1) lc] au] lc by (simp add: lifecycle_def)
qed

lemma void_stamps_platform [inv_pres]:
  assumes "platform_wf k db" and "void_stamps actor serials why now k rv db = Inr (outs, db')"
  shows "platform_wf k db' \<and> list_all2 stamp_move (stamps db) (stamps db')"
  using assms(2)
proof (rule void_stampsE)
  fix evs db1 db2 e
  assume lp: "stamp_loop (void_stamp now) (voided_event actor why now) (dict_fromkeys serials) db = Inr (outs, evs, db1)"
    and ev: "insert_stamp_events evs db1 = Inr db2"
    and au: "record_audit_event (audit_actor_of actor) (void_record (dict_fromkeys serials) outs why actor) now k rv db2 = Inr (e, db')"
  note keys = stamps_wf_keys [OF platform_orders(2) [OF assms(1)]]
  have "lifecycle db db1" using voiding.loop_effect [OF lp _ keys(1,2)] voiding.sweep_lifecycle by auto
  then have lc: "lifecycle db db2" using insert_stamp_events_lifecycle [OF ev] lifecycle_trans by blast
  have "stamps db' = stamps db2" using record_audit_event_db [OF au] by simp
  then show ?thesis using platform_wf_audit [OF lifecycle_platform [OF assms(1) lc] au] lc by (simp add: lifecycle_def)
qed

text \<open>Expiry: the due stamps, earliest first, up to the limit.\<close>

definition due_now :: "instant \<Rightarrow> int \<Rightarrow> db \<Rightarrow> stamp list" where
  "due_now now limit db = take (nat limit) (sort_key s_expires_at (filter (expiry_due now) (stamps db)))"

lemma set_due_now: "set (due_now now limit db) \<subseteq> {s \<in> set (stamps db). expiry_due now s}"
  using set_take_subset unfolding due_now_def by fastforce

lemma expire_due_stampsE:
  assumes "expire_due_stamps now limit k rv db = Inr (n, db')"
  shows "0 \<le> limit \<and> n = int (length (due_now now limit db)) \<and>
    ((due_now now limit db = [] \<and> db' = db) \<or>
     (\<exists>db1 e. insert_stamp_events
        (map (\<lambda>i. new_stamp_event i ''expired'' None [(''reason'', JStr ''validity elapsed'')] now) (map s_id (due_now now limit db)))
        (db\<lparr>stamps := update_where (\<lambda>s. s_id s \<in> s_id ` set (due_now now limit db))
          (\<lambda>s. s\<lparr>s_status := S_EXPIRED\<rparr>) (stamps db)\<rparr>) = Inr db1 \<and>
        record_audit_event EXPIRY_ACTOR (expire_record (nat n)) now k rv db1 = Inr (e, db')))"
  using assms unfolding expire_due_stamps_def Let_def due_now_def [symmetric]
  by (auto split: if_splits simp del: map_map)

lemma expire_sweep:
  assumes "platform_wf k db"
  shows "lifecycle db (db\<lparr>stamps := update_where (\<lambda>s. s_id s \<in> s_id ` set (due_now now limit db)) (\<lambda>s. s\<lparr>s_status := S_EXPIRED\<rparr>) (stamps db)\<rparr>)"
proof -
  have d: "distinct (map s_id (stamps db))" using stamps_wf_keys [OF platform_orders(2) [OF assms]] by blast
  have "stamp_move s (s\<lparr>s_status := S_EXPIRED\<rparr>)" if s: "s \<in> set (stamps db)" "s_id s \<in> s_id ` set (due_now now limit db)" for s
  proof -
    obtain t where "t \<in> set (due_now now limit db)" "s_id s = s_id t" using s(2) by blast
    moreover from this have "t \<in> set (stamps db)" "expiry_due now t" using set_due_now by blast+
    ultimately have "expiry_due now s" using key_unique [OF d s(1)] by blast
    then show ?thesis by (cases s) (auto simp: stamp_move_def expiry_due_def assert_stamp_transition_iff)
  qed
  then show ?thesis by (auto simp: lifecycle_def update_where_def list_all2_map2 intro!: list.rel_refl_strong)
qed

lemma expire_due_stamps_platform [inv_pres]:
  assumes "platform_wf k db" and "expire_due_stamps now limit k rv db = Inr (n, db')"
  shows "platform_wf k db' \<and> list_all2 stamp_move (stamps db) (stamps db') \<and>
    stamps db' = update_where (\<lambda>s. s_id s \<in> s_id ` set (due_now now limit db)) (\<lambda>s. s\<lparr>s_status := S_EXPIRED\<rparr>) (stamps db)"
proof (cases "due_now now limit db = [] \<and> db' = db")
  case True
  then show ?thesis using assms(1) by (simp add: list.rel_refl update_where_def)
next
  case False
  from expire_due_stampsE [OF assms(2)] False obtain evs db1 e where
    ev: "insert_stamp_events evs (db\<lparr>stamps := update_where (\<lambda>s. s_id s \<in> s_id ` set (due_now now limit db))
          (\<lambda>s. s\<lparr>s_status := S_EXPIRED\<rparr>) (stamps db)\<rparr>) = Inr db1"
    and au: "record_audit_event EXPIRY_ACTOR (expire_record (nat n)) now k rv db1 = Inr (e, db')" by blast
  have lc: "lifecycle db db1"
    using insert_stamp_events_lifecycle [OF ev] expire_sweep [OF assms(1)] lifecycle_trans by blast
  have "stamps db' = stamps db1" using record_audit_event_db [OF au] by simp
  with insert_stamp_events_lifecycle [OF ev] lc show ?thesis
    using platform_wf_audit [OF lifecycle_platform [OF assms(1) lc] au] by (simp add: lifecycle_def)
qed

section \<open>A sample stamp\<close>

text \<open>The sample order in the middle of its issuance, with one of its ten stamps.\<close>

definition sample_batch :: stamp_batch where
  "sample_batch = \<lparr>b_id = 27, b_order_id = 5, b_requested_count = 10, b_issued_count = 1, b_status = B_ISSUING,
     b_created_at = in_2026, b_completed_at = None\<rparr>"

definition sample_serial :: string where "sample_serial = ''NG-BEV-2026-0000000001-W''"

definition sample_stamp :: stamp where
  "sample_stamp = new_stamp (sample_order O_ISSUING 3750) sample_batch sample_serial ''s'' in_2026 (in_2026 + 730 * DAY) 28"

definition issuing_db :: db where
  "issuing_db = paid_db\<lparr>orders := [sample_order O_ISSUING 3750],
     order_transitions := sample_history (to_payment @ [O_PAID, O_ISSUING]), stamp_batches := [sample_batch],
     stamps := [sample_stamp],
     serial_counters := [\<lparr>sc_product_category = ''beverages'', sc_year = 2026, sc_next_value = 2\<rparr>]\<rparr>"

lemma issuing_db_fields:
  "orders issuing_db = [sample_order O_ISSUING 3750]" "stamp_batches issuing_db = [sample_batch]" "stamps issuing_db = [sample_stamp]"
  "serial_counters issuing_db = [\<lparr>sc_product_category = ''beverages'', sc_year = 2026, sc_next_value = 2\<rparr>]"
  "next_uuid issuing_db = 30" "audit_events issuing_db = []" "stamp_events issuing_db = []"
  "principals issuing_db = [sample_principal 2 REQUESTER, sample_principal 3 ANALYST, sample_principal 8 OPERATOR]"
  by (simp_all add: issuing_db_def paid_db_def sample_db_def empty_db_def)

lemma sample_stamp_simps [simp]:
  "s_id sample_stamp = 28" "s_serial sample_stamp = sample_serial" "s_batch_id sample_stamp = 27" "s_company_id sample_stamp = 1"
  "s_status sample_stamp = S_ISSUED" "s_expires_at sample_stamp = in_2026 + 730 * DAY" "s_product_category sample_stamp = ''beverages''"
  by (simp_all add: sample_stamp_def sample_batch_def sample_order_def)

lemma sample_serial: "format_serial ''beverages'' 2026 1 = Inr sample_serial" "is_valid_serial sample_serial"
  by code_simp+

lemma issuing_db_wf: "platform_wf k issuing_db"
proof -
  have "orders_wf issuing_db"
    by (rule orders_wf_cong [OF _ _ _ _ sample_orders_wf [of 3750 "to_payment @ [O_PAID, O_ISSUING]"]])
      (simp_all add: issuing_db_def paid_db_def sample_db_def)
  moreover have "money_wf issuing_db"
    by (rule money_wf_cong [of _ paid_db])
      (use paid_db_payments paid_db_books in \<open>simp_all add: issuing_db_def paid_db_fields money_wf_def sample_order_def order_core_def paid_def\<close>)
  moreover have "outbox_wf issuing_db" "audit_intact k issuing_db"
    by (simp_all add: outbox_wf_def audit_intact_def audit_wf_def issuing_db_def paid_db_fields)
  moreover have "next_serial issuing_db (c, y) = (if c = ''beverages'' \<and> y = 2026 then 2 else 1)" for c y
    by (simp add: next_serial_def issuing_db_fields counter_for_def)
  then have ns: "next_serial issuing_db (''beverages'', 2026) = 2" "1 \<le> next_serial issuing_db x" for x
    by (simp, cases x, simp)
  have "allocated issuing_db sample_stamp"
    unfolding allocated_def using ns(1) sample_serial(1) by (intro exI [of _ "2026 :: int"] exI [of _ "1 :: int"]) simp
  with ns(2) have "stamps_wf issuing_db"
    unfolding stamps_wf_def stamp_ok_def batch_ok_def
    by (simp add: issuing_db_fields batch_stamps_def sample_batch_def sample_order_def paid_def below_def)
  ultimately show ?thesis by (simp add: platform_wf_def rest_wf_def)
qed

definition sample_actor :: "role \<Rightarrow> actor" where
  "sample_actor r = \<lparr>ac_principal_id = (if r = REQUESTER then 2 else if r = ANALYST then 3 else 8), ac_subject = role_value r,
     ac_role = r, ac_company_id = (if r = REQUESTER then Some 1 else None), ac_request_id = None\<rparr>"

lemma sample_activates:
  "\<exists>outs db'. activate_stamps (sample_actor REQUESTER) [sample_serial] in_2026 k ''r1'' None issuing_db = Inr (outs, db')"
proof -
  let ?a = "sample_actor REQUESTER" and ?s = "sample_stamp\<lparr>s_status := S_ACTIVE, s_activated_at := Some in_2026\<rparr>"
  let ?o = "\<lparr>so_serial = sample_serial, so_status = ''active'', so_changed = True, so_reason = None\<rparr>"
  have st: "activate_stamp ?a in_2026 sample_serial issuing_db = Inr (?o, Some ?s)"
    by (simp add: activate_stamp_def find_stamp_def issuing_db_fields batch_status_of_def sample_batch_def sample_actor_def
        assert_stamp_transition_def assert_transition_def STAMP_TRANSITIONS_def DAY_def SECOND_def)
  have lp: "stamp_loop (activate_stamp ?a in_2026) (activated_event ?a in_2026) [sample_serial] issuing_db =
      Inr ([?o], [activated_event ?a in_2026 ?s], save_stamp ?s issuing_db)" by (simp add: st)
  let ?d = "save_stamp ?s issuing_db"
  have f: "audit_events ?d = []" "stamps ?d = [?s]" "stamp_events ?d = []" "principals ?d = principals issuing_db"
    by (simp_all add: save_stamp_def issuing_db_fields)
  have "\<exists>d'. insert_stamp_events [activated_event ?a in_2026 ?s] ?d = Inr d' \<and> audit_events d' = []"
    by (simp add: insert_stamp_event_def insert_row_def Let_def stamp_event_types_def stamp_event_checks_def f activated_event_def
        new_stamp_event_def varchar_def unused_def foreign_key_def opt_col_def issuing_db_fields sample_actor_def sample_principal_def)
  then obtain d' where ev: "insert_stamp_events [activated_event ?a in_2026 ?s] ?d = Inr d'" "audit_events d' = []" by blast
  have "nat_str (Suc 0) = ''1''" by code_simp
  then have fits: "audit_fits (audit_actor_of ?a) (activate_record [sample_serial] [?o] ?a None) ''r1''"
    by (simp add: audit_fits_def audit_actor_of_def activate_record_def sample_actor_def varchar_def opt_col_def json_obj_opt_def)
  obtain e where au: "record_audit_event (audit_actor_of ?a) (activate_record [sample_serial] [?o] ?a None) in_2026 k ''r1'' d' =
      Inr (e, d'\<lparr>next_uuid := Suc (next_uuid d'), next_seq := next_seq d' + 1, audit_events := [e]\<rparr>)"
    using record_audit_event_first [OF ev(2) fits] by blast
  have "validate_serials [sample_serial] = Inr [sample_serial]"
    by (simp add: validate_serials_ok sample_serial MAX_BULK_SERIALS_def dict_fromkeys_def)
  moreover have "ac_role ?a = REQUESTER" by (simp add: sample_actor_def)
  ultimately show ?thesis unfolding activate_stamps_def using lp ev(1) au
    by (simp add: require_role_def del: stamp_loop.simps insert_stamp_events.simps bind_res_eq_Inr)
qed

section \<open>Properties\<close>

text \<open>
  C13. Activation of a set of serials.  When it succeeds, every serial of the request is well formed and gets one outcome, in
  the order of the request without repetitions; a requester owns all stamps it names.  A stamp becomes active exactly
  when it is named, still in the issued state, not past its expiry, and not of a batch that failed inspection, and its
  outcome says so; every other stamp stays as it is.  One event is written per activated stamp, and the invariants of
  the platform are kept.
\<close>

theorem activate_stamps_effect:
  assumes "platform_wf k db" and "activate_stamps actor serials now k rv key db = Inr (outs, db')"
  shows "map so_serial outs = dict_fromkeys serials \<and> (\<forall>x \<in> set serials. is_valid_serial x) \<and>
    (ac_role actor \<in> {ADMIN, OPERATOR} \<or>
      (\<forall>s \<in> set (stamps db). s_serial s \<in> set serials \<longrightarrow> ac_company_id actor = Some (s_company_id s))) \<and>
    stamps db' = map (\<lambda>s. if s_serial s \<in> set serials \<and> activatable now (stamp_batches db) s
        then s\<lparr>s_status := S_ACTIVE, s_activated_at := Some now\<rparr> else s) (stamps db) \<and>
    (\<forall>out \<in> set outs. so_changed out \<longleftrightarrow>
      (\<exists>s \<in> set (stamps db). s_serial s = so_serial out \<and> activatable now (stamp_batches db) s)) \<and>
    int (length (stamp_events db')) = int (length (stamp_events db)) + changed_count outs \<and> platform_wf k db'"
  using assms(2)
proof (rule activate_stampsE)
  fix evs db1 db2 e
  assume val: "\<forall>x \<in> set serials. is_valid_serial x"
    and lp: "stamp_loop (activate_stamp actor now) (activated_event actor now) (dict_fromkeys serials) db = Inr (outs, evs, db1)"
    and ev: "insert_stamp_events evs db1 = Inr db2"
    and au: "record_audit_event (audit_actor_of actor) (activate_record (dict_fromkeys serials) outs actor key) now k rv db2 = Inr (e, db')"
  note keys = stamps_wf_keys(1,2) [OF platform_orders(2) [OF assms(1)]]
  note eff = activation.loop_effect [OF lp _ keys]
  have own: "ac_role actor \<in> {ADMIN, OPERATOR} \<or> ac_company_id actor = Some (s_company_id s)"
    if mem: "s \<in> set (stamps db)" "s_serial s \<in> set serials" for s
  proof -
    have s: "find_stamp (s_serial s) db = Some s" using mem(1) find_stamp_Some [OF keys(1)] by blast
    obtain d out u where "activate_stamp actor now (s_serial s) d = Inr (out, u)" "find_stamp (s_serial s) d = Some s"
      using activation.loop_steps [OF lp _ keys, of "s_serial s"] mem(2) s by auto
    then show ?thesis using activate_stamp_cases by blast
  qed
  have "stamps db' = stamps db2" "stamp_events db' = stamp_events db2" using record_audit_event_db [OF au] by simp_all
  with insert_stamp_events_lifecycle [OF ev] eff val own activate_stamps_platform [OF assms] show ?thesis
    by (auto simp: activation.sweep_def activation.changes_def changed_count_def)
qed

theorem activate_stamps_effect_witness:
  "\<exists>outs db'. activate_stamps (sample_actor REQUESTER) [sample_serial] in_2026 ''k'' ''r1'' None issuing_db = Inr (outs, db') \<and>
    stamps db' = [sample_stamp\<lparr>s_status := S_ACTIVE, s_activated_at := Some in_2026\<rparr>] \<and> platform_wf ''k'' db'"
proof -
  obtain outs db' where ok: "activate_stamps (sample_actor REQUESTER) [sample_serial] in_2026 ''k'' ''r1'' None issuing_db = Inr (outs, db')"
    using sample_activates [of "''k''"] by blast
  have "activatable in_2026 [sample_batch] sample_stamp"
    by (simp add: activatable_def sample_batch_def DAY_def SECOND_def)
  with activate_stamps_effect [OF issuing_db_wf ok] ok show ?thesis by (simp add: issuing_db_fields)
qed

text \<open>
  Expiry marks the stamps whose validity has elapsed, those that ended first first: a call with a limit changes
  exactly the smaller of the limit and the number of due stamps, returns that number, leaves every other stamp as it is,
  and if it stayed below its limit nothing is left to expire.
\<close>

theorem expire_due_stamps_effect:
  assumes "platform_wf k db" and "expire_due_stamps now limit k rv db = Inr (n, db')"
  shows "n = min limit (int (length (filter (expiry_due now) (stamps db)))) \<and>
    (\<exists>X. card X = nat n \<and> X \<subseteq> {s \<in> set (stamps db). expiry_due now s} \<and>
      (\<forall>s \<in> X. \<forall>t \<in> set (stamps db) - X. expiry_due now t \<longrightarrow> s_expires_at s \<le> s_expires_at t) \<and>
      stamps db' = map (\<lambda>s. if s \<in> X then s\<lparr>s_status := S_EXPIRED\<rparr> else s) (stamps db)) \<and>
    (n < limit \<longrightarrow> filter (expiry_due now) (stamps db') = []) \<and> platform_wf k db'"
proof -
  let ?due = "filter (expiry_due now) (stamps db)" and ?D = "due_now now limit db"
  note eff = expire_due_stamps_platform [OF assms] and e = expire_due_stampsE [OF assms(2)]
  have keys: "distinct (map s_id (stamps db))" using stamps_wf_keys [OF platform_orders(2) [OF assms(1)]] by blast
  have "distinct (sort_key s_expires_at ?due)" using keys by (simp add: distinct_map)
  then have dis: "distinct ?D" by (simp add: due_now_def)
  have "0 \<le> limit" "n = int (length ?D)" using e by blast+
  moreover have "length ?D = min (length ?due) (nat limit)" by (simp add: due_now_def)
  ultimately have n: "n = min limit (int (length ?due))" by simp
  have sub: "set ?D \<subseteq> {s \<in> set (stamps db). expiry_due now s}" by (rule set_due_now)
  have eq: "s_id s \<in> s_id ` set ?D \<longleftrightarrow> s \<in> set ?D" if "s \<in> set (stamps db)" for s
    using key_unique [OF keys that] sub by blast
  then have st: "stamps db' = map (\<lambda>s. if s \<in> set ?D then s\<lparr>s_status := S_EXPIRED\<rparr> else s) (stamps db)"
    using eff by (simp add: update_where_def)
  have first: "s_expires_at s \<le> s_expires_at t" if "s \<in> set ?D" "t \<in> set (stamps db) - set ?D" "expiry_due now t" for s t
  proof -
    let ?srt = "sort_key s_expires_at ?due"
    have "t \<in> set (take (nat limit) ?srt @ drop (nat limit) ?srt)" using that(2,3) by simp
    then have "t \<in> set (drop (nat limit) ?srt)" using that(2) unfolding due_now_def set_append by blast
    moreover have "sorted (map s_expires_at (take (nat limit) ?srt @ drop (nat limit) ?srt))" by simp
    ultimately show ?thesis using that(1) unfolding due_now_def map_append sorted_append set_map by blast
  qed
  have "filter (expiry_due now) (stamps db') = []" if "n < limit"
  proof -
    have "set ?D = set ?due" using that n e by (auto simp: due_now_def min_def split: if_splits)
    then show ?thesis by (auto simp: st filter_empty_conv expiry_due_def)
  qed
  moreover have "card (set ?D) = nat n" using dis e by (simp add: distinct_card)
  ultimately show ?thesis using n eff sub first st by (intro conjI exI [of _ "set ?D"]) auto
qed

lemma sample_expires:
  "\<exists>db'. expire_due_stamps (in_2026 + 731 * DAY) 5 k ''r1'' issuing_db = Inr (1, db')"
proof -
  let ?now = "in_2026 + 731 * DAY" and ?d = "issuing_db\<lparr>stamps := [sample_stamp\<lparr>s_status := S_EXPIRED\<rparr>]\<rparr>"
  let ?ev = "new_stamp_event 28 ''expired'' None [(''reason'', JStr ''validity elapsed'')] ?now"
  have due: "map s_id (take (nat 5) (sort_key s_expires_at (filter (expiry_due ?now) (stamps issuing_db)))) = [28]"
    by (simp add: issuing_db_fields expiry_due_def DAY_def SECOND_def)
  have upd: "issuing_db\<lparr>stamps := update_where (\<lambda>s. s_id s \<in> set [28]) (\<lambda>s. s\<lparr>s_status := S_EXPIRED\<rparr>) (stamps issuing_db)\<rparr> = ?d"
    by (simp add: issuing_db_fields)
  have "\<exists>d'. insert_stamp_events [?ev] ?d = Inr d' \<and> audit_events d' = []"
    by (simp add: insert_stamp_event_def insert_row_def Let_def stamp_event_types_def stamp_event_checks_def issuing_db_fields
        new_stamp_event_def varchar_def unused_def foreign_key_def opt_col_def)
  then obtain d' where ev: "insert_stamp_events [?ev] ?d = Inr d'" "audit_events d' = []" by blast
  have "nat_str (Suc 0) = ''1''" by code_simp
  then have fits: "audit_fits EXPIRY_ACTOR (expire_record (Suc 0)) ''r1''"
    by (simp add: audit_fits_def EXPIRY_ACTOR_def expire_record_def varchar_def opt_col_def json_obj_opt_def)
  obtain e where "record_audit_event EXPIRY_ACTOR (expire_record (Suc 0)) ?now k ''r1'' d' =
      Inr (e, d'\<lparr>next_uuid := Suc (next_uuid d'), next_seq := next_seq d' + 1, audit_events := [e]\<rparr>)"
    using record_audit_event_first [OF ev(2) fits] by blast
  with ev(1) show ?thesis unfolding expire_due_stamps_def Let_def due upd
    by (simp del: insert_stamp_events.simps bind_res_eq_Inr)
qed

theorem expire_due_stamps_effect_witness:
  "\<exists>db'. expire_due_stamps (in_2026 + 731 * DAY) 5 ''k'' ''r1'' issuing_db = Inr (1, db') \<and>
    filter (expiry_due (in_2026 + 731 * DAY)) (stamps db') = []"
proof -
  obtain db' where ok: "expire_due_stamps (in_2026 + 731 * DAY) 5 ''k'' ''r1'' issuing_db = Inr (1, db')"
    using sample_expires by blast
  with expire_due_stamps_effect [OF issuing_db_wf ok] show ?thesis by simp
qed

end
