(* ===== verification/External_Settlement.thy ===== *)
theory External_Settlement
  imports Stamps
begin

text \<open>
  \<^verbatim>\<open>src/src/taxstamp/services/external_settlement_reconciliation.py\<close>: comparison of the settled payment
  intents with the settlement exports of TigerBeetle and Mojaloop.
\<close>

datatype settlement_provider = TIGERBEETLE | MOJALOOP

fun settlement_provider_value :: "settlement_provider \<Rightarrow> string" where
  "settlement_provider_value TIGERBEETLE = ''tigerbeetle''"
| "settlement_provider_value MOJALOOP = ''mojaloop''"

datatype settlement_state = X_SETTLED | X_PENDING | X_FAILED

fun settlement_state_value :: "settlement_state \<Rightarrow> string" where
  "settlement_state_value X_SETTLED = ''settled''"
| "settlement_state_value X_PENDING = ''pending''"
| "settlement_state_value X_FAILED = ''failed''"

text \<open>\<^verbatim>\<open>SettlementState(value)\<close>\<close>

definition SettlementState :: "string \<Rightarrow> settlement_state res" where
  "SettlementState v =
     (if v = ''settled'' then Inr X_SETTLED else if v = ''pending'' then Inr X_PENDING
      else if v = ''failed'' then Inr X_FAILED else Inl ValueError)"

record expected_settlement =
  xe_reference :: string
  xe_amount_minor :: int
  xe_currency :: string

record external_settlement =
  xs_provider :: settlement_provider
  xs_reference :: string
  xs_external_id :: string
  xs_amount_minor :: int
  xs_currency :: string
  xs_state :: settlement_state

text \<open>
  \<^verbatim>\<open>str.isalpha\<close>, \<^verbatim>\<open>str.upper\<close> and \<^verbatim>\<open>str.lower\<close> on the code points of the model.  The capitals of the
  code points 181 and 255 are above 255, outside the model; they are left as they are.
\<close>

definition alpha_char :: "char \<Rightarrow> bool" where
  "alpha_char c = (let n = (of_char c :: nat) in (65 \<le> n \<and> n \<le> 90) \<or> (97 \<le> n \<and> n \<le> 122) \<or> n \<in> {170, 181, 186} \<or>
     (192 \<le> n \<and> n \<noteq> 215 \<and> n \<noteq> 247))"

definition isalpha :: "string \<Rightarrow> bool" where
  "isalpha s = (s \<noteq> [] \<and> list_all alpha_char s)"

definition upper_char :: "char \<Rightarrow> string" where
  "upper_char c = (let n = (of_char c :: nat) in
     if (97 \<le> n \<and> n \<le> 122) \<or> (224 \<le> n \<and> n \<le> 254 \<and> n \<noteq> 247) then [char_of (n - 32)]
     else if n = 223 then ''SS'' else [c])"

definition upper :: "string \<Rightarrow> string" where
  "upper s = concat (map upper_char s)"

definition lower_char :: "char \<Rightarrow> char" where
  "lower_char c = (let n = (of_char c :: nat) in
     if (65 \<le> n \<and> n \<le> 90) \<or> (192 \<le> n \<and> n \<le> 222 \<and> n \<noteq> 215) then char_of (n + 32) else c)"

definition lower :: "string \<Rightarrow> string" where
  "lower s = map lower_char s"

text \<open>\<^verbatim>\<open>ExternalSettlement.__post_init__\<close>\<close>

definition ExternalSettlement :: "external_settlement \<Rightarrow> external_settlement res" where
  "ExternalSettlement x =
     (if xs_reference x = [] \<or> xs_external_id x = [] then Inl ValueError else
      if xs_amount_minor x \<le> 0 then Inl ValueError else
      if length (xs_currency x) \<noteq> 3 \<or> \<not> isalpha (xs_currency x) then Inl ValueError else Inr x)"

record external_finding =
  xf_kind :: string
  xf_count :: int
  xf_detail :: json_object

text \<open>\<^verbatim>\<open>parse_snapshot\<close>: one entry, and the loop.\<close>

definition parse_entry :: "settlement_provider \<Rightarrow> json \<Rightarrow> external_settlement res" where
  "parse_entry provider entry =
     (case entry of
        JObj d \<Rightarrow>
          (case (map_of d ''reference'', map_of d ''external_id'') of
             (Some (JStr ref), Some (JStr external_id)) \<Rightarrow>
               (case map_of d ''amount_minor'' of
                  Some (JInt amount_minor) \<Rightarrow>
                    (case (map_of d ''currency'', map_of d ''state'') of
                       (Some (JStr cur), Some (JStr st)) \<Rightarrow>
                         bind_res (SettlementState (lower st)) (\<lambda>state.
                         ExternalSettlement \<lparr>xs_provider = provider, xs_reference = ref, xs_external_id = external_id,
                           xs_amount_minor = amount_minor, xs_currency = upper cur, xs_state = state\<rparr>)
                     | _ \<Rightarrow> Inl TypeError)
                | _ \<Rightarrow> Inl TypeError)
           | _ \<Rightarrow> Inl TypeError)
      | _ \<Rightarrow> Inl TypeError)"

fun parse_entries :: "settlement_provider \<Rightarrow> json list \<Rightarrow> external_settlement list res" where
  "parse_entries provider [] = Inr []"
| "parse_entries provider (e # es) =
     bind_res (parse_entry provider e) (\<lambda>x. bind_res (parse_entries provider es) (\<lambda>xs. Inr (x # xs)))"

definition parse_snapshot :: "settlement_provider \<Rightarrow> json_object \<Rightarrow> external_settlement list res" where
  "parse_snapshot provider document =
     (case map_of document ''settlements'' of Some (JList entries) \<Rightarrow> parse_entries provider entries | _ \<Rightarrow> Inl TypeError)"

text \<open>The dictionaries: the last item of a reference counts, and references keep the order of their first occurrence.\<close>

definition expected_for :: "expected_settlement list \<Rightarrow> string \<Rightarrow> expected_settlement option" where
  "expected_for expected ref = find (\<lambda>x. xe_reference x = ref) (rev expected)"

definition references :: "external_settlement list \<Rightarrow> string list" where
  "references settlements = dict_fromkeys (map xs_reference settlements)"

definition rows_for :: "external_settlement list \<Rightarrow> string \<Rightarrow> external_settlement list" where
  "rows_for settlements ref = filter (\<lambda>x. xs_reference x = ref) settlements"

text \<open>A finding is made when there is something to report.\<close>

definition report_if :: "string \<Rightarrow> string \<Rightarrow> json list \<Rightarrow> external_finding list" where
  "report_if kind field items =
     (if items = [] then [] else [\<lparr>xf_kind = kind, xf_count = int (length items), xf_detail = [(field, JList (take 50 items))]\<rparr>])"

definition unknown_items :: "expected_settlement list \<Rightarrow> external_settlement list \<Rightarrow> json list" where
  "unknown_items expected settlements =
     map (\<lambda>r. JObj [(''reference'', JStr r), (''external_id'', JStr (xs_external_id (hd (rows_for settlements r))))])
       (filter (\<lambda>r. expected_for expected r = None) (references settlements))"

definition amount_differs :: "expected_settlement list \<Rightarrow> external_settlement list \<Rightarrow> string \<Rightarrow> bool" where
  "amount_differs expected settlements r =
     (case expected_for expected r of None \<Rightarrow> False
      | Some loc \<Rightarrow> xe_amount_minor loc \<noteq> xs_amount_minor (hd (rows_for settlements r)) \<or>
                    xe_currency loc \<noteq> xs_currency (hd (rows_for settlements r)))"

definition mismatch_items :: "expected_settlement list \<Rightarrow> external_settlement list \<Rightarrow> json list" where
  "mismatch_items expected settlements =
     map (\<lambda>r. let loc = the (expected_for expected r); x = hd (rows_for settlements r) in
        JObj [(''reference'', JStr r), (''expected_minor'', JInt (xe_amount_minor loc)), (''observed_minor'', JInt (xs_amount_minor x)),
              (''expected_currency'', JStr (xe_currency loc)), (''observed_currency'', JStr (xs_currency x))])
       (filter (amount_differs expected settlements) (references settlements))"

definition non_settled_items :: "expected_settlement list \<Rightarrow> external_settlement list \<Rightarrow> json list" where
  "non_settled_items expected settlements =
     map (\<lambda>r. JObj [(''reference'', JStr r), (''state'', JStr (settlement_state_value (xs_state (hd (rows_for settlements r)))))])
       (filter (\<lambda>r. expected_for expected r \<noteq> None \<and> xs_state (hd (rows_for settlements r)) \<noteq> X_SETTLED) (references settlements))"

definition check_provider ::
  "expected_settlement list \<Rightarrow> external_settlement list \<Rightarrow> settlement_provider \<Rightarrow> external_finding list" where
  "check_provider expected observed provider =
     (let settlements = filter (\<lambda>x. xs_provider x = provider) observed;
          kind = (\<lambda>s. settlement_provider_value provider @ s)
      in report_if (kind ''_duplicate_reference'') ''references''
           (map JStr (filter (\<lambda>r. length (rows_for settlements r) > 1) (references settlements)))
         @ report_if (kind ''_unknown_reference'') ''settlements'' (unknown_items expected settlements)
         @ report_if (kind ''_amount_or_currency_mismatch'') ''settlements'' (mismatch_items expected settlements)
         @ report_if (kind ''_state_mismatch'') ''settlements'' (non_settled_items expected settlements)
         @ report_if (kind ''_missing_external_settlement'') ''references''
             (map JStr (sort (filter (\<lambda>r. r \<notin> set (references settlements)) (remdups (map xe_reference expected))))))"

definition reconcile_external_settlements ::
  "expected_settlement list \<Rightarrow> external_settlement list \<Rightarrow> settlement_provider list option \<Rightarrow> external_finding list" where
  "reconcile_external_settlements expected observed providers =
     (let providers_to_check = (case providers of Some ps \<Rightarrow> ps | None \<Rightarrow> dict_fromkeys (map xs_provider observed))
      in concat (map (check_provider expected observed) providers_to_check))"

section \<open>Lemmas\<close>

lemma sort_Nil: "sort xs = [] \<longleftrightarrow> xs = []"
  by (metis length_0_conv length_sort)

lemma report_if_Nil [simp]: "report_if k f xs = [] \<longleftrightarrow> xs = []"
  by (simp add: report_if_def)

lemma set_references [simp]: "set (references xs) = xs_reference ` set xs"
  by (simp add: references_def)

lemma expected_for_None [simp]: "expected_for es r = None \<longleftrightarrow> r \<notin> xe_reference ` set es"
  by (auto simp: expected_for_def find_None_iff)

lemma expected_for_Some:
  assumes "distinct (map xe_reference es)"
  shows "expected_for es r = Some x \<longleftrightarrow> x \<in> set es \<and> xe_reference x = r"
proof
  show "x \<in> set es \<and> xe_reference x = r" if "expected_for es r = Some x"
    using find_SomeD [OF that [unfolded expected_for_def]] by simp
next
  assume x: "x \<in> set es \<and> xe_reference x = r"
  then obtain y where y: "expected_for es r = Some y" using expected_for_None [of es r] by (cases "expected_for es r") auto
  then have "y \<in> set es" "xe_reference y = r" using find_SomeD [OF y [unfolded expected_for_def]] by simp_all
  with x key_unique [OF assms] have "y = x" by metis
  with y show "expected_for es r = Some x" by simp
qed

lemma rows_for_single: "distinct (map xs_reference xs) \<Longrightarrow> x \<in> set xs \<Longrightarrow> rows_for xs (xs_reference x) = [x]"
  unfolding rows_for_def by (rule filter_key_singleton)

lemma no_duplicates: "(\<forall>r \<in> xs_reference ` set xs. length (rows_for xs r) \<le> 1) \<longleftrightarrow> distinct (map xs_reference xs)"
proof (induction xs)
  case (Cons x xs)
  have "(\<forall>r \<in> xs_reference ` set (x # xs). length (rows_for (x # xs) r) \<le> 1) \<longleftrightarrow>
      rows_for xs (xs_reference x) = [] \<and> (\<forall>r \<in> xs_reference ` set xs. length (rows_for xs r) \<le> 1)"
    by (auto simp: rows_for_def filter_empty_conv split: if_splits)
  also have "rows_for xs (xs_reference x) = [] \<longleftrightarrow> xs_reference x \<notin> xs_reference ` set xs"
    by (auto simp: rows_for_def filter_empty_conv intro: rev_image_eqI)
  finally show ?case using Cons by simp
qed simp

text \<open>What agreement of one provider means: a one-to-one correspondence of settled items.\<close>

definition agrees :: "expected_settlement list \<Rightarrow> external_settlement list \<Rightarrow> bool" where
  "agrees expected settlements =
     (distinct (map xs_reference settlements) \<and>
      (\<forall>x \<in> set settlements. xs_state x = X_SETTLED \<and>
         (\<exists>y \<in> set expected. xe_reference y = xs_reference x \<and> xe_amount_minor y = xs_amount_minor x \<and> xe_currency y = xs_currency x)) \<and>
      (\<forall>y \<in> set expected. \<exists>x \<in> set settlements. xs_reference x = xe_reference y))"

lemma check_provider_clean:
  assumes "distinct (map xe_reference expected)"
  shows "check_provider expected observed p = [] \<longleftrightarrow> agrees expected (filter (\<lambda>x. xs_provider x = p) observed)"
proof -
  let ?xs = "filter (\<lambda>x. xs_provider x = p) observed"
  have "check_provider expected observed p = [] \<longleftrightarrow>
      (\<forall>r \<in> xs_reference ` set ?xs. length (rows_for ?xs r) \<le> 1) \<and>
      (\<forall>r \<in> xs_reference ` set ?xs. r \<in> xe_reference ` set expected \<and> \<not> amount_differs expected ?xs r \<and> xs_state (hd (rows_for ?xs r)) = X_SETTLED) \<and>
      (\<forall>y \<in> set expected. xe_reference y \<in> xs_reference ` set ?xs)"
    unfolding check_provider_def Let_def append_is_Nil_conv report_if_Nil unknown_items_def mismatch_items_def non_settled_items_def
      map_is_Nil_conv filter_empty_conv set_references expected_for_None sort_Nil
    by (auto simp: filter_empty_conv not_less)
  also have "\<dots> \<longleftrightarrow> agrees expected ?xs"
  proof (cases "distinct (map xs_reference ?xs)")
    case True
    have "xs_reference x \<in> xe_reference ` set expected \<and> \<not> amount_differs expected ?xs (xs_reference x) \<longleftrightarrow>
        (\<exists>y \<in> set expected. xe_reference y = xs_reference x \<and> xe_amount_minor y = xs_amount_minor x \<and> xe_currency y = xs_currency x)"
      if "x \<in> set ?xs" for x
    proof (cases "expected_for expected (xs_reference x)")
      case None
      then show ?thesis by (auto intro: rev_image_eqI)
    next
      case (Some y)
      then have y: "y \<in> set expected" "xe_reference y = xs_reference x" using expected_for_Some [OF assms] by blast+
      have ex: "(\<exists>z \<in> set expected. xe_reference z = xs_reference x \<and> P z) \<longleftrightarrow> P y" for P
        using key_unique [OF assms _ y(1)] y by metis
      have "xs_reference x \<in> xe_reference ` set expected" using y by (metis imageI)
      then show ?thesis unfolding ex using Some rows_for_single [OF True that] by (auto simp: amount_differs_def)
    qed
    moreover have "xe_reference y \<in> xs_reference ` set ?xs \<longleftrightarrow> (\<exists>x \<in> set ?xs. xs_reference x = xe_reference y)" for y
      by (auto simp del: set_filter intro: rev_image_eqI)
    ultimately show ?thesis
      unfolding no_duplicates agrees_def ball_simps(9) using True
      by (simp add: rows_for_single [OF True] del: set_filter cong: ball_cong) blast
  next
    case False
    then show ?thesis unfolding no_duplicates agrees_def by simp
  qed
  finally show ?thesis .
qed

section \<open>Properties\<close>

text \<open>
  External reconciliation is fail-closed.  For the settled intents, whose references are unique, and whatever the exports
  say, there is no finding exactly when for every checked provider the export and the intents correspond one to one: no
  reference appears twice, every exported item is settled and has an intent with its reference, amount and currency, and
  every intent appears in the export.
\<close>

theorem reconcile_external_clean:
  assumes "distinct (map xe_reference expected)"
  shows "reconcile_external_settlements expected observed (Some providers) = [] \<longleftrightarrow>
    (\<forall>p \<in> set providers. agrees expected (filter (\<lambda>x. xs_provider x = p) observed))"
  using check_provider_clean [OF assms] by (simp add: reconcile_external_settlements_def)

theorem reconcile_external_clean_witness:
  "reconcile_external_settlements [\<lparr>xe_reference = ''P1'', xe_amount_minor = 7, xe_currency = ''NGN''\<rparr>]
     [\<lparr>xs_provider = MOJALOOP, xs_reference = ''P1'', xs_external_id = ''e'', xs_amount_minor = 7, xs_currency = ''NGN'', xs_state = X_SETTLED\<rparr>]
     (Some [MOJALOOP]) = []"
  using reconcile_external_clean [of "[\<lparr>xe_reference = ''P1'', xe_amount_minor = 7, xe_currency = ''NGN''\<rparr>]"
    "[\<lparr>xs_provider = MOJALOOP, xs_reference = ''P1'', xs_external_id = ''e'', xs_amount_minor = 7, xs_currency = ''NGN'', xs_state = X_SETTLED\<rparr>]"
    "[MOJALOOP]"]
  by (simp add: agrees_def)

end
