(* ===== verification/Quality.thy ===== *)
theory Quality
  imports Prelude
begin

text \<open>
  \<^verbatim>\<open>src/taxstamp/quality.py\<close>: the single-sampling plan for an issued batch.
\<close>

definition PLAN :: "(int \<times> int \<times> int \<times> int) list" where
  "PLAN =
    [(8, 2, 0, 1), (15, 3, 0, 1), (25, 5, 0, 1), (50, 8, 0, 1), (90, 13, 0, 1), (150, 20, 0, 1),
     (280, 32, 0, 1), (500, 50, 1, 2), (1200, 80, 1, 2), (3200, 125, 2, 3), (10000, 200, 3, 4),
     (35000, 315, 5, 6), (150000, 500, 7, 8), (500000, 800, 10, 11), (10000000000, 1250, 14, 15)]"

record SamplingPlan =
  lot_size :: int
  sample_size :: int
  accept_number :: int
  reject_number :: int

definition evaluate :: "SamplingPlan \<Rightarrow> int \<Rightarrow> bool res" where
  "evaluate p defects_found =
     (if defects_found < 0 then Inl SamplingError
      else if defects_found > sample_size p then Inl SamplingError
      else Inr (defects_found \<le> accept_number p))"

text \<open>The loop over the rows of the table.\<close>

fun find_plan :: "(int \<times> int \<times> int \<times> int) list \<Rightarrow> int \<Rightarrow> SamplingPlan res" where
  "find_plan [] lot = Inl SamplingError"
| "find_plan ((upper_bound, sample, accept, reject) # rows) lot =
     (if lot \<le> upper_bound
      then Inr \<lparr>lot_size = lot, sample_size = min sample lot, accept_number = accept,
                reject_number = reject\<rparr>
      else find_plan rows lot)"

definition sampling_plan :: "int \<Rightarrow> SamplingPlan res" where
  "sampling_plan lot = (if lot \<le> 0 then Inl SamplingError else find_plan PLAN lot)"

section \<open>Lemmas\<close>

text \<open>What is needed of a row, and of neighbouring rows, for the plan to be sound.\<close>

fun rows_sound :: "(int \<times> int \<times> int \<times> int) list \<Rightarrow> bool" where
  "rows_sound [] = True"
| "rows_sound ((u, n, a, r) # rows) =
     (0 < n \<and> 0 \<le> a \<and> a < n \<and> r = a + 1 \<and>
      (case rows of [] \<Rightarrow> True | (u', n', a', r') # _ \<Rightarrow> u < u' \<and> n \<le> u \<and> n \<le> n' \<and> a \<le> a') \<and>
      rows_sound rows)"

lemma PLAN_sound: "rows_sound PLAN"
  by (simp add: PLAN_def)

lemma find_plan_ok:
  assumes "rows_sound rows" and "0 < lot" and "find_plan rows lot = Inr p"
  shows "lot_size p = lot \<and> 0 < sample_size p \<and> sample_size p \<le> lot \<and> 0 \<le> accept_number p \<and>
    reject_number p = accept_number p + 1"
  using assms by (induction rows lot rule: find_plan.induct) (auto split: if_splits)

lemma find_plan_last:
  "rows \<noteq> [] \<Longrightarrow> lot \<le> fst (last rows) \<Longrightarrow> is_ok (find_plan rows lot)"
  by (induction rows lot rule: find_plan.induct) (auto split: if_splits)

lemma find_plan_none:
  "(\<And>r. r \<in> set rows \<Longrightarrow> fst r < lot) \<Longrightarrow> find_plan rows lot = Inl SamplingError"
  by (induction rows lot rule: find_plan.induct) force+

text \<open>A larger lot is never sampled less, nor with a smaller acceptance number.\<close>

lemma find_plan_head_bound:
  "rows_sound ((u, n, a, r) # rows) \<Longrightarrow> u < lot \<Longrightarrow> find_plan rows lot = Inr p \<Longrightarrow>
     n \<le> sample_size p \<and> a \<le> accept_number p"
proof (induction rows arbitrary: u n a r)
  case (Cons row rows)
  obtain u' n' a' r' where row: "row = (u', n', a', r')" by (cases row)
  show ?case
  proof (cases "lot \<le> u'")
    case True
    with Cons.prems show ?thesis by (auto simp: row)
  next
    case False
    with Cons.prems have "n' \<le> sample_size p \<and> a' \<le> accept_number p"
      by (intro Cons.IH [of u' n' a' r']) (auto simp: row)
    with Cons.prems show ?thesis by (auto simp: row)
  qed
qed simp

lemma find_plan_mono:
  assumes "rows_sound rows" "l \<le> l'" "find_plan rows l = Inr p" "find_plan rows l' = Inr p'"
  shows "sample_size p \<le> sample_size p' \<and> accept_number p \<le> accept_number p'"
  using assms
proof (induction rows l arbitrary: l' rule: find_plan.induct)
  case (2 u n a r rows lot)
  consider "l' \<le> u" | "lot \<le> u" "u < l'" | "u < lot" by linarith
  then show ?case
  proof cases
    case 2
    with "2.prems" have "n \<le> sample_size p' \<and> a \<le> accept_number p'"
      by (intro find_plan_head_bound [of u n a r rows l']) auto
    with 2 "2.prems" show ?thesis by (auto simp: min_def)
  qed (use 2 in \<open>auto simp: min_def\<close>)
qed simp

section \<open>Properties\<close>

text \<open>
  The sampling plan exists exactly for lots of 1 to 10,000,000,000 stamps; its sample is
  not empty and not larger than the lot, and the rejection number follows the acceptance
  number, so that every count of defects in the sample is either accepted or rejected.
\<close>

theorem sampling_plan_total:
  "(is_ok (sampling_plan lot) \<longleftrightarrow> 0 < lot \<and> lot \<le> 10000000000) \<and>
   (case sampling_plan lot of
      Inl e \<Rightarrow> e = SamplingError
    | Inr p \<Rightarrow> lot_size p = lot \<and> 0 < sample_size p \<and> sample_size p \<le> lot \<and>
        0 \<le> accept_number p \<and> reject_number p = accept_number p + 1 \<and>
        (\<forall>d. evaluate p d =
           (if 0 \<le> d \<and> d \<le> sample_size p then Inr (\<not> reject_number p \<le> d) else Inl SamplingError)))"
proof (cases "0 < lot \<and> lot \<le> 10000000000")
  case True
  then have "is_ok (find_plan PLAN lot)"
    by (intro find_plan_last) (simp_all add: PLAN_def)
  then obtain p where p: "find_plan PLAN lot = Inr p" by (auto simp: is_ok_iff)
  with True find_plan_ok [OF PLAN_sound, of lot p] show ?thesis
    by (auto simp: sampling_plan_def evaluate_def)
next
  case False
  then have "sampling_plan lot = Inl SamplingError"
    by (auto simp: sampling_plan_def PLAN_def intro!: find_plan_none)
  with False show ?thesis by auto
qed

text \<open>
  The plan is monotone: of two lots that both have a plan, the larger is inspected with at
  least as large a sample and tolerates at least as many defects.
\<close>

theorem sampling_plan_mono:
  assumes "l \<le> l'" and "sampling_plan l = Inr p" and "sampling_plan l' = Inr p'"
  shows "sample_size p \<le> sample_size p' \<and> accept_number p \<le> accept_number p'"
  using assms find_plan_mono [OF PLAN_sound, of l l' p p'] by (auto simp: sampling_plan_def)

theorem sampling_plan_mono_witness:
  "sample_size \<lparr>lot_size = 3, sample_size = 2, accept_number = 0, reject_number = 1\<rparr> \<le>
     sample_size \<lparr>lot_size = 400, sample_size = 50, accept_number = 1, reject_number = 2\<rparr> \<and>
   accept_number \<lparr>lot_size = 3, sample_size = 2, accept_number = 0, reject_number = 1\<rparr> \<le>
     accept_number \<lparr>lot_size = 400, sample_size = 50, accept_number = 1, reject_number = 2\<rparr>"
  by (rule sampling_plan_mono [of 3 400]) (simp_all add: sampling_plan_def PLAN_def)

end
