(* ===== verification/Inspection.thy ===== *)
theory Inspection
  imports Stamps Quality
begin

text \<open>
  \<^verbatim>\<open>src/src/taxstamp/services/inspection.py\<close>: the quality inspection of an issued batch.  A lot is
  accepted or rejected by the sampling plan; defective stamps are voided, and the stamps of a rejected
  lot can no longer be activated.
\<close>

record inspection_command =
  ic_batch_id :: uuid
  ic_defects_found :: int
  ic_defective_serials :: "string list"

record inspection_result =
  ix_inspection_id :: uuid
  ix_accepted :: bool
  ix_sample_size :: int
  ix_accept_number :: int
  ix_reject_number :: int
  ix_voided_serials :: int

definition new_inspection :: "actor \<Rightarrow> inspection_command \<Rightarrow> SamplingPlan \<Rightarrow> bool \<Rightarrow> instant \<Rightarrow> uuid \<Rightarrow> inspection" where
  "new_inspection actor command plan accepted now i =
     \<lparr>insp_id = i, insp_batch_id = ic_batch_id command, insp_lot_size = lot_size plan, insp_sample_size = sample_size plan,
      insp_accept_number = accept_number plan, insp_reject_number = reject_number plan,
      insp_defects_found = ic_defects_found command, insp_accepted = accepted,
      insp_inspector_principal_id = ac_principal_id actor, insp_defective_serials = ic_defective_serials command,
      insp_created_at = now\<rparr>"

text \<open>\<^verbatim>\<open>for stamp in stamps\<close>: the defective stamps are voided, those void already are skipped.\<close>

fun void_defective :: "actor \<Rightarrow> instant \<Rightarrow> stamp list \<Rightarrow> db \<Rightarrow> int \<times> (uuid \<Rightarrow> stamp_event) list \<times> db" where
  "void_defective actor now [] db = (0, [], db)"
| "void_defective actor now (s # ss) db =
     (if s_status s = S_VOID then void_defective actor now ss db
      else let s' = s\<lparr>s_status := S_VOID, s_voided_at := Some now\<rparr>;
               (voided, evs, db) = void_defective actor now ss (save_stamp s' db)
           in (voided + 1, voided_event actor ''quality defect'' now s' # evs, db))"

definition inspection_record :: "uuid \<Rightarrow> bool \<Rightarrow> SamplingPlan \<Rightarrow> inspection_command \<Rightarrow> int \<Rightarrow> actor \<Rightarrow> audit_record" where
  "inspection_record batch_id accepted plan command voided actor =
     \<lparr>ar_action = ''batch.inspect'', ar_target_type = ''stamp_batch'', ar_target_id = uuid_str batch_id,
      ar_outcome = (if accepted then ''success'' else ''failure''), ar_before_state = None,
      ar_after_state = Some [(''accepted'', JBool accepted), (''sample_size'', JInt (sample_size plan)),
        (''defects_found'', JInt (ic_defects_found command)), (''voided'', JInt voided)],
      ar_request_id = ac_request_id actor, ar_idempotency_key = None\<rparr>"

text \<open>What follows the insertion of the inspection: defective stamps, a rejected batch, the events and the audit event.\<close>

definition close_inspection ::
  "actor \<Rightarrow> inspection_command \<Rightarrow> stamp_batch \<Rightarrow> SamplingPlan \<Rightarrow> bool \<Rightarrow> inspection \<Rightarrow> instant \<Rightarrow> string \<Rightarrow> string \<Rightarrow> db \<Rightarrow>
    (inspection_result \<times> db) res" where
  "close_inspection actor command batch plan accepted insp now audit_secret revision db =
     (case void_defective actor now
         (filter (\<lambda>s. s_serial s \<in> set (ic_defective_serials command) \<and> s_batch_id s = b_id batch) (stamps db)) db of
       (voided, evs, db) \<Rightarrow>
     bind_res (if accepted then Inr db else save_batch (batch\<lparr>b_status := B_INSPECTION_FAILED\<rparr>) db) (\<lambda>db.
     bind_res (insert_stamp_events evs db) (\<lambda>db.
     bind_res (record_audit_event (audit_actor_of actor) (inspection_record (b_id batch) accepted plan command voided actor)
        now audit_secret revision db) (\<lambda>(e, db).
     Inr (\<lparr>ix_inspection_id = insp_id insp, ix_accepted = accepted, ix_sample_size = sample_size plan,
            ix_accept_number = accept_number plan, ix_reject_number = reject_number plan, ix_voided_serials = voided\<rparr>,
          db)))))"

definition record_inspection ::
  "actor \<Rightarrow> inspection_command \<Rightarrow> instant \<Rightarrow> string \<Rightarrow> string \<Rightarrow> db \<Rightarrow> (inspection_result \<times> db) res" where
  "record_inspection actor command now audit_secret revision db =
     bind_res (require_role actor [OPERATOR, ADMIN]) (\<lambda>_.
     bind_res (scalar_one_or_none (filter (\<lambda>b. b_id b = ic_batch_id command) (stamp_batches db))) (\<lambda>found.
     case found of
       None \<Rightarrow> Inl NotFound
     | Some batch \<Rightarrow>
     if b_status batch \<noteq> B_ISSUED then Inl IllegalState else
     bind_res (scalar_one_or_none (filter (\<lambda>x. insp_batch_id x = b_id batch) (inspections db))) (\<lambda>existing.
     if existing \<noteq> None then Inl Conflict else
     bind_res (sampling_plan (b_issued_count batch)) (\<lambda>plan.
     if ic_defects_found command > sample_size plan then Inl ValidationFailed else
     if int (length (ic_defective_serials command)) > ic_defects_found command then Inl ValidationFailed else
     bind_res (evaluate plan (ic_defects_found command)) (\<lambda>accepted.
     bind_res (insert_inspection (new_inspection actor command plan accepted now) db) (\<lambda>(insp, db).
     close_inspection actor command batch plan accepted insp now audit_secret revision db))))))"

section \<open>Lemmas\<close>

definition voided_at :: "instant \<Rightarrow> stamp \<Rightarrow> stamp" where
  "voided_at now s = s\<lparr>s_status := S_VOID, s_voided_at := Some now\<rparr>"

lemma voided_move: "s_status s \<noteq> S_VOID \<Longrightarrow> stamp_move s (voided_at now s)"
  using voiding.upd_move by (simp add: voided_at_def)

lemma void_defective_effect:
  assumes "void_defective actor now ss db = (n, evs, db')" "distinct ss" "set ss \<subseteq> set (stamps db)" "distinct (map s_id (stamps db))"
  shows "db' = db\<lparr>stamps := map (\<lambda>s. if s \<in> set ss \<and> s_status s \<noteq> S_VOID then voided_at now s else s) (stamps db)\<rparr> \<and>
    n = int (length (filter (\<lambda>s. s_status s \<noteq> S_VOID) ss)) \<and> int (length evs) = n"
  using assms
proof (induction ss arbitrary: db n evs)
  case (Cons s ss)
  show ?case
  proof (cases "s_status s = S_VOID")
    case True
    then have "(\<lambda>x. if x \<in> set (s # ss) \<and> s_status x \<noteq> S_VOID then voided_at now x else x) =
        (\<lambda>x. if x \<in> set ss \<and> s_status x \<noteq> S_VOID then voided_at now x else x)" by auto
    with True Cons.IH [of db n evs] Cons.prems show ?thesis by simp
  next
    case False
    let ?s = "voided_at now s"
    obtain n' evs' where rest: "void_defective actor now ss (save_stamp ?s db) = (n', evs', db')" "n = n' + 1" "length evs = Suc (length evs')"
      using Cons.prems(1) False by (auto simp: voided_at_def Let_def split: prod.splits)
    have s: "s \<in> set (stamps db)" "s_id ?s = s_id s" using Cons.prems(3) by (auto simp: voided_at_def)
    have st: "stamps (save_stamp ?s db) = map (\<lambda>x. if x = s then ?s else x) (stamps db)"
      using update_row_by_key [OF Cons.prems(4) s(1), of ?s] by (simp add: save_stamp_def s(2))
    have sub: "set ss \<subseteq> set (stamps (save_stamp ?s db))" using Cons.prems(2,3) by (auto simp: st)
    have "map s_id (stamps (save_stamp ?s db)) = map s_id (stamps db)" by (simp add: st s(2))
    then have ih: "db' = (save_stamp ?s db)\<lparr>stamps := map (\<lambda>x. if x \<in> set ss \<and> s_status x \<noteq> S_VOID then voided_at now x else x)
        (stamps (save_stamp ?s db))\<rparr> \<and> n' = int (length (filter (\<lambda>s. s_status s \<noteq> S_VOID) ss)) \<and> int (length evs') = n'"
      using Cons.IH [OF rest(1) _ sub] Cons.prems(2,4) by simp
    have v: "s_status ?s = S_VOID" by (simp add: voided_at_def)
    have "(if (if x = s then ?s else x) \<in> set ss \<and> s_status (if x = s then ?s else x) \<noteq> S_VOID then voided_at now (if x = s then ?s else x)
        else (if x = s then ?s else x)) = (if x \<in> set (s # ss) \<and> s_status x \<noteq> S_VOID then voided_at now x else x)" for x
      using Cons.prems(2) False v by (cases "x = s") simp_all
    then have "map (\<lambda>x. if x \<in> set ss \<and> s_status x \<noteq> S_VOID then voided_at now x else x) (stamps (save_stamp ?s db)) =
        map (\<lambda>x. if x \<in> set (s # ss) \<and> s_status x \<noteq> S_VOID then voided_at now x else x) (stamps db)"
      unfolding st map_map comp_def by presburger
    with ih rest(2,3) False show ?thesis by (simp add: save_stamp_def)
  qed
qed simp

lemma close_inspectionE:
  assumes "close_inspection actor cmd batch plan accepted insp now k rv db = Inr (res, db')"
  obtains voided evs db2 db3 db4 e where
    "void_defective actor now (filter (\<lambda>s. s_serial s \<in> set (ic_defective_serials cmd) \<and> s_batch_id s = b_id batch) (stamps db)) db =
      (voided, evs, db2)"
    "(if accepted then Inr db2 else save_batch (batch\<lparr>b_status := B_INSPECTION_FAILED\<rparr>) db2) = Inr db3"
    "insert_stamp_events evs db3 = Inr db4"
    "record_audit_event (audit_actor_of actor) (inspection_record (b_id batch) accepted plan cmd voided actor) now k rv db4 = Inr (e, db')"
    "ix_accepted res = accepted" "ix_voided_serials res = voided"
proof -
  let ?v = "void_defective actor now (filter (\<lambda>s. s_serial s \<in> set (ic_defective_serials cmd) \<and> s_batch_id s = b_id batch) (stamps db)) db"
  obtain voided evs db2 where v: "?v = (voided, evs, db2)" by (cases ?v) auto
  with assms obtain db3 where db3: "(if accepted then Inr db2 else save_batch (batch\<lparr>b_status := B_INSPECTION_FAILED\<rparr>) db2) = Inr db3"
    by (auto simp: close_inspection_def)
  with assms v obtain db4 e where "insert_stamp_events evs db3 = Inr db4"
    "record_audit_event (audit_actor_of actor) (inspection_record (b_id batch) accepted plan cmd voided actor) now k rv db4 = Inr (e, db')"
    "ix_accepted res = accepted" "ix_voided_serials res = voided" by (auto simp: close_inspection_def)
  with v db3 show thesis by (rule that)
qed

lemma record_inspectionE:
  assumes "record_inspection actor cmd now k rv db = Inr (res, db')"
  obtains batch plan accepted insp db1 where
    "ac_role actor \<in> {OPERATOR, ADMIN}" "filter (\<lambda>b. b_id b = ic_batch_id cmd) (stamp_batches db) = [batch]"
    "b_status batch = B_ISSUED" "filter (\<lambda>x. insp_batch_id x = b_id batch) (inspections db) = []"
    "sampling_plan (b_issued_count batch) = Inr plan" "evaluate plan (ic_defects_found cmd) = Inr accepted"
    "insert_inspection (new_inspection actor cmd plan accepted now) db = Inr (insp, db1)"
    "close_inspection actor cmd batch plan accepted insp now k rv db1 = Inr (res, db')"
  using assms unfolding record_inspection_def
  by (auto split: option.splits if_splits)

text \<open>The defective stamps of a batch.\<close>

definition defective :: "inspection_command \<Rightarrow> stamp \<Rightarrow> bool" where
  "defective cmd s = (s_serial s \<in> set (ic_defective_serials cmd) \<and> s_batch_id s = ic_batch_id cmd \<and> s_status s \<noteq> S_VOID)"

lemma close_inspection_effect:
  assumes wf: "platform_wf k db" and b: "batch \<in> set (stamp_batches db)" "b_id batch = ic_batch_id cmd"
    and cl: "close_inspection actor cmd batch plan accepted insp now k rv db = Inr (res, db')"
  shows "ix_accepted res = accepted \<and> platform_wf k db' \<and> inspections db' = inspections db \<and>
    stamps db' = map (\<lambda>s. if defective cmd s then voided_at now s else s) (stamps db) \<and>
    stamp_batches db' = (if accepted then stamp_batches db
      else map (\<lambda>x. if x = batch then batch\<lparr>b_status := B_INSPECTION_FAILED\<rparr> else x) (stamp_batches db))"
  using cl
proof (rule close_inspectionE)
  fix voided evs db2 db3 db4 e
  let ?sel = "filter (\<lambda>s. s_serial s \<in> set (ic_defective_serials cmd) \<and> s_batch_id s = b_id batch) (stamps db)"
  assume v: "void_defective actor now ?sel db = (voided, evs, db2)"
    and sv: "(if accepted then Inr db2 else save_batch (batch\<lparr>b_status := B_INSPECTION_FAILED\<rparr>) db2) = Inr db3"
    and ev: "insert_stamp_events evs db3 = Inr db4"
    and au: "record_audit_event (audit_actor_of actor) (inspection_record (b_id batch) accepted plan cmd voided actor) now k rv db4 = Inr (e, db')"
    and acc: "ix_accepted res = accepted"
  have keys: "distinct (map s_id (stamps db))" using stamps_wf_keys [OF platform_orders(2) [OF wf]] by blast
  have "db2 = db\<lparr>stamps := map (\<lambda>s. if s \<in> set ?sel \<and> s_status s \<noteq> S_VOID then voided_at now s else s) (stamps db)\<rparr>"
    using void_defective_effect [OF v _ _ keys] keys by (auto simp: distinct_map)
  also have "map (\<lambda>s. if s \<in> set ?sel \<and> s_status s \<noteq> S_VOID then voided_at now s else s) (stamps db) =
      map (\<lambda>s. if defective cmd s then voided_at now s else s) (stamps db)"
    by (rule map_cong [OF refl]) (simp add: defective_def b(2))
  finally have db2: "db2 = db\<lparr>stamps := map (\<lambda>s. if defective cmd s then voided_at now s else s) (stamps db)\<rparr>" .
  then have "lifecycle db db2"
    by (auto simp: lifecycle_def list_all2_map2 defective_def intro!: list.rel_refl_strong voided_move)
  then have wf2: "platform_wf k db2" by (rule lifecycle_platform [OF wf])
  have b2: "batch \<in> set (stamp_batches db2)" using b(1) by (simp add: db2)
  have dist: "distinct (map b_id (stamp_batches db))" using platform_orders(2) [OF wf] by (simp add: stamps_wf_def)
  have "platform_wf k db3 \<and> stamps db3 = stamps db2 \<and> inspections db3 = inspections db2 \<and> stamp_batches db3 = (if accepted then stamp_batches db
      else map (\<lambda>x. if x = batch then batch\<lparr>b_status := B_INSPECTION_FAILED\<rparr> else x) (stamp_batches db))"
  proof (cases accepted)
    case True
    then show ?thesis using sv wf2 by (auto simp: db2)
  next
    case False
    with sv have sv: "save_batch (batch\<lparr>b_status := B_INSPECTION_FAILED\<rparr>) db2 = Inr db3" by simp
    then have "platform_wf k db3" by (rule save_batch_platform(1) [OF wf2 b2]) simp_all
    with sv False update_row_by_key [OF dist b(1), of "batch\<lparr>b_status := B_INSPECTION_FAILED\<rparr>"] show ?thesis
      by (auto simp: save_batch_ok db2)
  qed
  moreover have "platform_wf k db'"
    using calculation platform_wf_audit [OF insert_stamp_events_platform [OF _ ev] au] by blast
  moreover have "lifecycle db3 db4" "stamps db4 = stamps db3" using insert_stamp_events_lifecycle [OF ev] by simp_all
  moreover from this(1) have "inspections db4 = inspections db3" unfolding lifecycle_def by (cases db3; cases db4) simp
  ultimately show ?thesis
    using acc record_audit_event_db [OF au] lifecycle_tables(12) [of db3 db4] by (simp add: db2)
qed

lemma insert_inspection_platform [inv_pres]:
  assumes "platform_wf k db" and "insert_inspection mk db = Inr (i, db')"
  shows "platform_wf k db'"
proof -
  have db': "db' = db\<lparr>next_uuid := Suc (next_uuid db), inspections := inspections db @ [i]\<rparr>"
    using assms(2) by (simp add: insert_inspection_ok)
  have "stamps_wf db'" using stamps_wf_kept [OF platform_orders(2) [OF assms(1)], of db'] by (simp add: db' issuance_keptI)
  moreover have "rest_wf k db'" using assms(1) by (intro rest_wf_cong [of db' db]) (simp_all add: db' platform_wf_def)
  ultimately show ?thesis by (simp add: platform_wf_def)
qed

lemma inspection_effect:
  assumes wf: "platform_wf k db" and ins: "record_inspection actor cmd now k rv db = Inr (res, db')"
  obtains batch plan insp where "ac_role actor \<in> {OPERATOR, ADMIN}" "batch \<in> set (stamp_batches db)" "b_id batch = ic_batch_id cmd"
    "b_status batch = B_ISSUED" "ic_batch_id cmd \<notin> insp_batch_id ` set (inspections db)"
    "sampling_plan (b_issued_count batch) = Inr plan" "0 \<le> ic_defects_found cmd" "ic_defects_found cmd \<le> sample_size plan"
    "ix_accepted res \<longleftrightarrow> ic_defects_found cmd \<le> accept_number plan"
    "inspections db' = inspections db @ [insp]" "insp_batch_id insp = ic_batch_id cmd" "insp_accepted insp = ix_accepted res"
    "platform_wf k db'" "stamps db' = map (\<lambda>s. if defective cmd s then voided_at now s else s) (stamps db)"
    "stamp_batches db' = (if ix_accepted res then stamp_batches db
      else map (\<lambda>x. if x = batch then batch\<lparr>b_status := B_INSPECTION_FAILED\<rparr> else x) (stamp_batches db))"
  using ins
proof (rule record_inspectionE)
  fix batch plan accepted insp db1
  assume role: "ac_role actor \<in> {OPERATOR, ADMIN}" and one: "filter (\<lambda>b. b_id b = ic_batch_id cmd) (stamp_batches db) = [batch]"
    and st: "b_status batch = B_ISSUED" and none: "filter (\<lambda>x. insp_batch_id x = b_id batch) (inspections db) = []"
    and plan: "sampling_plan (b_issued_count batch) = Inr plan" and eval: "evaluate plan (ic_defects_found cmd) = Inr accepted"
    and ii: "insert_inspection (new_inspection actor cmd plan accepted now) db = Inr (insp, db1)"
    and cl: "close_inspection actor cmd batch plan accepted insp now k rv db1 = Inr (res, db')"
  have b: "batch \<in> set (stamp_batches db)" "b_id batch = ic_batch_id cmd" using filter_eq_singletonD [OF one] by simp_all
  have insp: "db1 = db\<lparr>next_uuid := Suc (next_uuid db), inspections := inspections db @ [insp]\<rparr>"
    "insp = new_inspection actor cmd plan accepted now (next_uuid db)" using ii by (simp_all add: insert_inspection_ok)
  have wf1: "platform_wf k db1" using wf ii by (rule insert_inspection_platform)
  have "batch \<in> set (stamp_batches db1)" using b(1) by (simp add: insp(1))
  note eff = close_inspection_effect [OF wf1 this b(2) cl]
  have "accepted \<longleftrightarrow> ic_defects_found cmd \<le> accept_number plan" "0 \<le> ic_defects_found cmd" "ic_defects_found cmd \<le> sample_size plan"
    using eval by (auto simp: evaluate_def split: if_splits)
  with eff role b st plan none show thesis
    by (intro that [of batch plan insp]) (auto simp: insp(1) filter_empty_conv, simp_all add: insp(2) new_inspection_def)
qed

text \<open>An activation reports the stamps of a failed batch, and leaves them alone.\<close>

lemma activate_failed_batch:
  assumes wf: "platform_wf k db" and b: "b \<in> set (stamp_batches db)" "b_status b = B_INSPECTION_FAILED"
    and s: "s \<in> set (stamps db)" "s_batch_id s = b_id b"
  shows "activate_stamp actor now (s_serial s) db \<in>
    {Inl Forbidden, Inr (\<lparr>so_serial = s_serial s, so_status = stamp_status_value (s_status s), so_changed = False,
      so_reason = Some ''batch failed quality inspection''\<rparr>, None)}"
proof -
  have dist: "distinct (map b_id (stamp_batches db))" using platform_orders(2) [OF wf] by (simp add: stamps_wf_def)
  obtain x where x: "find (\<lambda>x. b_id x = s_batch_id s) (rev (stamp_batches db)) = Some x"
    using b(1) s(2) by (cases "find (\<lambda>x. b_id x = s_batch_id s) (rev (stamp_batches db))") (auto simp: find_None_iff)
  then have "x = b" using find_SomeD [OF x] key_unique [OF dist _ b(1)] s(2) by simp
  then have "batch_status_of (s_batch_id s) db = Some B_INSPECTION_FAILED" using x b(2) by (simp add: batch_status_of_def)
  moreover have "find_stamp (s_serial s) db = Some s"
    using s(1) find_stamp_Some [OF stamps_wf_keys(1) [OF platform_orders(2) [OF wf]]] by blast
  ultimately show ?thesis by (simp add: activate_stamp_def Let_def)
qed

section \<open>A sample lot\<close>

text \<open>The sample batch, marked issued, and an inspection that finds one defect in its sample of one.\<close>

definition lot_db :: db where
  "lot_db = issuing_db\<lparr>stamp_batches := [sample_batch\<lparr>b_status := B_ISSUED\<rparr>]\<rparr>"

definition one_defect :: inspection_command where
  "one_defect = \<lparr>ic_batch_id = 27, ic_defects_found = 1, ic_defective_serials = []\<rparr>"

lemma lot_db_wf: "platform_wf k lot_db"
proof (rule save_batch_platform(1) [OF issuing_db_wf])
  show "sample_batch \<in> set (stamp_batches issuing_db)" by (simp add: issuing_db_fields)
  show "save_batch (sample_batch\<lparr>b_status := B_ISSUED\<rparr>) issuing_db = Inr lot_db"
    by (simp add: save_batch_def lot_db_def issuing_db_fields sample_batch_def)
qed simp_all

lemma lot_db_fields:
  "stamp_batches lot_db = [sample_batch\<lparr>b_status := B_ISSUED\<rparr>]" "stamps lot_db = [sample_stamp]" "inspections lot_db = []"
  "audit_events lot_db = []" "principals lot_db = principals issuing_db"
  by (simp_all add: lot_db_def issuing_db_fields) (simp add: issuing_db_def paid_db_def sample_db_def empty_db_def)

lemma sample_rejected:
  "\<exists>res db'. record_inspection (sample_actor OPERATOR) one_defect in_2026 k ''r1'' lot_db = Inr (res, db') \<and> \<not> ix_accepted res"
proof -
  let ?a = "sample_actor OPERATOR" and ?b = "sample_batch\<lparr>b_status := B_ISSUED\<rparr>"
  let ?p = "\<lparr>lot_size = 1, sample_size = 1, accept_number = 0, reject_number = 1\<rparr>"
  have plan: "sampling_plan (b_issued_count ?b) = Inr ?p" "evaluate ?p 1 = Inr False"
    by (simp_all add: sample_batch_def sampling_plan_def PLAN_def evaluate_def)
  have "\<exists>i d. insert_inspection (new_inspection ?a one_defect ?p False in_2026) lot_db = Inr (i, d) \<and> stamps d = [sample_stamp] \<and>
      audit_events d = [] \<and> stamp_batches d = [?b]"
    by (simp add: insert_inspection_def insert_row_def Let_def inspection_types_def inspection_checks_def new_inspection_def lot_db_fields
        issuing_db_fields one_defect_def sample_actor_def sample_principal_def sample_batch_def unused_def foreign_key_def bigint_def int4_def)
  then obtain i d where d: "insert_inspection (new_inspection ?a one_defect ?p False in_2026) lot_db = Inr (i, d)"
    "audit_events d = []" by blast
  have "\<exists>d'. save_batch (?b\<lparr>b_status := B_INSPECTION_FAILED\<rparr>) d = Inr d' \<and> audit_events d' = []"
    using d(2) by (simp add: save_batch_def sample_batch_def)
  then obtain d' where d': "save_batch (?b\<lparr>b_status := B_INSPECTION_FAILED\<rparr>) d = Inr d'" "audit_events d' = []" by blast
  have fits: "audit_fits (audit_actor_of ?a) (inspection_record (b_id ?b) False ?p one_defect 0 ?a) ''r1''"
    by (simp add: audit_fits_def audit_actor_of_def inspection_record_def sample_actor_def varchar_def opt_col_def json_obj_opt_def)
  obtain e d'' where "record_audit_event (audit_actor_of ?a) (inspection_record (b_id ?b) False ?p one_defect 0 ?a) in_2026 k ''r1'' d' = Inr (e, d'')"
    using record_audit_event_first [OF d'(2) fits] by blast
  moreover have "b_id ?b = 27" "ic_batch_id one_defect = 27" "ic_defective_serials one_defect = []" "ic_defects_found one_defect = 1"
    "ac_role ?a = OPERATOR" by (simp_all add: sample_batch_def one_defect_def sample_actor_def)
  ultimately show ?thesis
    using plan d(1) d'(1)
    by (simp add: record_inspection_def close_inspection_def lot_db_fields require_role_def del: bind_res_eq_Inr)
qed

section \<open>Properties\<close>

text \<open>
  C15. An inspection is recorded by an operator, for an issued batch that was not inspected before.  The lot is accepted
  exactly when the defects found are at most the acceptance number of the sampling plan for its size.  The listed
  defective stamps of the batch become void and no other stamp changes; the batch fails exactly when the lot is rejected.
  The invariants of the platform are kept.
\<close>

theorem record_inspection_effect:
  assumes "platform_wf k db" and "record_inspection actor cmd now k rv db = Inr (res, db')"
  shows "ac_role actor \<in> {OPERATOR, ADMIN} \<and> platform_wf k db' \<and>
    (\<exists>batch \<in> set (stamp_batches db). \<exists>plan. b_id batch = ic_batch_id cmd \<and> b_status batch = B_ISSUED \<and>
      ic_batch_id cmd \<notin> insp_batch_id ` set (inspections db) \<and> sampling_plan (b_issued_count batch) = Inr plan \<and>
      0 \<le> ic_defects_found cmd \<and> ic_defects_found cmd \<le> sample_size plan \<and>
      (ix_accepted res \<longleftrightarrow> ic_defects_found cmd \<le> accept_number plan) \<and>
      stamps db' = map (\<lambda>s. if defective cmd s then voided_at now s else s) (stamps db) \<and>
      stamp_batches db' = (if ix_accepted res then stamp_batches db
        else map (\<lambda>x. if x = batch then batch\<lparr>b_status := B_INSPECTION_FAILED\<rparr> else x) (stamp_batches db)) \<and>
      (\<exists>insp. inspections db' = inspections db @ [insp] \<and> insp_batch_id insp = ic_batch_id cmd \<and> insp_accepted insp = ix_accepted res))"
  by (rule inspection_effect [OF assms]) blast

theorem record_inspection_effect_witness:
  "\<exists>res db'. record_inspection (sample_actor OPERATOR) one_defect in_2026 ''k'' ''r1'' lot_db = Inr (res, db') \<and> platform_wf ''k'' db'"
  using sample_rejected [of "''k''"] record_inspection_effect [OF lot_db_wf] by blast

text \<open>
  The stamps of a rejected lot stay out of circulation: after the rejecting inspection, whoever asks for the activation of
  a stamp of that batch is refused, or told that its batch failed inspection, and the stamp is not changed.
\<close>

theorem rejected_lot_not_activated:
  assumes "platform_wf k db" and "record_inspection inspector cmd t k rv db = Inr (res, db')" and "\<not> ix_accepted res"
  shows "\<forall>s \<in> set (stamps db'). s_batch_id s = ic_batch_id cmd \<longrightarrow> activate_stamp actor now (s_serial s) db' \<in>
    {Inl Forbidden, Inr (\<lparr>so_serial = s_serial s, so_status = stamp_status_value (s_status s), so_changed = False,
      so_reason = Some ''batch failed quality inspection''\<rparr>, None)}"
proof (rule inspection_effect [OF assms(1,2)])
  fix batch :: stamp_batch
  assume wf1: "platform_wf k db'" and b: "batch \<in> set (stamp_batches db)" "b_id batch = ic_batch_id cmd"
    and bs: "stamp_batches db' = (if ix_accepted res then stamp_batches db
      else map (\<lambda>x. if x = batch then batch\<lparr>b_status := B_INSPECTION_FAILED\<rparr> else x) (stamp_batches db))"
  have failed: "batch\<lparr>b_status := B_INSPECTION_FAILED\<rparr> \<in> set (stamp_batches db')" using b(1) bs assms(3) by auto
  show ?thesis using activate_failed_batch [OF wf1 failed] b(2) by simp
qed

theorem rejected_lot_not_activated_witness:
  "\<exists>res db'. record_inspection (sample_actor OPERATOR) one_defect in_2026 ''k'' ''r1'' lot_db = Inr (res, db') \<and> \<not> ix_accepted res \<and>
    activate_stamp (sample_actor REQUESTER) in_2026 sample_serial db' \<in>
      {Inl Forbidden, Inr (\<lparr>so_serial = sample_serial, so_status = ''issued'', so_changed = False,
        so_reason = Some ''batch failed quality inspection''\<rparr>, None)}"
proof -
  obtain res db' where r: "record_inspection (sample_actor OPERATOR) one_defect in_2026 ''k'' ''r1'' lot_db = Inr (res, db')" "\<not> ix_accepted res"
    using sample_rejected by blast
  have st: "stamps db' = [sample_stamp]"
    using r(1) by (rule inspection_effect [OF lot_db_wf]) (simp add: lot_db_fields defective_def one_defect_def)
  have "ic_batch_id one_defect = 27" by (simp add: one_defect_def)
  with rejected_lot_not_activated [OF lot_db_wf r, of "sample_actor REQUESTER" in_2026] r st show ?thesis by auto
qed

end
