(* ===== verification/Verify.thy ===== *)
theory Verify
  imports Stamps
begin

text \<open>
  \<^verbatim>\<open>src/src/taxstamp/services/verification.py\<close>: the verification of a serial and its secure code in the
  field.  Every attempt is recorded, with its outcome.
\<close>

definition VELOCITY_WINDOW :: int where "VELOCITY_WINDOW = 24 * 3600 * SECOND"

definition VELOCITY_DISTINCT_DEVICE_THRESHOLD :: int where "VELOCITY_DISTINCT_DEVICE_THRESHOLD = 3"

record verification_request =
  vq_serial :: string
  vq_secure_code :: string
  vq_device_id :: string
  vq_nonce :: string
  vq_latitude_e7 :: "int option"
  vq_longitude_e7 :: "int option"

record verification_result =
  vr_outcome :: verification_outcome
  vr_authentic :: bool
  vr_serial :: string
  vr_product_category :: "string option"
  vr_expires_at :: "instant option"
  vr_reason :: string

fun REASONS :: "verification_outcome \<Rightarrow> string" where
  "REASONS V_VALID = ''serial and secure code match an active stamp''"
| "REASONS V_UNKNOWN_SERIAL = ''serial is not present in the issuance register''"
| "REASONS V_SECURE_CODE_MISMATCH = ''secure code does not match the serial''"
| "REASONS V_NOT_ACTIVE = ''stamp has been issued but not activated''"
| "REASONS V_VOID = ''stamp has been voided''"
| "REASONS V_EXPIRED = ''stamp validity has elapsed''"
| "REASONS V_VELOCITY_SUSPECT = ''stamp verified from an unusual number of distinct devices in the last 24 hours''"

text \<open>\<^verbatim>\<open>COUNT(DISTINCT device_id)\<close> over the valid verifications of the window by other devices.\<close>

definition distinct_recent_devices :: "stamp \<Rightarrow> instant \<Rightarrow> string \<Rightarrow> db \<Rightarrow> int res" where
  "distinct_recent_devices s now device_id db =
     bind_res (dt_add now (- VELOCITY_WINDOW)) (\<lambda>since.
     Inr (int (length (remdups (map v_device_id (filter (\<lambda>v. v_stamp_id v = Some (s_id s) \<and> v_outcome v = V_VALID \<and>
        v_occurred_at v \<ge> since \<and> v_device_id v \<noteq> device_id) (verifications db)))))))"

text \<open>The chain of conditions that decides the outcome for a stamp.\<close>

definition judge :: "stamp \<Rightarrow> verification_request \<Rightarrow> instant \<Rightarrow> string \<Rightarrow> db \<Rightarrow> verification_outcome res" where
  "judge s request now secret db =
     bind_res (secure_codes_match (hash_secure_code (s_serial s) (vq_secure_code request) secret) (s_secure_code_hash s)) (\<lambda>same.
     if \<not> same then Inr V_SECURE_CODE_MISMATCH
     else if s_status s = S_VOID then Inr V_VOID
     else if s_expires_at s \<le> now \<or> s_status s = S_EXPIRED then Inr V_EXPIRED
     else if s_status s \<noteq> S_ACTIVE then Inr V_NOT_ACTIVE
     else bind_res (distinct_recent_devices s now (vq_device_id request) db) (\<lambda>others.
       if others \<ge> VELOCITY_DISTINCT_DEVICE_THRESHOLD then Inr V_VELOCITY_SUSPECT else Inr V_VALID))"

definition new_verification ::
  "actor \<Rightarrow> stamp option \<Rightarrow> verification_request \<Rightarrow> verification_outcome \<Rightarrow> instant \<Rightarrow> uuid \<Rightarrow> verification" where
  "new_verification actor found request outcome now i =
     \<lparr>v_id = i, v_stamp_id = map_option s_id found, v_serial_presented = take 64 (vq_serial request), v_outcome = outcome,
      v_principal_id = ac_principal_id actor, v_device_id = vq_device_id request, v_nonce = vq_nonce request,
      v_latitude_e7 = vq_latitude_e7 request, v_longitude_e7 = vq_longitude_e7 request, v_occurred_at = now\<rparr>"

definition verify_record :: "verification_request \<Rightarrow> verification_outcome \<Rightarrow> actor \<Rightarrow> audit_record" where
  "verify_record request outcome actor =
     \<lparr>ar_action = ''stamp.verify'', ar_target_type = ''stamp'', ar_target_id = take 64 (vq_serial request),
      ar_outcome = (if outcome = V_VALID then ''success'' else ''failure''), ar_before_state = None,
      ar_after_state = Some [(''outcome'', JStr (verification_outcome_value outcome)), (''device_id'', JStr (vq_device_id request))],
      ar_request_id = ac_request_id actor, ar_idempotency_key = None\<rparr>"

definition verify ::
  "actor \<Rightarrow> verification_request \<Rightarrow> instant \<Rightarrow> string \<Rightarrow> string \<Rightarrow> string \<Rightarrow> db \<Rightarrow> (verification_result \<times> db) res" where
  "verify actor request now secure_code_secret audit_secret revision db =
     bind_res (if is_valid_serial (vq_serial request)
               then scalar_one_or_none (filter (\<lambda>s. s_serial s = vq_serial request) (stamps db)) else Inr None) (\<lambda>found.
     bind_res (case found of None \<Rightarrow> Inr V_UNKNOWN_SERIAL | Some s \<Rightarrow> judge s request now secure_code_secret db) (\<lambda>outcome.
     bind_res (insert_verification (new_verification actor found request outcome now) db) (\<lambda>(v, db).
     bind_res (record_audit_event (audit_actor_of actor) (verify_record request outcome actor) now audit_secret revision db) (\<lambda>(e, db).
     Inr (\<lparr>vr_outcome = outcome, vr_authentic = (outcome = V_VALID), vr_serial = vq_serial request,
            vr_product_category = map_option s_product_category found, vr_expires_at = map_option s_expires_at found,
            vr_reason = REASONS outcome\<rparr>, db)))))"

section \<open>Lemmas\<close>

text \<open>The other devices on which a stamp was found valid within the window.\<close>

definition recent_devices :: "stamp \<Rightarrow> instant \<Rightarrow> string \<Rightarrow> db \<Rightarrow> string set" where
  "recent_devices s now device db =
     {v_device_id v | v. v \<in> set (verifications db) \<and> v_stamp_id v = Some (s_id s) \<and> v_outcome v = V_VALID \<and>
        now - VELOCITY_WINDOW \<le> v_occurred_at v \<and> v_device_id v \<noteq> device}"

lemma distinct_recent_devices_ok:
  "distinct_recent_devices s now device db = Inr n \<Longrightarrow> n = int (card (recent_devices s now device db))"
  by (auto simp: distinct_recent_devices_def dt_add_def recent_devices_def length_remdups_card_conv split: if_splits
      intro!: arg_cong [where f = card])

lemma judge_valid:
  assumes "judge s req now sk db = Inr out"
  shows "out = V_VALID \<longleftrightarrow> hash_secure_code (s_serial s) (vq_secure_code req) sk = s_secure_code_hash s \<and>
      s_status s = S_ACTIVE \<and> now < s_expires_at s \<and> card (recent_devices s now (vq_device_id req) db) < 3"
    and "out \<noteq> V_UNKNOWN_SERIAL"
  using assms
  by (auto simp: judge_def secure_codes_match_def compare_digest_def VELOCITY_DISTINCT_DEVICE_THRESHOLD_def
      dest!: distinct_recent_devices_ok split: if_splits)

lemma verifyE:
  assumes "verify actor req now sk k rv db = Inr (res, db')"
  obtains found db1 v e where
    "(if is_valid_serial (vq_serial req) then scalar_one_or_none (filter (\<lambda>s. s_serial s = vq_serial req) (stamps db)) else Inr None) = Inr found"
    "(case found of None \<Rightarrow> Inr V_UNKNOWN_SERIAL | Some s \<Rightarrow> judge s req now sk db) = Inr (vr_outcome res)"
    "insert_verification (new_verification actor found req (vr_outcome res) now) db = Inr (v, db1)"
    "record_audit_event (audit_actor_of actor) (verify_record req (vr_outcome res) actor) now k rv db1 = Inr (e, db')"
    "vr_authentic res = (vr_outcome res = V_VALID)"
  using assms by (auto simp: verify_def)

lemma verifications_platform [inv_pres]:
  assumes "platform_wf k db" and "insert_verification mk db = Inr (v, db')"
  shows "platform_wf k db'"
proof -
  have db': "db' = db\<lparr>next_uuid := Suc (next_uuid db), verifications := verifications db @ [v]\<rparr>"
    using assms(2) by (simp add: insert_verification_ok)
  have "stamps_wf db'" using stamps_wf_kept [OF platform_orders(2) [OF assms(1)], of db'] by (simp add: db' issuance_keptI)
  moreover have "rest_wf k db'" using assms(1) by (intro rest_wf_cong [of db' db]) (simp_all add: db' platform_wf_def)
  ultimately show ?thesis by (simp add: platform_wf_def)
qed

lemma verify_platform [inv_pres]:
  assumes "platform_wf k db" and "verify actor req now sk k rv db = Inr (res, db')"
  shows "platform_wf k db' \<and> stamps db' = stamps db \<and> stamp_batches db' = stamp_batches db"
  using assms(2)
proof (rule verifyE)
  fix found db1 v e
  assume ins: "insert_verification (new_verification actor found req (vr_outcome res) now) db = Inr (v, db1)"
    and au: "record_audit_event (audit_actor_of actor) (verify_record req (vr_outcome res) actor) now k rv db1 = Inr (e, db')"
  from platform_wf_audit [OF verifications_platform [OF assms(1) ins] au] show ?thesis
    using ins record_audit_event_db [OF au] by (simp add: insert_verification_ok)
qed

section \<open>Properties\<close>

text \<open>
  C14. A verification says valid exactly when the serial is well formed, an active stamp carries it that is not past its
  expiry, the secure code hashes to the one stored with the stamp, and fewer than three other devices found the stamp
  valid in the last 24 hours; it says the serial is unknown exactly when it is malformed or no stamp carries it.  It is
  authentic exactly when it is valid.  Valid or not, one verification is recorded with its outcome, no stamp is changed, and
  the invariants of the platform are kept.
\<close>

theorem verify_outcome:
  assumes "platform_wf k db" and "verify actor req now sk k rv db = Inr (res, db')"
  shows "(vr_outcome res = V_VALID \<longleftrightarrow> is_valid_serial (vq_serial req) \<and>
      (\<exists>s \<in> set (stamps db). s_serial s = vq_serial req \<and> s_status s = S_ACTIVE \<and> now < s_expires_at s \<and>
        hash_secure_code (s_serial s) (vq_secure_code req) sk = s_secure_code_hash s \<and>
        card (recent_devices s now (vq_device_id req) db) < 3)) \<and>
    (vr_outcome res = V_UNKNOWN_SERIAL \<longleftrightarrow> \<not> is_valid_serial (vq_serial req) \<or> vq_serial req \<notin> s_serial ` set (stamps db)) \<and>
    vr_authentic res = (vr_outcome res = V_VALID) \<and>
    (\<exists>v. verifications db' = verifications db @ [v] \<and> v_outcome v = vr_outcome res \<and> v_occurred_at v = now \<and>
       v_device_id v = vq_device_id req) \<and> stamps db' = stamps db \<and> platform_wf k db'"
  using assms(2)
proof (rule verifyE)
  fix found db1 v e
  assume fnd: "(if is_valid_serial (vq_serial req) then scalar_one_or_none (filter (\<lambda>s. s_serial s = vq_serial req) (stamps db))
      else Inr None) = Inr found"
    and out: "(case found of None \<Rightarrow> Inr V_UNKNOWN_SERIAL | Some s \<Rightarrow> judge s req now sk db) = Inr (vr_outcome res)"
    and ins: "insert_verification (new_verification actor found req (vr_outcome res) now) db = Inr (v, db1)"
    and au: "record_audit_event (audit_actor_of actor) (verify_record req (vr_outcome res) actor) now k rv db1 = Inr (e, db')"
    and auth: "vr_authentic res = (vr_outcome res = V_VALID)"
  have rec: "verifications db' = verifications db @ [v]" "v_outcome v = vr_outcome res" "v_occurred_at v = now" "v_device_id v = vq_device_id req"
    using ins record_audit_event_db [OF au] by (simp_all add: insert_verification_ok new_verification_def)
  have main: "(vr_outcome res = V_VALID \<longleftrightarrow> is_valid_serial (vq_serial req) \<and>
      (\<exists>s \<in> set (stamps db). s_serial s = vq_serial req \<and> s_status s = S_ACTIVE \<and> now < s_expires_at s \<and>
        hash_secure_code (s_serial s) (vq_secure_code req) sk = s_secure_code_hash s \<and>
        card (recent_devices s now (vq_device_id req) db) < 3)) \<and>
    (vr_outcome res = V_UNKNOWN_SERIAL \<longleftrightarrow> \<not> is_valid_serial (vq_serial req) \<or> vq_serial req \<notin> s_serial ` set (stamps db))"
  proof (cases found)
    case None
    then have "\<not> is_valid_serial (vq_serial req) \<or> vq_serial req \<notin> s_serial ` set (stamps db)"
      using fnd by (auto split: if_splits simp: filter_empty_conv)
    with None out show ?thesis by (auto intro: rev_image_eqI)
  next
    case (Some s)
    then have one: "is_valid_serial (vq_serial req)" "filter (\<lambda>s. s_serial s = vq_serial req) (stamps db) = [s]"
      using fnd by (auto split: if_splits)
    have s: "s \<in> set (stamps db)" "s_serial s = vq_serial req" using filter_eq_singletonD [OF one(2)] by simp_all
    have ex: "(\<exists>t \<in> set (stamps db). s_serial t = vq_serial req \<and> P t) \<longleftrightarrow> P s" for P
      using filter_eq_singleton_unique [OF one(2)] s by blast
    have "judge s req now sk db = Inr (vr_outcome res)" using out Some by simp
    note j = judge_valid [OF this]
    show ?thesis unfolding ex using one(1) s j by (auto intro: rev_image_eqI)
  qed
  have kept: "stamps db' = stamps db" "platform_wf k db'" using verify_platform [OF assms] by blast+
  show ?thesis
    by (intro conjI exI [of _ v]) (fact main [THEN conjunct1] main [THEN conjunct2] auth rec kept)+
qed

text \<open>The sample stamp, activated, and a request with its code.\<close>

definition active_db :: db where
  "active_db = save_stamp (sample_stamp\<lparr>s_status := S_ACTIVE, s_activated_at := Some in_2026\<rparr>) issuing_db"

definition sample_request :: verification_request where
  "sample_request = \<lparr>vq_serial = sample_serial, vq_secure_code = derive_secure_code sample_serial ''s'', vq_device_id = ''dev-1'',
     vq_nonce = ''n1'', vq_latitude_e7 = None, vq_longitude_e7 = None\<rparr>"

lemma active_db_fields:
  "stamps active_db = [sample_stamp\<lparr>s_status := S_ACTIVE, s_activated_at := Some in_2026\<rparr>]" "verifications active_db = []"
  "audit_events active_db = []" "principals active_db = principals issuing_db"
  by (simp_all add: active_db_def save_stamp_def issuing_db_fields) (simp add: issuing_db_def paid_db_def sample_db_def empty_db_def)

lemma active_db_wf: "platform_wf k active_db"
proof (rule lifecycle_platform [OF issuing_db_wf])
  have "stamp_move sample_stamp (sample_stamp\<lparr>s_status := S_ACTIVE, s_activated_at := Some in_2026\<rparr>)"
    by (cases sample_stamp) (simp add: stamp_move_def assert_stamp_transition_iff sample_stamp_def new_stamp_def)
  then show "lifecycle issuing_db active_db"
    by (simp add: lifecycle_def active_db_def save_stamp_def issuing_db_fields)
qed

lemma sample_verifies:
  "\<exists>res db'. verify (sample_actor OPERATOR) sample_request in_2026 ''s'' k ''r1'' active_db = Inr (res, db')"
proof -
  let ?s = "sample_stamp\<lparr>s_status := S_ACTIVE, s_activated_at := Some in_2026\<rparr>" and ?a = "sample_actor OPERATOR"
  have "is_ok (dt_add in_2026 (- VELOCITY_WINDOW))" by code_simp
  then obtain t where t: "dt_add in_2026 (- VELOCITY_WINDOW) = Inr t" by (auto simp: is_ok_iff)
  have len: "length sample_serial = 24" by (simp add: sample_serial_def)
  have h: "s_secure_code_hash ?s = hash_secure_code sample_serial (derive_secure_code sample_serial ''s'') ''s''"
    by (simp add: sample_stamp_def)
  have "in_2026 < in_2026 + 730 * DAY" by (simp add: DAY_def SECOND_def)
  then have j: "judge ?s sample_request in_2026 ''s'' active_db = Inr V_VALID"
    unfolding judge_def h by (simp add: sample_request_def secure_codes_match_same distinct_recent_devices_def t active_db_fields
        VELOCITY_DISTINCT_DEVICE_THRESHOLD_def)
  have "\<exists>v d. insert_verification (new_verification ?a (Some ?s) sample_request V_VALID in_2026) active_db = Inr (v, d) \<and> audit_events d = []"
    using len by (simp add: insert_verification_def insert_row_def Let_def verification_types_def verification_checks_def new_verification_def
        active_db_fields issuing_db_fields varchar_def unused_def foreign_key_def opt_col_def sample_actor_def sample_principal_def sample_request_def)
      (simp add: sample_serial_def)
  then obtain v d where v: "insert_verification (new_verification ?a (Some ?s) sample_request V_VALID in_2026) active_db = Inr (v, d)"
    "audit_events d = []" by blast
  have fits: "audit_fits (audit_actor_of ?a) (verify_record sample_request V_VALID ?a) ''r1''"
    using len by (simp add: audit_fits_def audit_actor_of_def verify_record_def sample_actor_def sample_request_def varchar_def opt_col_def
        json_obj_opt_def) (simp add: sample_serial_def)
  obtain e d' where "record_audit_event (audit_actor_of ?a) (verify_record sample_request V_VALID ?a) in_2026 k ''r1'' d = Inr (e, d')"
    using record_audit_event_first [OF v(2) fits] by blast
  moreover have "vq_serial sample_request = sample_serial" by (simp add: sample_request_def)
  ultimately show ?thesis
    using j v(1) by (simp add: verify_def sample_serial(2) active_db_fields del: bind_res_eq_Inr)
qed

theorem verify_outcome_witness:
  "\<exists>res db'. verify (sample_actor OPERATOR) sample_request in_2026 ''s'' ''k'' ''r1'' active_db = Inr (res, db') \<and>
    vr_outcome res = V_VALID \<and> vr_authentic res"
proof -
  obtain res db' where ok: "verify (sample_actor OPERATOR) sample_request in_2026 ''s'' ''k'' ''r1'' active_db = Inr (res, db')"
    using sample_verifies by blast
  have "in_2026 < in_2026 + 730 * DAY" by (simp add: DAY_def SECOND_def)
  moreover have "recent_devices x in_2026 y active_db = {}" for x y by (simp add: recent_devices_def active_db_fields)
  moreover have "hash_secure_code sample_serial (vq_secure_code sample_request) ''s'' = s_secure_code_hash sample_stamp"
    "vq_serial sample_request = sample_serial" by (simp_all add: sample_request_def sample_stamp_def)
  ultimately have "vr_outcome res = V_VALID"
    using verify_outcome [OF active_db_wf ok] sample_serial(2) by (simp add: active_db_fields)
  with verify_outcome [OF active_db_wf ok] ok show ?thesis by blast
qed

end
