(* ===== verification/Platform.thy ===== *)
theory Platform
  imports Inspection Verify
begin

text \<open>
  The services together: every operation that changes the database keeps the invariants of the
  platform, and so they hold in every state that the operations can reach.
\<close>

section \<open>Orders and payments leave issuance alone\<close>

text \<open>An order that is not paid may move, or enter, without an effect on the issuance of the paid ones.\<close>

lemma move_kept:
  assumes wf: "orders_wf db" and ord: "ord \<in> set (orders db)" "\<not> paid ord" and st: "o_status ord' \<noteq> O_ISSUED"
    and os: "orders db' = update_where (\<lambda>x. o_id x = o_id ord) (\<lambda>_. ord') (orders db)"
    and same: "stamp_batches db' = stamp_batches db" "stamps db' = stamps db" "serial_counters db' = serial_counters db"
      "next_uuid db \<le> next_uuid db'"
  shows "issuance_kept db db'"
proof -
  have os': "orders db' = map (\<lambda>x. if x = ord then ord' else x) (orders db)"
    unfolding os using wf ord(1) by (intro update_row_by_key) (simp_all add: orders_wf_def)
  show ?thesis unfolding issuance_kept_def os' using ord(2) st same by auto
qed

lemma unpaid_target: "assert_order_transition s t = Inr () \<Longrightarrow> t \<notin> {O_ISSUING, O_ISSUED} \<Longrightarrow> s \<notin> {O_PAID, O_ISSUING, O_ISSUED}"
  by (auto simp: assert_order_transition_iff)

lemma transition_kept:
  assumes "orders_wf db" and "ord \<in> set (orders db)" and "transition ord tgt a why now db = Inr (ord', db')"
    and "tgt \<notin> {O_ISSUING, O_ISSUED}"
  shows "issuance_kept db db'"
proof -
  have mv: "move_order ord tgt (map_option ac_principal_id a) why now db = Inr (ord', db')"
    and chk: "assert_order_transition (o_status ord) tgt = Inr ()" using assms(3) by (simp_all add: transition_ok)
  have "\<not> paid ord" using unpaid_target [OF chk assms(4)] by (simp add: paid_def)
  moreover have "o_status ord' = tgt" using mv by (simp add: move_order_ok)
  ultimately show ?thesis using assms(4) mv by (intro move_kept [OF assms(1,2), of ord' db']) (auto simp: move_order_ok)
qed

lemma open_order_kept:
  assumes ins: "insert_order (new_order r co a cmd ta b oc now) db = Inr (ord, db1)"
    and tr: "insert_order_transition (new_transition (o_id ord) None O_SUBMITTED aid why now) db1 = Inr (row, db2)"
  shows "issuance_kept db db2"
  using assms by (auto simp: insert_ok issuance_kept_def)

lemma route_kept:
  assumes "orders_wf db" and "ord \<in> set (orders db)" and rt: "route_order a oc now ord db = Inr (ord', db')"
  shows "issuance_kept db db'"
proof (cases "oc_compliant oc")
  case True
  with assms show ?thesis by (auto simp: route_order_def intro: transition_kept)
next
  case False
  with rt obtain o1 db1 where
    1: "transition ord O_COMPLIANCE_PENDING (Some a) ''compliance decision recorded'' now db = Inr (o1, db1)" and
    2: "transition o1 O_COMPLIANCE_REJECTED (Some a) ''one or more registries reported non-compliance'' now db1 = Inr (ord', db')"
    by (auto simp: route_order_def)
  have "orders_wf db1" "o1 \<in> set (orders db1)"
    using transition_wf [OF assms(1,2) 1] by (simp_all add: APPROVED_STATES_def)
  then show ?thesis
    using transition_kept [OF assms(1,2) 1] transition_kept [OF _ _ 2] issuance_kept_trans by fastforce
qed

lemma apply_decision_kept:
  assumes wf: "orders_wf db" and ord: "ord \<in> set (orders db)" and ap: "apply_decision a c now sfx ord db = Inr (ord', f, db')"
  shows "issuance_kept db db' \<and> (outbox_wf db \<longrightarrow> outbox_wf db')"
proof -
  consider (rej) "transition ord O_REJECTED (Some a) (ap_cmd_reason c) now db = Inr (ord', db')"
    | (full) o1 db1 db2 where "set (REQUIRED_APPROVALS (o_risk_tier ord)) \<subseteq> set (approved_levels db (o_id ord))"
      "transition ord O_APPROVED (Some a) ''all approvals recorded'' now db = Inr (o1, db1)"
      "transition o1 O_AWAITING_PAYMENT (Some a) ''payment intent created'' now db1 = Inr (ord', db2)"
      "create_intent ord' now sfx db2 = Inr db'"
    | (part) "db' = db"
    using ap by (auto simp: apply_decision_def list_all_iff split: if_splits)
  then show ?thesis
  proof cases
    case rej
    then show ?thesis using transition_kept [OF wf ord rej] transition_frame [OF rej] outbox_wf_cong [of db' db] by auto
  next
    case full
    have s1: "orders_wf db1" "o1 \<in> set (orders db1)" using transition_wf [OF wf ord full(2)] full(1) by auto
    have "issuance_kept db db2"
      using transition_kept [OF wf ord full(2)] transition_kept [OF s1 full(3)] issuance_kept_trans by fastforce
    moreover have "issuance_kept db2 db'"
      using create_intent_ok [OF full(4)] order_maskD [of db' db2] by (auto intro: issuance_keptI)
    moreover have "outbox_wf db'" if "outbox_wf db"
      using that create_intent_outbox [OF _ full(4)] transition_frame [OF full(2)] transition_frame [OF full(3)]
        outbox_wf_cong [of db1 db] outbox_wf_cong [of db2 db1] by auto
    ultimately show ?thesis using issuance_kept_trans by blast
  qed simp
qed

section \<open>Every service keeps the invariants\<close>

text \<open>The end of an operation: what is left to show once orders and money are settled is issuance, outbox and trail.\<close>

lemma platform_close:
  assumes "platform_wf k db" and "orders_wf db'" "money_wf db'" and "issuance_kept db db1" "outbox_wf db1"
    "audit_events db1 = audit_events db" "next_seq db1 = next_seq db"
    and au: "record_audit_event a r t k rv db1 = Inr (e, db')"
  shows "platform_wf k db'"
proof -
  have "stamps_wf db'"
    using stamps_wf_kept [OF platform_orders(2) [OF assms(1)]] issuance_kept_trans [OF assms(4) audit_kept [OF au]] by blast
  moreover have "outbox_wf db'" using assms(5) record_audit_event_frame [OF au] outbox_wf_cong [of db' db1] by simp
  moreover have "audit_intact k db1"
    using assms(1,6,7) audit_intact_cong [of db1 db k] by (simp add: platform_wf_def rest_wf_def)
  then have "audit_intact k db'" using record_audit_event_intact [OF _ au] by blast
  ultimately show ?thesis using assms(2,3) by (simp add: platform_wf_def rest_wf_def)
qed

lemma platform_money: "platform_wf k db \<Longrightarrow> money_wf db" "platform_wf k db \<Longrightarrow> outbox_wf db" "platform_wf k db \<Longrightarrow> audit_intact k db"
  by (simp_all add: platform_wf_def rest_wf_def)

lemma submit_order_platform [inv_pres]:
  assumes wf: "platform_wf k db" and sub: "submit_order a cmd cs now k rv mx ik sfx db = Inr (ord', db')"
  shows "platform_wf k db'"
  using sub
proof (rule submit_orderE)
  fix co ta up b oc ord db1 tr db2 db3 e
  assume ins: "insert_order (new_order (reference ''ORD'' now sfx) co a cmd ta b oc now) db = Inr (ord, db1)"
    and tr: "insert_order_transition (new_transition (o_id ord) None O_SUBMITTED (Some (ac_principal_id a))
        ''submitted'' now) db1 = Inr (tr, db2)"
    and rt: "route_order a oc now ord db2 = Inr (ord', db3)"
    and au: "record_audit_event (audit_actor_of a)
        (order_record ''order.submit'' ord' (order_snapshot ord') (ac_request_id a) ik) now k rv db3 = Inr (e, db')"
  have db2: "audit_events db2 = audit_events db" "next_seq db2 = next_seq db" "outbox_messages db2 = outbox_messages db"
    "next_uuid db \<le> next_uuid db2" using ins tr by (auto simp: insert_ok)
  note owf = platform_orders(1) [OF wf] and fr = route_order_frame [OF rt]
  have "issuance_kept db db3"
    using open_order_kept [OF ins tr] route_kept [OF open_order_wf(1,2) [OF owf ins tr] rt] issuance_kept_trans by blast
  moreover have "outbox_wf db3" using platform_money(2) [OF wf] outbox_wf_cong [of db3 db] db2 fr by simp
  ultimately show ?thesis
    using platform_close [OF wf submit_order_wf [OF owf sub] submit_order_money [OF platform_money(1) [OF wf] owf sub] _ _ _ _ au]
      db2 fr by simp
qed

lemma decide_approval_platform [inv_pres]:
  assumes wf: "platform_wf k db" and dec: "decide_approval a cmd now k rv ik sfx db = Inr (ord', db')"
  shows "platform_wf k db'"
  using dec
proof (rule decide_approvalE)
  fix ord row db1 f db2 e
  assume one: "filter (\<lambda>x. o_id x = ap_cmd_order_id cmd) (orders db) = [ord]"
    and st: "o_status ord = O_AWAITING_APPROVAL" "o_submitted_by ord \<noteq> ac_principal_id a"
      "ac_principal_id a \<notin> set (approvers db (o_id ord))"
    and ins: "insert_approval (new_approval (o_id ord) cmd a now) db = Inr (row, db1)"
    and ap: "apply_decision a cmd now sfx ord db1 = Inr (ord', f, db2)"
    and au: "record_audit_event (audit_actor_of a)
         (order_record (''order.approval.'' @ approval_decision_value (ap_cmd_decision cmd)) ord'
            (order_snapshot ord' @ [(''payment_intent_created'', JBool f)]) (ac_request_id a) ik)
         now k rv db2 = Inr (e, db')"
  note owf = platform_orders(1) [OF wf]
  have ord: "ord \<in> set (orders db)" using filter_eq_singletonD [OF one] by simp
  have db1: "orders_wf db1" "ord \<in> set (orders db1)" "issuance_kept db db1" "outbox_wf db1" "audit_events db1 = audit_events db"
    "next_seq db1 = next_seq db"
    using insert_approval_wf [OF owf ord st ins] ins ord platform_money(2) [OF wf] outbox_wf_cong [of db1 db]
    by (auto simp: insert_ok intro: issuance_keptI)
  note k2 = apply_decision_kept [OF db1(1,2) ap] and fr = apply_decision_frame [OF ap]
  have "issuance_kept db db2" using db1(3) k2 issuance_kept_trans by blast
  then show ?thesis
    using platform_close [OF wf decide_approval_wf [OF owf dec] decide_approval_money [OF platform_money(1) [OF wf] owf dec] _ _ _ _ au]
      k2 fr db1 by simp
qed

lemma cancel_order_platform [inv_pres]:
  assumes wf: "platform_wf k db" and can: "cancel_order a oid why now k rv db = Inr (ord', db')"
  shows "platform_wf k db'"
  using can
proof (rule cancel_orderE)
  fix ord db1 e
  assume one: "filter (\<lambda>x. o_id x = oid) (orders db) = [ord]"
    and tr: "transition ord O_CANCELLED (Some a) why now db = Inr (ord', db1)"
    and au: "record_audit_event (audit_actor_of a)
        (order_record ''order.cancel'' ord' (order_snapshot ord') (ac_request_id a) None) now k rv db1 = Inr (e, db')"
  note owf = platform_orders(1) [OF wf] and fr = transition_frame [OF tr]
  have ord: "ord \<in> set (orders db)" using filter_eq_singletonD [OF one] by simp
  have "issuance_kept db db1" using transition_kept [OF owf ord tr] by simp
  moreover have "outbox_wf db1" using platform_money(2) [OF wf] outbox_wf_cong [of db1 db] fr by simp
  ultimately show ?thesis
    using platform_close [OF wf cancel_order_wf [OF owf can] cancel_order_money [OF platform_money(1) [OF wf] owf can] _ _ _ _ au] fr
    by simp
qed

lemma settle_kept:
  assumes wf: "orders_wf db" and st: "settle i rc now db = Inr (oid, db')"
  shows "issuance_kept db db'"
  using st
proof (rule settleE)
  fix ord ord' db1 j db2 r
  assume one: "filter (\<lambda>x. o_id x = pi_order_id i) (orders db) = [ord]" "o_status ord = O_AWAITING_PAYMENT"
    and mv: "move_order ord O_PAID None (''settlement '' @ rc_external_reference rc) now db = Inr (ord', db1)"
    and pj: "post_journal (''settlement:'' @ rc_external_reference rc) ''duty_settlement'' (settlement_postings ord) now
       (Some (o_id ord)) (Some (rc_id rc)) None
       (save_intent (i\<lparr>pi_status := P_SETTLED, pi_settled_at := Some now\<rparr>) db1) = Inr (j, db2)"
    and eq: "enqueue ''order'' (o_id ord) ''order.issue_stamps'' (''order.issue_stamps:'' @ uuid_str (o_id ord))
         [(''order_id'', JStr (uuid_str (o_id ord))), (''quantity'', JInt (o_quantity ord))] now db2 = Inr (r, db')"
  have ord: "ord \<in> set (orders db)" "\<not> paid ord" using filter_eq_singletonD [OF one(1)] one(2) by (simp_all add: paid_def)
  have "issuance_kept db db1" using mv by (intro move_kept [OF wf ord, of ord']) (auto simp: move_order_ok)
  moreover have "issuance_kept db1 db2" using post_journal_ok [OF pj] by (intro issuance_keptI) (simp_all add: save_intent_def)
  ultimately show ?thesis using enqueue_kept [OF eq] issuance_kept_trans by blast
qed

lemma quarantine_kept: "quarantine adv i rc now db = Inr (oid, db') \<Longrightarrow> issuance_kept db db'"
  by (erule quarantineE) (auto dest!: post_journal_ok intro: issuance_keptI)

lemma ingest_remittance_platform [inv_pres]:
  assumes wf: "platform_wf k db" and ing: "ingest_remittance adv now k rv db = Inr (res, db')"
  shows "platform_wf k db'"
proof -
  have "issuance_kept db db'" using ing
  proof (cases rule: ingest_remittanceE)
    case replay
    then show ?thesis by simp
  next
    case (fresh intent h v rc db1 oid db2 e)
    have "orders_wf db1" using platform_orders(1) [OF wf] fresh(7) by (auto intro: orders_wf_cong)
    then have "issuance_kept db1 db2"
      using fresh(8) by (auto simp: apply_receipt_def split: option.splits if_splits intro: settle_kept quarantine_kept)
    moreover have "issuance_kept db db1" using fresh(7) by (intro issuance_keptI) simp_all
    ultimately show ?thesis using audit_kept [OF fresh(9)] issuance_kept_trans by blast
  qed
  then show ?thesis
    using wf stamps_wf_kept ingest_remittance_wf [OF platform_money(1) [OF wf] platform_orders(1) [OF wf] platform_money(2,3) [OF wf] ing]
    by (auto simp: platform_wf_def rest_wf_def)
qed

end
