(* ===== verification/Tigerbeetle_Ledger.thy ===== *)
theory Tigerbeetle_Ledger
  imports External_Settlement Platform
begin

text \<open>
  \<^verbatim>\<open>src/src/taxstamp/tigerbeetle.py\<close> and \<^verbatim>\<open>src/src/taxstamp/services/tigerbeetle_ledger.py\<close>: the durable intents to
  post a settled payment to the external TigerBeetle ledger, and their submission, which looks the transfer up before
  it creates it.

  The client of the external ledger is a protocol without an implementation in the repository.  It is a parameter of the
  model: two functions on a state of the external system, of any type, each of which may fail and may have had its effect
  nevertheless.
\<close>

section \<open>Model\<close>

datatype create_result = CREATED | EXISTS | REJECTED

record transfer =
  tr_id :: string
  tr_debit_account_id :: string
  tr_credit_account_id :: string
  tr_ledger_code :: int
  tr_transfer_code :: int
  tr_transfer_flags :: int
  tr_amount_minor :: int
  tr_timestamp :: int

record 'x tb_client =
  lookup_transfer :: "string \<Rightarrow> 'x \<Rightarrow> transfer option res \<times> 'x"
  create_transfer :: "transfer \<Rightarrow> 'x \<Rightarrow> create_result res \<times> 'x"

definition TB_RELAY :: audit_actor where
  "TB_RELAY = \<lparr>aa_principal_id = None, aa_subject = ''system:tigerbeetle-relay'', aa_role = ''operator'', aa_company_id = None\<rparr>"

record ledger_intent_request =
  lr_payment_intent_id :: uuid
  lr_transfer_id :: string
  lr_debit_account_id :: string
  lr_credit_account_id :: string
  lr_ledger_code :: int
  lr_transfer_code :: int
  lr_transfer_flags :: int
  lr_amount_minor :: int
  lr_currency :: string

definition normalise_id :: "string \<Rightarrow> string res" where
  "normalise_id v =
     (let normalised = lower v
      in if length normalised \<noteq> 32 \<or> list_ex (\<lambda>c. c \<notin> set ''0123456789abcdef'') normalised
         then Inl ValidationFailed else Inr normalised)"

definition validate_request :: "ledger_intent_request \<Rightarrow> ledger_intent_request res" where
  "validate_request r =
     bind_res (normalise_id (lr_transfer_id r)) (\<lambda>transfer_id.
     bind_res (normalise_id (lr_debit_account_id r)) (\<lambda>debit.
     bind_res (normalise_id (lr_credit_account_id r)) (\<lambda>credit.
     let cur = upper (lr_currency r) in
     if debit = credit then Inl ValidationFailed
     else if lr_amount_minor r \<le> 0 then Inl ValidationFailed
     else if lr_ledger_code r \<le> 0 \<or> lr_ledger_code r > 4294967295 then Inl ValidationFailed
     else if lr_transfer_code r < 0 \<or> lr_transfer_code r > 65535 then Inl ValidationFailed
     else if lr_transfer_flags r < 0 then Inl ValidationFailed
     else if length cur \<noteq> 3 \<or> \<not> isalpha cur then Inl ValidationFailed
     else Inr (r\<lparr>lr_transfer_id := transfer_id, lr_debit_account_id := debit, lr_credit_account_id := credit, lr_currency := cur\<rparr>))))"

definition intent_payload :: "ledger_intent_request \<Rightarrow> json_object" where
  "intent_payload r =
     [(''amount_minor'', JInt (lr_amount_minor r)), (''credit_account_id'', JStr (lr_credit_account_id r)),
      (''currency'', JStr (lr_currency r)), (''debit_account_id'', JStr (lr_debit_account_id r)),
      (''ledger_code'', JInt (lr_ledger_code r)), (''payment_intent_id'', JStr (uuid_str (lr_payment_intent_id r))),
      (''tigerbeetle_transfer_id'', JStr (lr_transfer_id r)), (''transfer_code'', JInt (lr_transfer_code r)),
      (''transfer_flags'', JInt (lr_transfer_flags r))]"

text \<open>The rows with the payment intent or the transfer identifier of a request.\<close>

definition intents_for :: "ledger_intent_request \<Rightarrow> db \<Rightarrow> tb_ledger_intent list" where
  "intents_for r db =
     filter (\<lambda>t. tb_payment_intent_id t = lr_payment_intent_id r \<or> tb_transfer_id t = lr_transfer_id r) (tb_ledger_intents db)"

definition new_tb_intent :: "ledger_intent_request \<Rightarrow> string \<Rightarrow> instant \<Rightarrow> uuid \<Rightarrow> tb_ledger_intent" where
  "new_tb_intent r h created i =
     \<lparr>tb_id = i, tb_payment_intent_id = lr_payment_intent_id r, tb_transfer_id = lr_transfer_id r,
      tb_debit_account_id = lr_debit_account_id r, tb_credit_account_id = lr_credit_account_id r,
      tb_ledger_code = lr_ledger_code r, tb_transfer_code = lr_transfer_code r, tb_transfer_flags = lr_transfer_flags r,
      tb_amount_minor = lr_amount_minor r, tb_currency = lr_currency r, tb_payload_hash = h, tb_state = TB_READY,
      tb_attempt_count = 0, tb_last_error = None, tb_external_timestamp = None, tb_external_confirmed_at = None,
      tb_posted_at = None, tb_created_at = created, tb_updated_at = created\<rparr>"

definition same_material :: "string \<Rightarrow> tb_ledger_intent \<Rightarrow> db \<Rightarrow> (tb_ledger_intent \<times> db) res" where
  "same_material h existing db = (if tb_payload_hash existing = h then Inr (existing, db) else Inl Conflict)"

definition intent_created_record :: "tb_ledger_intent \<Rightarrow> audit_record" where
  "intent_created_record t =
     \<lparr>ar_action = ''tigerbeetle.intent.created'', ar_target_type = ''tigerbeetle_ledger_intent'',
      ar_target_id = uuid_str (tb_id t), ar_outcome = ''success'', ar_before_state = None,
      ar_after_state = Some [(''payload_hash'', JStr (tb_payload_hash t)), (''state'', JStr (tb_intent_state_value (tb_state t)))],
      ar_request_id = None, ar_idempotency_key = None\<rparr>"

text \<open>The end of \<^verbatim>\<open>create_ledger_intent\<close>, after the savepoint is committed.\<close>

definition announce_intent ::
  "tb_ledger_intent \<Rightarrow> instant \<Rightarrow> string \<Rightarrow> string \<Rightarrow> audit_actor \<Rightarrow> db \<Rightarrow> (tb_ledger_intent \<times> db) res" where
  "announce_intent t now audit_secret revision actor db =
     bind_res (enqueue ''tigerbeetle_ledger_intent'' (tb_id t) ''tigerbeetle.transfer_requested''
         (''tigerbeetle-transfer:'' @ tb_transfer_id t) [(''intent_id'', JStr (uuid_str (tb_id t)))] now db) (\<lambda>(r, db).
     bind_res (record_audit_event actor (intent_created_record t) now audit_secret revision db) (\<lambda>(e, db).
     Inr (t, db)))"

text \<open>
  The insertion in the savepoint.  On an \<open>IntegrityError\<close> the row of the other writer is read again, with
  \<^verbatim>\<open>scalar_one\<close>.
\<close>

definition insert_intent ::
  "ledger_intent_request \<Rightarrow> string \<Rightarrow> instant \<Rightarrow> string \<Rightarrow> string \<Rightarrow> audit_actor \<Rightarrow> db \<Rightarrow> (tb_ledger_intent \<times> db) res" where
  "insert_intent r h now audit_secret revision actor db =
     (case insert_tb_ledger_intent (new_tb_intent r h (db_now db)) db of
        Inr (t, db') \<Rightarrow> announce_intent t now audit_secret revision actor db'
      | Inl e \<Rightarrow>
          if e = IntegrityError then bind_res (scalar_one (intents_for r db)) (\<lambda>t. same_material h t db) else Inl e)"

definition create_ledger_intent ::
  "ledger_intent_request \<Rightarrow> instant \<Rightarrow> string \<Rightarrow> string \<Rightarrow> audit_actor \<Rightarrow> db \<Rightarrow> (tb_ledger_intent \<times> db) res" where
  "create_ledger_intent request now audit_secret revision actor db =
     bind_res (validate_request request) (\<lambda>checked.
     bind_res (scalar_one_or_none (filter (\<lambda>p. pi_id p = lr_payment_intent_id checked) (payment_intents db))) (\<lambda>payment.
     case payment of None \<Rightarrow> Inl ValidationFailed
     | Some p \<Rightarrow>
         if pi_status p \<noteq> P_SETTLED then Inl IllegalState
         else if pi_amount_minor p \<noteq> lr_amount_minor checked \<or> pi_currency p \<noteq> lr_currency checked then Inl ValidationFailed
         else bind_res (canonical_hash (intent_payload checked)) (\<lambda>h.
              bind_res (scalar_one_or_none (intents_for checked db)) (\<lambda>existing.
              case existing of Some t \<Rightarrow> same_material h t db
              | None \<Rightarrow> insert_intent checked h now audit_secret revision actor db))))"

definition transfer_from_intent :: "tb_ledger_intent \<Rightarrow> transfer" where
  "transfer_from_intent t =
     \<lparr>tr_id = tb_transfer_id t, tr_debit_account_id = tb_debit_account_id t, tr_credit_account_id = tb_credit_account_id t,
      tr_ledger_code = tb_ledger_code t, tr_transfer_code = tb_transfer_code t, tr_transfer_flags = tb_transfer_flags t,
      tr_amount_minor = tb_amount_minor t, tr_timestamp = 0\<rparr>"

definition matches :: "tb_ledger_intent \<Rightarrow> transfer \<Rightarrow> bool" where
  "matches t x =
     (tr_id x = tb_transfer_id t \<and> tr_debit_account_id x = tb_debit_account_id t \<and>
      tr_credit_account_id x = tb_credit_account_id t \<and> tr_ledger_code x = tb_ledger_code t \<and>
      tr_transfer_code x = tb_transfer_code t \<and> tr_transfer_flags x = tb_transfer_flags t \<and>
      tr_amount_minor x = tb_amount_minor t)"

definition tb_transition :: "tb_ledger_intent \<Rightarrow> tb_intent_state \<Rightarrow> tb_ledger_intent res" where
  "tb_transition t target =
     (case assert_tigerbeetle_ledger_intent_transition (tb_state t) target of
        Inl e \<Rightarrow> Inl ValidationFailed | Inr u \<Rightarrow> Inr (t\<lparr>tb_state := target\<rparr>))"

definition tb_state_record :: "tb_ledger_intent \<Rightarrow> string \<Rightarrow> json_object \<Rightarrow> audit_record" where
  "tb_state_record t action detail =
     \<lparr>ar_action = action, ar_target_type = ''tigerbeetle_ledger_intent'', ar_target_id = uuid_str (tb_id t),
      ar_outcome = (if tb_state t \<noteq> TB_QUARANTINED then ''success'' else ''failure''), ar_before_state = None,
      ar_after_state = Some ((''state'', JStr (tb_intent_state_value (tb_state t))) # detail),
      ar_request_id = None, ar_idempotency_key = None\<rparr>"

text \<open>The \<^verbatim>\<open>UPDATE\<close> of the columns that the relay changes.\<close>

definition save_tb :: "tb_ledger_intent \<Rightarrow> db \<Rightarrow> db res" where
  "save_tb t db =
     insert_row (int4 (tb_attempt_count t) \<and> opt_col text_col (tb_last_error t) \<and> opt_col bigint (tb_external_timestamp t))
       (0 \<le> tb_attempt_count t)
       (db\<lparr>tb_ledger_intents := update_where (\<lambda>x. tb_id x = tb_id t) (\<lambda>_. t) (tb_ledger_intents db)\<rparr>)"

definition record_state_audit ::
  "tb_ledger_intent \<Rightarrow> string \<Rightarrow> instant \<Rightarrow> string \<Rightarrow> string \<Rightarrow> json_object \<Rightarrow> db \<Rightarrow> db res" where
  "record_state_audit t action now audit_secret revision detail db =
     bind_res (save_tb t db) (\<lambda>db.
     bind_res (record_audit_event TB_RELAY (tb_state_record t action detail) now audit_secret revision db) (\<lambda>(e, db). Inr db))"

definition tb_row :: "uuid \<Rightarrow> db \<Rightarrow> tb_ledger_intent res" where
  "tb_row i db = scalar_one (filter (\<lambda>t. tb_id t = i) (tb_ledger_intents db))"

definition mark_submission_uncertain :: "uuid \<Rightarrow> instant \<Rightarrow> db \<Rightarrow> (tb_ledger_intent option \<times> db) res" where
  "mark_submission_uncertain i now db =
     bind_res (tb_row i db) (\<lambda>t.
     if tb_state t \<in> {TB_POSTED, TB_REJECTED, TB_QUARANTINED} then Inr (None, db)
     else bind_res (if tb_state t = TB_READY then tb_transition t TB_SUBMISSION_UNCERTAIN else Inr t) (\<lambda>t.
          let t = t\<lparr>tb_attempt_count := tb_attempt_count t + 1, tb_last_error := None, tb_updated_at := now\<rparr> in
          bind_res (save_tb t db) (\<lambda>db. Inr (Some t, db))))"

text \<open>The argument \<open>clock\<close> gives the readings of the clock in their order.\<close>

definition confirm_or_quarantine ::
  "uuid \<Rightarrow> transfer \<Rightarrow> (nat \<Rightarrow> instant) \<Rightarrow> string \<Rightarrow> string \<Rightarrow> db \<Rightarrow> (bool \<times> db) res" where
  "confirm_or_quarantine i x clock audit_secret revision db =
     bind_res (tb_row i db) (\<lambda>t.
     if \<not> matches t x then
       bind_res (tb_transition t TB_QUARANTINED) (\<lambda>t.
       let t = t\<lparr>tb_last_error := Some ''external transfer differs from immutable local intent'', tb_updated_at := clock 0\<rparr> in
       bind_res (record_state_audit t ''tigerbeetle.intent.quarantined'' (clock 1) audit_secret revision
         [(''external_timestamp'', JInt (tr_timestamp x))] db) (\<lambda>db. Inr (False, db)))
     else
       bind_res (if tb_state t = TB_SUBMISSION_UNCERTAIN then tb_transition t TB_EXTERNAL_CONFIRMED else Inr t) (\<lambda>t.
       let t = t\<lparr>tb_external_timestamp := Some (tr_timestamp x), tb_external_confirmed_at := Some (clock 0), tb_updated_at := clock 1\<rparr> in
       bind_res (record_state_audit t ''tigerbeetle.intent.external_confirmed'' (clock 2) audit_secret revision
         [(''external_timestamp'', JInt (tr_timestamp x))] db) (\<lambda>db. Inr (True, db))))"

definition finalise_posted :: "uuid \<Rightarrow> (nat \<Rightarrow> instant) \<Rightarrow> string \<Rightarrow> string \<Rightarrow> db \<Rightarrow> db res" where
  "finalise_posted i clock audit_secret revision db =
     bind_res (tb_row i db) (\<lambda>t.
     if tb_state t = TB_POSTED then Inr db
     else bind_res (tb_transition t TB_POSTED) (\<lambda>t.
          let t = t\<lparr>tb_posted_at := Some (clock 0), tb_updated_at := clock 1\<rparr> in
          record_state_audit t ''tigerbeetle.intent.posted'' (clock 2) audit_secret revision
            [(''external_timestamp'', JInt (case tb_external_timestamp t of None \<Rightarrow> 0 | Some x \<Rightarrow> x))] db))"

definition reject_intent :: "uuid \<Rightarrow> string \<Rightarrow> (nat \<Rightarrow> instant) \<Rightarrow> string \<Rightarrow> string \<Rightarrow> db \<Rightarrow> db res" where
  "reject_intent i why clock audit_secret revision db =
     bind_res (tb_row i db) (\<lambda>t.
     bind_res (tb_transition t TB_REJECTED) (\<lambda>t.
     let t = t\<lparr>tb_last_error := Some (take 2000 why), tb_updated_at := clock 0\<rparr> in
     record_state_audit t ''tigerbeetle.intent.rejected'' (clock 1) audit_secret revision [(''reason'', JStr (take 500 why))] db))"

text \<open>
  The submission.  Its transactions commit one by one and its calls of the client take effect at once, so the state is
  returned with the result, also when it raises.
\<close>

definition settle_observed ::
  "uuid \<Rightarrow> transfer \<Rightarrow> (nat \<Rightarrow> instant) \<Rightarrow> string \<Rightarrow> string \<Rightarrow> db \<Rightarrow> string res \<times> db" where
  "settle_observed i observed clock audit_secret revision db =
     (case confirm_or_quarantine i observed clock audit_secret revision db of
        Inl e \<Rightarrow> (Inl e, db)
      | Inr (False, db) \<Rightarrow> (Inr ''quarantined'', db)
      | Inr (True, db) \<Rightarrow>
          (case finalise_posted i (\<lambda>n. clock (n + 3)) audit_secret revision db of
             Inl e \<Rightarrow> (Inl e, db) | Inr db \<Rightarrow> (Inr ''posted'', db)))"

definition create_and_confirm ::
  "'x tb_client \<Rightarrow> uuid \<Rightarrow> transfer \<Rightarrow> (nat \<Rightarrow> instant) \<Rightarrow> string \<Rightarrow> string \<Rightarrow> db \<times> 'x \<Rightarrow> string res \<times> db \<times> 'x" where
  "create_and_confirm client i expected clock audit_secret revision = (\<lambda>(db, x).
     case create_transfer client expected x of
       (Inl e, x) \<Rightarrow> (Inl e, db, x)
     | (Inr result, x) \<Rightarrow>
         if result = REJECTED then
           (case reject_intent i ''TigerBeetle rejected the transfer'' clock audit_secret revision db of
              Inl e \<Rightarrow> (Inl e, db, x) | Inr db \<Rightarrow> (Inr ''rejected'', db, x))
         else
           (case lookup_transfer client (tr_id expected) x of
              (Inl e, x) \<Rightarrow> (Inl e, db, x)
            | (Inr None, x) \<Rightarrow> (Inl DependencyUnavailable, db, x)
            | (Inr (Some observed), x) \<Rightarrow>
                (case settle_observed i observed clock audit_secret revision db of (r, db) \<Rightarrow> (r, db, x))))"

definition submit_intent_lookup_before_retry ::
  "'x tb_client option \<Rightarrow> uuid \<Rightarrow> (nat \<Rightarrow> instant) \<Rightarrow> string \<Rightarrow> string \<Rightarrow> db \<times> 'x \<Rightarrow> string res \<times> db \<times> 'x" where
  "submit_intent_lookup_before_retry client i clock audit_secret revision = (\<lambda>(db, x).
     case client of
       None \<Rightarrow> (Inl CapabilityNotConfigured, db, x)
     | Some client \<Rightarrow>
         (case mark_submission_uncertain i (clock 0) db of
            Inl e \<Rightarrow> (Inl e, db, x)
          | Inr (None, db) \<Rightarrow> (Inr ''terminal'', db, x)
          | Inr (Some t, db) \<Rightarrow>
              (case lookup_transfer client (tr_id (transfer_from_intent t)) x of
                 (Inl e, x) \<Rightarrow> (Inl e, db, x)
               | (Inr None, x) \<Rightarrow>
                   create_and_confirm client i (transfer_from_intent t) (\<lambda>n. clock (n + 1)) audit_secret revision (db, x)
               | (Inr (Some observed), x) \<Rightarrow>
                   (case settle_observed i observed (\<lambda>n. clock (n + 1)) audit_secret revision db of (r, db) \<Rightarrow> (r, db, x)))))"

section \<open>What the external ledger is relied on for\<close>

text \<open>
  \<open>view x\<close> is the content of the external ledger in the state \<open>x\<close>.  A lookup that answers tells the truth and changes
  nothing.  A creation adds at most the given transfer, with a timestamp of its own, and only when its identifier is free:
  transfers are immutable.  A creation that fails may have had its effect or not; a rejected one has none.
\<close>

definition transfers_by_id :: "'x tb_client \<Rightarrow> ('x \<Rightarrow> string \<Rightarrow> transfer option) \<Rightarrow> bool" where
  "transfers_by_id client view =
     ((\<forall>i x r x'. lookup_transfer client i x = (r, x') \<longrightarrow> view x' = view x \<and> (\<forall>a. r = Inr a \<longrightarrow> a = view x i)) \<and>
      (\<forall>t x r x'. create_transfer client t x = (r, x') \<longrightarrow>
         (view x' = view x \<or> (view x (tr_id t) = None \<and> (\<exists>ts. view x' = (view x)(tr_id t \<mapsto> t\<lparr>tr_timestamp := ts\<rparr>)))) \<and>
         (r = Inr REJECTED \<longrightarrow> view x' = view x)))"

lemma lookup_truthful:
  "transfers_by_id client view \<Longrightarrow> lookup_transfer client i x = (r, x') \<Longrightarrow> view x' = view x \<and> (\<forall>a. r = Inr a \<longrightarrow> view x i = a)"
  unfolding transfers_by_id_def by blast

lemma create_adds:
  "transfers_by_id client view \<Longrightarrow> create_transfer client t x = (r, x') \<Longrightarrow>
    (view x' = view x \<or> (\<exists>ts. view x' = (view x)(tr_id t \<mapsto> t\<lparr>tr_timestamp := ts\<rparr>))) \<and> (r = Inr REJECTED \<longrightarrow> view x' = view x)"
  unfolding transfers_by_id_def by blast

section \<open>The abstract ledger\<close>

text \<open>
  The specification that a submission implements.  An intent is a transfer to be posted and its phase; the external ledger
  is a partial map.  In one step the transfer of an open intent is created where its identifier is free, or an open intent
  is closed according to what the ledger holds under its identifier.
\<close>

datatype phase = Open | Posted | Rejected | Quarantined

fun phase_of :: "tb_intent_state \<Rightarrow> phase" where
  "phase_of TB_POSTED = Posted"
| "phase_of TB_REJECTED = Rejected"
| "phase_of TB_QUARANTINED = Quarantined"
| "phase_of _ = Open"

definition material :: "transfer \<Rightarrow> transfer" where
  "material t = t\<lparr>tr_timestamp := 0\<rparr>"

type_synonym intents = "uuid \<Rightarrow> (transfer \<times> phase) option"
type_synonym external = "string \<Rightarrow> transfer option"

inductive spec_step :: "intents \<times> external \<Rightarrow> intents \<times> external \<Rightarrow> bool" where
  create: "is i = Some (t, Open) \<Longrightarrow> led (tr_id t) = None \<Longrightarrow> spec_step (is, led) (is, led(tr_id t \<mapsto> t\<lparr>tr_timestamp := ts\<rparr>))"
| post: "is i = Some (t, Open) \<Longrightarrow> led (tr_id t) = Some t' \<Longrightarrow> material t' = t \<Longrightarrow> spec_step (is, led) (is(i \<mapsto> (t, Posted)), led)"
| reject: "is i = Some (t, Open) \<Longrightarrow> led (tr_id t) = None \<Longrightarrow> spec_step (is, led) (is(i \<mapsto> (t, Rejected)), led)"
| quarantine: "is i = Some (t, Open) \<Longrightarrow> led (tr_id t) = Some t' \<Longrightarrow> material t' \<noteq> t \<Longrightarrow> spec_step (is, led) (is(i \<mapsto> (t, Quarantined)), led)"

inductive_cases spec_stepE: "spec_step s s'"

text \<open>The abstraction: the rows that their key identifies, and the view of the external state.\<close>

definition tb_abs :: "db \<Rightarrow> intents" where
  "tb_abs db i = (case tb_row i db of Inr t \<Rightarrow> Some (transfer_from_intent t, phase_of (tb_state t)) | Inl e \<Rightarrow> None)"

subsection \<open>What the specification guarantees\<close>

text \<open>
  Transfers are final, the transfer of an intent never changes, and a closed intent stays closed.  A posted intent is
  backed by its transfer, a quarantined one met another transfer, and every transfer in the ledger that was not there
  before comes from an intent.
\<close>

definition backed :: "intents \<times> external \<Rightarrow> bool" where
  "backed = (\<lambda>(is, led). \<forall>i t. is i = Some (t, Posted) \<longrightarrow> (\<exists>x. led (tr_id t) = Some x \<and> material x = t))"

definition evolved :: "intents \<times> external \<Rightarrow> intents \<times> external \<Rightarrow> bool" where
  "evolved = (\<lambda>(is, led) (is', led'). led \<subseteq>\<^sub>m led' \<and>
     (\<forall>i t ph. is i = Some (t, ph) \<longrightarrow> (\<exists>ph'. is' i = Some (t, ph') \<and> (ph \<noteq> Open \<longrightarrow> ph' = ph))) \<and>
     (\<forall>id x. led' id = Some x \<and> led id = None \<longrightarrow> (\<exists>i t ph. is' i = Some (t, ph) \<and> tr_id t = id \<and> material x = material t)))"

lemma evolved_refl [simp]: "evolved s s"
  by (cases s) (auto simp: evolved_def)

lemma evolved_trans:
  assumes "evolved s1 s2" and "evolved s2 s3"
  shows "evolved s1 s3"
proof (cases s1; cases s2; cases s3)
  fix i1 l1 i2 l2 i3 l3 assume s: "s1 = (i1, l1)" "s2 = (i2, l2)" "s3 = (i3, l3)"
  have a: "l1 \<subseteq>\<^sub>m l2" "l2 \<subseteq>\<^sub>m l3"
    and c: "i1 i = Some (t, ph) \<Longrightarrow> \<exists>ph'. i2 i = Some (t, ph') \<and> (ph \<noteq> Open \<longrightarrow> ph' = ph)"
      "i2 i = Some (t, ph) \<Longrightarrow> \<exists>ph'. i3 i = Some (t, ph') \<and> (ph \<noteq> Open \<longrightarrow> ph' = ph)"
    and n: "l2 k = Some x \<Longrightarrow> l1 k = None \<Longrightarrow> \<exists>i t ph. i2 i = Some (t, ph) \<and> tr_id t = k \<and> material x = material t"
      "l3 k = Some x \<Longrightarrow> l2 k = None \<Longrightarrow> \<exists>i t ph. i3 i = Some (t, ph) \<and> tr_id t = k \<and> material x = material t"
    for i t ph k x using assms unfolding s evolved_def prod.case by blast+
  have "\<exists>i t ph. i3 i = Some (t, ph) \<and> tr_id t = k \<and> material x = material t" if x: "l3 k = Some x" "l1 k = None" for k x
  proof (cases "l2 k")
    case None
    with n(2) [OF x(1)] show ?thesis by blast
  next
    case (Some y)
    then have "y = x" using a(2) x(1) by (auto simp: map_le_def dom_def)
    with n(1) Some x(2) c(2) show ?thesis by blast
  qed
  moreover have "\<exists>ph'. i3 i = Some (t, ph') \<and> (ph \<noteq> Open \<longrightarrow> ph' = ph)" if "i1 i = Some (t, ph)" for i t ph
    using c that by blast
  moreover have "l1 \<subseteq>\<^sub>m l3" using a map_le_trans by blast
  ultimately show ?thesis unfolding s evolved_def prod.case by blast
qed

lemma spec_step_evolved: "spec_step s s' \<Longrightarrow> evolved s s' \<and> (backed s \<longrightarrow> backed s')"
proof (induction rule: spec_step.induct)
  case (create "is" i t led ts)
  then have "evolved (is, led) (is, led(tr_id t \<mapsto> t\<lparr>tr_timestamp := ts\<rparr>))"
    by (auto simp: evolved_def map_le_def material_def split: if_splits)
  then show ?case using create by (auto simp: backed_def) fastforce
qed (auto simp: evolved_def backed_def split: if_splits)

lemma spec_steps_evolved: "spec_step\<^sup>*\<^sup>* s s' \<Longrightarrow> evolved s s' \<and> (backed s \<longrightarrow> backed s')"
proof (induction rule: rtranclp_induct)
  case (step y z)
  with spec_step_evolved [OF step(2)] evolved_trans show ?case by blast
qed simp

section \<open>The submission implements the specification\<close>

lemma tb_row_ok: "tb_row i db = Inr t \<longleftrightarrow> filter (\<lambda>x. tb_id x = i) (tb_ledger_intents db) = [t]"
  by (auto simp: tb_row_def scalar_one_def split: list.splits)

lemma tb_rowD: "tb_row i db = Inr t \<Longrightarrow> tb_id t = i \<and> t \<in> set (tb_ledger_intents db)"
  using filter_eq_singletonD [of "\<lambda>x. tb_id x = i" "tb_ledger_intents db" t] by (simp add: tb_row_ok)

lemma tb_abs_row: "tb_row i db = Inr t \<Longrightarrow> tb_abs db i = Some (transfer_from_intent t, phase_of (tb_state t))"
  by (simp add: tb_abs_def)

lemma tb_abs_cong: "tb_ledger_intents db' = tb_ledger_intents db \<Longrightarrow> tb_abs db' = tb_abs db"
  by (simp add: tb_abs_def tb_row_def fun_eq_iff)

lemma save_tb_ok:
  "save_tb t db = Inr db' \<Longrightarrow> db' = db\<lparr>tb_ledger_intents := update_where (\<lambda>x. tb_id x = tb_id t) (\<lambda>_. t) (tb_ledger_intents db)\<rparr>"
  by (simp add: save_tb_def insert_row_ok)

lemma save_tb_row:
  assumes row: "tb_row i db = Inr t0" and "tb_id t = i" and sv: "save_tb t db = Inr db'"
  shows "tb_row j db' = (if j = i then Inr t else tb_row j db)"
proof (cases "j = i")
  case True
  have "filter (\<lambda>x. tb_id x = i) (tb_ledger_intents db') = map (\<lambda>_. t) (filter (\<lambda>x. tb_id x = i) (tb_ledger_intents db))"
    using assms(2) by (simp add: save_tb_ok [OF sv] update_where_def filter_map o_def if_distrib cong: if_cong)
  with True row show ?thesis by (simp add: tb_row_ok tb_row_def)
next
  case False
  then have "filter (\<lambda>x. tb_id x = j) (tb_ledger_intents db') = filter (\<lambda>x. tb_id x = j) (tb_ledger_intents db)"
    using assms(2) by (simp add: save_tb_ok [OF sv]) (rule filter_update_where_other, auto)
  with False show ?thesis by (simp add: tb_row_def)
qed

lemma record_state_audit_row:
  assumes "tb_row i db = Inr t0" and "tb_id t = i" and "record_state_audit t a now k rv d db = Inr db'"
  shows "tb_row j db' = (if j = i then Inr t else tb_row j db)"
proof -
  obtain db1 e where sv: "save_tb t db = Inr db1" and au: "record_audit_event TB_RELAY (tb_state_record t a d) now k rv db1 = Inr (e, db')"
    using assms(3) by (auto simp: record_state_audit_def)
  have "tb_row j db' = tb_row j db1" using record_audit_event_db [OF au] by (simp add: tb_row_def)
  with save_tb_row [OF assms(1,2) sv] show ?thesis by simp
qed

lemma tb_transition_ok:
  "tb_transition t s = Inr t' \<longleftrightarrow> assert_tigerbeetle_ledger_intent_transition (tb_state t) s = Inr () \<and> t' = t\<lparr>tb_state := s\<rparr>"
  by (auto simp: tb_transition_def split: sum.splits)

lemma transfer_update [simp]:
  "transfer_from_intent (t\<lparr>tb_state := s\<rparr>) = transfer_from_intent t"
  "transfer_from_intent (t\<lparr>tb_attempt_count := n\<rparr>) = transfer_from_intent t"
  "transfer_from_intent (t\<lparr>tb_last_error := er\<rparr>) = transfer_from_intent t"
  "transfer_from_intent (t\<lparr>tb_updated_at := u\<rparr>) = transfer_from_intent t"
  "transfer_from_intent (t\<lparr>tb_posted_at := p\<rparr>) = transfer_from_intent t"
  "transfer_from_intent (t\<lparr>tb_external_timestamp := et\<rparr>) = transfer_from_intent t"
  "transfer_from_intent (t\<lparr>tb_external_confirmed_at := ec\<rparr>) = transfer_from_intent t"
  by (simp_all add: transfer_from_intent_def)

lemma tb_state_idem: "tb_state t = s \<Longrightarrow> t\<lparr>tb_state := s\<rparr> = t"
  by auto

lemma transfer_ts [simp]: "tr_timestamp (transfer_from_intent t) = 0" "tr_id (transfer_from_intent t) = tb_transfer_id t"
  by (simp_all add: transfer_from_intent_def)

lemma matches_material: "matches t x \<longleftrightarrow> material x = transfer_from_intent t"
  by (cases x) (auto simp: matches_def material_def transfer_from_intent_def)

lemma material_transfer [simp]: "material (transfer_from_intent t) = transfer_from_intent t"
  by (simp add: material_def transfer_from_intent_def)

lemma fun_upd_row:
  "tb_row i db = Inr t0 \<Longrightarrow> (\<And>j. tb_row j db' = (if j = i then Inr t else tb_row j db)) \<Longrightarrow>
    tb_abs db' = (tb_abs db)(i \<mapsto> (transfer_from_intent t, phase_of (tb_state t)))"
  by (auto simp: tb_abs_def)

text \<open>The transactions of a submission, each on the row of the intent.\<close>

lemma mark_ok:
  assumes "mark_submission_uncertain i now db = Inr (r, db')"
  shows "case r of
      None \<Rightarrow> db' = db \<and> (\<exists>t. tb_row i db = Inr t \<and> phase_of (tb_state t) \<noteq> Open)
    | Some t \<Rightarrow> tb_row i db' = Inr t \<and> tb_state t \<in> {TB_SUBMISSION_UNCERTAIN, TB_EXTERNAL_CONFIRMED} \<and> tb_abs db' = tb_abs db"
proof -
  obtain t where t: "tb_row i db = Inr t" using assms by (auto simp: mark_submission_uncertain_def)
  show ?thesis
  proof (cases "tb_state t \<in> {TB_POSTED, TB_REJECTED, TB_QUARANTINED}")
    case True
    with assms t show ?thesis by (auto simp: mark_submission_uncertain_def)
  next
    case False
    then obtain t1 where t1: "(if tb_state t = TB_READY then tb_transition t TB_SUBMISSION_UNCERTAIN else Inr t) = Inr t1"
      and sv: "save_tb (t1\<lparr>tb_attempt_count := tb_attempt_count t1 + 1, tb_last_error := None, tb_updated_at := now\<rparr>) db = Inr db'"
      and r: "r = Some (t1\<lparr>tb_attempt_count := tb_attempt_count t1 + 1, tb_last_error := None, tb_updated_at := now\<rparr>)"
      using assms t by (auto simp: mark_submission_uncertain_def Let_def)
    have st: "tb_state t1 \<in> {TB_SUBMISSION_UNCERTAIN, TB_EXTERNAL_CONFIRMED}" "tb_id t1 = i" "transfer_from_intent t1 = transfer_from_intent t"
      using t1 False tb_rowD [OF t] by (cases "tb_state t"; auto simp: tb_transition_ok)+
    note row = save_tb_row [OF t _ sv]
    have "phase_of (tb_state t) = Open" using False by (cases "tb_state t") auto
    moreover have "phase_of (tb_state t1) = Open" using st(1) by auto
    ultimately have "tb_abs db' = tb_abs db"
      using fun_upd_row [OF t row] tb_abs_row [OF t] st by (simp add: fun_upd_idem)
    with row st r show ?thesis by simp
  qed
qed

lemma confirm_ok:
  assumes row: "tb_row i db = Inr t" and st: "tb_state t \<in> {TB_SUBMISSION_UNCERTAIN, TB_EXTERNAL_CONFIRMED}"
    and "confirm_or_quarantine i x clock k rv db = Inr (b, db')"
  shows "b = (material x = transfer_from_intent t) \<and>
    (b \<longrightarrow> (\<exists>t'. tb_row i db' = Inr t' \<and> tb_state t' = TB_EXTERNAL_CONFIRMED) \<and> tb_abs db' = tb_abs db) \<and>
    (\<not> b \<longrightarrow> tb_abs db' = (tb_abs db)(i \<mapsto> (transfer_from_intent t, Quarantined)))"
proof (cases "matches t x")
  case False
  let ?t = "t\<lparr>tb_state := TB_QUARANTINED, tb_last_error := Some ''external transfer differs from immutable local intent'', tb_updated_at := clock 0\<rparr>"
  have ra: "record_state_audit ?t ''tigerbeetle.intent.quarantined'' (clock 1) k rv [(''external_timestamp'', JInt (tr_timestamp x))] db = Inr db'"
    and b: "b = False"
    using assms False by (auto simp: confirm_or_quarantine_def tb_transition_ok Let_def)
  have "tb_row j db' = (if j = i then Inr ?t else tb_row j db)" for j
    using record_state_audit_row [OF row _ ra] tb_rowD [OF row] by simp
  then have "tb_abs db' = (tb_abs db)(i \<mapsto> (transfer_from_intent ?t, phase_of (tb_state ?t)))" by (rule fun_upd_row [OF row])
  with b False show ?thesis by (simp add: matches_material)
next
  case True
  let ?t = "t\<lparr>tb_state := TB_EXTERNAL_CONFIRMED, tb_external_timestamp := Some (tr_timestamp x), tb_external_confirmed_at := Some (clock 0), tb_updated_at := clock 1\<rparr>"
  have ra: "record_state_audit ?t ''tigerbeetle.intent.external_confirmed'' (clock 2) k rv [(''external_timestamp'', JInt (tr_timestamp x))] db = Inr db'"
    and b: "b = True"
    using assms True by (auto simp: confirm_or_quarantine_def tb_transition_ok Let_def numeral_eq_Suc tb_state_idem)
  have rows: "tb_row j db' = (if j = i then Inr ?t else tb_row j db)" for j
    using record_state_audit_row [OF row _ ra] tb_rowD [OF row] by simp
  then have "tb_abs db' = (tb_abs db)(i \<mapsto> (transfer_from_intent ?t, phase_of (tb_state ?t)))" by (rule fun_upd_row [OF row])
  moreover have "tb_abs db i = Some (transfer_from_intent t, Open)" using tb_abs_row [OF row] st by auto
  ultimately have "tb_abs db' = tb_abs db" by (simp add: fun_upd_idem)
  with b True rows show ?thesis by (simp add: matches_material)
qed

lemma close_ok:
  assumes row: "tb_row i db = Inr t"
  shows "finalise_posted i clock k rv db = Inr db' \<Longrightarrow> tb_state t = TB_EXTERNAL_CONFIRMED \<Longrightarrow>
      tb_abs db' = (tb_abs db)(i \<mapsto> (transfer_from_intent t, Posted))"
    and "reject_intent i why clock k rv db = Inr db' \<Longrightarrow> tb_abs db' = (tb_abs db)(i \<mapsto> (transfer_from_intent t, Rejected))"
proof -
  assume "finalise_posted i clock k rv db = Inr db'" "tb_state t = TB_EXTERNAL_CONFIRMED"
  then obtain d where ra: "record_state_audit (t\<lparr>tb_state := TB_POSTED, tb_posted_at := Some (clock 0), tb_updated_at := clock 1\<rparr>)
      ''tigerbeetle.intent.posted'' (clock 2) k rv d db = Inr db'"
    using row by (auto simp: finalise_posted_def tb_transition_ok Let_def)
  show "tb_abs db' = (tb_abs db)(i \<mapsto> (transfer_from_intent t, Posted))"
    using fun_upd_row [OF row record_state_audit_row [OF row _ ra]] tb_rowD [OF row] by simp
next
  assume "reject_intent i why clock k rv db = Inr db'"
  then obtain d where ra: "record_state_audit (t\<lparr>tb_state := TB_REJECTED, tb_last_error := Some (take 2000 why), tb_updated_at := clock 0\<rparr>)
      ''tigerbeetle.intent.rejected'' (clock 1) k rv d db = Inr db'"
    using row by (auto simp: reject_intent_def tb_transition_ok Let_def)
  show "tb_abs db' = (tb_abs db)(i \<mapsto> (transfer_from_intent t, Rejected))"
    using fun_upd_row [OF row record_state_audit_row [OF row _ ra]] tb_rowD [OF row] by simp
qed

text \<open>What the result of a submission says about the phase of the intent.\<close>

definition reported :: "string \<Rightarrow> phase \<Rightarrow> bool" where
  "reported s ph = ((s = ''posted'' \<and> ph = Posted) \<or> (s = ''rejected'' \<and> ph = Rejected) \<or> (s = ''quarantined'' \<and> ph = Quarantined) \<or>
     (s = ''terminal'' \<and> ph \<noteq> Open))"

definition simulates :: "uuid \<Rightarrow> intents \<times> external \<Rightarrow> string res \<Rightarrow> intents \<times> external \<Rightarrow> bool" where
  "simulates i s r s' =
     (spec_step\<^sup>*\<^sup>* s s' \<and> (\<forall>out. r = Inr out \<longrightarrow> (\<exists>t ph. fst s' i = Some (t, ph) \<and> reported out ph)))"

lemma simulates_before: "spec_step\<^sup>*\<^sup>* s s1 \<Longrightarrow> simulates i s1 r s' \<Longrightarrow> simulates i s r s'"
  by (auto simp: simulates_def)

lemma simulates_raise [simp]: "simulates i s (Inl e) s"
  by (simp add: simulates_def)

lemma settle_simulates:
  assumes row: "tb_row i db = Inr t" and st: "tb_state t \<in> {TB_SUBMISSION_UNCERTAIN, TB_EXTERNAL_CONFIRMED}"
    and led: "led (tb_transfer_id t) = Some x" and so: "settle_observed i x clock k rv db = (r, db')"
  shows "simulates i (tb_abs db, led) r (tb_abs db', led)"
proof (cases "confirm_or_quarantine i x clock k rv db")
  case (Inl e)
  with so show ?thesis by (auto simp: settle_observed_def)
next
  case (Inr p)
  then obtain b db1 where cq: "confirm_or_quarantine i x clock k rv db = Inr (b, db1)" by (cases p) simp
  note ok = confirm_ok [OF row st cq]
  have op: "tb_abs db i = Some (transfer_from_intent t, Open)" using tb_abs_row [OF row] st by auto
  show ?thesis
  proof (cases b)
    case False
    with so cq have "r = Inr ''quarantined''" "db' = db1" by (simp_all add: settle_observed_def)
    with False ok spec_step.quarantine [of "tb_abs db" i "transfer_from_intent t" led x] op led show ?thesis by (auto simp: simulates_def reported_def)
  next
    case True
    with ok obtain t1 where t1: "tb_row i db1 = Inr t1" "tb_state t1 = TB_EXTERNAL_CONFIRMED" "tb_abs db1 = tb_abs db" by auto
    then have tf: "transfer_from_intent t1 = transfer_from_intent t" using tb_abs_row [OF t1(1)] op by simp
    show ?thesis
    proof (cases "finalise_posted i (\<lambda>n. clock (n + 3)) k rv db1")
      case (Inl e)
      with so cq True t1 show ?thesis by (auto simp: settle_observed_def)
    next
      case (Inr db2)
      with so cq True have "r = Inr ''posted''" "db' = db2" by (simp_all add: settle_observed_def)
      with close_ok(1) [OF t1(1) Inr t1(2)] t1(3) tf ok True spec_step.post [of "tb_abs db" i "transfer_from_intent t" led x] op led show ?thesis
        by (auto simp: simulates_def reported_def)
    qed
  qed
qed

lemma create_simulates:
  assumes cl: "transfers_by_id client view" and row: "tb_row i db = Inr t"
    and st: "tb_state t \<in> {TB_SUBMISSION_UNCERTAIN, TB_EXTERNAL_CONFIRMED}" and free: "view x (tb_transfer_id t) = None"
    and cc: "create_and_confirm client i (transfer_from_intent t) clock k rv (db, x) = (r, db', x')"
  shows "simulates i (tb_abs db, view x) r (tb_abs db', view x')"
proof -
  obtain cr x1 where ct: "create_transfer client (transfer_from_intent t) x = (cr, x1)" by fastforce
  have op: "tb_abs db i = Some (transfer_from_intent t, Open)" using tb_abs_row [OF row] st by auto
  have v: "view x1 = view x \<or> (\<exists>ts. view x1 = (view x)(tb_transfer_id t \<mapsto> (transfer_from_intent t)\<lparr>tr_timestamp := ts\<rparr>))"
    and rej: "cr = Inr REJECTED \<Longrightarrow> view x1 = view x"
    using create_adds [OF cl ct] by simp_all
  have s1: "spec_step\<^sup>*\<^sup>* (tb_abs db, view x) (tb_abs db, view x1)"
    using v spec_step.create [of "tb_abs db" i "transfer_from_intent t" "view x"] op free by auto
  show ?thesis
  proof (cases cr)
    case (Inl e)
    with cc ct s1 show ?thesis by (auto simp: create_and_confirm_def intro: simulates_before)
  next
    case (Inr c)
    show ?thesis
    proof (cases "c = REJECTED")
      case True
      with rej Inr have v1: "view x1 = view x" by simp
      show ?thesis
      proof (cases "reject_intent i ''TigerBeetle rejected the transfer'' clock k rv db")
        case (Inl e)
        with cc ct Inr True v1 show ?thesis by (auto simp: create_and_confirm_def \<open>cr = Inr c\<close>)
      next
        case (Inr db1)
        with cc ct True have "r = Inr ''rejected''" "db' = db1" "x' = x1" by (auto simp: create_and_confirm_def \<open>cr = Inr c\<close>)
        with v1 close_ok(2) [OF row Inr] spec_step.reject [of "tb_abs db" i "transfer_from_intent t" "view x"] op free show ?thesis
          by (auto simp: simulates_def reported_def)
      qed
    next
      case False
      obtain lr x2 where lt: "lookup_transfer client (tb_transfer_id t) x1 = (lr, x2)" by fastforce
      then have v2: "view x2 = view x1" "lr = Inr a \<Longrightarrow> view x1 (tb_transfer_id t) = a" for a
        using lookup_truthful [OF cl lt] by auto
      have "simulates i (tb_abs db, view x1) r (tb_abs db', view x')"
      proof (cases "\<exists>y. lr = Inr (Some y)")
        case True
        then obtain y where y: "lr = Inr (Some y)" by blast
        obtain r1 db1 where so: "settle_observed i y clock k rv db = (r1, db1)" by fastforce
        with cc ct \<open>cr = Inr c\<close> False lt y have "r = r1" "db' = db1" "x' = x2" by (auto simp: create_and_confirm_def)
        with settle_simulates [OF row st _ so, of "view x1"] v2(2) [OF y] v2(1) show ?thesis by simp
      next
        case nolr: False
        with cc ct \<open>cr = Inr c\<close> False lt have "(\<exists>e. r = Inl e) \<and> db' = db \<and> x' = x2"
          by (cases lr) (auto simp: create_and_confirm_def split: option.splits)
        with v2(1) show ?thesis by auto
      qed
      with s1 show ?thesis by (rule simulates_before)
    qed
  qed
qed

lemma submit_simulates:
  assumes cl: "transfers_by_id client view"
    and sb: "submit_intent_lookup_before_retry (Some client) i clock k rv (db, x) = (r, db', x')"
  shows "simulates i (tb_abs db, view x) r (tb_abs db', view x')"
proof (cases "mark_submission_uncertain i (clock 0) db")
  case (Inl e)
  with sb show ?thesis by (auto simp: submit_intent_lookup_before_retry_def)
next
  case (Inr p)
  then obtain mt db1 where mk: "mark_submission_uncertain i (clock 0) db = Inr (mt, db1)" by (cases p) simp
  note ok = mark_ok [OF mk]
  show ?thesis
  proof (cases mt)
    case None
    with sb mk have "r = Inr ''terminal''" "db' = db1" "x' = x" by (simp_all add: submit_intent_lookup_before_retry_def)
    with ok None show ?thesis by (auto simp: simulates_def reported_def tb_abs_row)
  next
    case (Some t)
    with ok have row: "tb_row i db1 = Inr t" and st: "tb_state t \<in> {TB_SUBMISSION_UNCERTAIN, TB_EXTERNAL_CONFIRMED}"
      and ab: "tb_abs db1 = tb_abs db" by auto
    obtain lr x1 where lt: "lookup_transfer client (tb_transfer_id t) x = (lr, x1)" by fastforce
    then have v1: "view x1 = view x" "lr = Inr a \<Longrightarrow> view x (tb_transfer_id t) = a" for a
      using lookup_truthful [OF cl lt] by auto
    consider (err) e where "lr = Inl e" | (free) "lr = Inr None" | (found) y where "lr = Inr (Some y)" by (cases lr) auto
    then show ?thesis
    proof cases
      case err
      with sb mk Some lt v1 ab show ?thesis by (auto simp: submit_intent_lookup_before_retry_def)
    next
      case free
      with sb mk Some lt have "create_and_confirm client i (transfer_from_intent t) (\<lambda>n. clock (n + 1)) k rv (db1, x1) = (r, db', x')"
        by (simp add: submit_intent_lookup_before_retry_def)
      with create_simulates [OF cl row st _ this] v1 free ab show ?thesis by simp
    next
      case found
      obtain r1 db2 where so: "settle_observed i y (\<lambda>n. clock (n + 1)) k rv db1 = (r1, db2)" by fastforce
      with sb mk Some lt found have "r = r1" "db' = db2" "x' = x1" by (auto simp: submit_intent_lookup_before_retry_def)
      with settle_simulates [OF row st _ so, of "view x"] v1(2) [OF found] v1(1) ab show ?thesis by simp
    qed
  qed
qed

section \<open>Intents are created once\<close>

lemma tb_row_append:
  assumes "unused tb_id (tb_ledger_intents db) (tb_id t)" and "tb_ledger_intents db' = tb_ledger_intents db @ [t]"
  shows "tb_row j db' = (if j = tb_id t then Inr t else tb_row j db)" and "tb_abs db (tb_id t) = None"
proof -
  have e: "filter (\<lambda>x. tb_id x = tb_id t) (tb_ledger_intents db) = []"
    using assms(1) by (auto simp: unused_def filter_empty_conv image_iff)
  then show "tb_row j db' = (if j = tb_id t then Inr t else tb_row j db)" using assms(2) by (auto simp: tb_row_def)
  show "tb_abs db (tb_id t) = None" using e by (simp add: tb_abs_def tb_row_def)
qed

lemma enqueue_queued:
  assumes wf: "outbox_wf db" and eq: "enqueue at ai et key p av db = Inr (r, db')"
  shows "key \<in> m_dedupe_key ` set (outbox_messages db')"
proof (cases "er_created r")
  case True
  then show ?thesis using enqueue_ok [OF eq] by (auto simp: image_iff)
next
  case False
  then have db': "db' = db" and "insert_outbox_message (new_message at ai et key p av (db_now db)) db = Inl IntegrityError"
    using enqueue_ok [OF eq] eq
    by (cases "insert_outbox_message (new_message at ai et key p av (db_now db)) db", auto simp: enqueue_def)+
  then have "\<not> outbox_message_checks db (new_message at ai et key p av (db_now db) (next_uuid db))"
    by (auto simp: insert_outbox_message_def Let_def insert_row_Inl)
  then show ?thesis using wf by (simp add: outbox_message_checks_def unused_def outbox_wf_def db')
qed

lemma announce_ok:
  assumes wf: "outbox_wf db" and an: "announce_intent t now k rv a db = Inr (t', db')"
  shows "t' = t \<and> tb_ledger_intents db' = tb_ledger_intents db \<and> payment_intents db' = payment_intents db \<and>
    (''tigerbeetle-transfer:'' @ tb_transfer_id t) \<in> m_dedupe_key ` set (outbox_messages db')"
proof -
  obtain r db1 e where eq: "enqueue ''tigerbeetle_ledger_intent'' (tb_id t) ''tigerbeetle.transfer_requested''
         (''tigerbeetle-transfer:'' @ tb_transfer_id t) [(''intent_id'', JStr (uuid_str (tb_id t)))] now db = Inr (r, db1)"
    and au: "record_audit_event a (intent_created_record t) now k rv db1 = Inr (e, db')" and t': "t' = t"
    using an by (auto simp: announce_intent_def)
  then show ?thesis using enqueue_queued [OF wf eq] enqueue_frame [OF eq] record_audit_event_db [OF au] by auto
qed

text \<open>What a successful call has done: nothing, for a request already recorded, or one new row with its message.\<close>

lemma create_ledger_intent_cases:
  assumes "create_ledger_intent req now k rv a db = Inr (t, db')"
  obtains c p h where "validate_request req = Inr c" "filter (\<lambda>x. pi_id x = lr_payment_intent_id c) (payment_intents db) = [p]"
    "pi_status p = P_SETTLED" "pi_amount_minor p = lr_amount_minor c" "pi_currency p = lr_currency c"
    "canonical_hash (intent_payload c) = Inr h"
    "(intents_for c db = [t] \<and> tb_payload_hash t = h \<and> db' = db) \<or>
     (intents_for c db = [] \<and> (\<exists>db1. insert_tb_ledger_intent (new_tb_intent c h (db_now db)) db = Inr (t, db1) \<and>
        announce_intent t now k rv a db1 = Inr (t, db')))"
proof -
  obtain c p h ex where c: "validate_request req = Inr c"
    and p: "filter (\<lambda>x. pi_id x = lr_payment_intent_id c) (payment_intents db) = [p]" "pi_status p = P_SETTLED"
      "pi_amount_minor p = lr_amount_minor c" "pi_currency p = lr_currency c"
    and h: "canonical_hash (intent_payload c) = Inr h" and ex: "scalar_one_or_none (intents_for c db) = Inr ex"
    and rest: "(case ex of Some t \<Rightarrow> same_material h t db | None \<Rightarrow> insert_intent c h now k rv a db) = Inr (t, db')"
    using assms unfolding create_ledger_intent_def by (auto split: option.splits if_splits)
  show thesis
  proof (cases ex)
    case (Some t1)
    with ex rest show thesis using that [OF c p h] by (auto simp: same_material_def split: if_splits)
  next
    case None
    then have e: "intents_for c db = []" using ex by simp
    with rest None obtain t1 db1 where ins: "insert_tb_ledger_intent (new_tb_intent c h (db_now db)) db = Inr (t1, db1)"
      and an: "announce_intent t1 now k rv a db1 = Inr (t, db')"
      by (auto simp: insert_intent_def split: sum.splits if_splits)
    have "t = t1" using an by (auto simp: announce_intent_def)
    with ins an e show thesis using that [OF c p h] by blast
  qed
qed

lemma insert_tb_new:
  assumes "insert_tb_ledger_intent (new_tb_intent c h now) db = Inr (t, db1)"
  shows "t = new_tb_intent c h now (next_uuid db) \<and> tb_ledger_intents db1 = tb_ledger_intents db @ [t] \<and>
    payment_intents db1 = payment_intents db \<and> unused tb_id (tb_ledger_intents db) (tb_id t) \<and>
    outbox_messages db1 = outbox_messages db \<and> next_uuid db1 = Suc (next_uuid db)"
  using assms by (auto simp: insert_ok tb_ledger_intent_checks_def)

lemma create_ledger_intent_evolves:
  assumes "create_ledger_intent req now k rv a db = Inr (t, db')"
  shows "evolved (tb_abs db, led) (tb_abs db', led) \<and> (backed (tb_abs db, led) \<longrightarrow> backed (tb_abs db', led))"
  using assms
proof (rule create_ledger_intent_cases)
  fix c p h
  assume "(intents_for c db = [t] \<and> tb_payload_hash t = h \<and> db' = db) \<or>
     (intents_for c db = [] \<and> (\<exists>db1. insert_tb_ledger_intent (new_tb_intent c h (db_now db)) db = Inr (t, db1) \<and>
        announce_intent t now k rv a db1 = Inr (t, db')))"
  then show ?thesis
  proof (elim disjE conjE exE)
    fix db1 assume ins: "insert_tb_ledger_intent (new_tb_intent c h (db_now db)) db = Inr (t, db1)"
      and an: "announce_intent t now k rv a db1 = Inr (t, db')"
    note new = insert_tb_new [OF ins]
    have "tb_ledger_intents db' = tb_ledger_intents db @ [t]"
      using an new by (auto simp: announce_intent_def dest!: enqueue_frame record_audit_event_db)
    note row = tb_row_append [OF _ this]
    have "tb_abs db' = (tb_abs db)(tb_id t \<mapsto> (transfer_from_intent t, Open))"
      using row(1) new by (auto simp: tb_abs_def fun_eq_iff new_tb_intent_def)
    moreover have "tb_abs db (tb_id t) = None" using row(2) new by blast
    ultimately show ?thesis by (auto simp: evolved_def backed_def)
  qed simp
qed

text \<open>Any sequence of calls, those that raise included.\<close>

datatype tb_call = Create ledger_intent_request instant audit_actor | Submit uuid "nat \<Rightarrow> instant"

fun tb_run :: "'x tb_client \<Rightarrow> string \<Rightarrow> string \<Rightarrow> tb_call \<Rightarrow> db \<times> 'x \<Rightarrow> db \<times> 'x" where
  "tb_run client k rv (Create req now a) (db, x) =
     (case create_ledger_intent req now k rv a db of Inl e \<Rightarrow> (db, x) | Inr (t, db') \<Rightarrow> (db', x))"
| "tb_run client k rv (Submit i clock) (db, x) = snd (submit_intent_lookup_before_retry (Some client) i clock k rv (db, x))"

lemma tb_run_evolves:
  assumes "transfers_by_id client view" and "tb_run client k rv c (db, x) = (db', x')"
  shows "evolved (tb_abs db, view x) (tb_abs db', view x') \<and> (backed (tb_abs db, view x) \<longrightarrow> backed (tb_abs db', view x'))"
proof (cases c)
  case (Create req now a)
  with assms(2) show ?thesis
    using create_ledger_intent_evolves [of req now k rv a db _ db' "view x"] by (auto split: sum.splits)
next
  case (Submit i clock)
  then obtain r where "submit_intent_lookup_before_retry (Some client) i clock k rv (db, x) = (r, db', x')"
    using assms(2) by (cases "submit_intent_lookup_before_retry (Some client) i clock k rv (db, x)") auto
  from submit_simulates [OF assms(1) this] show ?thesis using spec_steps_evolved unfolding simulates_def by blast
qed

lemma tb_runs_evolve:
  assumes "transfers_by_id client view" and "fold (tb_run client k rv) cs (db, x) = (db', x')"
  shows "evolved (tb_abs db, view x) (tb_abs db', view x') \<and> (backed (tb_abs db, view x) \<longrightarrow> backed (tb_abs db', view x'))"
  using assms(2)
proof (induction cs arbitrary: db x)
  case (Cons c cs)
  obtain db1 x1 where "tb_run client k rv c (db, x) = (db1, x1)" by fastforce
  with Cons.IH [of db1 x1] Cons.prems tb_run_evolves [OF assms(1) this] evolved_trans show ?case by (auto; blast)
qed simp

lemma backed_rows:
  "backed (tb_abs db, led) \<longleftrightarrow>
    (\<forall>i t. tb_row i db = Inr t \<and> tb_state t = TB_POSTED \<longrightarrow> (\<exists>y. led (tb_transfer_id t) = Some y \<and> matches t y))"
proof -
  have "tb_abs db i = Some (u, Posted) \<longleftrightarrow> (\<exists>t. tb_row i db = Inr t \<and> u = transfer_from_intent t \<and> tb_state t = TB_POSTED)" for i u
    by (auto simp: tb_abs_def split: sum.splits elim: phase_of.elims)
  note posted = this
  show ?thesis
  proof
    assume "backed (tb_abs db, led)"
    then have b: "tb_abs db i = Some (u, Posted) \<Longrightarrow> \<exists>y. led (tr_id u) = Some y \<and> material y = u" for i u by (auto simp: backed_def)
    show "\<forall>i t. tb_row i db = Inr t \<and> tb_state t = TB_POSTED \<longrightarrow> (\<exists>y. led (tb_transfer_id t) = Some y \<and> matches t y)"
    proof (intro allI impI, elim conjE)
      fix i t assume "tb_row i db = Inr t" "tb_state t = TB_POSTED"
      then show "\<exists>y. led (tb_transfer_id t) = Some y \<and> matches t y"
        using b [of i "transfer_from_intent t"] posted [of i "transfer_from_intent t"] by (auto simp: matches_material)
    qed
  qed (auto simp: backed_def matches_material posted)
qed

section \<open>The platform's invariants\<close>

text \<open>The intents of the ledger are outside the invariants of the other services.\<close>

lemma platform_wf_same:
  assumes "platform_wf k db" and "orders db' = orders db" "order_transitions db' = order_transitions db" "approvals db' = approvals db"
    "payment_intents db' = payment_intents db" "payment_receipts db' = payment_receipts db" "journals db' = journals db"
    "ledger_entries db' = ledger_entries db" "outbox_messages db' = outbox_messages db" "audit_events db' = audit_events db"
    "next_seq db' = next_seq db" "next_uuid db \<le> next_uuid db'" "stamp_batches db' = stamp_batches db" "stamps db' = stamps db"
    "serial_counters db' = serial_counters db"
  shows "platform_wf k db'"
  using assms rest_wf_cong [of db' db k] stamps_wf_kept [OF _ issuance_keptI, of db db'] by (simp add: platform_wf_def)

lemma platform_wf_enqueue [inv_pres]:
  "platform_wf k db \<Longrightarrow> enqueue at ai et key p av db = Inr (r, db') \<Longrightarrow> platform_wf k db'"
  using rest_wf_enqueue stamps_wf_kept [OF _ enqueue_kept] unfolding platform_wf_def by blast

lemma create_ledger_intent_platform [inv_pres]:
  assumes wf: "platform_wf k db" and cr: "create_ledger_intent req now k rv a db = Inr (t, db')"
  shows "platform_wf k db'"
  using cr
proof (rule create_ledger_intent_cases)
  fix c p h
  assume "(intents_for c db = [t] \<and> tb_payload_hash t = h \<and> db' = db) \<or>
     (intents_for c db = [] \<and> (\<exists>db1. insert_tb_ledger_intent (new_tb_intent c h (db_now db)) db = Inr (t, db1) \<and>
        announce_intent t now k rv a db1 = Inr (t, db')))"
  then show ?thesis
  proof (elim disjE conjE exE)
    fix db1 assume ins: "insert_tb_ledger_intent (new_tb_intent c h (db_now db)) db = Inr (t, db1)"
      and an: "announce_intent t now k rv a db1 = Inr (t, db')"
    have "platform_wf k db1" using ins by (intro platform_wf_same [OF wf]) (auto simp: insert_ok)
    with an show ?thesis by (auto simp: announce_intent_def intro: platform_wf_audit platform_wf_enqueue)
  qed (simp add: wf)
qed

text \<open>A submission changes the database by updates of intents and by events of the relay, and by nothing else.\<close>

lemma submit_induct:
  fixes client :: "'a tb_client option"
  assumes sb: "submit_intent_lookup_before_retry client i clock k rv (db, x) = (r, db', x')" and "P db"
    and sv: "\<And>db t db'. P db \<Longrightarrow> save_tb t db = Inr db' \<Longrightarrow> P db'"
    and au: "\<And>db rec t e db'. P db \<Longrightarrow> record_audit_event TB_RELAY rec t k rv db = Inr (e, db') \<Longrightarrow> P db'"
  shows "P db'"
proof -
  have ra: "P db2" if "record_state_audit t a now k rv d db1 = Inr db2" "P db1" for t a now d db1 db2
    using that by (auto simp: record_state_audit_def intro: au sv)
  have m: "P db1" if "mark_submission_uncertain i now db = Inr (t, db1)" for now t db1
    using that \<open>P db\<close> by (auto simp: mark_submission_uncertain_def Let_def split: if_splits intro: sv)
  have j: "P db2" if "reject_intent i why cl k rv db1 = Inr db2" "P db1" for why cl db1 db2
    using that by (auto simp: reject_intent_def Let_def intro: ra)
  have c: "P db2" if "confirm_or_quarantine i y cl k rv db1 = Inr (b, db2)" "P db1" for y cl b db1 db2
    using that by (auto simp: confirm_or_quarantine_def Let_def split: if_splits intro: ra)
  have f: "P db2" if "finalise_posted i cl k rv db1 = Inr db2" "P db1" for cl db1 db2
    using that by (auto simp: finalise_posted_def Let_def split: if_splits intro: ra)
  have so: "P db2" if "settle_observed i y cl k rv db1 = (r, db2)" "P db1" for y cl db1 db2
    using that c f unfolding settle_observed_def by (auto split: sum.splits bool.splits)
  have s: "P db2" if "(case settle_observed i ob cl k rv db1 of (r, db) \<Rightarrow> (r, db, y)) = (r, db2, y')" "P db1"
    for ob cl db1 and y :: 'a and db2 y'
    using that so [of ob cl db1 db2] by (auto split: prod.splits)
  have cc: "P db2" if "create_and_confirm c i ex cl k rv (db1, y) = (r, db2, y')" "P db1"
    for c :: "'a tb_client" and ex cl db1 y db2 y'
  proof (cases "create_transfer c ex y")
    case (Pair cr y1)
    show ?thesis
    proof (cases "\<exists>n. cr = Inr n \<and> n \<noteq> REJECTED")
      case True
      obtain lr y2 where "lookup_transfer c (tr_id ex) y1 = (lr, y2)" by fastforce
      with Pair True that s show ?thesis by (auto simp: create_and_confirm_def split: sum.splits option.splits)
    next
      case False
      with Pair that j show ?thesis by (cases cr) (auto simp: create_and_confirm_def split: sum.splits)
    qed
  qed
  show ?thesis
  proof (cases "client = None \<or> (\<forall>t db1. mark_submission_uncertain i (clock 0) db \<noteq> Inr (Some t, db1))")
    case True
    with sb \<open>P db\<close> m show ?thesis by (auto simp: submit_intent_lookup_before_retry_def split: option.splits sum.splits)
  next
    case False
    then obtain c t db1 where c: "client = Some c" and mk: "mark_submission_uncertain i (clock 0) db = Inr (Some t, db1)" by auto
    obtain lr x1 where "lookup_transfer c (tb_transfer_id t) x = (lr, x1)" by fastforce
    with sb c mk m [OF mk] s cc show ?thesis
      by (auto simp: submit_intent_lookup_before_retry_def split: sum.splits option.splits)
  qed
qed

lemma save_tb_platform: "platform_wf k db \<Longrightarrow> save_tb t db = Inr db' \<Longrightarrow> platform_wf k db'"
  by (drule save_tb_ok, erule platform_wf_same) simp_all

lemma submit_platform [inv_pres]:
  "platform_wf k db \<Longrightarrow> submit_intent_lookup_before_retry client i clock k rv (db, x) = (r, db', x') \<Longrightarrow> platform_wf k db'"
  using submit_induct [of client i clock k rv db x r db' x' "platform_wf k"] save_tb_platform platform_wf_audit by blast

section \<open>A sample intent\<close>

definition ledger_request :: ledger_intent_request where
  "ledger_request = \<lparr>lr_payment_intent_id = 7, lr_transfer_id = replicate 32 CHR ''A'', lr_debit_account_id = replicate 32 CHR ''1'',
     lr_credit_account_id = replicate 32 CHR ''2'', lr_ledger_code = 1, lr_transfer_code = 0, lr_transfer_flags = 0,
     lr_amount_minor = 53750, lr_currency = ''ngn''\<rparr>"

definition checked_request :: ledger_intent_request where
  "checked_request = ledger_request\<lparr>lr_transfer_id := replicate 32 CHR ''a'', lr_currency := ''NGN''\<rparr>"

lemma ledger_request_checked: "validate_request ledger_request = Inr checked_request"
  by code_simp

lemma sample_intent_created: "\<exists>t db'. create_ledger_intent ledger_request 0 k ''r1'' TB_RELAY paid_db = Inr (t, db')"
proof -
  obtain h where h: "canonical_hash (intent_payload checked_request) = Inr h" "varchar 64 h"
    using canonical_hash_total [of "intent_payload checked_request"] by (auto simp: intent_payload_def)
  obtain bs where "h = hex bs" using h(1) by (auto simp: canonical_hash_def sha256_hex_def)
  then have hex: "lower_hex 64 h" using length_canonical_hash [OF h(1)] hex_chars [of _ bs] unfolding lower_hex_def list_all_iff by blast
  let ?t = "new_tb_intent checked_request h (db_now paid_db) 30"
  let ?db1 = "paid_db\<lparr>next_uuid := 31, tb_ledger_intents := [?t]\<rparr>"
  have e: "tb_ledger_intents paid_db = []" by (simp add: paid_db_def sample_db_def empty_db_def)
  have fix_cols: "varchar 32 (lr_transfer_id checked_request)" "varchar 32 (lr_debit_account_id checked_request)"
    "varchar 32 (lr_credit_account_id checked_request)" "varchar 3 (lr_currency checked_request)"
    "lower_hex 32 (lr_transfer_id checked_request)" "lower_hex 32 (lr_debit_account_id checked_request)"
    "lower_hex 32 (lr_credit_account_id checked_request)" "lr_debit_account_id checked_request \<noteq> lr_credit_account_id checked_request"
    "map Models.upper_char (lr_currency checked_request) = lr_currency checked_request"
    by code_simp+
  have ins: "insert_tb_ledger_intent (new_tb_intent checked_request h (db_now paid_db)) paid_db = Inr (?t, ?db1)"
    using fix_cols hex h(2)
    by (simp add: insert_ok tb_ledger_intent_types_def tb_ledger_intent_checks_def new_tb_intent_def e paid_db_fields unused_def
        foreign_key_def sample_intent_def new_intent_def opt_col_def int4_def bigint_def checked_request_def ledger_request_def)
  have "outbox_wf ?db1" using platform_money(2) [OF paid_db_wf] by (simp add: outbox_wf_def paid_db_fields)
  moreover have "varchar 200 (''tigerbeetle-transfer:'' @ tb_transfer_id ?t)"
    unfolding new_tb_intent_def tb_ledger_intent.select_convs by code_simp
  moreover have "varchar 64 ''tigerbeetle_ledger_intent''" "varchar 64 ''tigerbeetle.transfer_requested''" by (simp_all add: varchar_def)
  ultimately obtain r db2 where eq: "enqueue ''tigerbeetle_ledger_intent'' (tb_id ?t) ''tigerbeetle.transfer_requested''
      (''tigerbeetle-transfer:'' @ tb_transfer_id ?t) [(''intent_id'', JStr (uuid_str (tb_id ?t)))] 0 ?db1 = Inr (r, db2)"
    using enqueue_total by blast
  then have "audit_events db2 = []" using enqueue_frame [OF eq] by (auto simp: paid_db_fields)
  moreover have "audit_fits TB_RELAY (intent_created_record ?t) ''r1''"
    by (simp add: audit_fits_def TB_RELAY_def intent_created_record_def json_obj_opt_def varchar_def opt_col_def)
  ultimately obtain ev db3 where "record_audit_event TB_RELAY (intent_created_record ?t) 0 k ''r1'' db2 = Inr (ev, db3)"
    using record_audit_event_first by blast
  with eq ins have "insert_intent checked_request h 0 k ''r1'' TB_RELAY paid_db = Inr (?t, db3)"
    by (simp add: insert_intent_def announce_intent_def del: bind_res_eq_Inr)
  moreover have cols: "lr_payment_intent_id checked_request = pi_id (sample_intent 3750)" "lr_amount_minor checked_request = pi_amount_minor (sample_intent 3750)"
    "lr_currency checked_request = pi_currency (sample_intent 3750)" by code_simp+
  moreover have "intents_for checked_request paid_db = []" by (simp add: intents_for_def e)
  ultimately have "create_ledger_intent ledger_request 0 k ''r1'' TB_RELAY paid_db = Inr (?t, db3)"
    using h(1) by (simp add: create_ledger_intent_def ledger_request_checked paid_db_fields cols del: bind_res_eq_Inr)
  then show ?thesis by blast
qed

text \<open>A client that always answers, on the ledger itself.\<close>

definition honest_client :: "(string \<Rightarrow> transfer option) tb_client" where
  "honest_client = \<lparr>lookup_transfer = (\<lambda>i x. (Inr (x i), x)),
     create_transfer = (\<lambda>t x. if x (tr_id t) = None then (Inr CREATED, x(tr_id t \<mapsto> t\<lparr>tr_timestamp := 1\<rparr>)) else (Inr EXISTS, x))\<rparr>"

lemma honest_client_by_id: "transfers_by_id honest_client (\<lambda>x. x)"
  by (auto simp: transfers_by_id_def honest_client_def split: if_splits)

section \<open>Properties\<close>

text \<open>
  C40. A submission implements the abstract ledger.  For every client that keeps transfers by their identifier, and whatever
  fails on the way, the change that \<^verbatim>\<open>submit_intent_lookup_before_retry\<close> makes to the intents and to the external ledger is a
  sequence of steps of the specification: the transfer of an open intent is created where its identifier is free, and an
  open intent is posted only against its own transfer, rejected only when there is none and quarantined only against a
  different one.  When the call returns, the phase of the intent is the one that its result says.
\<close>

theorem submit_refines_ledger:
  assumes "transfers_by_id client view"
    and "submit_intent_lookup_before_retry (Some client) i clock k rv (db, x) = (r, db', x')"
  shows "spec_step\<^sup>*\<^sup>* (tb_abs db, view x) (tb_abs db', view x') \<and>
    (\<forall>out. r = Inr out \<longrightarrow> (\<exists>t ph. tb_abs db' i = Some (t, ph) \<and> reported out ph))"
  using submit_simulates [OF assms] by (simp add: simulates_def)

theorem submit_refines_ledger_witness:
  "\<exists>r db' x'. submit_intent_lookup_before_retry (Some honest_client) 30 (\<lambda>_. 0) ''k'' ''r1'' (paid_db, Map.empty) = (r, db', x') \<and>
     spec_step\<^sup>*\<^sup>* (tb_abs paid_db, Map.empty) (tb_abs db', x')"
proof -
  obtain r db' x' where "submit_intent_lookup_before_retry (Some honest_client) 30 (\<lambda>_. 0) ''k'' ''r1'' (paid_db, Map.empty) = (r, db', x')"
    using prod_cases3 by blast
  with submit_refines_ledger [OF honest_client_by_id this] show ?thesis by blast
qed

text \<open>
  No transfer without an intent and no posting without a transfer.  After any sequence of creations and submissions, of
  any intents and with any failures, every posted intent has in the external ledger exactly its transfer; the transfers that
  were there are unchanged; every transfer that was added is that of an intent; and an intent keeps its transfer, and its
  state once it is posted, rejected or quarantined.
\<close>

theorem ledger_calls_safe:
  assumes "transfers_by_id client view" and "fold (tb_run client k rv) calls (db, x) = (db', x')"
    and "\<forall>i t. tb_row i db = Inr t \<and> tb_state t = TB_POSTED \<longrightarrow> (\<exists>y. view x (tb_transfer_id t) = Some y \<and> matches t y)"
  shows "(\<forall>i t. tb_row i db' = Inr t \<and> tb_state t = TB_POSTED \<longrightarrow> (\<exists>y. view x' (tb_transfer_id t) = Some y \<and> matches t y)) \<and>
    view x \<subseteq>\<^sub>m view x' \<and>
    (\<forall>id y. view x' id = Some y \<and> view x id = None \<longrightarrow> (\<exists>i t. tb_row i db' = Inr t \<and> matches t y)) \<and>
    (\<forall>i t. tb_row i db = Inr t \<longrightarrow> (\<exists>t'. tb_row i db' = Inr t' \<and> transfer_from_intent t' = transfer_from_intent t \<and>
       (phase_of (tb_state t) \<noteq> Open \<longrightarrow> phase_of (tb_state t') = phase_of (tb_state t))))"
proof -
  note ev = tb_runs_evolve [OF assms(1,2)]
  then have bk: "backed (tb_abs db', view x')" using assms(3) backed_rows by blast
  have rows: "tb_abs d i = Some (u, ph) \<longleftrightarrow> (\<exists>t. tb_row i d = Inr t \<and> u = transfer_from_intent t \<and> ph = phase_of (tb_state t))" for d i u ph
    by (auto simp: tb_abs_def split: sum.splits)
  have mono: "view x \<subseteq>\<^sub>m view x'"
    and kept: "tb_abs db i = Some (u, ph) \<Longrightarrow> \<exists>ph'. tb_abs db' i = Some (u, ph') \<and> (ph \<noteq> Open \<longrightarrow> ph' = ph)"
    and new: "view x' id = Some y \<Longrightarrow> view x id = None \<Longrightarrow> \<exists>i u ph. tb_abs db' i = Some (u, ph) \<and> tr_id u = id \<and> material y = material u"
    for i u ph id y using ev unfolding evolved_def prod.case by blast+
  have "\<exists>i t. tb_row i db' = Inr t \<and> matches t y" if "view x' id = Some y" "view x id = None" for id y
    using new [OF that] unfolding rows matches_material by (metis material_transfer)
  moreover have "\<exists>t'. tb_row i db' = Inr t' \<and> transfer_from_intent t' = transfer_from_intent t \<and>
       (phase_of (tb_state t) \<noteq> Open \<longrightarrow> phase_of (tb_state t') = phase_of (tb_state t))" if "tb_row i db = Inr t" for i t
    using kept [of i "transfer_from_intent t" "phase_of (tb_state t)"] that by (auto simp: rows)
  ultimately show ?thesis using bk mono unfolding backed_rows by blast
qed

theorem ledger_calls_safe_witness:
  "\<exists>db' x'. fold (tb_run honest_client ''k'' ''r1'') [Create ledger_request 0 TB_RELAY, Submit 30 (\<lambda>_. 0)] (paid_db, Map.empty) = (db', x') \<and>
     (\<forall>i t. tb_row i db' = Inr t \<and> tb_state t = TB_POSTED \<longrightarrow> (\<exists>y. x' (tb_transfer_id t) = Some y \<and> matches t y))"
proof -
  have "\<forall>i t. tb_row i paid_db \<noteq> Inr t" by (simp add: tb_row_def paid_db_def sample_db_def empty_db_def)
  with ledger_calls_safe [OF honest_client_by_id, of "''k''" "''r1''" "[Create ledger_request 0 TB_RELAY, Submit 30 (\<lambda>_. 0)]" paid_db Map.empty]
  show ?thesis by (metis surj_pair)
qed

text \<open>
  An intent is recorded once.  A request that is accepted names a settled payment of the same amount and currency.
  Either its intent was recorded before, with the same canonical payload, and nothing changes, or one row is added, with the
  checked fields and the message that asks for its submission.  It is then the only intent with its payment or its
  transfer identifier, and the same request, at any time and by anyone, returns it again and changes nothing.
\<close>

theorem create_ledger_intent_once:
  assumes wf: "outbox_wf db" and cr: "create_ledger_intent req now k rv a db = Inr (t, db')"
  shows "(\<exists>c. validate_request req = Inr c \<and> canonical_hash (intent_payload c) = Inr (tb_payload_hash t) \<and> intents_for c db' = [t] \<and>
      (\<exists>p \<in> set (payment_intents db). pi_id p = lr_payment_intent_id c \<and> pi_status p = P_SETTLED \<and>
         pi_amount_minor p = lr_amount_minor c \<and> pi_currency p = lr_currency c) \<and>
      (db' = db \<or> (t = new_tb_intent c (tb_payload_hash t) (db_now db) (next_uuid db) \<and>
         tb_ledger_intents db' = tb_ledger_intents db @ [t] \<and>
         (''tigerbeetle-transfer:'' @ tb_transfer_id t) \<in> m_dedupe_key ` set (outbox_messages db')))) \<and>
    create_ledger_intent req now' k' rv' a' db' = Inr (t, db')"
  using cr
proof (rule create_ledger_intent_cases)
  fix c p h
  assume c: "validate_request req = Inr c" and p: "filter (\<lambda>x. pi_id x = lr_payment_intent_id c) (payment_intents db) = [p]"
      "pi_status p = P_SETTLED" "pi_amount_minor p = lr_amount_minor c" "pi_currency p = lr_currency c"
    and h: "canonical_hash (intent_payload c) = Inr h"
    and out: "(intents_for c db = [t] \<and> tb_payload_hash t = h \<and> db' = db) \<or>
     (intents_for c db = [] \<and> (\<exists>db1. insert_tb_ledger_intent (new_tb_intent c h (db_now db)) db = Inr (t, db1) \<and>
        announce_intent t now k rv a db1 = Inr (t, db')))"
  have "intents_for c db' = [t] \<and> tb_payload_hash t = h \<and> payment_intents db' = payment_intents db \<and>
      (db' = db \<or> (t = new_tb_intent c h (db_now db) (next_uuid db) \<and> tb_ledger_intents db' = tb_ledger_intents db @ [t] \<and>
         (''tigerbeetle-transfer:'' @ tb_transfer_id t) \<in> m_dedupe_key ` set (outbox_messages db')))"
    using out
  proof (elim disjE conjE exE)
    fix db1 assume e: "intents_for c db = []" and ins: "insert_tb_ledger_intent (new_tb_intent c h (db_now db)) db = Inr (t, db1)"
      and an: "announce_intent t now k rv a db1 = Inr (t, db')"
    note new = insert_tb_new [OF ins]
    have "outbox_wf db1" using wf new outbox_wf_cong [of db1 db] by simp
    note ok = announce_ok [OF this an]
    then have "intents_for c db' = [t]" using new e by (simp add: intents_for_def new_tb_intent_def)
    moreover have "tb_payload_hash t = h" using new by (simp add: new_tb_intent_def)
    ultimately show ?thesis using new ok by simp
  qed simp
  moreover have "p \<in> set (payment_intents db)" "pi_id p = lr_payment_intent_id c" using filter_eq_singletonD [OF p(1)] by simp_all
  ultimately show ?thesis using c p h
    by (auto simp: create_ledger_intent_def same_material_def simp del: bind_res_eq_Inr)
qed

theorem create_ledger_intent_once_witness:
  "\<exists>t db'. create_ledger_intent ledger_request 0 ''k'' ''r1'' TB_RELAY paid_db = Inr (t, db') \<and>
     create_ledger_intent ledger_request 5 ''k'' ''r2'' TB_RELAY db' = Inr (t, db')"
  using sample_intent_created [of "''k''"] create_ledger_intent_once [OF platform_money(2) [OF paid_db_wf]] by blast

end
