(* ===== verification/Reconciliation.thy ===== *)
theory Reconciliation
  imports External_Settlement
begin

text \<open>
  \<^verbatim>\<open>src/src/taxstamp/services/reconciliation.py\<close>: the periodic checks of the platform's invariants on the
  stored data.  Rows that a query returns in no fixed order are taken in the order of the table.
\<close>

record finding =
  f_kind :: string
  f_count :: int
  f_detail :: json_object

record reconciliation_report =
  rp_findings :: "finding list"
  rp_checks_run :: int

definition clean :: "reconciliation_report \<Rightarrow> bool" where
  "clean r = (rp_findings r = [])"

definition as_document :: "reconciliation_report \<Rightarrow> json_object" where
  "as_document r =
     [(''clean'', JBool (clean r)), (''checks_run'', JInt (rp_checks_run r)),
      (''findings'', JList (map (\<lambda>f. JObj [(''kind'', JStr (f_kind f)), (''count'', JInt (f_count f)), (''detail'', JObj (f_detail f))])
         (rp_findings r)))]"

definition unbalanced_journal_finding :: "db \<Rightarrow> finding option" where
  "unbalanced_journal_finding db =
     (let rows = unbalanced_journals db in
      if rows = [] then None
      else Some \<lparr>f_kind = ''unbalanced_journal'', f_count = int (length rows),
                 f_detail = [(''journals'', JList (map (\<lambda>(i, d, c). JStr (uuid_str i)) (take 20 rows)))]\<rparr>)"

text \<open>\<^verbatim>\<open>for currency in currencies\<close>: the currencies whose collections are not accounted for.\<close>

definition currency_mismatch :: "db \<Rightarrow> string \<Rightarrow> json option res" where
  "currency_mismatch db cur =
     bind_res (account_balance db BANK_COLLECTIONS cur) (\<lambda>collections.
     bind_res (account_balance db DUTY_PAYABLE cur) (\<lambda>duty.
     bind_res (account_balance db VAT_PAYABLE cur) (\<lambda>vat.
     bind_res (account_balance db UNAPPLIED_RECEIPTS cur) (\<lambda>unapplied.
     Inr (if minor collections \<noteq> - minor duty + - minor vat + - minor unapplied
          then Some (JObj [(''currency'', JStr cur), (''collections_minor'', JInt (minor collections)), (''duty_minor'', JInt (- minor duty)),
                           (''vat_minor'', JInt (- minor vat)), (''unapplied_minor'', JInt (- minor unapplied))])
          else None)))))"

fun currency_mismatches :: "db \<Rightarrow> string list \<Rightarrow> json list res" where
  "currency_mismatches db [] = Inr []"
| "currency_mismatches db (c # cs) =
     bind_res (currency_mismatch db c) (\<lambda>m. bind_res (currency_mismatches db cs) (\<lambda>ms.
     Inr (case m of None \<Rightarrow> ms | Some x \<Rightarrow> x # ms)))"

definition settlement_conservation :: "db \<Rightarrow> finding option res" where
  "settlement_conservation db =
     bind_res (currency_mismatches db (remdups (map j_currency (journals db)))) (\<lambda>mismatches.
     Inr (if mismatches = [] then None
          else Some \<lparr>f_kind = ''funds_not_conserved'', f_count = int (length mismatches),
                     f_detail = [(''currencies'', JList mismatches)]\<rparr>))"

definition SETTLED_STATES :: "order_status set" where
  "SETTLED_STATES = {O_PAID, O_ISSUING, O_ISSUED}"

definition settled_orders_without_matching_receipt :: "db \<Rightarrow> finding option" where
  "settled_orders_without_matching_receipt db =
     (let rows = take 50 (concat (map (\<lambda>ord. map (\<lambda>i. o_order_ref ord)
            (filter (\<lambda>i. pi_order_id i = o_id ord \<and> o_status ord \<in> SETTLED_STATES \<and>
                \<not> list_ex (\<lambda>r. rc_payment_intent_id r = Some (pi_id i) \<and> rc_status r = R_MATCHED) (payment_receipts db))
              (payment_intents db))) (orders db))) in
      if rows = [] then None
      else Some \<lparr>f_kind = ''paid_order_without_receipt'', f_count = int (length rows), f_detail = [(''orders'', JList (map JStr rows))]\<rparr>)"

definition settled_intents_without_paid_order :: "db \<Rightarrow> finding option" where
  "settled_intents_without_paid_order db =
     (let rows = take 50 (concat (map (\<lambda>i. map (\<lambda>ord. pi_reference i)
            (filter (\<lambda>ord. o_id ord = pi_order_id i \<and> pi_status i = P_SETTLED \<and> o_status ord \<notin> SETTLED_STATES) (orders db)))
          (payment_intents db))) in
      if rows = [] then None
      else Some \<lparr>f_kind = ''settled_intent_without_paid_order'', f_count = int (length rows),
                 f_detail = [(''references'', JList (map JStr rows))]\<rparr>)"

definition actual_count :: "db \<Rightarrow> uuid \<Rightarrow> int" where
  "actual_count db i = int (length (filter (\<lambda>s. s_batch_id s = i) (stamps db)))"

definition issuance_count_mismatch :: "db \<Rightarrow> finding option" where
  "issuance_count_mismatch db =
     (let rows = take 50 (filter (\<lambda>b. b_issued_count b \<noteq> actual_count db (b_id b) \<or> b_issued_count b > b_requested_count b)
          (stamp_batches db)) in
      if rows = [] then None
      else Some \<lparr>f_kind = ''issuance_count_mismatch'', f_count = int (length rows),
                 f_detail = [(''batches'', JList (map (\<lambda>b. JObj [(''batch_id'', JStr (uuid_str (b_id b))),
                    (''recorded'', JInt (b_issued_count b)), (''requested'', JInt (b_requested_count b)),
                    (''actual'', JInt (actual_count db (b_id b)))]) rows))]\<rparr>)"

definition duplicate_serials :: "db \<Rightarrow> finding option" where
  "duplicate_serials db =
     (let rows = take 50 (filter (\<lambda>x. count_list (map s_serial (stamps db)) x > 1) (remdups (map s_serial (stamps db)))) in
      if rows = [] then None
      else Some \<lparr>f_kind = ''duplicate_serial'', f_count = int (length rows), f_detail = [(''serials'', JList (map JStr rows))]\<rparr>)"

definition outbox_health :: "instant \<Rightarrow> int \<Rightarrow> db \<Rightarrow> finding option res" where
  "outbox_health now stale_after_seconds db =
     bind_res (dt_add now (- (stale_after_seconds * SECOND))) (\<lambda>since.
     let dead = int (length (filter (\<lambda>m. m_dead_lettered_at m \<noteq> None) (outbox_messages db)));
         stale = int (length (filter (\<lambda>m. m_processed_at m = None \<and> m_dead_lettered_at m = None \<and> m_created_at m < since)
           (outbox_messages db)))
     in Inr (if dead = 0 \<and> stale = 0 then None
             else Some \<lparr>f_kind = ''outbox_backlog'', f_count = dead + stale,
                        f_detail = [(''dead_lettered'', JInt dead), (''stale'', JInt stale)]\<rparr>))"

definition tigerbeetle_intent_health :: "instant \<Rightarrow> int \<Rightarrow> db \<Rightarrow> finding option res" where
  "tigerbeetle_intent_health now stale_after_seconds db =
     bind_res (dt_add now (- (stale_after_seconds * SECOND))) (\<lambda>since.
     let rows = take 50 (sort_key tb_created_at (filter (\<lambda>t. tb_state t = TB_QUARANTINED \<or>
           (tb_state t \<in> {TB_READY, TB_SUBMISSION_UNCERTAIN, TB_EXTERNAL_CONFIRMED} \<and> tb_created_at t < since)) (tb_ledger_intents db)));
         states = map (\<lambda>t. tb_intent_state_value (tb_state t)) rows
     in Inr (if rows = [] then None
             else Some \<lparr>f_kind = ''tigerbeetle_intent_control_failure'', f_count = int (length rows),
                        f_detail = [(''states'', JObj (map (\<lambda>s. (s, JInt (int (count_list states s)))) (dict_fromkeys states))),
                          (''intent_ids'', JList (map (\<lambda>t. JStr (uuid_str (tb_id t))) rows))]\<rparr>))"

definition opt_json :: "('a \<Rightarrow> json) \<Rightarrow> 'a option \<Rightarrow> json" where
  "opt_json f x = (case x of None \<Rightarrow> JNull | Some y \<Rightarrow> f y)"

definition audit_chain_finding :: "string \<Rightarrow> db \<Rightarrow> finding option res" where
  "audit_chain_finding secret db =
     bind_res (verify_audit_chain secret db) (\<lambda>v.
     Inr (if intact v then None
          else Some \<lparr>f_kind = ''audit_chain_broken'', f_count = 1,
                     f_detail = [(''first_bad_seq'', opt_json JInt (first_bad_seq v)), (''reason'', opt_json JStr (reason v)),
                       (''events_checked'', JInt (int (events_checked v)))]\<rparr>))"

definition external_settlement_findings :: "external_settlement list \<Rightarrow> settlement_provider list \<Rightarrow> db \<Rightarrow> finding list" where
  "external_settlement_findings snapshots providers db =
     (let expected = map (\<lambda>i. \<lparr>xe_reference = pi_reference i, xe_amount_minor = pi_amount_minor i, xe_currency = pi_currency i\<rparr>)
            (filter (\<lambda>i. pi_status i = P_SETTLED) (payment_intents db))
      in map (\<lambda>x. \<lparr>f_kind = xf_kind x, f_count = xf_count x, f_detail = xf_detail x\<rparr>)
           (reconcile_external_settlements expected snapshots (Some providers)))"

text \<open>\<^verbatim>\<open>checks = [\<dots>]\<close>\<close>

definition run_checks :: "instant \<Rightarrow> string \<Rightarrow> int \<Rightarrow> db \<Rightarrow> finding option list res" where
  "run_checks now audit_secret stale db =
     bind_res (settlement_conservation db) (\<lambda>conservation.
     bind_res (outbox_health now stale db) (\<lambda>outbox.
     bind_res (tigerbeetle_intent_health now stale db) (\<lambda>tigerbeetle.
     bind_res (audit_chain_finding audit_secret db) (\<lambda>chain.
     Inr [unbalanced_journal_finding db, conservation, settled_orders_without_matching_receipt db,
          settled_intents_without_paid_order db, issuance_count_mismatch db, duplicate_serials db, outbox, tigerbeetle, chain]))))"

definition new_run :: "reconciliation_report \<Rightarrow> instant \<Rightarrow> uuid \<Rightarrow> reconciliation_run" where
  "new_run report now i =
     \<lparr>rr_id = i, rr_kind = ''full'', rr_started_at = now, rr_finished_at = Some now,
      rr_status = (if clean report then ''clean'' else ''findings''), rr_findings = as_document report\<rparr>"

definition run_reconciliation ::
  "instant \<Rightarrow> string \<Rightarrow> int \<Rightarrow> external_settlement list \<Rightarrow> settlement_provider list \<Rightarrow> db \<Rightarrow> (reconciliation_report \<times> db) res" where
  "run_reconciliation now audit_secret outbox_stale_after_seconds snapshots providers db =
     bind_res (run_checks now audit_secret outbox_stale_after_seconds db) (\<lambda>checks.
     let report = \<lparr>rp_findings = List.map_filter (\<lambda>x. x) checks @ external_settlement_findings snapshots providers db,
                   rp_checks_run = int (length checks) + (if providers \<noteq> [] then 1 else 0)\<rparr> in
     bind_res (insert_reconciliation_run (new_run report now) db) (\<lambda>(r, db).
     Inr (report, db)))"

section \<open>What a check finds\<close>

lemma unbalanced_journal_None: "unbalanced_journal_finding db = None \<longleftrightarrow> unbalanced_journals db = []"
  by (simp add: unbalanced_journal_finding_def Let_def)

text \<open>The collections of a currency are accounted for.\<close>

definition conserved :: "db \<Rightarrow> string \<Rightarrow> bool" where
  "conserved db c = (balance (ledger_entries db) c BANK_COLLECTIONS + balance (ledger_entries db) c DUTY_PAYABLE +
     balance (ledger_entries db) c VAT_PAYABLE + balance (ledger_entries db) c UNAPPLIED_RECEIPTS = 0)"

lemma currency_mismatch_ok:
  "currency_mismatch db c = Inr m \<Longrightarrow> m = None \<longleftrightarrow> conserved db c"
  by (auto simp: currency_mismatch_def account_balance_balance Money_ok conserved_def split: if_splits)

lemma currency_mismatches_ok:
  "currency_mismatches db cs = Inr ms \<Longrightarrow> ms = [] \<longleftrightarrow> (\<forall>c \<in> set cs. conserved db c)"
proof (induction cs arbitrary: ms)
  case (Cons c cs)
  then obtain m ms' where "currency_mismatch db c = Inr m" "currency_mismatches db cs = Inr ms'"
    "ms = (case m of None \<Rightarrow> ms' | Some x \<Rightarrow> x # ms')" by auto
  with Cons.IH currency_mismatch_ok show ?case by (auto split: option.splits)
qed simp

lemma currency_mismatches_total:
  "set cs \<subseteq> {''NGN'', ''USD''} \<Longrightarrow> \<exists>ms. currency_mismatches db cs = Inr ms"
proof (induction cs)
  case (Cons c cs)
  then have "account_balance db a c = Inr \<lparr>minor = balance (ledger_entries db) c a, currency = c\<rparr>" for a
    by (auto simp: account_balance_balance Money_ok)
  then have "\<exists>m. currency_mismatch db c = Inr m" by (simp add: currency_mismatch_def del: bind_res_eq_Inr)
  with Cons show ?case by auto
qed simp

lemma settlement_conservation_None:
  "settlement_conservation db = Inr x \<Longrightarrow> x = None \<longleftrightarrow> (\<forall>c \<in> j_currency ` set (journals db). conserved db c)"
  by (auto simp: settlement_conservation_def dest!: currency_mismatches_ok split: if_splits)

lemma settled_orders_None:
  "settled_orders_without_matching_receipt db = None \<longleftrightarrow>
    (\<forall>ord \<in> set (orders db). \<forall>i \<in> set (payment_intents db). paid ord \<and> pi_order_id i = o_id ord \<longrightarrow>
      (\<exists>r \<in> set (payment_receipts db). matched_for (pi_id i) r))"
  by (auto simp: settled_orders_without_matching_receipt_def Let_def filter_empty_conv paid_def SETTLED_STATES_def
      matched_for_def list_ex_iff)

lemma settled_intents_None:
  "settled_intents_without_paid_order db = None \<longleftrightarrow>
    (\<forall>i \<in> set (payment_intents db). \<forall>ord \<in> set (orders db). pi_status i = P_SETTLED \<and> o_id ord = pi_order_id i \<longrightarrow> paid ord)"
  by (auto simp: settled_intents_without_paid_order_def Let_def filter_empty_conv paid_def SETTLED_STATES_def)

lemma issuance_count_None:
  "issuance_count_mismatch db = None \<longleftrightarrow>
    (\<forall>b \<in> set (stamp_batches db). b_issued_count b = int (length (batch_stamps db (b_id b))) \<and> b_issued_count b \<le> b_requested_count b)"
  by (auto simp: issuance_count_mismatch_def Let_def filter_empty_conv actual_count_def batch_stamps_def not_less)

lemma distinct_count: "distinct xs \<longleftrightarrow> (\<forall>x \<in> set xs. \<not> 1 < count_list xs x)"
proof (induction xs)
  case (Cons y ys)
  have "count_list ys y = 0 \<longleftrightarrow> y \<notin> set ys" by (simp add: count_list_0_iff)
  moreover have "(\<forall>x \<in> set ys. \<not> 1 < count_list (y # ys) x) \<longleftrightarrow> (\<forall>x \<in> set ys. \<not> 1 < count_list ys x)" if "y \<notin> set ys"
    using that by auto
  ultimately show ?case using Cons by auto
qed simp

lemma duplicate_serials_None: "duplicate_serials db = None \<longleftrightarrow> distinct (map s_serial (stamps db))"
  unfolding distinct_count by (simp add: duplicate_serials_def Let_def filter_empty_conv)

lemma run_checks_ok:
  assumes "run_checks now k stale db = Inr checks"
  obtains c ob tb ch where "settlement_conservation db = Inr c" "outbox_health now stale db = Inr ob"
    "tigerbeetle_intent_health now stale db = Inr tb" "audit_chain_finding k db = Inr ch"
    "checks = [unbalanced_journal_finding db, c, settled_orders_without_matching_receipt db,
          settled_intents_without_paid_order db, issuance_count_mismatch db, duplicate_serials db, ob, tb, ch]"
  using assms by (auto simp: run_checks_def)

section \<open>The invariants leave nothing to find\<close>

lemma platform_conserved:
  assumes "platform_wf k db"
  shows "conserved db c"
proof -
  have "trial_balance c (ledger_entries db) = 0" "\<forall>e \<in> set (ledger_entries db). le_account e \<in> ACCOUNTS \<and> le_direction e \<in> {''debit'', ''credit''}"
    using assms by (auto simp: platform_wf_def rest_wf_def money_wf_def books_wf_def ledger_ok_def accounts_ok_def ledger_wf_def list_all_iff)
  then have "(\<Sum>a \<in> ACCOUNTS. balance (ledger_entries db) c a) = 0" using sum_balances [of ACCOUNTS "ledger_entries db" c]
    by (simp add: ACCOUNTS_def)
  then show ?thesis by (simp add: ACCOUNTS_def conserved_def)
qed

lemma platform_intents:
  assumes wf: "platform_wf k db" and ord: "ord \<in> set (orders db)" and i: "i \<in> set (payment_intents db)" and eq: "o_id ord = pi_order_id i"
  shows "pi_status i = P_SETTLED \<longleftrightarrow> paid ord" and "paid ord \<Longrightarrow> \<exists>r \<in> set (payment_receipts db). matched_for (pi_id i) r"
proof -
  have pay: "payments_wf db" using wf by (simp add: platform_wf_def rest_wf_def money_wf_def)
  then have "intent_ok (cores db) i" "receipts_ok (payment_receipts db) i" using i by (simp_all add: payments_wf_def)
  then obtain y where y: "y \<in> set (orders db)" "o_id y = pi_order_id i" "pi_status i = (if paid y then P_SETTLED else P_AWAITING_PAYMENT)"
    by (auto simp: intent_ok_def)
  then have "y = ord" using orders_wf_unique [OF platform_orders(1) [OF wf] y(1) ord] eq by simp
  with y(3) show st: "pi_status i = P_SETTLED \<longleftrightarrow> paid ord" by simp
  assume "paid ord"
  with st \<open>receipts_ok (payment_receipts db) i\<close> have "filter (matched_for (pi_id i)) (payment_receipts db) \<noteq> []"
    by (auto simp: receipts_ok_def)
  then show "\<exists>r \<in> set (payment_receipts db). matched_for (pi_id i) r" by (auto simp: filter_empty_conv)
qed

lemma platform_checks:
  assumes wf: "platform_wf k db" and t: "is_ok (dt_add now (- (stale * SECOND)))"
  shows "\<exists>ob tb. run_checks now k stale db = Inr [None, None, None, None, None, None, ob, tb, None] \<and>
    (\<forall>f. ob = Some f \<longrightarrow> f_kind f = ''outbox_backlog'') \<and> (\<forall>f. tb = Some f \<longrightarrow> f_kind f = ''tigerbeetle_intent_control_failure'')"
proof -
  have st: "stamps_wf db" "ledger_ok db" "audit_intact k db"
    using wf by (simp_all add: platform_wf_def rest_wf_def money_wf_def books_wf_def)
  have 1: "unbalanced_journal_finding db = None"
    using st(2) ledger_wf_no_unbalanced by (simp add: unbalanced_journal_None ledger_ok_def)
  obtain ms where "currency_mismatches db (remdups (map j_currency (journals db))) = Inr ms"
    using currency_mismatches_total [of "remdups (map j_currency (journals db))" db] st(2) by (auto simp: ledger_ok_def)
  then have 2: "settlement_conservation db = Inr None"
    using currency_mismatches_ok platform_conserved [OF wf] by (auto simp: settlement_conservation_def)
  have 3: "settled_orders_without_matching_receipt db = None" "settled_intents_without_paid_order db = None"
    unfolding settled_orders_None settled_intents_None using platform_intents [OF wf] by metis+
  have 4: "issuance_count_mismatch db = None" "duplicate_serials db = None"
    unfolding issuance_count_None duplicate_serials_None
    using stamps_wf_batch [OF st(1)] batch_okD stamps_wf_keys(1) [OF st(1)] by blast+
  have 5: "audit_chain_finding k db = Inr None"
    using st(3) by (simp add: audit_intact_iff audit_chain_finding_def INTACT_def)
  obtain ob where ob: "outbox_health now stale db = Inr ob" "\<forall>f. ob = Some f \<longrightarrow> f_kind f = ''outbox_backlog''"
    using t by (simp add: outbox_health_def is_ok_iff Let_def) force
  obtain tb where tb: "tigerbeetle_intent_health now stale db = Inr tb" "\<forall>f. tb = Some f \<longrightarrow> f_kind f = ''tigerbeetle_intent_control_failure''"
    using t by (simp add: tigerbeetle_intent_health_def is_ok_iff Let_def) force
  show ?thesis
    using ob(2) tb(2) by (intro exI [of _ ob] exI [of _ tb]) (simp add: run_checks_def 1 2 3 4 5 ob(1) tb(1))
qed

lemma insert_run_platform [inv_pres]:
  assumes "platform_wf k db" and "run_reconciliation now sk stale snaps provs db = Inr (rep, db')"
  shows "platform_wf k db'"
proof -
  obtain r where db': "db' = db\<lparr>next_uuid := Suc (next_uuid db), reconciliation_runs := reconciliation_runs db @ [r]\<rparr>"
    using assms(2) by (auto simp: run_reconciliation_def Let_def insert_reconciliation_run_ok)
  have "stamps_wf db'" using stamps_wf_kept [OF platform_orders(2) [OF assms(1)], of db'] by (simp add: db' issuance_keptI)
  moreover have "rest_wf k db'" using assms(1) by (intro rest_wf_cong [of db' db]) (simp_all add: db' platform_wf_def)
  ultimately show ?thesis by (simp add: platform_wf_def)
qed

lemma clean_run:
  assumes "run_reconciliation now k stale snaps provs db = Inr (rep, db')" and "clean rep"
  shows "run_checks now k stale db = Inr (replicate 9 None) \<and> external_settlement_findings snaps provs db = []"
proof -
  obtain checks where ch: "run_checks now k stale db = Inr checks"
    and none: "List.map_filter (\<lambda>x. x) checks = []" "external_settlement_findings snaps provs db = []"
    using assms by (auto simp: run_reconciliation_def Let_def clean_def)
  have "\<forall>c \<in> set checks. c = None" using none(1) by (auto simp: List.map_filter_def filter_empty_conv)
  moreover have "length checks = 9" using ch by (auto elim: run_checks_ok)
  ultimately have "checks = replicate 9 None" by (metis replicate_length_same)
  with ch none(2) show ?thesis by simp
qed

section \<open>A sample run\<close>

lemma sample_reconciles:
  "\<exists>rep db'. run_reconciliation in_2026 k 900 [] [] issuing_db = Inr (rep, db') \<and> clean rep"
proof -
  have "is_ok (dt_add in_2026 (- (900 * SECOND)))" by code_simp
  note t = this
  obtain ob tb where ch: "run_checks in_2026 k 900 issuing_db = Inr [None, None, None, None, None, None, ob, tb, None]"
    using platform_checks [OF issuing_db_wf t] by blast
  have e: "outbox_messages issuing_db = []" "tb_ledger_intents issuing_db = []" "reconciliation_runs issuing_db = []"
    by (simp_all add: issuing_db_def paid_db_def sample_db_def empty_db_def)
  have "outbox_health in_2026 900 issuing_db = Inr None" "tigerbeetle_intent_health in_2026 900 issuing_db = Inr None"
    using t by (simp_all add: is_ok_iff outbox_health_def tigerbeetle_intent_health_def e)
  with ch have ch: "run_checks in_2026 k 900 issuing_db = Inr (replicate 9 None)"
    by (auto elim!: run_checks_ok simp: numeral_eq_Suc)
  have "external_settlement_findings [] [] issuing_db = []"
    by (simp add: external_settlement_findings_def reconcile_external_settlements_def)
  with ch show ?thesis
    by (simp add: run_reconciliation_def Let_def clean_def List.map_filter_def insert_reconciliation_run_def insert_row_def
        reconciliation_run_types_def reconciliation_run_checks_def new_run_def varchar_def unused_def e del: bind_res_eq_Inr)
qed

section \<open>Properties\<close>

text \<open>
  C39. A clean reconciliation means what it says.  Whatever state the database is in, when a run reports no finding, every
  journal balances; in every currency the collections equal the duty, VAT and unapplied receipts; every paid order with a
  payment intent has a matched receipt, and every settled intent a paid order; every batch counts its stamps and has no more
  than requested; no serial appears twice; no message is dead-lettered; and the audit chain verifies.
\<close>

theorem clean_report_sound:
  assumes "run_reconciliation now k stale snaps provs db = Inr (rep, db')" and "clean rep"
  shows "unbalanced_journals db = [] \<and> (\<forall>c \<in> j_currency ` set (journals db). conserved db c) \<and>
    (\<forall>ord \<in> set (orders db). \<forall>i \<in> set (payment_intents db). paid ord \<and> pi_order_id i = o_id ord \<longrightarrow>
      (\<exists>r \<in> set (payment_receipts db). matched_for (pi_id i) r)) \<and>
    (\<forall>i \<in> set (payment_intents db). \<forall>ord \<in> set (orders db). pi_status i = P_SETTLED \<and> o_id ord = pi_order_id i \<longrightarrow> paid ord) \<and>
    (\<forall>b \<in> set (stamp_batches db). b_issued_count b = int (length (batch_stamps db (b_id b))) \<and> b_issued_count b \<le> b_requested_count b) \<and>
    distinct (map s_serial (stamps db)) \<and> (\<forall>m \<in> set (outbox_messages db). m_dead_lettered_at m = None) \<and>
    (\<exists>v. verify_audit_chain k db = Inr v \<and> intact v)"
proof -
  have "run_checks now k stale db = Inr (replicate 9 None)" using clean_run [OF assms] by blast
  then show ?thesis
  proof (rule run_checks_ok)
    fix c ob tb ch
    assume "settlement_conservation db = Inr c" "outbox_health now stale db = Inr ob" "audit_chain_finding k db = Inr ch"
      and "replicate 9 None = [unbalanced_journal_finding db, c, settled_orders_without_matching_receipt db,
          settled_intents_without_paid_order db, issuance_count_mismatch db, duplicate_serials db, ob, tb, ch]"
    then have n: "unbalanced_journal_finding db = None" "settlement_conservation db = Inr None"
      "settled_orders_without_matching_receipt db = None" "settled_intents_without_paid_order db = None"
      "issuance_count_mismatch db = None" "duplicate_serials db = None" "outbox_health now stale db = Inr None"
      "audit_chain_finding k db = Inr None" by (simp_all add: numeral_eq_Suc)
    have "\<forall>m \<in> set (outbox_messages db). m_dead_lettered_at m = None"
      using n(7) by (auto simp: outbox_health_def Let_def filter_empty_conv split: if_splits)
    moreover have "\<exists>v. verify_audit_chain k db = Inr v \<and> intact v"
      using n(8) by (auto simp: audit_chain_finding_def split: if_splits)
    ultimately show ?thesis
      using n(1) settlement_conservation_None [OF n(2), THEN iffD1, OF refl] n(3) n(4) n(5) n(6)
      unfolding unbalanced_journal_None settled_orders_None settled_intents_None issuance_count_None duplicate_serials_None
      by (intro conjI) assumption+
  qed
qed

theorem clean_report_sound_witness:
  "\<exists>rep db'. run_reconciliation in_2026 ''k'' 900 [] [] issuing_db = Inr (rep, db') \<and> clean rep \<and> unbalanced_journals issuing_db = []"
  using sample_reconciles [of "''k''"] clean_report_sound by blast

end
