(* ===== verification/Delivery.thy ===== *)
theory Delivery
  imports Tigerbeetle_Ledger Reconciliation
begin

text \<open>
  What the services leave to the worker, and what they do to stamps over time: every message they enqueue has an event type
  that is handled and carries the fields that its handler reads, messages are only appended, and stamps are only
  appended or moved along their life cycle.
\<close>

section \<open>Messages that can be delivered\<close>

text \<open>The event types of \<^verbatim>\<open>worker/handlers.py\<close> with the field that names the object of the message.\<close>

definition ADDRESSES :: "(string \<times> string) list" where
  "ADDRESSES =
     [(''order.issue_stamps'', ''order_id''), (''batch.anchor_requested'', ''batch_id''), (''order.awaiting_payment'', ''order_id''),
      (''payment.mismatch_requires_review'', ''receipt_id''), (''tigerbeetle.transfer_requested'', ''intent_id'')]"

definition payload_ok :: "string \<Rightarrow> json_object \<Rightarrow> bool" where
  "payload_ok ev p =
     ((\<exists>f u. map_of ADDRESSES ev = Some f \<and> require_str p f = Inr (uuid_str u)) \<and>
      (ev = ''batch.anchor_requested'' \<longrightarrow> is_ok (require_str p ''merkle_root'')) \<and>
      (ev = ''payment.mismatch_requires_review'' \<longrightarrow> is_ok (require_int p ''expected_minor'') \<and> is_ok (require_int p ''amount_minor'')))"

definition deliverable :: "outbox_message \<Rightarrow> bool" where
  "deliverable m = payload_ok (m_event_type m) (m_payload m)"

text \<open>Stamps are added at the end, and the others keep their place and move along their life cycle.\<close>

definition stamps_move :: "db \<Rightarrow> db \<Rightarrow> bool" where
  "stamps_move db db' = (\<exists>ss new. stamps db' = ss @ new \<and> list_all2 stamp_move (stamps db) ss)"

lemma stamps_moveI: "stamps db' = stamps db \<Longrightarrow> stamps_move db db'"
  unfolding stamps_move_def by (rule exI [of _ "stamps db"], rule exI [of _ "[]"]) (simp add: list.rel_refl)

lemma stamps_move_trans [trans]:
  assumes "stamps_move a b" and "stamps_move b c"
  shows "stamps_move a c"
proof -
  obtain ss new ss' new' where s: "stamps b = ss @ new" "list_all2 stamp_move (stamps a) ss" "stamps c = ss' @ new'" "list_all2 stamp_move (ss @ new) ss'"
    using assms by (auto simp: stamps_move_def)
  obtain us vs where uv: "ss' = us @ vs" "list_all2 stamp_move ss us" using s(4) by (auto simp: list_all2_append1)
  have "list_all2 stamp_move (stamps a) us" using list_all2_trans [OF stamp_move_trans s(2) uv(2)] .
  with s(3) uv(1) show ?thesis by (auto simp: stamps_move_def)
qed

definition advances :: "db \<Rightarrow> db \<Rightarrow> bool" where
  "advances db db' =
     ((\<exists>ms. outbox_messages db' = outbox_messages db @ ms \<and> list_all deliverable ms) \<and> stamps_move db db')"

lemma advancesI: "outbox_messages db' = outbox_messages db \<Longrightarrow> stamps db' = stamps db \<Longrightarrow> advances db db'"
  by (simp add: advances_def stamps_moveI)

lemma advances_refl [simp]: "advances db db"
  by (simp add: advancesI)

lemma advances_trans [trans]:
  assumes "advances a b" and "advances b c"
  shows "advances a c"
proof -
  obtain ms ms' where "outbox_messages b = outbox_messages a @ ms" "list_all deliverable ms" "outbox_messages c = outbox_messages b @ ms'"
    "list_all deliverable ms'" using assms by (auto simp: advances_def)
  then show ?thesis using assms stamps_move_trans by (auto simp: advances_def)
qed

lemma advances_audit: "record_audit_event a r t k rv db = Inr (e, db') \<Longrightarrow> advances db db'"
  by (drule record_audit_event_db) (simp add: advancesI)

lemma advances_enqueue:
  assumes "enqueue at ai ev key p av db = Inr (r, db')" and "payload_ok ev p"
  shows "advances db db'"
  using enqueue_ok [OF assms(1)] assms(2) by (auto simp: advances_def deliverable_def stamps_moveI)

lemma advances_stamps:
  "list_all2 stamp_move (stamps db) (stamps db') \<Longrightarrow> outbox_messages db' = outbox_messages db \<Longrightarrow> advances db db'"
  by (auto simp: advances_def stamps_move_def)

lemma require_field [simp]:
  "require_str ((f, JStr s) # p) f = Inr s" "f \<noteq> g \<Longrightarrow> require_str ((g, v) # p) f = require_str p f"
  "require_int ((f, JInt i) # p) f = Inr i" "f \<noteq> g \<Longrightarrow> require_int ((g, v) # p) f = require_int p f"
  by (simp_all add: require_str_def require_int_def doc_get_def)

section \<open>Orders and payments\<close>

lemma advances_mask: "order_mask db' = order_mask db \<Longrightarrow> outbox_messages db' = outbox_messages db \<Longrightarrow> advances db db'"
  by (rule advancesI) (assumption, rule order_maskD(4))

lemma transition_advances: "transition ord tgt a why now db = Inr (ord', db') \<Longrightarrow> advances db db'"
  using transition_frame [of ord tgt a why now db ord' db'] by (blast intro: advances_mask)

lemma create_intent_advances:
  assumes "create_intent ord now sfx db = Inr db'"
  shows "advances db db'"
proof -
  obtain i db1 r pl where ins: "insert_payment_intent (new_intent ord (reference ''PAY'' now sfx) now) db = Inr (i, db1)"
    and eq: "enqueue ''order'' (o_id ord) ''order.awaiting_payment'' (''order.awaiting_payment:'' @ uuid_str (o_id ord))
         ((''order_id'', JStr (uuid_str (o_id ord))) # pl) now db1 = Inr (r, db')"
    using assms by (auto simp: create_intent_def)
  have "advances db db1" using ins by (auto simp: insert_ok intro: advancesI)
  moreover have "advances db1 db'" by (rule advances_enqueue [OF eq]) (auto simp: payload_ok_def ADDRESSES_def)
  ultimately show ?thesis by (rule advances_trans)
qed

lemma submit_order_advances:
  assumes "submit_order a cmd cs now k rv mx ik sfx db = Inr (ord', db')"
  shows "advances db db'"
  using assms
proof (rule submit_orderE)
  fix co ta up b oc ord db1 tr db2 db3 e
  assume ins: "insert_order (new_order (reference ''ORD'' now sfx) co a cmd ta b oc now) db = Inr (ord, db1)"
    and tr: "insert_order_transition (new_transition (o_id ord) None O_SUBMITTED (Some (ac_principal_id a))
        ''submitted'' now) db1 = Inr (tr, db2)"
    and rt: "route_order a oc now ord db2 = Inr (ord', db3)"
    and au: "record_audit_event (audit_actor_of a)
        (order_record ''order.submit'' ord' (order_snapshot ord') (ac_request_id a) ik) now k rv db3 = Inr (e, db')"
  have "advances db db2" using ins tr by (auto simp: insert_ok intro: advancesI)
  moreover have "advances db2 db3" using route_order_frame [OF rt] by (blast intro: advances_mask)
  ultimately show ?thesis using advances_audit [OF au] advances_trans by blast
qed

lemma apply_decision_advances:
  assumes "apply_decision a c now sfx ord db = Inr (ord', f, db')"
  shows "advances db db'"
proof -
  consider "transition ord O_REJECTED (Some a) (ap_cmd_reason c) now db = Inr (ord', db')"
    | o1 db1 db2 where "transition ord O_APPROVED (Some a) ''all approvals recorded'' now db = Inr (o1, db1)"
      "transition o1 O_AWAITING_PAYMENT (Some a) ''payment intent created'' now db1 = Inr (ord', db2)"
      "create_intent ord' now sfx db2 = Inr db'"
    | "db' = db"
    using assms by (auto simp: apply_decision_def split: if_splits)
  then show ?thesis
  proof cases
    case 2
    have "advances db db2" using transition_advances [OF 2(1)] transition_advances [OF 2(2)] by (rule advances_trans)
    then show ?thesis using create_intent_advances [OF 2(3)] by (rule advances_trans)
  qed (auto dest: transition_advances)
qed

lemma decide_approval_advances:
  assumes "decide_approval a cmd now k rv ik sfx db = Inr (ord', db')"
  shows "advances db db'"
  using assms
proof (rule decide_approvalE)
  fix ord row db1 f db2 e
  assume ins: "insert_approval (new_approval (o_id ord) cmd a now) db = Inr (row, db1)"
    and ap: "apply_decision a cmd now sfx ord db1 = Inr (ord', f, db2)"
    and au: "record_audit_event (audit_actor_of a)
         (order_record (''order.approval.'' @ approval_decision_value (ap_cmd_decision cmd)) ord'
            (order_snapshot ord' @ [(''payment_intent_created'', JBool f)]) (ac_request_id a) ik)
         now k rv db2 = Inr (e, db')"
  have "advances db db1" using ins by (auto simp: insert_ok intro: advancesI)
  then show ?thesis using apply_decision_advances [OF ap] advances_audit [OF au] advances_trans by blast
qed

lemma cancel_order_advances: "cancel_order a oid why now k rv db = Inr (ord', db') \<Longrightarrow> advances db db'"
  by (erule cancel_orderE) (blast dest: transition_advances advances_audit intro: advances_trans)

lemma settle_advances:
  assumes "settle i rc now db = Inr (oid, db')"
  shows "advances db db'"
  using assms
proof (rule settleE)
  fix ord ord' db1 j db2 r
  assume mv: "move_order ord O_PAID None (''settlement '' @ rc_external_reference rc) now db = Inr (ord', db1)"
    and pj: "post_journal (''settlement:'' @ rc_external_reference rc) ''duty_settlement'' (settlement_postings ord) now
       (Some (o_id ord)) (Some (rc_id rc)) None
       (save_intent (i\<lparr>pi_status := P_SETTLED, pi_settled_at := Some now\<rparr>) db1) = Inr (j, db2)"
    and eq: "enqueue ''order'' (o_id ord) ''order.issue_stamps'' (''order.issue_stamps:'' @ uuid_str (o_id ord))
         [(''order_id'', JStr (uuid_str (o_id ord))), (''quantity'', JInt (o_quantity ord))] now db2 = Inr (r, db')"
  have "advances db db1" using mv by (auto simp: move_order_ok intro: advancesI)
  moreover have "advances db1 db2" using post_journal_ok [OF pj] by (intro advancesI) (simp_all add: save_intent_def)
  moreover have "advances db2 db'" by (rule advances_enqueue [OF eq]) (auto simp: payload_ok_def ADDRESSES_def)
  ultimately show ?thesis using advances_trans by blast
qed

lemma quarantine_advances:
  assumes "quarantine adv i rc now db = Inr (oid, db')"
  shows "advances db db'"
proof -
  obtain p1 p2 j db1 r where pj: "post_journal (''unapplied:'' @ rc_external_reference rc) ''unapplied_receipt'' [p1, p2] now None (Some (rc_id rc)) None db = Inr (j, db1)"
    and eq: "enqueue ''payment_receipt'' (rc_id rc) ''payment.mismatch_requires_review'' (''payment.mismatch:'' @ rc_external_reference rc)
         [(''receipt_id'', JStr (uuid_str (rc_id rc))), (''declared_reference'', JStr (ra_declared_reference adv)),
          (''amount_minor'', JInt (ra_amount_minor adv)), (''expected_minor'', JInt (pi_amount_minor i))] now db1 = Inr (r, db')"
    using assms by (auto simp: quarantine_def)
  have "advances db db1" using post_journal_ok [OF pj] by (intro advancesI) simp_all
  moreover have "advances db1 db'" by (rule advances_enqueue [OF eq]) (auto simp: payload_ok_def ADDRESSES_def)
  ultimately show ?thesis by (rule advances_trans)
qed

lemma ingest_remittance_advances:
  assumes "ingest_remittance adv now k rv db = Inr (res, db')"
  shows "advances db db'"
  using assms
proof (cases rule: ingest_remittanceE)
  case (fresh intent h v rc db1 oid db2 e)
  have "advances db db1" using fresh(7) by (intro advancesI) simp_all
  moreover have "advances db1 db2"
    using fresh(8) by (auto simp: apply_receipt_def split: option.splits if_splits intro: settle_advances quarantine_advances)
  ultimately show ?thesis using advances_audit [OF fresh(9)] advances_trans by blast
qed simp

section \<open>Issuance and stamps\<close>

lemma complete_batch_advances:
  assumes "complete_batch ord b m now db = Inr (p, db')"
  shows "advances db db'"
proof -
  have sv: "advances db db1" if "(if c then save_batch b' db else Inr db) = Inr db1" for c b' db db1
    using that by (auto simp: save_batch_ok intro: advancesI split: if_splits)
  obtain db1 where 1: "(if b_status b \<noteq> B_ISSUED then save_batch (b\<lparr>b_status := B_ISSUED, b_issued_count := m, b_completed_at := Some now\<rparr>) db
      else Inr db) = Inr db1" using assms by (auto simp: complete_batch_def)
  show ?thesis
  proof (cases "o_status ord = O_ISSUING")
    case True
    then obtain ord' db2 root r n where mv: "move_order ord O_ISSUED None ''issuance complete'' now db1 = Inr (ord', db2)"
      and eq: "enqueue ''stamp_batch'' (b_id b) ''batch.anchor_requested'' (''batch.anchor:'' @ uuid_str (b_id b))
              [(''batch_id'', JStr (uuid_str (b_id b))), (''order_id'', JStr (uuid_str (o_id ord'))),
               (''stamp_count'', JInt n), (''merkle_root'', JStr root)] now db2 = Inr (r, db')"
      using assms 1 unfolding complete_batch_def by (auto simp: Let_def)
    have "advances db1 db2" using mv by (auto simp: move_order_ok intro: advancesI)
    moreover have "advances db2 db'" by (rule advances_enqueue [OF eq]) (auto simp: payload_ok_def ADDRESSES_def)
    ultimately show ?thesis using sv [OF 1] advances_trans by blast
  next
    case False
    with assms 1 have "db' = db1" unfolding complete_batch_def by auto
    with sv [OF 1] show ?thesis by simp
  qed
qed

lemma issue_chunk_advances:
  assumes "issue_chunk oid c sk now db = Inr (p, db')"
  shows "advances db db'"
  using assms
proof (rule issue_chunkE)
  fix ord b0 db1 ord' db2 and b :: stamp_batch
  let ?m = "int (length (batch_stamps db2 (b_id b)))"
  assume eb: "ensure_batch ord now db = Inr (b0, db1)" and bi: "begin_issuing ord b0 now db1 = Inr (ord', b, db2)"
  have "advances db db1" using eb by (cases rule: ensure_batchE) (auto intro: advancesI)
  moreover have "advances db1 db2" using bi by (cases rule: begin_issuingE) (auto simp: move_order_ok save_batch_ok intro: advancesI)
  ultimately have "advances db db2" by (rule advances_trans)
  moreover have "advances db2 db3" if "issue_stamps ord' b n m sk now db2 = Inr (b', db3)" for n m b' db3
    using that by (cases rule: issue_stampsE) (auto simp: advances_def stamps_move_def list.rel_refl)
  moreover assume "(b_requested_count b \<le> ?m \<and> complete_batch ord' b ?m now db2 = Inr (p, db')) \<or>
     (?m < b_requested_count b \<and>
      (\<exists>b' db3. issue_stamps ord' b ?m (min c (b_requested_count b - ?m)) sk now db2 = Inr (b', db3) \<and>
       ((b_requested_count b' \<le> b_issued_count b' \<and> complete_batch ord' b' (b_issued_count b') now db3 = Inr (p, db')) \<or>
        (b_issued_count b' < b_requested_count b' \<and> db' = db3 \<and>
         p = \<lparr>ip_batch_id = b_id b', ip_requested = b_requested_count b', ip_issued = b_issued_count b', ip_completed = False\<rparr>))))"
  ultimately show ?thesis
  proof (elim disjE conjE exE)
    fix b' db3 assume "advances db db2" and st: "\<And>n m b' db3. issue_stamps ord' b n m sk now db2 = Inr (b', db3) \<Longrightarrow> advances db2 db3"
      and "issue_stamps ord' b ?m (min c (b_requested_count b - ?m)) sk now db2 = Inr (b', db3)"
      and cb: "complete_batch ord' b' (b_issued_count b') now db3 = Inr (p, db')"
    then have "advances db db3" using advances_trans by blast
    then show ?thesis using complete_batch_advances [OF cb] by (rule advances_trans)
  next
    assume "advances db db2" and cb: "complete_batch ord' b ?m now db2 = Inr (p, db')"
    from this(1) complete_batch_advances [OF cb] show ?thesis by (rule advances_trans)
  next
    fix b' db3 assume "advances db db2" and st: "\<And>n m b' db3. issue_stamps ord' b n m sk now db2 = Inr (b', db3) \<Longrightarrow> advances db2 db3"
      and "issue_stamps ord' b ?m (min c (b_requested_count b - ?m)) sk now db2 = Inr (b', db3)" and "db' = db3"
    then show ?thesis using advances_trans by blast
  qed
qed

lemma issue_step_advances:
  assumes "issue_step oid c sk k rv now db = Inr (p, db')"
  shows "advances db db'"
proof -
  obtain db1 where ch: "issue_chunk oid c sk now db = Inr (p, db1)"
    and "db' = db1 \<or> (\<exists>e r. record_audit_event ISSUER r now k rv db1 = Inr (e, db'))"
    using assms by (auto simp: issue_step_def split: if_splits)
  then show ?thesis using issue_chunk_advances [OF ch] advances_audit advances_trans by blast
qed

lemma issue_loop_advances: "issue_loop oid c sk k rv clock i db = (r, db') \<Longrightarrow> advances db db'"
proof (induction oid c sk k rv clock i db rule: issue_loop.induct)
  case (1 oid c sk k rv clock i db)
  show ?case
  proof (cases "issue_step oid c sk k rv (clock i) db")
    case (Inl e)
    with "1.prems" show ?thesis by (simp add: issue_loop.simps [of oid c sk k rv clock i])
  next
    case (Inr pr)
    then obtain p db1 where st: "issue_step oid c sk k rv (clock i) db = Inr (p, db1)" by (cases pr) simp
    show ?thesis
    proof (cases "ip_completed p")
      case True
      with st "1.prems" have "db' = db1" by (simp add: issue_loop.simps [of oid c sk k rv clock i])
      with issue_step_advances [OF st] show ?thesis by simp
    next
      case False
      with st "1.prems" have "issue_loop oid c sk k rv clock (Suc i) db1 = (r, db')" by (simp add: issue_loop.simps [of oid c sk k rv clock i])
      from "1.IH" [OF st refl False this] issue_step_advances [OF st] show ?thesis using advances_trans by blast
    qed
  qed
qed

lemma lifecycle_advances: "lifecycle db db' \<Longrightarrow> advances db db'"
  using lifecycle_tables(8) [of db db'] by (intro advances_stamps) (simp_all add: lifecycle_def)

lemma events_advance: "insert_stamp_events evs db = Inr db' \<Longrightarrow> advances db db'"
  using insert_stamp_events_lifecycle lifecycle_advances by blast

lemma activate_stamps_advances:
  assumes "platform_wf k db" and "activate_stamps actor serials now k rv key db = Inr (outs, db')"
  shows "advances db db'"
  using assms(2)
proof (rule activate_stampsE)
  fix evs db1 db2 e
  assume lp: "stamp_loop (activate_stamp actor now) (activated_event actor now) (dict_fromkeys serials) db = Inr (outs, evs, db1)"
    and ev: "insert_stamp_events evs db1 = Inr db2"
    and au: "record_audit_event (audit_actor_of actor) (activate_record (dict_fromkeys serials) outs actor key) now k rv db2 = Inr (e, db')"
  have "lifecycle db db1"
    using activation.loop_effect [OF lp _ stamps_wf_keys(1,2) [OF platform_orders(2) [OF assms(1)]]] activation.sweep_lifecycle by auto
  then show ?thesis using lifecycle_advances events_advance [OF ev] advances_audit [OF au] advances_trans by blast
qed

lemma void_stamps_advances:
  assumes "platform_wf k db" and "void_stamps actor serials why now k rv db = Inr (outs, db')"
  shows "advances db db'"
  using assms(2)
proof (rule void_stampsE)
  fix evs db1 db2 e
  assume lp: "stamp_loop (void_stamp now) (voided_event actor why now) (dict_fromkeys serials) db = Inr (outs, evs, db1)"
    and ev: "insert_stamp_events evs db1 = Inr db2"
    and au: "record_audit_event (audit_actor_of actor) (void_record (dict_fromkeys serials) outs why actor) now k rv db2 = Inr (e, db')"
  have "lifecycle db db1"
    using voiding.loop_effect [OF lp _ stamps_wf_keys(1,2) [OF platform_orders(2) [OF assms(1)]]] voiding.sweep_lifecycle by auto
  then show ?thesis using lifecycle_advances events_advance [OF ev] advances_audit [OF au] advances_trans by blast
qed

lemma expire_due_stamps_advances:
  assumes "platform_wf k db" and "expire_due_stamps now limit k rv db = Inr (n, db')"
  shows "advances db db'"
proof (cases "db' = db")
  case False
  with expire_due_stampsE [OF assms(2)] obtain evs db1 e r where
    ev: "insert_stamp_events evs (db\<lparr>stamps := update_where (\<lambda>s. s_id s \<in> s_id ` set (due_now now limit db))
          (\<lambda>s. s\<lparr>s_status := S_EXPIRED\<rparr>) (stamps db)\<rparr>) = Inr db1"
    and au: "record_audit_event EXPIRY_ACTOR r now k rv db1 = Inr (e, db')" by blast
  from lifecycle_advances [OF expire_sweep [OF assms(1)]] events_advance [OF ev] have "advances db db1" by (rule advances_trans)
  then show ?thesis using advances_audit [OF au] by (rule advances_trans)
qed simp

lemma record_inspection_advances:
  assumes wf: "platform_wf k db" and ri: "record_inspection actor cmd now k rv db = Inr (res, db')"
  shows "advances db db'"
  using ri
proof (rule record_inspectionE)
  fix batch plan accepted insp db1
  assume ii: "insert_inspection (new_inspection actor cmd plan accepted now) db = Inr (insp, db1)"
    and cl: "close_inspection actor cmd batch plan accepted insp now k rv db1 = Inr (res, db')"
  have a1: "advances db db1" using ii by (auto simp: insert_ok intro: advancesI)
  have wf1: "platform_wf k db1" using wf ii by (rule insert_inspection_platform)
  from cl have "advances db1 db'"
  proof (rule close_inspectionE)
    fix voided evs db2 db3 db4 e
    let ?sel = "filter (\<lambda>s. s_serial s \<in> set (ic_defective_serials cmd) \<and> s_batch_id s = b_id batch) (stamps db1)"
    assume v: "void_defective actor now ?sel db1 = (voided, evs, db2)"
      and sv: "(if accepted then Inr db2 else save_batch (batch\<lparr>b_status := B_INSPECTION_FAILED\<rparr>) db2) = Inr db3"
      and ev: "insert_stamp_events evs db3 = Inr db4"
      and au: "record_audit_event (audit_actor_of actor) (inspection_record (b_id batch) accepted plan cmd voided actor) now k rv db4 = Inr (e, db')"
    have keys: "distinct (map s_id (stamps db1))" using stamps_wf_keys [OF platform_orders(2) [OF wf1]] by blast
    have "db2 = db1\<lparr>stamps := map (\<lambda>s. if s \<in> set ?sel \<and> s_status s \<noteq> S_VOID then voided_at now s else s) (stamps db1)\<rparr>"
      using void_defective_effect [OF v _ _ keys] keys by (auto simp: distinct_map)
    then have "lifecycle db1 db2" by (auto simp: lifecycle_def list_all2_map2 intro!: list.rel_refl_strong voided_move)
    moreover have "advances db2 db3" using sv by (auto simp: save_batch_ok intro: advancesI split: if_splits)
    ultimately show ?thesis using lifecycle_advances events_advance [OF ev] advances_audit [OF au] advances_trans by blast
  qed
  with a1 show ?thesis by (rule advances_trans)
qed

lemma verify_advances: "verify actor req now sk k rv db = Inr (res, db') \<Longrightarrow> advances db db'"
  by (erule verifyE) (auto simp: insert_ok dest!: record_audit_event_db intro: advancesI)

section \<open>Reconciliation and the external ledger\<close>

lemma run_reconciliation_advances: "run_reconciliation now k stale snaps provs db = Inr (rep, db') \<Longrightarrow> advances db db'"
  by (auto simp: run_reconciliation_def Let_def insert_ok intro: advancesI)

lemma create_ledger_intent_advances:
  assumes "create_ledger_intent req now k rv a db = Inr (t, db')"
  shows "advances db db'"
  using assms
proof (rule create_ledger_intent_cases)
  fix c p h
  assume "(intents_for c db = [t] \<and> tb_payload_hash t = h \<and> db' = db) \<or>
     (intents_for c db = [] \<and> (\<exists>db1. insert_tb_ledger_intent (new_tb_intent c h (db_now db)) db = Inr (t, db1) \<and>
        announce_intent t now k rv a db1 = Inr (t, db')))"
  then show ?thesis
  proof (elim disjE conjE exE)
    fix db1 assume ins: "insert_tb_ledger_intent (new_tb_intent c h (db_now db)) db = Inr (t, db1)"
      and an: "announce_intent t now k rv a db1 = Inr (t, db')"
    obtain r db2 e where eq: "enqueue ''tigerbeetle_ledger_intent'' (tb_id t) ''tigerbeetle.transfer_requested''
         (''tigerbeetle-transfer:'' @ tb_transfer_id t) [(''intent_id'', JStr (uuid_str (tb_id t)))] now db1 = Inr (r, db2)"
      and au: "record_audit_event a (intent_created_record t) now k rv db2 = Inr (e, db')"
      using an by (auto simp: announce_intent_def)
    have "advances db db1" using ins by (auto simp: insert_ok intro: advancesI)
    moreover have "advances db1 db2" by (rule advances_enqueue [OF eq]) (auto simp: payload_ok_def ADDRESSES_def)
    ultimately show ?thesis using advances_audit [OF au] advances_trans by blast
  qed simp
qed

lemma submit_advances:
  assumes "submit_intent_lookup_before_retry client i clock k rv (db, x) = (r, db', x')"
  shows "advances db db'"
proof (rule submit_induct [OF assms, of "advances db"])
  fix db1 t db2 assume "advances db db1" "save_tb t db1 = Inr db2"
  moreover from save_tb_ok [OF this(2)] have "advances db1 db2" by (intro advancesI) simp_all
  ultimately show "advances db db2" using advances_trans by blast
next
  fix db1 rec t e db2 assume "advances db db1" "record_audit_event TB_RELAY rec t k rv db1 = Inr (e, db2)"
  then show "advances db db2" using advances_audit advances_trans by blast
qed simp

end
