(* ===== verification/Worker.thy ===== *)
theory Worker
  imports Delivery
begin

text \<open>
  \<^verbatim>\<open>src/src/taxstamp/worker/handlers.py\<close>, \<^verbatim>\<open>worker/relay.py\<close> and \<^verbatim>\<open>src/src/taxstamp/projection.py\<close>: the delivery of
  outbox messages and the periodic jobs.

  A handler works in the transaction of the relay, or in transactions of its own that commit before it returns.  It gives its
  result with two databases: what is committed when it returns, and what the transaction of the relay sees.  The external
  systems (TigerBeetle and the Kafka producer) share one state \<open>w\<close>.  The readings of the clock are arguments.
\<close>

section \<open>Identifiers\<close>

text \<open>\<^verbatim>\<open>s.replace(pat, '')\<close>\<close>

fun remove_sub :: "string \<Rightarrow> string \<Rightarrow> string" where
  "remove_sub pat [] = []"
| "remove_sub pat (c # cs) =
     (if pat \<noteq> [] \<and> take (length pat) (c # cs) = pat then remove_sub pat (drop (length pat - 1) cs) else c # remove_sub pat cs)"

definition strip :: "(char \<Rightarrow> bool) \<Rightarrow> string \<Rightarrow> string" where
  "strip p s = rev (dropWhile p (rev (dropWhile p s)))"

definition hex_val :: "char \<Rightarrow> nat option" where
  "hex_val c = (let n = (of_char c :: nat) in
     if 48 \<le> n \<and> n \<le> 57 then Some (n - 48) else if 97 \<le> n \<and> n \<le> 102 then Some (n - 87)
     else if 65 \<le> n \<and> n \<le> 70 then Some (n - 55) else None)"

text \<open>\<^verbatim>\<open>int(s, 16)\<close>: white space around, a sign, the prefix \<^verbatim>\<open>0x\<close> and single underscores between digits are allowed.\<close>

fun digits16 :: "nat \<Rightarrow> string \<Rightarrow> nat option" where
  "digits16 acc [] = Some acc"
| "digits16 acc (c # cs) =
     (case hex_val c of
        Some d \<Rightarrow> digits16 (16 * acc + d) cs
      | None \<Rightarrow> if c = CHR ''_'' \<and> cs \<noteq> [] \<and> hex_val (hd cs) \<noteq> None then digits16 acc cs else None)"

definition natural16 :: "string \<Rightarrow> nat option" where
  "natural16 s =
     (let s = (if length s \<ge> 2 \<and> s ! 0 = CHR ''0'' \<and> (s ! 1 = CHR ''x'' \<or> s ! 1 = CHR ''X'')
               then (let t = drop 2 s in if t \<noteq> [] \<and> hd t = CHR ''_'' then tl t else t) else s)
      in if s = [] \<or> hex_val (hd s) = None then None else digits16 0 s)"

definition int16 :: "string \<Rightarrow> int res" where
  "int16 s =
     (let t = strip py_space s;
          neg = (t \<noteq> [] \<and> hd t = CHR ''-'');
          u = (if t \<noteq> [] \<and> (hd t = CHR ''-'' \<or> hd t = CHR ''+'') then tl t else t)
      in case natural16 u of None \<Rightarrow> Inl ValueError | Some n \<Rightarrow> Inr (if neg then - int n else int n))"

definition UUID :: "string \<Rightarrow> uuid res" where
  "UUID s =
     (let h = filter (\<lambda>c. c \<noteq> CHR ''-'') (strip (\<lambda>c. c = CHR ''{'' \<or> c = CHR ''}'') (remove_sub ''uuid:'' (remove_sub ''urn:'' s)))
      in if length h \<noteq> 32 then Inl ValueError
         else bind_res (int16 h) (\<lambda>n. if 0 \<le> n \<and> n < 2 ^ 128 then Inr (nat n) else Inl ValueError))"

section \<open>Projection\<close>

record projection_envelope =
  pe_event_id :: string
  pe_event_type :: string
  pe_aggregate_type :: string
  pe_aggregate_id :: string
  pe_dedupe_key :: string
  pe_occurred_at :: string
  pe_payload :: json_object

definition from_outbox :: "outbox_message \<Rightarrow> instant \<Rightarrow> projection_envelope" where
  "from_outbox m occurred_at =
     \<lparr>pe_event_id = uuid_str (m_id m), pe_event_type = m_event_type m, pe_aggregate_type = m_aggregate_type m,
      pe_aggregate_id = uuid_str (m_aggregate_id m), pe_dedupe_key = m_dedupe_key m, pe_occurred_at = isoformat occurred_at,
      pe_payload = m_payload m\<rparr>"

definition envelope_document :: "projection_envelope \<Rightarrow> json_object" where
  "envelope_document e =
     [(''event_id'', JStr (pe_event_id e)), (''event_type'', JStr (pe_event_type e)), (''aggregate_type'', JStr (pe_aggregate_type e)),
      (''aggregate_id'', JStr (pe_aggregate_id e)), (''dedupe_key'', JStr (pe_dedupe_key e)), (''occurred_at'', JStr (pe_occurred_at e)),
      (''payload'', JObj (pe_payload e))]"

text \<open>
  \<^verbatim>\<open>KafkaProjectionPublisher.publish\<close> on the producer, a library object: \<open>send topic key value headers\<close> stands for
  sending and waiting for the acknowledgement.
\<close>

type_synonym 'w producer = "string \<Rightarrow> string \<Rightarrow> json_object \<Rightarrow> (string \<times> bytes) list \<Rightarrow> 'w \<Rightarrow> unit res \<times> 'w"

definition kafka_publish :: "'w producer \<Rightarrow> string \<Rightarrow> projection_envelope \<Rightarrow> 'w \<Rightarrow> unit res \<times> 'w" where
  "kafka_publish send topic e =
     send topic (pe_aggregate_type e @ '':'' @ pe_aggregate_id e) (envelope_document e)
       [(''event_type'', utf8 (pe_event_type e)), (''event_id'', utf8 (pe_event_id e))]"

section \<open>Handlers\<close>

text \<open>
  What a handler uses of the runtime.  \<open>rt_text\<close> is the text of an exception, which the model of exceptions does not keep.
\<close>

record 'w runtime =
  rt_issuance_chunk_size :: int
  rt_device_hmac_secret :: string
  rt_audit_chain_secret :: string
  rt_revision :: string
  rt_outbox_lease_seconds :: int
  rt_outbox_batch_size :: int
  rt_outbox_max_attempts :: int
  rt_anchor :: provider_client
  rt_tigerbeetle_client :: "'w tb_client option"
  rt_kafka_publisher :: "(projection_envelope \<Rightarrow> 'w \<Rightarrow> unit res \<times> 'w) option"
  rt_text :: "exn \<Rightarrow> string"

record 'w handled =
  hd_result :: "json_object res"
  hd_committed :: db
  hd_session :: db
  hd_world :: 'w

type_synonym 'w handler = "'w runtime \<Rightarrow> (nat \<Rightarrow> instant) \<Rightarrow> json_object \<Rightarrow> db \<times> 'w \<Rightarrow> 'w handled"

text \<open>A handler in the transaction of the relay, and one with transactions of its own.\<close>

definition in_session :: "(json_object \<times> db) res \<Rightarrow> db \<times> 'w \<Rightarrow> 'w handled" where
  "in_session r = (\<lambda>(db, w).
     case r of Inl e \<Rightarrow> \<lparr>hd_result = Inl e, hd_committed = db, hd_session = db, hd_world = w\<rparr>
     | Inr (j, db') \<Rightarrow> \<lparr>hd_result = Inr j, hd_committed = db, hd_session = db', hd_world = w\<rparr>)"

definition own_transactions :: "json_object res \<Rightarrow> db \<times> 'w \<Rightarrow> 'w handled" where
  "own_transactions r = (\<lambda>(db, w). \<lparr>hd_result = r, hd_committed = db, hd_session = db, hd_world = w\<rparr>)"

definition WORKER_ACTOR :: audit_actor where
  "WORKER_ACTOR = \<lparr>aa_principal_id = None, aa_subject = ''system:worker'', aa_role = ''operator'', aa_company_id = None\<rparr>"

definition handle_issue_stamps :: "'w handler" where
  "handle_issue_stamps rt clock payload = (\<lambda>(db, w).
     case bind_res (require_str payload ''order_id'') UUID of
       Inl e \<Rightarrow> own_transactions (Inl e) (db, w)
     | Inr order_id \<Rightarrow>
         (case issue_order order_id (rt_issuance_chunk_size rt) (rt_device_hmac_secret rt) (rt_audit_chain_secret rt)
                 (rt_revision rt) clock db of
            (Inl e, db) \<Rightarrow> own_transactions (Inl e) (db, w)
          | (Inr p, db) \<Rightarrow> own_transactions
              (Inr [(''batch_id'', JStr (uuid_str (ip_batch_id p))), (''issued'', JInt (ip_issued p))]) (db, w)))"

definition anchored_record :: "stamp_batch \<Rightarrow> anchor_receipt \<Rightarrow> audit_record" where
  "anchored_record b receipt =
     \<lparr>ar_action = ''batch.anchored'', ar_target_type = ''stamp_batch'', ar_target_id = uuid_str (b_id b), ar_outcome = ''success'',
      ar_before_state = None,
      ar_after_state = Some [(''merkle_root'', JStr (an_root receipt)), (''external_reference'', JStr (an_external_reference receipt)),
        (''anchored_at'', JStr (an_anchored_at receipt))],
      ar_request_id = None, ar_idempotency_key = None\<rparr>"

definition handle_anchor_batch :: "'w handler" where
  "handle_anchor_batch rt clock payload = (\<lambda>(db, w). in_session
     (bind_res (bind_res (require_str payload ''batch_id'') UUID) (\<lambda>batch_id.
      bind_res (require_str payload ''merkle_root'') (\<lambda>root.
      bind_res (anchor (rt_anchor rt) (uuid_str batch_id) root) (\<lambda>receipt.
      bind_res (scalar_one (filter (\<lambda>b. b_id b = batch_id) (stamp_batches db))) (\<lambda>batch.
      bind_res (record_audit_event WORKER_ACTOR (anchored_record batch receipt) (clock 0) (rt_audit_chain_secret rt) (rt_revision rt) db) (\<lambda>(e, db).
      Inr ([(''external_reference'', JStr (an_external_reference receipt))], db))))))) (db, w))"

definition notification_record :: "string \<Rightarrow> json_object \<Rightarrow> audit_record" where
  "notification_record target payload =
     \<lparr>ar_action = ''notification.recorded'', ar_target_type = ''notification'', ar_target_id = target, ar_outcome = ''success'',
      ar_before_state = None, ar_after_state = Some payload, ar_request_id = None, ar_idempotency_key = None\<rparr>"

definition notify :: "'w runtime \<Rightarrow> (nat \<Rightarrow> instant) \<Rightarrow> json_object \<Rightarrow> db \<Rightarrow> (json_object \<times> db) res" where
  "notify rt clock payload db =
     bind_res (if ''order_id'' \<in> fst ` set payload then require_str payload ''order_id'' else require_str payload ''receipt_id'') (\<lambda>target.
     bind_res (record_audit_event WORKER_ACTOR (notification_record target payload) (clock 0) (rt_audit_chain_secret rt) (rt_revision rt) db) (\<lambda>(e, db).
     Inr ([(''recorded'', JBool True)], db)))"

definition handle_notify :: "'w handler" where
  "handle_notify rt clock payload = (\<lambda>(db, w). in_session (notify rt clock payload db) (db, w))"

definition handle_mismatch_review :: "'w handler" where
  "handle_mismatch_review rt clock payload = (\<lambda>(db, w). in_session
     (bind_res (require_int payload ''expected_minor'') (\<lambda>expected.
      bind_res (require_int payload ''amount_minor'') (\<lambda>received.
      bind_res (require_str payload ''receipt_id'') (\<lambda>receipt_id. notify rt clock payload db)))) (db, w))"

definition handle_tigerbeetle_transfer :: "'w handler" where
  "handle_tigerbeetle_transfer rt clock payload = (\<lambda>(db, w).
     case bind_res (require_str payload ''intent_id'') UUID of
       Inl e \<Rightarrow> own_transactions (Inl e) (db, w)
     | Inr i \<Rightarrow>
         (case submit_intent_lookup_before_retry (rt_tigerbeetle_client rt) i clock (rt_audit_chain_secret rt) (rt_revision rt) (db, w) of
            (Inl e, db, w) \<Rightarrow> own_transactions (Inl e) (db, w)
          | (Inr result, db, w) \<Rightarrow> own_transactions
              (Inr [(''intent_id'', JStr (uuid_str i)), (''result'', JStr result)]) (db, w)))"

definition HANDLERS :: "(string \<times> 'w handler) list" where
  "HANDLERS =
     [(''order.issue_stamps'', handle_issue_stamps), (''batch.anchor_requested'', handle_anchor_batch),
      (''order.awaiting_payment'', handle_notify), (''payment.mismatch_requires_review'', handle_mismatch_review),
      (''tigerbeetle.transfer_requested'', handle_tigerbeetle_transfer)]"

definition handler_for :: "outbox_message \<Rightarrow> 'w handler res" where
  "handler_for m = (case map_of HANDLERS (m_event_type m) of None \<Rightarrow> Inl LookupError | Some h \<Rightarrow> Inr h)"

section \<open>The relay\<close>

record relay_stats =
  st_claimed :: nat
  st_delivered :: nat
  st_failed :: nat
  st_dead_lettered :: nat

text \<open>\<^verbatim>\<open>session.get_one(OutboxMessage, message_id)\<close>\<close>

definition get_message :: "uuid \<Rightarrow> db \<Rightarrow> outbox_message res" where
  "get_message i db = (case find (\<lambda>m. m_id m = i) (outbox_messages db) of None \<Rightarrow> Inl NoResultFound | Some m \<Rightarrow> Inr m)"

text \<open>
  The body of the \<^verbatim>\<open>try\<close>.  \<open>clock 0\<close> gives the readings of the handler, \<open>clock 1\<close> those after it.  When publishing fails, what the
  handler did in the transaction of the relay is rolled back.
\<close>

definition deliver :: "'w runtime \<Rightarrow> (nat \<Rightarrow> nat \<Rightarrow> instant) \<Rightarrow> uuid \<Rightarrow> json_object \<Rightarrow> db \<times> 'w \<Rightarrow> unit res \<times> db \<times> 'w" where
  "deliver rt clock i payload = (\<lambda>(db, w).
     case bind_res (get_message i db) (\<lambda>m. bind_res (handler_for m) (\<lambda>h. Inr (m, h))) of
       Inl e \<Rightarrow> (Inl e, db, w)
     | Inr (m, h) \<Rightarrow>
         let r = h rt (clock 0) payload (db, w) in
         (case hd_result r of
            Inl e \<Rightarrow> (Inl e, hd_committed r, hd_world r)
          | Inr j \<Rightarrow>
              (case rt_kafka_publisher rt of
                 None \<Rightarrow> (Inr (), mark_processed i (clock 1 1) (hd_session r), hd_world r)
               | Some publish \<Rightarrow>
                   (case publish (from_outbox m (clock 1 0)) (hd_world r) of
                      (Inl e, w) \<Rightarrow> (Inl e, hd_committed r, w)
                    | (Inr u, w) \<Rightarrow> (Inr (), mark_processed i (clock 1 1) (hd_session r), w)))))"

text \<open>The \<^verbatim>\<open>except\<close> branch.  It may raise itself, and then the relay stops.\<close>

definition record_failure :: "'w runtime \<Rightarrow> instant \<Rightarrow> uuid \<Rightarrow> exn \<Rightarrow> db \<Rightarrow> (bool \<times> db) res" where
  "record_failure rt now i e db =
     bind_res (get_message i db) (\<lambda>m. mark_failed m (rt_text rt e) now (rt_outbox_max_attempts rt) db)"

fun relay_loop ::
  "'w runtime \<Rightarrow> (nat \<Rightarrow> nat \<Rightarrow> nat \<Rightarrow> instant) \<Rightarrow> outbox_message list \<Rightarrow> relay_stats \<Rightarrow> db \<times> 'w \<Rightarrow> relay_stats res \<times> db \<times> 'w" where
  "relay_loop rt clock [] stats (db, w) = (Inr stats, db, w)"
| "relay_loop rt clock (m # ms) stats (db, w) =
     (case deliver rt (clock (length ms)) (m_id m) (m_payload m) (db, w) of
        (Inr u, db, w) \<Rightarrow> relay_loop rt clock ms (stats\<lparr>st_delivered := st_delivered stats + 1\<rparr>) (db, w)
      | (Inl e, db, w) \<Rightarrow>
          (case record_failure rt (clock (length ms) 2 0) (m_id m) e db of
             Inl e' \<Rightarrow> (Inl e', db, w)
           | Inr (dead, db) \<Rightarrow> relay_loop rt clock ms
               (stats\<lparr>st_failed := st_failed stats + 1, st_dead_lettered := st_dead_lettered stats + (if dead then 1 else 0)\<rparr>) (db, w)))"

definition relay_once ::
  "'w runtime \<Rightarrow> string \<Rightarrow> instant \<Rightarrow> (nat \<Rightarrow> nat \<Rightarrow> nat \<Rightarrow> instant) \<Rightarrow> db \<times> 'w \<Rightarrow> relay_stats res \<times> db \<times> 'w" where
  "relay_once rt worker_id now clock = (\<lambda>(db, w).
     case claim_batch worker_id now (rt_outbox_lease_seconds rt) (rt_outbox_batch_size rt) db of
       Inl e \<Rightarrow> (Inl e, db, w)
     | Inr (ms, db) \<Rightarrow>
         relay_loop rt clock ms \<lparr>st_claimed = length ms, st_delivered = 0, st_failed = 0, st_dead_lettered = 0\<rparr> (db, w))"

definition expire_stamps_once :: "'w runtime \<Rightarrow> instant \<Rightarrow> int \<Rightarrow> db \<Rightarrow> (int \<times> db) res" where
  "expire_stamps_once rt now limit db = expire_due_stamps now limit (rt_audit_chain_secret rt) (rt_revision rt) db"

definition reconcile_once :: "'w runtime \<Rightarrow> instant \<Rightarrow> db \<Rightarrow> (bool \<times> db) res" where
  "reconcile_once rt now db =
     bind_res (run_reconciliation now (rt_audit_chain_secret rt) 900 [] [] db) (\<lambda>(report, db). Inr (clean report, db))"

text \<open>\<^verbatim>\<open>next_due\<close>, with instants in microseconds.\<close>

definition next_due :: "instant option \<Rightarrow> instant \<Rightarrow> int \<Rightarrow> bool" where
  "next_due last_run now interval_seconds = (case last_run of None \<Rightarrow> True | Some t \<Rightarrow> now - t \<ge> interval_seconds * SECOND)"

section \<open>Identifiers survive\<close>

lemma remove_sub_absent: "hd pat \<notin> set s \<Longrightarrow> remove_sub pat s = s"
proof (induction pat s rule: remove_sub.induct)
  case (2 pat c cs)
  have "take (length pat) (c # cs) \<noteq> pat" if "pat \<noteq> []" using that "2.prems" by (cases pat) auto
  with 2 show ?case by auto
qed simp

lemma strip_absent: "(\<And>c. c \<in> set s \<Longrightarrow> \<not> p c) \<Longrightarrow> strip p s = s"
proof -
  assume a: "\<And>c. c \<in> set s \<Longrightarrow> \<not> p c"
  have "dropWhile p xs = xs" if "set xs \<subseteq> set s" for xs using that a by (cases xs) auto
  then show ?thesis by (simp add: strip_def)
qed

lemma hex_val_digit: "n < 16 \<Longrightarrow> hex_val (hex_digit n) = Some n"
  by (auto simp: hex_val_def hex_digit_def Let_def)

lemma digits16_append: "digits16 acc s = Some n \<Longrightarrow> d < 16 \<Longrightarrow> digits16 acc (s @ [hex_digit d]) = Some (16 * n + d)"
proof (induction acc s rule: digits16.induct)
  case (2 acc c cs)
  then show ?case by (auto simp: hex_val_digit split: option.splits if_splits)
qed (simp add: hex_val_digit)

lemma digits16_hex_width: "digits16 0 (hex_width w n) = Some (n mod 16 ^ w)"
proof (induction w arbitrary: n)
  case (Suc w)
  have "digits16 0 (hex_width (Suc w) n) = Some (16 * (n div 16 mod 16 ^ w) + n mod 16)"
    using digits16_append [OF Suc, of "n mod 16" "n div 16"] by simp
  also have "16 * (n div 16 mod 16 ^ w) + n mod 16 = n mod 16 ^ Suc w" by (simp add: mod_mult2_eq)
  finally show ?case .
qed simp

lemma hex_width_set: "c \<in> set (hex_width w n) \<Longrightarrow> c \<in> set ''0123456789abcdef''"
proof (induction w arbitrary: n)
  case (Suc w)
  then consider "c \<in> set (hex_width w (n div 16))" | "c = hex_digit (n mod 16)" by auto
  then show ?case using Suc.IH hex_digit_set [of "n mod 16"] by cases (blast, simp only: mod_less_divisor zero_less_numeral)
qed simp

lemma uuid_str_hex: "filter (\<lambda>c. c \<noteq> CHR ''-'') (uuid_str u) = hex_width 32 u"
proof -
  let ?h = "hex_width 32 u"
  have "CHR ''-'' \<notin> set ?h" using hex_width_set [of "CHR ''-''" 32 u] by auto
  then have f: "filter (\<lambda>c. c \<noteq> CHR ''-'') xs = xs" if "set xs \<subseteq> set ?h" for xs using that by (auto simp: filter_id_conv)
  have s: "set (take a (drop b ?h)) \<subseteq> set ?h" "set (take a ?h) \<subseteq> set ?h" "set (drop b ?h) \<subseteq> set ?h" for a b
    using set_take_subset set_drop_subset by fast+
  have "drop a ?h = take b (drop a ?h) @ drop (b + a) ?h" for a b by (metis append_take_drop_id drop_drop)
  from this [of 0 8] this [of 8 4] this [of 12 4] this [of 16 4]
  have "?h = take 8 ?h @ take 4 (drop 8 ?h) @ take 4 (drop 12 ?h) @ take 4 (drop 16 ?h) @ drop 20 ?h" by simp
  then show ?thesis by (simp add: uuid_str_def Let_def f [OF s(1)] f [OF s(2)] f [OF s(3)])
qed


lemma hex_width_length [simp]: "length (hex_width w n) = w"
  using hex_width_chars [of w n] by simp

lemma uuid_roundtrip: "u < 2 ^ 128 \<Longrightarrow> UUID (uuid_str u) = Inr u"
proof -
  assume u: "u < 2 ^ 128"
  let ?h = "hex_width 32 u"
  have cs: "c \<in> set ''0123456789abcdef-''" if "c \<in> set (uuid_str u)" for c
  proof (cases "c = CHR ''-''")
    case False
    with that have "c \<in> set (filter (\<lambda>c. c \<noteq> CHR ''-'') (uuid_str u))" by simp
    then have "c \<in> set ?h" by (simp only: uuid_str_hex)
    then have "c \<in> set ''0123456789abcdef''" by (rule hex_width_set)
    then show ?thesis by auto
  qed simp
  have 1: "remove_sub ''urn:'' (uuid_str u) = uuid_str u" "remove_sub ''uuid:'' (uuid_str u) = uuid_str u"
    using cs [of "CHR ''u''"] by (auto intro: remove_sub_absent)
  have 2: "strip (\<lambda>c. c = CHR ''{'' \<or> c = CHR ''}'') (uuid_str u) = uuid_str u"
    by (rule strip_absent) (use cs in fastforce)
  have 3: "strip py_space ?h = ?h" by (rule strip_absent) (use hex_width_set in \<open>fastforce simp: py_space_def\<close>)
  have ne: "?h \<noteq> []" using hex_width_length [of 32 u] by (metis list.size(3) zero_neq_numeral)
  have h0: "hd ?h \<in> set ''0123456789abcdef''" "?h ! 1 \<in> set ''0123456789abcdef''"
    using hex_width_set [of _ 32 u] ne hex_width_length [of 32 u] by (metis list.set_sel(1), metis nth_mem numeral_One numeral_less_iff semiring_norm(76))
  have nx: "?h ! 1 \<noteq> CHR ''x''" "?h ! 1 \<noteq> CHR ''X''" using h0(2) by auto
  have hv: "hex_val (hd ?h) \<noteq> None" "hd ?h \<noteq> CHR ''-''" "hd ?h \<noteq> CHR ''+''" using h0(1) by (auto simp: hex_val_def)
  have "natural16 ?h = Some (u mod 16 ^ 32)"
    unfolding natural16_def Let_def using ne nx hv digits16_hex_width [of 32 u] by simp
  moreover have "u mod 16 ^ 32 = u" using u by simp
  ultimately have "int16 ?h = Inr (int u)" unfolding int16_def Let_def 3 using hv(2,3) by simp
  then show ?thesis using u 1 2 uuid_str_hex [of u] by (simp add: UUID_def Let_def)
qed

section \<open>Handlers keep the invariants\<close>

text \<open>The outcome of a handler, on both sides of the commit.\<close>

definition sound :: "string \<Rightarrow> db \<Rightarrow> 'w handled \<Rightarrow> bool" where
  "sound k db r =
     (platform_wf k (hd_committed r) \<and> platform_wf k (hd_session r) \<and> advances db (hd_committed r) \<and> advances db (hd_session r))"

lemma in_session_sound:
  assumes "platform_wf k db" and "\<And>j db'. r = Inr (j, db') \<Longrightarrow> platform_wf k db' \<and> advances db db'"
  shows "sound k db (in_session r (db, w))"
  using assms by (cases r) (auto simp: in_session_def sound_def split: prod.splits)

lemma own_transactions_sound: "platform_wf k db' \<Longrightarrow> advances db db' \<Longrightarrow> sound k db (own_transactions r (db', w))"
  by (simp add: own_transactions_def sound_def)

lemma handle_issue_stamps_sound:
  assumes "platform_wf (rt_audit_chain_secret rt) db"
  shows "sound (rt_audit_chain_secret rt) db (handle_issue_stamps rt clock p (db, w))"
proof (cases "bind_res (require_str p ''order_id'') UUID")
  case (Inl e)
  then show ?thesis using assms by (simp add: handle_issue_stamps_def own_transactions_sound)
next
  case (Inr oid)
  obtain r db' where io: "issue_order oid (rt_issuance_chunk_size rt) (rt_device_hmac_secret rt) (rt_audit_chain_secret rt) (rt_revision rt) clock db = (r, db')"
    by fastforce
  have "platform_wf (rt_audit_chain_secret rt) db'" "advances db db'"
    using issue_loop_platform [OF assms io [unfolded issue_order_def]] issue_loop_advances [OF io [unfolded issue_order_def]] by blast+
  then show ?thesis using Inr io by (cases r) (simp_all add: handle_issue_stamps_def own_transactions_sound del: bind_res_eq_Inr)
qed

lemma handle_anchor_batch_sound:
  assumes "platform_wf (rt_audit_chain_secret rt) db"
  shows "sound (rt_audit_chain_secret rt) db (handle_anchor_batch rt clock p (db, w))"
  unfolding handle_anchor_batch_def prod.case
  by (rule in_session_sound [OF assms]) (auto intro: platform_wf_audit [OF assms] advances_audit)

lemma notify_sound:
  assumes "platform_wf (rt_audit_chain_secret rt) db" and "notify rt clock p db = Inr (j, db')"
  shows "platform_wf (rt_audit_chain_secret rt) db' \<and> advances db db'"
  using assms(2) by (auto simp: notify_def intro: platform_wf_audit [OF assms(1)] advances_audit)

lemma handle_notify_sound:
  assumes "platform_wf (rt_audit_chain_secret rt) db"
  shows "sound (rt_audit_chain_secret rt) db (handle_notify rt clock p (db, w))"
  unfolding handle_notify_def prod.case by (rule in_session_sound [OF assms]) (rule notify_sound [OF assms])

lemma handle_mismatch_review_sound:
  assumes "platform_wf (rt_audit_chain_secret rt) db"
  shows "sound (rt_audit_chain_secret rt) db (handle_mismatch_review rt clock p (db, w))"
  unfolding handle_mismatch_review_def prod.case
  by (rule in_session_sound [OF assms]) (use notify_sound [OF assms] in auto)

lemma handle_tigerbeetle_transfer_sound:
  assumes "platform_wf (rt_audit_chain_secret rt) db"
  shows "sound (rt_audit_chain_secret rt) db (handle_tigerbeetle_transfer rt clock p (db, w))"
proof (cases "bind_res (require_str p ''intent_id'') UUID")
  case (Inl e)
  then show ?thesis using assms by (simp add: handle_tigerbeetle_transfer_def own_transactions_sound)
next
  case (Inr i)
  obtain r db' w' where sb: "submit_intent_lookup_before_retry (rt_tigerbeetle_client rt) i clock (rt_audit_chain_secret rt) (rt_revision rt) (db, w) = (r, db', w')"
    using prod_cases3 by blast
  have "platform_wf (rt_audit_chain_secret rt) db'" "advances db db'"
    using submit_platform [OF assms sb] submit_advances [OF sb] by simp_all
  then show ?thesis using Inr sb by (cases r) (simp_all add: handle_tigerbeetle_transfer_def own_transactions_sound del: bind_res_eq_Inr)
qed

lemma handler_sound:
  assumes "handler_for m = Inr h" and "platform_wf (rt_audit_chain_secret rt) db"
  shows "sound (rt_audit_chain_secret rt) db (h rt clock p (db, w))"
  using assms(1) handle_issue_stamps_sound [OF assms(2)] handle_anchor_batch_sound [OF assms(2)] handle_notify_sound [OF assms(2)]
    handle_mismatch_review_sound [OF assms(2)] handle_tigerbeetle_transfer_sound [OF assms(2)]
  by (auto simp: handler_for_def HANDLERS_def split: if_splits)

text \<open>Every message of the services finds its handler.\<close>

lemma deliverable_handler: "deliverable m \<Longrightarrow> is_ok (handler_for m)"
  by (auto simp: deliverable_def payload_ok_def ADDRESSES_def handler_for_def HANDLERS_def split: if_splits)

section \<open>The relay loses no message\<close>

lemma outbox_update_platform:
  assumes wf: "platform_wf k db" and same: "\<And>m. m_id (f m) = m_id m \<and> m_dedupe_key (f m) = m_dedupe_key m"
    and db': "db' = db\<lparr>outbox_messages := update_where p f (outbox_messages db)\<rparr>"
  shows "platform_wf k db'"
proof -
  have "map m_id (outbox_messages db') = map m_id (outbox_messages db)" "map m_dedupe_key (outbox_messages db') = map m_dedupe_key (outbox_messages db)"
    using same by (auto simp: db' intro!: map_update_where_same)
  then have "outbox_wf db'" using platform_money(2) [OF wf] by (simp add: outbox_wf_def db')
  moreover have "orders_wf db'" "money_wf db'" "audit_intact k db'"
    using wf orders_wf_cong [of db' db] money_wf_cong [of db' db] audit_intact_cong [of db' db k]
    by (simp_all add: db' platform_wf_def rest_wf_def)
  moreover have "stamps_wf db'" using stamps_wf_kept [OF platform_orders(2) [OF wf], of db'] by (simp add: db' issuance_keptI)
  ultimately show ?thesis by (simp add: platform_wf_def rest_wf_def)
qed

lemma mark_processed_platform: "platform_wf k db \<Longrightarrow> platform_wf k (mark_processed i now db)"
  by (rule outbox_update_platform [OF _ _ mark_processed_def]) simp_all

lemma mark_failed_ok:
  assumes "mark_failed m er now mx db = Inr (dead, db')"
  shows "dead = (mx \<le> m_attempts m + 1) \<and> db' = db\<lparr>outbox_messages := update_where (\<lambda>x. m_id x = m_id m)
     (\<lambda>x. x\<lparr>m_attempts := m_attempts m + 1, m_last_error := Some (take 2000 er), m_locked_by := None, m_locked_until := None,
       m_available_at := now + backoff_seconds (nat (m_attempts m + 1)) * SECOND,
       m_dead_lettered_at := if mx \<le> m_attempts m + 1 then Some now else None\<rparr>) (outbox_messages db)\<rparr>"
  using assms by (auto simp: mark_failed_def Let_def dt_add_ok split: if_splits)

lemma get_message_ok:
  assumes "outbox_wf db" and "m \<in> set (outbox_messages db)"
  shows "get_message (m_id m) db = Inr m"
proof -
  have "find (\<lambda>x. m_id x = m_id m) (outbox_messages db) \<noteq> None" using assms(2) by (auto simp: find_None_iff)
  then obtain x where x: "find (\<lambda>x. m_id x = m_id m) (outbox_messages db) = Some x" by blast
  then have "x \<in> set (outbox_messages db)" "m_id x = m_id m" using find_SomeD by fastforce+
  then have "x = m" using outbox_wf_unique [OF assms(1) _ assms(2)] by blast
  with x show ?thesis by (simp add: get_message_def)
qed

text \<open>
  What a pass promises, without reference to the code of the relay.  At its turn a message is handed to its handler, whose
  result is published when there is a publisher; the exception of either is the refusal of the message.
\<close>

definition worked :: "'w runtime \<Rightarrow> (nat \<Rightarrow> nat \<Rightarrow> instant) \<Rightarrow> outbox_message \<Rightarrow> db \<times> 'w \<Rightarrow> 'w handled" where
  "worked rt clk m s =
     (case handler_for m of
        Inl e \<Rightarrow> \<lparr>hd_result = Inl e, hd_committed = fst s, hd_session = fst s, hd_world = snd s\<rparr>
      | Inr h \<Rightarrow> h rt (clk 0) (m_payload m) s)"

definition published :: "'w runtime \<Rightarrow> (nat \<Rightarrow> nat \<Rightarrow> instant) \<Rightarrow> outbox_message \<Rightarrow> 'w \<Rightarrow> unit res \<times> 'w" where
  "published rt clk m w = (case rt_kafka_publisher rt of None \<Rightarrow> (Inr (), w) | Some publish \<Rightarrow> publish (from_outbox m (clk 1 0)) w)"

definition refusal :: "'w runtime \<Rightarrow> (nat \<Rightarrow> nat \<Rightarrow> instant) \<Rightarrow> outbox_message \<Rightarrow> db \<times> 'w \<Rightarrow> exn option" where
  "refusal rt clk m s =
     (case hd_result (worked rt clk m s) of
        Inl e \<Rightarrow> Some e
      | Inr j \<Rightarrow> (case fst (published rt clk m (hd_world (worked rt clk m s))) of Inl e \<Rightarrow> Some e | Inr u \<Rightarrow> None))"

text \<open>
  The row of the message after its turn: processed when nothing refused it; otherwise it counts one more attempt, carries the
  text of the exception, becomes available again after the back-off and is dead-lettered with the last attempt.
\<close>

definition outcome :: "'w runtime \<Rightarrow> (nat \<Rightarrow> nat \<Rightarrow> instant) \<Rightarrow> outbox_message \<Rightarrow> exn option \<Rightarrow> outbox_message" where
  "outcome rt clk m refused =
     (case refused of
        None \<Rightarrow> m\<lparr>m_processed_at := Some (clk 1 1), m_locked_by := None, m_locked_until := None, m_last_error := None\<rparr>
      | Some e \<Rightarrow> m\<lparr>m_attempts := m_attempts m + 1, m_last_error := Some (take 2000 (rt_text rt e)), m_locked_by := None,
          m_locked_until := None, m_available_at := clk 2 0 + backoff_seconds (nat (m_attempts m + 1)) * SECOND,
          m_dead_lettered_at := if rt_outbox_max_attempts rt \<le> m_attempts m + 1 then Some (clk 2 0) else None\<rparr>)"

definition put_message :: "outbox_message \<Rightarrow> db \<Rightarrow> db" where
  "put_message m db = db\<lparr>outbox_messages := update_where (\<lambda>x. m_id x = m_id m) (\<lambda>_. m) (outbox_messages db)\<rparr>"

text \<open>The state after a turn: the work in the session of the relay is kept exactly when nothing refused the message.\<close>

definition after_turn :: "'w runtime \<Rightarrow> (nat \<Rightarrow> nat \<Rightarrow> instant) \<Rightarrow> outbox_message \<Rightarrow> db \<times> 'w \<Rightarrow> db \<times> 'w" where
  "after_turn rt clk m s =
     (let r = worked rt clk m s; e = refusal rt clk m s
      in (put_message (outcome rt clk m e) (if e = None then hd_session r else hd_committed r),
          if is_ok (hd_result r) then snd (published rt clk m (hd_world r)) else hd_world r))"

text \<open>A pass: every message has one turn; listed are the message, its refusal and its row after the turn.\<close>

fun turns :: "'w runtime \<Rightarrow> (nat \<Rightarrow> nat \<Rightarrow> nat \<Rightarrow> instant) \<Rightarrow> outbox_message list \<Rightarrow> db \<times> 'w \<Rightarrow>
    (outbox_message \<times> exn option \<times> outbox_message) list \<times> db \<times> 'w" where
  "turns rt clock [] s = ([], s)"
| "turns rt clock (m # ms) s =
     (let clk = clock (length ms); e = refusal rt clk m s; (ts, s') = turns rt clock ms (after_turn rt clk m s)
      in ((m, e, outcome rt clk m e) # ts, s'))"

lemma turns_messages: "map fst (fst (turns rt clock ms s)) = ms"
  by (induction rt clock ms s rule: turns.induct) (simp_all add: Let_def case_prod_beta)

definition refused :: "outbox_message \<times> exn option \<times> outbox_message \<Rightarrow> bool" where
  "refused = (\<lambda>(m, e, m'). e \<noteq> None)"

definition dead_lettered :: "outbox_message \<times> exn option \<times> outbox_message \<Rightarrow> bool" where
  "dead_lettered = (\<lambda>(m, e, m'). e \<noteq> None \<and> m_dead_lettered_at m' \<noteq> None)"

lemma outcome_fields [simp]:
  "m_id (outcome rt clk m e) = m_id m" "m_dedupe_key (outcome rt clk m e) = m_dedupe_key m"
  by (simp_all add: outcome_def split: option.splits)

lemma worked_sound:
  assumes "platform_wf (rt_audit_chain_secret rt) db"
  shows "sound (rt_audit_chain_secret rt) db (worked rt clk m (db, w))"
proof (cases "handler_for m :: 'a handler res")
  case (Inl e)
  then show ?thesis using assms by (simp add: worked_def sound_def)
next
  case (Inr h)
  from handler_sound [OF Inr assms] show ?thesis by (simp add: worked_def Inr)
qed

text \<open>The body of the \<^verbatim>\<open>try\<close> for a message that is in the table.\<close>

lemma deliver_worked:
  assumes "outbox_wf db" "m \<in> set (outbox_messages db)"
  shows "deliver rt clk (m_id m) (m_payload m) (db, w) =
    (let r = worked rt clk m (db, w); w' = (if is_ok (hd_result r) then snd (published rt clk m (hd_world r)) else hd_world r)
     in case refusal rt clk m (db, w) of
          None \<Rightarrow> (Inr (), mark_processed (m_id m) (clk 1 1) (hd_session r), w')
        | Some e \<Rightarrow> (Inl e, hd_committed r, w'))"
proof -
  have "deliver rt clk (m_id m) (m_payload m) (db, w) =
     (let r = worked rt clk m (db, w) in
      case hd_result r of
        Inl e \<Rightarrow> (Inl e, hd_committed r, hd_world r)
      | Inr j \<Rightarrow> (case published rt clk m (hd_world r) of
           (Inl e, w) \<Rightarrow> (Inl e, hd_committed r, w) | (Inr u, w) \<Rightarrow> (Inr (), mark_processed (m_id m) (clk 1 1) (hd_session r), w)))"
    by (cases "handler_for m :: 'a handler res")
      (simp_all add: deliver_def get_message_ok [OF assms] worked_def published_def Let_def del: bind_res_eq_Inr split: sum.splits option.splits)
  then show ?thesis by (simp add: refusal_def Let_def split: sum.splits prod.splits)
qed

lemma put_message_eq:
  assumes "outbox_wf db" "m \<in> set (outbox_messages db)" "m_id (f m) = m_id m"
  shows "db\<lparr>outbox_messages := update_where (\<lambda>x. m_id x = m_id m) f (outbox_messages db)\<rparr> = put_message (f m) db"
proof -
  have "x = m" if "x \<in> set (outbox_messages db)" "m_id x = m_id m" for x using outbox_wf_unique [OF assms(1) that(1) assms(2) that(2)] .
  then have "update_where (\<lambda>x. m_id x = m_id m) f (outbox_messages db) = update_where (\<lambda>x. m_id x = m_id m) (\<lambda>_. f m) (outbox_messages db)"
    by (auto simp: update_where_def)
  then show ?thesis by (simp add: put_message_def assms(3))
qed

lemma put_message_platform:
  assumes wf: "platform_wf k db" and m: "m \<in> set (outbox_messages db)" and f: "m_id m' = m_id m" "m_dedupe_key m' = m_dedupe_key m"
  shows "platform_wf k (put_message m' db)" "m' \<in> set (outbox_messages (put_message m' db))"
    "x \<in> set (outbox_messages db) \<Longrightarrow> m_id x \<noteq> m_id m \<Longrightarrow> x \<in> set (outbox_messages (put_message m' db))"
proof -
  let ?f = "\<lambda>x. m'\<lparr>m_id := m_id x, m_dedupe_key := m_dedupe_key x\<rparr>"
  have eq: "?f m = m'" by (simp flip: f)
  have "put_message m' db = db\<lparr>outbox_messages := update_where (\<lambda>x. m_id x = m_id m) ?f (outbox_messages db)\<rparr>"
    using put_message_eq [OF platform_money(2) [OF wf] m, of ?f] eq f(1) by simp
  then show "platform_wf k (put_message m' db)" using outbox_update_platform [OF wf, of ?f] by simp
  show "m' \<in> set (outbox_messages (put_message m' db))" using m f by (auto simp: put_message_def set_update_where intro!: rev_image_eqI [of m])
  show "x \<in> set (outbox_messages db) \<Longrightarrow> m_id x \<noteq> m_id m \<Longrightarrow> x \<in> set (outbox_messages (put_message m' db))"
    using f by (auto simp: put_message_def set_update_where intro!: rev_image_eqI [of x])
qed

text \<open>A delivery: work that advances the database, then the mark on the message, and no other message is touched.\<close>

lemma deliver_step:
  fixes rt :: "'w runtime"
  assumes wf: "platform_wf (rt_audit_chain_secret rt) db" and d: "deliver rt clock i p (db, w) = (r, db', w')"
  shows "\<exists>db1. platform_wf (rt_audit_chain_secret rt) db1 \<and> advances db db1 \<and>
    ((\<exists>t. r = Inr () \<and> db' = mark_processed i t db1) \<or> ((\<exists>e. r = Inl e) \<and> db' = db1))"
proof (cases "bind_res (get_message i db) (\<lambda>m. bind_res (handler_for m) (\<lambda>h :: 'w handler. Inr (m, h)))")
  case (Inl e)
  with d wf show ?thesis by (auto simp: deliver_def)
next
  case (Inr mh)
  then obtain m h where mh: "mh = (m, h)" and h: "handler_for m = Inr h" by auto
  let ?r = "h rt (clock 0) p (db, w)"
  have s: "sound (rt_audit_chain_secret rt) db ?r" using handler_sound [OF h wf] .
  show ?thesis
  proof (cases "hd_result ?r")
    case (Inl e)
    then have "r = Inl e" "db' = hd_committed ?r" using d Inr mh unfolding deliver_def by (simp_all add: Let_def del: bind_res_eq_Inr)
    then show ?thesis using s by (auto simp: sound_def)
  next
    case ok: (Inr j)
    consider (quiet) "rt_kafka_publisher rt = None" | (sent) pub u w1 where "rt_kafka_publisher rt = Some pub"
        "pub (from_outbox m (clock 1 0)) (hd_world ?r) = (Inr u, w1)"
      | (broken) pub e w1 where "rt_kafka_publisher rt = Some pub" "pub (from_outbox m (clock 1 0)) (hd_world ?r) = (Inl e, w1)"
      by (metis option.exhaust surj_pair sum.exhaust)
    then show ?thesis
    proof cases
      case quiet
      then have "r = Inr () \<and> db' = mark_processed i (clock 1 1) (hd_session ?r)"
        using d Inr mh ok unfolding deliver_def by (simp add: Let_def del: bind_res_eq_Inr)
      then show ?thesis using s unfolding sound_def by blast
    next
      case sent
      then have "r = Inr () \<and> db' = mark_processed i (clock 1 1) (hd_session ?r)"
        using d Inr mh ok unfolding deliver_def by (simp add: Let_def del: bind_res_eq_Inr)
      then show ?thesis using s unfolding sound_def by blast
    next
      case broken
      then have "r = Inl e \<and> db' = hd_committed ?r"
        using d Inr mh ok unfolding deliver_def by (simp add: Let_def del: bind_res_eq_Inr)
      then show ?thesis using s unfolding sound_def by blast
    qed
  qed
qed


lemma advances_messages: "advances db db' \<Longrightarrow> set (outbox_messages db) \<subseteq> set (outbox_messages db')"
  by (auto simp: advances_def)

lemma relay_step:
  assumes wf: "platform_wf (rt_audit_chain_secret rt) db" and m: "m \<in> set (outbox_messages db)"
    and d: "deliver rt clk (m_id m) (m_payload m) (db, w) = (r, db1, w1)"
    and last: "(r = Inr () \<and> db' = db1) \<or> (\<exists>e. r = Inl e \<and> record_failure rt (clk 2 0) (m_id m) e db1 = Inr (dead, db'))"
  shows "after_turn rt clk m (db, w) = (db', w1)" "r = (case refusal rt clk m (db, w) of None \<Rightarrow> Inr () | Some e \<Rightarrow> Inl e)"
    "r \<noteq> Inr () \<Longrightarrow> dead = (rt_outbox_max_attempts rt \<le> m_attempts m + 1)"
    "platform_wf (rt_audit_chain_secret rt) db'" "outcome rt clk m (refusal rt clk m (db, w)) \<in> set (outbox_messages db')"
    "\<And>x. x \<in> set (outbox_messages db) \<Longrightarrow> m_id x \<noteq> m_id m \<Longrightarrow> x \<in> set (outbox_messages db')"
proof -
  let ?h = "worked rt clk m (db, w)" and ?e = "refusal rt clk m (db, w)"
  define db0 where "db0 = (if ?e = None then hd_session ?h else hd_committed ?h)"
  have wf0: "platform_wf (rt_audit_chain_secret rt) db0" and adv: "advances db db0"
    using worked_sound [OF wf, of clk m w] by (simp_all add: sound_def db0_def)
  note sub = advances_messages [OF adv] and o0 = platform_money(2) [OF wf0]
  have m0: "m \<in> set (outbox_messages db0)" using m sub by blast
  note dw = deliver_worked [OF platform_money(2) [OF wf] m, of rt clk w, unfolded d Let_def]
  show r: "r = (case ?e of None \<Rightarrow> Inr () | Some e \<Rightarrow> Inl e)" using dw by (simp split: option.splits)
  have w1: "w1 = (if is_ok (hd_result ?h) then snd (published rt clk m (hd_world ?h)) else hd_world ?h)"
    using dw by (simp split: option.splits)
  have db': "db' = put_message (outcome rt clk m ?e) db0 \<and> (r \<noteq> Inr () \<longrightarrow> dead = (rt_outbox_max_attempts rt \<le> m_attempts m + 1))"
  proof (cases ?e)
    case None
    then have "db' = mark_processed (m_id m) (clk 1 1) db0" "r = Inr ()" using dw last by (simp_all add: db0_def)
    then show ?thesis using None put_message_eq [OF o0 m0] by (simp add: mark_processed_def outcome_def)
  next
    case (Some e)
    then have "record_failure rt (clk 2 0) (m_id m) e db0 = Inr (dead, db')" using dw last by (simp add: db0_def)
    then have "mark_failed m (rt_text rt e) (clk 2 0) (rt_outbox_max_attempts rt) db0 = Inr (dead, db')"
      using get_message_ok [OF o0 m0] by (simp add: record_failure_def)
    from mark_failed_ok [OF this] show ?thesis using Some put_message_eq [OF o0 m0] by (simp add: outcome_def)
  qed
  then show "after_turn rt clk m (db, w) = (db', w1)" "r \<noteq> Inr () \<Longrightarrow> dead = (rt_outbox_max_attempts rt \<le> m_attempts m + 1)"
    using w1 by (simp_all add: after_turn_def Let_def db0_def)
  note put = put_message_platform [OF wf0 m0, of "outcome rt clk m ?e", simplified]
  show "platform_wf (rt_audit_chain_secret rt) db'" "outcome rt clk m ?e \<in> set (outbox_messages db')" using db' put(1,2) by simp_all
  show "x \<in> set (outbox_messages db')" if "x \<in> set (outbox_messages db)" "m_id x \<noteq> m_id m" for x
    using db' put(3) that sub by blast
qed

text \<open>The statistics after a pass.\<close>

definition counted :: "(outbox_message \<times> exn option \<times> outbox_message) list \<Rightarrow> relay_stats \<Rightarrow> relay_stats" where
  "counted ts st = st\<lparr>st_delivered := st_delivered st + length (filter (\<lambda>t. \<not> refused t) ts),
     st_failed := st_failed st + length (filter refused ts), st_dead_lettered := st_dead_lettered st + length (filter dead_lettered ts)\<rparr>"

lemma counted_Cons: "counted (t # ts) st = counted ts (counted [t] st)"
  by (simp add: counted_def)

lemma relay_loop_ok:
  assumes "platform_wf (rt_audit_chain_secret rt) db" and "relay_loop rt clock ms stats (db, w) = (Inr st, db', w')"
    and "set ms \<subseteq> set (outbox_messages db)" and "distinct (map m_id ms)"
  shows "\<exists>ts. turns rt clock ms (db, w) = (ts, db', w') \<and> platform_wf (rt_audit_chain_secret rt) db' \<and>
    (\<forall>(m, e, m') \<in> set ts. m' \<in> set (outbox_messages db')) \<and>
    (\<forall>x \<in> set (outbox_messages db). m_id x \<notin> m_id ` set ms \<longrightarrow> x \<in> set (outbox_messages db')) \<and> st = counted ts stats"
  using assms
proof (induction ms arbitrary: db stats w)
  case Nil
  then show ?case by (simp add: counted_def)
next
  case (Cons m ms)
  let ?clk = "clock (length ms)" and ?e = "refusal rt (clock (length ms)) m (db, w)"
  let ?t = "(m, ?e, outcome rt ?clk m ?e)"
  obtain r db1 w1 where d: "deliver rt ?clk (m_id m) (m_payload m) (db, w) = (r, db1, w1)" using prod_cases3 by blast
  obtain db2 stats2 dead where last: "(r = Inr () \<and> db2 = db1) \<or> (\<exists>e. r = Inl e \<and> record_failure rt (?clk 2 0) (m_id m) e db1 = Inr (dead, db2))"
    and rest: "relay_loop rt clock ms stats2 (db2, w1) = (Inr st, db', w')"
    and st2: "stats2 = (if r = Inr () then stats\<lparr>st_delivered := st_delivered stats + 1\<rparr>
      else stats\<lparr>st_failed := st_failed stats + 1, st_dead_lettered := st_dead_lettered stats + (if dead then 1 else 0)\<rparr>)"
    using Cons.prems(2) d by (auto split: sum.splits prod.splits)
  have m: "m \<in> set (outbox_messages db)" using Cons.prems(3) by simp
  note step = relay_step [OF Cons.prems(1) m d last]
  have "stats2 = counted [?t] stats"
    using st2 step(2,3) by (cases ?e) (simp_all add: counted_def refused_def dead_lettered_def outcome_def)
  moreover have "x \<in> set (outbox_messages db2)" if "x \<in> set ms" for x
    using Cons.prems(3,4) that by (intro step(6)) (auto intro: rev_image_eqI)
  then have "set ms \<subseteq> set (outbox_messages db2)" by blast
  from Cons.IH [OF step(4) rest this] Cons.prems(4) obtain ts where ts: "turns rt clock ms (db2, w1) = (ts, db', w')"
    "platform_wf (rt_audit_chain_secret rt) db'" "\<forall>(m, e, m') \<in> set ts. m' \<in> set (outbox_messages db')"
    "\<forall>x \<in> set (outbox_messages db2). m_id x \<notin> m_id ` set ms \<longrightarrow> x \<in> set (outbox_messages db')" "st = counted ts stats2" by auto
  ultimately have "st = counted (?t # ts) stats" by (simp add: counted_Cons [of ?t ts])
  moreover have "turns rt clock (m # ms) (db, w) = (?t # ts, db', w')" using ts(1) step(1) by (simp add: Let_def)
  moreover have "outcome rt ?clk m ?e \<in> set (outbox_messages db')" using ts(4) step(5) Cons.prems(4) by auto
  ultimately show ?case using ts(2-4) step(6) by (intro exI [of _ "?t # ts"]) auto
qed

text \<open>The messages that a pass takes: those that are due, the earliest first, up to the size of a batch.\<close>

definition claimable :: "instant \<Rightarrow> int \<Rightarrow> db \<Rightarrow> outbox_message list" where
  "claimable now n db = take (nat n) (sort_key m_available_at (filter (due now) (outbox_messages db)))"

definition leased :: "string \<Rightarrow> instant \<Rightarrow> outbox_message \<Rightarrow> outbox_message" where
  "leased w until m = m\<lparr>m_locked_by := Some w, m_locked_until := Some until\<rparr>"

lemma claim_batch_claimable:
  assumes wf: "platform_wf k db" and cl: "claim_batch w now lease n db = Inr (ms, db')"
  shows "platform_wf k db' \<and> set ms \<subseteq> set (outbox_messages db') \<and> distinct (map m_id ms) \<and> length ms = length (claimable now n db) \<and>
    set ms = leased w (now + lease * SECOND) ` set (claimable now n db) \<and>
    (\<forall>m \<in> set (outbox_messages db). m \<notin> set (claimable now n db) \<longrightarrow> m \<in> set (outbox_messages db') \<and> m_id m \<notin> m_id ` set ms)"
  using cl
proof (rule claim_batch_ok)
  let ?C = "claimable now n db" let ?f = "\<lambda>m. m\<lparr>m_locked_by := Some w, m_locked_until := Some (now + lease * SECOND)\<rparr>"
  fix C assume C: "C = set (take (nat n) (sort_key m_available_at (filter (due now) (outbox_messages db))))"
    and upd: "outbox_messages db' = update_where (\<lambda>m. m_id m \<in> m_id ` C) ?f (outbox_messages db)"
    and ms: "ms = filter (\<lambda>m. m_id m \<in> m_id ` C) (outbox_messages db')"
  have C: "C = set ?C" by (simp add: C claimable_def)
  have frame: "db' = db\<lparr>outbox_messages := outbox_messages db'\<rparr>" using cl by (auto simp: claim_batch_def Let_def split: if_splits)
  have wf': "platform_wf k db'" by (rule outbox_update_platform [OF wf, of ?f]) (simp, use frame upd in simp)
  note o = platform_money(2) [OF wf] and o' = platform_money(2) [OF wf']
  have sub: "set ?C \<subseteq> set (outbox_messages db)" unfolding claimable_def by (auto dest: claimed_due)
  have out: "m_id m \<notin> m_id ` C" if "m \<in> set (outbox_messages db)" "m \<notin> set ?C" for m
    using that sub outbox_wf_unique [OF o that(1)] unfolding C by (metis imageE subsetD)
  have d: "distinct (map m_id (outbox_messages db))" "distinct (map m_id (outbox_messages db'))" using o o' by (simp_all add: outbox_wf_def)
  have ids: "set (map m_id ms) = set (map m_id ?C)"
  proof -
    have "m_id (?f m) = m_id m" for m by simp
    then have "m_id ` set (outbox_messages db') = m_id ` set (outbox_messages db)"
      unfolding upd using map_update_where_same [of "\<lambda>m. m_id m \<in> m_id ` C" m_id ?f "outbox_messages db"] by (metis list.set_map)
    moreover have "set (map m_id ms) = m_id ` set (outbox_messages db') \<inter> m_id ` C" by (auto simp: ms)
    ultimately show ?thesis using sub by (simp add: C Int_absorb1 image_mono)
  qed
  have dm: "distinct (map m_id ms)" using d(2) unfolding ms by (simp add: distinct_map_filter)
  have "distinct (map m_id (sort_key m_available_at (filter (due now) (outbox_messages db))))"
    using d(1) by (simp add: distinct_map inj_on_def)
  then have "distinct (map m_id ?C)" unfolding claimable_def by (metis distinct_take take_map)
  then have "length ms = length ?C" using dm ids distinct_card by (metis length_map)
  moreover have "set ms = leased w (now + lease * SECOND) ` set ?C"
  proof -
    have "{m \<in> set (outbox_messages db). m_id m \<in> m_id ` C} = set ?C" using sub out unfolding C by blast
    moreover have "set ms = ?f ` {m \<in> set (outbox_messages db). m_id m \<in> m_id ` C}"
      unfolding ms upd by (auto simp: set_update_where split: if_splits)
    ultimately show ?thesis by (simp add: leased_def)
  qed
  moreover have "m \<in> set (outbox_messages db') \<and> m_id m \<notin> m_id ` set ms" if "m \<in> set (outbox_messages db)" "m \<notin> set ?C" for m
  proof
    show "m \<in> set (outbox_messages db')"
      unfolding upd set_update_where by (rule image_eqI [of _ _ m]) (use out [OF that] that(1) in simp_all)
    show "m_id m \<notin> m_id ` set ms" using out [OF that] ids by (simp add: C)
  qed
  moreover have "set ms \<subseteq> set (outbox_messages db')" by (auto simp: ms)
  ultimately show ?thesis using wf' dm by blast
qed

section \<open>A sample pass\<close>

text \<open>A runtime without external systems, and the notice of a payment that is awaited.\<close>

definition quiet_runtime :: "unit runtime" where
  "quiet_runtime = \<lparr>rt_issuance_chunk_size = 100, rt_device_hmac_secret = ''s'', rt_audit_chain_secret = ''k'', rt_revision = ''r1'',
     rt_outbox_lease_seconds = 60, rt_outbox_batch_size = 10, rt_outbox_max_attempts = 8,
     rt_anchor = \<lparr>pc_base_url = [], pc_post = (\<lambda>_ _. TransportError)\<rparr>, rt_tigerbeetle_client = None, rt_kafka_publisher = None,
     rt_text = (\<lambda>_. [])\<rparr>"

definition sample_notice :: outbox_message where
  "sample_notice = new_message ''order'' 5 ''order.awaiting_payment'' ''n'' [(''order_id'', JStr (uuid_str 5))] 0 0 29"

definition notice_db :: db where
  "notice_db = paid_db\<lparr>outbox_messages := [sample_notice]\<rparr>"

lemma notice_db_wf: "platform_wf k notice_db"
proof -
  have "outbox_wf notice_db" by (simp add: outbox_wf_def notice_db_def sample_notice_def paid_db_fields)
  moreover have "orders_wf notice_db" "money_wf notice_db" "audit_intact k notice_db"
    using paid_db_wf [of k] orders_wf_cong [of notice_db paid_db] money_wf_cong [of notice_db paid_db] audit_intact_cong [of notice_db paid_db k]
    by (simp_all add: notice_db_def platform_wf_def rest_wf_def)
  moreover have "stamps_wf notice_db"
    using stamps_wf_kept [OF platform_orders(2) [OF paid_db_wf], of notice_db] by (simp add: notice_db_def issuance_keptI)
  ultimately show ?thesis by (simp add: platform_wf_def rest_wf_def)
qed

lemma notice_delivered:
  "\<exists>st db'. relay_once quiet_runtime ''w'' 10 (\<lambda>_ _ _. 10) (notice_db, ()) = (Inr st, db', ()) \<and> st_delivered st = 1"
proof -
  let ?m = "sample_notice\<lparr>m_locked_by := Some ''w'', m_locked_until := Some (10 + 60 * SECOND)\<rparr>"
  let ?db = "notice_db\<lparr>outbox_messages := [?m]\<rparr>"
  have t: "dt_add 10 (60 * SECOND) = Inr (10 + 60 * SECOND)" by code_simp
  have cl: "claim_batch ''w'' 10 60 10 notice_db = Inr ([?m], ?db)"
    by (simp add: claim_batch_def t notice_db_def sample_notice_def new_message_def due_def varchar_def update_where_def)
  have "audit_fits WORKER_ACTOR (notification_record (uuid_str 5) [(''order_id'', JStr (uuid_str 5))]) ''r1''"
    by (simp add: audit_fits_def WORKER_ACTOR_def notification_record_def json_obj_opt_def opt_col_def) (simp add: varchar_def)
  moreover have "audit_events ?db = []" by (simp add: notice_db_def paid_db_fields)
  ultimately obtain e db1 where au: "record_audit_event WORKER_ACTOR (notification_record (uuid_str 5) [(''order_id'', JStr (uuid_str 5))]) 10 ''k'' ''r1'' ?db = Inr (e, db1)"
    using record_audit_event_first [of ?db WORKER_ACTOR "notification_record (uuid_str 5) [(''order_id'', JStr (uuid_str 5))]" "''r1''" 10 "''k''"] by blast
  have p: "m_payload ?m = [(''order_id'', JStr (uuid_str 5))]" "m_id ?m = 29" "m_event_type ?m = ''order.awaiting_payment''"
    by (simp_all add: sample_notice_def new_message_def)
  have h: "handler_for ?m = Inr handle_notify" by (simp add: handler_for_def HANDLERS_def p)
  have "deliver quiet_runtime (\<lambda>_ _. 10) 29 [(''order_id'', JStr (uuid_str 5))] (?db, ()) = (Inr (), mark_processed 29 10 db1, ())"
    using au by (simp add: deliver_def get_message_def p h handle_notify_def notify_def in_session_def quiet_runtime_def Let_def del: bind_res_eq_Inr)
  then show ?thesis using cl p by (simp add: relay_once_def quiet_runtime_def)
qed

section \<open>Properties\<close>

text \<open>
  C8. The relay loses no message and hides no failure.  A pass that returns leased the due messages, the earliest first, up to
  the size of a batch, and each of them had exactly one turn: its handler ran once, on the state the turns before it left.
  When the handler returned and the publisher, if there is one, acknowledged, its work is committed and the message is processed.
  When either raised, the work in the session of the relay is undone, the message counts one more attempt, carries the
  text of the exception, is free again after the back-off, and is dead-lettered with the last attempt it has.  No other
  message is touched, the statistics count the turns that ended either way and the dead letters, and the invariants of the
  platform hold afterwards.
\<close>

theorem relay_once_accounts:
  assumes wf: "platform_wf (rt_audit_chain_secret rt) db" and ro: "relay_once rt worker now clock (db, w) = (Inr st, db', w')"
  shows "\<exists>ms db1 ts. claim_batch worker now (rt_outbox_lease_seconds rt) (rt_outbox_batch_size rt) db = Inr (ms, db1) \<and>
    distinct (map m_id ms) \<and>
    set ms = leased worker (now + rt_outbox_lease_seconds rt * SECOND) ` set (claimable now (rt_outbox_batch_size rt) db) \<and>
    turns rt clock ms (db1, w) = (ts, db', w') \<and> map fst ts = ms \<and> (\<forall>(m, e, m') \<in> set ts. m' \<in> set (outbox_messages db')) \<and>
    (\<forall>m \<in> set (outbox_messages db). m \<notin> set (claimable now (rt_outbox_batch_size rt) db) \<longrightarrow> m \<in> set (outbox_messages db')) \<and>
    st_claimed st = length (claimable now (rt_outbox_batch_size rt) db) \<and> st_delivered st = length (filter (\<lambda>t. \<not> refused t) ts) \<and>
    st_failed st = length (filter refused ts) \<and> st_dead_lettered st = length (filter dead_lettered ts) \<and>
    platform_wf (rt_audit_chain_secret rt) db'"
proof -
  obtain ms db1 where cl: "claim_batch worker now (rt_outbox_lease_seconds rt) (rt_outbox_batch_size rt) db = Inr (ms, db1)"
    and lp: "relay_loop rt clock ms \<lparr>st_claimed = length ms, st_delivered = 0, st_failed = 0, st_dead_lettered = 0\<rparr> (db1, w) = (Inr st, db', w')"
    using ro by (auto simp: relay_once_def split: sum.splits)
  note c = claim_batch_claimable [OF wf cl]
  then have pre: "platform_wf (rt_audit_chain_secret rt) db1" "set ms \<subseteq> set (outbox_messages db1)" "distinct (map m_id ms)" by blast+
  obtain ts where ts: "turns rt clock ms (db1, w) = (ts, db', w')" "platform_wf (rt_audit_chain_secret rt) db'"
    "\<forall>(m, e, m') \<in> set ts. m' \<in> set (outbox_messages db')"
    "\<forall>x \<in> set (outbox_messages db1). m_id x \<notin> m_id ` set ms \<longrightarrow> x \<in> set (outbox_messages db')"
    "st = counted ts \<lparr>st_claimed = length ms, st_delivered = 0, st_failed = 0, st_dead_lettered = 0\<rparr>"
    using relay_loop_ok [OF pre(1) lp pre(2,3)] by blast
  then have "st_claimed st = length ms" "st_delivered st = length (filter (\<lambda>t. \<not> refused t) ts)" "st_failed st = length (filter refused ts)"
    "st_dead_lettered st = length (filter dead_lettered ts)" by (simp_all add: counted_def)
  moreover have "map fst ts = ms" using turns_messages [of rt clock ms "(db1, w)"] ts(1) by simp
  ultimately show ?thesis using cl pre(3) ts(1-4) c by (intro exI [of _ ms] exI [of _ db1] exI [of _ ts]) auto
qed

theorem relay_once_accounts_witness:
  "\<exists>st db' ts. relay_once quiet_runtime ''w'' 10 (\<lambda>_ _ _. 10) (notice_db, ()) = (Inr st, db', ()) \<and>
    st_delivered st = length (filter (\<lambda>t. \<not> refused t) ts) \<and> (\<forall>(m, e, m') \<in> set ts. m' \<in> set (outbox_messages db')) \<and> st_delivered st = 1"
proof -
  obtain st db' where r: "relay_once quiet_runtime ''w'' 10 (\<lambda>_ _ _. 10) (notice_db, ()) = (Inr st, db', ())" "st_delivered st = 1"
    using notice_delivered by blast
  from relay_once_accounts [OF _ r(1)] notice_db_wf r show ?thesis by blast
qed

end
