(* ===== verification/Idempotency.thy ===== *)
theory Idempotency
  imports Tables Security
begin

text \<open>
  \<^verbatim>\<open>src/taxstamp/idempotency.py\<close> and \<^verbatim>\<open>src/taxstamp/api/idempotent.py\<close>: a key is claimed before
  the work of a request and completed with its response in the same transaction.
\<close>

section \<open>Model\<close>

definition STATE_IN_PROGRESS :: string where "STATE_IN_PROGRESS = ''in_progress''"
definition STATE_COMPLETED :: string where "STATE_COMPLETED = ''completed''"

record replayed_response =
  rp_status :: int
  rp_body :: json_object

text \<open>\<^verbatim>\<open>WHERE scope = \<dots> AND idempotency_key = \<dots>\<close>\<close>

definition records_for :: "string \<Rightarrow> string \<Rightarrow> db \<Rightarrow> idempotency_record list" where
  "records_for scope key db =
     filter (\<lambda>r. (ir_scope r, ir_idempotency_key r) = (scope, key)) (idempotency_records db)"

definition new_record :: "string \<Rightarrow> string \<Rightarrow> uuid \<Rightarrow> string \<Rightarrow> instant \<Rightarrow> instant \<Rightarrow> uuid \<Rightarrow> idempotency_record" where
  "new_record scope key principal_id request_hash created_at expires_at i =
     \<lparr>ir_id = i, ir_scope = scope, ir_idempotency_key = key, ir_principal_id = principal_id,
      ir_request_hash = request_hash, ir_state = STATE_IN_PROGRESS, ir_response_status = None,
      ir_response_body = None, ir_created_at = created_at, ir_completed_at = None,
      ir_expires_at = expires_at\<rparr>"

definition claim ::
  "string \<Rightarrow> string \<Rightarrow> uuid \<Rightarrow> string \<Rightarrow> instant \<Rightarrow> int \<Rightarrow> db \<Rightarrow> (replayed_response option \<times> db) res" where
  "claim scope key principal_id request_hash now ttl_seconds db =
     bind_res (scalar_one_or_none (records_for scope key db)) (\<lambda>existing.
     case existing of
       None \<Rightarrow>
         bind_res (dt_add now (ttl_seconds * SECOND)) (\<lambda>expires_at.
         except_integrity
           (bind_res (insert_idempotency_record
               (new_record scope key principal_id request_hash (db_now db) expires_at) db)
             (\<lambda>(record, db). Inr (None, db)))
           (Inl Conflict))
     | Some r \<Rightarrow>
         if ir_principal_id r \<noteq> principal_id then Inl Conflict
         else if ir_request_hash r \<noteq> request_hash then Inl IdempotencyKeyReused
         else if ir_state r = STATE_IN_PROGRESS then Inl Conflict
         else (case (ir_response_status r, ir_response_body r) of
                 (Some status, Some body) \<Rightarrow> Inr (Some \<lparr>rp_status = status, rp_body = body\<rparr>, db)
               | _ \<Rightarrow> Inl Conflict))"

definition complete :: "string \<Rightarrow> string \<Rightarrow> int \<Rightarrow> json_object \<Rightarrow> instant \<Rightarrow> db \<Rightarrow> db res" where
  "complete scope key status body now db =
     bind_res (scalar_one (records_for scope key db)) (\<lambda>record.
     if \<not> int4 status then Inl DataError else
     Inr (db\<lparr>idempotency_records := update_where (\<lambda>r. ir_id r = ir_id record)
            (\<lambda>r. r\<lparr>ir_state := STATE_COMPLETED, ir_response_status := Some status,
                   ir_response_body := Some body, ir_completed_at := Some now\<rparr>)
            (idempotency_records db)\<rparr>))"

definition request_fingerprint :: "json_object \<Rightarrow> string res" where
  "request_fingerprint payload = canonical_hash payload"

text \<open>
  One transaction: an exception anywhere leaves the database as it was.  \<open>work\<close> is the domain
  effect of the route, which returns the body of the response.
\<close>

definition run_idempotent ::
  "string \<Rightarrow> string \<Rightarrow> uuid \<Rightarrow> json_object \<Rightarrow> int \<Rightarrow> (db \<Rightarrow> (json_object \<times> db) res) \<Rightarrow> instant \<Rightarrow> int \<Rightarrow>
   db \<Rightarrow> ((int \<times> json_object) \<times> db) res" where
  "run_idempotent scope key principal_id payload status work now ttl_seconds db =
     bind_res (request_fingerprint payload) (\<lambda>fingerprint.
     bind_res (claim scope key principal_id fingerprint now ttl_seconds db) (\<lambda>(replay, db).
     case replay of
       Some r \<Rightarrow> Inr ((rp_status r, rp_body r), db)
     | None \<Rightarrow>
         bind_res (work db) (\<lambda>(body, db).
         bind_res (complete scope key status body now db) (\<lambda>db.
         Inr ((status, body), db)))))"

section \<open>Lemmas\<close>

definition idem_wf :: "db \<Rightarrow> bool" where
  "idem_wf db = (distinct (map ir_id (idempotency_records db)) \<and>
     below (next_uuid db) (map ir_id (idempotency_records db)))"

lemma claim_new:
  assumes "claim scope key p h now ttl db = Inr (None, db')"
  shows "records_for scope key db = [] \<and> (\<exists>t. db' = db\<lparr>next_uuid := Suc (next_uuid db),
     idempotency_records := idempotency_records db @ [new_record scope key p h (db_now db) t (next_uuid db)]\<rparr>)"
proof (cases "records_for scope key db")
  case Nil
  with assms show ?thesis by (auto simp: claim_def insert_ok)
next
  case (Cons r rs)
  with assms show ?thesis by (cases rs) (auto simp: claim_def split: option.splits if_splits)
qed

text \<open>A completed record, and what a claim makes of it.\<close>

definition completed_as :: "idempotency_record \<Rightarrow> uuid \<Rightarrow> string \<Rightarrow> int \<Rightarrow> json_object \<Rightarrow> bool" where
  "completed_as r p h status body =
     (ir_principal_id r = p \<and> ir_request_hash r = h \<and> ir_state r \<noteq> STATE_IN_PROGRESS \<and>
      ir_response_status r = Some status \<and> ir_response_body r = Some body)"

lemma claim_replay_iff:
  "claim scope key p h now ttl db = Inr (Some rp, db') \<longleftrightarrow>
     db' = db \<and> (\<exists>r. records_for scope key db = [r] \<and> completed_as r p h (rp_status rp) (rp_body rp))"
proof (cases "records_for scope key db")
  case Nil
  then show ?thesis by (auto simp: claim_def)
next
  case (Cons r rs)
  then show ?thesis
    by (cases rp; cases rs) (auto simp: claim_def completed_as_def split: option.splits if_splits)
qed

lemma claim_completed:
  assumes "records_for scope key db = [r]" and "completed_as r p h status body"
  shows "claim scope key p h now ttl db = Inr (Some \<lparr>rp_status = status, rp_body = body\<rparr>, db)"
  using assms by (simp add: claim_def completed_as_def)

lemma claim_other_payload:
  assumes "records_for scope key db = [r]" and "completed_as r p h status body" and "h' \<noteq> h"
  shows "claim scope key p h' now ttl db = Inl IdempotencyKeyReused"
  using assms by (simp add: claim_def completed_as_def)

lemma claim_other_principal:
  assumes "records_for scope key db = [r]" and "completed_as r p h status body" and "p' \<noteq> p"
  shows "claim scope key p' h' now ttl db = Inl Conflict"
  using assms by (simp add: claim_def completed_as_def)

text \<open>The work of a route leaves the idempotency records alone.\<close>

definition keeps_records :: "(db \<Rightarrow> (json_object \<times> db) res) \<Rightarrow> bool" where
  "keeps_records work =
     (\<forall>db b db'. work db = Inr (b, db') \<longrightarrow> idempotency_records db' = idempotency_records db)"

text \<open>After a request succeeded, its key holds the completed response.\<close>

lemma run_idempotent_completed:
  assumes "idem_wf db" and "keeps_records work"
    and "run_idempotent scope key p payload status work now ttl db = Inr ((st, body), db')"
  shows "\<exists>r h. request_fingerprint payload = Inr h \<and> records_for scope key db' = [r] \<and> completed_as r p h st body"
proof -
  from assms(3) obtain h rp db1 where h: "request_fingerprint payload = Inr h"
    and c: "claim scope key p h now ttl db = Inr (rp, db1)"
    by (auto simp: run_idempotent_def)
  show ?thesis
  proof (cases rp)
    case (Some rp')
    with assms(3) h c have "st = rp_status rp'" "body = rp_body rp'" "db' = db1"
      by (auto simp: run_idempotent_def)
    with c Some h show ?thesis by (auto simp: claim_replay_iff)
  next
    case None
    with assms(3) h c obtain db2 where w: "work db1 = Inr (body, db2)" and st: "st = status"
      and fin: "complete scope key status body now db2 = Inr db'"
      by (auto simp: run_idempotent_def)
    from c None obtain t where none: "records_for scope key db = []"
      and db1: "idempotency_records db1 = idempotency_records db @ [new_record scope key p h (db_now db) t (next_uuid db)]"
      using claim_new [of scope key p h now ttl db db1] by auto
    define r where "r = new_record scope key p h (db_now db) t (next_uuid db)"
    have r: "ir_scope r = scope" "ir_idempotency_key r = key" "ir_principal_id r = p"
      "ir_request_hash r = h" "ir_id r = next_uuid db" "records_for scope key db = []"
      by (simp_all add: r_def new_record_def none)
    note db1 = db1 [folded r_def]
    have rows: "idempotency_records db2 = idempotency_records db @ [r]"
      using assms(2) w db1 by (simp add: keeps_records_def)
    have others: "ir_id x \<noteq> ir_id r" if "x \<in> set (idempotency_records db)" for x
      using assms(1) that r(5) below_keyD [of "next_uuid db" ir_id "idempotency_records db" x]
      by (auto simp: idem_wf_def)
    let ?r = "r\<lparr>ir_state := STATE_COMPLETED, ir_response_status := Some status, ir_response_body := Some body,
      ir_completed_at := Some now\<rparr>"
    have "records_for scope key db2 = [r]" using r rows by (simp add: records_for_def)
    with fin have "idempotency_records db' = update_where (\<lambda>x. ir_id x = ir_id r)
        (\<lambda>x. x\<lparr>ir_state := STATE_COMPLETED, ir_response_status := Some status, ir_response_body := Some body,
          ir_completed_at := Some now\<rparr>) (idempotency_records db2)"
      by (auto simp: complete_def split: if_splits)
    also have "\<dots> = idempotency_records db @ [?r]"
      using others by (simp add: rows update_where_def map_idI)
    finally have "records_for scope key db' = [?r]" using r by (simp add: records_for_def)
    with h r st show ?thesis
      by (auto simp: completed_as_def STATE_COMPLETED_def STATE_IN_PROGRESS_def)
  qed
qed

section \<open>Properties\<close>

text \<open>
  C38. A request takes effect once per key.  After a request succeeded, in every later state that
  still has its idempotency record, a replay by the same principal with the same payload (up to
  the order of keys) returns the stored status and body and changes nothing, without running the
  work; another principal gets a conflict; another payload is refused as a reused key, unless the
  two payloads are a SHA-256 collision.
\<close>

theorem run_idempotent_exactly_once:
  assumes "idem_wf db" and "keeps_records work"
    and "run_idempotent scope key p payload status work now ttl db = Inr ((st, body), db1)"
    and "idempotency_records db2 = idempotency_records db1"
  shows "(normalise (JObj payload') = normalise (JObj payload) \<longrightarrow>
      run_idempotent scope key p payload' status' work' now' ttl' db2 = Inr ((st, body), db2)) \<and>
    (p' \<noteq> p \<and> is_ok (request_fingerprint payload') \<longrightarrow>
      run_idempotent scope key p' payload' status' work' now' ttl' db2 = Inl Conflict) \<and>
    (is_ok (request_fingerprint payload') \<and> request_fingerprint payload' \<noteq> request_fingerprint payload \<longrightarrow>
      run_idempotent scope key p payload' status' work' now' ttl' db2 = Inl IdempotencyKeyReused)"
proof -
  from run_idempotent_completed [OF assms(1-3)] obtain r h where h: "request_fingerprint payload = Inr h"
    and r: "records_for scope key db2 = [r]" "completed_as r p h st body"
    using assms(4) by (auto simp: records_for_def)
  have same: "request_fingerprint payload' = Inr h" if "normalise (JObj payload') = normalise (JObj payload)"
  proof -
    have "canonical_bytes payload' = canonical_bytes payload"
      using that unfolding canonical_bytes_def by (metis dumps_ser reject_floats_normalise)
    with h show ?thesis by (simp add: request_fingerprint_def canonical_hash_def)
  qed
  show ?thesis
  proof (intro conjI impI)
    assume "normalise (JObj payload') = normalise (JObj payload)"
    from same [OF this] show "run_idempotent scope key p payload' status' work' now' ttl' db2 = Inr ((st, body), db2)"
      using claim_completed [OF r] by (simp add: run_idempotent_def)
  next
    assume "p' \<noteq> p \<and> is_ok (request_fingerprint payload')"
    then show "run_idempotent scope key p' payload' status' work' now' ttl' db2 = Inl Conflict"
      using claim_other_principal [OF r] by (auto simp: run_idempotent_def is_ok_iff)
  next
    assume "is_ok (request_fingerprint payload') \<and> request_fingerprint payload' \<noteq> request_fingerprint payload"
    then show "run_idempotent scope key p payload' status' work' now' ttl' db2 = Inl IdempotencyKeyReused"
      using claim_other_payload [OF r] h by (auto simp: run_idempotent_def is_ok_iff)
  qed
qed

theorem run_idempotent_exactly_once_witness:
  "\<exists>db1. run_idempotent ''orders'' ''key-0001'' 1 [(''a'', JInt 1), (''b'', JNull)] 201
        (\<lambda>db. Inr ([(''ok'', JBool True)], db)) 0 60
        (empty_db\<lparr>next_uuid := 2, principals := [\<lparr>pr_id = 1, pr_subject = ''s'', pr_role = ADMIN,
           pr_company_id = None, pr_display_name = ''d'', pr_active = True, pr_created_at = 0\<rparr>]\<rparr>) =
      Inr ((201, [(''ok'', JBool True)]), db1) \<and>
    run_idempotent ''orders'' ''key-0001'' 1 [(''b'', JNull), (''a'', JInt 1)] 500 (\<lambda>db. Inl IllegalState) 9 60 db1 =
      Inr ((201, [(''ok'', JBool True)]), db1)"
  (is "\<exists>db1. run_idempotent ?s ?k 1 ?pay 201 ?work 0 60 ?db = _ \<and> _")
proof -
  have h: "request_fingerprint ?pay = Inr (sha256_hex (utf8 (dumps (JObj ?pay))))"
    by (simp add: request_fingerprint_def canonical_hash_def canonical_bytes_def del: dumps.simps)
  define h where "h = sha256_hex (utf8 (dumps (JObj ?pay)))"
  have vh: "varchar 64 h" by (simp add: h_def sha256_hex_def varchar_def)
  have "is_ok (run_idempotent ?s ?k 1 ?pay 201 ?work 0 60 ?db)"
    using h vh unfolding h_def [symmetric]
    by (simp add: run_idempotent_def claim_def records_for_def dt_add_def MIN_INSTANT_def
        MAX_INSTANT_def DAY_def SECOND_def new_record_def STATE_IN_PROGRESS_def complete_def db_eval)
  then obtain st body db1 where run: "run_idempotent ?s ?k 1 ?pay 201 ?work 0 60 ?db = Inr ((st, body), db1)"
    by (auto simp: is_ok_iff)
  then have sb: "st = 201" "body = [(''ok'', JBool True)]"
    by (auto simp: run_idempotent_def claim_def records_for_def empty_db_def)
  have wf: "idem_wf ?db" by (simp add: idem_wf_def empty_db_def)
  have keeps: "keeps_records ?work" by (simp add: keeps_records_def)
  have "normalise (JObj [(''b'', JNull), (''a'', JInt 1)]) = normalise (JObj ?pay)" by simp
  then show ?thesis
    using run_idempotent_exactly_once [OF wf keeps run refl] run sb by blast
qed

end
