(* ===== verification/Access.thy ===== *)
theory Access
  imports Worker Idempotency
begin

text \<open>
  \<^verbatim>\<open>src/taxstamp/api/deps.py\<close>: what every request passes before its route.  Headers are the strings a server decodes as
  Latin-1.  A fresh request id (\<^verbatim>\<open>uuid.uuid4\<close>) and the reading of the clock are arguments.
\<close>

section \<open>Model\<close>

text \<open>\<^verbatim>\<open>str.isprintable\<close> on the characters of Latin-1.\<close>

definition isprintable :: "string \<Rightarrow> bool" where
  "isprintable s = list_all (\<lambda>c. let n = (of_char c :: nat) in (32 \<le> n \<and> n \<le> 126) \<or> (161 \<le> n \<and> n \<noteq> 173)) s"

definition request_id :: "string option \<Rightarrow> string \<Rightarrow> string" where
  "request_id header fresh =
     (case header of None \<Rightarrow> fresh
      | Some v \<Rightarrow> if v \<noteq> [] \<and> length v \<le> 64 \<and> isprintable v then v else fresh)"

record authenticated_actor =
  au_actor :: actor
  au_credential_id :: uuid

definition parse_bearer :: "string option \<Rightarrow> string res" where
  "parse_bearer authorization =
     (case authorization of None \<Rightarrow> Inl Unauthenticated
      | Some a \<Rightarrow>
          if a = [] \<or> take 7 (lower a) \<noteq> ''bearer '' then Inl Unauthenticated else
          let token = strip py_space (drop 1 (dropWhile (\<lambda>c. c \<noteq> CHR '' '') a)) in
          if token = [] then Inl Unauthenticated else Inr token)"

text \<open>\<^verbatim>\<open>credential.expires_at is not None and credential.expires_at <= now\<close>\<close>

definition expired :: "instant \<Rightarrow> credential \<Rightarrow> bool" where
  "expired now c = (case cr_expires_at c of None \<Rightarrow> False | Some t \<Rightarrow> t \<le> now)"

definition touch_credential :: "uuid \<Rightarrow> instant \<Rightarrow> db \<Rightarrow> db" where
  "touch_credential i now db =
     db\<lparr>credentials := update_where (\<lambda>c. cr_id c = i) (\<lambda>c. c\<lparr>cr_last_used_at := Some now\<rparr>) (credentials db)\<rparr>"

definition authenticate ::
  "string \<Rightarrow> string option \<Rightarrow> string \<Rightarrow> instant \<Rightarrow> db \<Rightarrow> (authenticated_actor \<times> db) res" where
  "authenticate api_token_secret authorization rid now db =
     bind_res (parse_bearer authorization) (\<lambda>token.
     bind_res (scalar_one_or_none (filter (\<lambda>c. cr_token_hash c = hash_token token api_token_secret) (credentials db))) (\<lambda>found.
     case found of
       None \<Rightarrow> Inl Unauthenticated
     | Some credential \<Rightarrow>
     if cr_revoked_at credential \<noteq> None then Inl Unauthenticated else
     if expired now credential then Inl Unauthenticated else
     case get_row pr_id (principals db) (cr_principal_id credential) of
       None \<Rightarrow> Inl AttributeError
     | Some p \<Rightarrow>
     if \<not> pr_active p then Inl Unauthenticated else
     Inr (\<lparr>au_actor = \<lparr>ac_principal_id = pr_id p, ac_subject = pr_subject p, ac_role = pr_role p,
             ac_company_id = pr_company_id p, ac_request_id = Some rid\<rparr>,
           au_credential_id = cr_id credential\<rparr>,
          touch_credential (cr_id credential) now db)))"

definition require_roles :: "role list \<Rightarrow> authenticated_actor \<Rightarrow> actor res" where
  "require_roles roles current = (if ac_role (au_actor current) \<notin> set roles then Inl Forbidden else Inr (au_actor current))"

definition idempotency_key :: "string option \<Rightarrow> string res" where
  "idempotency_key header =
     (case header of None \<Rightarrow> Inl ValidationFailed
      | Some h \<Rightarrow>
          if h = [] then Inl ValidationFailed else
          let key = strip py_space h in
          if \<not> (8 \<le> length key \<and> length key \<le> 128) \<or> \<not> isprintable key then Inl ValidationFailed else Inr key)"

text \<open>\<^verbatim>\<open>value.astimezone(dt.UTC).isoformat()\<close>\<close>

definition utc :: "instant \<Rightarrow> json" where
  "utc t = JStr (isoformat t)"

section \<open>Lemmas\<close>

text \<open>A credential that admits the bearer of a token, and the principal it belongs to.\<close>

definition admits :: "string \<Rightarrow> string \<Rightarrow> instant \<Rightarrow> db \<Rightarrow> credential \<Rightarrow> principal \<Rightarrow> bool" where
  "admits secret token now db c p =
     (c \<in> set (credentials db) \<and> cr_token_hash c = hash_token token secret \<and> cr_revoked_at c = None \<and> \<not> expired now c \<and>
      p \<in> set (principals db) \<and> pr_id p = cr_principal_id c \<and> pr_active p)"

definition speaks_for :: "principal \<Rightarrow> string \<Rightarrow> actor \<Rightarrow> bool" where
  "speaks_for p rid a =
     (a = \<lparr>ac_principal_id = pr_id p, ac_subject = pr_subject p, ac_role = pr_role p, ac_company_id = pr_company_id p, ac_request_id = Some rid\<rparr>)"

lemma not_expired: "\<not> expired now c \<longleftrightarrow> (\<forall>t. cr_expires_at c = Some t \<longrightarrow> now < t)"
  by (auto simp: expired_def split: option.splits)

lemma get_row_Some: "get_row k rows i = Some r \<Longrightarrow> r \<in> set rows \<and> k r = i"
  by (auto simp: get_row_def split: list.splits dest: filter_eq_ConsD)

lemma authenticate_ok:
  assumes "authenticate secret authz rid now db = Inr (cur, db')"
  obtains token c p where "parse_bearer authz = Inr token" "admits secret token now db c p" "speaks_for p rid (au_actor cur)"
    "au_credential_id cur = cr_id c" "db' = touch_credential (cr_id c) now db"
proof -
  obtain token found where tk: "parse_bearer authz = Inr token"
    and fd: "scalar_one_or_none (filter (\<lambda>c. cr_token_hash c = hash_token token secret) (credentials db)) = Inr found"
    using assms by (auto simp: authenticate_def)
  obtain c where c: "found = Some c" using assms tk fd by (cases found) (simp_all add: authenticate_def)
  have mem: "c \<in> set (credentials db)" "cr_token_hash c = hash_token token secret"
    using filter_eq_singletonD [of _ "credentials db" c] fd c by auto
  obtain p where p: "get_row pr_id (principals db) (cr_principal_id c) = Some p"
    using assms tk fd c by (auto simp: authenticate_def split: if_splits option.splits)
  have "cr_revoked_at c = None" "\<not> expired now c" "pr_active p" "db' = touch_credential (cr_id c) now db" "au_credential_id cur = cr_id c"
    "speaks_for p rid (au_actor cur)"
    using assms tk fd c p by (auto simp: authenticate_def speaks_for_def split: if_splits)
  with that [of token c p] tk mem get_row_Some [OF p] show thesis by (simp add: admits_def)
qed

text \<open>Unique token hashes and keys, and a principal behind every credential.\<close>

definition access_wf :: "db \<Rightarrow> bool" where
  "access_wf db =
     (distinct (map cr_token_hash (credentials db)) \<and> distinct (map cr_id (credentials db)) \<and> distinct (map pr_id (principals db)) \<and>
      below (next_uuid db) (map cr_id (credentials db)) \<and> below (next_uuid db) (map pr_id (principals db)) \<and>
      cr_principal_id ` set (credentials db) \<subseteq> pr_id ` set (principals db))"

lemma access_wf_insert_principal:
  "access_wf db \<Longrightarrow> insert_principal mk db = Inr (p, db') \<Longrightarrow> (\<And>i. pr_id (mk i) = i) \<Longrightarrow> access_wf db'"
  by (auto simp: access_wf_def insert_ok principal_checks_def unused_def intro: below_Suc)

lemma access_wf_insert_credential:
  "access_wf db \<Longrightarrow> insert_credential mc db = Inr (c, db') \<Longrightarrow> (\<And>i. cr_id (mc i) = i) \<Longrightarrow> access_wf db'"
  by (auto simp: access_wf_def insert_ok credential_checks_def unused_def foreign_key_def intro: below_Suc)

lemma access_wf_touch: "access_wf db \<Longrightarrow> access_wf (touch_credential i now db)"
  by (auto simp: access_wf_def touch_credential_def map_update_where_same set_update_where)

lemma authenticate_admits:
  assumes wf: "access_wf db" and tk: "parse_bearer authz = Inr token" and ad: "admits secret token now db c p"
  shows "authenticate secret authz rid now db = Inr (\<lparr>au_actor = \<lparr>ac_principal_id = pr_id p, ac_subject = pr_subject p, ac_role = pr_role p,
      ac_company_id = pr_company_id p, ac_request_id = Some rid\<rparr>, au_credential_id = cr_id c\<rparr>, touch_credential (cr_id c) now db)"
proof -
  have "filter (\<lambda>x. cr_token_hash x = hash_token token secret) (credentials db) = [c]"
    using filter_key_singleton [of cr_token_hash "credentials db" c] wf ad by (simp add: access_wf_def admits_def)
  moreover have "filter (\<lambda>x. pr_id x = cr_principal_id c) (principals db) = [p]"
    using filter_key_singleton [of pr_id "principals db" p] wf ad by (simp add: access_wf_def admits_def)
  ultimately show ?thesis using tk ad by (simp add: authenticate_def get_row_def admits_def)
qed

section \<open>Properties\<close>

text \<open>
  C21. Authentication.  A request is let in exactly when its header carries a bearer token whose keyed hash is that of a
  credential which is neither revoked nor expired and belongs to an active principal; it then acts for that principal with the
  role and company on record, and nothing but the time of last use of that credential changes.
\<close>

theorem authenticate_iff:
  assumes "access_wf db"
  shows "authenticate secret authz rid now db = Inr (cur, db') \<longleftrightarrow>
    (\<exists>token c p. parse_bearer authz = Inr token \<and> c \<in> set (credentials db) \<and> cr_token_hash c = hash_token token secret \<and>
       cr_revoked_at c = None \<and> (\<forall>t. cr_expires_at c = Some t \<longrightarrow> now < t) \<and>
       p \<in> set (principals db) \<and> pr_id p = cr_principal_id c \<and> pr_active p \<and>
       cur = \<lparr>au_actor = \<lparr>ac_principal_id = pr_id p, ac_subject = pr_subject p, ac_role = pr_role p,
         ac_company_id = pr_company_id p, ac_request_id = Some rid\<rparr>, au_credential_id = cr_id c\<rparr> \<and>
       db' = db\<lparr>credentials := update_where (\<lambda>x. cr_id x = cr_id c) (\<lambda>x. x\<lparr>cr_last_used_at := Some now\<rparr>) (credentials db)\<rparr>)"
    (is "?a \<longleftrightarrow> ?b")
proof
  assume ?a
  then show ?b
  proof (rule authenticate_ok)
    fix token c p
    assume "parse_bearer authz = Inr token" "admits secret token now db c p" "speaks_for p rid (au_actor cur)"
      "au_credential_id cur = cr_id c" "db' = touch_credential (cr_id c) now db"
    then show ?b by (intro exI [of _ token] exI [of _ c] exI [of _ p])
        (simp add: admits_def speaks_for_def not_expired touch_credential_def)
  qed
next
  assume ?b
  then obtain token c p where "parse_bearer authz = Inr token" "admits secret token now db c p"
    "cur = \<lparr>au_actor = \<lparr>ac_principal_id = pr_id p, ac_subject = pr_subject p, ac_role = pr_role p,
         ac_company_id = pr_company_id p, ac_request_id = Some rid\<rparr>, au_credential_id = cr_id c\<rparr>" "db' = touch_credential (cr_id c) now db"
    unfolding admits_def not_expired touch_credential_def by blast
  with authenticate_admits [OF assms] show ?a by simp
qed

text \<open>A platform with one principal, their credential and one order.\<close>

definition gate_principal :: "role \<Rightarrow> principal" where
  "gate_principal rl = \<lparr>pr_id = 1, pr_subject = ''gate-7'', pr_role = rl, pr_company_id = (if rl = REQUESTER then Some 1 else None),
     pr_display_name = ''Gate'', pr_active = True, pr_created_at = 0\<rparr>"

definition gate_credential :: credential where
  "gate_credential = \<lparr>cr_id = 2, cr_principal_id = 1, cr_token_hash = hash_token ''t0ken'' ''a'', cr_label = ''gate'', cr_created_at = 0,
     cr_expires_at = Some 100, cr_revoked_at = None, cr_last_used_at = None\<rparr>"

definition access_db :: "role \<Rightarrow> db" where
  "access_db rl = empty_db\<lparr>next_uuid := 30, principals := [gate_principal rl], credentials := [gate_credential],
     orders := [sample_order O_AWAITING_PAYMENT 3750]\<rparr>"

lemma access_db_wf: "access_wf (access_db rl)"
  by (simp add: access_wf_def access_db_def gate_principal_def gate_credential_def below_def)

lemma sample_bearer: "parse_bearer (Some ''Bearer  t0ken '') = Inr ''t0ken''"
  by code_simp

theorem authenticate_iff_witness:
  "\<exists>cur db'. authenticate ''a'' (Some ''Bearer  t0ken '') ''r'' 99 (access_db AUDITOR) = Inr (cur, db') \<and> ac_role (au_actor cur) = AUDITOR"
  using authenticate_iff [OF access_db_wf, of "''a''" "Some ''Bearer  t0ken ''" "''r''" 99 AUDITOR] sample_bearer
  by (simp add: access_db_def gate_credential_def gate_principal_def)

end
