(* ===== verification/Gates.thy ===== *)
theory Gates
  imports Worker Idempotency
begin

text \<open>
  \<^verbatim>\<open>src/taxstamp/gates.py\<close>: the replay guard and the rate limiter.  Redis is a parameter: a client whose two commands map its
  state to an answer, or to nothing when the call fails, and to its next state.  Whatever a failed call left behind is up to
  Redis.  The properties name what they rely on: \<open>key_store\<close> and \<open>counter_store\<close> state the documented behaviour of
  \<^verbatim>\<open>SET key value NX EX ttl\<close> and of \<^verbatim>\<open>INCR\<close> while the keys in question have not expired.
\<close>

section \<open>Model\<close>

record 'r redis =
  rd_set_nx :: "string \<Rightarrow> string \<Rightarrow> int \<Rightarrow> 'r \<Rightarrow> bool option \<times> 'r"
  rd_incr_expire :: "string \<Rightarrow> int \<Rightarrow> 'r \<Rightarrow> int option \<times> 'r"

definition replay_key :: "string \<Rightarrow> string \<Rightarrow> string" where
  "replay_key device_id nonce = ''nonce:'' @ device_id @ '':'' @ nonce"

definition claim_nonce :: "'r redis \<Rightarrow> int \<Rightarrow> string \<Rightarrow> string \<Rightarrow> 'r \<Rightarrow> bool res \<times> 'r" where
  "claim_nonce redis ttl device_id nonce r =
     (case rd_set_nx redis (replay_key device_id nonce) ''1'' ttl r of
        (None, r) \<Rightarrow> (Inl DependencyUnavailable, r)
      | (Some created, r) \<Rightarrow> (Inr created, r))"

record rate_limit_decision =
  rl_allowed :: bool
  rl_remaining :: int
  rl_limit :: int

definition rate_key :: "string \<Rightarrow> string \<Rightarrow> string" where
  "rate_key subject bucket = ''rl:'' @ bucket @ '':'' @ subject"

definition check_rate :: "'r redis \<Rightarrow> int \<Rightarrow> string \<Rightarrow> string \<Rightarrow> int \<Rightarrow> 'r \<Rightarrow> rate_limit_decision res \<times> 'r" where
  "check_rate redis window subject bucket limit r =
     (case rd_incr_expire redis (rate_key subject bucket) window r of
        (None, r) \<Rightarrow> (Inl DependencyUnavailable, r)
      | (Some count, r) \<Rightarrow>
          (Inr \<lparr>rl_allowed = count \<le> limit, rl_remaining = max (limit - count) 0, rl_limit = limit\<rparr>, r))"

definition enforce :: "'r redis \<Rightarrow> int \<Rightarrow> string \<Rightarrow> string \<Rightarrow> int \<Rightarrow> 'r \<Rightarrow> unit res \<times> 'r" where
  "enforce redis window subject bucket limit r =
     (case check_rate redis window subject bucket limit r of
        (Inl e, r) \<Rightarrow> (Inl e, r)
      | (Inr decision, r) \<Rightarrow> (if \<not> rl_allowed decision then Inl RateLimited else Inr (), r))"

section \<open>What the gates rely on\<close>

definition key_store :: "'r redis \<Rightarrow> (string \<Rightarrow> 'r \<Rightarrow> bool) \<Rightarrow> bool" where
  "key_store redis held =
     ((\<forall>k v ttl r a r'. rd_set_nx redis k v ttl r = (a, r') \<longrightarrow>
        (\<forall>b. a = Some b \<longrightarrow> b = (\<not> held k r) \<and> held k r') \<and> (\<forall>k'. held k' r \<longrightarrow> held k' r')) \<and>
     (\<forall>k w r a r' k'. rd_incr_expire redis k w r = (a, r') \<longrightarrow> held k' r \<longrightarrow> held k' r'))"

definition counter_store :: "'r redis \<Rightarrow> (string \<Rightarrow> 'r \<Rightarrow> int) \<Rightarrow> bool" where
  "counter_store redis cnt =
     (\<forall>k w r a r'. rd_incr_expire redis k w r = (a, r') \<longrightarrow>
        (\<forall>n. a = Some n \<longrightarrow> n = cnt k r + 1 \<and> cnt k r' = n) \<and> (\<forall>k'. cnt k' r \<le> cnt k' r'))"

lemma key_storeD:
  assumes "key_store redis held" and "rd_set_nx redis k v ttl r = (a, r')"
  shows "(\<forall>b. a = Some b \<longrightarrow> b = (\<not> held k r) \<and> held k r') \<and> (\<forall>k'. held k' r \<longrightarrow> held k' r')"
  using assms unfolding key_store_def by blast

lemma counter_storeD:
  assumes "counter_store redis cnt" and "rd_incr_expire redis k w r = (a, r')"
  shows "(\<forall>n. a = Some n \<longrightarrow> n = cnt k r + 1 \<and> cnt k r' = n) \<and> (\<forall>k'. cnt k' r \<le> cnt k' r')"
  using assms unfolding counter_store_def by blast

lemma claim_nonce_held:
  assumes "key_store redis held" and "claim_nonce redis ttl d n r = (Inr b, r')"
  shows "b = (\<not> held (replay_key d n) r)" and "held (replay_key d n) r'"
proof -
  obtain a where s: "rd_set_nx redis (replay_key d n) ''1'' ttl r = (a, r')" "a = Some b"
    using assms(2) by (auto simp: claim_nonce_def split: prod.splits option.splits)
  with key_storeD [OF assms(1) s(1)] show "b = (\<not> held (replay_key d n) r)" "held (replay_key d n) r'" by simp_all
qed

lemma claim_nonce_keeps:
  assumes "key_store redis held" and "claim_nonce redis ttl d n r = (x, r')" and "held k r"
  shows "held k r'"
proof -
  obtain a where "rd_set_nx redis (replay_key d n) ''1'' ttl r = (a, r')"
    using assms(2) by (auto simp: claim_nonce_def split: prod.splits option.splits)
  from key_storeD [OF assms(1) this] assms(3) show ?thesis by simp
qed

lemma enforce_ok:
  "enforce redis w s b limit r = (Inr u, r') \<longleftrightarrow> (\<exists>n. rd_incr_expire redis (rate_key s b) w r = (Some n, r') \<and> n \<le> limit)"
  by (auto simp: enforce_def check_rate_def split: prod.splits option.splits)

lemma enforce_next: "enforce redis w s b limit r = (x, r') \<Longrightarrow> \<exists>a. rd_incr_expire redis (rate_key s b) w r = (a, r')"
  by (auto simp: enforce_def check_rate_def split: prod.splits option.splits if_splits)

lemma enforce_keeps:
  assumes "key_store redis held" and "enforce redis w s b limit r = (x, r')" and "held k r"
  shows "held k r'"
  using enforce_next [OF assms(2)] assms(1,3) unfolding key_store_def by blast

section \<open>The rate limit\<close>

text \<open>Any sequence of calls of principals on buckets, with their answers.\<close>

fun enforce_all :: "'r redis \<Rightarrow> int \<Rightarrow> (string \<Rightarrow> int) \<Rightarrow> (string \<times> string) list \<Rightarrow> 'r \<Rightarrow> ((string \<times> string) \<times> unit res) list" where
  "enforce_all redis w limits [] r = []"
| "enforce_all redis w limits ((s, b) # calls) r =
     (case enforce redis w s b (limits b) r of (x, r') \<Rightarrow> ((s, b), x) # enforce_all redis w limits calls r')"

definition admissions :: "string \<Rightarrow> string \<Rightarrow> ((string \<times> string) \<times> unit res) list \<Rightarrow> int" where
  "admissions s b outcomes = int (length (filter (\<lambda>x. x = ((s, b), Inr ())) outcomes))"

lemma admissions_Cons: "admissions s b (x # xs) = (if x = ((s, b), Inr ()) then 1 else 0) + admissions s b xs"
  by (simp add: admissions_def)

lemma admissions_bound:
  assumes st: "counter_store redis cnt"
  shows "admissions s b (enforce_all redis w limits calls r) \<le> max 0 (limits b - cnt (rate_key s b) r)"
proof (induction calls arbitrary: r)
  case Nil
  then show ?case by (simp add: admissions_def)
next
  case (Cons c calls)
  obtain s' b' where c: "c = (s', b')" by (cases c)
  obtain x r' where e: "enforce redis w s' b' (limits b') r = (x, r')" by (cases "enforce redis w s' b' (limits b') r")
  obtain a where a: "rd_incr_expire redis (rate_key s' b') w r = (a, r')" using enforce_next [OF e] by blast
  have mono: "cnt (rate_key s b) r \<le> cnt (rate_key s b) r'"
    and own: "\<And>n. a = Some n \<Longrightarrow> n = cnt (rate_key s' b') r + 1 \<and> cnt (rate_key s' b') r' = n"
    using counter_storeD [OF st a] by simp_all
  have adm: "cnt (rate_key s b) r' = cnt (rate_key s b) r + 1 \<and> cnt (rate_key s b) r + 1 \<le> limits b" if "(c, x) = ((s, b), Inr ())"
    using that c e own enforce_ok [of redis w s b "limits b" r "()" r'] a by auto
  show ?case using Cons.IH [of r'] mono adm c e by (auto simp: admissions_Cons)
qed

text \<open>
  C26. The rate limit.  However the calls of principals on buckets interleave, and whichever calls to Redis fail, at most the
  limit of a bucket is admitted of each principal before the counters expire; a call is refused when Redis cannot be reached.
\<close>

theorem rate_limit_bounds_admissions:
  assumes "counter_store redis cnt" and "cnt (rate_key s b) r = 0" and "0 \<le> limits b"
  shows "admissions s b (enforce_all redis w limits calls r) \<le> limits b \<and>
    (\<forall>s' b' limit. fst (rd_incr_expire redis (rate_key s' b') w r) = None \<longrightarrow> fst (enforce redis w s' b' limit r) = Inl DependencyUnavailable)"
  using admissions_bound [OF assms(1), of s b w limits calls r] assms(2,3)
  by (auto simp: enforce_def check_rate_def split: prod.splits)

section \<open>A store\<close>

text \<open>A store that never fails and in which nothing expires: the keys, and the counters.\<close>

definition sample_redis :: "(string set \<times> (string \<Rightarrow> int)) redis" where
  "sample_redis =
     \<lparr>rd_set_nx = (\<lambda>k v ttl (ks, cs). (Some (k \<notin> ks), insert k ks, cs)),
      rd_incr_expire = (\<lambda>k w (ks, cs). (Some (cs k + 1), ks, cs(k := cs k + 1)))\<rparr>"

lemma sample_key_store: "key_store sample_redis (\<lambda>k r. k \<in> fst r)"
  by (simp add: key_store_def sample_redis_def split: prod.splits)

lemma sample_counter_store: "counter_store sample_redis (\<lambda>k r. snd r k)"
  by (simp add: counter_store_def sample_redis_def split: prod.splits)

theorem rate_limit_bounds_admissions_witness:
  "admissions ''p'' ''verify'' (enforce_all sample_redis 60 (\<lambda>_. 2) [(''p'', ''verify''), (''q'', ''verify''), (''p'', ''verify''), (''p'', ''verify'')]
     ({}, \<lambda>_. 0)) \<le> 2 \<and>
   map snd (enforce_all sample_redis 60 (\<lambda>_. 2) [(''p'', ''verify''), (''q'', ''verify''), (''p'', ''verify''), (''p'', ''verify'')] ({}, \<lambda>_. 0)) =
     [Inr (), Inr (), Inr (), Inl RateLimited]"
proof
  show "map snd (enforce_all sample_redis 60 (\<lambda>_. 2) [(''p'', ''verify''), (''q'', ''verify''), (''p'', ''verify''), (''p'', ''verify'')] ({}, \<lambda>_. 0)) =
     [Inr (), Inr (), Inr (), Inl RateLimited]"
    by (simp add: sample_redis_def enforce_def check_rate_def rate_key_def)
qed (use rate_limit_bounds_admissions [OF sample_counter_store, where s = "''p''" and b = "''verify''" and r = "({}, \<lambda>_. 0)" and limits = "\<lambda>_. 2"] in \<open>simp del: enforce_all.simps\<close>)

end
