(* ===== verification/Requests.thy ===== *)
theory Requests
  imports Access Gates
begin

text \<open>
  \<^verbatim>\<open>src/taxstamp/api/schemas.py\<close>: the bodies of requests.  Pydantic, which parses and validates them, is not part of the
  program: a record holds what a model instance holds, \<open>_valid\<close> states the constraints the source declares on its fields, and
  \<open>_dump\<close> is \<^verbatim>\<open>model_dump(mode="json")\<close>, from which the fingerprint of a request is computed.
\<close>

section \<open>Stored values of the enumerations that documents show\<close>

fun batch_status_value :: "batch_status \<Rightarrow> string" where
  "batch_status_value B_PENDING = ''pending''"
| "batch_status_value B_ISSUING = ''issuing''"
| "batch_status_value B_ISSUED = ''issued''"
| "batch_status_value B_INSPECTION_FAILED = ''inspection_failed''"

fun payment_intent_status_value :: "payment_intent_status \<Rightarrow> string" where
  "payment_intent_status_value P_AWAITING_PAYMENT = ''awaiting_payment''"
| "payment_intent_status_value P_SETTLED = ''settled''"
| "payment_intent_status_value P_MISMATCHED = ''mismatched''"
| "payment_intent_status_value P_CANCELLED = ''cancelled''"

fun approval_level_value :: "approval_level \<Rightarrow> string" where
  "approval_level_value L_ANALYST = ''analyst''"
| "approval_level_value L_SUPERVISOR = ''supervisor''"

fun risk_tier_value :: "risk_tier \<Rightarrow> string" where
  "risk_tier_value LOW = ''low''"
| "risk_tier_value MEDIUM = ''medium''"
| "risk_tier_value HIGH = ''high''"

section \<open>Bodies\<close>

text \<open>\<^verbatim>\<open>str_strip_whitespace\<close> with \<^verbatim>\<open>min_length\<close> and \<^verbatim>\<open>max_length\<close>.\<close>

definition bounded_str :: "nat \<Rightarrow> nat \<Rightarrow> string \<Rightarrow> bool" where
  "bounded_str lo hi s = (strip py_space s = s \<and> lo \<le> length s \<and> length s \<le> hi)"

record create_order_request =
  cq_company_id :: uuid
  cq_product_category :: string
  cq_quantity :: int
  cq_delivery_state :: string
  cq_delivery_address :: string

definition create_order_request_valid :: "create_order_request \<Rightarrow> bool" where
  "create_order_request_valid q =
     (bounded_str 3 64 (cq_product_category q) \<and> cq_product_category q \<in> fst ` set CATEGORY_CODES \<and>
      0 < cq_quantity q \<and> cq_quantity q \<le> 5000000 \<and> bounded_str 2 64 (cq_delivery_state q) \<and> bounded_str 10 500 (cq_delivery_address q))"

definition create_order_request_dump :: "create_order_request \<Rightarrow> json_object" where
  "create_order_request_dump q =
     [(''company_id'', JStr (uuid_str (cq_company_id q))), (''product_category'', JStr (cq_product_category q)),
      (''quantity'', JInt (cq_quantity q)), (''delivery_state'', JStr (cq_delivery_state q)),
      (''delivery_address'', JStr (cq_delivery_address q))]"

record approval_request =
  aq_level :: approval_level
  aq_decision :: approval_decision
  aq_reason :: string

definition approval_request_valid :: "approval_request \<Rightarrow> bool" where
  "approval_request_valid q = bounded_str 3 500 (aq_reason q)"

definition approval_request_dump :: "approval_request \<Rightarrow> json_object" where
  "approval_request_dump q =
     [(''level'', JStr (approval_level_value (aq_level q))), (''decision'', JStr (approval_decision_value (aq_decision q))),
      (''reason'', JStr (aq_reason q))]"

record cancel_order_request =
  xq_reason :: string

definition cancel_order_request_valid :: "cancel_order_request \<Rightarrow> bool" where
  "cancel_order_request_valid q = bounded_str 3 500 (xq_reason q)"

definition cancel_order_request_dump :: "cancel_order_request \<Rightarrow> json_object" where
  "cancel_order_request_dump q = [(''reason'', JStr (xq_reason q))]"

record remittance_request =
  mq_external_reference :: string
  mq_payment_reference :: string
  mq_amount_minor :: int
  mq_currency :: string
  mq_value_date :: datetime

definition remittance_request_valid :: "remittance_request \<Rightarrow> bool" where
  "remittance_request_valid q =
     (bounded_str 6 128 (mq_external_reference q) \<and> bounded_str 6 64 (mq_payment_reference q) \<and>
      0 < mq_amount_minor q \<and> mq_amount_minor q \<le> 10 ^ 15 \<and> bounded_str 3 3 (mq_currency q) \<and> 
      (case mq_value_date q of Naive t \<Rightarrow> False | Aware t off \<Rightarrow> True))"

text \<open>\<^verbatim>\<open>list[str]\<close> with \<^verbatim>\<open>min_length\<close> and \<^verbatim>\<open>max_length\<close>: the bounds count the items, whose own length is free.\<close>

definition bounded_list :: "nat \<Rightarrow> nat \<Rightarrow> string list \<Rightarrow> bool" where
  "bounded_list lo hi xs = (lo \<le> length xs \<and> length xs \<le> hi \<and> list_all (\<lambda>s. strip py_space s = s) xs)"

record activate_stamps_request =
  sq_serials :: "string list"

definition activate_stamps_request_valid :: "activate_stamps_request \<Rightarrow> bool" where
  "activate_stamps_request_valid q = bounded_list 1 1000 (sq_serials q)"

definition activate_stamps_request_dump :: "activate_stamps_request \<Rightarrow> json_object" where
  "activate_stamps_request_dump q = [(''serials'', JList (map JStr (sq_serials q)))]"

record void_stamps_request =
  wq_serials :: "string list"
  wq_reason :: string

definition void_stamps_request_valid :: "void_stamps_request \<Rightarrow> bool" where
  "void_stamps_request_valid q = (bounded_list 1 1000 (wq_serials q) \<and> bounded_str 3 500 (wq_reason q))"

definition void_stamps_request_dump :: "void_stamps_request \<Rightarrow> json_object" where
  "void_stamps_request_dump q = [(''serials'', JList (map JStr (wq_serials q))), (''reason'', JStr (wq_reason q))]"

record inspection_request =
  nq_defects_found :: int
  nq_defective_serials :: "string list"

definition inspection_request_valid :: "inspection_request \<Rightarrow> bool" where
  "inspection_request_valid q =
     (0 \<le> nq_defects_found q \<and> nq_defects_found q \<le> 10000 \<and> bounded_list 0 10000 (nq_defective_serials q))"

definition inspection_request_dump :: "inspection_request \<Rightarrow> json_object" where
  "inspection_request_dump q =
     [(''defects_found'', JInt (nq_defects_found q)), (''defective_serials'', JList (map JStr (nq_defective_serials q)))]"

record verify_request =
  yq_serial :: string
  yq_secure_code :: string
  yq_device_id :: string
  yq_nonce :: string
  yq_latitude_e7 :: "int option"
  yq_longitude_e7 :: "int option"

definition verify_request_valid :: "verify_request \<Rightarrow> bool" where
  "verify_request_valid q =
     (bounded_str 8 64 (yq_serial q) \<and> bounded_str 6 32 (yq_secure_code q) \<and> bounded_str 3 64 (yq_device_id q) \<and>
      bounded_str 8 64 (yq_nonce q) \<and>
      (\<forall>x \<in> set_option (yq_latitude_e7 q). -900000000 \<le> x \<and> x \<le> 900000000) \<and>
      (\<forall>x \<in> set_option (yq_longitude_e7 q). -1800000000 \<le> x \<and> x \<le> 1800000000))"

end
