(* ===== verification/Api.thy ===== *)
theory Api
  imports Requests
begin

text \<open>
  \<^verbatim>\<open>src/taxstamp/api/routers\<close> and \<^verbatim>\<open>src/taxstamp/api/errors.py\<close>: the routes.  A route maps the database and the state of Redis to an
  exception or a response, and to both states afterwards; a transaction that raises leaves the database as it was, what Redis
  has counted or claimed stays.  FastAPI calls the dependencies of a route in the order of its parameters.  Of the libraries, the JSON
  decoder and the parsers of the two signed bodies are fields of \<open>service\<close>.  Metrics and log lines are left out.
\<close>

section \<open>The state of a request\<close>

type_synonym ('r, 'a) route = "db \<times> 'r \<Rightarrow> 'a res \<times> db \<times> 'r"

definition bind_st :: "('r, 'a) route \<Rightarrow> ('a \<Rightarrow> ('r, 'b) route) \<Rightarrow> ('r, 'b) route" where
  "bind_st m f s = (case m s of (Inl e, s') \<Rightarrow> (Inl e, s') | (Inr x, s') \<Rightarrow> f x s')"

definition of_res :: "'a res \<Rightarrow> ('r, 'a) route" where
  "of_res x = (\<lambda>s. (x, s))"

definition reading :: "(db \<Rightarrow> 'a res) \<Rightarrow> ('r, 'a) route" where
  "reading f = (\<lambda>(db, r). (f db, db, r))"

text \<open>
  \<^verbatim>\<open>with transaction(runtime.session_factory) as session\<close>, which commits at the end of the block and rolls back when it raises:
  an operation that raises returns no database, and the one before it stays.
\<close>

definition in_transaction :: "(db \<Rightarrow> ('a \<times> db) res) \<Rightarrow> ('r, 'a) route" where
  "in_transaction f = (\<lambda>(db, r). case f db of Inl e \<Rightarrow> (Inl e, db, r) | Inr (x, db') \<Rightarrow> (Inr x, db', r))"

definition on_redis :: "('r \<Rightarrow> 'a res \<times> 'r) \<Rightarrow> ('r, 'a) route" where
  "on_redis f = (\<lambda>(db, r). case f r of (x, r') \<Rightarrow> (x, db, r'))"

text \<open>What the routes use of the runtime; what they use of a request besides its body.\<close>

record 'r service =
  sv_api_token_secret :: string
  sv_device_hmac_secret :: string
  sv_payment_webhook_secret :: string
  sv_audit_chain_secret :: string
  sv_revision :: string
  sv_max_order_quantity :: int
  sv_idempotency_ttl_seconds :: int
  sv_signature_max_skew_seconds :: int
  sv_nonce_ttl_seconds :: int
  sv_rate_limit_window_seconds :: int
  sv_rate_limit_default :: int
  sv_rate_limit_verify :: int
  sv_compliance :: compliance_service
  sv_redis :: "'r redis"
  sv_loads :: "bytes \<Rightarrow> json option res"
  sv_verify_request :: "json_object \<Rightarrow> verify_request option"
  sv_remittance_request :: "json_object \<Rightarrow> remittance_request option"

record http_request =
  hq_authorization :: "string option"
  hq_x_request_id :: "string option"
  hq_idempotency_key :: "string option"
  hq_signature :: string
  hq_timestamp :: string
  hq_fresh_id :: string
  hq_suffix :: string
  hq_clock :: "nat \<Rightarrow> instant"

definition current :: "'r service \<Rightarrow> http_request \<Rightarrow> ('r, actor) route" where
  "current sv hq =
     in_transaction (\<lambda>db. bind_res (authenticate (sv_api_token_secret sv) (hq_authorization hq)
       (Access.request_id (hq_x_request_id hq) (hq_fresh_id hq)) (hq_clock hq 0) db) (\<lambda>(cur, db). Inr (au_actor cur, db)))"

definition rate_limit :: "'r service \<Rightarrow> actor \<Rightarrow> string \<Rightarrow> int \<Rightarrow> ('r, unit) route" where
  "rate_limit sv actor bucket limit =
     on_redis (enforce (sv_redis sv) (sv_rate_limit_window_seconds sv) (uuid_str (ac_principal_id actor)) bucket limit)"

definition claim_replay :: "'r service \<Rightarrow> string \<Rightarrow> string \<Rightarrow> ('r, bool) route" where
  "claim_replay sv device_id nonce = on_redis (claim_nonce (sv_redis sv) (sv_nonce_ttl_seconds sv) device_id nonce)"

section \<open>Orders\<close>

definition order_document :: "order \<Rightarrow> json_object" where
  "order_document ord =
     [(''id'', JStr (uuid_str (o_id ord))), (''order_ref'', JStr (o_order_ref ord)), (''company_id'', JStr (uuid_str (o_company_id ord))),
      (''product_category'', JStr (o_product_category ord)), (''quantity'', JInt (o_quantity ord)),
      (''unit_price_minor'', JInt (o_unit_price_minor ord)), (''subtotal_minor'', JInt (o_subtotal_minor ord)),
      (''vat_bps'', JInt (o_vat_bps ord)), (''vat_minor'', JInt (o_vat_minor ord)), (''total_minor'', JInt (o_total_minor ord)),
      (''currency'', JStr (o_currency ord)), (''status'', JStr (order_status_value (o_status ord))),
      (''risk_tier'', JStr (risk_tier_value (o_risk_tier ord))), (''compliance'', json_obj_opt (o_compliance_evidence ord)),
      (''created_at'', utc (o_created_at ord)), (''updated_at'', utc (o_updated_at ord))]"

definition idempotently ::
  "'r service \<Rightarrow> http_request \<Rightarrow> string \<Rightarrow> string \<Rightarrow> actor \<Rightarrow> json_object \<Rightarrow> int \<Rightarrow> (db \<Rightarrow> (json_object \<times> db) res) \<Rightarrow>
   ('r, int \<times> json_object) route" where
  "idempotently sv hq scope key actor payload status work =
     in_transaction (run_idempotent scope key (ac_principal_id actor) payload status work (hq_clock hq 1) (sv_idempotency_ttl_seconds sv))"

definition create_order :: "'r service \<Rightarrow> http_request \<Rightarrow> create_order_request \<Rightarrow> ('r, int \<times> json_object) route" where
  "create_order sv hq body =
     bind_st (current sv hq) (\<lambda>actor.
     bind_st (of_res (idempotency_key (hq_idempotency_key hq))) (\<lambda>key.
     bind_st (of_res (require_role actor [REQUESTER, ADMIN])) (\<lambda>_.
     bind_st (rate_limit sv actor ''orders'' (sv_rate_limit_default sv)) (\<lambda>_.
     idempotently sv hq ''orders.create'' key actor (create_order_request_dump body) 201
       (\<lambda>db. bind_res (submit_order actor
            \<lparr>so_company_id = cq_company_id body, so_product_category = cq_product_category body, so_quantity = cq_quantity body,
             so_delivery_state = cq_delivery_state body, so_delivery_address = cq_delivery_address body\<rparr>
            (sv_compliance sv) (hq_clock hq 2) (sv_audit_chain_secret sv) (sv_revision sv) (sv_max_order_quantity sv)
            (Some key) (hq_suffix hq) db) (\<lambda>(ord, db). Inr (order_document ord, db)))))))"

definition approval_document :: "approval \<Rightarrow> json" where
  "approval_document a =
     JObj [(''level'', JStr (approval_level_value (ap_level a))), (''decision'', JStr (approval_decision_value (ap_decision a))),
           (''reason'', JStr (ap_reason a)), (''created_at'', utc (ap_created_at a))]"

definition payment_document :: "payment_intent \<Rightarrow> json" where
  "payment_document i =
     JObj [(''reference'', JStr (pi_reference i)), (''amount_minor'', JInt (pi_amount_minor i)), (''currency'', JStr (pi_currency i)),
           (''status'', JStr (payment_intent_status_value (pi_status i)))]"

definition get_order :: "'r service \<Rightarrow> http_request \<Rightarrow> uuid \<Rightarrow> ('r, int \<times> json_object) route" where
  "get_order sv hq order_id =
     bind_st (current sv hq) (\<lambda>actor. reading (\<lambda>db.
     case get_row o_id (orders db) order_id of
       None \<Rightarrow> Inl NotFound
     | Some ord \<Rightarrow>
     bind_res (if ac_role actor = REQUESTER then require_company actor (o_company_id ord) else Inr ()) (\<lambda>_.
     bind_res (scalar_one_or_none (filter (\<lambda>i. pi_order_id i = o_id ord) (payment_intents db))) (\<lambda>intent.
     Inr (200, order_document ord @
       [(''approvals'', JList (map approval_document (filter (\<lambda>a. ap_order_id a = o_id ord) (approvals db)))),
        (''payment'', opt_json payment_document intent)])))))"

text \<open>The orders of one moment come in the order of their rows; the database does not promise any.\<close>

definition list_orders :: "'r service \<Rightarrow> http_request \<Rightarrow> int \<Rightarrow> int \<Rightarrow> ('r, int \<times> json_object) route" where
  "list_orders sv hq limit offset =
     bind_st (current sv hq) (\<lambda>actor. reading (\<lambda>db.
     let bounded_limit = max 1 (min limit 200);
         query = sort_key (\<lambda>x. - o_created_at x) (orders db) in
     bind_res (if ac_role actor = REQUESTER
               then (case ac_company_id actor of None \<Rightarrow> Inl NotFound | Some c \<Rightarrow> Inr (filter (\<lambda>x. o_company_id x = c) query))
               else Inr query) (\<lambda>query.
     if \<not> bigint (max offset 0) then Inl DataError else
     let rows = take (nat bounded_limit) (drop (nat (max offset 0)) query) in
     Inr (200, [(''orders'', JList (map (\<lambda>x. JObj (order_document x)) rows)), (''limit'', JInt bounded_limit)]))))"

definition decide :: "'r service \<Rightarrow> http_request \<Rightarrow> uuid \<Rightarrow> approval_request \<Rightarrow> ('r, int \<times> json_object) route" where
  "decide sv hq order_id body =
     bind_st (current sv hq) (\<lambda>actor.
     bind_st (of_res (idempotency_key (hq_idempotency_key hq))) (\<lambda>key.
     bind_st (rate_limit sv actor ''approvals'' (sv_rate_limit_default sv)) (\<lambda>_.
     idempotently sv hq ''orders.approve'' key actor ((''order_id'', JStr (uuid_str order_id)) # approval_request_dump body) 201
       (\<lambda>db. bind_res (decide_approval actor
            \<lparr>ap_cmd_order_id = order_id, ap_cmd_level = aq_level body, ap_cmd_decision = aq_decision body, ap_cmd_reason = aq_reason body\<rparr>
            (hq_clock hq 2) (sv_audit_chain_secret sv) (sv_revision sv) (Some key) (hq_suffix hq) db)
          (\<lambda>(ord, db). Inr (order_document ord, db))))))"

definition cancel :: "'r service \<Rightarrow> http_request \<Rightarrow> uuid \<Rightarrow> cancel_order_request \<Rightarrow> ('r, int \<times> json_object) route" where
  "cancel sv hq order_id body =
     bind_st (current sv hq) (\<lambda>actor.
     bind_st (of_res (idempotency_key (hq_idempotency_key hq))) (\<lambda>key.
     idempotently sv hq ''orders.cancel'' key actor ((''order_id'', JStr (uuid_str order_id)) # cancel_order_request_dump body) 200
       (\<lambda>db. bind_res (cancel_order actor order_id (xq_reason body) (hq_clock hq 2) (sv_audit_chain_secret sv) (sv_revision sv) db)
          (\<lambda>(ord, db). Inr (order_document ord, db)))))"

section \<open>Stamps and batches\<close>

definition outcome_document :: "stamp_outcome \<Rightarrow> json" where
  "outcome_document x =
     JObj [(''serial'', JStr (so_serial x)), (''status'', JStr (so_status x)), (''changed'', JBool (so_changed x)), (''reason'', json_opt (so_reason x))]"

definition bulk_document :: "bulk_result \<Rightarrow> json_object" where
  "bulk_document result = [(''changed'', JInt (changed_count result)), (''results'', JList (map outcome_document result))]"

definition activate :: "'r service \<Rightarrow> http_request \<Rightarrow> activate_stamps_request \<Rightarrow> ('r, int \<times> json_object) route" where
  "activate sv hq body =
     bind_st (current sv hq) (\<lambda>actor.
     bind_st (of_res (idempotency_key (hq_idempotency_key hq))) (\<lambda>key.
     bind_st (rate_limit sv actor ''activate'' (sv_rate_limit_default sv)) (\<lambda>_.
     idempotently sv hq ''stamps.activate'' key actor (activate_stamps_request_dump body) 200
       (\<lambda>db. bind_res (activate_stamps actor (sq_serials body) (hq_clock hq 2) (sv_audit_chain_secret sv) (sv_revision sv) (Some key) db)
          (\<lambda>(result, db). Inr (bulk_document result, db))))))"

definition void :: "'r service \<Rightarrow> http_request \<Rightarrow> void_stamps_request \<Rightarrow> ('r, int \<times> json_object) route" where
  "void sv hq body =
     bind_st (current sv hq) (\<lambda>actor.
     bind_st (of_res (idempotency_key (hq_idempotency_key hq))) (\<lambda>key.
     idempotently sv hq ''stamps.void'' key actor (void_stamps_request_dump body) 200
       (\<lambda>db. bind_res (void_stamps actor (wq_serials body) (wq_reason body) (hq_clock hq 2) (sv_audit_chain_secret sv) (sv_revision sv) db)
          (\<lambda>(result, db). Inr (bulk_document result, db)))))"

definition stamp_document :: "stamp \<Rightarrow> json_object" where
  "stamp_document s =
     [(''serial'', JStr (s_serial s)), (''status'', JStr (stamp_status_value (s_status s))),
      (''product_category'', JStr (s_product_category s)), (''order_id'', JStr (uuid_str (s_order_id s))),
      (''batch_id'', JStr (uuid_str (s_batch_id s))), (''issued_at'', utc (s_issued_at s)),
      (''activated_at'', opt_json utc (s_activated_at s)), (''expires_at'', utc (s_expires_at s))]"

definition get_stamp_route :: "'r service \<Rightarrow> http_request \<Rightarrow> string \<Rightarrow> ('r, int \<times> json_object) route" where
  "get_stamp_route sv hq serial =
     bind_st (current sv hq) (\<lambda>actor. reading (\<lambda>db.
     bind_res (get_stamp serial actor db) (\<lambda>s. Inr (200, stamp_document s))))"

definition inspection_document :: "inspection \<Rightarrow> json" where
  "inspection_document x =
     JObj [(''accepted'', JBool (insp_accepted x)), (''sample_size'', JInt (insp_sample_size x)), (''accept_number'', JInt (insp_accept_number x)),
           (''reject_number'', JInt (insp_reject_number x)), (''defects_found'', JInt (insp_defects_found x)),
           (''created_at'', utc (insp_created_at x))]"

definition batch_document :: "stamp_batch \<Rightarrow> inspection option \<Rightarrow> json_object" where
  "batch_document batch insp =
     [(''id'', JStr (uuid_str (b_id batch))), (''order_id'', JStr (uuid_str (b_order_id batch))),
      (''requested_count'', JInt (b_requested_count batch)), (''issued_count'', JInt (b_issued_count batch)),
      (''status'', JStr (batch_status_value (b_status batch))), (''created_at'', utc (b_created_at batch)),
      (''completed_at'', opt_json utc (b_completed_at batch)), (''inspection'', opt_json inspection_document insp)]"

text \<open>\<^verbatim>\<open>select(StampBatch, Order).join(\<dots>).where(StampBatch.id == batch_id)\<close>\<close>

definition batch_join :: "uuid \<Rightarrow> db \<Rightarrow> (stamp_batch \<times> order) list" where
  "batch_join batch_id db =
     concat (map (\<lambda>b. map (Pair b) (filter (\<lambda>x. o_id x = b_order_id b) (orders db))) (filter (\<lambda>b. b_id b = batch_id) (stamp_batches db)))"

definition get_batch :: "'r service \<Rightarrow> http_request \<Rightarrow> uuid \<Rightarrow> ('r, int \<times> json_object) route" where
  "get_batch sv hq batch_id =
     bind_st (current sv hq) (\<lambda>actor.
     bind_st (of_res (require_role actor [OPERATOR, ADMIN, AUDITOR, REQUESTER])) (\<lambda>_. reading (\<lambda>db.
     bind_res (scalar_one_or_none (batch_join batch_id db)) (\<lambda>row.
     case row of
       None \<Rightarrow> Inl NotFound
     | Some (batch, ord) \<Rightarrow>
     bind_res (if ac_role actor = REQUESTER then require_company actor (o_company_id ord) else Inr ()) (\<lambda>_.
     bind_res (scalar_one_or_none (filter (\<lambda>x. insp_batch_id x = b_id batch) (inspections db))) (\<lambda>insp.
     Inr (200, batch_document batch insp)))))))"

definition inspection_result_document :: "inspection_result \<Rightarrow> json_object" where
  "inspection_result_document x =
     [(''inspection_id'', JStr (uuid_str (ix_inspection_id x))), (''accepted'', JBool (ix_accepted x)), (''sample_size'', JInt (ix_sample_size x)),
      (''accept_number'', JInt (ix_accept_number x)), (''reject_number'', JInt (ix_reject_number x)), (''voided_serials'', JInt (ix_voided_serials x))]"

definition inspect :: "'r service \<Rightarrow> http_request \<Rightarrow> uuid \<Rightarrow> inspection_request \<Rightarrow> ('r, int \<times> json_object) route" where
  "inspect sv hq batch_id body =
     bind_st (current sv hq) (\<lambda>actor.
     bind_st (of_res (idempotency_key (hq_idempotency_key hq))) (\<lambda>key.
     idempotently sv hq ''batches.inspect'' key actor ((''batch_id'', JStr (uuid_str batch_id)) # inspection_request_dump body) 201
       (\<lambda>db. bind_res (record_inspection actor
            \<lparr>ic_batch_id = batch_id, ic_defects_found = nq_defects_found body, ic_defective_serials = nq_defective_serials body\<rparr>
            (hq_clock hq 2) (sv_audit_chain_secret sv) (sv_revision sv) db)
          (\<lambda>(result, db). Inr (inspection_result_document result, db)))))"

section \<open>Signed requests\<close>

text \<open>\<^verbatim>\<open>int(s)\<close>: white space around, a sign and single underscores between digits; at most 4300 digits.\<close>

definition dec_val :: "char \<Rightarrow> nat option" where
  "dec_val c = (let n = (of_char c :: nat) in if 48 \<le> n \<and> n \<le> 57 then Some (n - 48) else None)"

fun digits10 :: "nat \<Rightarrow> string \<Rightarrow> nat option" where
  "digits10 acc [] = Some acc"
| "digits10 acc (c # cs) =
     (case dec_val c of
        Some d \<Rightarrow> digits10 (10 * acc + d) cs
      | None \<Rightarrow> if c = CHR ''_'' \<and> cs \<noteq> [] \<and> dec_val (hd cs) \<noteq> None then digits10 acc cs else None)"

definition int10 :: "string \<Rightarrow> int res" where
  "int10 s =
     (let t = strip py_space s;
          neg = (t \<noteq> [] \<and> hd t = CHR ''-'');
          u = (if t \<noteq> [] \<and> (hd t = CHR ''-'' \<or> hd t = CHR ''+'') then tl t else t)
      in if u = [] \<or> dec_val (hd u) = None \<or> length (filter (\<lambda>c. dec_val c \<noteq> None) u) > 4300 then Inl ValueError
         else case digits10 0 u of None \<Rightarrow> Inl ValueError | Some n \<Rightarrow> Inr (if neg then - int n else int n))"

text \<open>
  \<^verbatim>\<open>datetime.fromtimestamp(n, tz=UTC)\<close>: outside 64 bits the conversion overflows, where the year of the C library's \<^verbatim>\<open>gmtime\<close> would leave
  32 bits the system call fails, and outside the years 1 to 9999 the value is refused.
\<close>

definition fromtimestamp :: "int \<Rightarrow> datetime res" where
  "fromtimestamp n =
     (if n < - (2 ^ 63) \<or> 2 ^ 63 \<le> n then Inl OverflowError
      else if n < -67768040609740800 \<or> 67768036191676799 < n then Inl OSError
      else if n * SECOND < MIN_INSTANT \<or> MAX_INSTANT \<le> n * SECOND then Inl ValueError
      else Inr (Aware (n * SECOND) 0))"

definition header_timestamp :: "string \<Rightarrow> datetime res" where
  "header_timestamp s =
     (case bind_res (int10 s) fromtimestamp of Inl e \<Rightarrow> Inl (if e = TypeError \<or> e = ValueError then Unauthenticated else e) | Inr t \<Rightarrow> Inr t)"

text \<open>The checks on the raw body that both signed routes make, in their order.\<close>

definition signed_document ::
  "'r service \<Rightarrow> http_request \<Rightarrow> nat \<Rightarrow> string \<Rightarrow> bytes \<Rightarrow> instant \<Rightarrow> json_object res" where
  "signed_document sv hq max_bytes secret raw now =
     (if length raw > max_bytes then Inl ValidationFailed else
      bind_res (sv_loads sv raw) (\<lambda>decoded.
      case decoded of
        Some (JObj document) \<Rightarrow>
          bind_res (header_timestamp (hq_timestamp hq)) (\<lambda>timestamp.
          case verify_signed_request \<lparr>sr_body = document, sr_signature = hq_signature hq, sr_timestamp = timestamp\<rparr> secret now
                 (sv_signature_max_skew_seconds sv) of
            Inl e \<Rightarrow> Inl (if e = SignatureError then Unauthenticated else e)
          | Inr _ \<Rightarrow> Inr document)
      | _ \<Rightarrow> Inl ValidationFailed))"

definition validated :: "'a option \<Rightarrow> 'a res" where
  "validated q = (case q of None \<Rightarrow> Inl PydanticValidationError | Some b \<Rightarrow> Inr b)"

section \<open>Remittances\<close>

definition ingest_document :: "ingest_result \<Rightarrow> json_object" where
  "ingest_document x =
     [(''receipt_id'', JStr (uuid_str (ig_receipt_id x))), (''status'', JStr (receipt_status_value (ig_status x))),
      (''order_id'', opt_json (\<lambda>i. JStr (uuid_str i)) (ig_order_id x)), (''duplicate'', JBool (ig_duplicate x))]"

definition ingest_remittance_route :: "'r service \<Rightarrow> http_request \<Rightarrow> bytes \<Rightarrow> ('r, int \<times> json_object) route" where
  "ingest_remittance_route sv hq raw =
     bind_st (of_res (signed_document sv hq (64 * 1024) (sv_payment_webhook_secret sv) raw (hq_clock hq 0))) (\<lambda>body.
     bind_st (of_res (validated (sv_remittance_request sv body))) (\<lambda>m.
     bind_st (claim_replay sv ''payments'' (sha256_hex raw)) (\<lambda>fresh.
     if \<not> fresh
     then of_res (Inr (202, [(''status'', JStr ''duplicate_delivery''), (''external_reference'', JStr (mq_external_reference m))]))
     else in_transaction (\<lambda>db. bind_res (ingest_remittance
         \<lparr>ra_external_reference = mq_external_reference m, ra_declared_reference = mq_payment_reference m,
          ra_amount_minor = mq_amount_minor m, ra_currency = mq_currency m, ra_value_date = mq_value_date m, ra_raw = body\<rparr>
         (hq_clock hq 1) (sv_audit_chain_secret sv) (sv_revision sv) db) (\<lambda>(result, db). Inr ((202, ingest_document result), db))))))"

section \<open>Field verification\<close>

definition verification_document :: "verification_result \<Rightarrow> json_object" where
  "verification_document x =
     [(''authentic'', JBool (vr_authentic x)), (''outcome'', JStr (verification_outcome_value (vr_outcome x))), (''reason'', JStr (vr_reason x)),
      (''serial'', JStr (vr_serial x)), (''product_category'', json_opt (vr_product_category x)), (''expires_at'', opt_json utc (vr_expires_at x))]"

definition verification_of :: "verify_request \<Rightarrow> verification_request" where
  "verification_of b =
     \<lparr>vq_serial = yq_serial b, vq_secure_code = yq_secure_code b, vq_device_id = yq_device_id b, vq_nonce = yq_nonce b,
      vq_latitude_e7 = yq_latitude_e7 b, vq_longitude_e7 = yq_longitude_e7 b\<rparr>"

definition verify_route :: "'r service \<Rightarrow> http_request \<Rightarrow> bytes \<Rightarrow> ('r, int \<times> json_object) route" where
  "verify_route sv hq raw =
     bind_st (current sv hq) (\<lambda>actor.
     bind_st (of_res (require_role actor [DEVICE, OPERATOR, ADMIN])) (\<lambda>_.
     bind_st (rate_limit sv actor ''verify'' (sv_rate_limit_verify sv)) (\<lambda>_.
     bind_st (of_res (signed_document sv hq (8 * 1024) (sv_device_hmac_secret sv) raw (hq_clock hq 1))) (\<lambda>document.
     bind_st (of_res (validated (sv_verify_request sv document))) (\<lambda>body.
     bind_st (of_res (require_subject actor (yq_device_id body))) (\<lambda>_.
     bind_st (claim_replay sv (yq_device_id body) (yq_nonce body)) (\<lambda>fresh.
     if \<not> fresh then of_res (Inl Unauthenticated)
     else in_transaction (\<lambda>db. bind_res (verify actor (verification_of body) (hq_clock hq 2) (sv_device_hmac_secret sv)
         (sv_audit_chain_secret sv) (sv_revision sv) db) (\<lambda>(result, db). Inr ((200, verification_document result), db))))))))))"

section \<open>Operations\<close>

definition reconcile :: "'r service \<Rightarrow> http_request \<Rightarrow> ('r, int \<times> json_object) route" where
  "reconcile sv hq =
     bind_st (current sv hq) (\<lambda>actor.
     bind_st (of_res (require_role actor [ADMIN, AUDITOR])) (\<lambda>_.
     in_transaction (\<lambda>db. bind_res (run_reconciliation (hq_clock hq 1) (sv_audit_chain_secret sv) 900 [] [] db)
       (\<lambda>(report, db). Inr ((200, as_document report), db)))))"

definition audit_chain :: "'r service \<Rightarrow> http_request \<Rightarrow> ('r, int \<times> json_object) route" where
  "audit_chain sv hq =
     bind_st (current sv hq) (\<lambda>actor.
     bind_st (of_res (require_role actor [ADMIN, AUDITOR])) (\<lambda>_. reading (\<lambda>db.
     bind_res (verify_audit_chain (sv_audit_chain_secret sv) db) (\<lambda>result.
     Inr (200, [(''intact'', JBool (intact result)), (''events_checked'', JInt (int (events_checked result))),
       (''first_bad_seq'', opt_json JInt (first_bad_seq result)), (''reason'', json_opt (reason result))])))))"

section \<open>Responses\<close>

text \<open>
  The exception handlers of \<^verbatim>\<open>errors.py\<close>: the status and the code of the answer.  Messages and details, which the model of exceptions
  does not keep, are the rest of the body.  A handler is chosen by the most specific class it is registered for.
\<close>

definition error_response :: "exn \<Rightarrow> nat \<times> string" where
  "error_response e =
     (case domain_error e of
        Some (status, code) \<Rightarrow> (status, code)
      | None \<Rightarrow>
          if e = RequestValidationError then (422, ''validation_failed'')
          else if e = IntegrityError then (409, ''conflict'')
          else if e = DataError then (503, ''dependency_unavailable'')
          else (500, ''internal_error''))"

datatype response = Document int json_object | Error nat string

text \<open>
  The requests of the business routes.  The status routes of \<^verbatim>\<open>ops.py\<close> (\<^verbatim>\<open>/healthz\<close>, \<^verbatim>\<open>/readyz\<close>, \<^verbatim>\<open>/v1/capabilities\<close>,
  \<^verbatim>\<open>/metrics\<close>) are definitions of \<^verbatim>\<open>Capabilities\<close> and not among these.
\<close>

datatype api_request =
    Create_order create_order_request
  | Get_order uuid
  | List_orders int int
  | Decide uuid approval_request
  | Cancel uuid cancel_order_request
  | Ingest_remittance bytes
  | Activate activate_stamps_request
  | Void void_stamps_request
  | Get_stamp string
  | Get_batch uuid
  | Inspect uuid inspection_request
  | Verify bytes
  | Reconcile
  | Audit_chain

fun route :: "'r service \<Rightarrow> http_request \<Rightarrow> api_request \<Rightarrow> ('r, int \<times> json_object) route" where
  "route sv hq (Create_order q) = create_order sv hq q"
| "route sv hq (Get_order i) = get_order sv hq i"
| "route sv hq (List_orders limit offset) = list_orders sv hq limit offset"
| "route sv hq (Decide i q) = decide sv hq i q"
| "route sv hq (Cancel i q) = cancel sv hq i q"
| "route sv hq (Ingest_remittance raw) = ingest_remittance_route sv hq raw"
| "route sv hq (Activate q) = activate sv hq q"
| "route sv hq (Void q) = void sv hq q"
| "route sv hq (Get_stamp serial) = get_stamp_route sv hq serial"
| "route sv hq (Get_batch i) = get_batch sv hq i"
| "route sv hq (Inspect i q) = inspect sv hq i q"
| "route sv hq (Verify raw) = verify_route sv hq raw"
| "route sv hq Reconcile = reconcile sv hq"
| "route sv hq Audit_chain = audit_chain sv hq"

definition serve :: "'r service \<Rightarrow> http_request \<Rightarrow> api_request \<Rightarrow> db \<times> 'r \<Rightarrow> response \<times> db \<times> 'r" where
  "serve sv hq q s =
     (case route sv hq q s of
        (Inl e, s') \<Rightarrow> (case error_response e of (status, code) \<Rightarrow> Error status code, s')
      | (Inr (status, document), s') \<Rightarrow> (Document status document, s'))"

end
