(* ===== verification/System.thy ===== *)
theory System
  imports Access
begin

text \<open>
  The platform as a transition system: every operation of the services, of the worker and of the administration is a step,
  and what holds of the empty database and is kept by every step holds in every state the platform can reach.  The steps are
  the transactions of \<^verbatim>\<open>src/src/taxstamp/services\<close>, \<^verbatim>\<open>idempotency.py\<close>, \<^verbatim>\<open>worker/relay.py\<close> and \<^verbatim>\<open>cli.py\<close> that commit, one after the
  other; a transaction that raises changes nothing, and the relay, which commits several, is one step with whatever it
  left behind.
\<close>

section \<open>Steps\<close>

text \<open>The reference data that the administration enters (\<^verbatim>\<open>cli.py\<close>).\<close>

definition enters_reference_data :: "db \<Rightarrow> db \<Rightarrow> bool" where
  "enters_reference_data db db' =
     ((\<exists>mk r. insert_company mk db = Inr (r, db')) \<or> (\<exists>mk r. insert_principal mk db = Inr (r, db')) \<or>
      (\<exists>mk r. insert_credential mk db = Inr (r, db')) \<or> (\<exists>mk r. insert_tariff mk db = Inr (r, db')))"

inductive step :: "'w runtime \<Rightarrow> db \<times> 'w \<Rightarrow> db \<times> 'w \<Rightarrow> bool" for rt :: "'w runtime" where
  submit_order: "submit_order a cmd cs now (rt_audit_chain_secret rt) (rt_revision rt) mx ik sfx db = Inr (ord, db') \<Longrightarrow> step rt (db, w) (db', w)"
| decide_approval: "decide_approval a dec now (rt_audit_chain_secret rt) (rt_revision rt) ik sfx db = Inr (ord, db') \<Longrightarrow> step rt (db, w) (db', w)"
| cancel_order: "cancel_order a oid why now (rt_audit_chain_secret rt) (rt_revision rt) db = Inr (ord, db') \<Longrightarrow> step rt (db, w) (db', w)"
| ingest_remittance: "ingest_remittance adv now (rt_audit_chain_secret rt) (rt_revision rt) db = Inr (ing, db') \<Longrightarrow> step rt (db, w) (db', w)"
| activate_stamps: "activate_stamps a serials now (rt_audit_chain_secret rt) (rt_revision rt) ik db = Inr (bulk, db') \<Longrightarrow> step rt (db, w) (db', w)"
| void_stamps: "void_stamps a serials why now (rt_audit_chain_secret rt) (rt_revision rt) db = Inr (bulk, db') \<Longrightarrow> step rt (db, w) (db', w)"
| record_inspection: "record_inspection a icmd now (rt_audit_chain_secret rt) (rt_revision rt) db = Inr (insp, db') \<Longrightarrow> step rt (db, w) (db', w)"
| verify: "verify a req now sk (rt_audit_chain_secret rt) (rt_revision rt) db = Inr (vres, db') \<Longrightarrow> step rt (db, w) (db', w)"
| create_ledger_intent: "create_ledger_intent lreq now (rt_audit_chain_secret rt) (rt_revision rt) aa db = Inr (t, db') \<Longrightarrow> step rt (db, w) (db', w)"
| relay_once: "relay_once rt wid now clock (db, w) = (r, db', w') \<Longrightarrow> step rt (db, w) (db', w')"
| expire_stamps_once: "expire_stamps_once rt now limit db = Inr (n, db') \<Longrightarrow> step rt (db, w) (db', w)"
| run_reconciliation: "run_reconciliation now k stale snaps provs db = Inr (rep, db') \<Longrightarrow> step rt (db, w) (db', w)"
| authenticate: "authenticate secret authz rid now db = Inr (cur, db') \<Longrightarrow> step rt (db, w) (db', w)"
| claim: "claim scope key pid h now ttl db = Inr (rp, db') \<Longrightarrow> step rt (db, w) (db', w)"
| complete: "complete scope key status body now db = Inr db' \<Longrightarrow> step rt (db, w) (db', w)"
| administration: "enters_reference_data db db' \<Longrightarrow> step rt (db, w) (db', w)"
| time_passes: "step rt (db, w) (db\<lparr>db_now := t\<rparr>, w)"

section \<open>The relay, whatever happens\<close>

definition system_inv :: "string \<Rightarrow> db \<Rightarrow> bool" where
  "system_inv k db = (platform_wf k db \<and> list_all deliverable (outbox_messages db))"

definition goes_well :: "string \<Rightarrow> db \<Rightarrow> db \<Rightarrow> bool" where
  "goes_well k db db' = (system_inv k db' \<and> stamps_move db db')"

lemma advances_well: "system_inv k db \<Longrightarrow> platform_wf k db' \<Longrightarrow> advances db db' \<Longrightarrow> goes_well k db db'"
  by (auto simp: goes_well_def system_inv_def advances_def)

lemma update_outbox_well:
  assumes "system_inv k db" and "\<And>m. m_id (f m) = m_id m \<and> m_dedupe_key (f m) = m_dedupe_key m \<and> m_event_type (f m) = m_event_type m \<and> m_payload (f m) = m_payload m"
    and "db' = db\<lparr>outbox_messages := update_where p f (outbox_messages db)\<rparr>"
  shows "goes_well k db db'"
proof -
  have "platform_wf k db'" using outbox_update_platform [of k db f db' p] assms by (simp add: system_inv_def)
  moreover have "list_all deliverable (outbox_messages db')"
    using assms by (auto simp: system_inv_def list_all_iff set_update_where deliverable_def)
  ultimately show ?thesis using assms(3) by (simp add: goes_well_def system_inv_def stamps_moveI)
qed

lemma goes_well_trans: "goes_well k a b \<Longrightarrow> (system_inv k b \<Longrightarrow> goes_well k b c) \<Longrightarrow> goes_well k a c"
  unfolding goes_well_def using stamps_move_trans by blast

lemma goes_well_refl: "system_inv k db \<Longrightarrow> goes_well k db db"
  by (simp add: goes_well_def stamps_moveI)

lemma mark_processed_well: "system_inv k db \<Longrightarrow> goes_well k db (mark_processed i t db)"
  by (rule update_outbox_well [OF _ _ mark_processed_def]) simp_all

lemma record_failure_well:
  assumes "system_inv k db" and "record_failure rt now i e db = Inr (dead, db')"
  shows "goes_well k db db'"
proof -
  obtain m where "mark_failed m (rt_text rt e) now (rt_outbox_max_attempts rt) db = Inr (dead, db')"
    using assms(2) by (auto simp: record_failure_def)
  from mark_failed_ok [OF this] show ?thesis using update_outbox_well [OF assms(1)] by auto
qed

lemma deliver_well:
  assumes "system_inv (rt_audit_chain_secret rt) db" and "deliver rt clock i p (db, w) = (r, db', w')"
  shows "goes_well (rt_audit_chain_secret rt) db db'"
proof -
  obtain db1 where "platform_wf (rt_audit_chain_secret rt) db1" "advances db db1"
    and out: "(\<exists>t. r = Inr () \<and> db' = mark_processed i t db1) \<or> ((\<exists>e. r = Inl e) \<and> db' = db1)"
    using deliver_step [OF _ assms(2)] assms(1) by (auto simp: system_inv_def)
  then have "goes_well (rt_audit_chain_secret rt) db db1" using advances_well assms(1) by blast
  then show ?thesis using out mark_processed_well goes_well_trans by blast
qed

lemma relay_loop_well:
  "system_inv (rt_audit_chain_secret rt) db \<Longrightarrow> relay_loop rt clock ms stats (db, w) = (r, db', w') \<Longrightarrow>
    goes_well (rt_audit_chain_secret rt) db db'"
proof (induction ms arbitrary: db stats w)
  case (Cons m ms)
  obtain dr db1 w1 where d: "deliver rt (clock (length ms)) (m_id m) (m_payload m) (db, w) = (dr, db1, w1)" using prod_cases3 by blast
  note w1 = deliver_well [OF Cons.prems(1) d]
  then have i1: "system_inv (rt_audit_chain_secret rt) db1" by (simp add: goes_well_def)
  show ?case
  proof (cases dr)
    case (Inr u)
    with Cons.prems(2) d have "relay_loop rt clock ms (stats\<lparr>st_delivered := st_delivered stats + 1\<rparr>) (db1, w1) = (r, db', w')" by simp
    from Cons.IH [OF i1 this] w1 show ?thesis using goes_well_trans by blast
  next
    case (Inl e)
    show ?thesis
    proof (cases "record_failure rt (clock (length ms) 2 0) (m_id m) e db1")
      case (Inl e')
      with \<open>dr = Inl e\<close> Cons.prems(2) d have "db' = db1" by simp
      with w1 show ?thesis by simp
    next
      case (Inr dd)
      then obtain dead db2 where rf: "record_failure rt (clock (length ms) 2 0) (m_id m) e db1 = Inr (dead, db2)" by (cases dd) simp
      note w2 = record_failure_well [OF i1 rf]
      then have i2: "system_inv (rt_audit_chain_secret rt) db2" by (simp add: goes_well_def)
      have "relay_loop rt clock ms (stats\<lparr>st_failed := st_failed stats + 1, st_dead_lettered := st_dead_lettered stats + (if dead then 1 else 0)\<rparr>)
          (db2, w1) = (r, db', w')"
        using \<open>dr = Inl e\<close> Cons.prems(2) d rf by simp
      from Cons.IH [OF i2 this] w1 w2 show ?thesis using goes_well_trans by blast
    qed
  qed
qed (simp add: goes_well_refl)

lemma relay_once_well:
  assumes "system_inv (rt_audit_chain_secret rt) db" and "relay_once rt wid now clock (db, w) = (r, db', w')"
  shows "goes_well (rt_audit_chain_secret rt) db db'"
proof (cases "claim_batch wid now (rt_outbox_lease_seconds rt) (rt_outbox_batch_size rt) db")
  case (Inl e)
  with assms show ?thesis by (simp add: relay_once_def goes_well_refl)
next
  case (Inr c)
  then obtain ms db1 where cl: "claim_batch wid now (rt_outbox_lease_seconds rt) (rt_outbox_batch_size rt) db = Inr (ms, db1)" by (cases c) simp
  have w1: "goes_well (rt_audit_chain_secret rt) db db1"
  proof (rule claim_batch_ok [OF cl])
    fix C
    assume upd: "outbox_messages db1 = update_where (\<lambda>m. m_id m \<in> m_id ` C)
      (\<lambda>m. m\<lparr>m_locked_by := Some wid, m_locked_until := Some (now + rt_outbox_lease_seconds rt * SECOND)\<rparr>) (outbox_messages db)"
    have "db1 = db\<lparr>outbox_messages := outbox_messages db1\<rparr>" using cl by (auto simp: claim_batch_def Let_def split: if_splits)
    with upd show ?thesis by (intro update_outbox_well [OF assms(1)]) auto
  qed
  obtain stats where lp: "relay_loop rt clock ms stats (db1, w) = (r, db', w')" using assms(2) cl by (simp add: relay_once_def)
  show ?thesis by (rule goes_well_trans [OF w1]) (rule relay_loop_well [OF _ lp])
qed

section \<open>Every step goes well\<close>

lemma same_well:
  assumes "system_inv k db" and "orders db' = orders db" "order_transitions db' = order_transitions db" "approvals db' = approvals db"
    "payment_intents db' = payment_intents db" "payment_receipts db' = payment_receipts db" "journals db' = journals db"
    "ledger_entries db' = ledger_entries db" "outbox_messages db' = outbox_messages db" "audit_events db' = audit_events db"
    "next_seq db' = next_seq db" "next_uuid db \<le> next_uuid db'" "stamp_batches db' = stamp_batches db" "stamps db' = stamps db"
    "serial_counters db' = serial_counters db"
  shows "goes_well k db db'"
  using assms platform_wf_same [of k db db'] by (intro advances_well advancesI) (simp_all add: system_inv_def)

lemma claim_same:
  "claim scope key pid h now ttl db = Inr (rp, db') \<Longrightarrow>
    db' = db \<or> (\<exists>r. db' = db\<lparr>next_uuid := Suc (next_uuid db), idempotency_records := idempotency_records db @ [r]\<rparr>)"
  by (auto simp: claim_def insert_ok split: option.splits if_splits)

lemma step_well:
  assumes "step rt (db, w) (db', w')" and inv: "system_inv (rt_audit_chain_secret rt) db"
  shows "goes_well (rt_audit_chain_secret rt) db db'"
proof -
  have wf: "platform_wf (rt_audit_chain_secret rt) db" using inv by (simp add: system_inv_def)
  note well = advances_well [OF inv]
  from assms(1) show ?thesis
  proof (cases rule: step.cases)
    case submit_order
    then show ?thesis by (intro well) (rule submit_order_platform [OF wf submit_order(2)], rule submit_order_advances [OF submit_order(2)])
  next
    case decide_approval
    then show ?thesis by (intro well) (rule decide_approval_platform [OF wf decide_approval(2)], rule decide_approval_advances [OF decide_approval(2)])
  next
    case cancel_order
    then show ?thesis by (intro well) (rule cancel_order_platform [OF wf cancel_order(2)], rule cancel_order_advances [OF cancel_order(2)])
  next
    case ingest_remittance
    then show ?thesis by (intro well) (rule ingest_remittance_platform [OF wf ingest_remittance(2)], rule ingest_remittance_advances [OF ingest_remittance(2)])
  next
    case activate_stamps
    then show ?thesis using activate_stamps_platform [OF wf activate_stamps(2)] activate_stamps_advances [OF wf activate_stamps(2)] by (intro well) simp_all
  next
    case void_stamps
    then show ?thesis using void_stamps_platform [OF wf void_stamps(2)] void_stamps_advances [OF wf void_stamps(2)] by (intro well) simp_all
  next
    case record_inspection
    then show ?thesis using inspection_effect [OF wf record_inspection(2)] record_inspection_advances [OF wf record_inspection(2)] by (intro well) blast+
  next
    case verify
    then show ?thesis using verify_platform [OF wf verify(2)] verify_advances [OF verify(2)] by (intro well) simp_all
  next
    case create_ledger_intent
    then show ?thesis by (intro well) (rule create_ledger_intent_platform [OF wf create_ledger_intent(2)], rule create_ledger_intent_advances [OF create_ledger_intent(2)])
  next
    case relay_once
    then show ?thesis by (rule relay_once_well [OF inv])
  next
    case expire_stamps_once
    then show ?thesis using expire_due_stamps_platform [OF wf expire_stamps_once(2) [unfolded expire_stamps_once_def]]
        expire_due_stamps_advances [OF wf expire_stamps_once(2) [unfolded expire_stamps_once_def]] by (intro well) simp_all
  next
    case run_reconciliation
    then show ?thesis by (intro well) (rule insert_run_platform [OF wf run_reconciliation(2)], rule run_reconciliation_advances [OF run_reconciliation(2)])
  next
    case authenticate
    then show ?thesis by (intro same_well [OF inv]) (auto elim!: authenticate_ok simp: touch_credential_def)
  next
    case claim
    from claim_same [OF claim(2)] show ?thesis by (intro same_well [OF inv]) auto
  next
    case complete
    then show ?thesis by (intro same_well [OF inv]) (auto simp: complete_def)
  next
    case administration
    then show ?thesis by (intro same_well [OF inv]) (auto simp: enters_reference_data_def insert_ok)
  next
    case time_passes
    then show ?thesis by (intro same_well [OF inv]) simp_all
  qed
qed

section \<open>Reachable states\<close>

lemma steps_well:
  assumes "(step rt)\<^sup>*\<^sup>* (db, w) (db', w')" and inv: "system_inv (rt_audit_chain_secret rt) db"
  shows "goes_well (rt_audit_chain_secret rt) db db'"
  using assms(1)
proof (induction rule: rtranclp_induct2)
  case refl
  then show ?case by (rule goes_well_refl [OF inv])
next
  case (step db1 w1 db2 w2)
  from step.IH show ?case by (rule goes_well_trans) (rule step_well [OF step.hyps(2)])
qed

lemma empty_db_inv: "system_inv k empty_db"
proof -
  have "audit_intact k empty_db" by (simp add: audit_intact_def audit_wf_def empty_db_def)
  moreover have "orders_wf empty_db" "outbox_wf empty_db" "stamps_wf empty_db" "payments_wf empty_db"
    by (simp_all add: orders_wf_def outbox_wf_def stamps_wf_def payments_wf_def empty_db_def next_serial_def split_paired_all)
  moreover have "books_wf empty_db"
    by (simp add: books_wf_def ledger_ok_def ledger_wf_def accounts_ok_def empty_db_def journal_sum_def trial_balance_def received_def owed_def)
  ultimately show ?thesis by (simp add: system_inv_def platform_wf_def rest_wf_def money_wf_def) (simp add: empty_db_def)
qed

lemma reachable_wf:
  "(step rt)\<^sup>*\<^sup>* (db, w) (db', w') \<Longrightarrow> system_inv (rt_audit_chain_secret rt) db \<Longrightarrow> platform_wf (rt_audit_chain_secret rt) db'"
  using steps_well by (fastforce simp: goes_well_def system_inv_def)

section \<open>What stands behind a paid order\<close>

lemma paid_order_receipt:
  assumes wf: "platform_wf k db" and ord: "ord \<in> set (orders db)" "paid ord"
  obtains i r where "i \<in> set (payment_intents db)" "r \<in> set (payment_receipts db)" "pi_order_id i = o_id ord" "matched_for (pi_id i) r"
    "rc_amount_minor r = o_total_minor ord" "rc_currency r = o_currency ord"
proof -
  have pay: "payments_wf db" using platform_money(1) [OF wf] by (simp add: money_wf_def)
  then have "\<forall>x \<in> set (cores db). paid x \<longrightarrow> o_id x \<in> pi_order_id ` set (payment_intents db)" unfolding payments_wf_def by blast
  with ord have "o_id ord \<in> pi_order_id ` set (payment_intents db)" by force
  then obtain i where i: "i \<in> set (payment_intents db)" "pi_order_id i = o_id ord" by auto
  have ok: "intent_ok (cores db) i" "receipts_ok (payment_receipts db) i" using pay i(1) by (simp_all add: payments_wf_def)
  obtain y where y: "y \<in> set (orders db)" "o_id y = o_id ord" "o_total_minor y = pi_amount_minor i" "o_currency y = pi_currency i"
    using ok(1) i(2) by (auto simp: intent_ok_def)
  have "y = ord" using orders_wf_unique [OF platform_orders(1) [OF wf] y(1) ord(1)] y(2) by simp
  have "pi_status i = P_SETTLED" using platform_intents(1) [OF wf ord(1) i(1)] i(2) ord(2) by simp
  with ok(2) have "map (\<lambda>r. (rc_amount_minor r, rc_currency r)) (filter (matched_for (pi_id i)) (payment_receipts db)) = [(pi_amount_minor i, pi_currency i)]"
    by (simp add: receipts_ok_def)
  then obtain r where r: "filter (matched_for (pi_id i)) (payment_receipts db) = [r]" "rc_amount_minor r = pi_amount_minor i" "rc_currency r = pi_currency i"
    by (auto simp: map_eq_Cons_conv)
  with filter_eq_singletonD [OF r(1)] that [of i r] i y \<open>y = ord\<close> show thesis by simp
qed

lemma paid_order_approved:
  assumes wf: "platform_wf k db" and ord: "ord \<in> set (orders db)" "paid ord" and l: "l \<in> set (REQUIRED_APPROVALS (o_risk_tier ord))"
  shows "\<exists>a \<in> set (approvals db). ap_order_id a = o_id ord \<and> ap_level a = l \<and> ap_decision a = D_APPROVED \<and> ap_actor_principal_id a \<noteq> o_submitted_by ord"
proof -
  have ok: "approvals_ok db ord" using platform_orders(1) [OF wf] ord(1) by (simp add: orders_wf_def order_ok_def)
  have "o_status ord \<in> APPROVED_STATES" using ord(2) by (auto simp: paid_def APPROVED_STATES_def)
  with ok l have "l \<in> set (approved_levels db (o_id ord))" by (auto simp: approvals_ok_def)
  then obtain a where a: "a \<in> set (approvals db)" "ap_order_id a = o_id ord" "ap_decision a = D_APPROVED" "ap_level a = l"
    by (auto simp: approved_levels_def)
  moreover have "ap_actor_principal_id a \<in> set (approvers db (o_id ord))" using a(1,2) by (auto simp: approvers_def)
  ultimately show ?thesis using ok by (auto simp: approvals_ok_def)
qed

lemma order_approvers_distinct:
  "platform_wf k db \<Longrightarrow> ord \<in> set (orders db) \<Longrightarrow> distinct (map ap_actor_principal_id (filter (\<lambda>a. ap_order_id a = o_id ord) (approvals db)))"
  using platform_orders(1) [of k db] by (simp add: orders_wf_def order_ok_def approvals_ok_def approvers_def)

lemma stamp_order:
  assumes wf: "platform_wf k db" and s: "s \<in> set (stamps db)"
  obtains b ord where "b \<in> set (stamp_batches db)" "s_batch_id s = b_id b" "ord \<in> set (orders db)" "b_order_id b = o_id ord" "paid ord"
proof -
  note swf = platform_orders(2) [OF wf]
  obtain b where b: "b \<in> set (stamp_batches db)" "s_batch_id s = b_id b" using swf s by (auto simp: stamps_wf_def stamp_ok_def)
  moreover obtain ord where "ord \<in> set (orders db)" "o_id ord = b_order_id b" "paid ord"
    using stamps_wf_batch [OF swf b(1)] by (auto simp: batch_ok_def)
  ultimately show thesis using that by simp
qed

lemma issuing_db_inv: "system_inv k issuing_db"
  using issuing_db_wf [of k] by (simp add: system_inv_def) (simp add: issuing_db_def paid_db_def sample_db_def empty_db_def)

lemma notice_db_inv: "system_inv k notice_db"
  using notice_db_wf [of k]
  by (auto simp: system_inv_def notice_db_def sample_notice_def deliverable_def payload_ok_def ADDRESSES_def new_message_def)

end
