(* ===== verification/Api_System.thy ===== *)
theory Api_System
  imports Api System
begin

text \<open>
  What the routes of \<^verbatim>\<open>src/taxstamp/api\<close> promise: every request is a sequence of steps of the platform, a request that is
  answered with an error has changed nothing in the database but the last use of a credential and nothing in Redis but a
  count of its principal and a claimed nonce, documents go to those who may see them, and a nonce is good for one
  verification.  The requests are those of the business routes (\<open>route\<close>).  The status routes are in the theory of capabilities:
  \<^verbatim>\<open>/healthz\<close>, \<^verbatim>\<open>/readyz\<close> and \<^verbatim>\<open>/v1/capabilities\<close>, which ask for no credential, and \<^verbatim>\<open>/metrics\<close>, which does.
\<close>

section \<open>Requests as steps\<close>

definition reach :: "'w runtime \<Rightarrow> db \<Rightarrow> db \<Rightarrow> bool" where
  "reach rt db db' = (\<forall>w. (step rt)\<^sup>*\<^sup>* (db, w) (db', w))"

definition runs :: "'w runtime \<Rightarrow> ('r, 'a) route \<Rightarrow> bool" where
  "runs rt m = (\<forall>db r x db' r'. m (db, r) = (x, db', r') \<longrightarrow> reach rt db db')"

lemma reach_refl [simp]: "reach rt db db"
  by (simp add: reach_def)

lemma reach_trans: "reach rt a b \<Longrightarrow> reach rt b c \<Longrightarrow> reach rt a c"
  unfolding reach_def by (meson rtranclp_trans)

lemma reach_step: "(\<And>w. step rt (db, w) (db', w)) \<Longrightarrow> reach rt db db'"
  unfolding reach_def by blast

lemma runs_of_res: "runs rt (of_res x)"
  by (simp add: runs_def of_res_def)

lemma runs_reading: "runs rt (reading f)"
  by (simp add: runs_def reading_def)

lemma runs_redis: "runs rt (on_redis f)"
  by (simp add: runs_def on_redis_def split: prod.splits)

lemma runs_bind:
  assumes "runs rt m" and "\<And>x. runs rt (f x)"
  shows "runs rt (bind_st m f)"
  unfolding runs_def
proof (intro allI impI)
  fix db r x db' r'
  assume b: "bind_st m f (db, r) = (x, db', r')"
  obtain y db1 r1 where m: "m (db, r) = (y, db1, r1)" using prod_cases3 by blast
  then have 1: "reach rt db db1" using assms(1) unfolding runs_def by blast
  show "reach rt db db'"
  proof (cases y)
    case (Inl e)
    with b m 1 show ?thesis by (simp add: bind_st_def)
  next
    case (Inr z)
    with b m have "f z (db1, r1) = (x, db', r')" by (simp add: bind_st_def)
    with assms(2) have "reach rt db1 db'" unfolding runs_def by blast
    with 1 show ?thesis by (rule reach_trans)
  qed
qed

lemma runs_transaction:
  assumes "\<And>db x db'. f db = Inr (x, db') \<Longrightarrow> reach rt db db'"
  shows "runs rt (in_transaction f)"
  unfolding runs_def in_transaction_def using assms by (auto split: sum.splits)

text \<open>The response is computed from the result of a service.\<close>

lemma reach_document:
  assumes "\<And>y db'. m = Inr (y, db') \<Longrightarrow> reach rt db db'" and "bind_res m (\<lambda>(y, db). Inr (g y, db)) = Inr (x, db')"
  shows "reach rt db db'"
  using assms by auto

lemma runs_current: "runs rt (current sv hq)"
  unfolding current_def
proof (rule runs_transaction)
  fix db x db'
  assume "bind_res (authenticate (sv_api_token_secret sv) (hq_authorization hq) (Access.request_id (hq_x_request_id hq) (hq_fresh_id hq)) (hq_clock hq 0) db)
    (\<lambda>(cur, db). Inr (au_actor cur, db)) = Inr (x, db')"
  then obtain cur where "authenticate (sv_api_token_secret sv) (hq_authorization hq) (Access.request_id (hq_x_request_id hq) (hq_fresh_id hq)) (hq_clock hq 0) db = Inr (cur, db')"
    by auto
  then show "reach rt db db'" by (intro reach_step) (rule step.authenticate)
qed

lemma run_idempotent_reach:
  assumes work: "\<And>db x db'. work db = Inr (x, db') \<Longrightarrow> reach rt db db'"
    and "run_idempotent scope key pid payload status work now ttl db = Inr (x, db')"
  shows "reach rt db db'"
proof -
  obtain h rp db1 where cl: "claim scope key pid h now ttl db = Inr (rp, db1)"
    and rest: "(case rp of Some r \<Rightarrow> Inr ((rp_status r, rp_body r), db1)
       | None \<Rightarrow> bind_res (work db1) (\<lambda>(body, db). bind_res (complete scope key status body now db) (\<lambda>db. Inr ((status, body), db)))) = Inr (x, db')"
    using assms(2) by (auto simp: run_idempotent_def)
  have 1: "reach rt db db1" using cl by (intro reach_step) (rule step.claim)
  show ?thesis
  proof (cases rp)
    case (Some r)
    with rest 1 show ?thesis by simp
  next
    case None
    with rest obtain body db2 where w: "work db1 = Inr (body, db2)" and c: "complete scope key status body now db2 = Inr db'" by auto
    have "reach rt db2 db'" using c by (intro reach_step) (rule step.complete)
    with 1 work [OF w] show ?thesis using reach_trans by blast
  qed
qed

lemma runs_idempotently:
  "(\<And>db x db'. work db = Inr (x, db') \<Longrightarrow> reach rt db db') \<Longrightarrow> runs rt (idempotently sv hq scope key actor payload status work)"
  unfolding idempotently_def by (rule runs_transaction) (rule run_idempotent_reach)

lemma runs_gates: "runs rt (rate_limit sv actor bucket limit)" "runs rt (claim_replay sv d n)"
  unfolding rate_limit_def claim_replay_def by (rule runs_redis)+

text \<open>The worker and the routes run on the same configuration.\<close>

definition configured_alike :: "'r service \<Rightarrow> 'w runtime \<Rightarrow> bool" where
  "configured_alike sv rt = (rt_audit_chain_secret rt = sv_audit_chain_secret sv \<and> rt_revision rt = sv_revision sv)"

lemma runs_if: "runs rt m \<Longrightarrow> runs rt n \<Longrightarrow> runs rt (if b then m else n)"
  by simp

lemmas runs_intros = runs_bind runs_if runs_of_res runs_reading runs_current runs_gates runs_idempotently runs_transaction

lemma runs_route:
  assumes "configured_alike sv rt"
  shows "runs rt (route sv hq q)"
proof -
  have cfg: "sv_audit_chain_secret sv = rt_audit_chain_secret rt" "sv_revision sv = rt_revision rt"
    using assms by (simp_all add: configured_alike_def)
  note doc = reach_document [rotated]
  have a1: "runs rt (create_order sv hq b)" for b
    unfolding create_order_def cfg by (intro runs_intros) (erule doc, rule reach_step, erule step.submit_order)
  have a2: "runs rt (decide sv hq i b)" for i b
    unfolding decide_def cfg by (intro runs_intros) (erule doc, rule reach_step, erule step.decide_approval)
  have a3: "runs rt (cancel sv hq i b)" for i b
    unfolding cancel_def cfg by (intro runs_intros) (erule doc, rule reach_step, erule step.cancel_order)
  have a4: "runs rt (activate sv hq b)" for b
    unfolding activate_def cfg by (intro runs_intros) (erule doc, rule reach_step, erule step.activate_stamps)
  have a5: "runs rt (void sv hq b)" for b
    unfolding void_def cfg by (intro runs_intros) (erule doc, rule reach_step, erule step.void_stamps)
  have a6: "runs rt (inspect sv hq i b)" for i b
    unfolding inspect_def cfg by (intro runs_intros) (erule doc, rule reach_step, erule step.record_inspection)
  have a7: "runs rt (ingest_remittance_route sv hq raw)" for raw
    unfolding ingest_remittance_route_def cfg by (intro runs_intros) (erule doc, rule reach_step, erule step.ingest_remittance)
  have a8: "runs rt (verify_route sv hq raw)" for raw
    unfolding verify_route_def cfg by (intro runs_intros) (erule doc, rule reach_step, erule step.verify)
  have a9: "runs rt (reconcile sv hq)"
    unfolding reconcile_def cfg by (intro runs_intros) (erule doc, rule reach_step, erule step.run_reconciliation)
  show ?thesis
    by (cases q) (simp_all add: a1 a2 a3 a4 a5 a6 a7 a8 a9,
      (unfold get_order_def list_orders_def get_stamp_route_def get_batch_def audit_chain_def, (intro runs_intros)+))
qed

section \<open>Requests that fail\<close>

definition keeps_db :: "('r, 'a) route \<Rightarrow> bool" where
  "keeps_db m = (\<forall>db r x db' r'. m (db, r) = (x, db', r') \<longrightarrow> db' = db)"

lemma keeps_db_intros: "keeps_db (of_res x)" "keeps_db (on_redis f)" "keeps_db (rate_limit sv actor bucket limit)" "keeps_db (claim_replay sv d n)"
  by (auto simp: keeps_db_def of_res_def on_redis_def rate_limit_def claim_replay_def split: prod.splits)

text \<open>What a request leaves in Redis: one more in a counter of its principal, a claim of a nonce of its device.\<close>

definition marks_count :: "'r service \<Rightarrow> uuid \<Rightarrow> 'r \<Rightarrow> 'r \<Rightarrow> bool" where
  "marks_count sv pid r r' =
     (\<exists>bucket. r' = snd (rd_incr_expire (sv_redis sv) (rate_key (uuid_str pid) bucket) (sv_rate_limit_window_seconds sv) r))"

definition marks_nonce :: "'r service \<Rightarrow> string \<Rightarrow> 'r \<Rightarrow> 'r \<Rightarrow> bool" where
  "marks_nonce sv device r r' =
     (\<exists>nonce. r' = snd (rd_set_nx (sv_redis sv) (replay_key device nonce) ''1'' (sv_nonce_ttl_seconds sv) r))"

definition gated :: "'r service \<Rightarrow> uuid \<Rightarrow> string \<Rightarrow> 'r \<Rightarrow> 'r \<Rightarrow> bool" where
  "gated sv pid subject r r' = (r' = r \<or> (\<exists>r1. marks_count sv pid r r1 \<and> (r' = r1 \<or> marks_nonce sv subject r1 r')))"

lemma enforce_marks: "marks_count sv pid r (snd (enforce (sv_redis sv) (sv_rate_limit_window_seconds sv) (uuid_str pid) bucket limit r))"
  unfolding marks_count_def enforce_def check_rate_def by (intro exI [of _ bucket]) (simp split: prod.splits option.splits)

lemma claim_nonce_marks: "snd (claim_nonce redis ttl d n r) = snd (rd_set_nx redis (replay_key d n) ''1'' ttl r)"
  by (simp add: claim_nonce_def split: prod.splits option.splits)

text \<open>A failure leaves the database as it is and Redis within a relation.\<close>

definition fails_within :: "('r \<Rightarrow> 'r \<Rightarrow> bool) \<Rightarrow> ('r, 'a) route \<Rightarrow> bool" where
  "fails_within R m = (\<forall>db r e db' r'. m (db, r) = (Inl e, db', r') \<longrightarrow> db' = db \<and> R r r')"

lemma fails_within_tail:
  assumes "\<And>r. R r r"
  shows "fails_within R (of_res x)" "fails_within R (reading f)" "fails_within R (in_transaction g)"
    "fails_within R (idempotently sv hq scope key actor payload status work)"
  using assms by (auto simp: fails_within_def of_res_def reading_def in_transaction_def idempotently_def split: sum.splits)

lemma fails_within_if: "fails_within R m \<Longrightarrow> fails_within R n \<Longrightarrow> fails_within R (if b then m else n)"
  by simp

lemma fails_within_bind:
  assumes "\<And>r. R r r" and "\<And>y. x = Inr y \<Longrightarrow> fails_within R (f y)"
  shows "fails_within R (bind_st (of_res x) f)"
  using assms by (cases x) (auto simp: fails_within_def bind_st_def of_res_def)

lemma fails_within_count:
  assumes "\<And>u. fails_within (\<lambda>r r'. r' = r \<or> marks_nonce sv (ac_subject a) r r') (f u)"
  shows "fails_within (gated sv (ac_principal_id a) (ac_subject a)) (bind_st (rate_limit sv a bucket limit) f)"
  unfolding fails_within_def
proof (intro allI impI)
  fix db r e db' r'
  assume b: "bind_st (rate_limit sv a bucket limit) f (db, r) = (Inl e, db', r')"
  obtain x r1 where en: "enforce (sv_redis sv) (sv_rate_limit_window_seconds sv) (uuid_str (ac_principal_id a)) bucket limit r = (x, r1)" by fastforce
  have c: "marks_count sv (ac_principal_id a) r r1" using enforce_marks [of sv "ac_principal_id a" r bucket limit] by (simp add: en)
  have "db' = db \<and> (r' = r1 \<or> marks_nonce sv (ac_subject a) r1 r')"
    using b en assms by (cases x) (auto simp: bind_st_def rate_limit_def on_redis_def fails_within_def)
  with c show "db' = db \<and> gated sv (ac_principal_id a) (ac_subject a) r r'" unfolding gated_def by blast
qed

lemma fails_within_nonce:
  assumes "\<And>u. fails_within (=) (f u)"
  shows "fails_within (\<lambda>r r'. r' = r \<or> marks_nonce sv d r r') (bind_st (claim_replay sv d n) f)"
  unfolding fails_within_def
proof (intro allI impI)
  fix db r e db' r'
  assume b: "bind_st (claim_replay sv d n) f (db, r) = (Inl e, db', r')"
  obtain x r1 where cn: "claim_nonce (sv_redis sv) (sv_nonce_ttl_seconds sv) d n r = (x, r1)" by fastforce
  have c: "marks_nonce sv d r r1" using claim_nonce_marks [of "sv_redis sv" "sv_nonce_ttl_seconds sv" d n r] unfolding cn marks_nonce_def by auto
  have "db' = db \<and> r1 = r'" using b cn assms by (cases x) (auto simp: bind_st_def claim_replay_def on_redis_def fails_within_def)
  with c show "db' = db \<and> (r' = r \<or> marks_nonce sv d r r')" by blast
qed

text \<open>Behind the authentication of a request, which commits the last use of its credential.\<close>

lemma current_fails:
  assumes "current sv hq (db, r) = (Inl e, db1, r1)"
  shows "db1 = db" "r1 = r"
  using assms by (auto simp: current_def in_transaction_def split: sum.splits)

lemma gated_refl: "gated sv pid subject r r"
  by (simp add: gated_def)

lemma fails_within_subject:
  assumes "\<And>u. fails_within (=) (f u)"
  shows "fails_within (\<lambda>r r'. r' = r \<or> marks_nonce sv (ac_subject a) r r')
    (bind_st (of_res (require_subject a d)) (\<lambda>_. bind_st (claim_replay sv d n) f))"
  using fails_within_nonce [of f sv "ac_subject a" n, OF assms]
  by (intro fails_within_bind) (auto simp: require_subject_def split: if_splits)

lemmas fails_within_intros = fails_within_if fails_within_subject fails_within_count fails_within_nonce fails_within_bind fails_within_tail

lemma remittance_fails:
  assumes "ingest_remittance_route sv hq raw (db, r) = (Inl e, db', r')"
  shows "db' = db \<and> (r' = r \<or> r' = snd (rd_set_nx (sv_redis sv) (replay_key ''payments'' (sha256_hex raw)) ''1'' (sv_nonce_ttl_seconds sv) r))"
proof -
  obtain x r1 where cn: "claim_nonce (sv_redis sv) (sv_nonce_ttl_seconds sv) ''payments'' (sha256_hex raw) r = (x, r1)" by fastforce
  have r1: "r1 = snd (rd_set_nx (sv_redis sv) (replay_key ''payments'' (sha256_hex raw)) ''1'' (sv_nonce_ttl_seconds sv) r)"
    using claim_nonce_marks [of "sv_redis sv" "sv_nonce_ttl_seconds sv" "''payments''" "sha256_hex raw" r] by (simp add: cn)
  show ?thesis
    using assms unfolding ingest_remittance_route_def r1 [symmetric]
    by (auto simp: bind_st_def of_res_def claim_replay_def on_redis_def cn in_transaction_def split: sum.splits if_splits)
qed

section \<open>Requests that succeed\<close>

lemma bind_st_ok: "bind_st m f s = (Inr x, s') \<longleftrightarrow> (\<exists>y s1. m s = (Inr y, s1) \<and> f y s1 = (Inr x, s'))"
  by (auto simp: bind_st_def split: prod.splits sum.splits)

lemma of_res_ok: "of_res x s = (Inr y, s') \<longleftrightarrow> x = Inr y \<and> s' = s"
  by (auto simp: of_res_def)

lemma reading_ok: "reading f s = (Inr y, s') \<longleftrightarrow> f (fst s) = Inr y \<and> s' = s"
  by (cases s) (auto simp: reading_def)

lemma in_transaction_ok: "in_transaction f s = (Inr y, s') \<longleftrightarrow> (\<exists>db'. f (fst s) = Inr (y, db') \<and> s' = (db', snd s))"
  by (cases s) (auto simp: in_transaction_def split: sum.splits)

lemma gates_ok:
  "rate_limit sv a b l s = (Inr u, s') \<Longrightarrow> fst s' = fst s"
  "claim_replay sv d n s = (Inr c, s') \<Longrightarrow> fst s' = fst s"
  by (auto simp: rate_limit_def claim_replay_def on_redis_def split: prod.splits)

lemmas route_ok = bind_st_ok of_res_ok reading_ok in_transaction_ok

text \<open>Whom a request is from: the principal of an admitted credential.\<close>

definition request_from :: "'r service \<Rightarrow> http_request \<Rightarrow> db \<Rightarrow> principal \<Rightarrow> db \<Rightarrow> bool" where
  "request_from sv hq db p db1 =
     (\<exists>token c. parse_bearer (hq_authorization hq) = Inr token \<and> admits (sv_api_token_secret sv) token (hq_clock hq 0) db c p \<and>
        db1 = touch_credential (cr_id c) (hq_clock hq 0) db)"

lemma current_ok:
  assumes "current sv hq s = (Inr a, s1)"
  obtains p where "request_from sv hq (fst s) p (fst s1)" "ac_principal_id a = pr_id p" "ac_role a = pr_role p" "ac_company_id a = pr_company_id p"
    "ac_subject a = pr_subject p" "snd s1 = snd s"
proof -
  obtain cur where au: "authenticate (sv_api_token_secret sv) (hq_authorization hq) (Access.request_id (hq_x_request_id hq) (hq_fresh_id hq)) (hq_clock hq 0) (fst s)
      = Inr (cur, fst s1)" and "a = au_actor cur" "snd s1 = snd s"
    using assms by (auto simp: current_def in_transaction_ok)
  obtain token c p where "parse_bearer (hq_authorization hq) = Inr token" "admits (sv_api_token_secret sv) token (hq_clock hq 0) (fst s) c p"
    "speaks_for p (Access.request_id (hq_x_request_id hq) (hq_fresh_id hq)) (au_actor cur)" "fst s1 = touch_credential (cr_id c) (hq_clock hq 0) (fst s)"
    using authenticate_ok [OF au] by metis
  then show thesis using that [of p] \<open>a = au_actor cur\<close> \<open>snd s1 = snd s\<close> unfolding request_from_def speaks_for_def by fastforce
qed

lemma gated_fails:
  assumes "\<And>a. fails_within (gated sv (ac_principal_id a) (ac_subject a)) (f a)" and b: "bind_st (current sv hq) f (db, r) = (Inl e, db', r')"
  shows "(db' = db \<and> r' = r) \<or> (\<exists>p. request_from sv hq db p db' \<and> gated sv (pr_id p) (pr_subject p) r r')"
proof -
  obtain x db1 r1 where c: "current sv hq (db, r) = (x, db1, r1)" using prod_cases3 by blast
  show ?thesis
  proof (cases x)
    case (Inl e')
    with b c current_fails [of sv hq db r e' db1 r1] show ?thesis by (simp add: bind_st_def)
  next
    case (Inr a)
    with b c have "f a (db1, r1) = (Inl e, db', r')" by (simp add: bind_st_def)
    then have "db' = db1" "gated sv (ac_principal_id a) (ac_subject a) r1 r'" using assms(1) unfolding fails_within_def by blast+
    moreover obtain p where "request_from sv hq db p db1" "ac_principal_id a = pr_id p" "ac_subject a = pr_subject p" "r1 = r"
      using current_ok [OF c [unfolded Inr]] by (metis fst_conv snd_conv)
    ultimately show ?thesis by auto
  qed
qed

lemma route_fails:
  assumes "route sv hq q (db, r) = (Inl e, db', r')"
  shows "(db' = db \<and> r' = r) \<or> (\<exists>p. request_from sv hq db p db' \<and> gated sv (pr_id p) (pr_subject p) r r') \<or>
    (\<exists>raw. q = Ingest_remittance raw \<and> db' = db \<and>
       r' = snd (rd_set_nx (sv_redis sv) (replay_key ''payments'' (sha256_hex raw)) ''1'' (sv_nonce_ttl_seconds sv) r))"
proof (cases "\<exists>raw. q = Ingest_remittance raw")
  case True
  with assms remittance_fails show ?thesis by fastforce
next
  case False
  have "(db' = db \<and> r' = r) \<or> (\<exists>p. request_from sv hq db p db' \<and> gated sv (pr_id p) (pr_subject p) r r')"
    using assms False
    by (cases q, simp_all only: route.simps,
        unfold create_order_def decide_def cancel_def activate_def void_def inspect_def verify_route_def reconcile_def
          get_order_def list_orders_def get_stamp_route_def get_batch_def audit_chain_def)
      (blast | (erule gated_fails [rotated], (intro fails_within_intros, (rule gated_refl | simp)+)))+
  then show ?thesis by blast
qed

text \<open>A response that was stored under an idempotency key, for the same principal.\<close>

definition stored_response :: "uuid \<Rightarrow> int \<Rightarrow> json_object \<Rightarrow> db \<Rightarrow> bool" where
  "stored_response pid status body db =
     (\<exists>rec \<in> set (idempotency_records db). ir_principal_id rec = pid \<and> ir_response_status rec = Some status \<and> ir_response_body rec = Some body)"

lemma run_idempotent_cases:
  assumes "run_idempotent scope key pid payload status work now ttl db = Inr ((st, doc), db')"
  shows "db' = db \<and> stored_response pid st doc db \<or> st = status \<and> (\<exists>db1 db2. work db1 = Inr (doc, db2))"
proof -
  obtain h rp db1 where cl: "claim scope key pid h now ttl db = Inr (rp, db1)"
    and rest: "(case rp of Some r \<Rightarrow> Inr ((rp_status r, rp_body r), db1)
       | None \<Rightarrow> bind_res (work db1) (\<lambda>(body, db). bind_res (complete scope key status body now db) (\<lambda>db. Inr ((status, body), db))))
       = Inr ((st, doc), db')"
    using assms by (auto simp: run_idempotent_def)
  show ?thesis
  proof (cases rp)
    case (Some r)
    with cl obtain rec where "db1 = db" "records_for scope key db = [rec]" "completed_as rec pid h (rp_status r) (rp_body r)"
      by (auto simp: claim_replay_iff)
    moreover from this(2) have "rec \<in> set (idempotency_records db)" unfolding records_for_def by (metis filter_eq_singletonD)
    ultimately show ?thesis using rest Some by (auto simp: stored_response_def completed_as_def)
  next
    case None
    with rest show ?thesis by auto
  qed
qed

lemma idempotently_ok:
  assumes "idempotently sv hq scope key actor payload status work s = (Inr (st, doc), s')"
  shows "fst s' = fst s \<and> stored_response (ac_principal_id actor) st doc (fst s) \<or> st = status \<and> (\<exists>db1 db2. work db1 = Inr (doc, db2))"
proof -
  obtain db' where "run_idempotent scope key (ac_principal_id actor) payload status work (hq_clock hq 1) (sv_idempotency_ttl_seconds sv) (fst s) =
      Inr ((st, doc), db')" "s' = (db', snd s)"
    using assms unfolding idempotently_def in_transaction_ok by blast
  with run_idempotent_cases [OF this(1)] show ?thesis by simp
qed

text \<open>The roles for which a route does its work.\<close>

fun permitted :: "api_request \<Rightarrow> role set" where
  "permitted (Create_order q) = {REQUESTER, ADMIN}"
| "permitted (Decide i q) = {LEVEL_ROLES (aq_level q)}"
| "permitted (Cancel i q) = {REQUESTER, ADMIN}"
| "permitted (Activate q) = {REQUESTER, OPERATOR, ADMIN}"
| "permitted (Void q) = {OPERATOR, ADMIN}"
| "permitted (Inspect i q) = {OPERATOR, ADMIN}"
| "permitted (Get_batch i) = {OPERATOR, ADMIN, AUDITOR, REQUESTER}"
| "permitted (Verify raw) = {DEVICE, OPERATOR, ADMIN}"
| "permitted Reconcile = {ADMIN, AUDITOR}"
| "permitted Audit_chain = {ADMIN, AUDITOR}"
| "permitted (Get_order i) = UNIV"
| "permitted (List_orders l k) = UNIV"
| "permitted (Get_stamp x) = UNIV"
| "permitted (Ingest_remittance raw) = {}"

text \<open>The requirements the services make themselves.\<close>

lemma service_roles:
  "submit_order a cmd cs now k rvn mx ik sfx db = Inr x \<Longrightarrow> ac_role a \<in> {REQUESTER, ADMIN}"
  "decide_approval a dec now k rvn ik sfx db = Inr x1 \<Longrightarrow> ac_role a = LEVEL_ROLES (ap_cmd_level dec)"
  "cancel_order a oid why now k rvn db = Inr x2 \<Longrightarrow> ac_role a \<in> {REQUESTER, ADMIN}"
  "activate_stamps a serials now k rvn ik db = Inr x3 \<Longrightarrow> ac_role a \<in> {REQUESTER, OPERATOR, ADMIN}"
  "void_stamps a serials why now k rvn db = Inr x4 \<Longrightarrow> ac_role a \<in> {OPERATOR, ADMIN}"
  "record_inspection a icmd now k rvn db = Inr x5 \<Longrightarrow> ac_role a \<in> {OPERATOR, ADMIN}"
  by (auto simp: submit_order_def decide_approval_def cancel_order_def activate_stamps_def void_stamps_def record_inspection_def
      split: option.splits if_splits)

text \<open>A document was either computed for a principal of a permitted role or replayed to the principal it was computed for.\<close>

definition answered :: "'r service \<Rightarrow> http_request \<Rightarrow> db \<Rightarrow> role set \<Rightarrow> int \<Rightarrow> json_object \<Rightarrow> db \<Rightarrow> bool" where
  "answered sv hq db roles status doc db' =
     (\<exists>p db1. request_from sv hq db p db1 \<and> (pr_role p \<in> roles \<or> db' = db1 \<and> stored_response (pr_id p) status doc db1))"

definition serves :: "actor \<Rightarrow> role set \<Rightarrow> ('r, int \<times> json_object) route \<Rightarrow> bool" where
  "serves a roles m = (\<forall>s status doc s'. m s = (Inr (status, doc), s') \<longrightarrow>
     ac_role a \<in> roles \<or> fst s' = fst s \<and> stored_response (ac_principal_id a) status doc (fst s))"

lemma serves_current:
  assumes "\<And>a. serves a roles (f a)" and "bind_st (current sv hq) f s = (Inr (status, doc), s')"
  shows "answered sv hq (fst s) roles status doc (fst s')"
proof -
  obtain a s1 where c: "current sv hq s = (Inr a, s1)" and "f a s1 = (Inr (status, doc), s')" using assms(2) by (auto simp: bind_st_ok)
  with assms(1) have "ac_role a \<in> roles \<or> fst s' = fst s1 \<and> stored_response (ac_principal_id a) status doc (fst s1)"
    unfolding serves_def by blast
  with current_ok [OF c] show ?thesis unfolding answered_def by metis
qed

lemma serves_bind:
  assumes "keeps_db m" and "\<And>x. serves a roles (f x)"
  shows "serves a roles (bind_st m f)"
  unfolding serves_def
proof (intro allI impI)
  fix s status doc s'
  assume "bind_st m f s = (Inr (status, doc), s')"
  then obtain x s1 where m: "m s = (Inr x, s1)" and "f x s1 = (Inr (status, doc), s')" by (auto simp: bind_st_ok)
  moreover have "fst s1 = fst s" using assms(1) m unfolding keeps_db_def by (metis prod.collapse)
  ultimately show "ac_role a \<in> roles \<or> fst s' = fst s \<and> stored_response (ac_principal_id a) status doc (fst s)"
    using assms(2) unfolding serves_def by metis
qed

lemma serves_role: "set rs \<subseteq> roles \<Longrightarrow> serves a roles (bind_st (of_res (require_role a rs)) f)"
  by (auto simp: serves_def bind_st_ok of_res_ok)

lemma serves_everyone: "serves a UNIV m"
  by (simp add: serves_def)

lemma serves_idempotently:
  "(\<And>db x. work db = Inr x \<Longrightarrow> ac_role a \<in> roles) \<Longrightarrow> serves a roles (idempotently sv hq scope key a payload st work)"
  unfolding serves_def using idempotently_ok by blast

lemmas serves_intros = serves_bind keeps_db_intros serves_idempotently

lemmas route_defs = route.simps permitted.simps create_order_def decide_def cancel_def activate_def void_def inspect_def
  verify_route_def reconcile_def get_order_def list_orders_def get_stamp_route_def get_batch_def audit_chain_def

lemma route_answered:
  assumes "route sv hq q s = (Inr (status, doc), s')" and "\<And>raw. q \<noteq> Ingest_remittance raw"
  shows "answered sv hq (fst s) (permitted q) status doc (fst s')"
  using assms
  by (cases q, simp_all only: route_defs)
    (blast | (erule serves_current [rotated],
      (rule serves_everyone | (rule serves_role, simp) | (intro serves_intros, auto dest!: service_roles))))+

section \<open>Signed requests\<close>

lemma except_as_ok: "(case v of Inl e \<Rightarrow> Inl (f e) | Inr u \<Rightarrow> Inr x) = Inr d \<longleftrightarrow> v = Inr () \<and> x = d" for v :: "unit res"
  by (cases v) simp_all

lemma signed_document_ok:
  "signed_document sv hq limit secret raw now = Inr d \<longleftrightarrow>
     length raw \<le> limit \<and> sv_loads sv raw = Inr (Some (JObj d)) \<and>
     (\<exists>t. header_timestamp (hq_timestamp hq) = Inr t \<and>
        verify_signed_request \<lparr>sr_body = d, sr_signature = hq_signature hq, sr_timestamp = t\<rparr> secret now (sv_signature_max_skew_seconds sv) = Inr ())"
proof (cases "\<exists>x. sv_loads sv raw = Inr (Some (JObj x))")
  case True
  then obtain x where "sv_loads sv raw = Inr (Some (JObj x))" by blast
  then show ?thesis by (auto simp: signed_document_def except_as_ok)
next
  case False
  then have "(case y of Some (JObj document) \<Rightarrow> f document | _ \<Rightarrow> Inl ValidationFailed) = Inl ValidationFailed" if "sv_loads sv raw = Inr y" for y and f :: "json_object \<Rightarrow> json_object res"
    using that by (auto split: option.splits json.splits)
  with False show ?thesis by (cases "sv_loads sv raw") (auto simp: signed_document_def simp del: bind_res_eq_Inr)
qed

lemma validated_ok: "validated q = Inr b \<longleftrightarrow> q = Some b"
  by (auto simp: validated_def split: option.splits)

text \<open>The device and the nonce that a body names.\<close>

definition nonce_of :: "'r service \<Rightarrow> bytes \<Rightarrow> (string \<times> string) option" where
  "nonce_of sv raw =
     (case sv_loads sv raw of Inr (Some (JObj d)) \<Rightarrow> map_option (\<lambda>b. (yq_device_id b, yq_nonce b)) (sv_verify_request sv d) | _ \<Rightarrow> None)"

lemma on_redis_ok: "on_redis f s = (Inr y, s') \<longleftrightarrow> fst s' = fst s \<and> f (snd s) = (Inr y, snd s')"
  by (cases s; cases s') (auto simp: on_redis_def split: prod.splits)

lemma verify_route_accepts:
  assumes "verify_route sv hq raw (db, r) = (Inr x, db', r')"
  obtains actor d b db1 r1 r2 where "current sv hq (db, r) = (Inr actor, db1, r)" "ac_role actor \<in> {DEVICE, OPERATOR, ADMIN}"
    "enforce (sv_redis sv) (sv_rate_limit_window_seconds sv) (uuid_str (ac_principal_id actor)) ''verify'' (sv_rate_limit_verify sv) r = (Inr (), r1)"
    "signed_document sv hq (8 * 1024) (sv_device_hmac_secret sv) raw (hq_clock hq 1) = Inr d" "sv_verify_request sv d = Some b"
    "ac_subject actor = yq_device_id b"
    "claim_nonce (sv_redis sv) (sv_nonce_ttl_seconds sv) (yq_device_id b) (yq_nonce b) r1 = (Inr True, r')"
proof -
  obtain actor s1 where c: "current sv hq (db, r) = (Inr actor, s1)" using assms unfolding verify_route_def bind_st_ok by blast
  have s1: "snd s1 = r" using current_ok [OF c] by simp
  show thesis
    using assms c s1 that [of actor "fst s1"] unfolding verify_route_def rate_limit_def claim_replay_def
    by (auto simp: route_ok on_redis_ok validated_ok split: if_splits)
qed

lemma verify_route_nonce:
  assumes ks: "key_store (sv_redis sv) held" and v: "verify_route sv hq raw (db, r) = (Inr x, db', r')"
  obtains d n where "nonce_of sv raw = Some (d, n)" "\<not> held (replay_key d n) r" "held (replay_key d n) r'"
proof (rule verify_route_accepts [OF v])
  fix actor d b and db1 :: db and r1
  assume en: "enforce (sv_redis sv) (sv_rate_limit_window_seconds sv) (uuid_str (ac_principal_id actor)) ''verify'' (sv_rate_limit_verify sv) r = (Inr (), r1)"
    and "signed_document sv hq (8 * 1024) (sv_device_hmac_secret sv) raw (hq_clock hq 1) = Inr d" and b: "sv_verify_request sv d = Some b"
    and cl: "claim_nonce (sv_redis sv) (sv_nonce_ttl_seconds sv) (yq_device_id b) (yq_nonce b) r1 = (Inr True, r')"
  then have "nonce_of sv raw = Some (yq_device_id b, yq_nonce b)" by (simp add: signed_document_ok nonce_of_def)
  moreover have "\<not> held (replay_key (yq_device_id b) (yq_nonce b)) r"
    using claim_nonce_held(1) [OF ks cl] enforce_keeps [OF ks en] by blast
  ultimately show thesis using claim_nonce_held(2) [OF ks cl] that by blast
qed

lemma error_response_status: "400 \<le> fst (error_response e)"
  by (cases e) (simp_all add: error_response_def)

lemma serve_Document: "serve sv hq q s = (Document status doc, s') \<longleftrightarrow> route sv hq q s = (Inr (status, doc), s')"
  by (auto simp: serve_def split: prod.splits sum.splits)

lemma serve_Error: "serve sv hq q s = (Error status code, s') \<Longrightarrow> \<exists>e. route sv hq q s = (Inl e, s') \<and> error_response e = (status, code)"
  by (auto simp: serve_def split: prod.splits sum.splits)

lemma serve_reaches:
  assumes "configured_alike sv rt" and "serve sv hq q (db, r) = (resp, db', r')"
  shows "(step rt)\<^sup>*\<^sup>* (db, w) (db', w)"
proof -
  obtain x where "route sv hq q (db, r) = (x, db', r')" using assms(2) by (auto simp: serve_def split: prod.splits sum.splits)
  with runs_route [OF assms(1)] show ?thesis unfolding runs_def reach_def by blast
qed

lemma serve_fails_clean:
  assumes "serve sv hq q (db, r) = (Error status code, db', r')"
  shows "db' = db \<or> (\<exists>i. db' = touch_credential i (hq_clock hq 0) db)"
  using serve_Error [OF assms] route_fails [of sv hq q db r _ db' r'] unfolding request_from_def by blast

lemma serve_current:
  assumes "authenticate (sv_api_token_secret sv) (hq_authorization hq) (Access.request_id (hq_x_request_id hq) (hq_fresh_id hq)) (hq_clock hq 0) db = Inr (cur, db1)"
  shows "bind_st (current sv hq) f (db, r) = f (au_actor cur) (db1, r)"
  using assms by (simp add: bind_st_def current_def in_transaction_def)

lemma touched_tables:
  "orders (touch_credential i t db) = orders db" "stamps (touch_credential i t db) = stamps db" "stamp_batches (touch_credential i t db) = stamp_batches db"
  "approvals (touch_credential i t db) = approvals db" "payment_intents (touch_credential i t db) = payment_intents db"
  "inspections (touch_credential i t db) = inspections db"
  by (simp_all add: touch_credential_def)

lemma batch_join_singleton:
  "batch_join i db = [(b, ord)] \<Longrightarrow> b \<in> set (stamp_batches db) \<and> b_id b = i \<and> ord \<in> set (orders db) \<and> b_order_id b = o_id ord"
proof -
  assume "batch_join i db = [(b, ord)]"
  then have "(b, ord) \<in> set (batch_join i db)" by simp
  then show ?thesis by (auto simp: batch_join_def)
qed

text \<open>What a document about an order or a batch may show: its own fields, and rows that belong to it.\<close>

definition shows_order :: "db \<Rightarrow> order \<Rightarrow> json_object \<Rightarrow> bool" where
  "shows_order db ord doc =
     (\<exists>as intent. set as = {a \<in> set (approvals db). ap_order_id a = o_id ord} \<and>
        set_option intent = {i \<in> set (payment_intents db). pi_order_id i = o_id ord} \<and>
        doc = order_document ord @ [(''approvals'', JList (map approval_document as)), (''payment'', opt_json payment_document intent)])"

definition shows_batch :: "db \<Rightarrow> stamp_batch \<Rightarrow> json_object \<Rightarrow> bool" where
  "shows_batch db b doc =
     (\<exists>insp. set_option insp = {x \<in> set (inspections db). insp_batch_id x = b_id b} \<and> doc = batch_document b insp)"

lemma scalar_one_or_none_set: "scalar_one_or_none (filter p xs) = Inr r \<Longrightarrow> set_option r = {x \<in> set xs. p x}"
proof -
  assume "scalar_one_or_none (filter p xs) = Inr r"
  then have "set_option r = set (filter p xs)" by (cases "filter p xs" rule: remdups_adj.cases) (auto split: if_splits)
  then show ?thesis by simp
qed

lemma shows_orderI:
  "scalar_one_or_none (filter (\<lambda>i. pi_order_id i = o_id ord) (payment_intents db)) = Inr intent \<Longrightarrow>
    shows_order db ord (order_document ord @ [(''approvals'', JList (map approval_document (filter (\<lambda>a. ap_order_id a = o_id ord) (approvals db)))),
      (''payment'', opt_json payment_document intent)])"
  unfolding shows_order_def by (intro exI conjI, rule set_filter, rule scalar_one_or_none_set, assumption, rule refl)

lemma shows_batchI:
  "scalar_one_or_none (filter (\<lambda>x. insp_batch_id x = b_id b) (inspections db)) = Inr insp \<Longrightarrow> shows_batch db b (batch_document b insp)"
  unfolding shows_batch_def by (intro exI conjI, rule scalar_one_or_none_set, assumption, rule refl)

section \<open>A sample service\<close>

text \<open>A service over the sample store whose decoder and parsers know one body each.\<close>

definition sample_verify :: verify_request where
  "sample_verify = \<lparr>yq_serial = ''NG-NOTHING'', yq_secure_code = ''ABCDEF'', yq_device_id = ''gate-7'', yq_nonce = ''nonce-01'',
     yq_latitude_e7 = None, yq_longitude_e7 = None\<rparr>"

definition sample_remittance :: remittance_request where
  "sample_remittance = \<lparr>mq_external_reference = ''BANK-1'', mq_payment_reference = ''PAY-2026-BBBB'', mq_amount_minor = 53750, mq_currency = ''NGN'',
     mq_value_date = Aware 0 0\<rparr>"

definition sample_body :: json_object where
  "sample_body = [(''amount'', JInt 53750)]"

definition sample_service :: "(string set \<times> (string \<Rightarrow> int)) service" where
  "sample_service =
     \<lparr>sv_api_token_secret = ''a'', sv_device_hmac_secret = ''s'', sv_payment_webhook_secret = ''s'', sv_audit_chain_secret = ''k'', sv_revision = ''r1'',
      sv_max_order_quantity = 1000, sv_idempotency_ttl_seconds = 3600, sv_signature_max_skew_seconds = 300, sv_nonce_ttl_seconds = 900,
      sv_rate_limit_window_seconds = 60, sv_rate_limit_default = 60, sv_rate_limit_verify = 60,
      sv_compliance = (\<lambda>_. \<lparr>pc_base_url = [], pc_post = (\<lambda>_ _. TransportError)\<rparr>), sv_redis = sample_redis,
      sv_loads = (\<lambda>_. Inr (Some (JObj sample_body))), sv_verify_request = (\<lambda>_. Some sample_verify),
      sv_remittance_request = (\<lambda>_. Some sample_remittance)\<rparr>"

definition sample_http :: http_request where
  "sample_http =
     \<lparr>hq_authorization = Some ''Bearer  t0ken '', hq_x_request_id = None, hq_idempotency_key = Some ''key-00000001'',
      hq_signature = (case sign_request sample_body (Aware 0 0) ''s'' of Inr x \<Rightarrow> x | Inl _ \<Rightarrow> []), hq_timestamp = ''0'', hq_fresh_id = ''r'', hq_suffix = ''AAAA'',
      hq_clock = (\<lambda>_. 0)\<rparr>"

lemma sample_fields [simp]:
  "sv_redis sample_service = sample_redis" "sv_audit_chain_secret sample_service = ''k''" "sv_revision sample_service = ''r1''"
  "sv_device_hmac_secret sample_service = ''s''" "sv_payment_webhook_secret sample_service = ''s''"
  "sv_verify_request sample_service = (\<lambda>_. Some sample_verify)" "sv_remittance_request sample_service = (\<lambda>_. Some sample_remittance)"
  "sv_nonce_ttl_seconds sample_service = 900" "sv_rate_limit_window_seconds sample_service = 60" "sv_rate_limit_verify sample_service = 60"
  "hq_clock sample_http = (\<lambda>_. 0)"
  by (simp_all add: sample_service_def sample_http_def)

lemma sample_signed: "signed_document sample_service sample_http (8 * 1024) ''s'' [] 0 = Inr sample_body"
  "signed_document sample_service sample_http (64 * 1024) ''s'' [] 0 = Inr sample_body"
proof -
  obtain p where p: "signing_payload sample_body (Aware 0 0) = Inr p"
    by (simp add: signing_payload_def canonical_bytes_def sample_body_def)
  have t: "header_timestamp ''0'' = Inr (Aware 0 0)" by code_simp
  have "verify_signed_request \<lparr>sr_body = sample_body, sr_signature = hq_signature sample_http, sr_timestamp = Aware 0 0\<rparr> ''s'' 0 300 = Inr ()"
    unfolding verify_signed_request_iff using p
    by (auto simp: sample_http_def sign_request_def SECOND_def)
  with t show "signed_document sample_service sample_http (8 * 1024) ''s'' [] 0 = Inr sample_body"
    "signed_document sample_service sample_http (64 * 1024) ''s'' [] 0 = Inr sample_body"
    by (simp_all add: signed_document_ok) (simp_all add: sample_service_def sample_http_def)
qed

definition gate_actor :: "role \<Rightarrow> actor" where
  "gate_actor rl = \<lparr>ac_principal_id = 1, ac_subject = ''gate-7'', ac_role = rl, ac_company_id = (if rl = REQUESTER then Some 1 else None), ac_request_id = Some ''r''\<rparr>"

lemma sample_authenticated:
  "authenticate (sv_api_token_secret sample_service) (hq_authorization sample_http)
      (Access.request_id (hq_x_request_id sample_http) (hq_fresh_id sample_http)) (hq_clock sample_http 0) (access_db rl)
    = Inr (\<lparr>au_actor = gate_actor rl, au_credential_id = 2\<rparr>, touch_credential 2 0 (access_db rl))"
proof -
  have "admits ''a'' ''t0ken'' 0 (access_db rl) gate_credential (gate_principal rl)"
    by (simp add: admits_def access_db_def gate_credential_def gate_principal_def expired_def)
  from authenticate_admits [OF access_db_wf sample_bearer this, of "''r''"] show ?thesis
    by (simp add: sample_service_def sample_http_def Access.request_id_def gate_principal_def gate_credential_def gate_actor_def)
qed

lemmas sample_current = serve_current [OF sample_authenticated, simplified]

lemma sample_audit_chain:
  obtains doc where "serve sample_service sample_http Audit_chain (access_db AUDITOR, r) = (Document 200 doc, touch_credential 2 0 (access_db AUDITOR), r)"
proof -
  have "verify_audit_chain ''k'' (touch_credential 2 0 (access_db AUDITOR)) = Inr (INTACT 0)"
    by (simp add: verify_audit_chain_def touch_credential_def access_db_def empty_db_def INTACT_def)
  then show thesis
    by (intro that) (simp add: serve_def audit_chain_def sample_current gate_actor_def, simp add: bind_st_def of_res_def reading_def require_role_def)
qed

lemma sample_forbidden:
  "serve sample_service sample_http Reconcile (access_db DEVICE, r) = (Error 403 ''forbidden'', touch_credential 2 0 (access_db DEVICE), r)"
  by (simp add: serve_def reconcile_def sample_current) (simp add: bind_st_def of_res_def require_role_def error_response_def gate_actor_def)

lemma sample_verifies_once:
  obtains doc db1 r1 where "serve sample_service sample_http (Verify []) (access_db DEVICE, ({}, \<lambda>_. 0)) = (Document 200 doc, db1, r1)"
proof -
  let ?db = "touch_credential 2 0 (access_db DEVICE)"
  have "\<exists>v d. insert_verification (new_verification (gate_actor DEVICE) None (verification_of sample_verify) V_UNKNOWN_SERIAL 0) ?db = Inr (v, d) \<and> audit_events d = []"
    by (simp add: gate_actor_def insert_verification_def insert_row_def Let_def verification_types_def verification_checks_def new_verification_def touch_credential_def access_db_def
        verification_of_def sample_verify_def varchar_def unused_def foreign_key_def opt_col_def gate_principal_def empty_db_def)
  then obtain v d where v: "insert_verification (new_verification (gate_actor DEVICE) None (verification_of sample_verify) V_UNKNOWN_SERIAL 0) ?db = Inr (v, d)"
    "audit_events d = []" by blast
  have "audit_fits (audit_actor_of (gate_actor DEVICE)) (verify_record (verification_of sample_verify) V_UNKNOWN_SERIAL (gate_actor DEVICE)) ''r1''"
    by (simp add: gate_actor_def audit_fits_def audit_actor_of_def verify_record_def verification_of_def sample_verify_def varchar_def opt_col_def json_obj_opt_def)
  with record_audit_event_first [OF v(2)] obtain e d' where au: "record_audit_event (audit_actor_of (gate_actor DEVICE))
      (verify_record (verification_of sample_verify) V_UNKNOWN_SERIAL (gate_actor DEVICE)) 0 ''k'' ''r1'' d = Inr (e, d')" by blast
  have "\<not> is_valid_serial (vq_serial (verification_of sample_verify))" by code_simp
  with v(1) au obtain res where ver: "verify (gate_actor DEVICE) (verification_of sample_verify) 0 ''s'' ''k'' ''r1'' ?db = Inr (res, d')"
    by (simp add: verify_def del: bind_res_eq_Inr)
  have "\<exists>r2. claim_nonce sample_redis 900 ''gate-7'' ''nonce-01'' r1 = (Inr True, r2)" if "fst r1 = {}" for r1
    using that by (cases r1) (simp add: claim_nonce_def sample_redis_def)
  moreover have "\<exists>r1. enforce sample_redis 60 (uuid_str 1) ''verify'' 60 ({}, \<lambda>_. 0) = (Inr (), r1) \<and> fst r1 = {}"
    by (simp add: enforce_def check_rate_def sample_redis_def)
  ultimately obtain r1 r2 where "enforce sample_redis 60 (uuid_str 1) ''verify'' 60 ({}, \<lambda>_. 0) = (Inr (), r1)"
    "claim_nonce sample_redis 900 ''gate-7'' ''nonce-01'' r1 = (Inr True, r2)" by blast
  moreover have "ac_principal_id (gate_actor DEVICE) = 1" "ac_role (gate_actor DEVICE) = DEVICE" "ac_subject (gate_actor DEVICE) = ''gate-7''"
    "yq_device_id sample_verify = ''gate-7''" "yq_nonce sample_verify = ''nonce-01''" by (simp_all add: gate_actor_def sample_verify_def)
  ultimately have "verify_route sample_service sample_http [] (access_db DEVICE, ({}, \<lambda>_. 0)) = (Inr (200, verification_document res), d', r2)"
    using ver sample_signed(1) unfolding verify_route_def sample_current
    by (simp add: bind_st_def of_res_def require_role_def rate_limit_def claim_replay_def on_redis_def validated_def require_subject_def in_transaction_def)
  then show thesis by (intro that) (simp add: serve_Document)
qed

section \<open>Properties\<close>

text \<open>
  Requests refine the platform.  Whatever a request is and however it ends, the database it leaves is one that operations
  of the platform lead to: what is proved of every reachable state holds of a platform that serves requests.
\<close>

theorem requests_are_steps:
  assumes "configured_alike sv rt" and "serve sv hq q (db, r) = (resp, db', r')"
  shows "(step rt)\<^sup>*\<^sup>* (db, w) (db', w)"
  using serve_reaches [OF assms] .

theorem requests_are_steps_witness:
  "(step quiet_runtime)\<^sup>*\<^sup>* (access_db AUDITOR, ()) (touch_credential 2 0 (access_db AUDITOR), ())"
proof -
  have "configured_alike sample_service quiet_runtime" by (simp add: configured_alike_def quiet_runtime_def)
  moreover obtain doc where "serve sample_service sample_http Audit_chain (access_db AUDITOR, ({}, \<lambda>_. 0)) =
      (Document 200 doc, touch_credential 2 0 (access_db AUDITOR), ({}, \<lambda>_. 0))" using sample_audit_chain .
  ultimately show ?thesis by (rule requests_are_steps)
qed

text \<open>
  C7. Failed requests.  A request that is answered with an error, wherever it failed, has changed nothing in the database but
  the time at which the credential it was admitted with was last used, and nothing in Redis but a counter of the principal of that
  credential and the claim of one nonce of that principal.  A remittance, which needs no credential, leaves the database as
  it is, and in Redis at most the claim of its own body.
\<close>

theorem failed_requests_change_nothing:
  assumes "serve sv hq q (db, r) = (Error status code, db', r')"
  shows "400 \<le> status \<and>
    (db' = db \<and> r' = r \<or>
     (\<exists>token c p. parse_bearer (hq_authorization hq) = Inr token \<and> admits (sv_api_token_secret sv) token (hq_clock hq 0) db c p \<and>
        db' = touch_credential (cr_id c) (hq_clock hq 0) db \<and>
        (r' = r \<or> (\<exists>r1. marks_count sv (pr_id p) r r1 \<and> (r' = r1 \<or> marks_nonce sv (pr_subject p) r1 r')))) \<or>
     (\<exists>raw. q = Ingest_remittance raw \<and> db' = db \<and>
        r' = snd (rd_set_nx (sv_redis sv) (replay_key ''payments'' (sha256_hex raw)) ''1'' (sv_nonce_ttl_seconds sv) r)))"
proof -
  obtain e where e: "route sv hq q (db, r) = (Inl e, db', r')" "error_response e = (status, code)" using serve_Error [OF assms] by blast
  have "400 \<le> status" using error_response_status [of e] e(2) by simp
  moreover note route_fails [OF e(1), unfolded request_from_def gated_def]
  ultimately show ?thesis by blast
qed

theorem failed_requests_change_nothing_witness:
  "\<exists>db'. serve sample_service sample_http Reconcile (access_db DEVICE, ({}, \<lambda>_. 0)) = (Error 403 ''forbidden'', db', ({}, \<lambda>_. 0)) \<and>
    (db' = access_db DEVICE \<or> (\<exists>i. db' = touch_credential i 0 (access_db DEVICE)))"
proof -
  let ?r = "({}, \<lambda>_. 0) :: string set \<times> (string \<Rightarrow> int)"
  note f = sample_forbidden [of ?r]
  from failed_requests_change_nothing [OF f] f show ?thesis by auto
qed

text \<open>
  C6. Documents need authority.  A document of a business route goes to the bearer of a token that is the one of a valid
  credential of an active principal.  The principal has a role for which the request is meant, or the document is the one that
  was computed for this principal before under the same idempotency key and nothing changes.  The one route without
  credentials is the ingestion of remittances: it answers with a document only to a body of at most 64 kB that carries the
  HMAC of its canonical form under the secret of the payment system, with a timestamp within the permitted skew.
\<close>

theorem documents_are_authorised:
  assumes "serve sv hq q (db, r) = (Document status doc, db', r')"
  shows "case q of
      Ingest_remittance raw \<Rightarrow> length raw \<le> 64 * 1024 \<and>
        (\<exists>body t at p. sv_loads sv raw = Inr (Some (JObj body)) \<and> header_timestamp (hq_timestamp hq) = Inr t \<and> ensure_utc t = Inr at \<and>
           signing_payload body t = Inr p \<and> hq_signature hq = hmac_hexdigest (sv_payment_webhook_secret sv) p \<and>
           at - sv_signature_max_skew_seconds sv * SECOND \<le> hq_clock hq 0 \<and> hq_clock hq 0 \<le> at + sv_signature_max_skew_seconds sv * SECOND)
    | _ \<Rightarrow> \<exists>token c p. parse_bearer (hq_authorization hq) = Inr token \<and> admits (sv_api_token_secret sv) token (hq_clock hq 0) db c p \<and>
        (pr_role p \<in> permitted q \<or> db' = touch_credential (cr_id c) (hq_clock hq 0) db \<and> stored_response (pr_id p) status doc db)"
proof -
  have rt: "route sv hq q (db, r) = (Inr (status, doc), db', r')" using assms by (simp add: serve_Document)
  show ?thesis
  proof (cases "\<exists>raw. q = Ingest_remittance raw")
    case True
    then obtain raw body where q: "q = Ingest_remittance raw"
      and "signed_document sv hq (64 * 1024) (sv_payment_webhook_secret sv) raw (hq_clock hq 0) = Inr body"
      using rt by (auto simp: ingest_remittance_route_def bind_st_ok of_res_ok)
    then show ?thesis by (auto simp: signed_document_ok verify_signed_request_iff)
  next
    case False
    then have "answered sv hq db (permitted q) status doc db'"
      using route_answered [of sv hq q "(db, r)" status doc "(db', r')"] rt by simp
    then obtain token c p where "parse_bearer (hq_authorization hq) = Inr token" "admits (sv_api_token_secret sv) token (hq_clock hq 0) db c p"
      "pr_role p \<in> permitted q \<or> db' = touch_credential (cr_id c) (hq_clock hq 0) db \<and>
        stored_response (pr_id p) status doc (touch_credential (cr_id c) (hq_clock hq 0) db)"
      unfolding answered_def request_from_def by blast
    moreover have "stored_response i status doc (touch_credential j t db) = stored_response i status doc db" for i j t
      by (simp add: stored_response_def touch_credential_def)
    ultimately have "\<exists>token c p. parse_bearer (hq_authorization hq) = Inr token \<and> admits (sv_api_token_secret sv) token (hq_clock hq 0) db c p \<and>
        (pr_role p \<in> permitted q \<or> db' = touch_credential (cr_id c) (hq_clock hq 0) db \<and> stored_response (pr_id p) status doc db)" by blast
    with False show ?thesis by (cases q) simp_all
  qed
qed

theorem documents_are_authorised_witness:
  "\<exists>doc db' r' token c p. serve sample_service sample_http Audit_chain (access_db AUDITOR, ({}, \<lambda>_. 0)) = (Document 200 doc, db', r') \<and>
    parse_bearer (hq_authorization sample_http) = Inr token \<and> admits (sv_api_token_secret sample_service) token 0 (access_db AUDITOR) c p"
proof -
  obtain doc where d: "serve sample_service sample_http Audit_chain (access_db AUDITOR, ({}, \<lambda>_. 0)) =
      (Document 200 doc, touch_credential 2 0 (access_db AUDITOR), ({}, \<lambda>_. 0))" using sample_audit_chain .
  from documents_are_authorised [OF d] d show ?thesis by fastforce
qed

text \<open>
  C20. A nonce is good for one verification.  Once a field verification was answered with a document, no request that names the same
  device and nonce is, as long as Redis holds the key: it is refused with an error and changes nothing but the last use of a
  credential.
\<close>

theorem nonce_verifies_once:
  assumes "key_store (sv_redis sv) held" and "serve sv hq (Verify raw) (db, r) = (Document status doc, db1, r1)"
    and "\<forall>k. held k r1 \<longrightarrow> held k r2" and "nonce_of sv raw' = nonce_of sv raw" and "serve sv hq' (Verify raw') (db2, r2) = (resp, db3, r3)"
  shows "\<exists>status' code. resp = Error status' code \<and> 400 \<le> status' \<and> (db3 = db2 \<or> (\<exists>i. db3 = touch_credential i (hq_clock hq' 0) db2))"
proof -
  obtain d n where n: "nonce_of sv raw = Some (d, n)" "held (replay_key d n) r1"
    using verify_route_nonce [OF assms(1)] assms(2) by (metis route.simps(12) serve_Document)
  have "\<nexists>st d'. resp = Document st d'"
  proof
    assume "\<exists>st d'. resp = Document st d'"
    then obtain st d' where "verify_route sv hq' raw' (db2, r2) = (Inr (st, d'), db3, r3)" using assms(5) by (auto simp: serve_Document)
    from verify_route_nonce [OF assms(1) this] n assms(3,4) show False by (metis option.inject prod.inject)
  qed
  then obtain st code where "resp = Error st code" by (cases resp) auto
  moreover from this have "400 \<le> st" using serve_Error [of sv hq' "Verify raw'" "(db2, r2)" st code] error_response_status assms(5) by (metis fst_conv)
  ultimately show ?thesis using serve_fails_clean [of sv hq' "Verify raw'" db2 r2 st code db3 r3] assms(5) by blast
qed

theorem nonce_verifies_once_witness:
  "\<exists>doc db1 r1 db3 r3 status code. serve sample_service sample_http (Verify []) (access_db DEVICE, ({}, \<lambda>_. 0)) = (Document 200 doc, db1, r1) \<and>
    serve sample_service sample_http (Verify []) (db1, r1) = (Error status code, db3, r3)"
proof -
  obtain doc db1 r1 where d: "serve sample_service sample_http (Verify []) (access_db DEVICE, ({}, \<lambda>_. 0)) = (Document 200 doc, db1, r1)"
    using sample_verifies_once .
  obtain resp db3 r3 where again: "serve sample_service sample_http (Verify []) (db1, r1) = (resp, db3, r3)" using prod_cases3 by blast
  have "key_store (sv_redis sample_service) (\<lambda>k r. k \<in> fst r)" by (simp add: sample_key_store)
  from nonce_verifies_once [OF this d, of r1 "[]" sample_http db1 resp db3 r3] again d show ?thesis by blast
qed

text \<open>
  C19. Tenant isolation.  The document a requester gets for an order, a stamp or a batch is about the one that was asked for,
  which belongs to the company of the requester: it shows the fields of that order with its own approvals and payment, the
  fields of that stamp, or the fields of that batch with its own inspection.  A page of orders shows at most two hundred
  orders, all of them of that company.
\<close>

theorem requesters_see_their_company:
  assumes "authenticate (sv_api_token_secret sv) (hq_authorization hq) (Access.request_id (hq_x_request_id hq) (hq_fresh_id hq)) (hq_clock hq 0) db = Inr (cur, db1)"
    and "ac_role (au_actor cur) = REQUESTER" and "serve sv hq q (db, r) = (Document status doc, db', r')"
  shows "case q of
      Get_order i \<Rightarrow> \<exists>ord \<in> set (orders db). o_id ord = i \<and> ac_company_id (au_actor cur) = Some (o_company_id ord) \<and> shows_order db ord doc
    | List_orders l k \<Rightarrow> \<exists>rows. doc = [(''orders'', JList (map (\<lambda>x. JObj (order_document x)) rows)), (''limit'', JInt (max 1 (min l 200)))] \<and>
        length rows \<le> 200 \<and> (\<forall>x \<in> set rows. x \<in> set (orders db) \<and> ac_company_id (au_actor cur) = Some (o_company_id x))
    | Get_stamp serial \<Rightarrow> \<exists>x \<in> set (stamps db). s_serial x = serial \<and> ac_company_id (au_actor cur) = Some (s_company_id x) \<and> doc = stamp_document x
    | Get_batch i \<Rightarrow> \<exists>b \<in> set (stamp_batches db). \<exists>ord \<in> set (orders db). b_id b = i \<and> b_order_id b = o_id ord \<and>
        ac_company_id (au_actor cur) = Some (o_company_id ord) \<and> shows_batch db b doc
    | _ \<Rightarrow> True"
proof -
  obtain i where db1: "db1 = touch_credential i (hq_clock hq 0) db" using authenticate_ok [OF assms(1)] by metis
  note tables = touched_tables [of i "hq_clock hq 0" db, folded db1]
  note start = serve_current [OF assms(1)]
  have rt: "route sv hq q (db, r) = (Inr (status, doc), db', r')" using assms(3) by (simp add: serve_Document)
  show ?thesis
  proof (cases q)
    case (Get_order i)
    with rt assms(2) obtain ord intent where "get_row o_id (orders db) i = Some ord" "require_company (au_actor cur) (o_company_id ord) = Inr ()"
      "scalar_one_or_none (filter (\<lambda>i. pi_order_id i = o_id ord) (payment_intents db)) = Inr intent"
      "doc = order_document ord @ [(''approvals'', JList (map approval_document (filter (\<lambda>a. ap_order_id a = o_id ord) (approvals db)))),
         (''payment'', opt_json payment_document intent)]"
      by (auto simp: get_order_def start reading_ok tables split: option.splits)
    with Get_order assms(2) shows_orderI [of ord db intent] show ?thesis by (auto dest!: get_row_Some)
  next
    case (List_orders l k)
    with rt assms(2) show ?thesis
      by (auto simp: list_orders_def start reading_ok tables Let_def split: option.splits if_splits dest!: in_set_takeD in_set_dropD
          intro!: exI [of _ "take _ (drop _ (filter _ (sort_key _ (orders db))))"])
  next
    case (Get_stamp serial)
    with rt assms(2) show ?thesis
      by (auto simp: get_stamp_route_def get_stamp_def start reading_ok tables split: option.splits dest!: filter_eq_singletonD)
  next
    case (Get_batch i)
    with rt assms(2) obtain b ord insp where "batch_join i db1 = [(b, ord)]" "require_company (au_actor cur) (o_company_id ord) = Inr ()"
      "scalar_one_or_none (filter (\<lambda>x. insp_batch_id x = b_id b) (inspections db)) = Inr insp" "doc = batch_document b insp"
      by (auto simp: get_batch_def start bind_st_ok of_res_ok reading_ok tables split: option.splits)
    with Get_batch assms(2) shows_batchI [of b db insp] show ?thesis
      by (auto simp: tables dest!: batch_join_singleton intro!: bexI [of _ b] bexI [of _ ord])
  qed simp_all
qed

theorem requesters_see_their_company_witness:
  "\<exists>doc db' r'. serve sample_service sample_http (Get_order 5) (access_db REQUESTER, ({}, \<lambda>_. 0)) = (Document 200 doc, db', r') \<and>
    (\<exists>ord \<in> set (orders (access_db REQUESTER)). o_id ord = 5 \<and> o_company_id ord = 1 \<and> shows_order (access_db REQUESTER) ord doc)"
proof -
  have "\<exists>doc db' r'. serve sample_service sample_http (Get_order 5) (access_db REQUESTER, ({}, \<lambda>_. 0)) = (Document 200 doc, db', r')"
    by (simp add: serve_def get_order_def sample_current)
      (simp add: gate_actor_def reading_def get_row_def touch_credential_def access_db_def sample_order_def require_company_def empty_db_def)
  then obtain doc db' r' where d: "serve sample_service sample_http (Get_order 5) (access_db REQUESTER, ({}, \<lambda>_. 0)) = (Document 200 doc, db', r')" by blast
  from requesters_see_their_company [OF sample_authenticated _ d] d show ?thesis by (auto simp: gate_actor_def)
qed

text \<open>
  C30. The replay guard claims a remittance before it is ingested.  When the ingestion then fails and is rolled back, the delivery is
  answered with an error; but the payment system's retry of the same body finds the claim taken, is answered with success as a
  duplicate delivery, and nothing is recorded, however the state of the database has changed in the meantime.
\<close>

theorem failed_remittance_retry_acknowledged:
  assumes "key_store (sv_redis sv) held"
    and "signed_document sv hq (64 * 1024) (sv_payment_webhook_secret sv) raw (hq_clock hq 0) = Inr body" and "sv_remittance_request sv body = Some m"
    and "rd_set_nx (sv_redis sv) (replay_key ''payments'' (sha256_hex raw)) ''1'' (sv_nonce_ttl_seconds sv) r = (Some True, r1)"
    and "ingest_remittance \<lparr>ra_external_reference = mq_external_reference m, ra_declared_reference = mq_payment_reference m,
       ra_amount_minor = mq_amount_minor m, ra_currency = mq_currency m, ra_value_date = mq_value_date m, ra_raw = body\<rparr>
       (hq_clock hq 1) (sv_audit_chain_secret sv) (sv_revision sv) db = Inl e"
    and "\<forall>k. held k r1 \<longrightarrow> held k r2"
    and "signed_document sv hq' (64 * 1024) (sv_payment_webhook_secret sv) raw (hq_clock hq' 0) = Inr body"
    and "rd_set_nx (sv_redis sv) (replay_key ''payments'' (sha256_hex raw)) ''1'' (sv_nonce_ttl_seconds sv) r2 = (Some c, r3)"
  shows "(\<exists>status code. serve sv hq (Ingest_remittance raw) (db, r) = (Error status code, db, r1) \<and> 400 \<le> status) \<and>
    serve sv hq' (Ingest_remittance raw) (db2, r2) =
      (Document 202 [(''status'', JStr ''duplicate_delivery''), (''external_reference'', JStr (mq_external_reference m))], db2, r3)"
proof
  have "route sv hq (Ingest_remittance raw) (db, r) = (Inl e, db, r1)"
    using assms(2-5) by (simp add: ingest_remittance_route_def bind_st_def of_res_def validated_def claim_replay_def on_redis_def claim_nonce_def in_transaction_def)
  then have "serve sv hq (Ingest_remittance raw) (db, r) = (Error (fst (error_response e)) (snd (error_response e)), db, r1)"
    by (simp add: serve_def case_prod_beta)
  then show "\<exists>status code. serve sv hq (Ingest_remittance raw) (db, r) = (Error status code, db, r1) \<and> 400 \<le> status"
    using error_response_status by blast
  have "held (replay_key ''payments'' (sha256_hex raw)) r2" using key_storeD [OF assms(1,4)] assms(6) by blast
  then have "\<not> c" using key_storeD [OF assms(1,8)] by simp
  then show "serve sv hq' (Ingest_remittance raw) (db2, r2) =
      (Document 202 [(''status'', JStr ''duplicate_delivery''), (''external_reference'', JStr (mq_external_reference m))], db2, r3)"
    using assms(3,7,8) by (simp add: serve_def ingest_remittance_route_def bind_st_def of_res_def validated_def claim_replay_def on_redis_def claim_nonce_def)
qed

theorem failed_remittance_retry_acknowledged_witness:
  "\<exists>doc. serve sample_service sample_http (Ingest_remittance []) (sample_db (to_payment @ [O_CANCELLED]) 3750, ({replay_key ''payments'' (sha256_hex [])}, \<lambda>_. 0)) =
    (Document 202 doc, sample_db (to_payment @ [O_CANCELLED]) 3750, ({replay_key ''payments'' (sha256_hex [])}, \<lambda>_. 0)) \<and>
    (''status'', JStr ''duplicate_delivery'') \<in> set doc"
proof -
  let ?key = "replay_key ''payments'' (sha256_hex [])" and ?db = "sample_db (to_payment @ [O_CANCELLED]) 3750"
  have ks: "key_store (sv_redis sample_service) (\<lambda>k r. k \<in> fst r)" by (simp add: sample_key_store)
  have sd: "signed_document sample_service sample_http (64 * 1024) (sv_payment_webhook_secret sample_service) [] (hq_clock sample_http 0) = Inr sample_body"
    using sample_signed(2) by (simp only: sample_fields)
  have c: "rd_set_nx (sv_redis sample_service) ?key ''1'' (sv_nonce_ttl_seconds sample_service) ({}, \<lambda>_. 0) = (Some True, {?key}, \<lambda>_. 0)"
    "rd_set_nx (sv_redis sample_service) ?key ''1'' (sv_nonce_ttl_seconds sample_service) ({?key}, \<lambda>_. 0) = (Some False, {?key}, \<lambda>_. 0)"
    by (simp_all add: sample_redis_def)
  obtain e where ing: "ingest_remittance \<lparr>ra_external_reference = mq_external_reference sample_remittance, ra_declared_reference = mq_payment_reference sample_remittance,
       ra_amount_minor = mq_amount_minor sample_remittance, ra_currency = mq_currency sample_remittance, ra_value_date = mq_value_date sample_remittance, ra_raw = sample_body\<rparr>
       (hq_clock sample_http 1) (sv_audit_chain_secret sample_service) (sv_revision sample_service) ?db = Inl e"
    using sample_cancelled_ingest [of "''k''" "''r1''"] by (auto simp: sample_remittance_def sample_body_def sample_advice_def)
  have p: "sv_remittance_request sample_service sample_body = Some sample_remittance" by simp
  from failed_remittance_retry_acknowledged [OF ks sd p c(1) ing _ sd c(2)] show ?thesis by auto
qed

end
