(* ===== verification/Networks.thy ===== *)
theory Networks
  imports Api_System
begin

text \<open>
  What \<^verbatim>\<open>config.py\<close> and \<^verbatim>\<open>api/middleware.py\<close> use of the module \<^verbatim>\<open>ipaddress\<close>: addresses and networks of both versions as they are
  parsed from strings, and membership.  An address is its version and its number; every refusal is a \<^verbatim>\<open>ValueError\<close>.
\<close>

section \<open>Strings\<close>

text \<open>\<^verbatim>\<open>s.split(c)\<close> for one character.\<close>

fun split_char :: "char \<Rightarrow> string \<Rightarrow> string list" where
  "split_char c [] = [[]]"
| "split_char c (x # xs) =
     (if x = c then [] # split_char c xs else (case split_char c xs of p # ps \<Rightarrow> (x # p) # ps | [] \<Rightarrow> [[x]]))"

lemma split_char_nonempty [simp]: "split_char c s \<noteq> []"
  by (induction s) (auto split: list.splits)

fun map_opt :: "('a \<Rightarrow> 'b option) \<Rightarrow> 'a list \<Rightarrow> 'b list option" where
  "map_opt f [] = Some []"
| "map_opt f (x # xs) = (case (f x, map_opt f xs) of (Some y, Some ys) \<Rightarrow> Some (y # ys) | _ \<Rightarrow> None)"

section \<open>Addresses\<close>

datatype ip = V4 int | V6 int

definition parse_octet :: "string \<Rightarrow> int option" where
  "parse_octet s =
     (if s = [] \<or> \<not> list_all is_digit s \<or> length s > 3 \<or> (s \<noteq> ''0'' \<and> hd s = CHR ''0'') \<or> str_nat s > 255 then None else Some (int (str_nat s)))"

definition ipv4_int :: "string \<Rightarrow> int option" where
  "ipv4_int s =
     (case map_opt parse_octet (split_char (CHR ''.'') s) of
        Some [a, b, c, d] \<Rightarrow> Some (((a * 256 + b) * 256 + c) * 256 + d)
      | _ \<Rightarrow> None)"

definition parse_hextet :: "string \<Rightarrow> int option" where
  "parse_hextet s = (if s = [] \<or> length s > 4 then None else map_option (foldl (\<lambda>a d. 16 * a + int d) 0) (map_opt hex_val s))"

text \<open>The parts between colons, a trailing IPv4 address read as two of them.\<close>

definition ipv6_parts :: "string \<Rightarrow> int option list option" where
  "ipv6_parts s =
     (let parts = split_char (CHR '':'') s;
          field = (\<lambda>p. if p = [] then Some None else map_option Some (parse_hextet p)) in
      if length parts < 3 then None
      else if CHR ''.'' \<in> set (last parts)
      then (case (ipv4_int (last parts), map_opt field (butlast parts)) of
              (Some n, Some ps) \<Rightarrow> Some (ps @ [Some (n div 65536), Some (n mod 65536)])
            | _ \<Rightarrow> None)
      else map_opt field parts)"

definition hextets :: "int option list \<Rightarrow> int" where
  "hextets ps = foldl (\<lambda>a p. a * 65536 + (case p of None \<Rightarrow> 0 | Some n \<Rightarrow> n)) 0 ps"

definition ipv6_int :: "string \<Rightarrow> int option" where
  "ipv6_int s =
     (case ipv6_parts s of
        None \<Rightarrow> None
      | Some parts \<Rightarrow>
          if length parts > 9 then None else
          case filter (\<lambda>i. parts ! i = None) [1 ..< length parts - 1] of
            [] \<Rightarrow> if length parts \<noteq> 8 \<or> hd parts = None \<or> last parts = None then None else Some (hextets parts)
          | [i] \<Rightarrow>
              (let hi = (if hd parts = None then i - 1 else i);
                   lo = (if last parts = None then length parts - i - 2 else length parts - i - 1) in
               if (hd parts = None \<and> hi \<noteq> 0) \<or> (last parts = None \<and> lo \<noteq> 0) \<or> 8 \<le> hi + lo then None
               else Some (hextets (take hi parts) * 65536 ^ (8 - hi) + hextets (drop (length parts - lo) parts)))
          | _ \<Rightarrow> None)"

text \<open>The scope of an IPv6 address is not part of its number.\<close>

definition split_scope_id :: "string \<Rightarrow> string option" where
  "split_scope_id s =
     (case split_char (CHR ''%'') s of [a] \<Rightarrow> Some a | [a, scope] \<Rightarrow> (if scope = [] then None else Some a) | _ \<Rightarrow> None)"

definition ipv4_address :: "string \<Rightarrow> int option" where
  "ipv4_address s = (if CHR ''/'' \<in> set s then None else ipv4_int s)"

definition ipv6_address :: "string \<Rightarrow> int option" where
  "ipv6_address s = (if CHR ''/'' \<in> set s then None else case split_scope_id s of None \<Rightarrow> None | Some a \<Rightarrow> ipv6_int a)"

definition ip_address :: "string \<Rightarrow> ip res" where
  "ip_address s =
     (case ipv4_address s of
        Some n \<Rightarrow> Inr (V4 n)
      | None \<Rightarrow> (case ipv6_address s of Some n \<Rightarrow> Inr (V6 n) | None \<Rightarrow> Inl ValueError))"

section \<open>Networks\<close>

record network =
  nw_v6 :: bool
  nw_address :: int
  nw_prefixlen :: nat

definition max_prefixlen :: "bool \<Rightarrow> nat" where
  "max_prefixlen v6 = (if v6 then 128 else 32)"

definition prefix_from_prefix_string :: "nat \<Rightarrow> string \<Rightarrow> nat option" where
  "prefix_from_prefix_string width s = (if s = [] \<or> \<not> list_all is_digit s \<or> str_nat s > width then None else Some (str_nat s))"

fun trailing_zeros :: "nat \<Rightarrow> int \<Rightarrow> nat" where
  "trailing_zeros 0 n = 0"
| "trailing_zeros (Suc k) n = (if n mod 2 = 1 then 0 else Suc (trailing_zeros k (n div 2)))"

definition prefix_from_ip_int :: "int \<Rightarrow> nat option" where
  "prefix_from_ip_int n =
     (let tz = trailing_zeros 32 n in if n div 2 ^ tz = 2 ^ (32 - tz) - 1 then Some (32 - tz) else None)"

text \<open>A dotted mask is read as a netmask or else as a hostmask.\<close>

definition prefix_from_ip_string :: "string \<Rightarrow> nat option" where
  "prefix_from_ip_string s =
     (case ipv4_int s of
        None \<Rightarrow> None
      | Some n \<Rightarrow> (case prefix_from_ip_int n of Some p \<Rightarrow> Some p | None \<Rightarrow> prefix_from_ip_int (2 ^ 32 - 1 - n)))"

definition make_netmask :: "bool \<Rightarrow> string \<Rightarrow> nat option" where
  "make_netmask v6 s =
     (case prefix_from_prefix_string (max_prefixlen v6) s of
        Some p \<Rightarrow> Some p
      | None \<Rightarrow> if v6 then None else prefix_from_ip_string s)"

text \<open>\<^verbatim>\<open>packed & netmask\<close>\<close>

definition masked :: "nat \<Rightarrow> nat \<Rightarrow> int \<Rightarrow> int" where
  "masked width p n = n - n mod 2 ^ (width - p)"

definition parse_cidr :: "bool \<Rightarrow> string \<Rightarrow> (int \<times> nat) option" where
  "parse_cidr v6 s =
     (let address = (if v6 then ipv6_address else ipv4_address) in
      case split_char (CHR ''/'') s of
        [a] \<Rightarrow> map_option (\<lambda>n. (n, max_prefixlen v6)) (address a)
      | [a, m] \<Rightarrow> (case (address a, make_netmask v6 m) of (Some n, Some p) \<Rightarrow> Some (n, p) | _ \<Rightarrow> None)
      | _ \<Rightarrow> None)"

definition network_of :: "bool \<Rightarrow> bool \<Rightarrow> int \<times> nat \<Rightarrow> network res" where
  "network_of strict v6 = (\<lambda>(n, p).
     let net = masked (max_prefixlen v6) p n in
     if strict \<and> net \<noteq> n then Inl ValueError else Inr \<lparr>nw_v6 = v6, nw_address = net, nw_prefixlen = p\<rparr>)"

definition ip_network :: "bool \<Rightarrow> string \<Rightarrow> network res" where
  "ip_network strict s =
     (case parse_cidr False s of
        Some np \<Rightarrow> network_of strict False np
      | None \<Rightarrow> (case parse_cidr True s of Some np \<Rightarrow> network_of strict True np | None \<Rightarrow> Inl ValueError))"

text \<open>\<^verbatim>\<open>address in network\<close>\<close>

definition in_network :: "ip \<Rightarrow> network \<Rightarrow> bool" where
  "in_network a net =
     (case a of
        V4 n \<Rightarrow> \<not> nw_v6 net \<and> masked 32 (nw_prefixlen net) n = nw_address net
      | V6 n \<Rightarrow> nw_v6 net \<and> masked 128 (nw_prefixlen net) n = nw_address net)"

section \<open>Lemmas\<close>

lemma ip_examples:
  "ip_address ''192.168.1.255'' = Inr (V4 3232236031)" "ip_address ''::1'' = Inr (V6 1)" "ip_address ''1::'' = Inr (V6 (2 ^ 112))"
  "ip_address ''fe80::1%eth0'' = Inr (V6 (65152 * 2 ^ 112 + 1))" "ip_address ''::ffff:10.0.0.1'' = Inr (V6 281470849515521)"
  "ip_address ''01.2.3.4'' = Inl ValueError" "ip_address '':::'' = Inl ValueError" "ip_address ''1:2:3:4:5:6:7:8:9'' = Inl ValueError"
  by code_simp+

lemma cidr_examples:
  "ip_network True ''10.0.0.0/8'' = Inr \<lparr>nw_v6 = False, nw_address = 167772160, nw_prefixlen = 8\<rparr>"
  "ip_network True ''10.0.0.0/255.0.0.0'' = Inr \<lparr>nw_v6 = False, nw_address = 167772160, nw_prefixlen = 8\<rparr>"
  "ip_network True ''10.0.0.0/0.255.255.255'' = Inr \<lparr>nw_v6 = False, nw_address = 167772160, nw_prefixlen = 8\<rparr>"
  "ip_network True ''2001:db8::/32'' = Inr \<lparr>nw_v6 = True, nw_address = 8193 * 2 ^ 112 + 3512 * 2 ^ 96, nw_prefixlen = 32\<rparr>"
  "ip_network True ''10.0.0.1/8'' = Inl ValueError" "ip_network False ''10.0.0.1/8'' = ip_network True ''10.0.0.0/8''"
  by code_simp+

end
