(* ===== verification/Config.thy ===== *)
theory Config
  imports Networks Complex_Main
begin

text \<open>
  \<^verbatim>\<open>src/taxstamp/config.py\<close>: the settings and the checks a process makes before it starts.  A record holds the values of the environment
  variables once pydantic has read them as strings, integers, booleans and numbers; \<open>Settings\<close> applies the bounds and
  the validators that the source declares, and refuses with one exception whatever failed.
\<close>

section \<open>Model\<close>

definition MIN_SECRET_LENGTH :: nat where "MIN_SECRET_LENGTH = 48"

definition contains :: "string \<Rightarrow> string \<Rightarrow> bool" where
  "contains s p = list_ex (\<lambda>i. take (length p) (drop i s) = p) [0 ..< Suc (length s)]"

text \<open>
  \<^verbatim>\<open>change[_-]?me|placeholder|example|secret{2,}|password\<close>, case ignored.  The repetition in the fourth alternative binds the
  letter before it.
\<close>

definition PLACEHOLDERS :: "string list" where
  "PLACEHOLDERS = [''changeme'', ''change_me'', ''change-me'', ''placeholder'', ''example'', ''secrett'', ''password'']"

definition placeholder :: "string \<Rightarrow> bool" where
  "placeholder s = list_ex (contains (lower s)) PLACEHOLDERS"

datatype environment = DEVELOPMENT | TEST | STAGING | PRODUCTION

datatype kms_provider = KMS_UNCONFIGURED | AWS_KMS | AZURE_KEY_VAULT | GCP_KMS | PKCS11_HSM

record settings =
  cf_env :: environment
  cf_service_name :: string
  cf_revision :: string
  cf_database_url :: string
  cf_database_pool_size :: int
  cf_database_statement_timeout_ms :: int
  cf_redis_url :: string
  cf_api_token_secret :: string
  cf_device_hmac_secret :: string
  cf_payment_webhook_secret :: string
  cf_audit_chain_secret :: string
  cf_require_tls :: bool
  cf_cors_allowed_origins :: string
  cf_trusted_hosts :: string
  cf_trust_proxy_headers :: bool
  cf_trusted_proxy_cidrs :: string
  cf_storage_encryption_required :: bool
  cf_kms_provider :: kms_provider
  cf_kms_key_reference :: string
  cf_kms_hsm_backed :: bool
  cf_kms_key_rotation_days :: int
  cf_storage_encryption_evidence_uri :: string
  cf_postgres_storage_encryption_attested :: bool
  cf_redis_storage_encryption_attested :: bool
  cf_opensearch_storage_encryption_attested :: bool
  cf_signature_max_skew_seconds :: int
  cf_nonce_ttl_seconds :: int
  cf_rate_limit_window_seconds :: int
  cf_rate_limit_default :: int
  cf_rate_limit_verify :: int
  cf_max_order_quantity :: int
  cf_issuance_chunk_size :: int
  cf_idempotency_ttl_seconds :: int
  cf_outbox_max_attempts :: int
  cf_outbox_lease_seconds :: int
  cf_outbox_batch_size :: int
  cf_firs_base_url :: string
  cf_nafdac_base_url :: string
  cf_son_base_url :: string
  cf_customs_base_url :: string
  cf_ledger_anchor_base_url :: string
  cf_external_timeout_seconds :: rat
  cf_external_api_key :: string
  cf_tigerbeetle_addresses :: string
  cf_mojaloop_base_url :: string
  cf_kafka_bootstrap_servers :: string
  cf_kafka_security_protocol :: string
  cf_kafka_topic :: string
  cf_kafka_publish_timeout_seconds :: rat
  cf_apisix_admin_url :: string
  cf_keycloak_issuer_url :: string
  cf_openappsec_management_url :: string
  cf_permify_base_url :: string
  cf_opensearch_url :: string
  cf_fluvio_cluster_url :: string
  cf_dapr_http_url :: string
  cf_lakehouse_catalog_url :: string

definition with_defaults :: "string \<Rightarrow> string \<Rightarrow> string \<Rightarrow> string \<Rightarrow> string \<Rightarrow> string \<Rightarrow> settings" where
  "with_defaults database_url redis_url api_token_secret device_hmac_secret payment_webhook_secret audit_chain_secret =
     \<lparr>cf_env = DEVELOPMENT, cf_service_name = ''taxstamp'', cf_revision = ''unknown'', cf_database_url = database_url,
      cf_database_pool_size = 10, cf_database_statement_timeout_ms = 15000, cf_redis_url = redis_url, cf_api_token_secret =
      api_token_secret, cf_device_hmac_secret = device_hmac_secret, cf_payment_webhook_secret = payment_webhook_secret,
      cf_audit_chain_secret = audit_chain_secret, cf_require_tls = True, cf_cors_allowed_origins = '''', cf_trusted_hosts = '''',
      cf_trust_proxy_headers = False, cf_trusted_proxy_cidrs = '''', cf_storage_encryption_required = False, cf_kms_provider =
      KMS_UNCONFIGURED, cf_kms_key_reference = '''', cf_kms_hsm_backed = False, cf_kms_key_rotation_days = 365,
      cf_storage_encryption_evidence_uri = '''', cf_postgres_storage_encryption_attested = False, cf_redis_storage_encryption_attested =
      False, cf_opensearch_storage_encryption_attested = False, cf_signature_max_skew_seconds = 300, cf_nonce_ttl_seconds = 900,
      cf_rate_limit_window_seconds = 60, cf_rate_limit_default = 600, cf_rate_limit_verify = 1200, cf_max_order_quantity = 5000000,
      cf_issuance_chunk_size = 25000, cf_idempotency_ttl_seconds = 86400, cf_outbox_max_attempts = 8, cf_outbox_lease_seconds = 60,
      cf_outbox_batch_size = 100, cf_firs_base_url = '''', cf_nafdac_base_url = '''', cf_son_base_url = '''', cf_customs_base_url =
      '''', cf_ledger_anchor_base_url = '''', cf_external_timeout_seconds = 5, cf_external_api_key = '''', cf_tigerbeetle_addresses =
      '''', cf_mojaloop_base_url = '''', cf_kafka_bootstrap_servers = '''', cf_kafka_security_protocol = ''SASL_SSL'', cf_kafka_topic =
      ''taxstamp.events.v1'', cf_kafka_publish_timeout_seconds = 10, cf_apisix_admin_url = '''', cf_keycloak_issuer_url = '''',
      cf_openappsec_management_url = '''', cf_permify_base_url = '''', cf_opensearch_url = '''', cf_fluvio_cluster_url = '''',
      cf_dapr_http_url = '''', cf_lakehouse_catalog_url = ''''\<rparr>"

definition field_bounds :: "settings \<Rightarrow> bool" where
  "field_bounds s =
     (1 \<le> cf_database_pool_size s \<and> cf_database_pool_size s \<le> 200 \<and>
      1000 \<le> cf_database_statement_timeout_ms s \<and> cf_database_statement_timeout_ms s \<le> 300000 \<and>
      1 \<le> cf_kms_key_rotation_days s \<and> cf_kms_key_rotation_days s \<le> 730 \<and>
      30 \<le> cf_signature_max_skew_seconds s \<and> cf_signature_max_skew_seconds s \<le> 900 \<and>
      60 \<le> cf_nonce_ttl_seconds s \<and> cf_nonce_ttl_seconds s \<le> 86400 \<and>
      1 \<le> cf_rate_limit_window_seconds s \<and> cf_rate_limit_window_seconds s \<le> 3600 \<and>
      1 \<le> cf_rate_limit_default s \<and>
      1 \<le> cf_rate_limit_verify s \<and>
      1 \<le> cf_max_order_quantity s \<and>
      100 \<le> cf_issuance_chunk_size s \<and> cf_issuance_chunk_size s \<le> 200000 \<and>
      300 \<le> cf_idempotency_ttl_seconds s \<and>
      1 \<le> cf_outbox_max_attempts s \<and> cf_outbox_max_attempts s \<le> 50 \<and>
      5 \<le> cf_outbox_lease_seconds s \<and> cf_outbox_lease_seconds s \<le> 3600 \<and>
      1 \<le> cf_outbox_batch_size s \<and> cf_outbox_batch_size s \<le> 1000 \<and>
      0 < cf_external_timeout_seconds s \<and> cf_external_timeout_seconds s \<le> 60 \<and>
      0 < cf_kafka_publish_timeout_seconds s \<and> cf_kafka_publish_timeout_seconds s \<le> 60)"

definition starts_with :: "string \<Rightarrow> string \<Rightarrow> bool" where
  "starts_with s p = (take (length p) s = p)"

definition validate_secret :: "string \<Rightarrow> string res" where
  "validate_secret value = (if length value < MIN_SECRET_LENGTH then Inl ValueError else Inr value)"

definition validate_database_url :: "string \<Rightarrow> string res" where
  "validate_database_url value = (if \<not> starts_with value ''postgresql+psycopg://'' then Inl ValueError else Inr value)"

definition validate_redis_url :: "string \<Rightarrow> string res" where
  "validate_redis_url value = (if \<not> starts_with value ''redis://'' \<and> \<not> starts_with value ''rediss://'' then Inl ValueError else Inr value)"

definition normalize_storage_encryption_reference :: "string \<Rightarrow> string" where
  "normalize_storage_encryption_reference value = strip py_space value"

definition validate_optional_http_url :: "string \<Rightarrow> string res" where
  "validate_optional_http_url value =
     (let normalized = rstrip_slash (strip py_space value) in
      if normalized \<noteq> [] \<and> \<not> starts_with normalized ''http://'' \<and> \<not> starts_with normalized ''https://'' then Inl ValueError else Inr normalized)"

definition topic_char :: "char \<Rightarrow> bool" where
  "topic_char c =
     (let n = (of_char c :: nat) in (48 \<le> n \<and> n \<le> 57) \<or> (65 \<le> n \<and> n \<le> 90) \<or> (97 \<le> n \<and> n \<le> 122) \<or> c \<in> set ''._-'')"

definition validate_kafka_topic :: "string \<Rightarrow> string res" where
  "validate_kafka_topic value =
     (let normalized = strip py_space value in
      if normalized = [] \<or> length normalized > 249 then Inl ValueError
      else if \<not> list_all topic_char normalized then Inl ValueError else Inr normalized)"

text \<open>\<^verbatim>\<open>[x.strip() for x in value.split(",") if x.strip()]\<close>\<close>

definition comma_list :: "string \<Rightarrow> string list" where
  "comma_list value = filter (\<lambda>x. x \<noteq> []) (map (strip py_space) (split_char (CHR '','') value))"

fun join_comma :: "string list \<Rightarrow> string" where
  "join_comma [] = []"
| "join_comma [x] = x"
| "join_comma (x # xs) = x @ '','' @ join_comma xs"

definition validate_trusted_proxy_cidrs :: "string \<Rightarrow> string res" where
  "validate_trusted_proxy_cidrs value =
     (let cidrs = comma_list value in
      if \<not> list_all (\<lambda>c. is_ok (ip_network False c)) cidrs then Inl ValueError else Inr (join_comma cidrs))"

definition cors_origins :: "settings \<Rightarrow> string list" where
  "cors_origins s = comma_list (cf_cors_allowed_origins s)"

definition trusted_host_list :: "settings \<Rightarrow> string list" where
  "trusted_host_list s = comma_list (cf_trusted_hosts s)"

definition trusted_proxy_cidr_list :: "settings \<Rightarrow> string list" where
  "trusted_proxy_cidr_list s = comma_list (cf_trusted_proxy_cidrs s)"

definition secrets :: "settings \<Rightarrow> string list" where
  "secrets s = [cf_api_token_secret s, cf_device_hmac_secret s, cf_payment_webhook_secret s, cf_audit_chain_secret s]"

text \<open>The field validators; the last one makes the normalised values the fields.\<close>

fun map_res :: "('a \<Rightarrow> 'b res) \<Rightarrow> 'a list \<Rightarrow> 'b list res" where
  "map_res f [] = Inr []"
| "map_res f (x # xs) = bind_res (f x) (\<lambda>y. bind_res (map_res f xs) (\<lambda>ys. Inr (y # ys)))"

definition validate_fields :: "settings \<Rightarrow> settings res" where
  "validate_fields s =
     (if \<not> field_bounds s then Inl ValueError else
      bind_res (map_res validate_secret (secrets s)) (\<lambda>_.
      bind_res (validate_database_url (cf_database_url s)) (\<lambda>_.
      bind_res (validate_redis_url (cf_redis_url s)) (\<lambda>_.
      bind_res (validate_optional_http_url (cf_mojaloop_base_url s)) (\<lambda>mojaloop.
      bind_res (validate_optional_http_url (cf_apisix_admin_url s)) (\<lambda>apisix.
      bind_res (validate_optional_http_url (cf_keycloak_issuer_url s)) (\<lambda>keycloak.
      bind_res (validate_optional_http_url (cf_openappsec_management_url s)) (\<lambda>openappsec.
      bind_res (validate_optional_http_url (cf_permify_base_url s)) (\<lambda>permify.
      bind_res (validate_optional_http_url (cf_opensearch_url s)) (\<lambda>opensearch.
      bind_res (validate_optional_http_url (cf_fluvio_cluster_url s)) (\<lambda>fluvio.
      bind_res (validate_optional_http_url (cf_dapr_http_url s)) (\<lambda>dapr.
      bind_res (validate_optional_http_url (cf_lakehouse_catalog_url s)) (\<lambda>lakehouse.
      bind_res (validate_kafka_topic (cf_kafka_topic s)) (\<lambda>topic.
      bind_res (validate_trusted_proxy_cidrs (cf_trusted_proxy_cidrs s)) (\<lambda>cidrs.
      Inr (s\<lparr>cf_kms_key_reference := normalize_storage_encryption_reference (cf_kms_key_reference s),
             cf_storage_encryption_evidence_uri := normalize_storage_encryption_reference (cf_storage_encryption_evidence_uri s),
             cf_mojaloop_base_url := mojaloop, cf_apisix_admin_url := apisix, cf_keycloak_issuer_url := keycloak,
             cf_openappsec_management_url := openappsec, cf_permify_base_url := permify, cf_opensearch_url := opensearch,
             cf_fluvio_cluster_url := fluvio, cf_dapr_http_url := dapr, cf_lakehouse_catalog_url := lakehouse,
             cf_kafka_topic := topic, cf_trusted_proxy_cidrs := cidrs\<rparr>))))))))))))))))"

text \<open>A sequence of guards: the first one that fails raises.\<close>

definition guards :: "bool list \<Rightarrow> unit res" where
  "guards gs = (if list_all (\<lambda>g. g) gs then Inr () else Inl ValueError)"

definition validate_proxy_trust :: "settings \<Rightarrow> unit res" where
  "validate_proxy_trust s = guards [\<not> (cf_trust_proxy_headers s \<and> trusted_proxy_cidr_list s = [])]"

definition validate_storage_encryption :: "settings \<Rightarrow> unit res" where
  "validate_storage_encryption s =
     guards [cf_storage_encryption_required s, cf_kms_provider s \<noteq> KMS_UNCONFIGURED,
       cf_kms_key_reference s \<noteq> [] \<and> \<not> placeholder (cf_kms_key_reference s), cf_kms_hsm_backed s,
       cf_storage_encryption_evidence_uri s \<noteq> [] \<and> \<not> placeholder (cf_storage_encryption_evidence_uri s),
       cf_postgres_storage_encryption_attested s, cf_redis_storage_encryption_attested s,
       cf_opensearch_url s = [] \<or> cf_opensearch_storage_encryption_attested s]"

definition public_endpoints :: "settings \<Rightarrow> string list" where
  "public_endpoints s =
     [cf_mojaloop_base_url s, cf_apisix_admin_url s, cf_keycloak_issuer_url s, cf_openappsec_management_url s, cf_permify_base_url s,
      cf_opensearch_url s, cf_fluvio_cluster_url s, cf_lakehouse_catalog_url s]"

definition validate_deployment :: "settings \<Rightarrow> unit res" where
  "validate_deployment s =
     (if cf_env s = PRODUCTION \<or> cf_env s = STAGING then
        bind_res (guards [\<not> list_ex placeholder (secrets s), distinct (secrets s), cf_require_tls s, \<not> contains (cf_cors_allowed_origins s) ''*'',
          trusted_host_list s \<noteq> [], ''*'' \<notin> set (trusted_host_list s)]) (\<lambda>_.
        bind_res (validate_proxy_trust s) (\<lambda>_.
        bind_res (guards [\<not> (cf_env s = PRODUCTION \<and> contains (cf_database_url s) ''sslmode=disable'')]) (\<lambda>_.
        bind_res (validate_storage_encryption s) (\<lambda>_.
        guards [list_all (\<lambda>e. e = [] \<or> starts_with e ''https://'') (public_endpoints s),
          cf_kafka_bootstrap_servers s = [] \<or> cf_kafka_security_protocol s \<in> {''SSL'', ''SASL_SSL''}]))))
      else Inr ())"

definition Settings :: "settings \<Rightarrow> settings res" where
  "Settings raw =
     (case bind_res (validate_fields raw) (\<lambda>s. bind_res (validate_deployment s) (\<lambda>_. Inr s)) of
        Inl e \<Rightarrow> Inl PydanticValidationError | Inr s \<Rightarrow> Inr s)"

section \<open>Lists in strings\<close>

lemma split_char_absent: "c \<notin> set s \<Longrightarrow> split_char c s = [s]"
  by (induction s) auto

lemma split_char_append: "c \<notin> set x \<Longrightarrow> split_char c (x @ c # s) = x # split_char c s"
  by (induction x) auto

lemma split_char_parts: "p \<in> set (split_char c s) \<Longrightarrow> c \<notin> set p"
  by (induction s arbitrary: p) (auto split: if_splits list.splits)

lemma set_strip: "set (strip q s) \<subseteq> set s"
  by (auto simp: strip_def dest!: set_dropWhileD)

lemma dropWhile_hd: "s = [] \<or> \<not> q (hd s) \<Longrightarrow> dropWhile q s = s"
  by (cases s) auto

lemma hd_dropWhile_or: "dropWhile q s = [] \<or> \<not> q (hd (dropWhile q s))"
  using hd_dropWhile by blast

lemma strip_ends:
  assumes "strip q s \<noteq> []"
  shows "\<not> q (hd (strip q s))" and "\<not> q (last (strip q s))"
proof -
  define t where "t = dropWhile q s"
  have u: "strip q s = rev (dropWhile q (rev t))" by (simp add: strip_def t_def)
  then have d: "dropWhile q (rev t) \<noteq> []" using assms by simp
  then show "\<not> q (last (strip q s))" using hd_dropWhile_or [of q "rev t"] by (simp add: u last_rev del: dropWhile_eq_Nil_conv)
  have "t = strip q s @ rev (takeWhile q (rev t))" unfolding u by (metis rev_append rev_rev_ident takeWhile_dropWhile_id)
  then have "hd t = hd (strip q s)" using assms by (metis hd_append2)
  moreover have "t \<noteq> []" using d by auto
  ultimately show "\<not> q (hd (strip q s))" using hd_dropWhile_or [of q s] by (simp add: t_def del: dropWhile_eq_Nil_conv)
qed

lemma strip_Nil: "strip q [] = []"
  by (simp add: strip_def)

lemma strip_idem: "strip q (strip q s) = strip q s"
proof (cases "strip q s = []")
  case True
  then show ?thesis by (simp add: strip_Nil)
next
  case False
  have "dropWhile q (strip q s) = strip q s" using strip_ends(1) [OF False] by (intro dropWhile_hd) simp
  moreover have "dropWhile q (rev (strip q s)) = rev (strip q s)" using False strip_ends(2) [OF False] by (intro dropWhile_hd) (simp add: hd_rev)
  ultimately show ?thesis by (simp add: strip_def [of q "strip q s"])
qed

lemma split_join:
  "xs \<noteq> [] \<Longrightarrow> (\<And>x. x \<in> set xs \<Longrightarrow> CHR '','' \<notin> set x) \<Longrightarrow> split_char (CHR '','') (join_comma xs) = xs"
  by (induction xs rule: join_comma.induct) (simp_all add: split_char_absent split_char_append)

lemma comma_list_items:
  assumes "x \<in> set (comma_list v)"
  shows "CHR '','' \<notin> set x" and "strip py_space x = x" and "x \<noteq> []"
  using assms set_strip split_char_parts [of _ "CHR '',''" v] by (auto simp: comma_list_def strip_idem)

text \<open>Normalising a list of this kind keeps its items.\<close>

lemma comma_list_join: "comma_list (join_comma (comma_list v)) = comma_list v"
proof (cases "comma_list v = []")
  case True
  then show ?thesis by (simp add: comma_list_def strip_def)
next
  case False
  have "map (strip py_space) (comma_list v) = comma_list v" by (rule map_idI) (rule comma_list_items(2))
  moreover have "filter (\<lambda>x. x \<noteq> []) (comma_list v) = comma_list v" by (simp add: filter_id_conv comma_list_items(3))
  ultimately show ?thesis
    unfolding comma_list_def [of "join_comma (comma_list v)"] using split_join [OF False comma_list_items(1)] by simp
qed

section \<open>What is accepted\<close>

lemma guards_ok: "guards gs = Inr u \<longleftrightarrow> list_all (\<lambda>g. g) gs"
  by (simp add: guards_def)

lemma Settings_ok: "Settings raw = Inr s \<longleftrightarrow> validate_fields raw = Inr s \<and> validate_deployment s = Inr ()"
  by (auto simp: Settings_def split: sum.splits)

lemma map_res_ok: "map_res validate_secret xs = Inr ys \<Longrightarrow> \<forall>x \<in> set xs. MIN_SECRET_LENGTH \<le> length x"
  by (induction xs arbitrary: ys) (auto simp: validate_secret_def split: if_splits)

lemma validate_optional_http_url_ok:
  "validate_optional_http_url v = Inr n \<Longrightarrow> n = [] \<or> starts_with n ''http://'' \<or> starts_with n ''https://''"
  by (auto simp: validate_optional_http_url_def Let_def split: if_splits)

definition http_endpoints :: "settings \<Rightarrow> string list" where
  "http_endpoints s = public_endpoints s @ [cf_dapr_http_url s]"

lemma validate_fieldsE:
  assumes "validate_fields raw = Inr s"
  obtains ys mojaloop apisix keycloak openappsec permify opensearch fluvio dapr lakehouse topic cidrs where
    "field_bounds raw" "map_res validate_secret (secrets raw) = Inr ys"
    "validate_database_url (cf_database_url raw) = Inr (cf_database_url raw)" "validate_redis_url (cf_redis_url raw) = Inr (cf_redis_url raw)"
    "validate_optional_http_url (cf_mojaloop_base_url raw) = Inr mojaloop" "validate_optional_http_url (cf_apisix_admin_url raw) = Inr apisix"
    "validate_optional_http_url (cf_keycloak_issuer_url raw) = Inr keycloak" "validate_optional_http_url (cf_openappsec_management_url raw) = Inr openappsec"
    "validate_optional_http_url (cf_permify_base_url raw) = Inr permify" "validate_optional_http_url (cf_opensearch_url raw) = Inr opensearch"
    "validate_optional_http_url (cf_fluvio_cluster_url raw) = Inr fluvio" "validate_optional_http_url (cf_dapr_http_url raw) = Inr dapr"
    "validate_optional_http_url (cf_lakehouse_catalog_url raw) = Inr lakehouse" "validate_kafka_topic (cf_kafka_topic raw) = Inr topic"
    "validate_trusted_proxy_cidrs (cf_trusted_proxy_cidrs raw) = Inr cidrs"
    "s = raw\<lparr>cf_kms_key_reference := normalize_storage_encryption_reference (cf_kms_key_reference raw),
       cf_storage_encryption_evidence_uri := normalize_storage_encryption_reference (cf_storage_encryption_evidence_uri raw),
       cf_mojaloop_base_url := mojaloop, cf_apisix_admin_url := apisix, cf_keycloak_issuer_url := keycloak,
       cf_openappsec_management_url := openappsec, cf_permify_base_url := permify, cf_opensearch_url := opensearch,
       cf_fluvio_cluster_url := fluvio, cf_dapr_http_url := dapr, cf_lakehouse_catalog_url := lakehouse,
       cf_kafka_topic := topic, cf_trusted_proxy_cidrs := cidrs\<rparr>"
proof -
  have same: "validate_database_url v = Inr w \<Longrightarrow> w = v" "validate_redis_url v = Inr w \<Longrightarrow> w = v" for v w
    by (auto simp: validate_database_url_def validate_redis_url_def split: if_splits)
  have fb: "field_bounds raw" using assms by (simp add: validate_fields_def split: if_splits)
  show thesis
    using assms fb unfolding validate_fields_def
    apply (simp only: not_True_eq_False if_False bind_res_eq_Inr)
    apply (elim exE conjE)
    apply (frule same(1), frule same(2))
    apply (rule that)
    apply (assumption | simp only: sum.inject)+
    done
qed

lemma validate_fields_bounds:
  assumes "validate_fields raw = Inr s"
  shows "field_bounds s" and "list_all (\<lambda>x. MIN_SECRET_LENGTH \<le> length x) (secrets s)"
    and "validate_database_url (cf_database_url s) = Inr (cf_database_url s)" and "validate_redis_url (cf_redis_url s) = Inr (cf_redis_url s)"
    and "validate_kafka_topic (cf_kafka_topic raw) = Inr (cf_kafka_topic s)"
proof -
  show "field_bounds s" by (rule validate_fieldsE [OF assms]) (simp add: field_bounds_def)
  show "list_all (\<lambda>x. MIN_SECRET_LENGTH \<le> length x) (secrets s)"
    by (rule validate_fieldsE [OF assms], drule map_res_ok) (simp add: secrets_def)
  show "validate_database_url (cf_database_url s) = Inr (cf_database_url s)" by (rule validate_fieldsE [OF assms]) simp
  show "validate_redis_url (cf_redis_url s) = Inr (cf_redis_url s)" by (rule validate_fieldsE [OF assms]) simp
  show "validate_kafka_topic (cf_kafka_topic raw) = Inr (cf_kafka_topic s)" by (rule validate_fieldsE [OF assms]) simp
qed

lemma validate_fields_urls:
  assumes "validate_fields raw = Inr s"
  shows "list_all (\<lambda>e. e = [] \<or> starts_with e ''http://'' \<or> starts_with e ''https://'') (http_endpoints s)"
    and "list_all (\<lambda>c. is_ok (ip_network False c)) (trusted_proxy_cidr_list s)"
proof -
  show "list_all (\<lambda>e. e = [] \<or> starts_with e ''http://'' \<or> starts_with e ''https://'') (http_endpoints s)"
    by (rule validate_fieldsE [OF assms]) (simp add: http_endpoints_def public_endpoints_def validate_optional_http_url_ok)
  show "list_all (\<lambda>c. is_ok (ip_network False c)) (trusted_proxy_cidr_list s)"
    by (rule validate_fieldsE [OF assms])
       (auto simp: trusted_proxy_cidr_list_def validate_trusted_proxy_cidrs_def Let_def comma_list_join split: if_splits)
qed

lemma validate_deployment_ok:
  "validate_deployment s = Inr () \<longleftrightarrow> cf_env s \<in> {DEVELOPMENT, TEST} \<or>
     (list_all (\<lambda>x. \<not> placeholder x) (secrets s) \<and> distinct (secrets s) \<and> cf_require_tls s \<and> \<not> contains (cf_cors_allowed_origins s) ''*'' \<and>
      trusted_host_list s \<noteq> [] \<and> ''*'' \<notin> set (trusted_host_list s) \<and> validate_proxy_trust s = Inr () \<and>
      (cf_env s = PRODUCTION \<longrightarrow> \<not> contains (cf_database_url s) ''sslmode=disable'') \<and> validate_storage_encryption s = Inr () \<and>
      list_all (\<lambda>e. e = [] \<or> starts_with e ''https://'') (public_endpoints s) \<and>
      (cf_kafka_bootstrap_servers s = [] \<or> cf_kafka_security_protocol s \<in> {''SSL'', ''SASL_SSL''}))"
  by (cases "cf_env s") (auto simp: validate_deployment_def guards_ok list_ex_iff list_all_iff)

lemma contains_char: "contains s [c] \<longleftrightarrow> c \<in> set s"
proof
  assume "contains s [c]"
  then obtain i where "take 1 (drop i s) = [c]" by (auto simp: contains_def list_ex_iff)
  then have "c \<in> set (drop i s)" by (metis in_set_takeD list.set_intros(1))
  then show "c \<in> set s" by (rule in_set_dropD)
next
  assume "c \<in> set s"
  then obtain xs ys where "s = xs @ c # ys" using split_list by fast
  then show "contains s [c]" by (auto simp: contains_def list_ex_iff intro!: bexI [of _ "length xs"])
qed

lemma split_char_chars: "p \<in> set (split_char d s) \<Longrightarrow> c \<in> set p \<Longrightarrow> c \<in> set s"
  by (induction s arbitrary: p) (fastforce split: if_splits list.splits)+

lemma comma_list_chars: "x \<in> set (comma_list v) \<Longrightarrow> c \<in> set x \<Longrightarrow> c \<in> set v"
  using set_strip split_char_chars by (fastforce simp: comma_list_def)

section \<open>Settings of a deployment\<close>

definition production_settings :: settings where
  "production_settings =
     (with_defaults ''postgresql+psycopg://db/taxstamp'' ''rediss://cache/0'' (replicate 48 (CHR ''a'')) (replicate 48 (CHR ''b''))
        (replicate 48 (CHR ''c'')) (replicate 48 (CHR ''d'')))
     \<lparr>cf_env := PRODUCTION, cf_trusted_hosts := ''stamps.gov.ng'', cf_trust_proxy_headers := True, cf_trusted_proxy_cidrs := ''10.0.0.0/8, 192.168.1.7'',
      cf_storage_encryption_required := True, cf_kms_provider := AWS_KMS, cf_kms_key_reference := '' alias/stamps '', cf_kms_hsm_backed := True,
      cf_storage_encryption_evidence_uri := ''s3://evidence/1'', cf_postgres_storage_encryption_attested := True,
      cf_redis_storage_encryption_attested := True, cf_keycloak_issuer_url := ''https://id.gov.ng/''\<rparr>"

lemma production_settings_accepted:
  "Settings production_settings =
     Inr (production_settings\<lparr>cf_kms_key_reference := ''alias/stamps'', cf_trusted_proxy_cidrs := ''10.0.0.0/8,192.168.1.7'',
       cf_keycloak_issuer_url := ''https://id.gov.ng''\<rparr>)"
  by code_simp

lemma signed_at:
  assumes "0 \<le> skew"
  shows "\<exists>request. verify_signed_request request secret (- skew * SECOND) skew = Inr () \<and> verify_signed_request request secret (skew * SECOND) skew = Inr ()"
proof -
  obtain p where p: "signing_payload [] (Aware 0 0) = Inr p" by (simp add: signing_payload_def canonical_bytes_def)
  have "verify_signed_request \<lparr>sr_body = [], sr_signature = hmac_hexdigest secret p, sr_timestamp = Aware 0 0\<rparr> secret now skew = Inr ()"
    if "- skew * SECOND \<le> now" "now \<le> skew * SECOND" for now
    unfolding verify_signed_request_iff using p that by auto
  moreover have "- skew * SECOND \<le> skew * SECOND" using assms by (simp add: SECOND_def)
  ultimately show ?thesis by (meson order_refl)
qed

section \<open>Properties\<close>

text \<open>
  C24. The settings a process runs with are well formed, whatever the environment: the bounds of the fields hold, the secrets have 48
  characters or more, database, cache and integration addresses use the schemes the clients support, the topic is one Kafka
  accepts, and the trusted networks are those that were listed, each of them a network.
\<close>

theorem settings_typed:
  assumes "Settings raw = Inr s"
  shows "field_bounds s \<and> (\<forall>x \<in> set (secrets s). 48 \<le> length x) \<and> secrets s = secrets raw \<and>
    starts_with (cf_database_url s) ''postgresql+psycopg://'' \<and>
    (starts_with (cf_redis_url s) ''redis://'' \<or> starts_with (cf_redis_url s) ''rediss://'') \<and>
    (\<forall>e \<in> set (http_endpoints s). e = [] \<or> starts_with e ''http://'' \<or> starts_with e ''https://'') \<and>
    1 \<le> length (cf_kafka_topic s) \<and> length (cf_kafka_topic s) \<le> 249 \<and> (\<forall>c \<in> set (cf_kafka_topic s). topic_char c) \<and>
    trusted_proxy_cidr_list s = trusted_proxy_cidr_list raw \<and> (\<forall>c \<in> set (trusted_proxy_cidr_list s). \<exists>net. ip_network False c = Inr net)"
proof -
  have v: "validate_fields raw = Inr s" using assms by (simp add: Settings_ok)
  have sec: "secrets s = secrets raw" by (rule validate_fieldsE [OF v]) (simp add: secrets_def)
  have cid: "trusted_proxy_cidr_list s = trusted_proxy_cidr_list raw"
    by (rule validate_fieldsE [OF v]) (auto simp: trusted_proxy_cidr_list_def validate_trusted_proxy_cidrs_def Let_def comma_list_join split: if_splits)
  have kt: "1 \<le> length (cf_kafka_topic s)" "length (cf_kafka_topic s) \<le> 249" "list_all topic_char (cf_kafka_topic s)"
    using validate_fields_bounds(5) [OF v] by (auto simp: validate_kafka_topic_def Let_def not_less Suc_le_eq split: if_splits)
  have urls: "starts_with (cf_database_url s) ''postgresql+psycopg://''" "starts_with (cf_redis_url s) ''redis://'' \<or> starts_with (cf_redis_url s) ''rediss://''"
    using validate_fields_bounds(3,4) [OF v] by (auto simp: validate_database_url_def validate_redis_url_def split: if_splits)
  have net: "\<forall>c \<in> set (trusted_proxy_cidr_list s). \<exists>net. ip_network False c = Inr net"
    using validate_fields_urls(2) [OF v] by (simp add: list_all_iff is_ok_iff)
  show ?thesis
    using validate_fields_bounds(1,2) [OF v] validate_fields_urls(1) [OF v] sec cid kt urls net by (simp add: list_all_iff MIN_SECRET_LENGTH_def)
qed

theorem settings_typed_witness:
  "\<exists>s. Settings production_settings = Inr s \<and> 30 \<le> cf_signature_max_skew_seconds s \<and> trusted_proxy_cidr_list s = [''10.0.0.0/8'', ''192.168.1.7'']"
proof -
  have l: "trusted_proxy_cidr_list production_settings = [''10.0.0.0/8'', ''192.168.1.7'']" by code_simp
  show ?thesis using settings_typed [OF production_settings_accepted] unfolding l production_settings_accepted field_bounds_def by blast
qed

text \<open>
  C23. A process that starts in staging or production is locked down: TLS is required, no secret is shared or looks like a
  placeholder, hosts are listed and none is a wildcard, no origin is a wildcard, headers of a proxy are trusted only from listed
  networks, storage is encrypted under an external key, the eight public endpoints are reached over HTTPS and Kafka over TLS; in production the
  database connection does not turn TLS off.
\<close>

theorem production_settings_safe:
  assumes "Settings raw = Inr s" and "cf_env s = PRODUCTION \<or> cf_env s = STAGING"
  shows "cf_require_tls s \<and> distinct (secrets s) \<and> (\<forall>x \<in> set (secrets s). \<not> placeholder x) \<and>
    trusted_host_list s \<noteq> [] \<and> ''*'' \<notin> set (trusted_host_list s) \<and> ''*'' \<notin> set (cors_origins s) \<and>
    (cf_trust_proxy_headers s \<longrightarrow> trusted_proxy_cidr_list s \<noteq> []) \<and>
    cf_storage_encryption_required s \<and> cf_kms_provider s \<noteq> KMS_UNCONFIGURED \<and> cf_kms_key_reference s \<noteq> [] \<and> cf_kms_hsm_backed s \<and>
    cf_postgres_storage_encryption_attested s \<and> cf_redis_storage_encryption_attested s \<and>
    (cf_opensearch_url s \<noteq> [] \<longrightarrow> cf_opensearch_storage_encryption_attested s) \<and>
    (\<forall>e \<in> set (public_endpoints s). e \<noteq> [] \<longrightarrow> starts_with e ''https://'') \<and>
    (cf_kafka_bootstrap_servers s \<noteq> [] \<longrightarrow> cf_kafka_security_protocol s \<in> {''SSL'', ''SASL_SSL''}) \<and>
    (cf_env s = PRODUCTION \<longrightarrow> \<not> contains (cf_database_url s) ''sslmode=disable'')"
proof -
  have "validate_deployment s = Inr ()" using assms(1) by (simp add: Settings_ok)
  then have d: "list_all (\<lambda>x. \<not> placeholder x) (secrets s)" "distinct (secrets s)" "cf_require_tls s" "\<not> contains (cf_cors_allowed_origins s) ''*''"
    "trusted_host_list s \<noteq> []" "''*'' \<notin> set (trusted_host_list s)" "validate_proxy_trust s = Inr ()"
    "cf_env s = PRODUCTION \<longrightarrow> \<not> contains (cf_database_url s) ''sslmode=disable''" "validate_storage_encryption s = Inr ()"
    "list_all (\<lambda>e. e = [] \<or> starts_with e ''https://'') (public_endpoints s)"
    "cf_kafka_bootstrap_servers s = [] \<or> cf_kafka_security_protocol s \<in> {''SSL'', ''SASL_SSL''}"
    using assms(2) unfolding validate_deployment_ok by auto
  have cors: "''*'' \<notin> set (cors_origins s)" using d(4) comma_list_chars [of "''*''" _ "CHR ''*''"] unfolding cors_origins_def contains_char by auto
  show ?thesis
    using d(1-3,5,6,8,10,11) cors d(7) [unfolded validate_proxy_trust_def guards_ok] d(9) [unfolded validate_storage_encryption_def guards_ok]
    by (simp add: list_all_iff) blast
qed

theorem production_settings_safe_witness:
  "\<exists>s. Settings production_settings = Inr s \<and> cf_require_tls s \<and> ''*'' \<notin> set (trusted_host_list s)"
proof -
  let ?s = "production_settings\<lparr>cf_kms_key_reference := ''alias/stamps'', cf_trusted_proxy_cidrs := ''10.0.0.0/8,192.168.1.7'', cf_keycloak_issuer_url := ''https://id.gov.ng''\<rparr>"
  have "cf_env ?s = PRODUCTION" by (simp add: production_settings_def)
  with production_settings_safe [OF production_settings_accepted] show ?thesis unfolding production_settings_accepted by blast
qed

text \<open>
  C32. How long a nonce has to be remembered.  A signed request can verify at two moments that are further apart than the nonces are
  kept exactly when the retention is shorter than twice the accepted clock skew; and settings of that kind are accepted in
  production, so that a signed request can then be replayed once its nonce is forgotten.
\<close>

theorem nonce_retention_covers_skew_iff:
  assumes "Settings raw = Inr s"
  shows "((\<forall>request secret t1 t2. verify_signed_request request secret t1 (cf_signature_max_skew_seconds s) = Inr () \<longrightarrow>
      verify_signed_request request secret t2 (cf_signature_max_skew_seconds s) = Inr () \<longrightarrow> t2 - t1 \<le> cf_nonce_ttl_seconds s * SECOND) \<longleftrightarrow>
      2 * cf_signature_max_skew_seconds s \<le> cf_nonce_ttl_seconds s) \<and>
    (\<exists>raw' s'. Settings raw' = Inr s' \<and> cf_env s' = PRODUCTION \<and> cf_nonce_ttl_seconds s' < 2 * cf_signature_max_skew_seconds s')"
proof
  let ?skew = "cf_signature_max_skew_seconds s" and ?ttl = "cf_nonce_ttl_seconds s"
  have bd: "0 \<le> ?skew" using assms validate_fields_bounds(1) unfolding Settings_ok field_bounds_def by fastforce
  show "(\<forall>request secret t1 t2. verify_signed_request request secret t1 ?skew = Inr () \<longrightarrow>
      verify_signed_request request secret t2 ?skew = Inr () \<longrightarrow> t2 - t1 \<le> ?ttl * SECOND) \<longleftrightarrow> 2 * ?skew \<le> ?ttl"
  proof
    assume all: "\<forall>request secret t1 t2. verify_signed_request request secret t1 ?skew = Inr () \<longrightarrow>
      verify_signed_request request secret t2 ?skew = Inr () \<longrightarrow> t2 - t1 \<le> ?ttl * SECOND"
    obtain request where "verify_signed_request request [] (- ?skew * SECOND) ?skew = Inr ()" "verify_signed_request request [] (?skew * SECOND) ?skew = Inr ()"
      using signed_at [OF bd] by blast
    then have "?skew * SECOND - - ?skew * SECOND \<le> ?ttl * SECOND" using all by blast
    then show "2 * ?skew \<le> ?ttl" by (simp add: SECOND_def)
  next
    assume "2 * ?skew \<le> ?ttl"
    then have le: "2 * (?skew * SECOND) \<le> ?ttl * SECOND" by (simp add: SECOND_def)
    show "\<forall>request secret t1 t2. verify_signed_request request secret t1 ?skew = Inr () \<longrightarrow>
      verify_signed_request request secret t2 ?skew = Inr () \<longrightarrow> t2 - t1 \<le> ?ttl * SECOND"
      unfolding verify_signed_request_iff using le by fastforce
  qed
  have "Settings (production_settings\<lparr>cf_nonce_ttl_seconds := 60\<rparr>) = Inr (production_settings\<lparr>cf_kms_key_reference := ''alias/stamps'', cf_nonce_ttl_seconds := 60,
    cf_trusted_proxy_cidrs := ''10.0.0.0/8,192.168.1.7'', cf_keycloak_issuer_url := ''https://id.gov.ng''\<rparr>)" by code_simp
  then show "\<exists>raw' s'. Settings raw' = Inr s' \<and> cf_env s' = PRODUCTION \<and> cf_nonce_ttl_seconds s' < 2 * cf_signature_max_skew_seconds s'"
    by (intro exI conjI) (assumption, simp_all add: production_settings_def with_defaults_def)
qed

theorem nonce_retention_covers_skew_iff_witness:
  "\<exists>s. Settings production_settings = Inr s \<and> 2 * cf_signature_max_skew_seconds s \<le> cf_nonce_ttl_seconds s \<and>
    (\<forall>request secret t1 t2. verify_signed_request request secret t1 (cf_signature_max_skew_seconds s) = Inr () \<longrightarrow>
      verify_signed_request request secret t2 (cf_signature_max_skew_seconds s) = Inr () \<longrightarrow> t2 - t1 \<le> cf_nonce_ttl_seconds s * SECOND)"
proof -
  let ?s = "production_settings\<lparr>cf_kms_key_reference := ''alias/stamps'', cf_trusted_proxy_cidrs := ''10.0.0.0/8,192.168.1.7'', cf_keycloak_issuer_url := ''https://id.gov.ng''\<rparr>"
  have le: "2 * cf_signature_max_skew_seconds ?s \<le> cf_nonce_ttl_seconds ?s" by (simp add: production_settings_def with_defaults_def)
  from nonce_retention_covers_skew_iff [OF production_settings_accepted] le production_settings_accepted show ?thesis by blast
qed

text \<open>The pattern that is meant to find \<^verbatim>\<open>secretsecret\<close> repeats the last letter of the word only.\<close>

lemma repeated_secret_accepted:
  "\<exists>s. Settings (production_settings\<lparr>cf_api_token_secret := concat (replicate 8 ''secret'')\<rparr>) = Inr s \<and> cf_env s = PRODUCTION \<and>
     cf_api_token_secret s = concat (replicate 8 ''secret'')"
proof -
  have "Settings (production_settings\<lparr>cf_api_token_secret := concat (replicate 8 ''secret'')\<rparr>) =
     Inr (production_settings\<lparr>cf_api_token_secret := concat (replicate 8 ''secret''), cf_kms_key_reference := ''alias/stamps'',
       cf_trusted_proxy_cidrs := ''10.0.0.0/8,192.168.1.7'', cf_keycloak_issuer_url := ''https://id.gov.ng''\<rparr>)" by code_simp
  then show ?thesis by (intro exI conjI) (assumption, simp_all add: production_settings_def)
qed

end
