(* ===== verification/Cli.thy ===== *)
theory Cli
  imports Config
begin

text \<open>
  \<^verbatim>\<open>src/taxstamp/cli.py\<close> and \<^verbatim>\<open>src/scripts/reconcile_sandbox.py\<close>: the commands of the administration.  Their arguments are the values that \<^verbatim>\<open>argparse\<close> and the standard parsers
  of identifiers, decimals and times deliver; a fresh token and the readings of the clock are arguments.  A command returns its
  exit code, with what it prints where that is more than a report.  A transaction that raises leaves the database as it was.
\<close>

section \<open>Model\<close>

record principal_args =
  pa_subject :: string
  pa_role :: role
  pa_display_name :: string
  pa_company_id :: "uuid option"
  pa_label :: string

definition new_principal :: "principal_args \<Rightarrow> instant \<Rightarrow> uuid \<Rightarrow> principal" where
  "new_principal args now i =
     \<lparr>pr_id = i, pr_subject = pa_subject args, pr_role = pa_role args, pr_company_id = pa_company_id args,
      pr_display_name = pa_display_name args, pr_active = True, pr_created_at = now\<rparr>"

definition new_credential :: "uuid \<Rightarrow> string \<Rightarrow> string \<Rightarrow> instant \<Rightarrow> uuid \<Rightarrow> credential" where
  "new_credential principal_id token_hash label now i =
     \<lparr>cr_id = i, cr_principal_id = principal_id, cr_token_hash = token_hash, cr_label = label, cr_created_at = now,
      cr_expires_at = None, cr_revoked_at = None, cr_last_used_at = None\<rparr>"

definition create_principal :: "principal_args \<Rightarrow> string \<Rightarrow> (nat \<Rightarrow> instant) \<Rightarrow> string \<Rightarrow> db \<Rightarrow> (string \<times> db) res" where
  "create_principal args token clock api_token_secret db =
     bind_res (scalar_one_or_none (filter (\<lambda>p. pr_subject p = pa_subject args) (principals db))) (\<lambda>existing.
     bind_res (case existing of Some p \<Rightarrow> Inr (p, db) | None \<Rightarrow> insert_principal (new_principal args (clock 0)) db) (\<lambda>(p, db).
     bind_res (insert_credential (new_credential (pr_id p) (hash_token token api_token_secret) (pa_label args) (clock 1)) db) (\<lambda>(c, db).
     Inr (token, db))))"

record company_args =
  ca_tin :: string
  ca_name :: string
  ca_kyb_status :: kyb_status
  ca_risk_tier :: risk_tier

definition create_company :: "company_args \<Rightarrow> (nat \<Rightarrow> instant) \<Rightarrow> db \<Rightarrow> (uuid \<times> db) res" where
  "create_company args clock db =
     bind_res (insert_company (\<lambda>i. \<lparr>co_id = i, co_tin = ca_tin args, co_name = ca_name args, co_kyb_status = ca_kyb_status args,
       co_kyb_verified_at = (if ca_kyb_status args = K_VERIFIED then Some (clock 0) else None), co_risk_tier = ca_risk_tier args,
       co_created_at = clock 1\<rparr>) db) (\<lambda>(company, db). Inr (co_id company, db))"

record tariff_args =
  ga_product_category :: string
  ga_unit_price_major :: decimal
  ga_currency :: string
  ga_vat_bps :: int
  ga_effective_from :: instant
  ga_statutory_reference :: string

definition add_tariff :: "tariff_args \<Rightarrow> instant \<Rightarrow> db \<Rightarrow> (uuid \<times> db) res" where
  "add_tariff args now db =
     bind_res (from_major (ga_unit_price_major args) (ga_currency args)) (\<lambda>unit_price.
     bind_res (insert_tariff (\<lambda>i. \<lparr>ta_id = i, ta_product_category = ga_product_category args, ta_unit_price_minor = minor unit_price,
       ta_currency = ga_currency args, ta_vat_bps = ga_vat_bps args, ta_effective_from = ga_effective_from args, ta_effective_to = None,
       ta_statutory_reference = ga_statutory_reference args, ta_created_at = now\<rparr>) db) (\<lambda>(tariff, db). Inr (ta_id tariff, db)))"

definition reconcile_command :: "string \<Rightarrow> instant \<Rightarrow> db \<Rightarrow> (int \<times> db) res" where
  "reconcile_command audit_chain_secret now db =
     bind_res (run_reconciliation now audit_chain_secret 900 [] [] db) (\<lambda>(report, db). Inr (if clean report then 0 else 2, db))"

definition verify_audit :: "string \<Rightarrow> db \<Rightarrow> int res" where
  "verify_audit audit_chain_secret db = bind_res (verify_audit_chain audit_chain_secret db) (\<lambda>result. Inr (if intact result then 0 else 2))"

datatype command =
    Create_principal principal_args string | Create_company company_args | Add_tariff tariff_args | Reconcile_command | Verify_audit

fun cli :: "settings \<Rightarrow> (nat \<Rightarrow> instant) \<Rightarrow> command \<Rightarrow> db \<Rightarrow> (int \<times> db) res" where
  "cli s clock (Create_principal args token) db = bind_res (create_principal args token clock (cf_api_token_secret s) db) (\<lambda>(t, db). Inr (0, db))"
| "cli s clock (Create_company args) db = bind_res (create_company args clock db) (\<lambda>(i, db). Inr (0, db))"
| "cli s clock (Add_tariff args) db = bind_res (add_tariff args (clock 0) db) (\<lambda>(i, db). Inr (0, db))"
| "cli s clock Reconcile_command db = reconcile_command (cf_audit_chain_secret s) (clock 0) db"
| "cli s clock Verify_audit db = bind_res (verify_audit (cf_audit_chain_secret s) db) (\<lambda>code. Inr (code, db))"

text \<open>
  \<^verbatim>\<open>src/scripts/reconcile_sandbox.py\<close>: reconciliation against reviewed exports of both settlement providers, given as the JSON
  documents that the files hold.
\<close>

definition snapshot_of :: "json \<Rightarrow> settlement_provider \<Rightarrow> external_settlement list res" where
  "snapshot_of document provider = (case document of JObj d \<Rightarrow> parse_snapshot provider d | _ \<Rightarrow> Inl TypeError)"

definition reconcile_sandbox :: "settings \<Rightarrow> instant \<Rightarrow> json \<Rightarrow> json \<Rightarrow> db \<Rightarrow> (int \<times> db) res" where
  "reconcile_sandbox s now tigerbeetle_snapshot mojaloop_snapshot db =
     bind_res (snapshot_of tigerbeetle_snapshot TIGERBEETLE) (\<lambda>tigerbeetle.
     bind_res (snapshot_of mojaloop_snapshot MOJALOOP) (\<lambda>mojaloop.
     bind_res (run_reconciliation now (cf_audit_chain_secret s) 900 (tigerbeetle @ mojaloop) [TIGERBEETLE, MOJALOOP] db) (\<lambda>(report, db).
     Inr (if clean report then 0 else 2, db))))"

section \<open>Lemmas\<close>

text \<open>Every command that succeeds is a sequence of steps of the platform.\<close>

lemma reference_data_steps:
  "insert_principal mk db = Inr (x, db') \<Longrightarrow> reach rt db db'" "insert_credential mk' db = Inr (y, db') \<Longrightarrow> reach rt db db'"
  "insert_company mk'' db = Inr (z, db') \<Longrightarrow> reach rt db db'" "insert_tariff mk''' db = Inr (t, db') \<Longrightarrow> reach rt db db'"
  by (rule reach_step, rule step.administration, unfold enters_reference_data_def, blast)+

lemma create_principal_ok:
  assumes "create_principal args token clock secret db = Inr (t, db')"
  obtains p c db1 where "t = token" "insert_credential (new_credential (pr_id p) (hash_token token secret) (pa_label args) (clock 1)) db1 = Inr (c, db')"
    "(p \<in> set (principals db) \<and> pr_subject p = pa_subject args \<and> db1 = db) \<or>
     (pa_subject args \<notin> pr_subject ` set (principals db) \<and> insert_principal (new_principal args (clock 0)) db = Inr (p, db1))"
proof -
  obtain ex p db1 c where ex: "scalar_one_or_none (filter (\<lambda>p. pr_subject p = pa_subject args) (principals db)) = Inr ex"
    and p: "(case ex of Some p \<Rightarrow> Inr (p, db) | None \<Rightarrow> insert_principal (new_principal args (clock 0)) db) = Inr (p, db1)"
    and c: "insert_credential (new_credential (pr_id p) (hash_token token secret) (pa_label args) (clock 1)) db1 = Inr (c, db')" and t: "t = token"
    using assms by (auto simp: create_principal_def)
  show thesis
  proof (cases ex)
    case None
    with ex have "pa_subject args \<notin> pr_subject ` set (principals db)" by (auto simp: filter_empty_conv)
    with None p c t that show ?thesis by simp
  next
    case (Some q)
    with ex have "q \<in> set (principals db) \<and> pr_subject q = pa_subject args" using filter_eq_singletonD [of _ "principals db" q] by auto
    with Some p c t that show ?thesis by simp
  qed
qed

lemma cli_reaches:
  assumes "cli s clock cmd db = Inr (code, db')"
  shows "reach rt db db'"
proof (cases cmd)
  case (Create_principal args token)
  then obtain t where "create_principal args token clock (cf_api_token_secret s) db = Inr (t, db')" using assms by auto
  then show ?thesis by (rule create_principal_ok) (metis reach_trans reference_data_steps(1,2))
next
  case (Create_company args)
  with assms show ?thesis by (auto simp: create_company_def intro: reference_data_steps)
next
  case (Add_tariff args)
  with assms show ?thesis by (auto simp: add_tariff_def intro: reference_data_steps)
next
  case Reconcile_command
  with assms obtain report where "run_reconciliation (clock 0) (cf_audit_chain_secret s) 900 [] [] db = Inr (report, db')"
    by (auto simp: reconcile_command_def)
  then show ?thesis by (intro reach_step) (rule step.run_reconciliation)
next
  case Verify_audit
  with assms show ?thesis by auto
qed

lemma reconcile_sandbox_reaches:
  assumes "reconcile_sandbox s now tb mj db = Inr (code, db')"
  shows "reach rt db db'"
proof -
  obtain snaps report where "run_reconciliation now (cf_audit_chain_secret s) 900 snaps [TIGERBEETLE, MOJALOOP] db = Inr (report, db')"
    using assms by (auto simp: reconcile_sandbox_def)
  then show ?thesis by (intro reach_step) (rule step.run_reconciliation)
qed

lemma bearer_of_token: "token \<noteq> [] \<Longrightarrow> strip py_space token = token \<Longrightarrow> parse_bearer (Some (''Bearer '' @ token)) = Inr token"
proof -
  have "lower ''Bearer '' = ''bearer ''" by code_simp
  then have "take 7 (lower (''Bearer '' @ token)) = ''bearer ''" by (simp add: lower_def)
  then show "token \<noteq> [] \<Longrightarrow> strip py_space token = token \<Longrightarrow> parse_bearer (Some (''Bearer '' @ token)) = Inr token"
    by (simp add: parse_bearer_def Let_def)
qed

text \<open>Prices of up to 28 digits are recorded exactly.\<close>

lemma from_major_exact:
  assumes "from_major (Decimal c e) cur = Inr m" and "\<bar>c\<bar> < 10 ^ 28"
  shows "currency m = cur \<and> c * 10 ^ nat (e + 2) = minor m * 10 ^ nat (- (e + 2))"
proof -
  have fx: "dec_fix (Decimal c (e + 2)) = Decimal c (e + 2)" using assms(2) by (simp add: ndigits_PREC nat_less_iff)
  obtain x where "exponent_for cur = Inr x" using assms(1) by auto
  then have x: "exponent_for cur = Inr 2" by (simp add: exponent_for_ok)
  show ?thesis
  proof (cases "0 \<le> e + 2")
    case True
    with assms(1) x fx show ?thesis by (auto simp: Money_ok simp del: dec_fix.simps)
  next
    case False
    with assms(1) x fx show ?thesis by (auto simp: Money_ok simp del: dec_fix.simps split: if_splits)
  qed
qed

section \<open>Properties\<close>

text \<open>
  The token that \<^verbatim>\<open>create-principal\<close> prints lets its bearer in, as the principal with the subject that was given, as long as that
  principal is active.  A new principal has the role and the company of the arguments; for a subject that already exists both
  arguments are ignored, and the token speaks with the role and the company on record.
\<close>

theorem issued_token_authenticates:
  assumes "access_wf db" and "create_principal args token clock secret db = Inr (printed, db')"
    and "token \<noteq> []" and "strip py_space token = token"
  shows "access_wf db' \<and> (\<exists>p \<in> set (principals db'). pr_subject p = pa_subject args \<and>
    (pr_active p \<longrightarrow> (\<exists>cur db''. authenticate secret (Some (''Bearer '' @ printed)) rid now db' = Inr (cur, db'') \<and> speaks_for p rid (au_actor cur))) \<and>
    (if pa_subject args \<in> pr_subject ` set (principals db) then p \<in> set (principals db)
     else pr_active p \<and> pr_role p = pa_role args \<and> pr_company_id p = pa_company_id args))"
proof -
  obtain p c db1 where t: "printed = token"
    and c: "insert_credential (new_credential (pr_id p) (hash_token token secret) (pa_label args) (clock 1)) db1 = Inr (c, db')"
    and p: "(p \<in> set (principals db) \<and> pr_subject p = pa_subject args \<and> db1 = db) \<or>
      (pa_subject args \<notin> pr_subject ` set (principals db) \<and> insert_principal (new_principal args (clock 0)) db = Inr (p, db1))"
    using create_principal_ok [OF assms(2)] by metis
  have wf1: "access_wf db1" using p access_wf_insert_principal [OF assms(1)] assms(1) by (auto simp: new_principal_def)
  then have wf: "access_wf db'" using access_wf_insert_credential [OF _ c] by (simp add: new_credential_def)
  have mem: "p \<in> set (principals db')" using c p by (auto simp: insert_ok)
  have cr: "c \<in> set (credentials db')" "cr_token_hash c = hash_token token secret" "cr_principal_id c = pr_id p" "cr_revoked_at c = None" "cr_expires_at c = None"
    using c by (auto simp: insert_ok new_credential_def)
  have adm: "admits secret token now db' c p" if "pr_active p" using that cr mem by (simp add: admits_def expired_def)
  have au: "\<exists>cur db''. authenticate secret (Some (''Bearer '' @ printed)) rid now db' = Inr (cur, db'') \<and> speaks_for p rid (au_actor cur)" if "pr_active p"
    using authenticate_admits [OF wf bearer_of_token [OF assms(3,4)] adm [OF that], of rid] by (simp add: t speaks_for_def)
  have role: "if pa_subject args \<in> pr_subject ` set (principals db) then p \<in> set (principals db)
     else pr_active p \<and> pr_role p = pa_role args \<and> pr_company_id p = pa_company_id args" and sub: "pr_subject p = pa_subject args"
    using p by (auto simp: insert_ok new_principal_def intro: rev_image_eqI)
  show ?thesis using wf mem au role sub by blast
qed

definition sample_args :: "role \<Rightarrow> principal_args" where
  "sample_args rl = \<lparr>pa_subject = ''gate-7'', pa_role = rl, pa_display_name = ''Gate'', pa_company_id = None, pa_label = ''cli''\<rparr>"

lemma token_hash_chars: "CHR 0x00 \<notin> set (hmac_hexdigest k m)"
  using hex_chars [of "CHR 0x00"] by (auto simp: hmac_hexdigest_def)

lemma sample_created: "\<exists>db'. create_principal (sample_args rl) ''tok'' (\<lambda>_. 5) ''a'' (empty_db\<lparr>principals := [gate_principal ADMIN], next_uuid := 7\<rparr>) = Inr (''tok'', db')"
  by (simp add: create_principal_def sample_args_def gate_principal_def insert_credential_def insert_row_def credential_types_def credential_checks_def
      new_credential_def varchar_def unused_def foreign_key_def empty_db_def hash_token_def token_hash_chars Let_def)

text \<open>Here the operator asks for a device, and the subject is an administrator.\<close>

theorem issued_token_authenticates_witness:
  "\<exists>db' cur db''. create_principal (sample_args DEVICE) ''tok'' (\<lambda>_. 5) ''a'' (empty_db\<lparr>principals := [gate_principal ADMIN], next_uuid := 7\<rparr>) = Inr (''tok'', db') \<and>
    authenticate ''a'' (Some ''Bearer tok'') ''r'' 9 db' = Inr (cur, db'') \<and> ac_role (au_actor cur) = ADMIN"
proof -
  let ?db = "empty_db\<lparr>principals := [gate_principal ADMIN], next_uuid := 7\<rparr>"
  obtain db' where c: "create_principal (sample_args DEVICE) ''tok'' (\<lambda>_. 5) ''a'' ?db = Inr (''tok'', db')" using sample_created by blast
  have wf: "access_wf ?db" by (simp add: access_wf_def below_def empty_db_def gate_principal_def)
  have tok: "''tok'' \<noteq> []" "strip py_space ''tok'' = ''tok''" by (simp, code_simp)
  from issued_token_authenticates [OF wf c tok, of "''r''" 9] c show ?thesis
    by (auto simp: sample_args_def gate_principal_def speaks_for_def)
qed

end
