(* ===== verification/Application.thy ===== *)
theory Application
  imports Cli
begin

text \<open>
  How the processes are put together: \<^verbatim>\<open>runtime.py\<close>, \<^verbatim>\<open>api/middleware.py\<close>, \<^verbatim>\<open>api/app.py\<close> and \<^verbatim>\<open>worker/main.py\<close>.  The HTTP transport, the
  Redis client, the Kafka producer, the parsers of request bodies and the two middlewares of Starlette are parameters.
\<close>

section \<open>Wiring\<close>

text \<open>What a process gets from outside: the transport takes an API key and a timeout.\<close>

record ('r, 'w) externals =
  ex_http :: "string \<Rightarrow> rat \<Rightarrow> string \<Rightarrow> json_object \<Rightarrow> http_result"
  ex_redis :: "string \<Rightarrow> 'r redis"
  ex_kafka :: "settings \<Rightarrow> projection_envelope \<Rightarrow> 'w \<Rightarrow> unit res \<times> 'w"
  ex_loads :: "bytes \<Rightarrow> json option res"
  ex_verify_request :: "json_object \<Rightarrow> verify_request option"
  ex_remittance_request :: "json_object \<Rightarrow> remittance_request option"
  ex_text :: "exn \<Rightarrow> string"

definition provider :: "('r, 'w) externals \<Rightarrow> settings \<Rightarrow> string \<Rightarrow> provider_client" where
  "provider ex s base_url = \<lparr>pc_base_url = base_url, pc_post = ex_http ex (cf_external_api_key s) (cf_external_timeout_seconds s)\<rparr>"

definition compliance_clients :: "('r, 'w) externals \<Rightarrow> settings \<Rightarrow> compliance_service" where
  "compliance_clients ex s r =
     provider ex s (case r of FIRS \<Rightarrow> cf_firs_base_url s | NAFDAC \<Rightarrow> cf_nafdac_base_url s | SON \<Rightarrow> cf_son_base_url s | CUSTOMS \<Rightarrow> cf_customs_base_url s)"

text \<open>\<^verbatim>\<open>build_runtime\<close>, as far as the routes use the runtime and as far as the worker does.\<close>

definition build_service :: "('r, 'w) externals \<Rightarrow> settings \<Rightarrow> 'r service" where
  "build_service ex s =
     \<lparr>sv_api_token_secret = cf_api_token_secret s, sv_device_hmac_secret = cf_device_hmac_secret s,
      sv_payment_webhook_secret = cf_payment_webhook_secret s, sv_audit_chain_secret = cf_audit_chain_secret s, sv_revision = cf_revision s,
      sv_max_order_quantity = cf_max_order_quantity s, sv_idempotency_ttl_seconds = cf_idempotency_ttl_seconds s,
      sv_signature_max_skew_seconds = cf_signature_max_skew_seconds s, sv_nonce_ttl_seconds = cf_nonce_ttl_seconds s,
      sv_rate_limit_window_seconds = cf_rate_limit_window_seconds s, sv_rate_limit_default = cf_rate_limit_default s,
      sv_rate_limit_verify = cf_rate_limit_verify s, sv_compliance = compliance_clients ex s, sv_redis = ex_redis ex (cf_redis_url s),
      sv_loads = ex_loads ex, sv_verify_request = ex_verify_request ex, sv_remittance_request = ex_remittance_request ex\<rparr>"

definition build_worker :: "('r, 'w) externals \<Rightarrow> settings \<Rightarrow> 'w runtime" where
  "build_worker ex s =
     \<lparr>rt_issuance_chunk_size = cf_issuance_chunk_size s, rt_device_hmac_secret = cf_device_hmac_secret s,
      rt_audit_chain_secret = cf_audit_chain_secret s, rt_revision = cf_revision s, rt_outbox_lease_seconds = cf_outbox_lease_seconds s,
      rt_outbox_batch_size = cf_outbox_batch_size s, rt_outbox_max_attempts = cf_outbox_max_attempts s,
      rt_anchor = provider ex s (cf_ledger_anchor_base_url s), rt_tigerbeetle_client = None,
      rt_kafka_publisher = (if cf_kafka_bootstrap_servers s \<noteq> [] then Some (ex_kafka ex s) else None), rt_text = ex_text ex\<rparr>"

lemma built_alike: "configured_alike (build_service ex s) (build_worker ex s)"
  by (simp add: configured_alike_def build_service_def build_worker_def)

section \<open>The middleware of the application\<close>

type_synonym headers = "(string \<times> string) list"

definition SECURITY_HEADERS :: headers where
  "SECURITY_HEADERS =
     [(''x-content-type-options'', ''nosniff''), (''x-frame-options'', ''DENY''), (''referrer-policy'', ''no-referrer''),
      (''cache-control'', ''no-store''), (''content-security-policy'', ''default-src '' @ [CHR 39] @ ''none'' @ [CHR 39] @ ''; frame-ancestors '' @ [CHR 39] @ ''none'' @ [CHR 39]),
      (''strict-transport-security'', ''max-age=31536000; includeSubDomains'')]"

record request_context_middleware =
  mw_require_tls :: bool
  mw_trust_proxy_headers :: bool
  mw_trusted_proxy_networks :: "network list"

definition init_middleware :: "bool \<Rightarrow> bool \<Rightarrow> string list \<Rightarrow> request_context_middleware res" where
  "init_middleware require_tls trust_proxy_headers trusted_proxy_cidrs =
     bind_res (map_res (ip_network True) trusted_proxy_cidrs) (\<lambda>nets.
     Inr \<lparr>mw_require_tls = require_tls, mw_trust_proxy_headers = trust_proxy_headers, mw_trusted_proxy_networks = nets\<rparr>)"

text \<open>What the server knows of a connection, and the header a proxy may have set.\<close>

record connection =
  cn_scheme :: string
  cn_client :: "string option"
  cn_forwarded_proto :: "string option"

definition forwarded_https :: "connection \<Rightarrow> bool" where
  "forwarded_https cn =
     (let forwarded = (case cn_forwarded_proto cn of None \<Rightarrow> [] | Some v \<Rightarrow> v) in
      lower (strip py_space (hd (split_char (CHR '','') forwarded))) = ''https'')"

definition is_secure :: "request_context_middleware \<Rightarrow> connection \<Rightarrow> bool" where
  "is_secure mw cn =
     (if cn_scheme cn = ''https'' then True
      else if \<not> mw_trust_proxy_headers mw then False
      else case cn_client cn of
        None \<Rightarrow> False
      | Some host \<Rightarrow>
          (case ip_address host of
             Inl e \<Rightarrow> False
           | Inr remote_address \<Rightarrow>
               if \<not> list_ex (in_network remote_address) (mw_trusted_proxy_networks mw) then False else forwarded_https cn))"

text \<open>
  The handlers of \<^verbatim>\<open>errors.py\<close> that run inside the middlewares; the one for \<^verbatim>\<open>Exception\<close> is run by the outermost layer, and what it
  handles passes through the middlewares as an exception.
\<close>

definition has_handler :: "exn \<Rightarrow> bool" where
  "has_handler e = (domain_error e \<noteq> None \<or> e \<in> {RequestValidationError, IntegrityError, DataError})"

definition handle_errors :: "'r service \<Rightarrow> http_request \<Rightarrow> api_request \<Rightarrow> db \<times> 'r \<Rightarrow> response res \<times> db \<times> 'r" where
  "handle_errors sv hq q s =
     (case route sv hq q s of
        (Inl e, s') \<Rightarrow> (if has_handler e then Inr (case error_response e of (status, code) \<Rightarrow> Error status code) else Inl e, s')
      | (Inr (status, document), s') \<Rightarrow> (Inr (Document status document), s'))"

definition setdefault :: "headers \<Rightarrow> string \<times> string \<Rightarrow> headers" where
  "setdefault hs h = (if fst h \<in> fst ` set hs then hs else hs @ [h])"

definition dispatch ::
  "request_context_middleware \<Rightarrow> string \<Rightarrow> connection \<Rightarrow> ('s \<Rightarrow> response res \<times> 's) \<Rightarrow> 's \<Rightarrow> (response \<times> headers) res \<times> 's" where
  "dispatch mw identifier cn call_next s =
     (if mw_require_tls mw \<and> \<not> is_secure mw cn
      then (Inr (Error 400 ''tls_required'', [(''x-request-id'', identifier)]), s)
      else case call_next s of
        (Inl e, s) \<Rightarrow> (Inl e, s)
      | (Inr response, s) \<Rightarrow> (Inr (response, foldl setdefault [(''x-request-id'', identifier)] SECURITY_HEADERS), s))"

section \<open>The application\<close>

text \<open>
  The middlewares of Starlette.  Each may answer a connection itself; the one for CORS also adds headers to answers that pass it.
  They are told the configured hosts and origins.
\<close>

record starlette =
  sl_trusted_host :: "string list \<Rightarrow> connection \<Rightarrow> http_request \<Rightarrow> (response \<times> headers) option"
  sl_cors :: "string list \<Rightarrow> connection \<Rightarrow> http_request \<Rightarrow> (response \<times> headers) option"
  sl_cors_headers :: "string list \<Rightarrow> connection \<Rightarrow> http_request \<Rightarrow> headers \<Rightarrow> headers"

definition trusted_host_layer :: "starlette \<Rightarrow> settings \<Rightarrow> connection \<Rightarrow> http_request \<Rightarrow> ('s \<Rightarrow> (response \<times> headers) res \<times> 's) \<Rightarrow> 's \<Rightarrow> (response \<times> headers) res \<times> 's" where
  "trusted_host_layer sl s cn hq next st =
     (if trusted_host_list s = [] then next st
      else case sl_trusted_host sl (trusted_host_list s) cn hq of Some answer \<Rightarrow> (Inr answer, st) | None \<Rightarrow> next st)"

definition cors_layer :: "starlette \<Rightarrow> settings \<Rightarrow> connection \<Rightarrow> http_request \<Rightarrow> ('s \<Rightarrow> (response \<times> headers) res \<times> 's) \<Rightarrow> 's \<Rightarrow> (response \<times> headers) res \<times> 's" where
  "cors_layer sl s cn hq next st =
     (if cors_origins s = [] then next st
      else case sl_cors sl (cors_origins s) cn hq of
        Some answer \<Rightarrow> (Inr answer, st)
      | None \<Rightarrow> (case next st of (Inl e, st) \<Rightarrow> (Inl e, st) | (Inr (r, hs), st) \<Rightarrow> (Inr (r, sl_cors_headers sl (cors_origins s) cn hq hs), st)))"

text \<open>The middleware added last is the outermost; outside of all of them an exception becomes the answer of \<^verbatim>\<open>_unhandled\<close>.\<close>

definition server_error :: "('s \<Rightarrow> (response \<times> headers) res \<times> 's) \<Rightarrow> 's \<Rightarrow> (response \<times> headers) \<times> 's" where
  "server_error next st = (case next st of (Inl e, st) \<Rightarrow> ((Error 500 ''internal_error'', []), st) | (Inr answer, st) \<Rightarrow> (answer, st))"

type_synonym 'r application = "connection \<Rightarrow> http_request \<Rightarrow> api_request \<Rightarrow> db \<times> 'r \<Rightarrow> (response \<times> headers) \<times> db \<times> 'r"

text \<open>\<^verbatim>\<open>create_app\<close>; the server builds the layers before it takes the first connection, and stops when a layer cannot be built.\<close>

definition create_app :: "starlette \<Rightarrow> ('r, 'w) externals \<Rightarrow> settings \<Rightarrow> 'r application res" where
  "create_app sl ex s =
     bind_res (init_middleware (cf_require_tls s) (cf_trust_proxy_headers s) (trusted_proxy_cidr_list s)) (\<lambda>mw.
     Inr (\<lambda>cn hq q. server_error (cors_layer sl s cn hq (trusted_host_layer sl s cn hq
       (dispatch mw (Access.request_id (hq_x_request_id hq) (hq_fresh_id hq)) cn (handle_errors (build_service ex s) hq q))))))"

section \<open>The worker\<close>

definition POLL_INTERVAL_SECONDS :: int where "POLL_INTERVAL_SECONDS = 1"
definition EXPIRY_INTERVAL_SECONDS :: int where "EXPIRY_INTERVAL_SECONDS = 300"
definition RECONCILE_INTERVAL_SECONDS :: int where "RECONCILE_INTERVAL_SECONDS = 900"

text \<open>The readings of the clock in one pass of the loop.\<close>

record pass =
  ps_relay_now :: instant
  ps_relay_clock :: "nat \<Rightarrow> nat \<Rightarrow> nat \<Rightarrow> instant"
  ps_now :: instant
  ps_expiry_now :: instant
  ps_reconcile_now :: instant

record schedule =
  sc_last_expiry :: "instant option"
  sc_last_reconcile :: "instant option"

text \<open>The body of the loop; waiting for the next poll has no effect.  An exception ends the loop.\<close>

definition worker_pass :: "'w runtime \<Rightarrow> string \<Rightarrow> pass \<Rightarrow> schedule \<Rightarrow> db \<times> 'w \<Rightarrow> schedule res \<times> db \<times> 'w" where
  "worker_pass rt worker_id ps sc st =
     (case relay_once rt worker_id (ps_relay_now ps) (ps_relay_clock ps) st of
        (Inl e, st) \<Rightarrow> (Inl e, st)
      | (Inr stats, db, w) \<Rightarrow>
          let expiry = next_due (sc_last_expiry sc) (ps_now ps) EXPIRY_INTERVAL_SECONDS;
              reconciliation = next_due (sc_last_reconcile sc) (ps_now ps) RECONCILE_INTERVAL_SECONDS in
          (case (if expiry then bind_res (expire_stamps_once rt (ps_expiry_now ps) 5000 db) (\<lambda>(n, db). Inr db) else Inr db) of
             Inl e \<Rightarrow> (Inl e, db, w)
           | Inr db \<Rightarrow>
               (case (if reconciliation then bind_res (reconcile_once rt (ps_reconcile_now ps) db) (\<lambda>(b, db). Inr db) else Inr db) of
                  Inl e \<Rightarrow> (Inl e, db, w)
                | Inr db \<Rightarrow>
                    (Inr \<lparr>sc_last_expiry = (if expiry then Some (ps_now ps) else sc_last_expiry sc),
                          sc_last_reconcile = (if reconciliation then Some (ps_now ps) else sc_last_reconcile sc)\<rparr>, db, w))))"

text \<open>The loop until the stop event is set, after as many passes as there are readings.\<close>

fun worker_run :: "'w runtime \<Rightarrow> string \<Rightarrow> pass list \<Rightarrow> schedule \<Rightarrow> db \<times> 'w \<Rightarrow> schedule res \<times> db \<times> 'w" where
  "worker_run rt worker_id [] sc st = (Inr sc, st)"
| "worker_run rt worker_id (ps # pss) sc st =
     (case worker_pass rt worker_id ps sc st of (Inl e, st) \<Rightarrow> (Inl e, st) | (Inr sc, st) \<Rightarrow> worker_run rt worker_id pss sc st)"

definition worker :: "'w runtime \<Rightarrow> string \<Rightarrow> pass list \<Rightarrow> db \<times> 'w \<Rightarrow> schedule res \<times> db \<times> 'w" where
  "worker rt worker_id pss = worker_run rt worker_id pss \<lparr>sc_last_expiry = None, sc_last_reconcile = None\<rparr>"

section \<open>A deployment\<close>

text \<open>
  The processes of a deployment that run on one configuration: connections to the application, passes of the worker and commands
  of the administration in any order.  A worker that raised is started again, with nothing scheduled before.
\<close>

datatype event = Http connection http_request api_request | Worker_pass string pass | Command "nat \<Rightarrow> instant" command

definition fresh_schedule :: schedule where
  "fresh_schedule = \<lparr>sc_last_expiry = None, sc_last_reconcile = None\<rparr>"

fun happen :: "'r application \<Rightarrow> ('r, 'w) externals \<Rightarrow> settings \<Rightarrow> event \<Rightarrow> db \<times> 'r \<times> 'w \<times> schedule \<Rightarrow> db \<times> 'r \<times> 'w \<times> schedule" where
  "happen app ex s (Http cn hq q) (db, r, w, sc) = (case app cn hq q (db, r) of (answer, db, r) \<Rightarrow> (db, r, w, sc))"
| "happen app ex s (Worker_pass worker_id ps) (db, r, w, sc) =
     (case worker_pass (build_worker ex s) worker_id ps sc (db, w) of
        (Inl e, db, w) \<Rightarrow> (db, r, w, fresh_schedule)
      | (Inr sc, db, w) \<Rightarrow> (db, r, w, sc))"
| "happen app ex s (Command clock cmd) (db, r, w, sc) =
     (case cli s clock cmd db of Inl e \<Rightarrow> (db, r, w, sc) | Inr (code, db) \<Rightarrow> (db, r, w, sc))"

fun unfolds :: "'r application \<Rightarrow> ('r, 'w) externals \<Rightarrow> settings \<Rightarrow> event list \<Rightarrow> db \<times> 'r \<times> 'w \<times> schedule \<Rightarrow> db \<times> 'r \<times> 'w \<times> schedule" where
  "unfolds app ex s [] st = st"
| "unfolds app ex s (ev # evs) st = unfolds app ex s evs (happen app ex s ev st)"

section \<open>Lemmas\<close>

lemma handle_errors_route: "snd (handle_errors sv hq q st) = snd (route sv hq q st)"
  by (auto simp: handle_errors_def split: prod.splits sum.splits)

lemma no_handler_response: "\<not> has_handler e \<Longrightarrow> error_response e = (500, ''internal_error'')"
  by (auto simp: has_handler_def error_response_def split: option.splits)

text \<open>Whether a connection came over TLS: directly, or so says a proxy in a trusted network.\<close>

definition came_over_tls :: "settings \<Rightarrow> connection \<Rightarrow> bool" where
  "came_over_tls s cn =
     (cn_scheme cn = ''https'' \<or>
      (cf_trust_proxy_headers s \<and> forwarded_https cn \<and>
       (\<exists>host address c net. cn_client cn = Some host \<and> ip_address host = Inr address \<and> c \<in> set (trusted_proxy_cidr_list s) \<and>
          ip_network True c = Inr net \<and> in_network address net)))"

lemma map_res_members: "map_res f xs = Inr ys \<Longrightarrow> y \<in> set ys \<Longrightarrow> \<exists>x \<in> set xs. f x = Inr y"
  by (induction xs arbitrary: ys) auto

lemma map_res_members': "map_res f xs = Inr ys \<Longrightarrow> x \<in> set xs \<Longrightarrow> \<exists>y \<in> set ys. f x = Inr y"
  by (induction xs arbitrary: ys) auto

lemma map_res_Inl: "(\<exists>e. map_res f xs = Inl e) \<longleftrightarrow> (\<exists>x \<in> set xs. \<exists>e. f x = Inl e)"
proof (induction xs)
  case (Cons x xs)
  then show ?case by (cases "f x"; cases "map_res f xs") auto
qed simp

lemma is_secure_tls:
  assumes "init_middleware require (cf_trust_proxy_headers s) (trusted_proxy_cidr_list s) = Inr mw"
  shows "is_secure mw cn \<longleftrightarrow> came_over_tls s cn"
proof -
  obtain nets where m: "map_res (ip_network True) (trusted_proxy_cidr_list s) = Inr nets" and mw: "mw_trusted_proxy_networks mw = nets"
    "mw_trust_proxy_headers mw = cf_trust_proxy_headers s"
    using assms by (auto simp: init_middleware_def)
  have "list_ex (in_network a) nets \<longleftrightarrow> (\<exists>c net. c \<in> set (trusted_proxy_cidr_list s) \<and> ip_network True c = Inr net \<and> in_network a net)" for a
    using map_res_members [OF m] map_res_members' [OF m] by (fastforce simp: list_ex_iff)
  then show ?thesis by (auto simp: is_secure_def came_over_tls_def mw split: option.splits sum.splits)
qed

text \<open>What an application is made of.\<close>

lemma create_app_ok:
  assumes "create_app sl ex s = Inr app"
  obtains mw where "init_middleware (cf_require_tls s) (cf_trust_proxy_headers s) (trusted_proxy_cidr_list s) = Inr mw"
    "app = (\<lambda>cn hq q. server_error (cors_layer sl s cn hq (trusted_host_layer sl s cn hq
       (dispatch mw (Access.request_id (hq_x_request_id hq) (hq_fresh_id hq)) cn (handle_errors (build_service ex s) hq q)))))"
  using assms by (auto simp: create_app_def)

text \<open>
  What the application relies on of a layer around it: a connection that the layer does not pass on changes nothing, and one that
  it passes on changes what the inner layer changes.
\<close>

locale http_layer =
  fixes wrap :: "('s \<Rightarrow> (response \<times> headers) res \<times> 's) \<Rightarrow> 's \<Rightarrow> (response \<times> headers) res \<times> 's"
  assumes passes_on: "snd (wrap next st) \<in> {st, snd (next st)}"
begin

lemma changes_within: "snd (next st) \<in> {st, st'} \<Longrightarrow> snd (wrap next st) \<in> {st, st'}"
  using passes_on [of "next" st] by auto

end

interpretation cors: http_layer "cors_layer sl s cn hq" for sl s cn hq
  by unfold_locales (auto simp: cors_layer_def split: prod.splits sum.splits option.splits)

interpretation trusted_host: http_layer "trusted_host_layer sl s cn hq" for sl s cn hq
  by unfold_locales (auto simp: trusted_host_layer_def split: option.splits)

lemma dispatch_state: "snd (dispatch mw i cn f st) \<in> {st, snd (f st)}"
  by (auto simp: dispatch_def split: prod.splits sum.splits)

lemma server_error_state: "snd (server_error next st) = snd (next st)"
  by (auto simp: server_error_def split: prod.splits sum.splits)

lemma layers_state:
  "snd (server_error (cors_layer sl s cn hq (trusted_host_layer sl s cn hq (dispatch mw i cn f))) st) \<in> {st, snd (f st)}"
  unfolding server_error_state by (intro cors.changes_within trusted_host.changes_within dispatch_state)

lemma application_reaches:
  assumes "create_app sl ex s = Inr app" and "app cn hq q (db, r) = (answer, db', r')"
  shows "reach (build_worker ex s) db db'"
proof -
  obtain mw where app: "app = (\<lambda>cn hq q. server_error (cors_layer sl s cn hq (trusted_host_layer sl s cn hq
       (dispatch mw (Access.request_id (hq_x_request_id hq) (hq_fresh_id hq)) cn (handle_errors (build_service ex s) hq q)))))"
    using create_app_ok [OF assms(1)] by metis
  have "(db', r') = snd (app cn hq q (db, r))" using assms(2) by simp
  then have "(db', r') = (db, r) \<or> (db', r') = snd (route (build_service ex s) hq q (db, r))"
    using layers_state [of sl s cn hq mw _ "handle_errors (build_service ex s) hq q" "(db, r)"] unfolding app handle_errors_route by auto
  moreover have "reach (build_worker ex s) db (fst (snd (route (build_service ex s) hq q (db, r))))"
    using runs_route [OF built_alike, of ex s hq q] unfolding runs_def by (metis prod.collapse)
  ultimately show ?thesis by (metis fst_conv reach_refl)
qed

lemma worker_pass_steps:
  assumes "worker_pass rt wid ps sc (db, w) = (x, db', w')"
  shows "(step rt)\<^sup>*\<^sup>* (db, w) (db', w')"
proof -
  obtain y db1 w1 where re: "relay_once rt wid (ps_relay_now ps) (ps_relay_clock ps) (db, w) = (y, db1, w1)" using prod_cases3 by blast
  then have 1: "(step rt)\<^sup>*\<^sup>* (db, w) (db1, w1)" by (intro r_into_rtranclp) (rule step.relay_once)
  have ex: "reach rt d d'" if "expire_stamps_once rt t l d = Inr (n, d')" for t l n d d' using that by (intro reach_step) (rule step.expire_stamps_once)
  have rc: "reach rt d d'" if r: "reconcile_once rt t d = Inr (b, d')" for t b d d'
  proof -
    obtain report where "run_reconciliation t (rt_audit_chain_secret rt) 900 [] [] d = Inr (report, d')" using r by (auto simp: reconcile_once_def)
    then show ?thesis by (intro reach_step) (rule step.run_reconciliation)
  qed
  have "w' = w1 \<and> reach rt db1 db'"
  proof (cases y)
    case (Inl e)
    with assms re show ?thesis by (simp add: worker_pass_def)
  next
    case (Inr stats)
    with assms re show ?thesis
      by (auto simp: worker_pass_def Let_def split: sum.splits if_splits dest!: ex rc intro: reach_trans)
  qed
  then have "(step rt)\<^sup>*\<^sup>* (db1, w1) (db', w')" by (simp add: reach_def)
  with 1 show ?thesis by (rule rtranclp_trans)
qed

lemma happen_steps:
  assumes app: "create_app sl ex s = Inr app" and h: "happen app ex s ev (db, r, w, sc) = (db', r', w', sc')"
  shows "(step (build_worker ex s))\<^sup>*\<^sup>* (db, w) (db', w')"
proof (cases ev)
  case (Http cn hq q)
  obtain answer db1 r1 where a: "app cn hq q (db, r) = (answer, db1, r1)" using prod_cases3 by blast
  with h Http have "db' = db1" "w' = w" by simp_all
  with application_reaches [OF app a] show ?thesis by (simp add: reach_def)
next
  case (Worker_pass wid ps)
  obtain x db1 w1 where a: "worker_pass (build_worker ex s) wid ps sc (db, w) = (x, db1, w1)" using prod_cases3 by blast
  with h Worker_pass have "db' = db1" "w' = w1" by (cases x; simp)+
  with worker_pass_steps [OF a] show ?thesis by simp
next
  case (Command clock cmd)
  with h show ?thesis using cli_reaches [of s clock cmd db _ db' "build_worker ex s"] by (auto simp: reach_def split: sum.splits prod.splits)
qed

lemma unfolds_steps:
  assumes "create_app sl ex s = Inr app" and "unfolds app ex s evs (db, r, w, sc) = (db', r', w', sc')"
  shows "(step (build_worker ex s))\<^sup>*\<^sup>* (db, w) (db', w')"
  using assms(2)
proof (induction evs arbitrary: db r w sc)
  case (Cons ev evs)
  obtain db1 r1 w1 sc1 where h: "happen app ex s ev (db, r, w, sc) = (db1, r1, w1, sc1)" by (cases "happen app ex s ev (db, r, w, sc)")
  with Cons have "(step (build_worker ex s))\<^sup>*\<^sup>* (db1, w1) (db', w')" by simp
  with happen_steps [OF assms(1) h] show ?case by (rule rtranclp_trans)
qed simp

section \<open>A sample deployment\<close>

definition sample_externals :: "(string set \<times> (string \<Rightarrow> int), unit) externals" where
  "sample_externals =
     \<lparr>ex_http = (\<lambda>_ _ _ _. TransportError), ex_redis = (\<lambda>_. sample_redis), ex_kafka = (\<lambda>_ _ w. (Inl DependencyUnavailable, w)),
      ex_loads = (\<lambda>_. Inr None), ex_verify_request = (\<lambda>_. None), ex_remittance_request = (\<lambda>_. None), ex_text = (\<lambda>_. ''error'')\<rparr>"

definition sample_starlette :: starlette where
  "sample_starlette = \<lparr>sl_trusted_host = (\<lambda>_ _ _. None), sl_cors = (\<lambda>_ _ _. None), sl_cors_headers = (\<lambda>_ _ _ hs. hs)\<rparr>"

definition deployed :: settings where
  "deployed = production_settings\<lparr>cf_kms_key_reference := ''alias/stamps'', cf_trusted_proxy_cidrs := ''10.0.0.0/8,192.168.1.7'',
     cf_keycloak_issuer_url := ''https://id.gov.ng''\<rparr>"

lemma deployed_accepted: "Settings production_settings = Inr deployed"
  unfolding deployed_def by (rule production_settings_accepted)

lemma deployed_fields: "cf_env deployed = PRODUCTION" "cf_trust_proxy_headers deployed" "trusted_proxy_cidr_list deployed = [''10.0.0.0/8'', ''192.168.1.7'']"
  by code_simp+

lemma deployed_app: "\<exists>app. create_app sl ex deployed = Inr app"
proof -
  have "is_ok (map_res (ip_network True) [''10.0.0.0/8'', ''192.168.1.7''])" by code_simp
  then show ?thesis unfolding create_app_def init_middleware_def deployed_fields is_ok_iff by auto
qed

definition plain_connection :: "string \<Rightarrow> connection" where
  "plain_connection host = \<lparr>cn_scheme = ''http'', cn_client = Some host, cn_forwarded_proto = Some ''HTTPS, http''\<rparr>"

lemma plain_not_tls: "\<not> came_over_tls deployed (plain_connection ''11.0.0.1'')"
proof -
  have a: "ip_address ''11.0.0.1'' = Inr (V4 184549377)" by code_simp
  have n: "list_all (\<lambda>c. case ip_network True c of Inl e \<Rightarrow> True | Inr net \<Rightarrow> \<not> in_network (V4 184549377) net) [''10.0.0.0/8'', ''192.168.1.7'']" by code_simp
  then show ?thesis unfolding came_over_tls_def deployed_fields by (auto simp: plain_connection_def a list_all_iff)
qed

lemma proxied_tls: "came_over_tls deployed (plain_connection ''10.1.2.3'')"
proof -
  have a: "ip_address ''10.1.2.3'' = Inr (V4 167838211)" by code_simp
  have n: "ip_network True ''10.0.0.0/8'' = Inr \<lparr>nw_v6 = False, nw_address = 167772160, nw_prefixlen = 8\<rparr>" by code_simp
  have i: "in_network (V4 167838211) \<lparr>nw_v6 = False, nw_address = 167772160, nw_prefixlen = 8\<rparr>" by code_simp
  have f: "forwarded_https (plain_connection ''10.1.2.3'')" by code_simp
  show ?thesis unfolding came_over_tls_def deployed_fields using deployed_fields(2) a n i f by (auto simp: plain_connection_def)
qed

section \<open>Properties\<close>

text \<open>
  C5. The processes of a deployment together.  Whatever requests, passes of the worker and commands of the administration happen on one
  configuration, in any order and with any failure of the external systems, what they do is a sequence of steps of the platform;
  the invariant of the platform is kept, and stamps only move along their life cycle.
\<close>

theorem deployment_refines_platform:
  assumes "create_app sl ex s = Inr app" and "unfolds app ex s events (db, r, w, sc) = (db', r', w', sc')"
  shows "(step (build_worker ex s))\<^sup>*\<^sup>* (db, w) (db', w') \<and>
    (system_inv (cf_audit_chain_secret s) db \<longrightarrow> system_inv (cf_audit_chain_secret s) db' \<and> stamps_move db db')"
proof -
  have k: "rt_audit_chain_secret (build_worker ex s) = cf_audit_chain_secret s" by (simp add: build_worker_def)
  have st: "(step (build_worker ex s))\<^sup>*\<^sup>* (db, w) (db', w')" by (rule unfolds_steps [OF assms])
  with steps_well [OF st, unfolded k] show ?thesis by (simp add: goes_well_def)
qed

theorem deployment_refines_platform_witness:
  "\<exists>app db' r' w' sc'. create_app sample_starlette sample_externals deployed = Inr app \<and>
    unfolds app sample_externals deployed [Command (\<lambda>_. 0) (Create_principal (sample_args AUDITOR) ''tok''),
        Http (plain_connection ''10.1.2.3'') sample_http Audit_chain, Worker_pass ''w'' \<lparr>ps_relay_now = 5, ps_relay_clock = (\<lambda>_ _ _. 5), ps_now = 6, ps_expiry_now = 7, ps_reconcile_now = 8\<rparr>]
      (empty_db, ({}, \<lambda>_. 0), (), fresh_schedule) = (db', r', w', sc') \<and> system_inv (cf_audit_chain_secret deployed) db'"
proof -
  let ?evs = "[Command (\<lambda>_. 0) (Create_principal (sample_args AUDITOR) ''tok''), Http (plain_connection ''10.1.2.3'') sample_http Audit_chain,
    Worker_pass ''w'' \<lparr>ps_relay_now = 5, ps_relay_clock = (\<lambda>_ _ _. 5), ps_now = 6, ps_expiry_now = 7, ps_reconcile_now = 8\<rparr>]"
  obtain app where app: "create_app sample_starlette sample_externals deployed = Inr app" using deployed_app by blast
  obtain db' r' w' sc' where u: "unfolds app sample_externals deployed ?evs (empty_db, ({}, \<lambda>_. 0), (), fresh_schedule) = (db', r', w', sc')"
    by (metis prod_cases4)
  from deployment_refines_platform [OF app u] empty_db_inv app u show ?thesis by blast
qed

text \<open>
  C22. TLS.  In staging and production a connection that came neither over TLS nor, as the header of a proxy in a trusted network says,
  over TLS to that proxy, changes nothing, whatever credentials it carries: it is refused with status 400, unless Starlette
  has answered it before.
\<close>

theorem insecure_requests_refused:
  assumes "Settings raw = Inr s" and "cf_env s = PRODUCTION \<or> cf_env s = STAGING" and "create_app sl ex s = Inr app"
    and "app cn hq q st = (answer, st')" and "\<not> came_over_tls s cn"
  shows "st' = st \<and> (fst answer = Error 400 ''tls_required'' \<or> sl_cors sl (cors_origins s) cn hq = Some answer \<or>
    (\<exists>a. sl_trusted_host sl (trusted_host_list s) cn hq = Some a \<and> fst answer = fst a))"
proof -
  have tls: "cf_require_tls s" using assms(1,2) unfolding Settings_ok validate_deployment_ok by auto
  obtain mw where mw: "init_middleware (cf_require_tls s) (cf_trust_proxy_headers s) (trusted_proxy_cidr_list s) = Inr mw"
    and app: "app = (\<lambda>cn hq q. server_error (cors_layer sl s cn hq (trusted_host_layer sl s cn hq
       (dispatch mw (Access.request_id (hq_x_request_id hq) (hq_fresh_id hq)) cn (handle_errors (build_service ex s) hq q)))))"
    using create_app_ok [OF assms(3)] by metis
  have "mw_require_tls mw" using mw tls by (auto simp: init_middleware_def)
  moreover have "\<not> is_secure mw cn" using is_secure_tls [OF mw] assms(5) by simp
  ultimately have "dispatch mw i cn f st = (Inr (Error 400 ''tls_required'', [(''x-request-id'', i)]), st)" for i and f :: "db \<times> 'a \<Rightarrow> response res \<times> db \<times> 'a"
    by (simp add: dispatch_def)
  with assms(4) show ?thesis unfolding app
    by (cases answer) (auto simp: server_error_def cors_layer_def trusted_host_layer_def split: if_splits option.splits prod.splits)
qed

theorem insecure_requests_refused_witness:
  "\<exists>app answer. create_app sample_starlette sample_externals deployed = Inr app \<and>
    app (plain_connection ''11.0.0.1'') sample_http Audit_chain (empty_db, ({}, \<lambda>_. 0)) = (answer, empty_db, ({}, \<lambda>_. 0)) \<and>
    fst answer = Error 400 ''tls_required'' \<and> came_over_tls deployed (plain_connection ''10.1.2.3'')"
proof -
  obtain app where app: "create_app sample_starlette sample_externals deployed = Inr app" using deployed_app by blast
  obtain answer st' where a: "app (plain_connection ''11.0.0.1'') sample_http Audit_chain (empty_db, ({}, \<lambda>_. 0)) = (answer, st')" by (cases "app (plain_connection ''11.0.0.1'') sample_http Audit_chain (empty_db, ({}, \<lambda>_. 0))")
  have "cf_env deployed = PRODUCTION \<or> cf_env deployed = STAGING" by (simp add: deployed_fields)
  from insecure_requests_refused [OF deployed_accepted this app a plain_not_tls] a app proxied_tls show ?thesis
    unfolding sample_starlette_def starlette.simps option.distinct simp_thms by blast
qed

text \<open>
  C31. Two readings of the same setting.  The settings accept a trusted network whose address has bits set beyond its mask; the
  middleware refuses it.  So an application with accepted settings fails to start exactly when one of its networks is written
  that way, and there are such settings for production.
\<close>

theorem accepted_settings_fail_to_start:
  assumes "Settings raw = Inr s"
  shows "((\<exists>e. create_app sl ex s = Inl e) \<longleftrightarrow> (\<exists>c \<in> set (trusted_proxy_cidr_list s). ip_network True c \<noteq> ip_network False c)) \<and>
    (\<exists>raw' s'. Settings raw' = Inr s' \<and> cf_env s' = PRODUCTION \<and> create_app sl ex s' = Inl ValueError)"
proof
  have ok: "is_ok (ip_network False c)" if "c \<in> set (trusted_proxy_cidr_list s)" for c
    using that assms validate_fields_urls(2) unfolding Settings_ok by (fastforce simp: list_all_iff)
  have strict: "(\<exists>e. ip_network True c = Inl e) \<longleftrightarrow> ip_network True c \<noteq> ip_network False c" if "c \<in> set (trusted_proxy_cidr_list s)" for c
    using ok [OF that] by (auto simp: ip_network_def network_of_def Let_def split: option.splits prod.splits if_splits)
  have "(\<exists>e. create_app sl ex s = Inl e) \<longleftrightarrow> (\<exists>e. map_res (ip_network True) (trusted_proxy_cidr_list s) = Inl e)"
    unfolding create_app_def init_middleware_def by (cases "map_res (ip_network True) (trusted_proxy_cidr_list s)") simp_all
  then show "(\<exists>e. create_app sl ex s = Inl e) \<longleftrightarrow> (\<exists>c \<in> set (trusted_proxy_cidr_list s). ip_network True c \<noteq> ip_network False c)"
    using strict unfolding map_res_Inl by blast
  let ?raw = "production_settings\<lparr>cf_trusted_proxy_cidrs := ''10.0.0.1/8''\<rparr>"
  let ?s = "?raw\<lparr>cf_kms_key_reference := ''alias/stamps'', cf_keycloak_issuer_url := ''https://id.gov.ng''\<rparr>"
  have a: "Settings ?raw = Inr ?s" by code_simp
  have "map_res (ip_network True) (trusted_proxy_cidr_list ?s) = Inl ValueError" by code_simp
  then have "create_app sl ex ?s = Inl ValueError" unfolding create_app_def init_middleware_def by simp
  moreover have "cf_env ?s = PRODUCTION" by (simp add: production_settings_def)
  ultimately show "\<exists>raw' s'. Settings raw' = Inr s' \<and> cf_env s' = PRODUCTION \<and> create_app sl ex s' = Inl ValueError" using a by blast
qed

theorem accepted_settings_fail_to_start_witness:
  "(\<exists>c \<in> set (trusted_proxy_cidr_list deployed). ip_network True c \<noteq> ip_network False c) \<longleftrightarrow> (\<exists>e. create_app sample_starlette sample_externals deployed = Inl e)"
  using accepted_settings_fail_to_start [OF deployed_accepted] by blast

end
