(* ===== verification/Capabilities.thy ===== *)
theory Capabilities
  imports Application
begin

text \<open>
  \<^verbatim>\<open>capabilities.py\<close>, \<^verbatim>\<open>integrations.py\<close> and \<^verbatim>\<open>key_management.py\<close>: what a deployment says of itself, computed from its settings alone,
  and the routes of \<^verbatim>\<open>api/routers/ops.py\<close> that report on the process.
\<close>

section \<open>Capabilities\<close>

datatype capability_state = IMPLEMENTED | REQUIRES_CONFIGURATION | CONFIGURED_NOT_VERIFIED | NOT_IMPLEMENTED

fun capability_state_value :: "capability_state \<Rightarrow> string" where
  "capability_state_value IMPLEMENTED = ''implemented''"
| "capability_state_value REQUIRES_CONFIGURATION = ''requires_configuration''"
| "capability_state_value CONFIGURED_NOT_VERIFIED = ''configured_not_verified''"
| "capability_state_value NOT_IMPLEMENTED = ''not_implemented''"

record capability =
  cp_name :: string
  cp_state :: capability_state
  cp_detail :: string

definition Capability :: "string \<Rightarrow> capability_state \<Rightarrow> string \<Rightarrow> capability" where
  "Capability name state detail = \<lparr>cp_name = name, cp_state = state, cp_detail = detail\<rparr>"

definition STATIC :: "capability list" where
  "STATIC =
     [Capability ''order_intake'' IMPLEMENTED ''Server-priced orders with audit trail'',
      Capability ''maker_checker_approval'' IMPLEMENTED ''Segregated approval levels'',
      Capability ''payment_settlement_ingestion'' IMPLEMENTED ''Signed remittance ingestion, exact-amount matching, double-entry posting'',
      Capability ''stamp_issuance'' IMPLEMENTED ''Resumable serial allocation and issuance'',
      Capability ''acceptance_sampling'' IMPLEMENTED ''ANSI/ASQ Z1.4-style batch inspection'',
      Capability ''stamp_activation'' IMPLEMENTED ''Owner-scoped, idempotent activation'',
      Capability ''field_verification'' IMPLEMENTED ''Device-signed, replay-protected, deterministic serial and secure-code verification'',
      Capability ''audit_trail'' IMPLEMENTED ''Keyed hash-chained append-only audit log'',
      Capability ''reconciliation'' IMPLEMENTED ''Funds, issuance, outbox and audit reconciliation'',
      Capability ''image_authenticity_ml'' NOT_IMPLEMENTED ''No trained, validated model is shipped; image-based authenticity scoring is refused rather than estimated by an unvalidated model'',
      Capability ''printer_production_control'' NOT_IMPLEMENTED ''No vendor press integration is shipped; production control requires vendor credentials, protocol documentation and site acceptance testing'',
      Capability ''holographic_feature_verification'' NOT_IMPLEMENTED ''Requires certified optical hardware; no software-only substitute is offered'',
      Capability ''offline_verification_sync'' NOT_IMPLEMENTED ''Offline capture and reconciliation of field verifications is not implemented'']"

definition integration :: "string \<Rightarrow> string \<Rightarrow> string \<Rightarrow> string \<Rightarrow> capability" where
  "integration name endpoint configured_detail missing_detail =
     Capability name (if endpoint \<noteq> [] then CONFIGURED_NOT_VERIFIED else REQUIRES_CONFIGURATION)
       (if endpoint \<noteq> [] then configured_detail else missing_detail)"

definition dynamic :: "settings \<Rightarrow> capability list" where
  "dynamic s =
     [Capability ''regulatory_compliance_check'' (if cf_firs_base_url s \<noteq> [] then IMPLEMENTED else REQUIRES_CONFIGURATION) ''Live registry checks; unconfigured registries cause order submission to be refused'',
      Capability ''batch_integrity_anchoring'' (if cf_ledger_anchor_base_url s \<noteq> [] then IMPLEMENTED else REQUIRES_CONFIGURATION) ''Merkle root computed locally; external notarisation requires an anchoring service'',
      integration ''tigerbeetle_subledger'' (cf_tigerbeetle_addresses s) ''Addresses configured; account mapping, transfer reconciliation, credentials and production acceptance remain required'' ''TigerBeetle transaction-plane addresses are not configured'',
      integration ''mojaloop_settlement_adapter'' (cf_mojaloop_base_url s) ''Endpoint configured; scheme onboarding, signed credentials, sandbox conformance and settlement reconciliation remain required'' ''Mojaloop settlement endpoint is not configured'',
      integration ''kafka_event_transport'' (cf_kafka_bootstrap_servers s) ''Bootstrap servers configured; topic ACLs, schema compatibility, consumer evidence and production delivery validation remain required'' ''Kafka bootstrap servers are not configured'',
      integration ''apisix_gateway'' (cf_apisix_admin_url s) ''Gateway management endpoint configured; declarative routes, TLS, policy tests and change control remain required'' ''APISIX management endpoint is not configured'',
      integration ''keycloak_identity'' (cf_keycloak_issuer_url s) ''OIDC issuer configured; realm, client, PKCE, claims, key rotation and conformance evidence remain required'' ''Keycloak OIDC issuer is not configured'',
      integration ''openappsec_ingress_protection'' (cf_openappsec_management_url s) ''Management endpoint configured; detection-mode baselining, enforcement policy and attack-test evidence remain required'' ''openAppSec management endpoint is not configured'',
      integration ''permify_authorization'' (cf_permify_base_url s) ''Authorization endpoint configured; schema publication, tuple migration, decision logging and negative-access evidence remain required'' ''Permify authorization endpoint is not configured'',
      integration ''opensearch_projection'' (cf_opensearch_url s) ''Search endpoint configured; projection pipeline, retention policy, access controls and replay validation remain required'' ''OpenSearch endpoint is not configured'',
      integration ''fluvio_edge_streaming'' (cf_fluvio_cluster_url s) ''Cluster endpoint configured; edge use case, delivery semantics and duplicate-bus controls remain required'' ''Fluvio cluster endpoint is not configured'',
      integration ''dapr_service_runtime'' (cf_dapr_http_url s) ''Sidecar endpoint configured; component manifests, mTLS, resiliency policy and workflow evidence remain required'' ''Dapr sidecar endpoint is not configured'',
      integration ''lakehouse_analytics_projection'' (cf_lakehouse_catalog_url s) ''Catalog endpoint configured; immutable dataset policy, lineage, retention and regulated-reporting validation remain required'' ''Lakehouse catalog endpoint is not configured'']"

definition capability_report :: "settings \<Rightarrow> capability list" where
  "capability_report s = sort_key cp_name (STATIC @ dynamic s)"

definition capability_document :: "settings \<Rightarrow> json_object" where
  "capability_document s =
     [(''capabilities'', JList (map (\<lambda>c. JObj [(''name'', JStr (cp_name c)), (''state'', JStr (capability_state_value (cp_state c))),
        (''detail'', JStr (cp_detail c))]) (capability_report s)))]"

section \<open>Integrations\<close>

datatype integration_readiness = R_UNCONFIGURED | R_CONFIGURED_NOT_VERIFIED

record integration_manifest_entry =
  im_name :: string
  im_readiness :: integration_readiness
  im_endpoint_configured :: bool
  im_purpose :: string
  im_required_evidence :: string

definition boundaries :: "settings \<Rightarrow> (string \<times> bool \<times> string \<times> string) list" where
  "boundaries s =
     [(''kms_hsm'', cf_kms_provider s \<noteq> KMS_UNCONFIGURED \<and> cf_kms_key_reference s \<noteq> [], ''External key-management and hardware-security boundary for encrypted storage'', ''KMS/HSM policy, key rotation, encrypted storage/backup evidence and independent access review''),
      (''tigerbeetle'', cf_tigerbeetle_addresses s \<noteq> [], ''Transaction-plane double-entry subledger'', ''Account mapping, reconciliation, cluster proof and acceptance''),
      (''mojaloop'', cf_mojaloop_base_url s \<noteq> [], ''Payment-switch settlement adapter'', ''Scheme onboarding, signed credentials, sandbox conformance and settlement proof''),
      (''kafka'', cf_kafka_bootstrap_servers s \<noteq> [], ''Outbox event transport'', ''Topic ACLs, schema compatibility, delivery and replay evidence''),
      (''apisix'', cf_apisix_admin_url s \<noteq> [], ''Public gateway policy'', ''Declarative route review, TLS policy and gateway integration tests''),
      (''keycloak'', cf_keycloak_issuer_url s \<noteq> [], ''OIDC identity and client policy'', ''Realm export, PKCE policy, claims mapping and rotation evidence''),
      (''openappsec'', cf_openappsec_management_url s \<noteq> [], ''Ingress threat protection'', ''Detection baseline, enforced policy and attack-test evidence''),
      (''permify'', cf_permify_base_url s \<noteq> [], ''Fine-grained authorization decisions'', ''Model publication, tuple migration and negative authorization proof''),
      (''opensearch'', cf_opensearch_url s \<noteq> [], ''Read-only operational search projection'', ''Projection replay, retention and access-control evidence''),
      (''fluvio'', cf_fluvio_cluster_url s \<noteq> [], ''Optional edge streaming'', ''Use-case approval and duplicate-bus controls''),
      (''dapr'', cf_dapr_http_url s \<noteq> [], ''Cross-language service runtime'', ''Component manifests, mTLS and resiliency evidence''),
      (''lakehouse'', cf_lakehouse_catalog_url s \<noteq> [], ''Governed analytics projection'', ''Lineage, immutable-retention policy and reporting validation'')]"

definition integration_manifest :: "settings \<Rightarrow> integration_manifest_entry list" where
  "integration_manifest s =
     map (\<lambda>(name, configured, purpose, evidence).
       \<lparr>im_name = name, im_readiness = (if configured then R_CONFIGURED_NOT_VERIFIED else R_UNCONFIGURED), im_endpoint_configured = configured,
        im_purpose = purpose, im_required_evidence = evidence\<rparr>) (boundaries s)"

section \<open>Keys\<close>

record key_management_profile =
  km_provider :: kms_provider
  km_key_reference :: string
  km_hsm_backed :: bool
  km_rotation_days :: int
  km_evidence_uri :: string

definition is_configured :: "key_management_profile \<Rightarrow> bool" where
  "is_configured p = (km_provider p \<noteq> KMS_UNCONFIGURED \<and> km_key_reference p \<noteq> [])"

definition profile_of :: "settings \<Rightarrow> key_management_profile" where
  "profile_of s =
     \<lparr>km_provider = cf_kms_provider s, km_key_reference = cf_kms_key_reference s, km_hsm_backed = cf_kms_hsm_backed s,
      km_rotation_days = cf_kms_key_rotation_days s, km_evidence_uri = cf_storage_encryption_evidence_uri s\<rparr>"

section \<open>Operations\<close>

text \<open>
  The routes of \<^verbatim>\<open>ops.py\<close> that report on the process, and the health command of the worker.  Whether the database and Redis answer is an
  argument; of the metrics, the two gauges that the route sets are modelled.
\<close>

definition healthz :: "settings \<Rightarrow> int \<times> json_object" where
  "healthz s = (200, [(''status'', JStr ''alive''), (''service'', JStr (cf_service_name s)), (''revision'', JStr (cf_revision s))])"

definition readyz :: "bool \<Rightarrow> bool \<Rightarrow> int \<times> json_object" where
  "readyz database cache =
     (let ready = (database \<and> cache) in
      (if ready then 200 else 503, [(''ready'', JBool ready), (''database'', JBool database), (''redis'', JBool cache)]))"

definition capabilities_route :: "settings \<Rightarrow> int \<times> json_object" where
  "capabilities_route s = (200, capability_document s)"

definition metrics :: "'r service \<Rightarrow> http_request \<Rightarrow> ('r, nat \<times> nat) route" where
  "metrics sv hq =
     bind_st (current sv hq) (\<lambda>actor.
     bind_st (of_res (require_role actor [ADMIN, AUDITOR])) (\<lambda>_.
     reading (\<lambda>db. Inr
       (length (filter (\<lambda>m. m_processed_at m = None \<and> m_dead_lettered_at m = None) (outbox_messages db)),
        length (filter (\<lambda>m. m_dead_lettered_at m \<noteq> None) (outbox_messages db))))))"

definition worker_health :: "bool \<Rightarrow> bool \<Rightarrow> int" where
  "worker_health database cache = (if database \<and> cache then 0 else 1)"

section \<open>Lemmas\<close>

lemma capability_report_set: "set (capability_report s) = set STATIC \<union> set (dynamic s)"
  by (simp add: capability_report_def)

lemma dynamic_names:
  "map cp_name (dynamic s) = map cp_name (dynamic (with_defaults [] [] [] [] [] []))"
  by (simp add: dynamic_def Capability_def integration_def)

lemma capability_names_distinct: "distinct (map cp_name (STATIC @ dynamic s))"
proof -
  have "distinct (map cp_name STATIC @ map cp_name (dynamic (with_defaults [] [] [] [] [] [])))" by code_simp
  then show ?thesis unfolding map_append dynamic_names [of s] .
qed

text \<open>The entry of the report for a name, and the configured integrations of the manifest.\<close>

definition capability_state_of :: "settings \<Rightarrow> string \<Rightarrow> capability_state option" where
  "capability_state_of s name = map_of (map (\<lambda>c. (cp_name c, cp_state c)) (capability_report s)) name"

lemma capability_state_of_iff: "capability_state_of s name = Some st \<longleftrightarrow> (\<exists>c \<in> set STATIC \<union> set (dynamic s). cp_name c = name \<and> cp_state c = st)"
proof -
  have "distinct (map cp_name (capability_report s))"
    using capability_names_distinct [of s] by (simp only: capability_report_def distinct_map set_sort distinct_sort)
  then have "distinct (map fst (map (\<lambda>c. (cp_name c, cp_state c)) (capability_report s)))" by (simp add: comp_def)
  then have "capability_state_of s name = Some st \<longleftrightarrow> (name, st) \<in> set (map (\<lambda>c. (cp_name c, cp_state c)) (capability_report s))"
    unfolding capability_state_of_def by (rule map_of_eq_Some_iff)
  then show ?thesis by (auto simp: capability_report_set)
qed

lemma find_boundary:
  "(\<exists>e \<in> set (integration_manifest s). im_name e = m \<and> im_readiness e = R_CONFIGURED_NOT_VERIFIED) \<longleftrightarrow> list_ex (\<lambda>(n, c, p, v). n = m \<and> c) (boundaries s)"
  unfolding integration_manifest_def list_ex_iff set_map bex_simps by (rule bex_cong) (simp_all split: prod.splits)

lemma capability_state_of_dynamic:
  "list_ex (\<lambda>c. cp_name c = name \<and> cp_state c = st) (dynamic s) \<Longrightarrow> capability_state_of s name = Some st"
  unfolding capability_state_of_iff by (auto simp: list_ex_iff)

section \<open>Properties\<close>

definition INTEGRATIONS :: "(string \<times> string) list" where
  "INTEGRATIONS =
     [(''tigerbeetle_subledger'', ''tigerbeetle''), (''mojaloop_settlement_adapter'', ''mojaloop''), (''kafka_event_transport'', ''kafka''),
      (''apisix_gateway'', ''apisix''), (''keycloak_identity'', ''keycloak''), (''openappsec_ingress_protection'', ''openappsec''),
      (''permify_authorization'', ''permify''), (''opensearch_projection'', ''opensearch''), (''fluvio_edge_streaming'', ''fluvio''),
      (''dapr_service_runtime'', ''dapr''), (''lakehouse_analytics_projection'', ''lakehouse'')]"

text \<open>
  The two reports of a deployment agree.  Each of the eleven integrations is reported as configured by the capability report exactly
  when the integration manifest says so, and never as implemented; the manifest says that keys are managed externally
  exactly when the key-management profile does.
\<close>

theorem capability_reports_agree:
  "list_all (\<lambda>(c, m). capability_state_of s c =
     Some (if \<exists>e \<in> set (integration_manifest s). im_name e = m \<and> im_readiness e = R_CONFIGURED_NOT_VERIFIED
           then CONFIGURED_NOT_VERIFIED else REQUIRES_CONFIGURATION)) INTEGRATIONS \<and>
   (is_configured (profile_of s) \<longleftrightarrow> (\<exists>e \<in> set (integration_manifest s). im_name e = ''kms_hsm'' \<and> im_readiness e = R_CONFIGURED_NOT_VERIFIED))"
proof
  show "list_all (\<lambda>(c, m). capability_state_of s c =
     Some (if \<exists>e \<in> set (integration_manifest s). im_name e = m \<and> im_readiness e = R_CONFIGURED_NOT_VERIFIED
           then CONFIGURED_NOT_VERIFIED else REQUIRES_CONFIGURATION)) INTEGRATIONS"
    unfolding find_boundary INTEGRATIONS_def list.pred_inject prod.case
    by (intro conjI) ((rule capability_state_of_dynamic, simp add: dynamic_def boundaries_def integration_def Capability_def) | simp)+
  show "is_configured (profile_of s) \<longleftrightarrow> (\<exists>e \<in> set (integration_manifest s). im_name e = ''kms_hsm'' \<and> im_readiness e = R_CONFIGURED_NOT_VERIFIED)"
    unfolding find_boundary by (simp add: boundaries_def is_configured_def profile_of_def)
qed

text \<open>The report looks at one registry, and orders need all registries of their category.\<close>

lemma compliance_capability_overstated:
  assumes "cf_firs_base_url s \<noteq> []" and "cf_nafdac_base_url s = []"
  shows "capability_state_of s ''regulatory_compliance_check'' = Some IMPLEMENTED \<and>
    (\<exists>e. compliance_check (compliance_clients ex s) tin ''beverages'' quantity = Inl e)"
proof
  show "capability_state_of s ''regulatory_compliance_check'' = Some IMPLEMENTED" by (rule capability_state_of_dynamic) (simp add: dynamic_def Capability_def assms)
  have un: "check_registry (compliance_clients ex s) tin cat q NAFDAC = Inl CapabilityNotConfigured" for cat q
    by (simp add: check_registry_def require_configured_def configured_def compliance_clients_def provider_def assms)
  have "registries_for ''beverages'' = [FIRS, NAFDAC]" by code_simp
  then show "\<exists>e. compliance_check (compliance_clients ex s) tin ''beverages'' quantity = Inl e"
    using un by (cases "check_registry (compliance_clients ex s) tin ''beverages'' quantity FIRS") (simp_all add: compliance_check_def)
qed

end
