(* ===== verification/Attestation.thy ===== *)
theory Attestation
  imports Config
begin

text \<open>
  \<^verbatim>\<open>src/scripts/convert_storage_encryption_yaml.py\<close> and \<^verbatim>\<open>src/scripts/check_storage_encryption.py\<close>: the validation of an attestation of encrypted
  storage and its evaluation against the configuration of a deployment.  Documents are JSON values, as \<^verbatim>\<open>json.loads\<close> and \<^verbatim>\<open>yaml.safe_load\<close>
  deliver them (keys of a mapping are distinct strings); whether \<^verbatim>\<open>datetime.fromisoformat\<close> reads a string is an argument.  The parts of
  \<^verbatim>\<open>urllib.parse\<close> that the scripts use are modelled as of Python 3.12.
\<close>

section \<open>URLs\<close>

record url =
  ur_scheme :: string
  ur_netloc :: string
  ur_path :: string
  ur_query :: string
  ur_fragment :: string

definition before :: "char \<Rightarrow> string \<Rightarrow> string" where
  "before c s = takeWhile (\<lambda>x. x \<noteq> c) s"

definition after :: "char \<Rightarrow> string \<Rightarrow> string" where
  "after c s = drop 1 (dropWhile (\<lambda>x. x \<noteq> c) s)"

definition is_letter :: "char \<Rightarrow> bool" where
  "is_letter c = (let n = (of_char c :: nat) in (65 \<le> n \<and> n \<le> 90) \<or> (97 \<le> n \<and> n \<le> 122))"

definition split_scheme :: "string \<Rightarrow> string \<times> string" where
  "split_scheme u =
     (let scheme = before (CHR '':'') u in
      if CHR '':'' \<in> set u \<and> scheme \<noteq> [] \<and> is_letter (hd u) \<and> list_all (\<lambda>c. is_letter c \<or> is_digit c \<or> c \<in> set ''+-.'') scheme
      then (lower scheme, after (CHR '':'') u) else ([], u))"

text \<open>\<^verbatim>\<open>_check_bracketed_host\<close>\<close>

definition bracketed_host_ok :: "string \<Rightarrow> bool" where
  "bracketed_host_ok h =
     (if h \<noteq> [] \<and> hd h = CHR ''v''
      then (let hex = takeWhile (\<lambda>c. hex_val c \<noteq> None) (tl h); rest = dropWhile (\<lambda>c. hex_val c \<noteq> None) (tl h) in
            hex \<noteq> [] \<and> 2 \<le> length rest \<and> hd rest = CHR ''.'' \<and> CHR 0x0A \<notin> set (tl rest))
      else (case ip_address h of Inr (V6 n) \<Rightarrow> True | _ \<Rightarrow> False))"

definition netloc_ok :: "string \<Rightarrow> bool" where
  "netloc_ok netloc =
     ((CHR ''['' \<in> set netloc) = (CHR '']'' \<in> set netloc) \<and>
      (CHR ''['' \<in> set netloc \<longrightarrow> bracketed_host_ok (before (CHR '']'') (after (CHR ''['') netloc))))"

text \<open>The parameters of the last segment of a path are not part of it, for the schemes that have them.\<close>

definition USES_PARAMS :: "string list" where
  "USES_PARAMS = [[], ''ftp'', ''hdl'', ''prospero'', ''http'', ''https'', ''shttp'', ''rtsp'', ''rtsps'', ''sip'', ''sips'', ''mms'', ''sftp'', ''tel'']"

definition drop_params :: "string \<Rightarrow> string \<Rightarrow> string" where
  "drop_params scheme path =
     (if scheme \<notin> set USES_PARAMS then path
      else let segment = rev (takeWhile (\<lambda>c. c \<noteq> CHR ''/'') (rev path)) in
        take (length path - length segment) path @ before (CHR '';'') segment)"

definition urlparse :: "string \<Rightarrow> url res" where
  "urlparse s =
     (let u = filter (\<lambda>c. c \<notin> {CHR 0x09, CHR 0x0D, CHR 0x0A}) (dropWhile (\<lambda>c. (of_char c :: nat) \<le> 32) s);
          (scheme, rest) = split_scheme u;
          has_netloc = (take 2 rest = ''//'');
          netloc = (if has_netloc then takeWhile (\<lambda>c. c \<notin> set ''/?#'') (drop 2 rest) else []);
          rest = (if has_netloc then dropWhile (\<lambda>c. c \<notin> set ''/?#'') (drop 2 rest) else rest) in
      if \<not> netloc_ok netloc then Inl ValueError
      else let fragment = after (CHR ''#'') rest; rest = before (CHR ''#'') rest;
               query = after (CHR ''?'') rest; path = before (CHR ''?'') rest in
        Inr \<lparr>ur_scheme = scheme, ur_netloc = netloc, ur_path = drop_params scheme path, ur_query = query, ur_fragment = fragment\<rparr>)"

definition has_userinfo :: "url \<Rightarrow> bool" where
  "has_userinfo u = (CHR ''@'' \<in> set (ur_netloc u))"

definition port_string :: "url \<Rightarrow> string" where
  "port_string u =
     (let hostinfo = rev (takeWhile (\<lambda>c. c \<noteq> CHR ''@'') (rev (ur_netloc u))) in
      if CHR ''['' \<in> set hostinfo then after (CHR '':'') (after (CHR '']'') (after (CHR ''['') hostinfo)) else after (CHR '':'') hostinfo)"

definition dec_int :: "string \<Rightarrow> int" where
  "dec_int s = foldl (\<lambda>a c. 10 * a + int (of_char c - 48)) 0 s"

text \<open>\<^verbatim>\<open>parsed.port\<close>; an integer of more than 4300 digits is refused by \<^verbatim>\<open>int\<close> and is out of range anyway.\<close>

definition port :: "url \<Rightarrow> int option res" where
  "port u =
     (let p = port_string u in
      if p = [] then Inr None
      else if \<not> list_all is_digit p \<or> dec_int p > 65535 then Inl ValueError else Inr (Some (dec_int p)))"

section \<open>Evidence\<close>

definition EVIDENCE_PLACEHOLDERS :: "string list" where
  "EVIDENCE_PLACEHOLDERS = [''changeme'', ''change_me'', ''change-me'', ''placeholder'', ''example'', ''replace'', ''secret'', ''password'']"

definition is_non_placeholder :: "json \<Rightarrow> bool" where
  "is_non_placeholder v =
     (case v of JStr s \<Rightarrow> strip py_space s \<noteq> [] \<and> \<not> list_ex (contains (lower s)) EVIDENCE_PLACEHOLDERS | _ \<Rightarrow> False)"

definition EVIDENCE_SCHEMES :: "string list" where
  "EVIDENCE_SCHEMES = [''https'', ''s3'', ''gs'', ''az'', ''file'']"

definition is_evidence_uri :: "json \<Rightarrow> bool res" where
  "is_evidence_uri v =
     (let uri = (case v of JStr s \<Rightarrow> s | _ \<Rightarrow> []) in
      bind_res (urlparse uri) (\<lambda>parsed.
      let valid = (is_non_placeholder v \<and> uri = strip py_space uri \<and> ur_scheme parsed \<in> set EVIDENCE_SCHEMES \<and>
            ur_query parsed = [] \<and> ur_fragment parsed = [] \<and> \<not> has_userinfo parsed);
          (p, valid) = (case port parsed of Inl e \<Rightarrow> (None, False) | Inr p \<Rightarrow> (p, valid)) in
      Inr (if ur_scheme parsed = ''file''
           then valid \<and> ur_netloc parsed = [] \<and> take 1 (ur_path parsed) = ''/''
           else valid \<and> \<not> (ur_scheme parsed \<noteq> ''https'' \<and> p \<noteq> None) \<and> \<not> (\<exists>n \<in> set_option p. \<not> (1 \<le> n \<and> n \<le> 65535)) \<and>
             ur_netloc parsed \<noteq> [] \<and> ur_path parsed \<noteq> [] \<and> ur_path parsed \<noteq> ''/'')))"

definition is_utc_timestamp :: "(string \<Rightarrow> bool) \<Rightarrow> json \<Rightarrow> bool" where
  "is_utc_timestamp reads v =
     (case v of JStr s \<Rightarrow> s \<noteq> [] \<and> last s = CHR ''Z'' \<and> reads (butlast s @ ''+00:00'') | _ \<Rightarrow> False)"

lemma evidence_uri_examples:
  "is_evidence_uri (JStr ''https://evidence.taxstamp.ng:8443/changes/CHG-125/'') = Inr True"
  "is_evidence_uri (JStr ''https://evidence.taxstamp.ng/'') = Inr False"
  "is_evidence_uri (JStr ''https://evidence.taxstamp.ng:0/changes/CHG-125'') = Inr False"
  "is_evidence_uri (JStr ''https://evidence.taxstamp.ng:65536/changes/CHG-125'') = Inr False"
  "is_evidence_uri (JStr ''https://evidence.taxstamp.ng:not-a-port/changes/CHG-125'') = Inr False"
  "is_evidence_uri (JStr ''https://token@evidence.taxstamp.ng/changes/CHG-125'') = Inr False"
  "is_evidence_uri (JStr ''file:///var/evidence/1.json'') = Inr True" "is_evidence_uri (JStr ''s3://bucket:80/k'') = Inr False"
  "is_evidence_uri (JStr ''https://[::1]:443/k'') = Inr True" "is_evidence_uri (JStr ''https://h/;v'') = Inr False"
  "is_evidence_uri JNull = Inr False"
  by code_simp+

text \<open>An address that opens a bracket and does not close it makes both scripts raise.\<close>

lemma unbalanced_bracket_raises: "is_evidence_uri (JStr ''https://[evidence/1'') = Inl ValueError"
  by code_simp

section \<open>Validation and conversion\<close>

definition SUPPORTED_PROVIDERS :: "string list" where
  "SUPPORTED_PROVIDERS = [''aws_kms'', ''azure_key_vault'', ''gcp_kms'', ''pkcs11_hsm'']"

definition ATTESTATION_SCHEMA :: string where
  "ATTESTATION_SCHEMA = ''taxstamp.storage-encryption-attestation.v1''"

definition ASSET_NAMES :: "string list" where
  "ASSET_NAMES = [''postgres'', ''redis'', ''opensearch'']"

definition ASSET_FIELDS :: "string list" where
  "ASSET_FIELDS =
     [''encryption_at_rest'', ''backup_encryption'', ''storage_scope'', ''key_reference'', ''evidence_uri'', ''backup_restore_evidence_uri'',
      ''retention_deletion_evidence_uri'', ''verified_at'']"

definition KEY_MANAGEMENT_FIELDS :: "string list" where
  "KEY_MANAGEMENT_FIELDS =
     [''provider'', ''key_reference'', ''hsm_backed'', ''rotation_days'', ''rotation_evidence_uri'', ''access_review_evidence_uri'',
      ''recovery_exercise_evidence_uri'']"

definition STORAGE_SCOPES :: "string list" where
  "STORAGE_SCOPES = [''managed-encrypted-service'', ''host-encrypted-volume'']"

text \<open>Membership of a value in a set of strings, which hashes the value; equality of values.\<close>

definition hashed_in :: "json \<Rightarrow> string list \<Rightarrow> bool res" where
  "hashed_in v xs = (case v of JStr s \<Rightarrow> Inr (s \<in> set xs) | JList _ \<Rightarrow> Inl TypeError | JObj _ \<Rightarrow> Inl TypeError | _ \<Rightarrow> Inr False)"

definition number :: "json \<Rightarrow> rat option" where
  "number v =
     (case v of JBool b \<Rightarrow> Some (of_bool b) | JInt i \<Rightarrow> Some (of_int i) | JFloat (Finite m e) \<Rightarrow> Some (of_int m * 2 powi e) | _ \<Rightarrow> None)"

fun py_eq :: "json \<Rightarrow> json \<Rightarrow> bool" and py_eq_list :: "json list \<Rightarrow> json list \<Rightarrow> bool" and py_eq_obj :: "json_object \<Rightarrow> json_object \<Rightarrow> bool" where
  "py_eq JNull w = (w = JNull)"
| "py_eq (JBool b) w = (number w = number (JBool b))"
| "py_eq (JInt i) w = (number w = number (JInt i))"
| "py_eq (JFloat x) w = (if x = NaN then False else if number (JFloat x) = None then w = JFloat x else number w = number (JFloat x))"
| "py_eq (JStr s) w = (w = JStr s)"
| "py_eq (JList xs) w = (case w of JList ys \<Rightarrow> length xs = length ys \<and> py_eq_list xs ys | _ \<Rightarrow> False)"
| "py_eq (JObj d) w = (case w of JObj d' \<Rightarrow> length d = length d' \<and> py_eq_obj d d' | _ \<Rightarrow> False)"
| "py_eq_list [] ys = True"
| "py_eq_list (x # xs) ys = (case ys of [] \<Rightarrow> False | y # ys \<Rightarrow> py_eq x y \<and> py_eq_list xs ys)"
| "py_eq_obj [] d' = True"
| "py_eq_obj ((k, v) # d) d' = ((case map_of d' k of None \<Rightarrow> False | Some w \<Rightarrow> py_eq v w) \<and> py_eq_obj d d')"

text \<open>The items of those checks that failed.\<close>

definition failed :: "(bool \<times> 'a) list \<Rightarrow> 'a list" where
  "failed checks = map snd (filter (\<lambda>c. \<not> fst c) checks)"

definition evidence_checks :: "json_object \<Rightarrow> (string \<times> 'a) list \<Rightarrow> (bool \<times> 'a) list res" where
  "evidence_checks record = map_res (\<lambda>(field, message). bind_res (is_evidence_uri (doc_get record field)) (\<lambda>valid. Inr (valid, message)))"

definition unknown_fields :: "string list \<Rightarrow> json_object \<Rightarrow> string list" where
  "unknown_fields known record = sort (filter (\<lambda>k. k \<notin> set known) (map fst record))"

definition missing_fields :: "string list \<Rightarrow> json_object \<Rightarrow> string list" where
  "missing_fields known record = sort (filter (\<lambda>k. k \<notin> fst ` set record) known)"

fun join_names :: "string list \<Rightarrow> string" where
  "join_names [] = []"
| "join_names [x] = x"
| "join_names (x # xs) = x @ '', '' @ join_names xs"

definition field_errors :: "string \<Rightarrow> string list \<Rightarrow> json_object \<Rightarrow> string list" where
  "field_errors name known record =
     (if unknown_fields known record \<noteq> [] then [name @ '' has unknown fields: '' @ join_names (unknown_fields known record) @ ''.''] else []) @
     (if missing_fields known record \<noteq> [] then [name @ '' is missing fields: '' @ join_names (missing_fields known record) @ ''.''] else [])"

definition validate_key_management :: "json \<Rightarrow> string list res" where
  "validate_key_management value =
     (case value of
        JObj record \<Rightarrow>
          let errors = field_errors ''key_management'' KEY_MANAGEMENT_FIELDS record in
          if missing_fields KEY_MANAGEMENT_FIELDS record \<noteq> [] then Inr errors else
          bind_res (hashed_in (doc_get record ''provider'') SUPPORTED_PROVIDERS) (\<lambda>supported.
          bind_res (evidence_checks record (map (\<lambda>f. (f, ''key_management.'' @ f @ '' must be a valid non-secret evidence URI.''))
            [''rotation_evidence_uri'', ''access_review_evidence_uri'', ''recovery_exercise_evidence_uri''])) (\<lambda>uris.
          Inr (errors @ failed
            ([(supported, ''key_management.provider must be a supported provider.''),
              (is_non_placeholder (doc_get record ''key_reference''), ''key_management.key_reference must be non-placeholder text.''),
              (doc_get record ''hsm_backed'' = JBool True, ''key_management.hsm_backed must be true.''),
              (case doc_get record ''rotation_days'' of JInt n \<Rightarrow> 1 \<le> n \<and> n \<le> 730 | _ \<Rightarrow> False,
               ''key_management.rotation_days must be an integer from 1 to 730.'')] @ uris))))
      | _ \<Rightarrow> Inr [''key_management must be a mapping.''])"

definition validate_asset_record :: "(string \<Rightarrow> bool) \<Rightarrow> string \<Rightarrow> json \<Rightarrow> json \<Rightarrow> string list res" where
  "validate_asset_record reads asset value key_reference =
     (let name = ''assets.'' @ asset in
      case value of
        JObj record \<Rightarrow>
          let errors = field_errors name ASSET_FIELDS record in
          if missing_fields ASSET_FIELDS record \<noteq> [] then Inr errors else
          bind_res (hashed_in (doc_get record ''storage_scope'') STORAGE_SCOPES) (\<lambda>scope.
          bind_res (evidence_checks record (map (\<lambda>f. (f, name @ ''.'' @ f @ '' must be a valid non-secret evidence URI.''))
            [''evidence_uri'', ''backup_restore_evidence_uri'', ''retention_deletion_evidence_uri''])) (\<lambda>uris.
          Inr (errors @ failed
            ([(doc_get record ''encryption_at_rest'' = JBool True, name @ ''.encryption_at_rest must be true.''),
              (doc_get record ''backup_encryption'' = JBool True, name @ ''.backup_encryption must be true.''),
              (scope, name @ ''.storage_scope is invalid.''),
              (py_eq (doc_get record ''key_reference'') key_reference, name @ ''.key_reference must match key_management.key_reference.'')] @ uris @
             [(is_utc_timestamp reads (doc_get record ''verified_at''), name @ ''.verified_at must be an ISO-8601 UTC string; quote it in YAML.'')]))))
      | _ \<Rightarrow> Inr [name @ '' must be a mapping.''])"

definition validate_assets :: "(string \<Rightarrow> bool) \<Rightarrow> json \<Rightarrow> json \<Rightarrow> string list res" where
  "validate_assets reads value key_reference =
     (case value of
        JObj assets \<Rightarrow>
          bind_res (map_res (\<lambda>(asset, r). if asset \<notin> set ASSET_NAMES then Inr [''assets.'' @ asset @ '' is not a supported storage asset.'']
              else validate_asset_record reads asset r key_reference) assets) (\<lambda>errors.
          Inr ((if assets = [] then [''assets must contain at least one storage asset.''] else []) @ concat errors))
      | _ \<Rightarrow> Inr [''assets must be a mapping.''])"

definition ROOT_FIELDS :: "string list" where
  "ROOT_FIELDS = [''schema'', ''synthetic_example'', ''environment'', ''key_management'', ''assets'']"

definition validate_attestation :: "(string \<Rightarrow> bool) \<Rightarrow> json \<Rightarrow> (json_object option \<times> string list) res" where
  "validate_attestation reads document =
     (case document of
        JObj doc \<Rightarrow>
          bind_res (hashed_in (doc_get doc ''environment'') [''staging'', ''production'']) (\<lambda>environment.
          bind_res (validate_key_management (doc_get doc ''key_management'')) (\<lambda>key_errors.
          let key_reference = (case doc_get doc ''key_management'' of JObj km \<Rightarrow> doc_get km ''key_reference'' | _ \<Rightarrow> JNull) in
          bind_res (validate_assets reads (doc_get doc ''assets'') key_reference) (\<lambda>asset_errors.
          Inr (Some doc,
            (if unknown_fields ROOT_FIELDS doc \<noteq> [] then [''root has unknown fields: '' @ join_names (unknown_fields ROOT_FIELDS doc) @ ''.''] else []) @
            failed [(doc_get doc ''schema'' = JStr ATTESTATION_SCHEMA, ''schema must equal '' @ ATTESTATION_SCHEMA @ ''.''),
                    (environment, ''environment must be staging or production.'')] @ key_errors @ asset_errors))))
      | _ \<Rightarrow> Inr (None, [''root must be a mapping.'']))"

text \<open>\<^verbatim>\<open>main\<close>: the exit code, and the document that is written.\<close>

definition convert_main :: "(string \<Rightarrow> bool) \<Rightarrow> bool \<Rightarrow> json \<Rightarrow> (int \<times> json_object option) res" where
  "convert_main reads validate_only document =
     bind_res (validate_attestation reads document) (\<lambda>(converted, errors).
     if errors \<noteq> [] then Inr (1, None)
     else if validate_only then Inr (0, None)
     else case converted of None \<Rightarrow> Inr (1, None) | Some doc \<Rightarrow> Inr (0, Some doc))"

section \<open>The check\<close>

text \<open>Blank lines are skipped, and so every line boundary separates.\<close>

definition line_end :: "char \<Rightarrow> bool" where
  "line_end c = ((of_char c :: nat) \<in> {10, 11, 12, 13, 28, 29, 30, 133})"

fun split_lines :: "string \<Rightarrow> string list" where
  "split_lines [] = [[]]"
| "split_lines (c # s) = (if line_end c then [] # split_lines s else (case split_lines s of p # ps \<Rightarrow> (c # p) # ps | [] \<Rightarrow> [[c]]))"

type_synonym env = "(string \<times> string) list"

definition parse_env_file :: "string \<Rightarrow> env" where
  "parse_env_file content =
     map (\<lambda>line. (strip py_space (before (CHR ''='') line),
       strip (\<lambda>c. c = CHR 0x27) (strip (\<lambda>c. c = CHR 0x22) (strip py_space (after (CHR ''='') line)))))
       (filter (\<lambda>line. line \<noteq> [] \<and> hd line \<noteq> CHR ''#'' \<and> CHR ''='' \<in> set line) (map (strip py_space) (split_lines content)))"

text \<open>The last assignment of a name counts; a name that is not assigned reads as empty.\<close>

definition env_get :: "env \<Rightarrow> string \<Rightarrow> string" where
  "env_get env name = (case map_of (rev env) name of None \<Rightarrow> [] | Some v \<Rightarrow> v)"

record asset_result =
  ar_asset :: string
  ar_attested :: bool
  ar_findings :: "string list"
  ar_strict_findings :: "(string \<times> string) list"

definition assess_asset :: "(string \<Rightarrow> bool) \<Rightarrow> string \<Rightarrow> string \<Rightarrow> json_object \<Rightarrow> bool \<Rightarrow> asset_result res" where
  "assess_asset reads asset configured_key attestation strict =
     (let name = ''assets.'' @ asset in
      case (case doc_get attestation ''assets'' of JObj assets \<Rightarrow> doc_get assets asset | _ \<Rightarrow> JNull) of
        JObj record \<Rightarrow>
          bind_res (hashed_in (doc_get record ''storage_scope'') STORAGE_SCOPES) (\<lambda>scope.
          bind_res (is_evidence_uri (doc_get record ''evidence_uri'')) (\<lambda>evidence.
          let at_rest = (doc_get record ''encryption_at_rest'' = JBool True); backup = (doc_get record ''backup_encryption'' = JBool True);
              key = (doc_get record ''key_reference'' = JStr configured_key);
              findings = failed
                [(at_rest, ''encryption_at_rest is not affirmed.''), (backup, ''backup_encryption is not affirmed.''),
                 (scope, ''storage_scope must identify a managed encrypted service or host-encrypted volume.''),
                 (key, ''Asset key reference does not match configured KMS/HSM key reference.''),
                 (evidence, ''Asset evidence_uri is missing, unsafe, or placeholder text.''),
                 (is_non_placeholder (doc_get record ''verified_at''), ''verified_at is missing or placeholder text.'')] in
          bind_res (if \<not> strict then Inr [] else
            bind_res (is_evidence_uri (doc_get record ''backup_restore_evidence_uri'')) (\<lambda>restore.
            bind_res (is_evidence_uri (doc_get record ''retention_deletion_evidence_uri'')) (\<lambda>retention.
            Inr (failed
              [(at_rest, (name @ ''.encryption_at_rest'', ''must be true'')), (backup, (name @ ''.backup_encryption'', ''must be true'')),
               (scope, (name @ ''.storage_scope'', ''must be managed-encrypted-service or host-encrypted-volume'')),
               (key, (name @ ''.key_reference'', ''must match the configured KMS/HSM key'')),
               (evidence, (name @ ''.evidence_uri'', ''must be a non-placeholder evidence URI'')),
               (is_utc_timestamp reads (doc_get record ''verified_at''), (name @ ''.verified_at'', ''must be an ISO-8601 UTC timestamp'')),
               (restore, (name @ ''.backup_restore_evidence_uri'', ''must reference a successful encrypted backup restore exercise'')),
               (retention, (name @ ''.retention_deletion_evidence_uri'', ''must reference retention/deletion or crypto-erasure evidence''))])))) (\<lambda>strict_findings.
          Inr \<lparr>ar_asset = asset, ar_attested = (findings = [] \<and> strict_findings = []), ar_findings = findings, ar_strict_findings = strict_findings\<rparr>)))
      | _ \<Rightarrow> Inr \<lparr>ar_asset = asset, ar_attested = False, ar_findings = [''Missing asset encryption attestation.''],
               ar_strict_findings = (if strict then [(name, ''required attestation object is absent'')] else [])\<rparr>)"

definition says_true :: "env \<Rightarrow> string \<Rightarrow> bool" where
  "says_true env name = (lower (env_get env name) = ''true'')"

definition standard_environment_findings :: "env \<Rightarrow> string list res" where
  "standard_environment_findings env =
     bind_res (is_evidence_uri (JStr (env_get env ''TAXSTAMP_STORAGE_ENCRYPTION_EVIDENCE_URI''))) (\<lambda>evidence.
     Inr (failed
       [(says_true env ''TAXSTAMP_STORAGE_ENCRYPTION_REQUIRED'', ''TAXSTAMP_STORAGE_ENCRYPTION_REQUIRED must be true.''),
        (env_get env ''TAXSTAMP_KMS_PROVIDER'' \<in> set SUPPORTED_PROVIDERS, ''TAXSTAMP_KMS_PROVIDER is missing or unsupported.''),
        (is_non_placeholder (JStr (env_get env ''TAXSTAMP_KMS_KEY_REFERENCE'')), ''TAXSTAMP_KMS_KEY_REFERENCE is missing or placeholder text.''),
        (says_true env ''TAXSTAMP_KMS_HSM_BACKED'', ''TAXSTAMP_KMS_HSM_BACKED must be true with an HSM/KMS attestation.''),
        (evidence, ''TAXSTAMP_STORAGE_ENCRYPTION_EVIDENCE_URI is missing, unsafe, or placeholder text.'')]))"

text \<open>\<^verbatim>\<open>rotation_days.isdecimal()\<close> and \<^verbatim>\<open>int(rotation_days)\<close>, which refuses more than 4300 digits.\<close>

definition rotation :: "env \<Rightarrow> int option res" where
  "rotation env =
     (let days = env_get env ''TAXSTAMP_KMS_KEY_ROTATION_DAYS'' in
      if days = [] \<or> \<not> list_all is_digit days then Inr None else if length days > 4300 then Inl ValueError else Inr (Some (dec_int days)))"

definition strict_environment_findings :: "env \<Rightarrow> (string \<times> string) list res" where
  "strict_environment_findings env =
     bind_res (rotation env) (\<lambda>days.
     bind_res (is_evidence_uri (JStr (env_get env ''TAXSTAMP_STORAGE_ENCRYPTION_EVIDENCE_URI''))) (\<lambda>evidence.
     Inr (failed
       [(env_get env ''TAXSTAMP_ENV'' = ''production'', (''TAXSTAMP_ENV'', ''must be exactly production'')),
        (says_true env ''TAXSTAMP_STORAGE_ENCRYPTION_REQUIRED'', (''TAXSTAMP_STORAGE_ENCRYPTION_REQUIRED'', ''must be true'')),
        (env_get env ''TAXSTAMP_KMS_PROVIDER'' \<in> set SUPPORTED_PROVIDERS, (''TAXSTAMP_KMS_PROVIDER'', ''must be a supported provider'')),
        (is_non_placeholder (JStr (env_get env ''TAXSTAMP_KMS_KEY_REFERENCE'')), (''TAXSTAMP_KMS_KEY_REFERENCE'', ''must be non-placeholder'')),
        (says_true env ''TAXSTAMP_KMS_HSM_BACKED'', (''TAXSTAMP_KMS_HSM_BACKED'', ''must be true'')),
        (case days of None \<Rightarrow> False | Some n \<Rightarrow> 1 \<le> n \<and> n \<le> 730, (''TAXSTAMP_KMS_KEY_ROTATION_DAYS'', ''must be a whole number between 1 and 730'')),
        (evidence, (''TAXSTAMP_STORAGE_ENCRYPTION_EVIDENCE_URI'', ''must be a non-placeholder evidence URI''))])))"

definition standard_key_management_findings :: "json \<Rightarrow> env \<Rightarrow> string list res" where
  "standard_key_management_findings key_management env =
     (case key_management of
        JObj km \<Rightarrow>
          bind_res (is_evidence_uri (doc_get km ''rotation_evidence_uri'')) (\<lambda>evidence.
          Inr (failed
            [(doc_get km ''provider'' = JStr (env_get env ''TAXSTAMP_KMS_PROVIDER''), ''Attested KMS/HSM provider does not match configuration.''),
             (doc_get km ''key_reference'' = JStr (env_get env ''TAXSTAMP_KMS_KEY_REFERENCE''), ''Attested KMS/HSM key reference does not match configuration.''),
             (doc_get km ''hsm_backed'' = JBool True, ''Attestation does not affirm HSM-backed KMS/key protection.''),
             (evidence, ''Missing valid key-rotation evidence URI.'')]))
      | _ \<Rightarrow> Inr [''Missing key_management attestation object.''])"

definition strict_key_management_findings :: "json \<Rightarrow> env \<Rightarrow> (string \<times> string) list res" where
  "strict_key_management_findings key_management env =
     (case key_management of
        JObj km \<Rightarrow>
          bind_res (rotation env) (\<lambda>days.
          bind_res (evidence_checks km
            [(''rotation_evidence_uri'', (''key_management.rotation_evidence_uri'', ''must reference a completed key-rotation exercise'')),
             (''access_review_evidence_uri'', (''key_management.access_review_evidence_uri'', ''must reference a completed KMS/HSM access review'')),
             (''recovery_exercise_evidence_uri'', (''key_management.recovery_exercise_evidence_uri'', ''must reference a completed KMS/HSM recovery exercise''))]) (\<lambda>uris.
          Inr (failed
            ([(doc_get km ''provider'' = JStr (env_get env ''TAXSTAMP_KMS_PROVIDER''), (''key_management.provider'', ''must match TAXSTAMP_KMS_PROVIDER'')),
              (doc_get km ''key_reference'' = JStr (env_get env ''TAXSTAMP_KMS_KEY_REFERENCE''), (''key_management.key_reference'', ''must match TAXSTAMP_KMS_KEY_REFERENCE'')),
              (doc_get km ''hsm_backed'' = JBool True, (''key_management.hsm_backed'', ''must be true'')),
              (case days of None \<Rightarrow> False | Some n \<Rightarrow> number (doc_get km ''rotation_days'') = Some (of_int n),
               (''key_management.rotation_days'', ''must match TAXSTAMP_KMS_KEY_ROTATION_DAYS''))] @ uris))))
      | _ \<Rightarrow> Inr [(''key_management'', ''required attestation object is absent'')])"

record assessment =
  at_attested :: bool
  at_global_findings :: "string list"
  at_strict_findings :: "(string \<times> string) list"
  at_assets :: "asset_result list"

definition assess :: "(string \<Rightarrow> bool) \<Rightarrow> env \<Rightarrow> json_object \<Rightarrow> string list \<Rightarrow> bool \<Rightarrow> assessment res" where
  "assess reads env attestation required_assets strict =
     (let key_management = doc_get attestation ''key_management'' in
      bind_res (standard_environment_findings env) (\<lambda>environment.
      bind_res (standard_key_management_findings key_management env) (\<lambda>management.
      bind_res (if \<not> strict then Inr [] else
        bind_res (strict_environment_findings env) (\<lambda>e. bind_res (strict_key_management_findings key_management env) (\<lambda>k.
        Inr (e @ k @ (if doc_get attestation ''schema'' \<noteq> JStr ATTESTATION_SCHEMA then [(''schema'', ''must equal '' @ ATTESTATION_SCHEMA)] else []))))) (\<lambda>strict_findings.
      bind_res (map_res (\<lambda>asset. assess_asset reads asset (env_get env ''TAXSTAMP_KMS_KEY_REFERENCE'') attestation strict) required_assets) (\<lambda>results.
      let global_findings = environment @ management in
      Inr \<lparr>at_attested = (global_findings = [] \<and> strict_findings = [] \<and> list_all ar_attested results), at_global_findings = global_findings,
           at_strict_findings = strict_findings, at_assets = results\<rparr>)))))"

text \<open>\<^verbatim>\<open>main\<close>: a file that is missing or is not a JSON object reads as an empty attestation.\<close>

definition check_main :: "(string \<Rightarrow> bool) \<Rightarrow> string \<Rightarrow> json option \<Rightarrow> string list \<Rightarrow> bool \<Rightarrow> int res" where
  "check_main reads env_file attestation required_assets strict =
     (let payload = (case attestation of Some (JObj d) \<Rightarrow> d | _ \<Rightarrow> []) in
      bind_res (assess reads (parse_env_file env_file) payload required_assets strict) (\<lambda>result. Inr (if at_attested result then 0 else 1)))"

section \<open>What the check asks for\<close>

lemma failed_Nil: "failed cs = [] \<longleftrightarrow> list_all fst cs"
  by (auto simp: failed_def list_all_iff filter_empty_conv)

definition asset_evident :: "(string \<Rightarrow> bool) \<Rightarrow> string \<Rightarrow> json_object \<Rightarrow> bool" where
  "asset_evident reads key r =
     (doc_get r ''encryption_at_rest'' = JBool True \<and> doc_get r ''backup_encryption'' = JBool True \<and>
      hashed_in (doc_get r ''storage_scope'') STORAGE_SCOPES = Inr True \<and> doc_get r ''key_reference'' = JStr key \<and>
      is_evidence_uri (doc_get r ''evidence_uri'') = Inr True \<and> is_evidence_uri (doc_get r ''backup_restore_evidence_uri'') = Inr True \<and>
      is_evidence_uri (doc_get r ''retention_deletion_evidence_uri'') = Inr True \<and>
      is_non_placeholder (doc_get r ''verified_at'') \<and> is_utc_timestamp reads (doc_get r ''verified_at''))"

definition asset_of :: "json_object \<Rightarrow> string \<Rightarrow> json" where
  "asset_of attestation asset = (case doc_get attestation ''assets'' of JObj assets \<Rightarrow> doc_get assets asset | _ \<Rightarrow> JNull)"

lemma assess_asset_attests:
  "(\<exists>r. assess_asset reads asset key att True = Inr r \<and> ar_attested r) \<longleftrightarrow> (\<exists>d. asset_of att asset = JObj d \<and> asset_evident reads key d)" (is "?l \<longleftrightarrow> ?r")
proof
  assume ?l
  then show ?r
    by (cases "asset_of att asset") (auto simp: assess_asset_def asset_of_def [symmetric] Let_def asset_evident_def failed_Nil)
next
  assume ?r
  then show ?l
    by (auto simp: assess_asset_def asset_of_def [symmetric] Let_def asset_evident_def failed_def simp del: bind_res_eq_Inr)
qed

definition environment_evident :: "env \<Rightarrow> bool" where
  "environment_evident env =
     (env_get env ''TAXSTAMP_ENV'' = ''production'' \<and> says_true env ''TAXSTAMP_STORAGE_ENCRYPTION_REQUIRED'' \<and>
      env_get env ''TAXSTAMP_KMS_PROVIDER'' \<in> set SUPPORTED_PROVIDERS \<and> is_non_placeholder (JStr (env_get env ''TAXSTAMP_KMS_KEY_REFERENCE'')) \<and>
      says_true env ''TAXSTAMP_KMS_HSM_BACKED'' \<and> (\<exists>n. rotation env = Inr (Some n) \<and> 1 \<le> n \<and> n \<le> 730) \<and>
      is_evidence_uri (JStr (env_get env ''TAXSTAMP_STORAGE_ENCRYPTION_EVIDENCE_URI'')) = Inr True)"

definition management_evident :: "env \<Rightarrow> json_object \<Rightarrow> bool" where
  "management_evident env km =
     (doc_get km ''provider'' = JStr (env_get env ''TAXSTAMP_KMS_PROVIDER'') \<and> doc_get km ''key_reference'' = JStr (env_get env ''TAXSTAMP_KMS_KEY_REFERENCE'') \<and>
      doc_get km ''hsm_backed'' = JBool True \<and> (\<exists>n. rotation env = Inr (Some n) \<and> number (doc_get km ''rotation_days'') = Some (of_int n)) \<and>
      is_evidence_uri (doc_get km ''rotation_evidence_uri'') = Inr True \<and> is_evidence_uri (doc_get km ''access_review_evidence_uri'') = Inr True \<and>
      is_evidence_uri (doc_get km ''recovery_exercise_evidence_uri'') = Inr True)"

lemma standard_environment: "environment_evident env \<Longrightarrow> standard_environment_findings env = Inr []"
  by (simp add: environment_evident_def standard_environment_findings_def failed_def)

lemma strict_environment: "strict_environment_findings env = Inr [] \<longleftrightarrow> environment_evident env"
  by (auto simp: environment_evident_def strict_environment_findings_def failed_Nil split: option.splits)

lemma standard_management: "management_evident env km \<Longrightarrow> standard_key_management_findings (JObj km) env = Inr []"
  by (simp add: management_evident_def standard_key_management_findings_def failed_def)

lemma strict_management: "strict_key_management_findings v env = Inr [] \<longleftrightarrow> (\<exists>km. v = JObj km \<and> management_evident env km)"
proof
  assume "strict_key_management_findings v env = Inr []"
  then show "\<exists>km. v = JObj km \<and> management_evident env km"
    by (cases v) (auto simp: management_evident_def strict_key_management_findings_def evidence_checks_def failed_Nil split: option.splits)
next
  assume "\<exists>km. v = JObj km \<and> management_evident env km"
  then show "strict_key_management_findings v env = Inr []"
    by (auto simp: management_evident_def strict_key_management_findings_def evidence_checks_def failed_def simp del: bind_res_eq_Inr)
qed

lemma map_res_all: "(\<exists>ys. map_res f xs = Inr ys \<and> list_all q ys) \<longleftrightarrow> (\<forall>x \<in> set xs. \<exists>y. f x = Inr y \<and> q y)"
  by (induction xs) auto

text \<open>The strict check attests exactly what all of these ask for.\<close>

lemma assess_attests:
  "(\<exists>r. assess reads env att required True = Inr r \<and> at_attested r) \<longleftrightarrow>
     environment_evident env \<and> (\<exists>km. doc_get att ''key_management'' = JObj km \<and> management_evident env km) \<and> doc_get att ''schema'' = JStr ATTESTATION_SCHEMA \<and>
     (\<forall>asset \<in> set required. \<exists>d. asset_of att asset = JObj d \<and> asset_evident reads (env_get env ''TAXSTAMP_KMS_KEY_REFERENCE'') d)" (is "?l \<longleftrightarrow> ?r")
proof -
  let ?key = "env_get env ''TAXSTAMP_KMS_KEY_REFERENCE''" and ?km = "doc_get att ''key_management''"
  have assets: "(\<exists>rs. map_res (\<lambda>asset. assess_asset reads asset ?key att True) required = Inr rs \<and> list_all ar_attested rs) \<longleftrightarrow>
    (\<forall>asset \<in> set required. \<exists>d. asset_of att asset = JObj d \<and> asset_evident reads ?key d)"
    unfolding map_res_all assess_asset_attests ..
  have "?l \<longleftrightarrow> standard_environment_findings env = Inr [] \<and> standard_key_management_findings ?km env = Inr [] \<and> strict_environment_findings env = Inr [] \<and>
      strict_key_management_findings ?km env = Inr [] \<and> doc_get att ''schema'' = JStr ATTESTATION_SCHEMA \<and>
      (\<exists>rs. map_res (\<lambda>asset. assess_asset reads asset ?key att True) required = Inr rs \<and> list_all ar_attested rs)"
    by (auto simp: assess_def Let_def)
  also have "\<dots> \<longleftrightarrow> ?r"
    unfolding assets strict_environment strict_management using standard_environment standard_management by auto
  finally show ?thesis .
qed

lemma map_res_results: "map_res f xs = Inr ys \<Longrightarrow> x \<in> set xs \<Longrightarrow> \<exists>y \<in> set ys. f x = Inr y"
  by (induction xs arbitrary: ys) auto

section \<open>What a valid attestation has\<close>

lemma validate_key_management_ok:
  assumes "validate_key_management v = Inr []"
  obtains km p n where "v = JObj km" "doc_get km ''provider'' = JStr p" "p \<in> set SUPPORTED_PROVIDERS" "is_non_placeholder (doc_get km ''key_reference'')"
    "doc_get km ''hsm_backed'' = JBool True" "doc_get km ''rotation_days'' = JInt n" "1 \<le> n" "n \<le> 730"
    "is_evidence_uri (doc_get km ''rotation_evidence_uri'') = Inr True" "is_evidence_uri (doc_get km ''access_review_evidence_uri'') = Inr True"
    "is_evidence_uri (doc_get km ''recovery_exercise_evidence_uri'') = Inr True"
proof (cases v)
  case (JObj km)
  then show ?thesis using assms that [of km]
    by (auto simp: validate_key_management_def Let_def field_errors_def failed_Nil evidence_checks_def hashed_in_def split: if_splits json.splits)
qed (use assms in \<open>simp_all add: validate_key_management_def\<close>)

lemma py_eq_string: "py_eq v (JStr s) \<Longrightarrow> v = JStr s"
  by (cases v) (auto simp: number_def split: if_splits py_float.splits)

lemma validate_asset_record_ok:
  assumes "validate_asset_record reads asset v (JStr key) = Inr []" and "\<And>w. is_utc_timestamp reads w \<Longrightarrow> is_non_placeholder w"
  shows "\<exists>d. v = JObj d \<and> asset_evident reads key d"
proof (cases v)
  case (JObj d)
  then show ?thesis using assms
    by (auto simp: validate_asset_record_def Let_def field_errors_def failed_Nil evidence_checks_def asset_evident_def dest: py_eq_string split: if_splits)
qed (use assms in \<open>simp_all add: validate_asset_record_def Let_def\<close>)

lemma validate_assets_ok:
  assumes "validate_assets reads v (JStr key) = Inr []" and "\<And>w. is_utc_timestamp reads w \<Longrightarrow> is_non_placeholder w"
  obtains assets where "v = JObj assets" "\<And>a r. (a, r) \<in> set assets \<Longrightarrow> a \<in> set ASSET_NAMES \<and> (\<exists>d. r = JObj d \<and> asset_evident reads key d)"
proof (cases v)
  case (JObj assets)
  then obtain es where m: "map_res (\<lambda>(asset, r). if asset \<notin> set ASSET_NAMES then Inr [''assets.'' @ asset @ '' is not a supported storage asset.'']
      else validate_asset_record reads asset r (JStr key)) assets = Inr es" "concat es = []"
    using assms(1) by (auto simp: validate_assets_def split: if_splits)
  have "a \<in> set ASSET_NAMES \<and> (\<exists>d. r = JObj d \<and> asset_evident reads key d)" if ar: "(a, r) \<in> set assets" for a r
  proof -
    obtain e where e: "e \<in> set es" "(if a \<notin> set ASSET_NAMES then Inr [''assets.'' @ a @ '' is not a supported storage asset.'']
      else validate_asset_record reads a r (JStr key)) = Inr e"
      using map_res_results [OF m(1) ar] by auto
    have "e = []" using m(2) e(1) by auto
    with e(2) have "a \<in> set ASSET_NAMES" "validate_asset_record reads a r (JStr key) = Inr []" by (simp_all split: if_splits)
    then show ?thesis using validate_asset_record_ok assms(2) by blast
  qed
  with JObj that show ?thesis by blast
qed (use assms in \<open>simp_all add: validate_assets_def\<close>)

section \<open>Properties\<close>

definition sample_reads :: "string \<Rightarrow> bool" where
  "sample_reads s = (s = ''2026-01-01T00:00:00+00:00'')"

lemma sample_reads_ok: "is_utc_timestamp sample_reads v \<Longrightarrow> is_non_placeholder v"
proof -
  assume u: "is_utc_timestamp sample_reads v"
  then obtain s where s: "v = JStr s" "s \<noteq> []" "last s = CHR ''Z''" "butlast s @ ''+00:00'' = ''2026-01-01T00:00:00'' @ ''+00:00''"
    by (cases v) (auto simp: is_utc_timestamp_def sample_reads_def)
  from s(4) have "butlast s = ''2026-01-01T00:00:00''" by (simp only: append_same_eq)
  with s(2,3) have "s = ''2026-01-01T00:00:00'' @ ''Z''" by (metis append_butlast_last_id)
  moreover have "is_non_placeholder (JStr (''2026-01-01T00:00:00'' @ ''Z''))" by code_simp
  ultimately show ?thesis using s(1) by simp
qed

definition sample_attestation :: json_object where
  "sample_attestation =
     [(''schema'', JStr ATTESTATION_SCHEMA), (''environment'', JStr ''production''),
      (''key_management'', JObj [(''provider'', JStr ''aws_kms''), (''key_reference'', JStr ''alias/stamps''), (''hsm_backed'', JBool True),
         (''rotation_days'', JInt 365), (''rotation_evidence_uri'', JStr ''s3://evidence/rotation''),
         (''access_review_evidence_uri'', JStr ''s3://evidence/access''), (''recovery_exercise_evidence_uri'', JStr ''s3://evidence/recovery'')]),
      (''assets'', JObj [(''postgres'', JObj [(''encryption_at_rest'', JBool True), (''backup_encryption'', JBool True),
         (''storage_scope'', JStr ''managed-encrypted-service''), (''key_reference'', JStr ''alias/stamps''), (''evidence_uri'', JStr ''s3://evidence/pg''),
         (''backup_restore_evidence_uri'', JStr ''s3://evidence/restore''), (''retention_deletion_evidence_uri'', JStr ''s3://evidence/erase''),
         (''verified_at'', JStr ''2026-01-01T00:00:00Z'')])])]"

definition sample_env :: env where
  "sample_env =
     [(''TAXSTAMP_ENV'', ''production''), (''TAXSTAMP_STORAGE_ENCRYPTION_REQUIRED'', ''True''), (''TAXSTAMP_KMS_PROVIDER'', ''aws_kms''),
      (''TAXSTAMP_KMS_KEY_REFERENCE'', ''alias/stamps''), (''TAXSTAMP_KMS_HSM_BACKED'', ''true''), (''TAXSTAMP_KMS_KEY_ROTATION_DAYS'', ''365''),
      (''TAXSTAMP_STORAGE_ENCRYPTION_EVIDENCE_URI'', ''s3://evidence/1'')]"

lemma parse_env_example:
  "parse_env_file (''A=b'' @ [CHR 0x0D, CHR 0x0A] @ ''# C=d'' @ [CHR 0x0A] @ '' E = '' @ [CHR 0x22] @ ''f=g'' @ [CHR 0x22]) = [(''A'', ''b''), (''E'', ''f=g'')]"
  by code_simp

text \<open>
  C25. The two scripts agree.  An attestation that the converter writes passes the strict check of every deployment that is configured as
  the attestation says, for the assets that it covers; and whatever a strict check attests, the record of each asset affirms
  encryption of storage and of backups under the configured key.
\<close>

theorem converted_attestation_attests:
  assumes "convert_main reads False document = Inr (0, Some doc)" and "\<forall>v. is_utc_timestamp reads v \<longrightarrow> is_non_placeholder v"
    and "doc_get doc ''key_management'' = JObj km" and "doc_get km ''provider'' = JStr (env_get env ''TAXSTAMP_KMS_PROVIDER'')"
    and "doc_get km ''key_reference'' = JStr (env_get env ''TAXSTAMP_KMS_KEY_REFERENCE'')"
    and "rotation env = Inr (Some days)" and "doc_get km ''rotation_days'' = JInt days"
    and "env_get env ''TAXSTAMP_ENV'' = ''production''" and "says_true env ''TAXSTAMP_STORAGE_ENCRYPTION_REQUIRED''" and "says_true env ''TAXSTAMP_KMS_HSM_BACKED''"
    and "is_evidence_uri (JStr (env_get env ''TAXSTAMP_STORAGE_ENCRYPTION_EVIDENCE_URI'')) = Inr True"
    and "\<forall>asset \<in> set required. asset_of doc asset \<noteq> JNull"
  shows "(\<exists>r. assess reads env doc required True = Inr r \<and> at_attested r) \<and>
    (\<forall>env' required' r asset. assess reads env' doc required' True = Inr r \<longrightarrow> at_attested r \<longrightarrow> asset \<in> set required' \<longrightarrow>
      (\<exists>d. asset_of doc asset = JObj d \<and> doc_get d ''encryption_at_rest'' = JBool True \<and> doc_get d ''backup_encryption'' = JBool True \<and>
         doc_get d ''key_reference'' = JStr (env_get env' ''TAXSTAMP_KMS_KEY_REFERENCE'')))"
proof
  let ?key = "env_get env ''TAXSTAMP_KMS_KEY_REFERENCE''"
  obtain errors where v: "validate_attestation reads document = Inr (Some doc, errors)" "errors = []"
    using assms(1) by (auto simp: convert_main_def split: if_splits option.splits)
  then obtain environment ks as where doc: "document = JObj doc" and sch: "doc_get doc ''schema'' = JStr ATTESTATION_SCHEMA"
    and km: "validate_key_management (doc_get doc ''key_management'') = Inr []" and ast: "validate_assets reads (doc_get doc ''assets'') (JStr ?key) = Inr []"
    using assms(3,5) by (cases document) (auto simp: validate_attestation_def failed_Nil Let_def)
  obtain assets where a: "doc_get doc ''assets'' = JObj assets" and ok: "\<And>a r. (a, r) \<in> set assets \<Longrightarrow> \<exists>d. r = JObj d \<and> asset_evident reads ?key d"
    using validate_assets_ok [OF ast] assms(2) by metis
  have covered: "\<exists>d. asset_of doc asset = JObj d \<and> asset_evident reads ?key d" if "asset \<in> set required" for asset
  proof -
    have "asset_of doc asset \<noteq> JNull" using assms(12) that by blast
    then obtain r where "map_of assets asset = Some r" "asset_of doc asset = r"
      unfolding asset_of_def a json.case doc_get_def [of assets] by (auto split: option.splits)
    with ok map_of_SomeD show ?thesis by metis
  qed
  have num: "number (JInt days) = Some (of_int days)" by (simp add: number_def)
  have "environment_evident env \<and> management_evident env km"
    by (rule validate_key_management_ok [OF km]) (use assms(3-11) num in \<open>simp add: environment_evident_def management_evident_def\<close>)
  then show "\<exists>r. assess reads env doc required True = Inr r \<and> at_attested r" unfolding assess_attests using assms(3) sch covered by blast
next
  show "\<forall>env' required' r asset. assess reads env' doc required' True = Inr r \<longrightarrow> at_attested r \<longrightarrow> asset \<in> set required' \<longrightarrow>
      (\<exists>d. asset_of doc asset = JObj d \<and> doc_get d ''encryption_at_rest'' = JBool True \<and> doc_get d ''backup_encryption'' = JBool True \<and>
         doc_get d ''key_reference'' = JStr (env_get env' ''TAXSTAMP_KMS_KEY_REFERENCE''))"
  proof (intro allI impI)
    fix env' required' r asset
    assume "assess reads env' doc required' True = Inr r" "at_attested r" "asset \<in> set required'"
    then obtain d where "asset_of doc asset = JObj d" "asset_evident reads (env_get env' ''TAXSTAMP_KMS_KEY_REFERENCE'') d"
      using assess_attests [of reads env' doc required'] by blast
    then show "\<exists>d. asset_of doc asset = JObj d \<and> doc_get d ''encryption_at_rest'' = JBool True \<and> doc_get d ''backup_encryption'' = JBool True \<and>
         doc_get d ''key_reference'' = JStr (env_get env' ''TAXSTAMP_KMS_KEY_REFERENCE'')"
      by (auto simp: asset_evident_def)
  qed
qed

lemma sample_converted: "convert_main sample_reads False (JObj sample_attestation) = Inr (0, Some sample_attestation)"
  by code_simp

theorem converted_attestation_attests_witness:
  "\<exists>r. convert_main sample_reads False (JObj sample_attestation) = Inr (0, Some sample_attestation) \<and>
    assess sample_reads sample_env sample_attestation [''postgres''] True = Inr r \<and> at_attested r"
proof -
  obtain km where km: "doc_get sample_attestation ''key_management'' = JObj km" "doc_get km ''provider'' = JStr ''aws_kms''"
    "doc_get km ''key_reference'' = JStr ''alias/stamps''" "doc_get km ''rotation_days'' = JInt 365"
    by (simp add: sample_attestation_def doc_get_def)
  have e: "env_get sample_env ''TAXSTAMP_KMS_PROVIDER'' = ''aws_kms''" "env_get sample_env ''TAXSTAMP_KMS_KEY_REFERENCE'' = ''alias/stamps''"
    "rotation sample_env = Inr (Some 365)" "env_get sample_env ''TAXSTAMP_ENV'' = ''production''" "says_true sample_env ''TAXSTAMP_STORAGE_ENCRYPTION_REQUIRED''"
    "says_true sample_env ''TAXSTAMP_KMS_HSM_BACKED''" "is_evidence_uri (JStr (env_get sample_env ''TAXSTAMP_STORAGE_ENCRYPTION_EVIDENCE_URI'')) = Inr True"
    by code_simp+
  have "\<forall>asset \<in> set [''postgres'']. asset_of sample_attestation asset \<noteq> JNull" by code_simp
  from converted_attestation_attests [OF sample_converted _ km(1) _ _ e(3) km(4) e(4-7) this] km e(1,2) sample_reads_ok sample_converted
  show ?thesis by auto
qed

end
