(* ===== verification/Migrations.thy ===== *)
theory Migrations
  imports Prelude
begin

text \<open>
  \<^verbatim>\<open>migrations/versions/0001_initial_schema.py\<close> and \<^verbatim>\<open>0002_tigerbeetle_ledger_intent.py\<close>: the schema the
  database really has.  The first part is the language the migrations are written in (the arguments of
  \<^verbatim>\<open>op.create_table\<close>, \<^verbatim>\<open>op.create_index\<close>, \<^verbatim>\<open>op.execute\<close> and their opposites) and what each operation does to
  the catalogue of a PostgreSQL database, with the conditions on which PostgreSQL refuses it; then come the
  tables and the \<^verbatim>\<open>upgrade\<close> and \<^verbatim>\<open>downgrade\<close> of both migrations, element by element.  That the result agrees
  with the constraints of \<^verbatim>\<open>models.py\<close> is shown in \<open>Schema\<close>.  The effect of an operation is that of the SQL statement it stands
  for.
\<close>

section \<open>The vocabulary of a migration\<close>

datatype sa_type =
  SaUUID | SaBigInteger | SaInteger | SaString nat | SaText | SaDateTime | SaBoolean | SaJSONB

text \<open>What a row holds in a column that the statement does not name.\<close>

datatype sa_default = NoDefault | Autoincrement | DefaultNow | DefaultInt int | DefaultStr string

text \<open>
  The expressions of the \<^verbatim>\<open>CHECK\<close> constraints.  \<open>LowerHexC e n\<close> is \<^verbatim>\<open>e ~ '^[0-9a-f]{n}$'\<close>.
\<close>

datatype sql_expr =
    ColRef string | IntLit int | StrLit string
  | MulE sql_expr sql_expr | AddE sql_expr sql_expr
  | CharLength sql_expr | Upper sql_expr

datatype sql_cond =
    InC sql_expr "string list" | NotInC sql_expr "string list"
  | EqC sql_expr sql_expr | NeC sql_expr sql_expr
  | GtC sql_expr sql_expr | GeC sql_expr sql_expr | LeC sql_expr sql_expr
  | IsNull sql_expr | IsNotNull sql_expr
  | AndC sql_cond sql_cond | OrC sql_cond sql_cond
  | LowerHexC sql_expr nat

datatype on_delete = RESTRICT | CASCADE

text \<open>
  The elements of \<^verbatim>\<open>op.create_table\<close>: a column with its name, type, default and whether it may be
  \<^verbatim>\<open>NULL\<close>, and the table constraints with their names.
\<close>

datatype sa_element =
    Column string sa_type sa_default bool
  | CheckConstraint sql_cond string
  | ForeignKeyConstraint "string list" string "string list" string on_delete
  | PrimaryKeyConstraint "string list" string
  | UniqueConstraint "string list" string

datatype trigger_time = Before | After_deferred

datatype trigger_event = Insert | Update | Delete

text \<open>The bodies of the trigger functions; their meaning is in \<open>Schema\<close> and, for the last, in \<open>Ledger\<close>.\<close>

datatype function_body = Reject_mutation | Immutable_fields "string list" | Assert_journal_balanced

datatype statement =
    create_function string function_body
  | create_trigger string trigger_time trigger_event string string
  | drop_trigger string string
  | drop_function string

datatype operation =
    create_table string "sa_element list"
  | create_index string string "string list" bool "sql_cond option"
  | drop_index string string
  | drop_table string
  | execute statement

section \<open>The catalogue\<close>

record sa_index =
  ix_name :: string
  ix_table :: string
  ix_columns :: "string list"
  ix_unique :: bool
  ix_where :: "sql_cond option"

record sa_trigger =
  tg_name :: string
  tg_time :: trigger_time
  tg_event :: trigger_event
  tg_table :: string
  tg_function :: string

record catalogue =
  cat_tables :: "(string \<times> sa_element list) list"
  cat_indexes :: "sa_index list"
  cat_functions :: "(string \<times> function_body) list"
  cat_triggers :: "sa_trigger list"

definition empty_catalogue :: catalogue where
  "empty_catalogue = \<lparr>cat_tables = [], cat_indexes = [], cat_functions = [], cat_triggers = []\<rparr>"

fun element_columns :: "sa_element \<Rightarrow> (string \<times> sa_type \<times> bool) list" where
  "element_columns (Column n t d nullable) = [(n, t, nullable)]"
| "element_columns _ = []"

definition table_columns :: "sa_element list \<Rightarrow> (string \<times> sa_type \<times> bool) list" where
  "table_columns els = concat (map element_columns els)"

fun element_checks :: "sa_element \<Rightarrow> sql_cond list" where
  "element_checks (CheckConstraint c n) = [c]"
| "element_checks _ = []"

definition table_checks :: "sa_element list \<Rightarrow> sql_cond list" where
  "table_checks els = concat (map element_checks els)"

fun element_keys :: "sa_element \<Rightarrow> (string \<times> string list) list" where
  "element_keys (PrimaryKeyConstraint cs n) = [(n, cs)]"
| "element_keys (UniqueConstraint cs n) = [(n, cs)]"
| "element_keys _ = []"

definition table_keys :: "sa_element list \<Rightarrow> (string \<times> string list) list" where
  "table_keys els = concat (map element_keys els)"

fun element_references :: "sa_element \<Rightarrow> (string list \<times> string \<times> string list \<times> on_delete) list" where
  "element_references (ForeignKeyConstraint cs t rs n d) = [(cs, t, rs, d)]"
| "element_references _ = []"

definition table_references :: "sa_element list \<Rightarrow> (string list \<times> string \<times> string list \<times> on_delete) list" where
  "table_references els = concat (map element_references els)"

fun constraint_names :: "sa_element \<Rightarrow> string list" where
  "constraint_names (Column n t d nullable) = []"
| "constraint_names (CheckConstraint c n) = [n]"
| "constraint_names (ForeignKeyConstraint cs t rs n d) = [n]"
| "constraint_names (PrimaryKeyConstraint cs n) = [n]"
| "constraint_names (UniqueConstraint cs n) = [n]"

fun expr_columns :: "sql_expr \<Rightarrow> string list" where
  "expr_columns (ColRef c) = [c]"
| "expr_columns (MulE a b) = expr_columns a @ expr_columns b"
| "expr_columns (AddE a b) = expr_columns a @ expr_columns b"
| "expr_columns (CharLength a) = expr_columns a"
| "expr_columns (Upper a) = expr_columns a"
| "expr_columns _ = []"

fun cond_columns :: "sql_cond \<Rightarrow> string list" where
  "cond_columns (InC a vs) = expr_columns a"
| "cond_columns (NotInC a vs) = expr_columns a"
| "cond_columns (EqC a b) = expr_columns a @ expr_columns b"
| "cond_columns (NeC a b) = expr_columns a @ expr_columns b"
| "cond_columns (GtC a b) = expr_columns a @ expr_columns b"
| "cond_columns (GeC a b) = expr_columns a @ expr_columns b"
| "cond_columns (LeC a b) = expr_columns a @ expr_columns b"
| "cond_columns (IsNull a) = expr_columns a"
| "cond_columns (IsNotNull a) = expr_columns a"
| "cond_columns (AndC c d) = cond_columns c @ cond_columns d"
| "cond_columns (OrC c d) = cond_columns c @ cond_columns d"
| "cond_columns (LowerHexC a n) = expr_columns a"

text \<open>Tables and indexes, the ones behind primary keys and unique constraints included, share one name space.\<close>

definition relation_names :: "catalogue \<Rightarrow> string list" where
  "relation_names cat =
     map fst (cat_tables cat) @ concat (map (\<lambda>(n, els). map fst (table_keys els)) (cat_tables cat))
     @ map ix_name (cat_indexes cat)"

section \<open>The effect of an operation\<close>

text \<open>
  The errors of the database: an object that exists already, one that does not exist, one that others
  depend on, an invalid definition; and for the statements of \<open>Schema\<close> a value outside its column's type, a
  violated constraint, an exception raised by a trigger, and a cascade that is too deep.
\<close>

datatype sql_error =
    Duplicate_object | Undefined_object | Dependent_objects | Invalid_definition
  | Data_exception | Integrity_violation | Raise_exception | Stack_depth

type_synonym 'a sql = "sql_error + 'a"

definition sql_bind :: "'a sql \<Rightarrow> ('a \<Rightarrow> 'b sql) \<Rightarrow> 'b sql" where
  "sql_bind m f = (case m of Inl e \<Rightarrow> Inl e | Inr x \<Rightarrow> f x)"

lemma sql_bind_simps [simp]:
  "sql_bind (Inl e) f = Inl e"
  "sql_bind (Inr x) f = f x"
  by (simp_all add: sql_bind_def)

lemma sql_bind_Inr: "sql_bind m f = Inr y \<longleftrightarrow> (\<exists>x. m = Inr x \<and> f x = Inr y)"
  by (cases m) auto

text \<open>
  A foreign key must refer to a column that is alone in a primary key or unique constraint of its table,
  which may be the table being created.
\<close>

definition reference_defined ::
  "(string \<times> sa_element list) list \<Rightarrow> string list \<Rightarrow> string list \<times> string \<times> string list \<times> on_delete \<Rightarrow> bool" where
  "reference_defined tabs cols = (\<lambda>(cs, t, rs, d).
     set cs \<subseteq> set cols \<and>
     (case map_of tabs t of
        None \<Rightarrow> False
      | Some els \<Rightarrow> rs \<in> set (map snd (table_keys els))))"

definition well_defined :: "(string \<times> sa_element list) list \<Rightarrow> string \<Rightarrow> sa_element list \<Rightarrow> bool" where
  "well_defined tabs n els =
     (let cols = map fst (table_columns els)
      in distinct cols \<and> distinct (concat (map constraint_names els)) \<and>
         list_all (\<lambda>c. set (cond_columns c) \<subseteq> set cols) (table_checks els) \<and>
         list_all (\<lambda>(k, cs). set cs \<subseteq> set cols) (table_keys els) \<and>
         list_all (reference_defined (tabs @ [(n, els)]) cols) (table_references els))"

definition run_create_table :: "string \<Rightarrow> sa_element list \<Rightarrow> catalogue \<Rightarrow> catalogue sql" where
  "run_create_table n els cat =
     (let ns = n # map fst (table_keys els)
      in if \<not> distinct ns \<or> list_ex (\<lambda>m. m \<in> set (relation_names cat)) ns then Inl Duplicate_object
         else if \<not> well_defined (cat_tables cat) n els then Inl Invalid_definition
         else Inr (cat\<lparr>cat_tables := cat_tables cat @ [(n, els)]\<rparr>))"

definition run_create_index ::
  "string \<Rightarrow> string \<Rightarrow> string list \<Rightarrow> bool \<Rightarrow> sql_cond option \<Rightarrow> catalogue \<Rightarrow> catalogue sql" where
  "run_create_index n t cs u w cat =
     (case map_of (cat_tables cat) t of
        None \<Rightarrow> Inl Undefined_object
      | Some els \<Rightarrow>
          if n \<in> set (relation_names cat) then Inl Duplicate_object
          else if \<not> set (cs @ (case w of None \<Rightarrow> [] | Some c \<Rightarrow> cond_columns c)) \<subseteq> set (map fst (table_columns els))
          then Inl Invalid_definition
          else Inr (cat\<lparr>cat_indexes := cat_indexes cat @
            [\<lparr>ix_name = n, ix_table = t, ix_columns = cs, ix_unique = u, ix_where = w\<rparr>]\<rparr>))"

definition run_drop_index :: "string \<Rightarrow> catalogue \<Rightarrow> catalogue sql" where
  "run_drop_index n cat =
     (if n \<notin> set (map ix_name (cat_indexes cat)) then Inl Undefined_object
      else Inr (cat\<lparr>cat_indexes := filter (\<lambda>i. ix_name i \<noteq> n) (cat_indexes cat)\<rparr>))"

text \<open>\<^verbatim>\<open>DROP TABLE\<close> takes the table's indexes and triggers along, and is refused while another table refers to it.\<close>

definition run_drop_table :: "string \<Rightarrow> catalogue \<Rightarrow> catalogue sql" where
  "run_drop_table n cat =
     (if n \<notin> set (map fst (cat_tables cat)) then Inl Undefined_object
      else if list_ex (\<lambda>(m, els). m \<noteq> n \<and> list_ex (\<lambda>(cs, t, rs, d). t = n) (table_references els)) (cat_tables cat)
      then Inl Dependent_objects
      else Inr (cat\<lparr>cat_tables := filter (\<lambda>(m, els). m \<noteq> n) (cat_tables cat),
                    cat_indexes := filter (\<lambda>i. ix_table i \<noteq> n) (cat_indexes cat),
                    cat_triggers := filter (\<lambda>g. tg_table g \<noteq> n) (cat_triggers cat)\<rparr>))"

text \<open>\<^verbatim>\<open>CREATE OR REPLACE FUNCTION\<close>, \<^verbatim>\<open>CREATE TRIGGER\<close>, \<^verbatim>\<open>DROP TRIGGER IF EXISTS\<close>, \<^verbatim>\<open>DROP FUNCTION IF EXISTS\<close>.\<close>

fun run_statement :: "statement \<Rightarrow> catalogue \<Rightarrow> catalogue sql" where
  "run_statement (create_function n b) cat =
     Inr (cat\<lparr>cat_functions := filter (\<lambda>(m, c). m \<noteq> n) (cat_functions cat) @ [(n, b)]\<rparr>)"
| "run_statement (create_trigger n time ev t f) cat =
     (if t \<notin> set (map fst (cat_tables cat)) \<or> f \<notin> set (map fst (cat_functions cat)) then Inl Undefined_object
      else if list_ex (\<lambda>g. tg_table g = t \<and> tg_name g = n) (cat_triggers cat) then Inl Duplicate_object
      else Inr (cat\<lparr>cat_triggers := cat_triggers cat @
             [\<lparr>tg_name = n, tg_time = time, tg_event = ev, tg_table = t, tg_function = f\<rparr>]\<rparr>))"
| "run_statement (drop_trigger n t) cat =
     Inr (cat\<lparr>cat_triggers := filter (\<lambda>g. \<not> (tg_table g = t \<and> tg_name g = n)) (cat_triggers cat)\<rparr>)"
| "run_statement (drop_function n) cat =
     (if n \<in> set (map tg_function (cat_triggers cat)) then Inl Dependent_objects
      else Inr (cat\<lparr>cat_functions := filter (\<lambda>(m, c). m \<noteq> n) (cat_functions cat)\<rparr>))"

fun run_operation :: "operation \<Rightarrow> catalogue \<Rightarrow> catalogue sql" where
  "run_operation (create_table n els) = run_create_table n els"
| "run_operation (create_index n t cs u w) = run_create_index n t cs u w"
| "run_operation (drop_index n t) = run_drop_index n"
| "run_operation (drop_table n) = run_drop_table n"
| "run_operation (execute s) = run_statement s"

fun run_operations :: "operation list \<Rightarrow> catalogue \<Rightarrow> catalogue sql" where
  "run_operations [] cat = Inr cat"
| "run_operations (op # ops) cat = sql_bind (run_operation op cat) (run_operations ops)"

lemma run_operations_append:
  "run_operations (ops @ ops') cat = sql_bind (run_operations ops cat) (run_operations ops')"
  by (induction ops arbitrary: cat) (auto simp: sql_bind_def split: sum.splits)

section \<open>The initial schema\<close>

definition APPEND_ONLY_TABLES :: "string list" where
  "APPEND_ONLY_TABLES =
     [''audit_events'', ''order_transitions'', ''stamp_events'', ''ledger_entries'', ''journals'',
      ''payment_receipts'', ''verifications'']"

definition audit_events_table :: "sa_element list" where
  "audit_events_table =
    [Column ''seq'' SaBigInteger Autoincrement False,
     Column ''event_id'' SaUUID NoDefault False,
     Column ''occurred_at'' SaDateTime NoDefault False,
     Column ''ingested_at'' SaDateTime DefaultNow False,
     Column ''actor_principal_id'' SaUUID NoDefault True,
     Column ''actor_subject'' (SaString 128) NoDefault False,
     Column ''actor_role'' (SaString 32) NoDefault False,
     Column ''company_id'' SaUUID NoDefault True,
     Column ''action'' (SaString 64) NoDefault False,
     Column ''target_type'' (SaString 64) NoDefault False,
     Column ''target_id'' (SaString 128) NoDefault False,
     Column ''outcome'' (SaString 16) NoDefault False,
     Column ''request_id'' (SaString 64) NoDefault True,
     Column ''idempotency_key'' (SaString 128) NoDefault True,
     Column ''before_state'' SaJSONB NoDefault True,
     Column ''after_state'' SaJSONB NoDefault True,
     Column ''revision'' (SaString 64) NoDefault False,
     Column ''prev_hash'' (SaString 64) NoDefault False,
     Column ''hash'' (SaString 64) NoDefault False,
     CheckConstraint (InC (ColRef ''outcome'') [''success'', ''failure'', ''denied''])
         ''ck_audit_events_outcome_valid'',
     PrimaryKeyConstraint [''seq''] ''pk_audit_events'',
     UniqueConstraint [''event_id''] ''uq_audit_events_event_id'',
     UniqueConstraint [''hash''] ''uq_audit_events_hash'']"

definition companies_table :: "sa_element list" where
  "companies_table =
    [Column ''id'' SaUUID NoDefault False,
     Column ''tin'' (SaString 32) NoDefault False,
     Column ''name'' (SaString 255) NoDefault False,
     Column ''kyb_status'' (SaString 32) NoDefault False,
     Column ''kyb_verified_at'' SaDateTime NoDefault True,
     Column ''risk_tier'' (SaString 16) NoDefault False,
     Column ''created_at'' SaDateTime DefaultNow False,
     CheckConstraint (InC (ColRef ''kyb_status'') [''unverified'', ''verified'', ''suspended''])
         ''ck_companies_kyb_status_valid'',
     CheckConstraint (InC (ColRef ''risk_tier'') [''low'', ''medium'', ''high'']) ''ck_companies_risk_tier_valid'',
     CheckConstraint (GeC (CharLength (ColRef ''tin'')) (IntLit 8)) ''ck_companies_tin_length'',
     PrimaryKeyConstraint [''id''] ''pk_companies'',
     UniqueConstraint [''tin''] ''uq_companies_tin'']"

definition outbox_messages_table :: "sa_element list" where
  "outbox_messages_table =
    [Column ''id'' SaUUID NoDefault False,
     Column ''aggregate_type'' (SaString 64) NoDefault False,
     Column ''aggregate_id'' SaUUID NoDefault False,
     Column ''event_type'' (SaString 64) NoDefault False,
     Column ''dedupe_key'' (SaString 200) NoDefault False,
     Column ''payload'' SaJSONB NoDefault False,
     Column ''created_at'' SaDateTime DefaultNow False,
     Column ''available_at'' SaDateTime DefaultNow False,
     Column ''attempts'' SaInteger NoDefault False,
     Column ''locked_by'' (SaString 64) NoDefault True,
     Column ''locked_until'' SaDateTime NoDefault True,
     Column ''processed_at'' SaDateTime NoDefault True,
     Column ''dead_lettered_at'' SaDateTime NoDefault True,
     Column ''last_error'' SaText NoDefault True,
     PrimaryKeyConstraint [''id''] ''pk_outbox_messages'',
     UniqueConstraint [''dedupe_key''] ''uq_outbox_messages_dedupe_key'']"

definition reconciliation_runs_table :: "sa_element list" where
  "reconciliation_runs_table =
    [Column ''id'' SaUUID NoDefault False,
     Column ''kind'' (SaString 64) NoDefault False,
     Column ''started_at'' SaDateTime DefaultNow False,
     Column ''finished_at'' SaDateTime NoDefault True,
     Column ''status'' (SaString 16) NoDefault False,
     Column ''findings'' SaJSONB NoDefault False,
     CheckConstraint (InC (ColRef ''status'') [''clean'', ''findings'', ''error''])
         ''ck_reconciliation_runs_status_valid'',
     PrimaryKeyConstraint [''id''] ''pk_reconciliation_runs'']"

definition serial_counters_table :: "sa_element list" where
  "serial_counters_table =
    [Column ''product_category'' (SaString 64) NoDefault False,
     Column ''year'' SaInteger NoDefault False,
     Column ''next_value'' SaBigInteger NoDefault False,
     CheckConstraint (GeC (ColRef ''next_value'') (IntLit 1)) ''ck_serial_counters_next_value_positive'',
     PrimaryKeyConstraint [''product_category'', ''year''] ''pk_serial_counters'']"

definition tariffs_table :: "sa_element list" where
  "tariffs_table =
    [Column ''id'' SaUUID NoDefault False,
     Column ''product_category'' (SaString 64) NoDefault False,
     Column ''unit_price_minor'' SaBigInteger NoDefault False,
     Column ''currency'' (SaString 3) NoDefault False,
     Column ''vat_bps'' SaInteger NoDefault False,
     Column ''effective_from'' SaDateTime NoDefault False,
     Column ''effective_to'' SaDateTime NoDefault True,
     Column ''statutory_reference'' (SaString 255) NoDefault False,
     Column ''created_at'' SaDateTime DefaultNow False,
     CheckConstraint (OrC (IsNull (ColRef ''effective_to'')) (GtC (ColRef ''effective_to'') (ColRef
         ''effective_from''))) ''ck_tariffs_effective_range'',
     CheckConstraint (GtC (ColRef ''unit_price_minor'') (IntLit 0)) ''ck_tariffs_unit_price_positive'',
     CheckConstraint (AndC (GeC (ColRef ''vat_bps'') (IntLit 0)) (LeC (ColRef ''vat_bps'') (IntLit 10000)))
         ''ck_tariffs_vat_bps_range'',
     PrimaryKeyConstraint [''id''] ''pk_tariffs'']"

definition principals_table :: "sa_element list" where
  "principals_table =
    [Column ''id'' SaUUID NoDefault False,
     Column ''subject'' (SaString 128) NoDefault False,
     Column ''role'' (SaString 32) NoDefault False,
     Column ''company_id'' SaUUID NoDefault True,
     Column ''display_name'' (SaString 255) NoDefault False,
     Column ''active'' SaBoolean NoDefault False,
     Column ''created_at'' SaDateTime DefaultNow False,
     CheckConstraint (OrC (AndC (InC (ColRef ''role'') [''requester'']) (IsNotNull (ColRef ''company_id''))) (NotInC
         (ColRef ''role'') [''requester''])) ''ck_principals_requester_requires_company'',
     CheckConstraint (InC (ColRef ''role'') [''requester'', ''analyst'', ''supervisor'', ''treasury'', ''operator'',
         ''auditor'', ''admin'', ''device'']) ''ck_principals_role_valid'',
     ForeignKeyConstraint [''company_id''] ''companies'' [''id''] ''fk_principals_company_id'' RESTRICT,
     PrimaryKeyConstraint [''id''] ''pk_principals'',
     UniqueConstraint [''subject''] ''uq_principals_subject'']"

definition credentials_table :: "sa_element list" where
  "credentials_table =
    [Column ''id'' SaUUID NoDefault False,
     Column ''principal_id'' SaUUID NoDefault False,
     Column ''token_hash'' (SaString 64) NoDefault False,
     Column ''label'' (SaString 128) NoDefault False,
     Column ''created_at'' SaDateTime DefaultNow False,
     Column ''expires_at'' SaDateTime NoDefault True,
     Column ''revoked_at'' SaDateTime NoDefault True,
     Column ''last_used_at'' SaDateTime NoDefault True,
     ForeignKeyConstraint [''principal_id''] ''principals'' [''id''] ''fk_credentials_principal_id'' CASCADE,
     PrimaryKeyConstraint [''id''] ''pk_credentials'',
     UniqueConstraint [''token_hash''] ''uq_credentials_token_hash'']"

definition idempotency_records_table :: "sa_element list" where
  "idempotency_records_table =
    [Column ''id'' SaUUID NoDefault False,
     Column ''scope'' (SaString 64) NoDefault False,
     Column ''idempotency_key'' (SaString 128) NoDefault False,
     Column ''principal_id'' SaUUID NoDefault False,
     Column ''request_hash'' (SaString 64) NoDefault False,
     Column ''state'' (SaString 16) NoDefault False,
     Column ''response_status'' SaInteger NoDefault True,
     Column ''response_body'' SaJSONB NoDefault True,
     Column ''created_at'' SaDateTime DefaultNow False,
     Column ''completed_at'' SaDateTime NoDefault True,
     Column ''expires_at'' SaDateTime NoDefault False,
     CheckConstraint (InC (ColRef ''state'') [''in_progress'', ''completed''])
         ''ck_idempotency_records_state_valid'',
     ForeignKeyConstraint [''principal_id''] ''principals'' [''id''] ''fk_idempotency_records_principal_id''
         RESTRICT,
     PrimaryKeyConstraint [''id''] ''pk_idempotency_records'',
     UniqueConstraint [''scope'', ''idempotency_key''] ''uq_idempotency_records_scope_key'']"

definition orders_table :: "sa_element list" where
  "orders_table =
    [Column ''id'' SaUUID NoDefault False,
     Column ''order_ref'' (SaString 40) NoDefault False,
     Column ''company_id'' SaUUID NoDefault False,
     Column ''submitted_by'' SaUUID NoDefault False,
     Column ''product_category'' (SaString 64) NoDefault False,
     Column ''quantity'' SaBigInteger NoDefault False,
     Column ''tariff_id'' SaUUID NoDefault False,
     Column ''unit_price_minor'' SaBigInteger NoDefault False,
     Column ''subtotal_minor'' SaBigInteger NoDefault False,
     Column ''vat_bps'' SaInteger NoDefault False,
     Column ''vat_minor'' SaBigInteger NoDefault False,
     Column ''total_minor'' SaBigInteger NoDefault False,
     Column ''currency'' (SaString 3) NoDefault False,
     Column ''status'' (SaString 32) NoDefault False,
     Column ''risk_tier'' (SaString 16) NoDefault False,
     Column ''delivery_state'' (SaString 64) NoDefault False,
     Column ''delivery_address'' SaText NoDefault False,
     Column ''compliance_evidence'' SaJSONB NoDefault True,
     Column ''created_at'' SaDateTime DefaultNow False,
     Column ''updated_at'' SaDateTime DefaultNow False,
     Column ''version'' SaInteger NoDefault False,
     CheckConstraint (InC (ColRef ''risk_tier'') [''low'', ''medium'', ''high'']) ''ck_orders_risk_tier_valid'',
     CheckConstraint (InC (ColRef ''status'') [''submitted'', ''compliance_pending'', ''compliance_rejected'',
         ''awaiting_approval'', ''approved'', ''rejected'', ''awaiting_payment'', ''paid'', ''issuing'', ''issued'',
         ''cancelled'']) ''ck_orders_status_valid'',
     CheckConstraint (GtC (ColRef ''quantity'') (IntLit 0)) ''ck_orders_quantity_positive'',
     CheckConstraint (EqC (ColRef ''subtotal_minor'') (MulE (ColRef ''unit_price_minor'') (ColRef ''quantity'')))
         ''ck_orders_subtotal_matches_quantity'',
     CheckConstraint (GtC (ColRef ''subtotal_minor'') (IntLit 0)) ''ck_orders_subtotal_positive'',
     CheckConstraint (EqC (ColRef ''total_minor'') (AddE (ColRef ''subtotal_minor'') (ColRef ''vat_minor'')))
         ''ck_orders_total_matches_components'',
     CheckConstraint (GtC (ColRef ''unit_price_minor'') (IntLit 0)) ''ck_orders_unit_price_positive'',
     CheckConstraint (GeC (ColRef ''vat_minor'') (IntLit 0)) ''ck_orders_vat_non_negative'',
     ForeignKeyConstraint [''company_id''] ''companies'' [''id''] ''fk_orders_company_id'' RESTRICT,
     ForeignKeyConstraint [''submitted_by''] ''principals'' [''id''] ''fk_orders_submitted_by'' RESTRICT,
     ForeignKeyConstraint [''tariff_id''] ''tariffs'' [''id''] ''fk_orders_tariff_id'' RESTRICT,
     PrimaryKeyConstraint [''id''] ''pk_orders'',
     UniqueConstraint [''order_ref''] ''uq_orders_order_ref'']"

definition approvals_table :: "sa_element list" where
  "approvals_table =
    [Column ''id'' SaUUID NoDefault False,
     Column ''order_id'' SaUUID NoDefault False,
     Column ''level'' (SaString 32) NoDefault False,
     Column ''decision'' (SaString 16) NoDefault False,
     Column ''actor_principal_id'' SaUUID NoDefault False,
     Column ''reason'' (SaString 500) NoDefault False,
     Column ''created_at'' SaDateTime DefaultNow False,
     CheckConstraint (InC (ColRef ''decision'') [''approved'', ''rejected'']) ''ck_approvals_decision_valid'',
     CheckConstraint (InC (ColRef ''level'') [''analyst'', ''supervisor'']) ''ck_approvals_level_valid'',
     ForeignKeyConstraint [''actor_principal_id''] ''principals'' [''id''] ''fk_approvals_actor_principal_id''
         RESTRICT,
     ForeignKeyConstraint [''order_id''] ''orders'' [''id''] ''fk_approvals_order_id'' CASCADE,
     PrimaryKeyConstraint [''id''] ''pk_approvals'',
     UniqueConstraint [''order_id'', ''level''] ''uq_approvals_order_level'']"

definition order_transitions_table :: "sa_element list" where
  "order_transitions_table =
    [Column ''id'' SaUUID NoDefault False,
     Column ''order_id'' SaUUID NoDefault False,
     Column ''from_status'' (SaString 32) NoDefault True,
     Column ''to_status'' (SaString 32) NoDefault False,
     Column ''actor_principal_id'' SaUUID NoDefault True,
     Column ''reason'' (SaString 500) NoDefault False,
     Column ''created_at'' SaDateTime DefaultNow False,
     ForeignKeyConstraint [''actor_principal_id''] ''principals'' [''id'']
         ''fk_order_transitions_actor_principal_id'' RESTRICT,
     ForeignKeyConstraint [''order_id''] ''orders'' [''id''] ''fk_order_transitions_order_id'' CASCADE,
     PrimaryKeyConstraint [''id''] ''pk_order_transitions'']"

definition payment_intents_table :: "sa_element list" where
  "payment_intents_table =
    [Column ''id'' SaUUID NoDefault False,
     Column ''order_id'' SaUUID NoDefault False,
     Column ''reference'' (SaString 40) NoDefault False,
     Column ''amount_minor'' SaBigInteger NoDefault False,
     Column ''currency'' (SaString 3) NoDefault False,
     Column ''status'' (SaString 32) NoDefault False,
     Column ''created_at'' SaDateTime DefaultNow False,
     Column ''settled_at'' SaDateTime NoDefault True,
     CheckConstraint (InC (ColRef ''status'') [''awaiting_payment'', ''settled'', ''mismatched'', ''cancelled''])
         ''ck_payment_intents_status_valid'',
     CheckConstraint (GtC (ColRef ''amount_minor'') (IntLit 0)) ''ck_payment_intents_amount_positive'',
     ForeignKeyConstraint [''order_id''] ''orders'' [''id''] ''fk_payment_intents_order_id'' RESTRICT,
     PrimaryKeyConstraint [''id''] ''pk_payment_intents'',
     UniqueConstraint [''order_id''] ''uq_payment_intents_order_id'',
     UniqueConstraint [''reference''] ''uq_payment_intents_reference'']"

definition stamp_batches_table :: "sa_element list" where
  "stamp_batches_table =
    [Column ''id'' SaUUID NoDefault False,
     Column ''order_id'' SaUUID NoDefault False,
     Column ''requested_count'' SaBigInteger NoDefault False,
     Column ''issued_count'' SaBigInteger NoDefault False,
     Column ''status'' (SaString 32) NoDefault False,
     Column ''created_at'' SaDateTime DefaultNow False,
     Column ''completed_at'' SaDateTime NoDefault True,
     CheckConstraint (InC (ColRef ''status'') [''pending'', ''issuing'', ''issued'', ''inspection_failed''])
         ''ck_stamp_batches_status_valid'',
     CheckConstraint (AndC (GeC (ColRef ''issued_count'') (IntLit 0)) (LeC (ColRef ''issued_count'') (ColRef
         ''requested_count''))) ''ck_stamp_batches_issued_within_requested'',
     CheckConstraint (GtC (ColRef ''requested_count'') (IntLit 0)) ''ck_stamp_batches_requested_positive'',
     ForeignKeyConstraint [''order_id''] ''orders'' [''id''] ''fk_stamp_batches_order_id'' RESTRICT,
     PrimaryKeyConstraint [''id''] ''pk_stamp_batches'',
     UniqueConstraint [''order_id''] ''uq_stamp_batches_order_id'']"

definition inspections_table :: "sa_element list" where
  "inspections_table =
    [Column ''id'' SaUUID NoDefault False,
     Column ''batch_id'' SaUUID NoDefault False,
     Column ''lot_size'' SaBigInteger NoDefault False,
     Column ''sample_size'' SaInteger NoDefault False,
     Column ''accept_number'' SaInteger NoDefault False,
     Column ''reject_number'' SaInteger NoDefault False,
     Column ''defects_found'' SaInteger NoDefault False,
     Column ''accepted'' SaBoolean NoDefault False,
     Column ''inspector_principal_id'' SaUUID NoDefault False,
     Column ''defective_serials'' SaJSONB NoDefault False,
     Column ''created_at'' SaDateTime DefaultNow False,
     CheckConstraint (GeC (ColRef ''defects_found'') (IntLit 0)) ''ck_inspections_defects_non_negative'',
     CheckConstraint (AndC (GtC (ColRef ''sample_size'') (IntLit 0)) (LeC (ColRef ''sample_size'') (ColRef
         ''lot_size''))) ''ck_inspections_sample_within_lot'',
     ForeignKeyConstraint [''batch_id''] ''stamp_batches'' [''id''] ''fk_inspections_batch_id'' RESTRICT,
     ForeignKeyConstraint [''inspector_principal_id''] ''principals'' [''id'']
         ''fk_inspections_inspector_principal_id'' RESTRICT,
     PrimaryKeyConstraint [''id''] ''pk_inspections'',
     UniqueConstraint [''batch_id''] ''uq_inspections_batch_id'']"

definition payment_receipts_table :: "sa_element list" where
  "payment_receipts_table =
    [Column ''id'' SaUUID NoDefault False,
     Column ''external_reference'' (SaString 128) NoDefault False,
     Column ''payment_intent_id'' SaUUID NoDefault True,
     Column ''declared_reference'' (SaString 64) NoDefault False,
     Column ''amount_minor'' SaBigInteger NoDefault False,
     Column ''currency'' (SaString 3) NoDefault False,
     Column ''status'' (SaString 32) NoDefault False,
     Column ''payload_hash'' (SaString 64) NoDefault False,
     Column ''value_date'' SaDateTime NoDefault False,
     Column ''ingested_at'' SaDateTime DefaultNow False,
     CheckConstraint (InC (ColRef ''status'') [''matched'', ''amount_mismatch'', ''unknown_reference'',
         ''duplicate'']) ''ck_payment_receipts_status_valid'',
     CheckConstraint (GtC (ColRef ''amount_minor'') (IntLit 0)) ''ck_payment_receipts_amount_positive'',
     ForeignKeyConstraint [''payment_intent_id''] ''payment_intents'' [''id'']
         ''fk_payment_receipts_payment_intent_id'' RESTRICT,
     PrimaryKeyConstraint [''id''] ''pk_payment_receipts'',
     UniqueConstraint [''external_reference''] ''uq_payment_receipts_external_reference'']"

definition stamps_table :: "sa_element list" where
  "stamps_table =
    [Column ''id'' SaUUID NoDefault False,
     Column ''serial'' (SaString 64) NoDefault False,
     Column ''batch_id'' SaUUID NoDefault False,
     Column ''order_id'' SaUUID NoDefault False,
     Column ''company_id'' SaUUID NoDefault False,
     Column ''product_category'' (SaString 64) NoDefault False,
     Column ''status'' (SaString 16) NoDefault False,
     Column ''secure_code_hash'' (SaString 64) NoDefault False,
     Column ''issued_at'' SaDateTime DefaultNow False,
     Column ''activated_at'' SaDateTime NoDefault True,
     Column ''voided_at'' SaDateTime NoDefault True,
     Column ''expires_at'' SaDateTime NoDefault False,
     Column ''version'' SaInteger NoDefault False,
     CheckConstraint (OrC (NeC (ColRef ''status'') (StrLit ''active'')) (IsNotNull (ColRef ''activated_at'')))
         ''ck_stamps_active_requires_timestamp'',
     CheckConstraint (OrC (NeC (ColRef ''status'') (StrLit ''void'')) (IsNotNull (ColRef ''voided_at'')))
         ''ck_stamps_void_requires_timestamp'',
     CheckConstraint (InC (ColRef ''status'') [''issued'', ''active'', ''void'', ''expired''])
         ''ck_stamps_status_valid'',
     ForeignKeyConstraint [''batch_id''] ''stamp_batches'' [''id''] ''fk_stamps_batch_id'' RESTRICT,
     ForeignKeyConstraint [''company_id''] ''companies'' [''id''] ''fk_stamps_company_id'' RESTRICT,
     ForeignKeyConstraint [''order_id''] ''orders'' [''id''] ''fk_stamps_order_id'' RESTRICT,
     PrimaryKeyConstraint [''id''] ''pk_stamps'',
     UniqueConstraint [''serial''] ''uq_stamps_serial'']"

definition journals_table :: "sa_element list" where
  "journals_table =
    [Column ''id'' SaUUID NoDefault False,
     Column ''reference'' (SaString 128) NoDefault False,
     Column ''kind'' (SaString 64) NoDefault False,
     Column ''currency'' (SaString 3) NoDefault False,
     Column ''order_id'' SaUUID NoDefault True,
     Column ''payment_receipt_id'' SaUUID NoDefault True,
     Column ''reverses_journal_id'' SaUUID NoDefault True,
     Column ''created_at'' SaDateTime DefaultNow False,
     ForeignKeyConstraint [''order_id''] ''orders'' [''id''] ''fk_journals_order_id'' RESTRICT,
     ForeignKeyConstraint [''payment_receipt_id''] ''payment_receipts'' [''id''] ''fk_journals_payment_receipt_id''
         RESTRICT,
     ForeignKeyConstraint [''reverses_journal_id''] ''journals'' [''id''] ''fk_journals_reverses_journal_id''
         RESTRICT,
     PrimaryKeyConstraint [''id''] ''pk_journals'',
     UniqueConstraint [''reference''] ''uq_journals_reference'',
     UniqueConstraint [''reverses_journal_id''] ''uq_journals_reverses_journal_id'']"

definition stamp_events_table :: "sa_element list" where
  "stamp_events_table =
    [Column ''id'' SaUUID NoDefault False,
     Column ''stamp_id'' SaUUID NoDefault False,
     Column ''event_type'' (SaString 32) NoDefault False,
     Column ''actor_principal_id'' SaUUID NoDefault True,
     Column ''context'' SaJSONB NoDefault False,
     Column ''created_at'' SaDateTime DefaultNow False,
     ForeignKeyConstraint [''actor_principal_id''] ''principals'' [''id''] ''fk_stamp_events_actor_principal_id''
         RESTRICT,
     ForeignKeyConstraint [''stamp_id''] ''stamps'' [''id''] ''fk_stamp_events_stamp_id'' CASCADE,
     PrimaryKeyConstraint [''id''] ''pk_stamp_events'']"

definition verifications_table :: "sa_element list" where
  "verifications_table =
    [Column ''id'' SaUUID NoDefault False,
     Column ''stamp_id'' SaUUID NoDefault True,
     Column ''serial_presented'' (SaString 64) NoDefault False,
     Column ''outcome'' (SaString 32) NoDefault False,
     Column ''principal_id'' SaUUID NoDefault False,
     Column ''device_id'' (SaString 64) NoDefault False,
     Column ''nonce'' (SaString 64) NoDefault False,
     Column ''latitude_e7'' SaBigInteger NoDefault True,
     Column ''longitude_e7'' SaBigInteger NoDefault True,
     Column ''occurred_at'' SaDateTime DefaultNow False,
     CheckConstraint (InC (ColRef ''outcome'') [''valid'', ''unknown_serial'', ''secure_code_mismatch'',
         ''not_active'', ''void'', ''expired'', ''velocity_suspect'']) ''ck_verifications_outcome_valid'',
     ForeignKeyConstraint [''principal_id''] ''principals'' [''id''] ''fk_verifications_principal_id'' RESTRICT,
     ForeignKeyConstraint [''stamp_id''] ''stamps'' [''id''] ''fk_verifications_stamp_id'' RESTRICT,
     PrimaryKeyConstraint [''id''] ''pk_verifications'']"

definition ledger_entries_table :: "sa_element list" where
  "ledger_entries_table =
    [Column ''id'' SaUUID NoDefault False,
     Column ''journal_id'' SaUUID NoDefault False,
     Column ''account'' (SaString 64) NoDefault False,
     Column ''direction'' (SaString 6) NoDefault False,
     Column ''amount_minor'' SaBigInteger NoDefault False,
     Column ''currency'' (SaString 3) NoDefault False,
     Column ''created_at'' SaDateTime DefaultNow False,
     CheckConstraint (InC (ColRef ''direction'') [''debit'', ''credit'']) ''ck_ledger_entries_direction_valid'',
     CheckConstraint (GtC (ColRef ''amount_minor'') (IntLit 0)) ''ck_ledger_entries_amount_positive'',
     ForeignKeyConstraint [''journal_id''] ''journals'' [''id''] ''fk_ledger_entries_journal_id'' RESTRICT,
     PrimaryKeyConstraint [''id''] ''pk_ledger_entries'']"

definition create_0001 :: "operation list" where
  "create_0001 =
    [create_table ''audit_events'' audit_events_table,
     create_index ''ix_audit_events_actor'' ''audit_events'' [''actor_subject'', ''occurred_at''] False None,
     create_index ''ix_audit_events_target'' ''audit_events'' [''target_type'', ''target_id''] False None,
     create_table ''companies'' companies_table,
     create_index ''ix_companies_created_at'' ''companies'' [''created_at''] False None,
     create_table ''outbox_messages'' outbox_messages_table,
     create_index ''ix_outbox_messages_created_at'' ''outbox_messages'' [''created_at''] False None,
     create_index ''ix_outbox_pending'' ''outbox_messages'' [''available_at''] False (Some (IsNull (ColRef
        ''processed_at''))),
     create_table ''reconciliation_runs'' reconciliation_runs_table,
     create_index ''ix_reconciliation_runs_started_at'' ''reconciliation_runs'' [''started_at''] False None,
     create_table ''serial_counters'' serial_counters_table,
     create_table ''tariffs'' tariffs_table,
     create_index ''ix_tariffs_category_current'' ''tariffs'' [''product_category'', ''effective_from'']
        True None,
     create_index ''ix_tariffs_created_at'' ''tariffs'' [''created_at''] False None,
     create_table ''principals'' principals_table,
     create_index ''ix_principals_created_at'' ''principals'' [''created_at''] False None,
     create_table ''credentials'' credentials_table,
     create_index ''ix_credentials_created_at'' ''credentials'' [''created_at''] False None,
     create_table ''idempotency_records'' idempotency_records_table,
     create_index ''ix_idempotency_records_created_at'' ''idempotency_records'' [''created_at''] False None,
     create_table ''orders'' orders_table,
     create_index ''ix_orders_company_status'' ''orders'' [''company_id'', ''status''] False None,
     create_index ''ix_orders_created_at'' ''orders'' [''created_at''] False None,
     create_table ''approvals'' approvals_table,
     create_index ''ix_approvals_created_at'' ''approvals'' [''created_at''] False None,
     create_table ''order_transitions'' order_transitions_table,
     create_index ''ix_order_transitions_created_at'' ''order_transitions'' [''created_at''] False None,
     create_index ''ix_order_transitions_order'' ''order_transitions'' [''order_id'', ''created_at''] False
        None,
     create_table ''payment_intents'' payment_intents_table,
     create_index ''ix_payment_intents_created_at'' ''payment_intents'' [''created_at''] False None,
     create_table ''stamp_batches'' stamp_batches_table,
     create_index ''ix_stamp_batches_created_at'' ''stamp_batches'' [''created_at''] False None,
     create_table ''inspections'' inspections_table,
     create_index ''ix_inspections_created_at'' ''inspections'' [''created_at''] False None,
     create_table ''payment_receipts'' payment_receipts_table,
     create_index ''ix_payment_receipts_ingested_at'' ''payment_receipts'' [''ingested_at''] False None,
     create_table ''stamps'' stamps_table,
     create_index ''ix_stamps_batch'' ''stamps'' [''batch_id''] False None,
     create_index ''ix_stamps_company_status'' ''stamps'' [''company_id'', ''status''] False None,
     create_index ''ix_stamps_issued_at'' ''stamps'' [''issued_at''] False None,
     create_table ''journals'' journals_table,
     create_index ''ix_journals_created_at'' ''journals'' [''created_at''] False None,
     create_table ''stamp_events'' stamp_events_table,
     create_index ''ix_stamp_events_created_at'' ''stamp_events'' [''created_at''] False None,
     create_index ''ix_stamp_events_stamp'' ''stamp_events'' [''stamp_id'', ''created_at''] False None,
     create_table ''verifications'' verifications_table,
     create_index ''ix_verifications_occurred_at'' ''verifications'' [''occurred_at''] False None,
     create_index ''ix_verifications_serial'' ''verifications'' [''serial_presented'', ''occurred_at'']
        False None,
     create_index ''ix_verifications_stamp'' ''verifications'' [''stamp_id'', ''occurred_at''] False None,
     create_table ''ledger_entries'' ledger_entries_table,
     create_index ''ix_ledger_entries_account'' ''ledger_entries'' [''account'', ''created_at''] False None,
     create_index ''ix_ledger_entries_created_at'' ''ledger_entries'' [''created_at''] False None,
     create_index ''ix_ledger_entries_journal'' ''ledger_entries'' [''journal_id''] False None]"

definition upgrade_0001 :: "operation list" where
  "upgrade_0001 =
    create_0001
    @ [execute (create_function ''taxstamp_reject_mutation'' Reject_mutation)]
    @ concat (map (\<lambda>table.
        [execute (create_trigger (table @ ''_no_update'') Before Update table ''taxstamp_reject_mutation''),
         execute (create_trigger (table @ ''_no_delete'') Before Delete table ''taxstamp_reject_mutation'')])
        APPEND_ONLY_TABLES)
    @ [execute (create_function ''taxstamp_assert_journal_balanced'' Assert_journal_balanced),
       execute (create_trigger ''ledger_entries_balanced'' After_deferred Insert ''ledger_entries''
         ''taxstamp_assert_journal_balanced'')]"

definition drop_0001 :: "operation list" where
  "drop_0001 =
    [drop_index ''ix_ledger_entries_journal'' ''ledger_entries'',
     drop_index ''ix_ledger_entries_created_at'' ''ledger_entries'',
     drop_index ''ix_ledger_entries_account'' ''ledger_entries'',
     drop_table ''ledger_entries'',
     drop_index ''ix_verifications_stamp'' ''verifications'',
     drop_index ''ix_verifications_serial'' ''verifications'',
     drop_index ''ix_verifications_occurred_at'' ''verifications'',
     drop_table ''verifications'',
     drop_index ''ix_stamp_events_stamp'' ''stamp_events'',
     drop_index ''ix_stamp_events_created_at'' ''stamp_events'',
     drop_table ''stamp_events'',
     drop_index ''ix_journals_created_at'' ''journals'',
     drop_table ''journals'',
     drop_index ''ix_stamps_issued_at'' ''stamps'',
     drop_index ''ix_stamps_company_status'' ''stamps'',
     drop_index ''ix_stamps_batch'' ''stamps'',
     drop_table ''stamps'',
     drop_index ''ix_payment_receipts_ingested_at'' ''payment_receipts'',
     drop_table ''payment_receipts'',
     drop_index ''ix_inspections_created_at'' ''inspections'',
     drop_table ''inspections'',
     drop_index ''ix_stamp_batches_created_at'' ''stamp_batches'',
     drop_table ''stamp_batches'',
     drop_index ''ix_payment_intents_created_at'' ''payment_intents'',
     drop_table ''payment_intents'',
     drop_index ''ix_order_transitions_order'' ''order_transitions'',
     drop_index ''ix_order_transitions_created_at'' ''order_transitions'',
     drop_table ''order_transitions'',
     drop_index ''ix_approvals_created_at'' ''approvals'',
     drop_table ''approvals'',
     drop_index ''ix_orders_created_at'' ''orders'',
     drop_index ''ix_orders_company_status'' ''orders'',
     drop_table ''orders'',
     drop_index ''ix_idempotency_records_created_at'' ''idempotency_records'',
     drop_table ''idempotency_records'',
     drop_index ''ix_credentials_created_at'' ''credentials'',
     drop_table ''credentials'',
     drop_index ''ix_principals_created_at'' ''principals'',
     drop_table ''principals'',
     drop_index ''ix_tariffs_created_at'' ''tariffs'',
     drop_index ''ix_tariffs_category_current'' ''tariffs'',
     drop_table ''tariffs'',
     drop_table ''serial_counters'',
     drop_index ''ix_reconciliation_runs_started_at'' ''reconciliation_runs'',
     drop_table ''reconciliation_runs'',
     drop_index ''ix_outbox_pending'' ''outbox_messages'',
     drop_index ''ix_outbox_messages_created_at'' ''outbox_messages'',
     drop_table ''outbox_messages'',
     drop_index ''ix_companies_created_at'' ''companies'',
     drop_table ''companies'',
     drop_index ''ix_audit_events_target'' ''audit_events'',
     drop_index ''ix_audit_events_actor'' ''audit_events'',
     drop_table ''audit_events'']"

definition downgrade_0001 :: "operation list" where
  "downgrade_0001 =
    [execute (drop_trigger ''ledger_entries_balanced'' ''ledger_entries''),
     execute (drop_function ''taxstamp_assert_journal_balanced'')]
    @ concat (map (\<lambda>table.
        [execute (drop_trigger (table @ ''_no_update'') table),
         execute (drop_trigger (table @ ''_no_delete'') table)])
        APPEND_ONLY_TABLES)
    @ [execute (drop_function ''taxstamp_reject_mutation'')]
    @ drop_0001"

section \<open>The intents of the external ledger\<close>

definition IMMUTABLE_COLUMNS :: "string list" where
  "IMMUTABLE_COLUMNS =
     [''payment_intent_id'', ''tigerbeetle_transfer_id'', ''debit_account_id'', ''credit_account_id'',
      ''ledger_code'', ''transfer_code'', ''transfer_flags'', ''amount_minor'', ''currency'', ''payload_hash'']"

definition tigerbeetle_ledger_intents_table :: "sa_element list" where
  "tigerbeetle_ledger_intents_table =
    [Column ''id'' SaUUID NoDefault False,
     Column ''payment_intent_id'' SaUUID NoDefault False,
     Column ''tigerbeetle_transfer_id'' (SaString 32) NoDefault False,
     Column ''debit_account_id'' (SaString 32) NoDefault False,
     Column ''credit_account_id'' (SaString 32) NoDefault False,
     Column ''ledger_code'' SaBigInteger NoDefault False,
     Column ''transfer_code'' SaInteger (DefaultInt 0) False,
     Column ''transfer_flags'' SaBigInteger (DefaultInt 0) False,
     Column ''amount_minor'' SaBigInteger NoDefault False,
     Column ''currency'' (SaString 3) NoDefault False,
     Column ''payload_hash'' (SaString 64) NoDefault False,
     Column ''state'' (SaString 32) (DefaultStr ''ready'') False,
     Column ''attempt_count'' SaInteger (DefaultInt 0) False,
     Column ''last_error'' SaText NoDefault True,
     Column ''external_timestamp'' SaBigInteger NoDefault True,
     Column ''external_confirmed_at'' SaDateTime NoDefault True,
     Column ''posted_at'' SaDateTime NoDefault True,
     Column ''created_at'' SaDateTime DefaultNow False,
     Column ''updated_at'' SaDateTime DefaultNow False,
     CheckConstraint (GtC (ColRef ''amount_minor'') (IntLit 0)) ''ck_tigerbeetle_ledger_intents_amount_positive'',
     CheckConstraint (GeC (ColRef ''attempt_count'') (IntLit 0))
         ''ck_tigerbeetle_ledger_intents_attempt_count_non_negative'',
     CheckConstraint (NeC (ColRef ''debit_account_id'') (ColRef ''credit_account_id''))
         ''ck_tigerbeetle_ledger_intents_accounts_must_differ'',
     CheckConstraint (AndC (EqC (CharLength (ColRef ''currency'')) (IntLit 3)) (EqC (ColRef ''currency'') (Upper
         (ColRef ''currency'')))) ''ck_tigerbeetle_ledger_intents_currency_format'',
     CheckConstraint (LowerHexC (ColRef ''credit_account_id'') 32)
         ''ck_tigerbeetle_ledger_intents_credit_account_lower_hex'',
     CheckConstraint (LowerHexC (ColRef ''debit_account_id'') 32)
         ''ck_tigerbeetle_ledger_intents_debit_account_lower_hex'',
     CheckConstraint (AndC (GtC (ColRef ''ledger_code'') (IntLit 0)) (LeC (ColRef ''ledger_code'') (IntLit
         4294967295))) ''ck_tigerbeetle_ledger_intents_ledger_code_range'',
     CheckConstraint (LowerHexC (ColRef ''payload_hash'') 64)
         ''ck_tigerbeetle_ledger_intents_payload_hash_lower_hex'',
     CheckConstraint (InC (ColRef ''state'') [''ready'', ''submission_uncertain'', ''external_confirmed'',
         ''posted'', ''rejected'', ''quarantined'']) ''ck_tigerbeetle_ledger_intents_state_valid'',
     CheckConstraint (LowerHexC (ColRef ''tigerbeetle_transfer_id'') 32)
         ''ck_tigerbeetle_ledger_intents_transfer_id_lower_hex'',
     CheckConstraint (AndC (GeC (ColRef ''transfer_code'') (IntLit 0)) (LeC (ColRef ''transfer_code'') (IntLit
         65535))) ''ck_tigerbeetle_ledger_intents_transfer_code_range'',
     CheckConstraint (GeC (ColRef ''transfer_flags'') (IntLit 0))
         ''ck_tigerbeetle_ledger_intents_transfer_flags_non_negative'',
     ForeignKeyConstraint [''payment_intent_id''] ''payment_intents'' [''id'']
         ''fk_tigerbeetle_ledger_intents_payment_intent_id'' RESTRICT,
     PrimaryKeyConstraint [''id''] ''pk_tigerbeetle_ledger_intents'',
     UniqueConstraint [''payment_intent_id''] ''uq_tigerbeetle_ledger_intents_payment_intent_id'',
     UniqueConstraint [''tigerbeetle_transfer_id''] ''uq_tigerbeetle_ledger_intents_tigerbeetle_transfer_id'']"

definition create_0002 :: "operation list" where
  "create_0002 =
    [create_table ''tigerbeetle_ledger_intents'' tigerbeetle_ledger_intents_table,
     create_index ''ix_tigerbeetle_ledger_intents_state_created'' ''tigerbeetle_ledger_intents'' [''state'',
        ''created_at''] False None,
     create_index ''ix_tigerbeetle_ledger_intents_created_at'' ''tigerbeetle_ledger_intents''
        [''created_at''] False None]"

definition upgrade_0002 :: "operation list" where
  "upgrade_0002 =
    create_0002
    @ [execute (create_function ''taxstamp_tigerbeetle_intent_immutable_fields'' (Immutable_fields IMMUTABLE_COLUMNS)),
       execute (create_trigger ''tigerbeetle_ledger_intents_immutable_fields'' Before Update
         ''tigerbeetle_ledger_intents'' ''taxstamp_tigerbeetle_intent_immutable_fields'')]"

definition drop_0002 :: "operation list" where
  "drop_0002 =
    [drop_index ''ix_tigerbeetle_ledger_intents_created_at'' ''tigerbeetle_ledger_intents'',
     drop_index ''ix_tigerbeetle_ledger_intents_state_created'' ''tigerbeetle_ledger_intents'',
     drop_table ''tigerbeetle_ledger_intents'']"

definition downgrade_0002 :: "operation list" where
  "downgrade_0002 =
    [execute (drop_trigger ''tigerbeetle_ledger_intents_immutable_fields'' ''tigerbeetle_ledger_intents''),
     execute (drop_function ''taxstamp_tigerbeetle_intent_immutable_fields'')]
    @ drop_0002"

section \<open>Creating and undoing\<close>

text \<open>
  What the \<^verbatim>\<open>op.create_*\<close> calls of a migration add to the catalogue, and when they all succeed: no name is used twice and
  each table is well formed and refers to tables created before it.
\<close>

fun new_tables :: "operation \<Rightarrow> (string \<times> sa_element list) list" where
  "new_tables (create_table n els) = [(n, els)]"
| "new_tables _ = []"

fun new_indexes :: "operation \<Rightarrow> sa_index list" where
  "new_indexes (create_index n t cs u w) =
     [\<lparr>ix_name = n, ix_table = t, ix_columns = cs, ix_unique = u, ix_where = w\<rparr>]"
| "new_indexes _ = []"

fun new_names :: "operation \<Rightarrow> string list" where
  "new_names (create_table n els) = n # map fst (table_keys els)"
| "new_names (create_index n t cs u w) = [n]"
| "new_names _ = []"

definition where_columns :: "sql_cond option \<Rightarrow> string list" where
  "where_columns w = (case w of None \<Rightarrow> [] | Some c \<Rightarrow> cond_columns c)"

fun creatable :: "(string \<times> sa_element list) list \<Rightarrow> operation \<Rightarrow> bool" where
  "creatable tabs (create_table n els) = well_defined tabs n els"
| "creatable tabs (create_index n t cs u w) =
     (case map_of tabs t of
        None \<Rightarrow> False
      | Some els \<Rightarrow> set (cs @ where_columns w) \<subseteq> fst ` set (table_columns els))"
| "creatable tabs _ = False"

fun creatables :: "(string \<times> sa_element list) list \<Rightarrow> operation list \<Rightarrow> bool" where
  "creatables tabs [] = True"
| "creatables tabs (op # ops) = (creatable tabs op \<and> creatables (tabs @ new_tables op) ops)"

definition add_created :: "operation list \<Rightarrow> catalogue \<Rightarrow> catalogue" where
  "add_created ops cat =
     cat\<lparr>cat_tables := cat_tables cat @ concat (map new_tables ops),
         cat_indexes := cat_indexes cat @ concat (map new_indexes ops)\<rparr>"

lemma run_creation:
  assumes "creatable (cat_tables cat) op" "distinct (new_names op)" "set (new_names op) \<inter> set (relation_names cat) = {}"
  shows "run_operation op cat = Inr (add_created [op] cat)"
  using assms
  by (cases op) (auto simp: run_create_table_def run_create_index_def add_created_def where_columns_def Let_def list_ex_iff
      split: option.splits)

lemma relation_names_add_created:
  "set (relation_names (add_created [op] cat)) = set (relation_names cat) \<union> set (new_names op)" if "creatable tabs op"
  using that by (cases op) (auto simp: add_created_def relation_names_def)

lemma add_created_Cons: "add_created ops (add_created [op] cat) = add_created (op # ops) cat"
  by (simp add: add_created_def)

lemma run_creations:
  "creatables (cat_tables cat) ops \<Longrightarrow> distinct (concat (map new_names ops)) \<Longrightarrow>
   set (concat (map new_names ops)) \<inter> set (relation_names cat) = {} \<Longrightarrow>
   run_operations ops cat = Inr (add_created ops cat)"
proof (induction ops arbitrary: cat)
  case (Cons op ops)
  have cr: "creatable (cat_tables cat) op" using Cons.prems(1) by simp
  have "run_operation op cat = Inr (add_created [op] cat)"
    using Cons.prems by (intro run_creation) auto
  moreover have "run_operations ops (add_created [op] cat) = Inr (add_created ops (add_created [op] cat))"
    using Cons.prems relation_names_add_created [OF cr, of cat]
    by (intro Cons.IH) (auto simp: add_created_def)
  ultimately show ?case by (simp add: add_created_Cons)
qed (simp add: add_created_def)

text \<open>
  The opposite of a creation, as Alembic writes it; undone in reverse order, creations leave the catalogue as it was.
\<close>

fun undo :: "operation \<Rightarrow> operation" where
  "undo (create_table n els) = drop_table n"
| "undo (create_index n t cs u w) = drop_index n t"
| "undo op = op"

definition targets :: "sa_element list \<Rightarrow> string list" where
  "targets els = map (\<lambda>(cs, t, rs, d). t) (table_references els)"

definition closed_catalogue :: "catalogue \<Rightarrow> bool" where
  "closed_catalogue cat =
     (let names = fst ` set (cat_tables cat)
      in (\<forall>(n, els) \<in> set (cat_tables cat). set (targets els) \<subseteq> names) \<and>
         ix_table ` set (cat_indexes cat) \<subseteq> names \<and> tg_table ` set (cat_triggers cat) \<subseteq> names)"

lemma reference_defined_target:
  assumes "\<forall>r \<in> set (table_references els). reference_defined tabs cols r" "(cs, t, rs, d) \<in> set (table_references els)"
  shows "t \<in> fst ` set tabs"
proof -
  have "map_of tabs t \<noteq> None"
    using assms by (fastforce simp: reference_defined_def split: option.splits)
  then show ?thesis by (simp add: map_of_eq_None_iff)
qed

lemma undo_create_table:
  assumes run: "run_create_table n els cat = Inr cat'" and cl: "closed_catalogue cat"
  shows "run_drop_table n cat' = Inr cat" "closed_catalogue cat'"
proof -
  have n: "n \<notin> fst ` set (cat_tables cat)" and wd: "well_defined (cat_tables cat) n els"
    and cat': "cat' = cat\<lparr>cat_tables := cat_tables cat @ [(n, els)]\<rparr>"
    using run by (auto simp: run_create_table_def relation_names_def Let_def split: if_splits)
  have refs: "\<not> list_ex (\<lambda>(m, els). m \<noteq> n \<and> list_ex (\<lambda>(cs, t, rs, d). t = n) (table_references els)) (cat_tables cat)"
    using cl n by (force simp: closed_catalogue_def Let_def list_ex_iff targets_def)
  have "filter (\<lambda>(m, els). m \<noteq> n) (cat_tables cat) = cat_tables cat"
    using n by (auto simp: filter_id_conv image_iff)
  moreover have "filter (\<lambda>i. ix_table i \<noteq> n) (cat_indexes cat) = cat_indexes cat"
    "filter (\<lambda>g. tg_table g \<noteq> n) (cat_triggers cat) = cat_triggers cat"
    using cl n by (auto simp: filter_id_conv closed_catalogue_def Let_def)
  ultimately show "run_drop_table n cat' = Inr cat"
    using refs by (simp add: run_drop_table_def cat')
  have "\<forall>r \<in> set (table_references els). reference_defined (cat_tables cat @ [(n, els)]) (map fst (table_columns els)) r"
    using wd by (simp add: well_defined_def Let_def list_all_iff)
  then have "set (targets els) \<subseteq> insert n (fst ` set (cat_tables cat))"
    using reference_defined_target by (fastforce simp: targets_def)
  moreover have "\<forall>(m, es) \<in> set (cat_tables cat). set (targets es) \<subseteq> fst ` set (cat_tables cat)"
    "ix_table ` set (cat_indexes cat) \<subseteq> fst ` set (cat_tables cat)"
    "tg_table ` set (cat_triggers cat) \<subseteq> fst ` set (cat_tables cat)"
    using cl by (simp_all add: closed_catalogue_def Let_def)
  ultimately show "closed_catalogue cat'" by (simp add: closed_catalogue_def Let_def cat') blast
qed

lemma undo_create_index:
  assumes run: "run_create_index n t cs u w cat = Inr cat'" and cl: "closed_catalogue cat"
  shows "run_drop_index n cat' = Inr cat" "closed_catalogue cat'"
proof -
  have t: "t \<in> fst ` set (cat_tables cat)"
    using run by (auto simp: run_create_index_def split: option.splits dest: map_of_SomeD intro: rev_image_eqI)
  have n: "n \<notin> ix_name ` set (cat_indexes cat)"
    and cat': "cat' = cat\<lparr>cat_indexes := cat_indexes cat @
      [\<lparr>ix_name = n, ix_table = t, ix_columns = cs, ix_unique = u, ix_where = w\<rparr>]\<rparr>"
    using run by (auto simp: run_create_index_def relation_names_def image_iff split: option.splits if_splits)
  have "filter (\<lambda>i. ix_name i \<noteq> n) (cat_indexes cat) = cat_indexes cat"
    using n by (auto simp: filter_id_conv)
  then show "run_drop_index n cat' = Inr cat" by (simp add: run_drop_index_def cat')
  show "closed_catalogue cat'" using cl t by (auto simp: closed_catalogue_def Let_def cat')
qed

lemma undo_creation:
  assumes "creatable tabs op" "run_operation op cat = Inr cat'" "closed_catalogue cat"
  shows "run_operation (undo op) cat' = Inr cat" "closed_catalogue cat'"
  using assms by (cases op; auto simp: undo_create_table undo_create_index)+

lemma undo_creations:
  "creatables tabs ops \<Longrightarrow> run_operations ops cat = Inr cat' \<Longrightarrow> closed_catalogue cat \<Longrightarrow>
   run_operations (rev (map undo ops)) cat' = Inr cat \<and> closed_catalogue cat'"
proof (induction ops arbitrary: tabs cat)
  case (Cons op ops)
  obtain cat1 where one: "run_operation op cat = Inr cat1" and rest: "run_operations ops cat1 = Inr cat'"
    using Cons.prems(2) by (auto simp: sql_bind_Inr)
  have cr: "creatable tabs op" using Cons.prems(1) by simp
  note un = undo_creation [OF cr one Cons.prems(3)]
  show ?case
    using Cons.IH [OF _ rest un(2)] Cons.prems(1) un(1) by (auto simp: run_operations_append)
qed simp

text \<open>A table that is well formed in itself can be created when the tables it refers to have a key \<open>id\<close>.\<close>

definition well_formed :: "sa_element list \<Rightarrow> bool" where
  "well_formed els =
     (let cols = map fst (table_columns els)
      in distinct cols \<and> distinct (concat (map constraint_names els)) \<and>
         list_all (\<lambda>c. set (cond_columns c) \<subseteq> set cols) (table_checks els) \<and>
         list_all (\<lambda>(k, cs). set cs \<subseteq> set cols) (table_keys els) \<and>
         list_all (\<lambda>(cs, t, rs, d). set cs \<subseteq> set cols \<and> rs = [''id'']) (table_references els))"

definition has_id :: "(string \<times> sa_element list) list \<Rightarrow> string \<Rightarrow> bool" where
  "has_id tabs t = (case map_of tabs t of None \<Rightarrow> False | Some els \<Rightarrow> [''id''] \<in> snd ` set (table_keys els))"

lemma well_defined_iff [simp]:
  "well_formed els \<Longrightarrow> well_defined tabs n els = list_all (has_id (tabs @ [(n, els)])) (targets els)"
proof -
  assume wf: "well_formed els"
  let ?T = "tabs @ [(n, els)]" and ?cols = "map fst (table_columns els)"
  have "list_all (reference_defined ?T ?cols) (table_references els) =
      list_all (has_id ?T) (map (\<lambda>(cs, t, rs, d). t) (table_references els))"
    unfolding list.pred_map
  proof (rule list.pred_cong [OF refl])
    fix r assume r: "r \<in> set (table_references els)"
    obtain cs t rs d where eq: "r = (cs, t, rs, d)" by (cases r)
    then have "set cs \<subseteq> set ?cols" "rs = [''id'']"
      using wf r by (fastforce simp: well_formed_def Let_def list_all_iff)+
    then show "reference_defined ?T ?cols r = (has_id ?T \<circ> (\<lambda>(cs, t, rs, d). t)) r"
      by (auto simp: eq reference_defined_def has_id_def simp del: map_of_append split: option.splits)
  qed
  then show ?thesis using wf by (simp add: well_formed_def well_defined_def targets_def Let_def)
qed

named_theorems ddl \<open>facts of the tables the migrations create\<close>

lemma tables_well_formed [ddl]:
  "well_formed audit_events_table"
  "well_formed companies_table"
  "well_formed outbox_messages_table"
  "well_formed reconciliation_runs_table"
  "well_formed serial_counters_table"
  "well_formed tariffs_table"
  "well_formed principals_table"
  "well_formed credentials_table"
  "well_formed idempotency_records_table"
  "well_formed orders_table"
  "well_formed approvals_table"
  "well_formed order_transitions_table"
  "well_formed payment_intents_table"
  "well_formed stamp_batches_table"
  "well_formed inspections_table"
  "well_formed payment_receipts_table"
  "well_formed stamps_table"
  "well_formed journals_table"
  "well_formed stamp_events_table"
  "well_formed verifications_table"
  "well_formed ledger_entries_table"
  "well_formed tigerbeetle_ledger_intents_table"
  by code_simp+

lemma tables_targets [ddl]:
  "targets audit_events_table = []"
  "targets companies_table = []"
  "targets outbox_messages_table = []"
  "targets reconciliation_runs_table = []"
  "targets serial_counters_table = []"
  "targets tariffs_table = []"
  "targets principals_table = [''companies'']"
  "targets credentials_table = [''principals'']"
  "targets idempotency_records_table = [''principals'']"
  "targets orders_table = [''companies'', ''principals'', ''tariffs'']"
  "targets approvals_table = [''principals'', ''orders'']"
  "targets order_transitions_table = [''principals'', ''orders'']"
  "targets payment_intents_table = [''orders'']"
  "targets stamp_batches_table = [''orders'']"
  "targets inspections_table = [''stamp_batches'', ''principals'']"
  "targets payment_receipts_table = [''payment_intents'']"
  "targets stamps_table = [''stamp_batches'', ''companies'', ''orders'']"
  "targets journals_table = [''orders'', ''payment_receipts'', ''journals'']"
  "targets stamp_events_table = [''principals'', ''stamps'']"
  "targets verifications_table = [''principals'', ''stamps'']"
  "targets ledger_entries_table = [''journals'']"
  "targets tigerbeetle_ledger_intents_table = [''payment_intents'']"
  by code_simp+

lemma tables_id_keys [ddl]:
  "[''id''] \<in> snd ` set (table_keys companies_table)"
  "[''id''] \<in> snd ` set (table_keys tariffs_table)"
  "[''id''] \<in> snd ` set (table_keys principals_table)"
  "[''id''] \<in> snd ` set (table_keys orders_table)"
  "[''id''] \<in> snd ` set (table_keys payment_intents_table)"
  "[''id''] \<in> snd ` set (table_keys stamp_batches_table)"
  "[''id''] \<in> snd ` set (table_keys payment_receipts_table)"
  "[''id''] \<in> snd ` set (table_keys stamps_table)"
  "[''id''] \<in> snd ` set (table_keys journals_table)"
  by (simp_all add: table_keys_def companies_table_def tariffs_table_def principals_table_def orders_table_def payment_intents_table_def stamp_batches_table_def payment_receipts_table_def stamps_table_def journals_table_def)

lemma indexed_columns [ddl]:
  "''actor_subject'' \<in> fst ` set (table_columns audit_events_table)"
  "''occurred_at'' \<in> fst ` set (table_columns audit_events_table)"
  "''target_type'' \<in> fst ` set (table_columns audit_events_table)"
  "''target_id'' \<in> fst ` set (table_columns audit_events_table)"
  "''created_at'' \<in> fst ` set (table_columns companies_table)"
  "''created_at'' \<in> fst ` set (table_columns outbox_messages_table)"
  "''available_at'' \<in> fst ` set (table_columns outbox_messages_table)"
  "''processed_at'' \<in> fst ` set (table_columns outbox_messages_table)"
  "''started_at'' \<in> fst ` set (table_columns reconciliation_runs_table)"
  "''product_category'' \<in> fst ` set (table_columns tariffs_table)"
  "''effective_from'' \<in> fst ` set (table_columns tariffs_table)"
  "''created_at'' \<in> fst ` set (table_columns tariffs_table)"
  "''created_at'' \<in> fst ` set (table_columns principals_table)"
  "''created_at'' \<in> fst ` set (table_columns credentials_table)"
  "''created_at'' \<in> fst ` set (table_columns idempotency_records_table)"
  "''company_id'' \<in> fst ` set (table_columns orders_table)"
  "''status'' \<in> fst ` set (table_columns orders_table)"
  "''created_at'' \<in> fst ` set (table_columns orders_table)"
  "''created_at'' \<in> fst ` set (table_columns approvals_table)"
  "''created_at'' \<in> fst ` set (table_columns order_transitions_table)"
  "''order_id'' \<in> fst ` set (table_columns order_transitions_table)"
  "''created_at'' \<in> fst ` set (table_columns payment_intents_table)"
  "''created_at'' \<in> fst ` set (table_columns stamp_batches_table)"
  "''created_at'' \<in> fst ` set (table_columns inspections_table)"
  "''ingested_at'' \<in> fst ` set (table_columns payment_receipts_table)"
  "''batch_id'' \<in> fst ` set (table_columns stamps_table)"
  "''company_id'' \<in> fst ` set (table_columns stamps_table)"
  "''status'' \<in> fst ` set (table_columns stamps_table)"
  "''issued_at'' \<in> fst ` set (table_columns stamps_table)"
  "''created_at'' \<in> fst ` set (table_columns journals_table)"
  "''created_at'' \<in> fst ` set (table_columns stamp_events_table)"
  "''stamp_id'' \<in> fst ` set (table_columns stamp_events_table)"
  "''occurred_at'' \<in> fst ` set (table_columns verifications_table)"
  "''serial_presented'' \<in> fst ` set (table_columns verifications_table)"
  "''stamp_id'' \<in> fst ` set (table_columns verifications_table)"
  "''account'' \<in> fst ` set (table_columns ledger_entries_table)"
  "''created_at'' \<in> fst ` set (table_columns ledger_entries_table)"
  "''journal_id'' \<in> fst ` set (table_columns ledger_entries_table)"
  "''state'' \<in> fst ` set (table_columns tigerbeetle_ledger_intents_table)"
  "''created_at'' \<in> fst ` set (table_columns tigerbeetle_ledger_intents_table)"
  by (simp_all add: table_columns_def audit_events_table_def
    companies_table_def
    outbox_messages_table_def
    reconciliation_runs_table_def
    tariffs_table_def
    principals_table_def
    credentials_table_def
    idempotency_records_table_def
    orders_table_def
    approvals_table_def
    order_transitions_table_def
    payment_intents_table_def
    stamp_batches_table_def
    inspections_table_def
    payment_receipts_table_def
    stamps_table_def
    journals_table_def
    stamp_events_table_def
    verifications_table_def
    ledger_entries_table_def
    tigerbeetle_ledger_intents_table_def)

section \<open>The migrations succeed and are undone\<close>

text \<open>The catalogue after each migration.\<close>

definition append_only_triggers :: "string \<Rightarrow> sa_trigger list" where
  "append_only_triggers t =
     [\<lparr>tg_name = t @ ''_no_update'', tg_time = Before, tg_event = Update, tg_table = t,
       tg_function = ''taxstamp_reject_mutation''\<rparr>,
      \<lparr>tg_name = t @ ''_no_delete'', tg_time = Before, tg_event = Delete, tg_table = t,
       tg_function = ''taxstamp_reject_mutation''\<rparr>]"

definition schema_0001 :: catalogue where
  "schema_0001 = (add_created create_0001 empty_catalogue)
     \<lparr>cat_functions :=
        [(''taxstamp_reject_mutation'', Reject_mutation), (''taxstamp_assert_journal_balanced'', Assert_journal_balanced)],
      cat_triggers := concat (map append_only_triggers APPEND_ONLY_TABLES) @
        [\<lparr>tg_name = ''ledger_entries_balanced'', tg_time = After_deferred, tg_event = Insert,
          tg_table = ''ledger_entries'', tg_function = ''taxstamp_assert_journal_balanced''\<rparr>]\<rparr>"

definition schema_0002 :: catalogue where
  "schema_0002 = (add_created create_0002 schema_0001)
     \<lparr>cat_functions := cat_functions schema_0001 @
        [(''taxstamp_tigerbeetle_intent_immutable_fields'', Immutable_fields IMMUTABLE_COLUMNS)],
      cat_triggers := cat_triggers schema_0001 @
        [\<lparr>tg_name = ''tigerbeetle_ledger_intents_immutable_fields'', tg_time = Before, tg_event = Update,
          tg_table = ''tigerbeetle_ledger_intents'',
          tg_function = ''taxstamp_tigerbeetle_intent_immutable_fields''\<rparr>]\<rparr>"

lemma create_0001_creatables: "creatables [] create_0001"
  by (simp add: create_0001_def ddl has_id_def where_columns_def)

lemma created_names: "distinct (concat (map new_names (create_0001 @ create_0002)))"
  by code_simp

lemma relation_names_empty: "relation_names empty_catalogue = []"
  by (simp add: empty_catalogue_def relation_names_def)

lemma created_0001: "run_operations create_0001 empty_catalogue = Inr (add_created create_0001 empty_catalogue)"
proof (rule run_creations)
  show "creatables (cat_tables empty_catalogue) create_0001"
    using create_0001_creatables by (simp add: empty_catalogue_def)
  show "set (concat (map new_names create_0001)) \<inter> set (relation_names empty_catalogue) = {}"
    by (simp add: relation_names_empty)
qed (use created_names in simp)

lemma schema_0001_tables:
  "cat_tables schema_0001 = concat (map new_tables create_0001)"
  "relation_names schema_0001 = relation_names (add_created create_0001 empty_catalogue)"
  by (simp_all add: schema_0001_def add_created_def empty_catalogue_def relation_names_def)

lemma tables_0001 [ddl]:
  "map_of (concat (map new_tables create_0001)) t = map_of
     [(''audit_events'', audit_events_table),
      (''companies'', companies_table),
      (''outbox_messages'', outbox_messages_table),
      (''reconciliation_runs'', reconciliation_runs_table),
      (''serial_counters'', serial_counters_table),
      (''tariffs'', tariffs_table),
      (''principals'', principals_table),
      (''credentials'', credentials_table),
      (''idempotency_records'', idempotency_records_table),
      (''orders'', orders_table),
      (''approvals'', approvals_table),
      (''order_transitions'', order_transitions_table),
      (''payment_intents'', payment_intents_table),
      (''stamp_batches'', stamp_batches_table),
      (''inspections'', inspections_table),
      (''payment_receipts'', payment_receipts_table),
      (''stamps'', stamps_table),
      (''journals'', journals_table),
      (''stamp_events'', stamp_events_table),
      (''verifications'', verifications_table),
      (''ledger_entries'', ledger_entries_table)] t"
  by (simp add: create_0001_def)

lemma trigger_tables:
  "set (''tigerbeetle_ledger_intents'' # APPEND_ONLY_TABLES) \<subseteq>
     fst ` set (concat (map new_tables (create_0001 @ create_0002)))"
  "set APPEND_ONLY_TABLES \<subseteq> fst ` set (concat (map new_tables create_0001))"
  by (simp_all add: create_0001_def create_0002_def APPEND_ONLY_TABLES_def)

lemma create_append_only_triggers:
  "\<lbrakk>distinct ts; set ts \<subseteq> fst ` set (cat_tables cat); ''taxstamp_reject_mutation'' \<in> fst ` set (cat_functions cat);
    tg_table ` set (cat_triggers cat) \<inter> set ts = {}\<rbrakk> \<Longrightarrow>
   run_operations (concat (map (\<lambda>table.
      [execute (create_trigger (table @ ''_no_update'') Before Update table ''taxstamp_reject_mutation''),
       execute (create_trigger (table @ ''_no_delete'') Before Delete table ''taxstamp_reject_mutation'')]) ts)) cat =
   Inr (cat\<lparr>cat_triggers := cat_triggers cat @ concat (map append_only_triggers ts)\<rparr>)"
proof (induction ts arbitrary: cat)
  case (Cons t ts)
  have none: "\<not> list_ex (\<lambda>g. tg_table g = t \<and> tg_name g = n) (cat_triggers cat)" for n
    using Cons.prems(4) by (auto simp: list_ex_iff)
  show ?case
    using Cons.prems Cons.IH [of "cat\<lparr>cat_triggers := cat_triggers cat @ append_only_triggers t\<rparr>"]
    by (simp add: none append_only_triggers_def image_Un Int_Un_distrib2)
qed simp

lemma drop_append_only_triggers:
  "run_operations (concat (map (\<lambda>table.
      [execute (drop_trigger (table @ ''_no_update'') table), execute (drop_trigger (table @ ''_no_delete'') table)]) ts)) cat =
   Inr (cat\<lparr>cat_triggers := filter (\<lambda>g. \<not> (tg_table g \<in> set ts \<and>
      tg_name g \<in> {tg_table g @ ''_no_update'', tg_table g @ ''_no_delete''})) (cat_triggers cat)\<rparr>)"
proof (induction ts arbitrary: cat)
  case (Cons t ts)
  show ?case
    by (simp add: Cons.IH, rule arg_cong [where f = "\<lambda>gs. cat\<lparr>cat_triggers := gs\<rparr>"], rule filter_cong) auto
qed simp

lemma upgrade_0001_ok: "run_operations upgrade_0001 empty_catalogue = Inr schema_0001"
proof -
  have "set APPEND_ONLY_TABLES \<subseteq> fst ` set (cat_tables (add_created create_0001 empty_catalogue))"
    using trigger_tables(2) by (simp add: add_created_def empty_catalogue_def)
  moreover have "distinct APPEND_ONLY_TABLES" "''ledger_entries'' \<in> set APPEND_ONLY_TABLES"
    by (simp_all add: APPEND_ONLY_TABLES_def)
  moreover have "\<not> list_ex (\<lambda>g. tg_table g = ''ledger_entries'' \<and> tg_name g = ''ledger_entries_balanced'')
      (concat (map append_only_triggers APPEND_ONLY_TABLES))"
    by (auto simp: list_ex_iff append_only_triggers_def)
  moreover have "cat_functions (add_created create_0001 empty_catalogue) = []"
    "cat_triggers (add_created create_0001 empty_catalogue) = []"
    by (simp_all add: add_created_def empty_catalogue_def)
  ultimately show ?thesis
    by (auto simp: upgrade_0001_def run_operations_append created_0001 schema_0001_def create_append_only_triggers)
qed

lemma drop_0001_undoes: "drop_0001 = rev (map undo create_0001)"
  by (simp add: drop_0001_def create_0001_def)

lemma drop_0002_undoes: "drop_0002 = rev (map undo create_0002)"
  by (simp add: drop_0002_def create_0002_def)

lemma created_0001_closed: "closed_catalogue (add_created create_0001 empty_catalogue)"
  and dropped_0001: "run_operations drop_0001 (add_created create_0001 empty_catalogue) = Inr empty_catalogue"
  using undo_creations [OF create_0001_creatables created_0001]
  by (simp_all add: drop_0001_undoes closed_catalogue_def empty_catalogue_def)

lemma schema_0001_closed: "closed_catalogue schema_0001"
  using created_0001_closed trigger_tables(2)
  by (simp add: closed_catalogue_def Let_def schema_0001_def append_only_triggers_def add_created_def empty_catalogue_def
      APPEND_ONLY_TABLES_def)

lemma downgrade_0001_ok: "run_operations downgrade_0001 schema_0001 = Inr empty_catalogue"
proof -
  have "(add_created create_0001 empty_catalogue)\<lparr>cat_triggers := [], cat_functions := []\<rparr> =
      add_created create_0001 empty_catalogue"
    by (simp add: add_created_def empty_catalogue_def)
  moreover have "''taxstamp_assert_journal_balanced'' \<notin> tg_function ` set (concat (map append_only_triggers APPEND_ONLY_TABLES))"
    "filter (\<lambda>g. \<not> (tg_table g = ''ledger_entries'' \<and> tg_name g = ''ledger_entries_balanced''))
       (concat (map append_only_triggers APPEND_ONLY_TABLES)) = concat (map append_only_triggers APPEND_ONLY_TABLES)"
    "filter (\<lambda>g. \<not> (tg_table g \<in> set APPEND_ONLY_TABLES \<and>
       tg_name g \<in> {tg_table g @ ''_no_update'', tg_table g @ ''_no_delete''}))
       (concat (map append_only_triggers APPEND_ONLY_TABLES)) = []"
    by (auto simp: append_only_triggers_def filter_id_conv filter_empty_conv)
  ultimately show ?thesis
    by (simp add: downgrade_0001_def run_operations_append schema_0001_def drop_append_only_triggers dropped_0001)
qed

lemma create_0002_creatables: "creatables (cat_tables schema_0001) create_0002"
  by (simp add: create_0002_def ddl has_id_def where_columns_def schema_0001_tables map_add_def)

lemma relation_names_created:
  "creatables tabs ops \<Longrightarrow>
   set (relation_names (add_created ops cat)) = set (relation_names cat) \<union> set (concat (map new_names ops))"
proof (induction ops arbitrary: tabs cat)
  case (Cons op ops)
  have "set (relation_names (add_created ops (add_created [op] cat))) =
      set (relation_names (add_created [op] cat)) \<union> set (concat (map new_names ops))"
    using Cons.prems by (intro Cons.IH [of "tabs @ new_tables op"]) simp
  then show ?case
    using relation_names_add_created [of tabs op cat] Cons.prems by (simp add: add_created_Cons Un_assoc)
qed (simp add: add_created_def)

lemma created_0002: "run_operations create_0002 schema_0001 = Inr (add_created create_0002 schema_0001)"
proof (rule run_creations [OF create_0002_creatables])
  have "set (relation_names schema_0001) = set (concat (map new_names create_0001))"
    using relation_names_created [OF create_0001_creatables, of empty_catalogue]
    by (simp add: schema_0001_tables(2) relation_names_empty)
  then show "set (concat (map new_names create_0002)) \<inter> set (relation_names schema_0001) = {}"
    using created_names by (simp only: map_append concat_append distinct_append Int_commute)
qed (use created_names in simp)

lemma dropped_0002: "run_operations drop_0002 (add_created create_0002 schema_0001) = Inr schema_0001"
  using undo_creations [OF create_0002_creatables created_0002 schema_0001_closed] by (simp add: drop_0002_undoes)

text \<open>Nothing of the first migration has to do with the second one's trigger.\<close>

lemma schema_0001_unrelated:
  "''taxstamp_tigerbeetle_intent_immutable_fields'' \<notin> fst ` set (cat_functions schema_0001)"
  "filter (\<lambda>(m, c). m \<noteq> ''taxstamp_tigerbeetle_intent_immutable_fields'') (cat_functions schema_0001) = cat_functions schema_0001"
  "\<not> list_ex (\<lambda>g. tg_table g = ''tigerbeetle_ledger_intents'' \<and> tg_name g = n) (cat_triggers schema_0001)"
  "filter (\<lambda>g. tg_table g = ''tigerbeetle_ledger_intents'' \<longrightarrow> tg_name g \<noteq> n) (cat_triggers schema_0001) = cat_triggers schema_0001"
  "''taxstamp_tigerbeetle_intent_immutable_fields'' \<notin> tg_function ` set (cat_triggers schema_0001)"
proof -
  have "\<forall>g \<in> set (cat_triggers schema_0001). tg_table g \<in> set APPEND_ONLY_TABLES \<and>
      tg_function g \<in> {''taxstamp_reject_mutation'', ''taxstamp_assert_journal_balanced''}"
    by (auto simp: schema_0001_def append_only_triggers_def) (simp add: APPEND_ONLY_TABLES_def)
  moreover have "''tigerbeetle_ledger_intents'' \<notin> set APPEND_ONLY_TABLES" by (simp add: APPEND_ONLY_TABLES_def)
  ultimately show
    "\<not> list_ex (\<lambda>g. tg_table g = ''tigerbeetle_ledger_intents'' \<and> tg_name g = n) (cat_triggers schema_0001)"
    "filter (\<lambda>g. tg_table g = ''tigerbeetle_ledger_intents'' \<longrightarrow> tg_name g \<noteq> n) (cat_triggers schema_0001) = cat_triggers schema_0001"
    "''taxstamp_tigerbeetle_intent_immutable_fields'' \<notin> tg_function ` set (cat_triggers schema_0001)"
    by (auto simp: list_ex_iff filter_id_conv)
qed (simp_all add: schema_0001_def)

lemma upgrade_0002_ok: "run_operations upgrade_0002 schema_0001 = Inr schema_0002"
proof -
  have "''tigerbeetle_ledger_intents'' \<in> fst ` set (cat_tables (add_created create_0002 schema_0001))"
    using trigger_tables(1) by (simp add: add_created_def schema_0001_tables)
  moreover have "cat_triggers (add_created create_0002 schema_0001) = cat_triggers schema_0001"
    "cat_functions (add_created create_0002 schema_0001) = cat_functions schema_0001"
    by (simp_all add: add_created_def)
  ultimately show ?thesis
    by (simp add: upgrade_0002_def run_operations_append created_0002 schema_0002_def schema_0001_unrelated)
qed

lemma downgrade_0002_ok: "run_operations downgrade_0002 schema_0002 = Inr schema_0001"
proof -
  have "(add_created create_0002 schema_0001)
      \<lparr>cat_triggers := cat_triggers schema_0001, cat_functions := cat_functions schema_0001\<rparr> =
      add_created create_0002 schema_0001"
    by (simp add: add_created_def)
  then show ?thesis
    by (simp add: downgrade_0002_def run_operations_append schema_0002_def dropped_0002 schema_0001_unrelated)
qed

text \<open>
  C29. The two migrations succeed on an empty database: every table refers to tables created before it, no name is used twice and
  every trigger finds its table and function.  The downgrades succeed in turn and leave exactly the catalogue that was there
  before: the second one that of the first migration, the first one an empty database.
\<close>

theorem migrations_roundtrip:
  "\<exists>first second.
     run_operations upgrade_0001 empty_catalogue = Inr first \<and> run_operations upgrade_0002 first = Inr second \<and>
     map fst (cat_tables second) =
       [''audit_events'', ''companies'', ''outbox_messages'', ''reconciliation_runs'', ''serial_counters'',
        ''tariffs'', ''principals'', ''credentials'', ''idempotency_records'', ''orders'',
        ''approvals'', ''order_transitions'', ''payment_intents'', ''stamp_batches'', ''inspections'',
        ''payment_receipts'', ''stamps'', ''journals'', ''stamp_events'', ''verifications'',
        ''ledger_entries'', ''tigerbeetle_ledger_intents''] \<and>
     length (cat_triggers second) = 2 * length APPEND_ONLY_TABLES + 2 \<and>
     run_operations downgrade_0002 second = Inr first \<and> run_operations downgrade_0001 first = Inr empty_catalogue"
  using upgrade_0001_ok upgrade_0002_ok downgrade_0002_ok downgrade_0001_ok
  by (intro exI [of _ schema_0001] exI [of _ schema_0002])
    (simp add: schema_0002_def schema_0001_def add_created_def empty_catalogue_def create_0001_def create_0002_def
      APPEND_ONLY_TABLES_def append_only_triggers_def)

end
