(* ===== verification/Schema.thy ===== *)
theory Schema
  imports Migrations Requests
begin

text \<open>
  The schema of \<open>Migrations\<close> at work: how PostgreSQL judges a row that is inserted, with \<^verbatim>\<open>CHECK\<close> constraints in three-valued logic,
  \<^verbatim>\<open>NULL\<close> in keys and references, and the triggers of updates and deletions.  The rows of \<open>Models\<close>, which are typed records with the
  constraints of \<^verbatim>\<open>models.py\<close>, are written as rows of the migrated tables, and both judgements are shown to agree.
\<close>

named_theorems schema \<open>evaluation of the migrated schema on the rows of the model\<close>

section \<open>Values and expressions\<close>

datatype sql_value =
  Null | VUuid uuid | VInt int | VStr string | VTime instant | VBool bool | VJson json

type_synonym row = "(string \<times> sql_value) list"

type_synonym store = "string \<Rightarrow> row list"

definition cell :: "row \<Rightarrow> string \<Rightarrow> sql_value" where
  "cell row c = (case map_of row c of None \<Rightarrow> Null | Some v \<Rightarrow> v)"

definition opt_cell :: "('a \<Rightarrow> sql_value) \<Rightarrow> 'a option \<Rightarrow> sql_value" where
  "opt_cell f v = (case v of None \<Rightarrow> Null | Some x \<Rightarrow> f x)"

text \<open>Whether a value can be stored in a column of a type; a JSON document is stored as it is, also one
  with the character \<open>0\<close>, which PostgreSQL refuses.\<close>

fun fits :: "sa_type \<Rightarrow> sql_value \<Rightarrow> bool" where
  "fits t Null = True"
| "fits SaUUID (VUuid u) = True"
| "fits SaBigInteger (VInt i) = bigint i"
| "fits SaInteger (VInt i) = int4 i"
| "fits (SaString n) (VStr s) = varchar n s"
| "fits SaText (VStr s) = text_col s"
| "fits SaDateTime (VTime t) = True"
| "fits SaBoolean (VBool b) = True"
| "fits SaJSONB (VJson j) = True"
| "fits _ _ = False"

text \<open>The operands of the arithmetic are \<^verbatim>\<open>bigint\<close> columns, and so is its result.\<close>

fun arith :: "(int \<Rightarrow> int \<Rightarrow> int) \<Rightarrow> sql_value \<Rightarrow> sql_value \<Rightarrow> sql_value sql" where
  "arith f (VInt i) (VInt j) = (if bigint (f i j) then Inr (VInt (f i j)) else Inl Data_exception)"
| "arith f _ _ = Inr Null"

fun expr_value :: "row \<Rightarrow> sql_expr \<Rightarrow> sql_value sql" where
  "expr_value row (ColRef c) = Inr (cell row c)"
| "expr_value row (IntLit i) = Inr (VInt i)"
| "expr_value row (StrLit s) = Inr (VStr s)"
| "expr_value row (MulE a b) =
     sql_bind (expr_value row a) (\<lambda>x. sql_bind (expr_value row b) (\<lambda>y. arith (*) x y))"
| "expr_value row (AddE a b) =
     sql_bind (expr_value row a) (\<lambda>x. sql_bind (expr_value row b) (\<lambda>y. arith (+) x y))"
| "expr_value row (CharLength a) =
     sql_bind (expr_value row a) (\<lambda>x. Inr (case x of VStr s \<Rightarrow> VInt (int (length s)) | _ \<Rightarrow> Null))"
| "expr_value row (Upper a) =
     sql_bind (expr_value row a) (\<lambda>x. Inr (case x of VStr s \<Rightarrow> VStr (map Models.upper_char s) | _ \<Rightarrow> Null))"

text \<open>Conditions: \<^const>\<open>None\<close> is the truth value unknown.\<close>

definition eq_value :: "sql_value \<Rightarrow> sql_value \<Rightarrow> bool option" where
  "eq_value x y = (if x = Null \<or> y = Null then None else Some (x = y))"

fun less_value :: "sql_value \<Rightarrow> sql_value \<Rightarrow> bool option" where
  "less_value (VInt i) (VInt j) = Some (i < j)"
| "less_value (VTime i) (VTime j) = Some (i < j)"
| "less_value _ _ = None"

definition str_test :: "(string \<Rightarrow> bool) \<Rightarrow> sql_value \<Rightarrow> bool option" where
  "str_test p x = (case x of VStr s \<Rightarrow> Some (p s) | _ \<Rightarrow> None)"

fun sql_and :: "bool option \<Rightarrow> bool option \<Rightarrow> bool option" where
  "sql_and (Some True) b = b"
| "sql_and (Some False) b = Some False"
| "sql_and None (Some False) = Some False"
| "sql_and None _ = None"

fun sql_or :: "bool option \<Rightarrow> bool option \<Rightarrow> bool option" where
  "sql_or (Some False) b = b"
| "sql_or (Some True) b = Some True"
| "sql_or None (Some True) = Some True"
| "sql_or None _ = None"

definition compare ::
  "(sql_value \<Rightarrow> sql_value \<Rightarrow> bool option) \<Rightarrow> row \<Rightarrow> sql_expr \<Rightarrow> sql_expr \<Rightarrow> bool option sql" where
  "compare f row a b = sql_bind (expr_value row a) (\<lambda>x. sql_bind (expr_value row b) (\<lambda>y. Inr (f x y)))"

fun cond_value :: "row \<Rightarrow> sql_cond \<Rightarrow> bool option sql" where
  "cond_value row (InC a vs) = sql_bind (expr_value row a) (\<lambda>x. Inr (str_test (\<lambda>s. s \<in> set vs) x))"
| "cond_value row (NotInC a vs) = sql_bind (expr_value row a) (\<lambda>x. Inr (str_test (\<lambda>s. s \<notin> set vs) x))"
| "cond_value row (EqC a b) = compare eq_value row a b"
| "cond_value row (NeC a b) = compare (\<lambda>x y. map_option Not (eq_value x y)) row a b"
| "cond_value row (GtC a b) = compare (\<lambda>x y. less_value y x) row a b"
| "cond_value row (GeC a b) = compare (\<lambda>x y. map_option Not (less_value x y)) row a b"
| "cond_value row (LeC a b) = compare (\<lambda>x y. map_option Not (less_value y x)) row a b"
| "cond_value row (IsNull a) = sql_bind (expr_value row a) (\<lambda>x. Inr (Some (x = Null)))"
| "cond_value row (IsNotNull a) = sql_bind (expr_value row a) (\<lambda>x. Inr (Some (x \<noteq> Null)))"
| "cond_value row (AndC c d) =
     sql_bind (cond_value row c) (\<lambda>x. sql_bind (cond_value row d) (\<lambda>y. Inr (sql_and x y)))"
| "cond_value row (OrC c d) =
     sql_bind (cond_value row c) (\<lambda>x. sql_bind (cond_value row d) (\<lambda>y. Inr (sql_or x y)))"
| "cond_value row (LowerHexC a n) = sql_bind (expr_value row a) (\<lambda>x. Inr (str_test (lower_hex n) x))"

section \<open>Admission of a row\<close>

text \<open>A constraint is violated when its condition is false; unknown is good enough.\<close>

fun check_constraints :: "row \<Rightarrow> sql_cond list \<Rightarrow> unit sql" where
  "check_constraints row [] = Inr ()"
| "check_constraints row (c # cs) =
     sql_bind (cond_value row c) (\<lambda>v. if v = Some False then Inl Integrity_violation else check_constraints row cs)"

definition key :: "row \<Rightarrow> string list \<Rightarrow> sql_value list" where
  "key row cs = map (cell row) cs"

text \<open>Two rows with a \<^verbatim>\<open>NULL\<close> in the key do not collide, and a reference with a \<^verbatim>\<open>NULL\<close> refers to nothing.\<close>

definition key_free :: "row list \<Rightarrow> row \<Rightarrow> string list \<Rightarrow> bool" where
  "key_free rows row cs = (Null \<in> set (key row cs) \<or> list_all (\<lambda>r. key row cs \<noteq> key r cs) rows)"

definition reference_found ::
  "store \<Rightarrow> row \<Rightarrow> string list \<times> string \<times> string list \<times> on_delete \<Rightarrow> bool" where
  "reference_found st row = (\<lambda>(cs, t, rs, d).
     Null \<in> set (key row cs) \<or> list_ex (\<lambda>r. key row cs = key r rs) (st t))"

definition unique_keys :: "catalogue \<Rightarrow> string \<Rightarrow> sa_element list \<Rightarrow> string list list" where
  "unique_keys cat t els =
     map snd (table_keys els) @ map ix_columns (filter (\<lambda>i. ix_unique i \<and> ix_table i = t) (cat_indexes cat))"

text \<open>What a row is refused for whatever else is stored.\<close>

definition row_shape :: "sa_element list \<Rightarrow> row \<Rightarrow> unit sql" where
  "row_shape els row =
     (if \<not> list_all (\<lambda>(c, ty, nullable). fits ty (cell row c)) (table_columns els) then Inl Data_exception
      else if \<not> list_all (\<lambda>(c, ty, nullable). nullable \<or> cell row c \<noteq> Null) (table_columns els) then Inl Integrity_violation
      else check_constraints row (table_checks els))"

text \<open>
  What an \<^verbatim>\<open>INSERT\<close> of a complete row is refused for.  References are looked up when the row is there, so that it may refer to itself.
\<close>

definition admit :: "catalogue \<Rightarrow> store \<Rightarrow> string \<Rightarrow> row \<Rightarrow> unit sql" where
  "admit cat st t row =
     (case map_of (cat_tables cat) t of
        None \<Rightarrow> Inl Undefined_object
      | Some els \<Rightarrow>
          sql_bind (row_shape els row) (\<lambda>_.
            if \<not> list_all (key_free (st t) row) (unique_keys cat t els) \<or>
               \<not> list_all (reference_found (st(t := st t @ [row])) row) (table_references els)
            then Inl Integrity_violation else Inr ()))"

section \<open>Statements\<close>

text \<open>
  The bodies of the triggers that fire before a row is changed or deleted.  The deferred trigger of the ledger runs at commit
  (\<open>trigger_ok\<close> of \<open>Ledger\<close>).
\<close>

definition fired :: "catalogue \<Rightarrow> trigger_event \<Rightarrow> string \<Rightarrow> function_body list" where
  "fired cat ev t =
     concat (map (\<lambda>g. case map_of (cat_functions cat) (tg_function g) of None \<Rightarrow> [] | Some b \<Rightarrow> [b])
       (filter (\<lambda>g. tg_time g = Before \<and> tg_event g = ev \<and> tg_table g = t) (cat_triggers cat)))"

text \<open>\<open>taxstamp_reject_mutation\<close> raises always, \<open>taxstamp_tigerbeetle_intent_immutable_fields\<close> if one of its columns is distinct.\<close>

fun lets_pass :: "row \<Rightarrow> row \<Rightarrow> function_body \<Rightarrow> bool" where
  "lets_pass old new Reject_mutation = False"
| "lets_pass old new (Immutable_fields cs) = list_all (\<lambda>c. cell old c = cell new c) cs"
| "lets_pass old new Assert_journal_balanced = True"

definition references_to :: "catalogue \<Rightarrow> string \<Rightarrow> (string \<times> string list \<times> string list \<times> on_delete) list" where
  "references_to cat t =
     concat (map (\<lambda>(u, els). map (\<lambda>(cs, t', rs, d). (u, cs, rs, d))
       (filter (\<lambda>(cs, t', rs, d). t' = t) (table_references els))) (cat_tables cat))"

datatype dml =
    Insert_row string row
  | Update_rows string "row \<Rightarrow> bool" "row \<Rightarrow> row"
  | Delete_rows string "row \<Rightarrow> bool"

fun each :: "('x \<Rightarrow> 's \<Rightarrow> 's sql) \<Rightarrow> 'x list \<Rightarrow> 's \<Rightarrow> 's sql" where
  "each f [] s = Inr s"
| "each f (x # xs) s = sql_bind (f x s) (each f xs)"

definition run_insert :: "catalogue \<Rightarrow> string \<Rightarrow> row \<Rightarrow> store \<Rightarrow> store sql" where
  "run_insert cat t row st = sql_bind (admit cat st t row) (\<lambda>_. Inr (st(t := st t @ [row])))"

text \<open>
  \<^verbatim>\<open>UPDATE t SET \<dots> WHERE p\<close>: the triggers see each row that changes; then the new rows are checked, keys must stay unique and
  the references of this table and to this table must still be found.
\<close>

definition keys_unique :: "row list \<Rightarrow> string list \<Rightarrow> bool" where
  "keys_unique rows cs = distinct (filter (\<lambda>k. Null \<notin> set k) (map (\<lambda>r. key r cs) rows))"

definition run_update :: "catalogue \<Rightarrow> string \<Rightarrow> (row \<Rightarrow> bool) \<Rightarrow> (row \<Rightarrow> row) \<Rightarrow> store \<Rightarrow> store sql" where
  "run_update cat t p f st =
     (case map_of (cat_tables cat) t of
        None \<Rightarrow> Inl Undefined_object
      | Some els \<Rightarrow>
          (let old = filter p (st t); rows = update_where p f (st t); st' = st(t := rows)
           in if \<not> list_all (\<lambda>r. list_all (lets_pass r (f r)) (fired cat Update t)) old then Inl Raise_exception
              else sql_bind (each (\<lambda>r st. sql_bind (row_shape els (f r)) (\<lambda>_. Inr st)) old st') (\<lambda>st'.
                if \<not> list_all (keys_unique rows) (unique_keys cat t els) \<or>
                   \<not> list_all (\<lambda>r. list_all (reference_found st' r) (table_references els)) rows \<or>
                   \<not> list_all (\<lambda>(u, cs, rs, d). list_all (\<lambda>r. reference_found st' r (cs, t, rs, d)) (st' u)) (references_to cat t)
                then Inl Integrity_violation else Inr st')))"

text \<open>
  \<^verbatim>\<open>DELETE FROM t WHERE p\<close>: with the rows go, or by \<^verbatim>\<open>RESTRICT\<close> must not exist, the rows that refer to them.  The number bounds the
  depth of cascades; the number of tables is enough here, because the tables that cascades reach are not referred to
  (\<open>cascades_are_shallow\<close>).
\<close>

definition refers_to :: "row list \<Rightarrow> string list \<Rightarrow> string list \<Rightarrow> row \<Rightarrow> bool" where
  "refers_to gone cs rs r = (Null \<notin> set (key r cs) \<and> list_ex (\<lambda>v. key r cs = key v rs) gone)"

fun delete_rows :: "catalogue \<Rightarrow> nat \<Rightarrow> string \<Rightarrow> (row \<Rightarrow> bool) \<Rightarrow> store \<Rightarrow> store sql" where
  "delete_rows cat 0 t p st = Inl Stack_depth"
| "delete_rows cat (Suc n) t p st =
     (let gone = filter p (st t)
      in if gone = [] then Inr st
         else if \<not> list_all (\<lambda>r. list_all (lets_pass r r) (fired cat Delete t)) gone then Inl Raise_exception
         else each (\<lambda>(u, cs, rs, d) st.
                case d of
                  RESTRICT \<Rightarrow> if list_ex (refers_to gone cs rs) (st u) then Inl Integrity_violation else Inr st
                | CASCADE \<Rightarrow> delete_rows cat n u (refers_to gone cs rs) st)
              (references_to cat t) (st(t := filter (\<lambda>r. \<not> p r) (st t))))"

fun run_dml :: "catalogue \<Rightarrow> dml \<Rightarrow> store \<Rightarrow> store sql" where
  "run_dml cat (Insert_row t row) st = run_insert cat t row st"
| "run_dml cat (Update_rows t p f) st = run_update cat t p f st"
| "run_dml cat (Delete_rows t p) st = delete_rows cat (length (cat_tables cat)) t p st"

section \<open>The rows of the model\<close>

text \<open>
  A record as a row: identifiers, numbers, strings and times as they are, an enumeration as its stored value, an absent value as
  \<^verbatim>\<open>NULL\<close>.  The column of optimistic locking starts at 1.
\<close>

fun kyb_status_value :: "kyb_status \<Rightarrow> string" where
  "kyb_status_value K_UNVERIFIED = ''unverified''"
| "kyb_status_value K_VERIFIED = ''verified''"
| "kyb_status_value K_SUSPENDED = ''suspended''"

definition company_row :: "company \<Rightarrow> row" where
  "company_row r =
    [(''id'', VUuid (co_id r)),
     (''tin'', VStr (co_tin r)),
     (''name'', VStr (co_name r)),
     (''kyb_status'', VStr (kyb_status_value (co_kyb_status r))),
     (''kyb_verified_at'', opt_cell VTime (co_kyb_verified_at r)),
     (''risk_tier'', VStr (risk_tier_value (co_risk_tier r))),
     (''created_at'', VTime (co_created_at r))]"

definition principal_row :: "principal \<Rightarrow> row" where
  "principal_row r =
    [(''id'', VUuid (pr_id r)),
     (''subject'', VStr (pr_subject r)),
     (''role'', VStr (role_value (pr_role r))),
     (''company_id'', opt_cell VUuid (pr_company_id r)),
     (''display_name'', VStr (pr_display_name r)),
     (''active'', VBool (pr_active r)),
     (''created_at'', VTime (pr_created_at r))]"

definition credential_row :: "credential \<Rightarrow> row" where
  "credential_row r =
    [(''id'', VUuid (cr_id r)),
     (''principal_id'', VUuid (cr_principal_id r)),
     (''token_hash'', VStr (cr_token_hash r)),
     (''label'', VStr (cr_label r)),
     (''created_at'', VTime (cr_created_at r)),
     (''expires_at'', opt_cell VTime (cr_expires_at r)),
     (''revoked_at'', opt_cell VTime (cr_revoked_at r)),
     (''last_used_at'', opt_cell VTime (cr_last_used_at r))]"

definition tariff_row :: "tariff \<Rightarrow> row" where
  "tariff_row r =
    [(''id'', VUuid (ta_id r)),
     (''product_category'', VStr (ta_product_category r)),
     (''unit_price_minor'', VInt (ta_unit_price_minor r)),
     (''currency'', VStr (ta_currency r)),
     (''vat_bps'', VInt (ta_vat_bps r)),
     (''effective_from'', VTime (ta_effective_from r)),
     (''effective_to'', opt_cell VTime (ta_effective_to r)),
     (''statutory_reference'', VStr (ta_statutory_reference r)),
     (''created_at'', VTime (ta_created_at r))]"

definition order_row :: "order \<Rightarrow> row" where
  "order_row r =
    [(''id'', VUuid (o_id r)),
     (''order_ref'', VStr (o_order_ref r)),
     (''company_id'', VUuid (o_company_id r)),
     (''submitted_by'', VUuid (o_submitted_by r)),
     (''product_category'', VStr (o_product_category r)),
     (''quantity'', VInt (o_quantity r)),
     (''tariff_id'', VUuid (o_tariff_id r)),
     (''unit_price_minor'', VInt (o_unit_price_minor r)),
     (''subtotal_minor'', VInt (o_subtotal_minor r)),
     (''vat_bps'', VInt (o_vat_bps r)),
     (''vat_minor'', VInt (o_vat_minor r)),
     (''total_minor'', VInt (o_total_minor r)),
     (''currency'', VStr (o_currency r)),
     (''status'', VStr (order_status_value (o_status r))),
     (''risk_tier'', VStr (risk_tier_value (o_risk_tier r))),
     (''delivery_state'', VStr (o_delivery_state r)),
     (''delivery_address'', VStr (o_delivery_address r)),
     (''compliance_evidence'', opt_cell (VJson \<circ> JObj) (o_compliance_evidence r)),
     (''created_at'', VTime (o_created_at r)),
     (''updated_at'', VTime (o_updated_at r)),
     (''version'', VInt 1)]"

definition order_transition_row :: "order_transition \<Rightarrow> row" where
  "order_transition_row r =
    [(''id'', VUuid (ot_id r)),
     (''order_id'', VUuid (ot_order_id r)),
     (''from_status'', opt_cell (VStr \<circ> order_status_value) (ot_from_status r)),
     (''to_status'', VStr (order_status_value (ot_to_status r))),
     (''actor_principal_id'', opt_cell VUuid (ot_actor_principal_id r)),
     (''reason'', VStr (ot_reason r)),
     (''created_at'', VTime (ot_created_at r))]"

definition approval_row :: "approval \<Rightarrow> row" where
  "approval_row r =
    [(''id'', VUuid (ap_id r)),
     (''order_id'', VUuid (ap_order_id r)),
     (''level'', VStr (approval_level_value (ap_level r))),
     (''decision'', VStr (approval_decision_value (ap_decision r))),
     (''actor_principal_id'', VUuid (ap_actor_principal_id r)),
     (''reason'', VStr (ap_reason r)),
     (''created_at'', VTime (ap_created_at r))]"

definition payment_intent_row :: "payment_intent \<Rightarrow> row" where
  "payment_intent_row r =
    [(''id'', VUuid (pi_id r)),
     (''order_id'', VUuid (pi_order_id r)),
     (''reference'', VStr (pi_reference r)),
     (''amount_minor'', VInt (pi_amount_minor r)),
     (''currency'', VStr (pi_currency r)),
     (''status'', VStr (payment_intent_status_value (pi_status r))),
     (''created_at'', VTime (pi_created_at r)),
     (''settled_at'', opt_cell VTime (pi_settled_at r))]"

definition payment_receipt_row :: "payment_receipt \<Rightarrow> row" where
  "payment_receipt_row r =
    [(''id'', VUuid (rc_id r)),
     (''external_reference'', VStr (rc_external_reference r)),
     (''payment_intent_id'', opt_cell VUuid (rc_payment_intent_id r)),
     (''declared_reference'', VStr (rc_declared_reference r)),
     (''amount_minor'', VInt (rc_amount_minor r)),
     (''currency'', VStr (rc_currency r)),
     (''status'', VStr (receipt_status_value (rc_status r))),
     (''payload_hash'', VStr (rc_payload_hash r)),
     (''value_date'', VTime (rc_value_date r)),
     (''ingested_at'', VTime (rc_ingested_at r))]"

definition tb_ledger_intent_row :: "tb_ledger_intent \<Rightarrow> row" where
  "tb_ledger_intent_row r =
    [(''id'', VUuid (tb_id r)),
     (''payment_intent_id'', VUuid (tb_payment_intent_id r)),
     (''tigerbeetle_transfer_id'', VStr (tb_transfer_id r)),
     (''debit_account_id'', VStr (tb_debit_account_id r)),
     (''credit_account_id'', VStr (tb_credit_account_id r)),
     (''ledger_code'', VInt (tb_ledger_code r)),
     (''transfer_code'', VInt (tb_transfer_code r)),
     (''transfer_flags'', VInt (tb_transfer_flags r)),
     (''amount_minor'', VInt (tb_amount_minor r)),
     (''currency'', VStr (tb_currency r)),
     (''payload_hash'', VStr (tb_payload_hash r)),
     (''state'', VStr (tb_intent_state_value (tb_state r))),
     (''attempt_count'', VInt (tb_attempt_count r)),
     (''last_error'', opt_cell VStr (tb_last_error r)),
     (''external_timestamp'', opt_cell VInt (tb_external_timestamp r)),
     (''external_confirmed_at'', opt_cell VTime (tb_external_confirmed_at r)),
     (''posted_at'', opt_cell VTime (tb_posted_at r)),
     (''created_at'', VTime (tb_created_at r)),
     (''updated_at'', VTime (tb_updated_at r))]"

definition journal_row :: "journal \<Rightarrow> row" where
  "journal_row r =
    [(''id'', VUuid (j_id r)),
     (''reference'', VStr (j_reference r)),
     (''kind'', VStr (j_kind r)),
     (''currency'', VStr (j_currency r)),
     (''order_id'', opt_cell VUuid (j_order_id r)),
     (''payment_receipt_id'', opt_cell VUuid (j_payment_receipt_id r)),
     (''reverses_journal_id'', opt_cell VUuid (j_reverses_journal_id r)),
     (''created_at'', VTime (j_created_at r))]"

definition ledger_entry_row :: "ledger_entry \<Rightarrow> row" where
  "ledger_entry_row r =
    [(''id'', VUuid (le_id r)),
     (''journal_id'', VUuid (le_journal_id r)),
     (''account'', VStr (le_account r)),
     (''direction'', VStr (le_direction r)),
     (''amount_minor'', VInt (le_amount_minor r)),
     (''currency'', VStr (le_currency r)),
     (''created_at'', VTime (le_created_at r))]"

definition serial_counter_row :: "serial_counter \<Rightarrow> row" where
  "serial_counter_row r =
    [(''product_category'', VStr (sc_product_category r)),
     (''year'', VInt (sc_year r)),
     (''next_value'', VInt (sc_next_value r))]"

definition stamp_batch_row :: "stamp_batch \<Rightarrow> row" where
  "stamp_batch_row r =
    [(''id'', VUuid (b_id r)),
     (''order_id'', VUuid (b_order_id r)),
     (''requested_count'', VInt (b_requested_count r)),
     (''issued_count'', VInt (b_issued_count r)),
     (''status'', VStr (batch_status_value (b_status r))),
     (''created_at'', VTime (b_created_at r)),
     (''completed_at'', opt_cell VTime (b_completed_at r))]"

definition stamp_row :: "stamp \<Rightarrow> row" where
  "stamp_row r =
    [(''id'', VUuid (s_id r)),
     (''serial'', VStr (s_serial r)),
     (''batch_id'', VUuid (s_batch_id r)),
     (''order_id'', VUuid (s_order_id r)),
     (''company_id'', VUuid (s_company_id r)),
     (''product_category'', VStr (s_product_category r)),
     (''status'', VStr (stamp_status_value (s_status r))),
     (''secure_code_hash'', VStr (s_secure_code_hash r)),
     (''issued_at'', VTime (s_issued_at r)),
     (''activated_at'', opt_cell VTime (s_activated_at r)),
     (''voided_at'', opt_cell VTime (s_voided_at r)),
     (''expires_at'', VTime (s_expires_at r)),
     (''version'', VInt 1)]"

definition stamp_event_row :: "stamp_event \<Rightarrow> row" where
  "stamp_event_row r =
    [(''id'', VUuid (se_id r)),
     (''stamp_id'', VUuid (se_stamp_id r)),
     (''event_type'', VStr (se_event_type r)),
     (''actor_principal_id'', opt_cell VUuid (se_actor_principal_id r)),
     (''context'', VJson (JObj (se_context r))),
     (''created_at'', VTime (se_created_at r))]"

definition inspection_row :: "inspection \<Rightarrow> row" where
  "inspection_row r =
    [(''id'', VUuid (insp_id r)),
     (''batch_id'', VUuid (insp_batch_id r)),
     (''lot_size'', VInt (insp_lot_size r)),
     (''sample_size'', VInt (insp_sample_size r)),
     (''accept_number'', VInt (insp_accept_number r)),
     (''reject_number'', VInt (insp_reject_number r)),
     (''defects_found'', VInt (insp_defects_found r)),
     (''accepted'', VBool (insp_accepted r)),
     (''inspector_principal_id'', VUuid (insp_inspector_principal_id r)),
     (''defective_serials'', VJson (JList (map JStr (insp_defective_serials r)))),
     (''created_at'', VTime (insp_created_at r))]"

definition verification_row :: "verification \<Rightarrow> row" where
  "verification_row r =
    [(''id'', VUuid (v_id r)),
     (''stamp_id'', opt_cell VUuid (v_stamp_id r)),
     (''serial_presented'', VStr (v_serial_presented r)),
     (''outcome'', VStr (verification_outcome_value (v_outcome r))),
     (''principal_id'', VUuid (v_principal_id r)),
     (''device_id'', VStr (v_device_id r)),
     (''nonce'', VStr (v_nonce r)),
     (''latitude_e7'', opt_cell VInt (v_latitude_e7 r)),
     (''longitude_e7'', opt_cell VInt (v_longitude_e7 r)),
     (''occurred_at'', VTime (v_occurred_at r))]"

definition idempotency_record_row :: "idempotency_record \<Rightarrow> row" where
  "idempotency_record_row r =
    [(''id'', VUuid (ir_id r)),
     (''scope'', VStr (ir_scope r)),
     (''idempotency_key'', VStr (ir_idempotency_key r)),
     (''principal_id'', VUuid (ir_principal_id r)),
     (''request_hash'', VStr (ir_request_hash r)),
     (''state'', VStr (ir_state r)),
     (''response_status'', opt_cell VInt (ir_response_status r)),
     (''response_body'', opt_cell (VJson \<circ> JObj) (ir_response_body r)),
     (''created_at'', VTime (ir_created_at r)),
     (''completed_at'', opt_cell VTime (ir_completed_at r)),
     (''expires_at'', VTime (ir_expires_at r))]"

definition outbox_message_row :: "outbox_message \<Rightarrow> row" where
  "outbox_message_row r =
    [(''id'', VUuid (m_id r)),
     (''aggregate_type'', VStr (m_aggregate_type r)),
     (''aggregate_id'', VUuid (m_aggregate_id r)),
     (''event_type'', VStr (m_event_type r)),
     (''dedupe_key'', VStr (m_dedupe_key r)),
     (''payload'', VJson (JObj (m_payload r))),
     (''created_at'', VTime (m_created_at r)),
     (''available_at'', VTime (m_available_at r)),
     (''attempts'', VInt (m_attempts r)),
     (''locked_by'', opt_cell VStr (m_locked_by r)),
     (''locked_until'', opt_cell VTime (m_locked_until r)),
     (''processed_at'', opt_cell VTime (m_processed_at r)),
     (''dead_lettered_at'', opt_cell VTime (m_dead_lettered_at r)),
     (''last_error'', opt_cell VStr (m_last_error r))]"

definition audit_event_row :: "audit_event \<Rightarrow> row" where
  "audit_event_row r =
    [(''seq'', VInt (ae_seq r)),
     (''event_id'', VUuid (ae_event_id r)),
     (''occurred_at'', VTime (ae_occurred_at r)),
     (''ingested_at'', VTime (ae_ingested_at r)),
     (''actor_principal_id'', opt_cell VUuid (ae_actor_principal_id r)),
     (''actor_subject'', VStr (ae_actor_subject r)),
     (''actor_role'', VStr (ae_actor_role r)),
     (''company_id'', opt_cell VUuid (ae_company_id r)),
     (''action'', VStr (ae_action r)),
     (''target_type'', VStr (ae_target_type r)),
     (''target_id'', VStr (ae_target_id r)),
     (''outcome'', VStr (ae_outcome r)),
     (''request_id'', opt_cell VStr (ae_request_id r)),
     (''idempotency_key'', opt_cell VStr (ae_idempotency_key r)),
     (''before_state'', opt_cell (VJson \<circ> JObj) (ae_before_state r)),
     (''after_state'', opt_cell (VJson \<circ> JObj) (ae_after_state r)),
     (''revision'', VStr (ae_revision r)),
     (''prev_hash'', VStr (ae_prev_hash r)),
     (''hash'', VStr (ae_hash r))]"

definition reconciliation_run_row :: "reconciliation_run \<Rightarrow> row" where
  "reconciliation_run_row r =
    [(''id'', VUuid (rr_id r)),
     (''kind'', VStr (rr_kind r)),
     (''started_at'', VTime (rr_started_at r)),
     (''finished_at'', opt_cell VTime (rr_finished_at r)),
     (''status'', VStr (rr_status r)),
     (''findings'', VJson (JObj (rr_findings r)))]"

definition store_of :: "db \<Rightarrow> store" where
  "store_of db t =
     (case map_of
        [(''companies'', map company_row (companies db)),
         (''principals'', map principal_row (principals db)),
         (''credentials'', map credential_row (credentials db)),
         (''tariffs'', map tariff_row (tariffs db)),
         (''orders'', map order_row (orders db)),
         (''order_transitions'', map order_transition_row (order_transitions db)),
         (''approvals'', map approval_row (approvals db)),
         (''payment_intents'', map payment_intent_row (payment_intents db)),
         (''payment_receipts'', map payment_receipt_row (payment_receipts db)),
         (''tigerbeetle_ledger_intents'', map tb_ledger_intent_row (tb_ledger_intents db)),
         (''journals'', map journal_row (journals db)),
         (''ledger_entries'', map ledger_entry_row (ledger_entries db)),
         (''serial_counters'', map serial_counter_row (serial_counters db)),
         (''stamp_batches'', map stamp_batch_row (stamp_batches db)),
         (''stamps'', map stamp_row (stamps db)),
         (''stamp_events'', map stamp_event_row (stamp_events db)),
         (''inspections'', map inspection_row (inspections db)),
         (''verifications'', map verification_row (verifications db)),
         (''idempotency_records'', map idempotency_record_row (idempotency_records db)),
         (''outbox_messages'', map outbox_message_row (outbox_messages db)),
         (''audit_events'', map audit_event_row (audit_events db)),
         (''reconciliation_runs'', map reconciliation_run_row (reconciliation_runs db))] t of
        None \<Rightarrow> []
      | Some rows \<Rightarrow> rows)"

section \<open>Agreement\<close>

lemma store_of_tables [schema]:
  "store_of db ''companies'' = map company_row (companies db)"
  "store_of db ''principals'' = map principal_row (principals db)"
  "store_of db ''credentials'' = map credential_row (credentials db)"
  "store_of db ''tariffs'' = map tariff_row (tariffs db)"
  "store_of db ''orders'' = map order_row (orders db)"
  "store_of db ''order_transitions'' = map order_transition_row (order_transitions db)"
  "store_of db ''approvals'' = map approval_row (approvals db)"
  "store_of db ''payment_intents'' = map payment_intent_row (payment_intents db)"
  "store_of db ''payment_receipts'' = map payment_receipt_row (payment_receipts db)"
  "store_of db ''tigerbeetle_ledger_intents'' = map tb_ledger_intent_row (tb_ledger_intents db)"
  "store_of db ''journals'' = map journal_row (journals db)"
  "store_of db ''ledger_entries'' = map ledger_entry_row (ledger_entries db)"
  "store_of db ''serial_counters'' = map serial_counter_row (serial_counters db)"
  "store_of db ''stamp_batches'' = map stamp_batch_row (stamp_batches db)"
  "store_of db ''stamps'' = map stamp_row (stamps db)"
  "store_of db ''stamp_events'' = map stamp_event_row (stamp_events db)"
  "store_of db ''inspections'' = map inspection_row (inspections db)"
  "store_of db ''verifications'' = map verification_row (verifications db)"
  "store_of db ''idempotency_records'' = map idempotency_record_row (idempotency_records db)"
  "store_of db ''outbox_messages'' = map outbox_message_row (outbox_messages db)"
  "store_of db ''audit_events'' = map audit_event_row (audit_events db)"
  "store_of db ''reconciliation_runs'' = map reconciliation_run_row (reconciliation_runs db)"
  by (simp_all add: store_of_def)

lemma referenced_keys [schema]:
  "map_of (company_row r0) ''id'' = Some (VUuid (co_id r0))"
  "map_of (journal_row r1) ''id'' = Some (VUuid (j_id r1))"
  "map_of (order_row r2) ''id'' = Some (VUuid (o_id r2))"
  "map_of (payment_intent_row r3) ''id'' = Some (VUuid (pi_id r3))"
  "map_of (payment_receipt_row r4) ''id'' = Some (VUuid (rc_id r4))"
  "map_of (principal_row r5) ''id'' = Some (VUuid (pr_id r5))"
  "map_of (stamp_batch_row r6) ''id'' = Some (VUuid (b_id r6))"
  "map_of (stamp_row r7) ''id'' = Some (VUuid (s_id r7))"
  "map_of (tariff_row r8) ''id'' = Some (VUuid (ta_id r8))"
  by (simp_all add: company_row_def journal_row_def order_row_def payment_intent_row_def payment_receipt_row_def principal_row_def stamp_batch_row_def stamp_row_def tariff_row_def)

lemma order_status_stored [schema]:
  "order_status_value s = ''submitted'' \<longleftrightarrow> s = O_SUBMITTED"
  "order_status_value s = ''compliance_pending'' \<longleftrightarrow> s = O_COMPLIANCE_PENDING"
  "order_status_value s = ''compliance_rejected'' \<longleftrightarrow> s = O_COMPLIANCE_REJECTED"
  "order_status_value s = ''awaiting_approval'' \<longleftrightarrow> s = O_AWAITING_APPROVAL"
  "order_status_value s = ''approved'' \<longleftrightarrow> s = O_APPROVED"
  "order_status_value s = ''rejected'' \<longleftrightarrow> s = O_REJECTED"
  "order_status_value s = ''awaiting_payment'' \<longleftrightarrow> s = O_AWAITING_PAYMENT"
  "order_status_value s = ''paid'' \<longleftrightarrow> s = O_PAID"
  "order_status_value s = ''issuing'' \<longleftrightarrow> s = O_ISSUING"
  "order_status_value s = ''issued'' \<longleftrightarrow> s = O_ISSUED"
  "order_status_value s = ''cancelled'' \<longleftrightarrow> s = O_CANCELLED"
  "s = O_SUBMITTED \<or> s = O_COMPLIANCE_PENDING \<or> s = O_COMPLIANCE_REJECTED \<or> s = O_AWAITING_APPROVAL \<or> s = O_APPROVED \<or> s = O_REJECTED \<or> s = O_AWAITING_PAYMENT \<or> s = O_PAID \<or> s = O_ISSUING \<or> s = O_ISSUED \<or> s = O_CANCELLED"
  by (cases s; simp)+

lemma order_status_fits [schema]:
  "varchar 32 (order_status_value s)"
  by (cases s; simp add: varchar_def)+

lemma stamp_status_stored [schema]:
  "stamp_status_value s = ''issued'' \<longleftrightarrow> s = S_ISSUED"
  "stamp_status_value s = ''active'' \<longleftrightarrow> s = S_ACTIVE"
  "stamp_status_value s = ''void'' \<longleftrightarrow> s = S_VOID"
  "stamp_status_value s = ''expired'' \<longleftrightarrow> s = S_EXPIRED"
  "s = S_ISSUED \<or> s = S_ACTIVE \<or> s = S_VOID \<or> s = S_EXPIRED"
  by (cases s; simp)+

lemma stamp_status_fits [schema]:
  "varchar 16 (stamp_status_value s)"
  by (cases s; simp add: varchar_def)+

lemma batch_status_stored [schema]:
  "batch_status_value s = ''pending'' \<longleftrightarrow> s = B_PENDING"
  "batch_status_value s = ''issuing'' \<longleftrightarrow> s = B_ISSUING"
  "batch_status_value s = ''issued'' \<longleftrightarrow> s = B_ISSUED"
  "batch_status_value s = ''inspection_failed'' \<longleftrightarrow> s = B_INSPECTION_FAILED"
  "s = B_PENDING \<or> s = B_ISSUING \<or> s = B_ISSUED \<or> s = B_INSPECTION_FAILED"
  by (cases s; simp)+

lemma batch_status_fits [schema]:
  "varchar 32 (batch_status_value s)"
  by (cases s; simp add: varchar_def)+

lemma payment_intent_status_stored [schema]:
  "payment_intent_status_value s = ''awaiting_payment'' \<longleftrightarrow> s = P_AWAITING_PAYMENT"
  "payment_intent_status_value s = ''settled'' \<longleftrightarrow> s = P_SETTLED"
  "payment_intent_status_value s = ''mismatched'' \<longleftrightarrow> s = P_MISMATCHED"
  "payment_intent_status_value s = ''cancelled'' \<longleftrightarrow> s = P_CANCELLED"
  "s = P_AWAITING_PAYMENT \<or> s = P_SETTLED \<or> s = P_MISMATCHED \<or> s = P_CANCELLED"
  by (cases s; simp)+

lemma payment_intent_status_fits [schema]:
  "varchar 32 (payment_intent_status_value s)"
  by (cases s; simp add: varchar_def)+

lemma receipt_status_stored [schema]:
  "receipt_status_value s = ''matched'' \<longleftrightarrow> s = R_MATCHED"
  "receipt_status_value s = ''amount_mismatch'' \<longleftrightarrow> s = R_AMOUNT_MISMATCH"
  "receipt_status_value s = ''unknown_reference'' \<longleftrightarrow> s = R_UNKNOWN_REFERENCE"
  "receipt_status_value s = ''duplicate'' \<longleftrightarrow> s = R_DUPLICATE"
  "s = R_MATCHED \<or> s = R_AMOUNT_MISMATCH \<or> s = R_UNKNOWN_REFERENCE \<or> s = R_DUPLICATE"
  by (cases s; simp)+

lemma receipt_status_fits [schema]:
  "varchar 32 (receipt_status_value s)"
  by (cases s; simp add: varchar_def)+

lemma tb_intent_state_stored [schema]:
  "tb_intent_state_value s = ''ready'' \<longleftrightarrow> s = TB_READY"
  "tb_intent_state_value s = ''submission_uncertain'' \<longleftrightarrow> s = TB_SUBMISSION_UNCERTAIN"
  "tb_intent_state_value s = ''external_confirmed'' \<longleftrightarrow> s = TB_EXTERNAL_CONFIRMED"
  "tb_intent_state_value s = ''posted'' \<longleftrightarrow> s = TB_POSTED"
  "tb_intent_state_value s = ''rejected'' \<longleftrightarrow> s = TB_REJECTED"
  "tb_intent_state_value s = ''quarantined'' \<longleftrightarrow> s = TB_QUARANTINED"
  "s = TB_READY \<or> s = TB_SUBMISSION_UNCERTAIN \<or> s = TB_EXTERNAL_CONFIRMED \<or> s = TB_POSTED \<or> s = TB_REJECTED \<or> s = TB_QUARANTINED"
  by (cases s; simp)+

lemma tb_intent_state_fits [schema]:
  "varchar 32 (tb_intent_state_value s)"
  by (cases s; simp add: varchar_def)+

lemma approval_level_stored [schema]:
  "approval_level_value s = ''analyst'' \<longleftrightarrow> s = L_ANALYST"
  "approval_level_value s = ''supervisor'' \<longleftrightarrow> s = L_SUPERVISOR"
  "s = L_ANALYST \<or> s = L_SUPERVISOR"
  by (cases s; simp)+

lemma approval_level_fits [schema]:
  "varchar 32 (approval_level_value s)"
  by (cases s; simp add: varchar_def)+

lemma approval_decision_stored [schema]:
  "approval_decision_value s = ''approved'' \<longleftrightarrow> s = D_APPROVED"
  "approval_decision_value s = ''rejected'' \<longleftrightarrow> s = D_REJECTED"
  "s = D_APPROVED \<or> s = D_REJECTED"
  by (cases s; simp)+

lemma approval_decision_fits [schema]:
  "varchar 16 (approval_decision_value s)"
  by (cases s; simp add: varchar_def)+

lemma risk_tier_stored [schema]:
  "risk_tier_value s = ''low'' \<longleftrightarrow> s = LOW"
  "risk_tier_value s = ''medium'' \<longleftrightarrow> s = MEDIUM"
  "risk_tier_value s = ''high'' \<longleftrightarrow> s = HIGH"
  "s = LOW \<or> s = MEDIUM \<or> s = HIGH"
  by (cases s; simp)+

lemma risk_tier_fits [schema]:
  "varchar 16 (risk_tier_value s)"
  by (cases s; simp add: varchar_def)+

lemma verification_outcome_stored [schema]:
  "verification_outcome_value s = ''valid'' \<longleftrightarrow> s = V_VALID"
  "verification_outcome_value s = ''unknown_serial'' \<longleftrightarrow> s = V_UNKNOWN_SERIAL"
  "verification_outcome_value s = ''secure_code_mismatch'' \<longleftrightarrow> s = V_SECURE_CODE_MISMATCH"
  "verification_outcome_value s = ''not_active'' \<longleftrightarrow> s = V_NOT_ACTIVE"
  "verification_outcome_value s = ''void'' \<longleftrightarrow> s = V_VOID"
  "verification_outcome_value s = ''expired'' \<longleftrightarrow> s = V_EXPIRED"
  "verification_outcome_value s = ''velocity_suspect'' \<longleftrightarrow> s = V_VELOCITY_SUSPECT"
  "s = V_VALID \<or> s = V_UNKNOWN_SERIAL \<or> s = V_SECURE_CODE_MISMATCH \<or> s = V_NOT_ACTIVE \<or> s = V_VOID \<or> s = V_EXPIRED \<or> s = V_VELOCITY_SUSPECT"
  by (cases s; simp)+

lemma verification_outcome_fits [schema]:
  "varchar 32 (verification_outcome_value s)"
  by (cases s; simp add: varchar_def)+

lemma role_stored [schema]:
  "role_value s = ''requester'' \<longleftrightarrow> s = REQUESTER"
  "role_value s = ''analyst'' \<longleftrightarrow> s = ANALYST"
  "role_value s = ''supervisor'' \<longleftrightarrow> s = SUPERVISOR"
  "role_value s = ''treasury'' \<longleftrightarrow> s = TREASURY"
  "role_value s = ''operator'' \<longleftrightarrow> s = OPERATOR"
  "role_value s = ''auditor'' \<longleftrightarrow> s = AUDITOR"
  "role_value s = ''admin'' \<longleftrightarrow> s = ADMIN"
  "role_value s = ''device'' \<longleftrightarrow> s = DEVICE"
  "s = REQUESTER \<or> s = ANALYST \<or> s = SUPERVISOR \<or> s = TREASURY \<or> s = OPERATOR \<or> s = AUDITOR \<or> s = ADMIN \<or> s = DEVICE"
  by (cases s; simp)+

lemma role_fits [schema]:
  "varchar 32 (role_value s)"
  by (cases s; simp add: varchar_def)+

lemma kyb_status_stored [schema]:
  "kyb_status_value s = ''unverified'' \<longleftrightarrow> s = K_UNVERIFIED"
  "kyb_status_value s = ''verified'' \<longleftrightarrow> s = K_VERIFIED"
  "kyb_status_value s = ''suspended'' \<longleftrightarrow> s = K_SUSPENDED"
  "s = K_UNVERIFIED \<or> s = K_VERIFIED \<or> s = K_SUSPENDED"
  by (cases s; simp)+

lemma kyb_status_fits [schema]:
  "varchar 32 (kyb_status_value s)"
  by (cases s; simp add: varchar_def)+

lemma opt_cell_Null [schema]:
  "opt_cell VUuid u = Null \<longleftrightarrow> u = None" "opt_cell VTime t = Null \<longleftrightarrow> t = None"
  "Null = opt_cell VUuid u \<longleftrightarrow> u = None" "Null = opt_cell VTime t \<longleftrightarrow> t = None"
  by (auto simp: opt_cell_def split: option.splits)

lemma opt_cell_eq [schema]:
  "opt_cell VUuid u = VUuid x \<longleftrightarrow> u = Some x" "opt_cell VUuid u = opt_cell VUuid v \<longleftrightarrow> u = v"
  by (auto simp: opt_cell_def split: option.splits)

lemma fits_opt_cell [schema]:
  "fits SaUUID (opt_cell VUuid u)" "fits SaDateTime (opt_cell VTime t)" "fits SaJSONB (opt_cell (VJson \<circ> JObj) j)"
  "fits (SaString n) (opt_cell VStr s) = opt_col (varchar n) s" "fits SaText (opt_cell VStr s) = opt_col text_col s"
  "fits SaBigInteger (opt_cell VInt i) = opt_col bigint i" "fits SaInteger (opt_cell VInt i) = opt_col int4 i"
  "fits (SaString n) (opt_cell (VStr \<circ> f) x) = opt_col (\<lambda>y. varchar n (f y)) x"
  by (simp_all add: opt_cell_def opt_col_def split: option.splits)

lemma less_opt_cell [schema]: "less_value (VTime a) (opt_cell VTime t) = map_option (\<lambda>b. a < b) t"
  by (simp add: opt_cell_def split: option.splits)

lemma approval_level_value_eq [schema]: "approval_level_value l = approval_level_value m \<longleftrightarrow> l = m"
  by (cases l; cases m; simp)

lemma three_valued [schema]:
  "sql_and (Some a) (Some b) = Some (a \<and> b)" "sql_or (Some a) (Some b) = Some (a \<or> b)"
  "sql_or (Some a) v = Some False \<longleftrightarrow> \<not> a \<and> v = Some False"
  by (cases a; simp)+

lemma schema_tables [schema]:
  "map_of (cat_tables schema_0002) t = (if t = ''tigerbeetle_ledger_intents'' then Some tigerbeetle_ledger_intents_table
     else map_of (concat (map new_tables create_0001)) t)"
  by (simp add: schema_0002_def add_created_def schema_0001_tables create_0002_def map_add_def ddl split: option.splits)

lemma schema_unique_indexes:
  "filter ix_unique (cat_indexes schema_0002) =
     [\<lparr>ix_name = ''ix_tariffs_category_current'', ix_table = ''tariffs'', ix_columns = [''product_category'', ''effective_from''],
       ix_unique = True, ix_where = None\<rparr>]"
  by (simp add: schema_0002_def schema_0001_def add_created_def empty_catalogue_def create_0001_def create_0002_def)

lemma unique_keys_schema [schema]:
  "unique_keys schema_0002 t els =
     map snd (table_keys els) @ (if t = ''tariffs'' then [[''product_category'', ''effective_from'']] else [])"
proof -
  have "filter (\<lambda>i. ix_unique i \<and> ix_table i = t) (cat_indexes schema_0002) =
      filter (\<lambda>i. ix_table i = t) (filter ix_unique (cat_indexes schema_0002))"
    by (simp add: conj_commute)
  then show ?thesis by (simp add: unique_keys_def schema_unique_indexes)
qed

lemmas admit_table = admit_def row_shape_def key_free_def reference_found_def key_def cell_def
  table_columns_def table_checks_def table_keys_def table_references_def ddl
  compare_def eq_value_def str_test_def

lemma opt_col_cases [schema]:
  "opt_col (foreign_key k rows) u \<longleftrightarrow> u = None \<or> (\<exists>x \<in> set rows. u = Some (k x))"
  "opt_col (\<lambda>x. True) v" "opt_col ((<) a) w \<longleftrightarrow> (\<forall>z. w = Some z \<longrightarrow> a < z)" "int4 1"
  by (auto simp: opt_col_def foreign_key_def int4_def split: option.splits)

lemmas model_columns [schema] = unused_def foreign_key_def list_all_iff list_ex_iff image_iff

lemma admit_company:
  "admit schema_0002 (store_of db) ''companies'' (company_row r) = Inr () \<longleftrightarrow> company_types r \<and> company_checks db r"
  by (auto simp: admit_table companies_table_def company_row_def company_types_def company_checks_def schema)

lemma admit_principal:
  "admit schema_0002 (store_of db) ''principals'' (principal_row r) = Inr () \<longleftrightarrow> principal_types r \<and> principal_checks db r"
  by (auto simp: admit_table principals_table_def principal_row_def principal_types_def principal_checks_def schema)

lemma admit_credential:
  "admit schema_0002 (store_of db) ''credentials'' (credential_row r) = Inr () \<longleftrightarrow> credential_types r \<and> credential_checks db r"
  by (auto simp: admit_table credentials_table_def credential_row_def credential_types_def credential_checks_def schema)

lemma admit_tariff:
  "admit schema_0002 (store_of db) ''tariffs'' (tariff_row r) = Inr () \<longleftrightarrow> tariff_types r \<and> tariff_checks db r"
  by (auto simp: admit_table tariffs_table_def tariff_row_def tariff_types_def tariff_checks_def schema)

lemma admit_order:
  "admit schema_0002 (store_of db) ''orders'' (order_row r) = Inr () \<longleftrightarrow> order_types r \<and> order_checks db r"
  by (auto simp: admit_table orders_table_def order_row_def order_types_def order_checks_def schema)

lemma admit_order_transition:
  "admit schema_0002 (store_of db) ''order_transitions'' (order_transition_row r) = Inr () \<longleftrightarrow> order_transition_types r \<and> order_transition_checks db r"
  by (auto simp: admit_table order_transitions_table_def order_transition_row_def order_transition_types_def order_transition_checks_def schema)

lemma admit_approval:
  "admit schema_0002 (store_of db) ''approvals'' (approval_row r) = Inr () \<longleftrightarrow> approval_types r \<and> approval_checks db r"
  by (auto simp: admit_table approvals_table_def approval_row_def approval_types_def approval_checks_def schema)

lemma admit_payment_intent:
  "admit schema_0002 (store_of db) ''payment_intents'' (payment_intent_row r) = Inr () \<longleftrightarrow> payment_intent_types r \<and> payment_intent_checks db r"
  by (auto simp: admit_table payment_intents_table_def payment_intent_row_def payment_intent_types_def payment_intent_checks_def schema)

lemma admit_payment_receipt:
  "admit schema_0002 (store_of db) ''payment_receipts'' (payment_receipt_row r) = Inr () \<longleftrightarrow> payment_receipt_types r \<and> payment_receipt_checks db r"
  by (auto simp: admit_table payment_receipts_table_def payment_receipt_row_def payment_receipt_types_def payment_receipt_checks_def schema)

lemma admit_tb_ledger_intent:
  "admit schema_0002 (store_of db) ''tigerbeetle_ledger_intents'' (tb_ledger_intent_row r) = Inr () \<longleftrightarrow> tb_ledger_intent_types r \<and> tb_ledger_intent_checks db r"
  by (auto simp: admit_table tigerbeetle_ledger_intents_table_def tb_ledger_intent_row_def tb_ledger_intent_types_def tb_ledger_intent_checks_def schema)

lemma admit_journal:
  "j_reverses_journal_id r \<noteq> Some (j_id r) \<Longrightarrow> admit schema_0002 (store_of db) ''journals'' (journal_row r) = Inr () \<longleftrightarrow> journal_types r \<and> journal_checks db r"
  by (auto simp: admit_table journals_table_def journal_row_def journal_types_def journal_checks_def schema)

lemma admit_ledger_entry:
  "admit schema_0002 (store_of db) ''ledger_entries'' (ledger_entry_row r) = Inr () \<longleftrightarrow> ledger_entry_types r \<and> ledger_entry_checks db r"
  by (auto simp: admit_table ledger_entries_table_def ledger_entry_row_def ledger_entry_types_def ledger_entry_checks_def schema)

lemma admit_stamp_batch:
  "admit schema_0002 (store_of db) ''stamp_batches'' (stamp_batch_row r) = Inr () \<longleftrightarrow> stamp_batch_types r \<and> stamp_batch_checks db r"
  by (auto simp: admit_table stamp_batches_table_def stamp_batch_row_def stamp_batch_types_def stamp_batch_checks_def schema)

lemma admit_stamp:
  "admit schema_0002 (store_of db) ''stamps'' (stamp_row r) = Inr () \<longleftrightarrow> stamp_types r \<and> stamp_checks db r"
  by (auto simp: admit_table stamps_table_def stamp_row_def stamp_types_def stamp_checks_def schema)

lemma admit_stamp_event:
  "admit schema_0002 (store_of db) ''stamp_events'' (stamp_event_row r) = Inr () \<longleftrightarrow> stamp_event_types r \<and> stamp_event_checks db r"
  by (auto simp: admit_table stamp_events_table_def stamp_event_row_def stamp_event_types_def stamp_event_checks_def schema)

lemma admit_inspection:
  "admit schema_0002 (store_of db) ''inspections'' (inspection_row r) = Inr () \<longleftrightarrow> inspection_types r \<and> inspection_checks db r"
  by (auto simp: admit_table inspections_table_def inspection_row_def inspection_types_def inspection_checks_def schema)

lemma admit_verification:
  "admit schema_0002 (store_of db) ''verifications'' (verification_row r) = Inr () \<longleftrightarrow> verification_types r \<and> verification_checks db r"
  by (auto simp: admit_table verifications_table_def verification_row_def verification_types_def verification_checks_def schema)

lemma admit_idempotency_record:
  "admit schema_0002 (store_of db) ''idempotency_records'' (idempotency_record_row r) = Inr () \<longleftrightarrow> idempotency_record_types r \<and> idempotency_record_checks db r"
  by (auto simp: admit_table idempotency_records_table_def idempotency_record_row_def idempotency_record_types_def idempotency_record_checks_def schema)

lemma admit_outbox_message:
  "admit schema_0002 (store_of db) ''outbox_messages'' (outbox_message_row r) = Inr () \<longleftrightarrow> outbox_message_types r \<and> outbox_message_checks db r"
  by (auto simp: admit_table outbox_messages_table_def outbox_message_row_def outbox_message_types_def outbox_message_checks_def schema)

lemma admit_audit_event:
  "bigint (ae_seq r) \<Longrightarrow> admit schema_0002 (store_of db) ''audit_events'' (audit_event_row r) = Inr () \<longleftrightarrow> audit_event_types r \<and> audit_event_checks db r"
  by (auto simp: admit_table audit_events_table_def audit_event_row_def audit_event_types_def audit_event_checks_def schema)

lemma admit_reconciliation_run:
  "admit schema_0002 (store_of db) ''reconciliation_runs'' (reconciliation_run_row r) = Inr () \<longleftrightarrow> reconciliation_run_types r \<and> reconciliation_run_checks db r"
  by (auto simp: admit_table reconciliation_runs_table_def reconciliation_run_row_def reconciliation_run_types_def reconciliation_run_checks_def schema)

section \<open>What the triggers protect\<close>

lemma each_keeps:
  "(\<And>x s s'. x \<in> set xs \<Longrightarrow> f x s = Inr s' \<Longrightarrow> g s' = g s) \<Longrightarrow> each f xs s = Inr s' \<Longrightarrow> g s' = g s"
  by (induction xs arbitrary: s) (auto simp: sql_bind_Inr, metis)

lemma each_shape: "each (\<lambda>r st. sql_bind (f r) (\<lambda>_. Inr st)) xs st = Inr st' \<Longrightarrow> st' = st"
  by (induction xs) (auto simp: sql_bind_Inr)

lemma append_only_fired:
  assumes "t \<in> set APPEND_ONLY_TABLES"
  shows "Reject_mutation \<in> set (fired schema_0002 Update t)" "Reject_mutation \<in> set (fired schema_0002 Delete t)"
proof -
  have "set (append_only_triggers t) \<subseteq> set (cat_triggers schema_0002)"
    using assms by (auto simp: schema_0002_def schema_0001_def)
  moreover have "map_of (cat_functions schema_0002) ''taxstamp_reject_mutation'' = Some Reject_mutation"
    by (simp add: schema_0002_def schema_0001_def)
  ultimately show "Reject_mutation \<in> set (fired schema_0002 Update t)" "Reject_mutation \<in> set (fired schema_0002 Delete t)"
    by (force simp: fired_def append_only_triggers_def)+
qed

lemma reject_stops: "Reject_mutation \<in> set bs \<Longrightarrow> \<not> list_all (lets_pass r r') bs"
  by (force simp: list_all_iff)

lemma delete_keeps_history:
  "t \<in> set APPEND_ONLY_TABLES \<Longrightarrow> delete_rows schema_0002 n u p st = Inr st' \<Longrightarrow> st' t = st t"
proof (induction n arbitrary: u p st st')
  case (Suc n)
  show ?case
  proof (cases "filter p (st u) = []")
    case True
    then show ?thesis using Suc.prems(2) by simp
  next
    case False
    let ?gone = "filter p (st u)"
    let ?step = "\<lambda>(v, cs, rs, d) st. case d of
        RESTRICT \<Rightarrow> if list_ex (refers_to ?gone cs rs) (st v) then Inl Integrity_violation else Inr st
      | CASCADE \<Rightarrow> delete_rows schema_0002 n v (refers_to ?gone cs rs) st"
    have pass: "list_all (\<lambda>r. list_all (lets_pass r r) (fired schema_0002 Delete u)) ?gone"
      and run: "each ?step (references_to schema_0002 u) (st(u := filter (\<lambda>r. \<not> p r) (st u))) = Inr st'"
      using Suc.prems(2) False by (auto simp: Let_def split: if_splits)
    have "u \<noteq> t"
      using pass False append_only_fired(2) [OF Suc.prems(1)] reject_stops
      by (metis list.pred_inject(2) neq_Nil_conv)
    moreover have "st' t = (st(u := filter (\<lambda>r. \<not> p r) (st u))) t"
      using run by (rule each_keeps [rotated])
        (use Suc.IH [OF Suc.prems(1)] in \<open>auto split: on_delete.splits if_splits prod.splits\<close>)
    ultimately show ?thesis by simp
  qed
qed simp

lemma update_keeps_history:
  assumes "t \<in> set APPEND_ONLY_TABLES" "run_update schema_0002 u p f st = Inr st'"
  shows "st' t = st t"
proof (cases "u = t \<and> filter p (st t) \<noteq> []")
  case True
  then have "\<not> list_all (\<lambda>r. list_all (lets_pass r (f r)) (fired schema_0002 Update t)) (filter p (st t))"
    using append_only_fired(1) [OF assms(1)] reject_stops by (metis list.pred_inject(2) neq_Nil_conv)
  with True assms(2) show ?thesis by (auto simp: run_update_def Let_def split: option.splits)
next
  case False
  have st': "st' = st(u := update_where p f (st u))"
    using assms(2) by (auto simp: run_update_def Let_def sql_bind_Inr dest!: each_shape split: option.splits if_splits)
  show ?thesis
  proof (cases "u = t")
    case True
    then have "\<forall>r \<in> set (st t). \<not> p r" using False by (auto simp: filter_empty_conv)
    then have "update_where p f (st t) = st t" by (auto simp: update_where_def intro: map_idI)
    then show ?thesis using st' True by simp
  qed (simp add: st')
qed

lemma dml_keeps_history:
  assumes "t \<in> set APPEND_ONLY_TABLES" "run_dml schema_0002 s st = Inr st'"
  shows "\<exists>new. st' t = st t @ new"
proof (cases s)
  case (Insert_row u row)
  then show ?thesis using assms(2) by (auto simp: run_insert_def sql_bind_Inr)
qed (use assms in \<open>auto dest: delete_keeps_history update_keeps_history\<close>)

text \<open>The terms of an intent: the columns that the second migration declares immutable.\<close>

definition same_terms :: "row \<Rightarrow> row \<Rightarrow> bool" where
  "same_terms r r' = list_all (\<lambda>c. cell r c = cell r' c) IMMUTABLE_COLUMNS"

lemma same_terms_refl: "same_terms r r"
  by (simp add: same_terms_def list_all_iff)

lemma same_terms_trans: "same_terms r r' \<Longrightarrow> same_terms r' r'' \<Longrightarrow> same_terms r r''"
  by (auto simp: same_terms_def list_all_iff)

lemma each_rows_shrink:
  "(\<And>x s s'. f x s = Inr s' \<Longrightarrow> set (s' t) \<subseteq> set (s t)) \<Longrightarrow> each f xs s = Inr s' \<Longrightarrow> set ((s' :: store) t) \<subseteq> set (s t)"
  by (induction xs arbitrary: s) (auto simp: sql_bind_Inr, blast)

lemma delete_rows_shrinks: "delete_rows cat n u p st = Inr st' \<Longrightarrow> set (st' t) \<subseteq> set (st t)"
proof (induction n arbitrary: u p st st')
  case (Suc n)
  have "set (st'' t) \<subseteq> set ((st(u := filter (\<lambda>r. \<not> p r) (st u))) t)"
    if "each (\<lambda>(v, cs, rs, d) st. case d of
        RESTRICT \<Rightarrow> if list_ex (refers_to gone cs rs) (st v) then Inl Integrity_violation else Inr st
      | CASCADE \<Rightarrow> delete_rows cat n v (refers_to gone cs rs) st) refs (st(u := filter (\<lambda>r. \<not> p r) (st u))) = Inr st''"
    for gone refs st''
    using that by (rule each_rows_shrink [rotated])
      (use Suc.IH in \<open>auto split: on_delete.splits if_splits prod.splits\<close>)
  from this [of "filter p (st u)" "references_to cat u" st'] show ?case
    using Suc.prems by (auto simp: Let_def split: if_splits)
qed simp

lemma intents_guarded: "Immutable_fields IMMUTABLE_COLUMNS \<in> set (fired schema_0002 Update ''tigerbeetle_ledger_intents'')"
proof -
  have "map_of (cat_functions schema_0002) ''taxstamp_tigerbeetle_intent_immutable_fields'' = Some (Immutable_fields IMMUTABLE_COLUMNS)"
    by (simp add: schema_0002_def schema_0001_def)
  then show ?thesis by (simp add: fired_def schema_0002_def)
qed

lemma update_keeps_terms:
  assumes "run_update schema_0002 u p f st = Inr st'" "r' \<in> set (st' ''tigerbeetle_ledger_intents'')"
  shows "\<exists>r \<in> set (st ''tigerbeetle_ledger_intents''). same_terms r r'"
proof -
  let ?t = "''tigerbeetle_ledger_intents''"
  have st': "st' = st(u := update_where p f (st u))"
    and pass: "list_all (\<lambda>r. list_all (lets_pass r (f r)) (fired schema_0002 Update u)) (filter p (st u))"
    using assms(1) by (auto simp: run_update_def Let_def sql_bind_Inr dest!: each_shape split: option.splits if_splits)
  have terms: "same_terms r (f r)" if "u = ?t" "r \<in> set (st ?t)" "p r" for r
    using pass that intents_guarded by (force simp: list_all_iff same_terms_def)
  show ?thesis
  proof (cases "u = ?t")
    case True
    then obtain r where "r \<in> set (st ?t)" "r' = (if p r then f r else r)"
      using assms(2) st' by (auto simp: update_where_def)
    then show ?thesis using terms [OF True] same_terms_refl by (cases "p r") auto
  qed (use assms(2) st' same_terms_refl in auto)
qed

lemma dml_keeps_terms:
  assumes "run_dml schema_0002 s st = Inr st'" "r' \<in> set (st' ''tigerbeetle_ledger_intents'')"
  shows "(\<exists>r \<in> set (st ''tigerbeetle_ledger_intents''). same_terms r r') \<or> s = Insert_row ''tigerbeetle_ledger_intents'' r'"
proof (cases s)
  case (Insert_row u row)
  then have "r' \<in> set (st ''tigerbeetle_ledger_intents'') \<or> u = ''tigerbeetle_ledger_intents'' \<and> r' = row"
    using assms by (auto simp: run_insert_def sql_bind_Inr split: if_splits)
  then show ?thesis using Insert_row same_terms_refl by blast
next
  case (Update_rows u p f)
  then show ?thesis using assms update_keeps_terms by simp
next
  case (Delete_rows u p)
  then have "set (st' ''tigerbeetle_ledger_intents'') \<subseteq> set (st ''tigerbeetle_ledger_intents'')"
    using assms(1) delete_rows_shrinks by simp
  then show ?thesis using assms(2) same_terms_refl by blast
qed

lemma script_keeps_history:
  assumes "t \<in> set APPEND_ONLY_TABLES"
  shows "each (run_dml schema_0002) ss st = Inr st' \<Longrightarrow> \<exists>new. st' t = st t @ new"
proof (induction ss arbitrary: st)
  case (Cons s ss)
  then obtain st1 where "run_dml schema_0002 s st = Inr st1" "each (run_dml schema_0002) ss st1 = Inr st'"
    by (auto simp: sql_bind_Inr)
  then show ?case using Cons.IH [of st1] dml_keeps_history [OF assms, of s st st1] by auto
qed simp

lemma script_keeps_terms:
  "each (run_dml schema_0002) ss st = Inr st' \<Longrightarrow> r' \<in> set (st' ''tigerbeetle_ledger_intents'') \<Longrightarrow>
   (\<exists>r \<in> set (st ''tigerbeetle_ledger_intents''). same_terms r r') \<or>
   (\<exists>r. Insert_row ''tigerbeetle_ledger_intents'' r \<in> set ss \<and> same_terms r r')"
proof (induction ss arbitrary: st)
  case Nil
  then show ?case using same_terms_refl by auto
next
  case (Cons s ss)
  obtain st1 where one: "run_dml schema_0002 s st = Inr st1" and rest: "each (run_dml schema_0002) ss st1 = Inr st'"
    using Cons.prems(1) by (auto simp: sql_bind_Inr)
  consider r1 where "r1 \<in> set (st1 ''tigerbeetle_ledger_intents'')" "same_terms r1 r'"
    | r where "Insert_row ''tigerbeetle_ledger_intents'' r \<in> set ss" "same_terms r r'"
    using Cons.IH [OF rest Cons.prems(2)] by blast
  then show ?case
  proof cases
    case 1
    from dml_keeps_terms [OF one 1(1)] show ?thesis using 1(2) same_terms_trans by auto
  qed auto
qed

text \<open>Cascades end after one step: the tables they reach are not referred to.\<close>

lemma cascade_tables:
  "(u, cs, rs, CASCADE) \<in> set (references_to schema_0002 t) \<Longrightarrow>
   u \<in> {''credentials'', ''approvals'', ''order_transitions'', ''stamp_events''}"
proof -
  have "list_all (\<lambda>(u, els). list_all (\<lambda>(cs, t, rs, d). d = CASCADE \<longrightarrow>
      u \<in> {''credentials'', ''approvals'', ''order_transitions'', ''stamp_events''}) (table_references els)) (cat_tables schema_0002)"
    by code_simp
  moreover assume "(u, cs, rs, CASCADE) \<in> set (references_to schema_0002 t)"
  ultimately show ?thesis by (fastforce simp: references_to_def list_all_iff)
qed

lemma cascade_leaf:
  assumes "u \<in> {''credentials'', ''approvals'', ''order_transitions'', ''stamp_events''}"
  shows "references_to schema_0002 u = []"
proof -
  have "list_all (\<lambda>(v, els). list_all (\<lambda>(cs, t, rs, d).
      t \<notin> {''credentials'', ''approvals'', ''order_transitions'', ''stamp_events''}) (table_references els)) (cat_tables schema_0002)"
    by code_simp
  with assms show ?thesis by (fastforce simp: references_to_def list_all_iff filter_empty_conv)
qed

lemma delete_leaf:
  "references_to cat u = [] \<Longrightarrow> delete_rows cat (Suc n) u p st = delete_rows cat 1 u p st"
  by (simp add: Let_def)

lemma each_cong_set: "(\<And>x s. x \<in> set xs \<Longrightarrow> f x s = g x s) \<Longrightarrow> each f xs s = each g xs s"
  by (induction xs arbitrary: s) (auto simp: sql_bind_def split: sum.splits)

lemma cascades_are_shallow:
  "delete_rows schema_0002 (Suc (Suc n)) t p st = delete_rows schema_0002 2 t p st"
proof -
  have step: "(case d of RESTRICT \<Rightarrow> x | CASCADE \<Rightarrow> delete_rows schema_0002 (Suc n) u q s) =
      (case d of RESTRICT \<Rightarrow> x | CASCADE \<Rightarrow> delete_rows schema_0002 1 u q s)"
    if "(u, cs, rs, d) \<in> set (references_to schema_0002 t)" for u cs rs d x q s
    using that delete_leaf [OF cascade_leaf [OF cascade_tables], of u cs rs t n q s] by (cases d) auto
  have "each (\<lambda>(u, cs, rs, d) s. case d of
        RESTRICT \<Rightarrow> if list_ex (refers_to gone cs rs) (s u) then Inl Integrity_violation else Inr s
      | CASCADE \<Rightarrow> delete_rows schema_0002 (Suc n) u (refers_to gone cs rs) s) (references_to schema_0002 t) s1 =
    each (\<lambda>(u, cs, rs, d) s. case d of
        RESTRICT \<Rightarrow> if list_ex (refers_to gone cs rs) (s u) then Inl Integrity_violation else Inr s
      | CASCADE \<Rightarrow> delete_rows schema_0002 1 u (refers_to gone cs rs) s) (references_to schema_0002 t) s1" for gone s1
    by (rule each_cong_set) (clarsimp simp only: split_conv, rule step)
  then show ?thesis by (simp only: delete_rows.simps numeral_2_eq_2 One_nat_def)
qed

text \<open>
  The foreign keys of the order history and of the stamp events say \<^verbatim>\<open>ON DELETE CASCADE\<close>, but the cascade meets the trigger: an order
  that has a transition cannot be deleted.
\<close>

lemma each_reaches:
  "each f xs s = Inr s' \<Longrightarrow> x \<in> set xs \<Longrightarrow> (\<And>y s s'. f y s = Inr s' \<Longrightarrow> g s' = g s) \<Longrightarrow>
   \<exists>s1 s2. f x s1 = Inr s2 \<and> g s1 = g s"
proof (induction xs arbitrary: s)
  case (Cons y ys)
  obtain s1 where one: "f y s = Inr s1" and rest: "each f ys s1 = Inr s'"
    using Cons.prems(1) by (auto simp: sql_bind_Inr)
  show ?case
  proof (cases "x = y")
    case False
    then show ?thesis using Cons.IH [OF rest _ Cons.prems(3)] Cons.prems(2,3) one by fastforce
  qed (use one in blast)
qed simp

lemma references_toI:
  assumes "(u, els) \<in> set (cat_tables cat)" and "(cs, t, rs, d) \<in> set (table_references els)"
  shows "(u, cs, rs, d) \<in> set (references_to cat t)"
  using assms
  by (auto simp: references_to_def intro!: bexI [of _ "(u, els)"] image_eqI [of _ _ "(cs, t, rs, d)"])

lemma transitions_refer_to_orders:
  "(''order_transitions'', [''order_id''], [''id''], CASCADE) \<in> set (references_to schema_0002 ''orders'')"
proof -
  have "map_of (cat_tables schema_0002) ''order_transitions'' = Some order_transitions_table"
    by (simp add: schema_tables ddl)
  then have "(''order_transitions'', order_transitions_table) \<in> set (cat_tables schema_0002)" by (rule map_of_SomeD)
  moreover have "([''order_id''], ''orders'', [''id''], CASCADE) \<in> set (table_references order_transitions_table)"
    by (simp add: order_transitions_table_def table_references_def)
  ultimately show ?thesis by (rule references_toI)
qed

lemma order_with_history_stays:
  assumes "ord \<in> set (st ''orders'')" "p ord" and tr: "tr \<in> set (st ''order_transitions'')"
    and ref: "cell tr ''order_id'' = cell ord ''id''" "cell ord ''id'' \<noteq> Null"
  shows "delete_rows schema_0002 n ''orders'' p st \<noteq> Inr st'"
proof
  assume del: "delete_rows schema_0002 n ''orders'' p st = Inr st'"
  then obtain m where n: "n = Suc m" by (cases n) auto
  let ?gone = "filter p (st ''orders'')"
  let ?step = "\<lambda>(v, cs, rs, d) st. case d of
      RESTRICT \<Rightarrow> if list_ex (refers_to ?gone cs rs) (st v) then Inl Integrity_violation else Inr st
    | CASCADE \<Rightarrow> delete_rows schema_0002 m v (refers_to ?gone cs rs) st"
  have t: "''order_transitions'' \<in> set APPEND_ONLY_TABLES" by (simp add: APPEND_ONLY_TABLES_def)
  have gone: "ord \<in> set ?gone" using assms(1,2) by simp
  then have "?gone \<noteq> []" by (metis empty_iff empty_set)
  then have "each ?step (references_to schema_0002 ''orders'') (st(''orders'' := filter (\<lambda>r. \<not> p r) (st ''orders''))) = Inr st'"
    using del n by (auto simp: Let_def split: if_splits)
  moreover have "s' ''order_transitions'' = s ''order_transitions''" if "?step y s = Inr s'" for y s s'
    using that delete_keeps_history [OF t] by (auto split: on_delete.splits if_splits prod.splits)
  ultimately obtain s1 s2 where "?step (''order_transitions'', [''order_id''], [''id''], CASCADE) s1 = Inr s2"
      "s1 ''order_transitions'' = (st(''orders'' := filter (\<lambda>r. \<not> p r) (st ''orders''))) ''order_transitions''"
    using each_reaches [OF _ transitions_refer_to_orders, where g = "\<lambda>s. s ''order_transitions''"] by blast
  then have run: "delete_rows schema_0002 m ''order_transitions'' (refers_to ?gone [''order_id''] [''id'']) s1 = Inr s2"
    and s1: "s1 ''order_transitions'' = st ''order_transitions''" by simp_all
  have "refers_to ?gone [''order_id''] [''id''] tr"
    using gone ref by (auto simp: refers_to_def key_def list_ex_iff)
  then have hit: "tr \<in> set (filter (refers_to ?gone [''order_id''] [''id'']) (s1 ''order_transitions''))"
    using tr s1 by simp
  then have "\<not> list_all (\<lambda>r. list_all (lets_pass r r) (fired schema_0002 Delete ''order_transitions''))
      (filter (refers_to ?gone [''order_id''] [''id'']) (s1 ''order_transitions''))"
    using reject_stops [OF append_only_fired(2) [OF t]] by (auto simp: list_all_iff)
  then show False using run hit by (cases m) (auto simp: Let_def filter_empty_conv split: if_splits)
qed

lemma migrated: "run_operations (upgrade_0001 @ upgrade_0002) empty_catalogue = Inr cat \<longleftrightarrow> cat = schema_0002"
  by (auto simp: run_operations_append upgrade_0001_ok upgrade_0002_ok)

section \<open>The interface of a stored table\<close>

text \<open>
  A table of the model that is stored in a table of the schema: its rows are written one by one, and the two judge alike of the
  rows that can be written at all.  Then an insertion of the model is an \<^verbatim>\<open>INSERT\<close> that succeeds.
\<close>

locale stored_table =
  fixes name :: string and rows :: "db \<Rightarrow> 'r list" and enc :: "'r \<Rightarrow> row"
    and typed :: "'r \<Rightarrow> bool" and sound :: "db \<Rightarrow> 'r \<Rightarrow> bool" and writable :: "'r \<Rightarrow> bool"
  assumes stored: "store_of db name = map enc (rows db)"
    and judged: "writable r \<Longrightarrow> admit schema_0002 (store_of db) name (enc r) = Inr () \<longleftrightarrow> typed r \<and> sound db r"
begin

lemma inserts:
  assumes "writable r"
  shows "run_insert schema_0002 name (enc r) (store_of db) = Inr st \<longleftrightarrow>
    typed r \<and> sound db r \<and> st = (store_of db)(name := map enc (rows db @ [r]))"
  using judged [OF assms, of db] by (auto simp: run_insert_def sql_bind_Inr stored)

end

interpretation company_store: stored_table "''companies''" companies company_row company_types company_checks "\<lambda>r. True"
  by unfold_locales (simp_all add: store_of_tables admit_company)

interpretation principal_store: stored_table "''principals''" principals principal_row principal_types principal_checks "\<lambda>r. True"
  by unfold_locales (simp_all add: store_of_tables admit_principal)

interpretation credential_store: stored_table "''credentials''" credentials credential_row credential_types credential_checks "\<lambda>r. True"
  by unfold_locales (simp_all add: store_of_tables admit_credential)

interpretation tariff_store: stored_table "''tariffs''" tariffs tariff_row tariff_types tariff_checks "\<lambda>r. True"
  by unfold_locales (simp_all add: store_of_tables admit_tariff)

interpretation order_store: stored_table "''orders''" orders order_row order_types order_checks "\<lambda>r. True"
  by unfold_locales (simp_all add: store_of_tables admit_order)

interpretation order_transition_store: stored_table "''order_transitions''" order_transitions order_transition_row order_transition_types order_transition_checks "\<lambda>r. True"
  by unfold_locales (simp_all add: store_of_tables admit_order_transition)

interpretation approval_store: stored_table "''approvals''" approvals approval_row approval_types approval_checks "\<lambda>r. True"
  by unfold_locales (simp_all add: store_of_tables admit_approval)

interpretation payment_intent_store: stored_table "''payment_intents''" payment_intents payment_intent_row payment_intent_types payment_intent_checks "\<lambda>r. True"
  by unfold_locales (simp_all add: store_of_tables admit_payment_intent)

interpretation payment_receipt_store: stored_table "''payment_receipts''" payment_receipts payment_receipt_row payment_receipt_types payment_receipt_checks "\<lambda>r. True"
  by unfold_locales (simp_all add: store_of_tables admit_payment_receipt)

interpretation tb_ledger_intent_store: stored_table "''tigerbeetle_ledger_intents''" tb_ledger_intents tb_ledger_intent_row tb_ledger_intent_types tb_ledger_intent_checks "\<lambda>r. True"
  by unfold_locales (simp_all add: store_of_tables admit_tb_ledger_intent)

interpretation journal_store: stored_table "''journals''" journals journal_row journal_types journal_checks "\<lambda>r. j_reverses_journal_id r \<noteq> Some (j_id r)"
  by unfold_locales (simp_all add: store_of_tables admit_journal)

interpretation ledger_entry_store: stored_table "''ledger_entries''" ledger_entries ledger_entry_row ledger_entry_types ledger_entry_checks "\<lambda>r. True"
  by unfold_locales (simp_all add: store_of_tables admit_ledger_entry)

interpretation stamp_batch_store: stored_table "''stamp_batches''" stamp_batches stamp_batch_row stamp_batch_types stamp_batch_checks "\<lambda>r. True"
  by unfold_locales (simp_all add: store_of_tables admit_stamp_batch)

interpretation stamp_store: stored_table "''stamps''" stamps stamp_row stamp_types stamp_checks "\<lambda>r. True"
  by unfold_locales (simp_all add: store_of_tables admit_stamp)

interpretation stamp_event_store: stored_table "''stamp_events''" stamp_events stamp_event_row stamp_event_types stamp_event_checks "\<lambda>r. True"
  by unfold_locales (simp_all add: store_of_tables admit_stamp_event)

interpretation inspection_store: stored_table "''inspections''" inspections inspection_row inspection_types inspection_checks "\<lambda>r. True"
  by unfold_locales (simp_all add: store_of_tables admit_inspection)

interpretation verification_store: stored_table "''verifications''" verifications verification_row verification_types verification_checks "\<lambda>r. True"
  by unfold_locales (simp_all add: store_of_tables admit_verification)

interpretation idempotency_record_store: stored_table "''idempotency_records''" idempotency_records idempotency_record_row idempotency_record_types idempotency_record_checks "\<lambda>r. True"
  by unfold_locales (simp_all add: store_of_tables admit_idempotency_record)

interpretation outbox_message_store: stored_table "''outbox_messages''" outbox_messages outbox_message_row outbox_message_types outbox_message_checks "\<lambda>r. True"
  by unfold_locales (simp_all add: store_of_tables admit_outbox_message)

interpretation audit_event_store: stored_table "''audit_events''" audit_events audit_event_row audit_event_types audit_event_checks "\<lambda>r. bigint (ae_seq r)"
  by unfold_locales (simp_all add: store_of_tables admit_audit_event)

interpretation reconciliation_run_store: stored_table "''reconciliation_runs''" reconciliation_runs reconciliation_run_row reconciliation_run_types reconciliation_run_checks "\<lambda>r. True"
  by unfold_locales (simp_all add: store_of_tables admit_reconciliation_run)

text \<open>A row of any table, its table and row of the schema, and what \<open>Models\<close> demands of it.\<close>

datatype any_row =
    Row_company company
  | Row_principal principal
  | Row_credential credential
  | Row_tariff tariff
  | Row_order order
  | Row_order_transition order_transition
  | Row_approval approval
  | Row_payment_intent payment_intent
  | Row_payment_receipt payment_receipt
  | Row_tb_ledger_intent tb_ledger_intent
  | Row_journal journal
  | Row_ledger_entry ledger_entry
  | Row_stamp_batch stamp_batch
  | Row_stamp stamp
  | Row_stamp_event stamp_event
  | Row_inspection inspection
  | Row_verification verification
  | Row_idempotency_record idempotency_record
  | Row_outbox_message outbox_message
  | Row_audit_event audit_event
  | Row_reconciliation_run reconciliation_run

fun row_table :: "any_row \<Rightarrow> string" where
  "row_table (Row_company r) = ''companies''"
| "row_table (Row_principal r) = ''principals''"
| "row_table (Row_credential r) = ''credentials''"
| "row_table (Row_tariff r) = ''tariffs''"
| "row_table (Row_order r) = ''orders''"
| "row_table (Row_order_transition r) = ''order_transitions''"
| "row_table (Row_approval r) = ''approvals''"
| "row_table (Row_payment_intent r) = ''payment_intents''"
| "row_table (Row_payment_receipt r) = ''payment_receipts''"
| "row_table (Row_tb_ledger_intent r) = ''tigerbeetle_ledger_intents''"
| "row_table (Row_journal r) = ''journals''"
| "row_table (Row_ledger_entry r) = ''ledger_entries''"
| "row_table (Row_stamp_batch r) = ''stamp_batches''"
| "row_table (Row_stamp r) = ''stamps''"
| "row_table (Row_stamp_event r) = ''stamp_events''"
| "row_table (Row_inspection r) = ''inspections''"
| "row_table (Row_verification r) = ''verifications''"
| "row_table (Row_idempotency_record r) = ''idempotency_records''"
| "row_table (Row_outbox_message r) = ''outbox_messages''"
| "row_table (Row_audit_event r) = ''audit_events''"
| "row_table (Row_reconciliation_run r) = ''reconciliation_runs''"

fun row_cells :: "any_row \<Rightarrow> row" where
  "row_cells (Row_company r) = company_row r"
| "row_cells (Row_principal r) = principal_row r"
| "row_cells (Row_credential r) = credential_row r"
| "row_cells (Row_tariff r) = tariff_row r"
| "row_cells (Row_order r) = order_row r"
| "row_cells (Row_order_transition r) = order_transition_row r"
| "row_cells (Row_approval r) = approval_row r"
| "row_cells (Row_payment_intent r) = payment_intent_row r"
| "row_cells (Row_payment_receipt r) = payment_receipt_row r"
| "row_cells (Row_tb_ledger_intent r) = tb_ledger_intent_row r"
| "row_cells (Row_journal r) = journal_row r"
| "row_cells (Row_ledger_entry r) = ledger_entry_row r"
| "row_cells (Row_stamp_batch r) = stamp_batch_row r"
| "row_cells (Row_stamp r) = stamp_row r"
| "row_cells (Row_stamp_event r) = stamp_event_row r"
| "row_cells (Row_inspection r) = inspection_row r"
| "row_cells (Row_verification r) = verification_row r"
| "row_cells (Row_idempotency_record r) = idempotency_record_row r"
| "row_cells (Row_outbox_message r) = outbox_message_row r"
| "row_cells (Row_audit_event r) = audit_event_row r"
| "row_cells (Row_reconciliation_run r) = reconciliation_run_row r"

fun row_types :: "any_row \<Rightarrow> bool" where
  "row_types (Row_company r) = company_types r"
| "row_types (Row_principal r) = principal_types r"
| "row_types (Row_credential r) = credential_types r"
| "row_types (Row_tariff r) = tariff_types r"
| "row_types (Row_order r) = order_types r"
| "row_types (Row_order_transition r) = order_transition_types r"
| "row_types (Row_approval r) = approval_types r"
| "row_types (Row_payment_intent r) = payment_intent_types r"
| "row_types (Row_payment_receipt r) = payment_receipt_types r"
| "row_types (Row_tb_ledger_intent r) = tb_ledger_intent_types r"
| "row_types (Row_journal r) = journal_types r"
| "row_types (Row_ledger_entry r) = ledger_entry_types r"
| "row_types (Row_stamp_batch r) = stamp_batch_types r"
| "row_types (Row_stamp r) = stamp_types r"
| "row_types (Row_stamp_event r) = stamp_event_types r"
| "row_types (Row_inspection r) = inspection_types r"
| "row_types (Row_verification r) = verification_types r"
| "row_types (Row_idempotency_record r) = idempotency_record_types r"
| "row_types (Row_outbox_message r) = outbox_message_types r"
| "row_types (Row_audit_event r) = audit_event_types r"
| "row_types (Row_reconciliation_run r) = reconciliation_run_types r"

fun row_checks :: "db \<Rightarrow> any_row \<Rightarrow> bool" where
  "row_checks db (Row_company r) = company_checks db r"
| "row_checks db (Row_principal r) = principal_checks db r"
| "row_checks db (Row_credential r) = credential_checks db r"
| "row_checks db (Row_tariff r) = tariff_checks db r"
| "row_checks db (Row_order r) = order_checks db r"
| "row_checks db (Row_order_transition r) = order_transition_checks db r"
| "row_checks db (Row_approval r) = approval_checks db r"
| "row_checks db (Row_payment_intent r) = payment_intent_checks db r"
| "row_checks db (Row_payment_receipt r) = payment_receipt_checks db r"
| "row_checks db (Row_tb_ledger_intent r) = tb_ledger_intent_checks db r"
| "row_checks db (Row_journal r) = journal_checks db r"
| "row_checks db (Row_ledger_entry r) = ledger_entry_checks db r"
| "row_checks db (Row_stamp_batch r) = stamp_batch_checks db r"
| "row_checks db (Row_stamp r) = stamp_checks db r"
| "row_checks db (Row_stamp_event r) = stamp_event_checks db r"
| "row_checks db (Row_inspection r) = inspection_checks db r"
| "row_checks db (Row_verification r) = verification_checks db r"
| "row_checks db (Row_idempotency_record r) = idempotency_record_checks db r"
| "row_checks db (Row_outbox_message r) = outbox_message_checks db r"
| "row_checks db (Row_audit_event r) = audit_event_checks db r"
| "row_checks db (Row_reconciliation_run r) = reconciliation_run_checks db r"

fun append_row :: "any_row \<Rightarrow> db \<Rightarrow> db" where
  "append_row (Row_company r) db = db\<lparr>companies := companies db @ [r]\<rparr>"
| "append_row (Row_principal r) db = db\<lparr>principals := principals db @ [r]\<rparr>"
| "append_row (Row_credential r) db = db\<lparr>credentials := credentials db @ [r]\<rparr>"
| "append_row (Row_tariff r) db = db\<lparr>tariffs := tariffs db @ [r]\<rparr>"
| "append_row (Row_order r) db = db\<lparr>orders := orders db @ [r]\<rparr>"
| "append_row (Row_order_transition r) db = db\<lparr>order_transitions := order_transitions db @ [r]\<rparr>"
| "append_row (Row_approval r) db = db\<lparr>approvals := approvals db @ [r]\<rparr>"
| "append_row (Row_payment_intent r) db = db\<lparr>payment_intents := payment_intents db @ [r]\<rparr>"
| "append_row (Row_payment_receipt r) db = db\<lparr>payment_receipts := payment_receipts db @ [r]\<rparr>"
| "append_row (Row_tb_ledger_intent r) db = db\<lparr>tb_ledger_intents := tb_ledger_intents db @ [r]\<rparr>"
| "append_row (Row_journal r) db = db\<lparr>journals := journals db @ [r]\<rparr>"
| "append_row (Row_ledger_entry r) db = db\<lparr>ledger_entries := ledger_entries db @ [r]\<rparr>"
| "append_row (Row_stamp_batch r) db = db\<lparr>stamp_batches := stamp_batches db @ [r]\<rparr>"
| "append_row (Row_stamp r) db = db\<lparr>stamps := stamps db @ [r]\<rparr>"
| "append_row (Row_stamp_event r) db = db\<lparr>stamp_events := stamp_events db @ [r]\<rparr>"
| "append_row (Row_inspection r) db = db\<lparr>inspections := inspections db @ [r]\<rparr>"
| "append_row (Row_verification r) db = db\<lparr>verifications := verifications db @ [r]\<rparr>"
| "append_row (Row_idempotency_record r) db = db\<lparr>idempotency_records := idempotency_records db @ [r]\<rparr>"
| "append_row (Row_outbox_message r) db = db\<lparr>outbox_messages := outbox_messages db @ [r]\<rparr>"
| "append_row (Row_audit_event r) db = db\<lparr>audit_events := audit_events db @ [r]\<rparr>"
| "append_row (Row_reconciliation_run r) db = db\<lparr>reconciliation_runs := reconciliation_runs db @ [r]\<rparr>"

fun row_writable :: "any_row \<Rightarrow> bool" where
  "row_writable (Row_journal r) = (j_reverses_journal_id r \<noteq> Some (j_id r))"
| "row_writable (Row_audit_event r) = bigint (ae_seq r)"
| "row_writable _ = True"

lemma store_of_append:
  "store_of (append_row x db) = (store_of db)(row_table x := store_of db (row_table x) @ [row_cells x])"
  by (cases x; rule ext; simp add: store_of_def)

lemmas inserts_of_tables = company_store.inserts principal_store.inserts credential_store.inserts tariff_store.inserts order_store.inserts order_transition_store.inserts approval_store.inserts payment_intent_store.inserts payment_receipt_store.inserts tb_ledger_intent_store.inserts journal_store.inserts ledger_entry_store.inserts stamp_batch_store.inserts stamp_store.inserts stamp_event_store.inserts inspection_store.inserts verification_store.inserts idempotency_record_store.inserts outbox_message_store.inserts audit_event_store.inserts reconciliation_run_store.inserts

text \<open>
  C27. The migrated schema and the constraints of \<open>models.py\<close> agree.  On the database that the two migrations create, the \<open>INSERT\<close> of a row
  succeeds exactly when the row satisfies the types and constraints of its model, and then stores what the model stores, in
  this table and no other.  The rows are those of all tables but the counters, with two exceptions: a number of the audit trail
  beyond the column's range, which the sequence never gives, and a journal that reverses itself.
\<close>

theorem migrated_schema_agrees:
  assumes "run_operations (upgrade_0001 @ upgrade_0002) empty_catalogue = Inr cat" and "row_writable x"
  shows "run_insert cat (row_table x) (row_cells x) (store_of db) = Inr st \<longleftrightarrow>
    row_types x \<and> row_checks db x \<and> st = store_of (append_row x db)"
proof -
  have "cat = schema_0002" using assms(1) by (simp only: migrated)
  moreover have "run_insert schema_0002 (row_table x) (row_cells x) (store_of db) = Inr st \<longleftrightarrow>
      row_types x \<and> row_checks db x \<and> st = (store_of db)(row_table x := store_of db (row_table x) @ [row_cells x])"
    using assms(2) by (cases x) (simp_all add: inserts_of_tables store_of_tables)
  ultimately show ?thesis by (simp add: store_of_append)
qed

definition first_company :: company where
  "first_company = \<lparr>co_id = 1, co_tin = ''12345678'', co_name = ''Distillery'', co_kyb_status = K_VERIFIED,
     co_kyb_verified_at = Some 0, co_risk_tier = LOW, co_created_at = 0\<rparr>"

lemma first_company_ok: "company_types first_company" "company_checks empty_db first_company"
  by (simp_all add: first_company_def company_types_def company_checks_def varchar_def unused_def empty_db_def)

theorem migrated_schema_agrees_witness:
  "run_operations (upgrade_0001 @ upgrade_0002) empty_catalogue = Inr schema_0002 \<and>
   run_insert schema_0002 ''companies'' (company_row first_company) (store_of empty_db) =
     Inr (store_of (empty_db\<lparr>companies := [first_company]\<rparr>))"
  using migrated_schema_agrees [of schema_0002 "Row_company first_company" empty_db]
  by (simp add: migrated first_company_ok) (simp add: empty_db_def)

text \<open>
  C28. History cannot be rewritten.  Whatever sequence of insertions, updates and deletions succeeds on the migrated database, cascading
  deletions included, the append-only tables (audit trail, transitions, stamp events, ledger, receipts, verifications) only grow at the end, and
  every intent of the external ledger has the transfer, accounts, codes, amount and hash it was inserted with.
\<close>

theorem history_is_permanent:
  assumes "run_operations (upgrade_0001 @ upgrade_0002) empty_catalogue = Inr cat" and "each (run_dml cat) script st = Inr st'"
  shows "(\<forall>t \<in> set APPEND_ONLY_TABLES. \<exists>new. st' t = st t @ new) \<and>
    (\<forall>r' \<in> set (st' ''tigerbeetle_ledger_intents'').
       (\<exists>r \<in> set (st ''tigerbeetle_ledger_intents''). same_terms r r') \<or>
       (\<exists>r. Insert_row ''tigerbeetle_ledger_intents'' r \<in> set script \<and> same_terms r r'))"
proof -
  have "cat = schema_0002" using assms(1) by (simp only: migrated)
  then show ?thesis using assms(2) script_keeps_history script_keeps_terms by blast
qed

lemma empty_db_tables: "companies empty_db = []" "audit_events empty_db = []"
  by (simp_all add: empty_db_def)

lemma delete_nothing: "filter p (st t) = [] \<Longrightarrow> n \<noteq> 0 \<Longrightarrow> delete_rows cat n t p st = Inr st"
  by (cases n) simp_all

theorem history_is_permanent_witness:
  "\<exists>st'. each (run_dml schema_0002) [Insert_row ''companies'' (company_row first_company), Delete_rows ''audit_events'' (\<lambda>r. True)]
     (store_of empty_db) = Inr st' \<and> st' ''companies'' = [company_row first_company] \<and>
   (\<forall>t \<in> set APPEND_ONLY_TABLES. \<exists>new. st' t = store_of empty_db t @ new)"
proof -
  let ?st = "(store_of empty_db)(''companies'' := [company_row first_company])"
  have "run_insert schema_0002 ''companies'' (company_row first_company) (store_of empty_db) = Inr ?st"
    using company_store.inserts [of first_company empty_db ?st] first_company_ok by (simp add: empty_db_tables)
  moreover have "delete_rows schema_0002 (length (cat_tables schema_0002)) ''audit_events'' (\<lambda>r. True) ?st = Inr ?st"
    by (rule delete_nothing) (simp_all add: store_of_tables empty_db_tables schema_0002_def add_created_def create_0002_def)
  ultimately have run: "each (run_dml schema_0002)
      [Insert_row ''companies'' (company_row first_company), Delete_rows ''audit_events'' (\<lambda>r. True)] (store_of empty_db) = Inr ?st"
    by simp
  show ?thesis
    using history_is_permanent [OF _ run] run by (intro exI [of _ ?st]) (simp add: migrated)
qed

end
