(* ===== verification/Spec2Isabelle.thy ===== *)
theory Spec2Isabelle
  imports Capabilities Attestation Schema
begin

text \<open>
  A verification of the tax stamp platform, the Python package under \<^verbatim>\<open>src/src/taxstamp\<close>.  Companies order stamps for excise
  goods; orders are priced from a tariff, checked against registries, approved by people other than their submitter, paid by
  remittances, and then issued as numbered stamps that are inspected, activated, verified in the field, voided and expired.  All
  state is in a relational database; what leaves the process goes through an outbox that a worker delivers; Redis holds nonces
  and counters of rate limits.

  \<^bold>\<open>Modelling.\<close>  The database is the record \<^typ>\<open>db\<close> of \<^verbatim>\<open>Models\<close>, one list of rows per table of \<^verbatim>\<open>models.py\<close>, and an INSERT checks the
  column types and the constraints of its table.  An operation of the program is a function from a database to
  \<^typ>\<open>exn + 'a \<times> db\<close> (the type \<open>res\<close> of \<^verbatim>\<open>Prelude\<close>): \<open>Inl\<close> is the exception that was raised, and since it rolls the
  transaction back no database is returned with it.  Operations that commit more than once (issuance, the relay, the external
  ledger) return the database also when they raise.  Every branch and every early return of the source is a branch of the
  definition, every call that writes (audit event, outbox message, history row) is in it.  Python integers are \<^typ>\<open>int\<close>, and the
  widths of the columns are checked where rows are written; SHA-256 works on 32-bit words; decimals have the precision of
  Python's default context; times are microseconds, with the range checks of \<^verbatim>\<open>datetime\<close>.  Definitions are executable.

  \<^bold>\<open>Parameters.\<close>  What is not under \<^verbatim>\<open>src\<close> is an argument: the HTTP transport of the registries and of the anchoring service, the TigerBeetle
  client, the Kafka producer, the Redis client, the JSON and pydantic parsers of request bodies, two middlewares of Starlette,
  the readings of the clock, fresh tokens, identifiers and random suffixes, whether
  \<^verbatim>\<open>datetime.fromisoformat\<close> reads a string, and the text of exceptions.  Properties hold for all of them, failing ones
  included; where a property relies on documented behaviour (Redis keeps what it was told to keep, the external ledger keeps transfers)
  that is a hypothesis with a name, and its witness instantiates it.

  \<^bold>\<open>The theories, in the order of the code.\<close>

  \<^item> \<^verbatim>\<open>Prelude\<close>: exceptions, the result type, queries over lists of rows, formatting of integers, shared lemmas.

  \<^item> \<^verbatim>\<open>Enums\<close> (\<^verbatim>\<open>enums.py\<close>, \<^verbatim>\<open>errors.py\<close>): the enumerations with their stored values, the three tables of transitions, HTTP status and
  code of each error.  The locale \<open>state_machine\<close> derives from a rank that histories are ordered; the three machines interpret it.

  \<^item> \<^verbatim>\<open>Clock\<close>, \<^verbatim>\<open>Money\<close>, \<^verbatim>\<open>Serials\<close>, \<^verbatim>\<open>Quality\<close>: times; amounts, VAT and prices, exact within 28 digits; serial numbers with their check
  character, parsing inverse to formatting, substitutions of a character and swaps of digits detected; the sampling plan.

  \<^item> \<^verbatim>\<open>Sha256\<close>, \<^verbatim>\<open>Canonical\<close>, \<^verbatim>\<open>Security\<close>: hashes; canonical JSON, which identifies documents up to the order of keys; keyed hashes of
  tokens and codes, signed requests and the window in which they are accepted.

  \<^item> \<^verbatim>\<open>Models\<close>, \<^verbatim>\<open>Tables\<close>: rows, constraints and insertion; the locale \<open>unique_index\<close> says what a lookup by a unique column finds after
  an insertion, and every unique column the services look up interprets it.

  \<^item> \<^verbatim>\<open>Audit_Chain\<close>, \<^verbatim>\<open>Outbox\<close>, \<^verbatim>\<open>Idempotency\<close>, \<^verbatim>\<open>Ledger\<close>, \<^verbatim>\<open>Context\<close>, \<^verbatim>\<open>Providers\<close> (\<^verbatim>\<open>audit.py\<close>, \<^verbatim>\<open>outbox.py\<close>, \<^verbatim>\<open>idempotency.py\<close> with
  \<^verbatim>\<open>api/idempotent.py\<close>, \<^verbatim>\<open>ledger.py\<close>, \<^verbatim>\<open>services/context.py\<close>, \<^verbatim>\<open>providers\<close>): the infrastructure that the services share.  The chain is
  tamper evident, messages are recorded once and leased to one worker at a time, a request runs once per key, the locale
  \<open>double_entry\<close> gives that balanced postings keep the books balanced, compliance needs every registry, the Merkle root binds its serials.

  \<^item> \<^verbatim>\<open>Orders\<close>, \<^verbatim>\<open>Payments\<close>, \<^verbatim>\<open>Issuance\<close> and \<^verbatim>\<open>Issuance_Progress\<close>, \<^verbatim>\<open>Stamps\<close>, \<^verbatim>\<open>Inspection\<close>, \<^verbatim>\<open>Verify\<close>, \<^verbatim>\<open>External_Settlement\<close>,
  \<^verbatim>\<open>Reconciliation\<close>, \<^verbatim>\<open>Tigerbeetle_Ledger\<close> (\<^verbatim>\<open>services\<close>, \<^verbatim>\<open>tigerbeetle.py\<close>): the operations of the services, with their effect case by case and an
  invariant each.  The locale \<open>serial_allocator\<close> has that blocks of serials are disjoint, \<open>stamp_operation\<close> what activation and voiding
  share.  The external ledger refines a transition system of intents and transfers.

  \<^item> \<^verbatim>\<open>Worker\<close> (\<^verbatim>\<open>worker/handlers.py\<close>, \<^verbatim>\<open>worker/relay.py\<close>, \<^verbatim>\<open>projection.py\<close>): the handlers, the relay of the outbox, expiry and reconciliation passes.
  What a pass of the relay promises is stated without its code (\<open>turns\<close>): one turn per leased message, processed exactly when its handler returned and the publisher acknowledged.

  \<^item> \<^verbatim>\<open>Platform\<close>, \<^verbatim>\<open>Delivery\<close>, \<^verbatim>\<open>System\<close>: the invariant \<open>platform_wf\<close> of all tables together is kept by every operation; messages have handlers and
  the fields those read; stamps only move forward.  \<open>step\<close> is the transition relation of the platform, with one rule per operation.

  \<^item> \<^verbatim>\<open>Access\<close>, \<^verbatim>\<open>Gates\<close>, \<^verbatim>\<open>Requests\<close>, \<^verbatim>\<open>Api\<close>, \<^verbatim>\<open>Api_System\<close> (\<^verbatim>\<open>api/deps.py\<close>, \<^verbatim>\<open>gates.py\<close>, \<^verbatim>\<open>api/schemas.py\<close>, \<^verbatim>\<open>api/routers\<close>,
  \<^verbatim>\<open>api/errors.py\<close>): authentication, replay guard and rate limiter, the bodies of requests, every route, the answer to every exception.
  A route maps database and Redis state to a result and the next states.  Requests are sequences of steps, failed requests change nothing but the last use of a
  credential, a count and a claimed nonce, documents go to those who may see them and show what belongs to them.  The status routes are in \<^verbatim>\<open>Capabilities\<close>.

  \<^item> \<^verbatim>\<open>Networks\<close>, \<^verbatim>\<open>Config\<close> (\<^verbatim>\<open>config.py\<close>, and what it uses of \<^verbatim>\<open>ipaddress\<close>): all settings, their bounds and validators, the checks for staging
  and production.

  \<^item> \<^verbatim>\<open>Attestation\<close> (\<^verbatim>\<open>src/scripts/convert_storage_encryption_yaml.py\<close>, \<^verbatim>\<open>check_storage_encryption.py\<close>, and what they use of
  \<^verbatim>\<open>urllib.parse\<close>): the validation of attestations of encrypted storage and the check of a deployment against them, which agree.

  \<^item> \<^verbatim>\<open>Migrations\<close>, \<^verbatim>\<open>Schema\<close> (\<^verbatim>\<open>src/migrations/versions\<close>): the operations of a migration and what they do to the catalogue of the database, the tables
  and triggers of both migrations; upgrades succeed and downgrades undo them.  Then the schema at work: \<^verbatim>\<open>CHECK\<close> constraints in three-valued logic, keys,
  references with cascades, triggers.  Every table of \<^verbatim>\<open>Models\<close> interprets the locale \<open>stored_table\<close>: the migrated schema admits exactly the rows that the model
  admits, and its triggers keep history.

  \<^item> \<^verbatim>\<open>Cli\<close>, \<^verbatim>\<open>Application\<close>, \<^verbatim>\<open>Capabilities\<close> (\<^verbatim>\<open>cli.py\<close> and \<^verbatim>\<open>src/scripts/reconcile_sandbox.py\<close>; \<^verbatim>\<open>runtime.py\<close>, \<^verbatim>\<open>api/middleware.py\<close>, \<^verbatim>\<open>api/app.py\<close>, \<^verbatim>\<open>worker/main.py\<close>; \<^verbatim>\<open>capabilities.py\<close>,
  \<^verbatim>\<open>integrations.py\<close>, \<^verbatim>\<open>key_management.py\<close>, the reporting routes of \<^verbatim>\<open>ops.py\<close>): the commands of the administration, the processes wired from
  one configuration, the reports.  Any interleaving of requests, worker passes and commands is a sequence of steps of the platform.

  This theory has what holds in every reachable state.

  \<^bold>\<open>Loops.\<close>  The issuance loop (\<open>issue_loop\<close>) is a total function, by the measure of the stamps that the order lacks; \<open>issue_order_terminates\<close>
  bounds its transactions.  The loops over messages, rows and characters are structural.  The worker's loop ends when it is told to, and is modelled for every number of passes.
  One definition has a bound, the depth of cascading deletions in \<^verbatim>\<open>Schema\<close>: the number of tables, where two are enough (\<open>cascades_are_shallow\<close>).

  \<^bold>\<open>Not modelled.\<close>  Transactions run one after the other: row locks, the optimistic version columns and isolation anomalies are not modelled, so that nothing is said
  of two transactions that overlap.  Strings have the characters \<open>0 .. 255\<close>; a JSON column takes every JSON value, also one with the
  character \<open>0\<close>, which PostgreSQL refuses.  Rows whose order a query leaves open come in the order of their table.  Left out are log lines and metrics (\<^verbatim>\<open>observability.py\<close>), engine options (\<^verbatim>\<open>db.py\<close>),
  Alembic's environment (\<^verbatim>\<open>src/migrations/env.py\<close>), the messages of exceptions where the code does not read them, signal handling and sleeping,
  the probes of a running deployment in \<^verbatim>\<open>src/scripts/local_security_scan.py\<close>, tests, documents and deployment manifests.
\<close>

section \<open>What holds in every state the platform can reach\<close>

text \<open>
  C1. No stamp without approval and payment.  In every state that any sequence of operations of the services, the worker and
  the administration reaches from a well-formed one, every stamp belongs to a batch of an order that is paid: a matched
  receipt carries exactly the total of the order in its currency.  At every level that the risk of the order requires
  somebody approved it, nobody decided on it twice, and nobody who decided on it is the one who submitted it.
\<close>

theorem stamps_are_approved_and_paid:
  assumes "(step rt)\<^sup>*\<^sup>* (db0, w0) (db, w)" and "system_inv (rt_audit_chain_secret rt) db0" and "s \<in> set (stamps db)"
  shows "\<exists>b \<in> set (stamp_batches db). \<exists>ord \<in> set (orders db). \<exists>i \<in> set (payment_intents db). \<exists>r \<in> set (payment_receipts db).
    s_batch_id s = b_id b \<and> b_order_id b = o_id ord \<and> o_status ord \<in> {O_PAID, O_ISSUING, O_ISSUED} \<and>
    pi_order_id i = o_id ord \<and> matched_for (pi_id i) r \<and> rc_amount_minor r = o_total_minor ord \<and> rc_currency r = o_currency ord \<and>
    (\<forall>l \<in> set (REQUIRED_APPROVALS (o_risk_tier ord)). \<exists>a \<in> set (approvals db).
       ap_order_id a = o_id ord \<and> ap_level a = l \<and> ap_decision a = D_APPROVED \<and> ap_actor_principal_id a \<noteq> o_submitted_by ord) \<and>
    distinct (map ap_actor_principal_id (filter (\<lambda>a. ap_order_id a = o_id ord) (approvals db)))"
proof -
  have wf: "platform_wf (rt_audit_chain_secret rt) db" using reachable_wf [OF assms(1,2)] .
  obtain b ord where b: "b \<in> set (stamp_batches db)" "s_batch_id s = b_id b" and ord: "ord \<in> set (orders db)" "b_order_id b = o_id ord" "paid ord"
    using stamp_order [OF wf assms(3)] .
  obtain i r where "i \<in> set (payment_intents db)" "r \<in> set (payment_receipts db)" "pi_order_id i = o_id ord" "matched_for (pi_id i) r"
    "rc_amount_minor r = o_total_minor ord" "rc_currency r = o_currency ord"
    using paid_order_receipt [OF wf ord(1,3)] .
  moreover have "o_status ord \<in> {O_PAID, O_ISSUING, O_ISSUED}" using ord(3) by (simp add: paid_def)
  ultimately show ?thesis
    using b ord(1,2) paid_order_approved [OF wf ord(1,3)] order_approvers_distinct [OF wf ord(1)]
    by (intro bexI [of _ b] bexI [of _ ord] bexI [of _ i] bexI [of _ r] conjI ballI) (simp_all del: insert_iff)
qed

theorem stamps_are_approved_and_paid_witness:
  "\<exists>b \<in> set (stamp_batches issuing_db). \<exists>ord \<in> set (orders issuing_db). b_order_id b = o_id ord \<and> o_status ord \<in> {O_PAID, O_ISSUING, O_ISSUED}"
  using stamps_are_approved_and_paid [OF rtranclp.rtrancl_refl, of quiet_runtime issuing_db sample_stamp] issuing_db_inv
  by (auto simp: issuing_db_fields)

text \<open>
  C2. Reconciliation finds nothing in a platform that only its own operations changed.  In every state reachable from the empty
  database, whatever the external systems answered and whatever failed on the way, each of the nine checks passes, except that
  messages may wait in the outbox and intents of the external ledger may be open or quarantined.
\<close>

theorem reachable_reconciles:
  assumes "(step rt)\<^sup>*\<^sup>* (empty_db, w0) (db, w)" and "is_ok (dt_add now (- (stale * SECOND)))"
  shows "\<exists>ob tb. run_checks now (rt_audit_chain_secret rt) stale db = Inr [None, None, None, None, None, None, ob, tb, None] \<and>
    (\<forall>f. ob = Some f \<longrightarrow> f_kind f = ''outbox_backlog'') \<and> (\<forall>f. tb = Some f \<longrightarrow> f_kind f = ''tigerbeetle_intent_control_failure'')"
  using platform_checks [OF reachable_wf [OF assms(1) empty_db_inv] assms(2)] .

theorem reachable_reconciles_witness:
  "\<exists>ob tb. run_checks in_2026 ''k'' 900 empty_db = Inr [None, None, None, None, None, None, ob, tb, None]"
proof -
  have "is_ok (dt_add in_2026 (- (900 * SECOND)))" by code_simp
  with reachable_reconciles [OF rtranclp.rtrancl_refl, of in_2026 900 quiet_runtime] show ?thesis
    by (auto simp: quiet_runtime_def)
qed

text \<open>
  C3. Stamps never come back.  Whatever happens between two states of the platform, every stamp of the first is in the second,
  with the same identity, serial, batch and secure code, in a status that the life cycle allows after the first; a void
  stamp stays void, and an expired one is never active again.
\<close>

theorem stamps_never_revert:
  assumes "(step rt)\<^sup>*\<^sup>* (db, w) (db', w')" and "system_inv (rt_audit_chain_secret rt) db" and "s \<in> set (stamps db)"
  shows "\<exists>s' \<in> set (stamps db'). s_id s' = s_id s \<and> s_serial s' = s_serial s \<and> s_batch_id s' = s_batch_id s \<and>
    s_secure_code_hash s' = s_secure_code_hash s \<and> s_expires_at s' = s_expires_at s \<and>
    (s_status s' = s_status s \<or> assert_stamp_transition (s_status s) (s_status s') = Inr ()) \<and>
    (s_status s = S_VOID \<longrightarrow> s_status s' = S_VOID) \<and> (s_status s = S_EXPIRED \<longrightarrow> s_status s' \<in> {S_EXPIRED, S_VOID})"
proof -
  obtain ss new where st: "stamps db' = ss @ new" "list_all2 stamp_move (stamps db) ss"
    using steps_well [OF assms(1,2)] by (auto simp: goes_well_def stamps_move_def)
  obtain n where n: "n < length (stamps db)" "stamps db ! n = s" using assms(3) by (auto simp: in_set_conv_nth)
  define s' where "s' = ss ! n"
  have s': "s' \<in> set ss" "stamp_move s s'" using st(2) n by (auto simp: s'_def list_all2_conv_all_nth)
  have "s_status s' = s_status s \<or> assert_stamp_transition (s_status s) (s_status s') = Inr ()" using s'(2) by (simp add: stamp_move_def)
  moreover have "s_secure_code_hash s' = s_secure_code_hash s \<and> s_expires_at s' = s_expires_at s"
    using s'(2) unfolding stamp_move_def by (cases s, cases s') auto
  ultimately show ?thesis
    using s' st(1) stamp_move_keys [OF s'(2)] by (intro bexI [of _ s']) (auto simp: assert_stamp_transition_iff)
qed

theorem stamps_never_revert_witness:
  "\<exists>s' \<in> set (stamps issuing_db). s_serial s' = s_serial sample_stamp \<and> s_batch_id s' = s_batch_id sample_stamp"
  using stamps_never_revert [OF rtranclp.rtrancl_refl, of quiet_runtime issuing_db sample_stamp] issuing_db_inv
  by (auto simp: issuing_db_fields)

text \<open>
  C4. Every message finds its handler.  In every state reachable from the empty database, or from any well-formed one, each
  message of the outbox has an event type with a handler, and its payload names the object it is about in the form of an
  identifier and carries the other fields that the handler reads.  No message of the platform is dead-lettered because
  nobody knows it or because it is malformed.
\<close>

theorem messages_find_handlers:
  assumes "(step rt)\<^sup>*\<^sup>* (db0, w0) (db, w)" and "db0 = empty_db \<or> system_inv (rt_audit_chain_secret rt) db0"
    and "m \<in> set (outbox_messages db)"
  shows "is_ok (handler_for m :: 'a handler res) \<and> payload_ok (m_event_type m) (m_payload m)"
proof -
  have "system_inv (rt_audit_chain_secret rt) db0" using assms(2) empty_db_inv by auto
  then have "system_inv (rt_audit_chain_secret rt) db" using steps_well [OF assms(1)] by (simp add: goes_well_def)
  then have "deliverable m" using assms(3) by (simp add: system_inv_def list_all_iff)
  then show ?thesis using deliverable_handler by (auto simp: deliverable_def)
qed

theorem messages_find_handlers_witness:
  "is_ok (handler_for sample_notice :: unit handler res) \<and> payload_ok (m_event_type sample_notice) (m_payload sample_notice)"
  using messages_find_handlers [OF rtranclp.rtrancl_refl, of notice_db quiet_runtime sample_notice] notice_db_inv
  by (simp add: notice_db_def)

end
